(* ===== verification/Prelude.thy ===== *)
theory Prelude
  imports Main "HOL-Library.Word" "HOL-Library.AList" "HOL-Library.Sublist"
begin

unbundle bit_operations_syntax

text \<open>
  Shared vocabulary of the development: the machine types of the Rust sources, the
  \<open>Result\<close> type and its sequencing, the parts of the Rust standard library the crates use
  (saturating arithmetic, big-endian integers, UTF-8 validation, \<open>HashMap\<close>, \<open>BTreeMap\<close>),
  and the generic lemmas about them that the component theories share.

  A \<open>u64\<close> is a 64-bit word whose \<open>+\<close> wraps around as in a release build; a \<open>usize\<close>
  that counts bytes or elements of a vector in memory is a natural number. A fixed array
  \<open>[u8; N]\<close> is a byte list, and \<open>N\<close> is a side condition of the theorems that need it.
  A Rust \<open>String\<close> is the byte list of its UTF-8 encoding.
\<close>

section \<open>Types\<close>

type_synonym byte = "8 word"
type_synonym bytes = "8 word list"
type_synonym u64 = "64 word"
type_synonym key = "8 word list"
type_synonym ('e, 'a) rresult = "'e + 'a"
type_synonym ('k, 'v) hashmap = "('k \<times> 'v) list"
type_synonym 'v btree = "(64 word \<times> 'v) list"

abbreviation Ok :: "'a \<Rightarrow> 'e + 'a" where
  "Ok \<equiv> Inr"

abbreviation Err :: "'e \<Rightarrow> 'e + 'a" where
  "Err \<equiv> Inl"

named_theorems result_simps \<open>equations that resolve a chain of fallible calls\<close>
named_theorems sat_simps \<open>unfolding of the saturating and checked integer operations\<close>

section \<open>Results\<close>

text \<open>\<open>m?; f\<close> of Rust: an error returns at once, a value goes on.\<close>

definition rbind :: "'e + 'a \<Rightarrow> ('a \<Rightarrow> 'e + 'b) \<Rightarrow> 'e + 'b" where
  "rbind m f = (case m of Err e \<Rightarrow> Err e | Ok x \<Rightarrow> f x)"

text \<open>\<open>opt.ok_or(e)\<close>, \<open>r.map_err(|_| e)\<close>, \<open>r.is_ok()\<close> and a guarded early return.\<close>

definition ok_or :: "'a option \<Rightarrow> 'e \<Rightarrow> 'e + 'a" where
  "ok_or m e = (case m of None \<Rightarrow> Err e | Some x \<Rightarrow> Ok x)"

definition map_err :: "('e \<Rightarrow> 'f) \<Rightarrow> 'e + 'a \<Rightarrow> 'f + 'a" where
  "map_err f m = (case m of Err e \<Rightarrow> Err (f e) | Ok x \<Rightarrow> Ok x)"

definition is_ok :: "'e + 'a \<Rightarrow> bool" where
  "is_ok m = (case m of Err e \<Rightarrow> False | Ok x \<Rightarrow> True)"

definition ensure :: "bool \<Rightarrow> 'e \<Rightarrow> 'e + unit" where
  "ensure b e = (if b then Ok () else Err e)"

text \<open>\<open>op(&mut self)?; ...\<close>: an error returns with the state it left.\<close>

definition sbind :: "('e + 'a) \<times> 's \<Rightarrow> ('a \<Rightarrow> 's \<Rightarrow> ('e + 'b) \<times> 's) \<Rightarrow> ('e + 'b) \<times> 's" where
  "sbind m f = (case m of (Err e, s) \<Rightarrow> (Err e, s) | (Ok x, s) \<Rightarrow> f x s)"

text \<open>A fallible step that reads the state but does not change it.\<close>

definition sread :: "'e + 'a \<Rightarrow> 's \<Rightarrow> ('a \<Rightarrow> ('e + 'b) \<times> 's) \<Rightarrow> ('e + 'b) \<times> 's" where
  "sread m s f = (case m of Err e \<Rightarrow> (Err e, s) | Ok x \<Rightarrow> f x)"

section \<open>Integers\<close>

definition saturating_sub :: "u64 \<Rightarrow> u64 \<Rightarrow> u64" where
  "saturating_sub a b = (if b \<le> a then a - b else 0)"

definition saturating_add :: "u64 \<Rightarrow> u64 \<Rightarrow> u64" where
  "saturating_add a b = (if unat a + unat b < 2 ^ 64 then a + b else - 1)"

text \<open>\<open>a.saturating_mul(2)\<close>, the only use the crates make of \<open>saturating_mul\<close>.\<close>

definition saturating_double :: "u64 \<Rightarrow> u64" where
  "saturating_double a = (if 2 * unat a < 2 ^ 64 then 2 * a else - 1)"

text \<open>\<open>n.to_be_bytes()\<close> for the low \<open>k\<close> bytes of an integer, and \<open>from_be_bytes\<close>.\<close>

fun be_bytes :: "nat \<Rightarrow> u64 \<Rightarrow> bytes" where
  "be_bytes 0 n = []"
| "be_bytes (Suc k) n = ucast (drop_bit (8 * k) n) # be_bytes k n"

definition from_be_bytes :: "bytes \<Rightarrow> u64" where
  "from_be_bytes bs = foldl (\<lambda>acc b. push_bit 8 acc OR ucast b) 0 bs"

section \<open>Strings\<close>

definition str_bytes :: "string \<Rightarrow> bytes" where
  "str_bytes s = map of_char s"

text \<open>A continuation byte of UTF-8, and one restricted to a range.\<close>

definition utf8_cont :: "byte \<Rightarrow> bool" where
  "utf8_cont b \<longleftrightarrow> 0x80 \<le> b \<and> b \<le> 0xBF"

definition in_range :: "byte \<Rightarrow> byte \<Rightarrow> byte \<Rightarrow> bool" where
  "in_range lo hi b \<longleftrightarrow> lo \<le> b \<and> b \<le> hi"

text \<open>
  \<open>std::str::from_utf8(bytes).is_ok()\<close>: the well-formed byte sequences of Unicode (no
  overlong form, no surrogate, nothing above \<open>U+10FFFF\<close>).
\<close>

fun utf8_valid :: "bytes \<Rightarrow> bool" where
  "utf8_valid [] = True"
| "utf8_valid (b # bs) =
     (if b \<le> 0x7F then utf8_valid bs
      else if in_range 0xC2 0xDF b then
        (case bs of c1 # r \<Rightarrow> utf8_cont c1 \<and> utf8_valid r | _ \<Rightarrow> False)
      else if in_range 0xE0 0xEF b then
        (case bs of c1 # c2 # r \<Rightarrow>
           (if b = 0xE0 then in_range 0xA0 0xBF c1
            else if b = 0xED then in_range 0x80 0x9F c1
            else utf8_cont c1) \<and> utf8_cont c2 \<and> utf8_valid r
         | _ \<Rightarrow> False)
      else if in_range 0xF0 0xF4 b then
        (case bs of c1 # c2 # c3 # r \<Rightarrow>
           (if b = 0xF0 then in_range 0x90 0xBF c1
            else if b = 0xF4 then in_range 0x80 0x8F c1
            else utf8_cont c1) \<and> utf8_cont c2 \<and> utf8_cont c3 \<and> utf8_valid r
         | _ \<Rightarrow> False)
      else False)"

section \<open>Containers\<close>

text \<open>
  A \<open>HashMap\<close> is an association list with distinct keys; its order stands for the
  iteration order, which Rust leaves open. A \<open>BTreeMap\<close> with \<open>u64\<close> keys is an
  association list sorted by key, which is its iteration order.
\<close>

definition hm_get :: "('k, 'v) hashmap \<Rightarrow> 'k \<Rightarrow> 'v option" where
  "hm_get m k = map_of m k"

definition hm_insert :: "'k \<Rightarrow> 'v \<Rightarrow> ('k, 'v) hashmap \<Rightarrow> ('k, 'v) hashmap" where
  "hm_insert k v m = AList.update k v m"

definition hm_remove :: "'k \<Rightarrow> ('k, 'v) hashmap \<Rightarrow> ('k, 'v) hashmap" where
  "hm_remove k m = filter (\<lambda>p. fst p \<noteq> k) m"

definition hm_retain :: "('k \<Rightarrow> 'v \<Rightarrow> bool) \<Rightarrow> ('k, 'v) hashmap \<Rightarrow> ('k, 'v) hashmap" where
  "hm_retain P m = filter (\<lambda>p. P (fst p) (snd p)) m"

definition hm_wf :: "('k, 'v) hashmap \<Rightarrow> bool" where
  "hm_wf m \<longleftrightarrow> distinct (map fst m)"

fun bt_insert :: "u64 \<Rightarrow> 'v \<Rightarrow> 'v btree \<Rightarrow> 'v btree" where
  "bt_insert k v [] = [(k, v)]"
| "bt_insert k v ((k', v') # m) =
     (if k < k' then (k, v) # (k', v') # m
      else if k = k' then (k, v) # m
      else (k', v') # bt_insert k v m)"

definition bt_wf :: "'v btree \<Rightarrow> bool" where
  "bt_wf m \<longleftrightarrow> sorted_wrt (<) (map fst m)"

text \<open>\<open>v.resize(n, 0)\<close> of a byte vector.\<close>

definition resize :: "nat \<Rightarrow> bytes \<Rightarrow> bytes" where
  "resize n bs = take n bs @ replicate (n - length bs) 0"

section \<open>Lemmas\<close>

subsection \<open>Results\<close>

lemma rbind_Ok [simp, result_simps]: "rbind (Ok x) f = f x"
  by (simp add: rbind_def)

lemma rbind_Err [simp, result_simps]: "rbind (Err e) f = Err e"
  by (simp add: rbind_def)

lemma rbind_eq_Ok [result_simps]: "rbind m f = Ok y \<longleftrightarrow> (\<exists>x. m = Ok x \<and> f x = Ok y)"
  by (cases m) auto

lemma rbind_eq_Err [result_simps]:
  "rbind m f = Err e \<longleftrightarrow> m = Err e \<or> (\<exists>x. m = Ok x \<and> f x = Err e)"
  by (cases m) auto

lemma rbind_cong [fundef_cong]:
  "m = m' \<Longrightarrow> (\<And>x. m' = Ok x \<Longrightarrow> f x = g x) \<Longrightarrow> rbind m f = rbind m' g"
  by (cases m') auto

lemma ok_or_simps [simp]: "ok_or None e = Err e" "ok_or (Some x) e = Ok x"
  by (simp_all add: ok_or_def)

lemma ok_or_eq_Ok [simp, result_simps]: "ok_or m e = Ok x \<longleftrightarrow> m = Some x"
  by (cases m) auto

lemma ok_or_eq_Err [simp, result_simps]: "ok_or m e = Err x \<longleftrightarrow> m = None \<and> x = e"
  by (cases m) auto

lemma map_err_simps [simp]: "map_err f (Err e) = Err (f e)" "map_err f (Ok x) = Ok x"
  by (simp_all add: map_err_def)

lemma map_err_eq_Ok [simp, result_simps]: "map_err f m = Ok x \<longleftrightarrow> m = Ok x"
  by (cases m) auto

lemma map_err_eq_Err [simp, result_simps]: "map_err f m = Err x \<longleftrightarrow> (\<exists>e. m = Err e \<and> x = f e)"
  by (cases m) auto

lemma is_ok_simps [simp]: "is_ok (Ok x)" "\<not> is_ok (Err e)"
  by (simp_all add: is_ok_def)

lemma is_ok_iff: "is_ok m \<longleftrightarrow> (\<exists>x. m = Ok x)"
  by (cases m) auto

lemma ensure_eq_Ok [simp, result_simps]: "ensure b e = Ok u \<longleftrightarrow> b"
  by (simp add: ensure_def)

lemma ensure_simps [simp]: "ensure True e = Ok ()" "ensure False e = Err e"
  by (simp_all add: ensure_def)

lemma sbind_simps [simp]: "sbind (Err e, s) f = (Err e, s)" "sbind (Ok x, s) f = f x s"
  by (simp_all add: sbind_def)

lemma sread_simps [simp]: "sread (Err e) s f = (Err e, s)" "sread (Ok x) s f = f x"
  by (simp_all add: sread_def)

lemma sbind_eq_Ok [result_simps]:
  "sbind m f = (Ok y, s') \<longleftrightarrow> (\<exists>x s. m = (Ok x, s) \<and> f x s = (Ok y, s'))"
  by (auto simp: sbind_def split: prod.splits sum.splits)

lemma sread_eq_Ok [result_simps]: "sread m s f = (Ok y, s') \<longleftrightarrow> (\<exists>x. m = Ok x \<and> f x = (Ok y, s'))"
  by (cases m) auto

lemma snd_sbind: "P (snd m) \<Longrightarrow> (\<And>x. fst m = Ok x \<Longrightarrow> P (snd (f x (snd m)))) \<Longrightarrow> P (snd (sbind m f))"
  by (cases m; cases "fst m") (auto simp: sbind_def)

lemma snd_sread: "P s \<Longrightarrow> (\<And>x. m = Ok x \<Longrightarrow> P (snd (f x))) \<Longrightarrow> P (snd (sread m s f))"
  by (cases m) auto

subsection \<open>Integers\<close>

lemma unat_u64 [simp]: "unat (a :: u64) < 2 ^ 64"
  using unsigned_less [of a, where ?'a = nat] by simp

lemma unat_max64 [simp]: "unat (- 1 :: u64) = 2 ^ 64 - 1"
  by (simp add: unsigned_minus_1_eq_mask mask_eq_exp_minus_1)

lemma unat_succ:
  assumes "(n :: u64) \<noteq> - 1"
  shows "unat (n + 1) = unat n + 1" "n < n + 1"
proof -
  have "unat n \<noteq> unat (- 1 :: u64)" using assms by (simp add: word_unat_eq_iff)
  then have "unat n + 1 < 2 ^ 64" using unat_u64 [of n] unfolding unat_max64 by linarith
  then show "unat (n + 1) = unat n + 1" by (simp add: unat_word_ariths)
  then show "n < n + 1" by (simp add: word_less_nat_alt)
qed

lemma unat_saturating_sub [sat_simps]: "unat (saturating_sub a b) = unat a - unat b"
  by (auto simp: saturating_sub_def unat_sub word_le_nat_alt)

lemma unat_saturating_add [sat_simps]:
  "unat (saturating_add a b) = min (unat a + unat b) (2 ^ 64 - 1)"
proof (cases "unat a + unat b < 2 ^ 64")
  case True
  then show ?thesis by (simp add: saturating_add_def unat_word_ariths)
next
  case False
  then have "unat (saturating_add a b) = 2 ^ 64 - 1"
    by (simp add: saturating_add_def)
  with False show ?thesis by simp
qed

lemma unat_saturating_double [sat_simps]:
  "unat (saturating_double a) = min (2 * unat a) (2 ^ 64 - 1)"
proof (cases "2 * unat a < 2 ^ 64")
  case True
  then show ?thesis by (simp add: saturating_double_def unat_word_ariths)
next
  case False
  then have "unat (saturating_double a) = 2 ^ 64 - 1"
    by (simp add: saturating_double_def)
  with False show ?thesis by simp
qed

lemma saturating_sub_0 [simp]: "saturating_sub a a = 0"
  by (simp add: saturating_sub_def)

lemma le_saturating_add: "a \<le> saturating_add a b"
  by (simp add: word_le_nat_alt sat_simps) (use unat_u64 [of a] in simp)

lemma length_be_bytes [simp]: "length (be_bytes k n) = k"
  by (induction k) auto

lemma from_be_bytes_acc:
  "foldl (\<lambda>acc b. push_bit 8 acc OR ucast b) acc (be_bytes k n) =
     push_bit (8 * k) acc OR take_bit (8 * k) (n :: u64)"
proof (induction k arbitrary: acc)
  case 0
  show ?case by simp
next
  case (Suc k)
  have "push_bit (8 * k) (push_bit 8 acc OR ucast (ucast (drop_bit (8 * k) n) :: byte)) OR
          take_bit (8 * k) n =
        push_bit (8 * Suc k) acc OR take_bit (8 * Suc k) n"
    by (rule bit_word_eqI) (auto simp: bit_simps ac_simps)
  with Suc.IH show ?case by simp
qed

lemma from_be_bytes_be_bytes: "from_be_bytes (be_bytes k n) = take_bit (8 * k) n"
  by (simp add: from_be_bytes_def from_be_bytes_acc)

lemma from_be_bytes_8 [simp]: "from_be_bytes (be_bytes 8 n) = n"
  by (simp add: from_be_bytes_be_bytes take_bit_word_eq_self)

lemma take_bit_unat_self: "unat n < 2 ^ k \<Longrightarrow> take_bit k (n :: u64) = n"
  by (metis take_bit_nat_eq_self_iff unsigned_take_bit_eq word_unat_eq_iff)

lemma from_be_bytes_small:
  "unat n < 2 ^ (8 * k) \<Longrightarrow> from_be_bytes (be_bytes k n) = n"
  by (simp add: from_be_bytes_be_bytes take_bit_unat_self)

lemma be_bytes_snoc: "be_bytes (Suc k) n = be_bytes k (drop_bit 8 n) @ [ucast (n :: u64)]"
  by (induction k) (simp_all add: ac_simps)

lemma from_be_bytes_snoc: "from_be_bytes (bs @ [b]) = push_bit 8 (from_be_bytes bs) OR ucast b"
  by (simp add: from_be_bytes_def)

lemma take_bit_from_be_bytes:
  "length bs \<le> 8 \<Longrightarrow> take_bit (8 * length bs) (from_be_bytes bs) = from_be_bytes bs"
proof (induction bs rule: rev_induct)
  case Nil
  show ?case by (simp add: from_be_bytes_def)
next
  case (snoc b bs)
  define acc where "acc = from_be_bytes bs"
  have "take_bit (8 * length bs) acc = acc" using snoc by (simp add: acc_def)
  moreover have "take_bit (8 * length bs + 8) (push_bit 8 (take_bit (8 * length bs) acc) OR ucast b) =
      push_bit 8 (take_bit (8 * length bs) acc) OR ucast b"
    by (rule bit_word_eqI) (auto simp: bit_simps dest: bit_imp_le_length)
  ultimately show ?case by (simp add: from_be_bytes_snoc acc_def ac_simps)
qed

lemma unat_from_be_bytes: "length bs \<le> 8 \<Longrightarrow> unat (from_be_bytes bs) < 2 ^ (8 * length bs)"
  by (metis take_bit_from_be_bytes take_bit_nat_less_exp unsigned_take_bit_eq)

lemma be_bytes_from_be_bytes: "length bs \<le> 8 \<Longrightarrow> be_bytes (length bs) (from_be_bytes bs) = bs"
proof (induction bs rule: rev_induct)
  case (snoc b bs)
  define acc where "acc = take_bit (8 * length bs) (from_be_bytes bs)"
  have acc: "from_be_bytes bs = acc" using snoc.prems by (simp add: acc_def take_bit_from_be_bytes)
  have "drop_bit 8 (push_bit 8 acc OR ucast b) = acc"
    using snoc.prems unfolding acc_def
    by (intro bit_word_eqI) (auto simp: bit_simps dest: bit_imp_le_length)
  moreover have "ucast (push_bit 8 acc OR ucast b :: u64) = b"
    by (rule bit_word_eqI) (auto simp: bit_simps)
  ultimately show ?case
    using snoc by (simp add: from_be_bytes_snoc be_bytes_snoc acc del: be_bytes.simps)
qed simp

lemma unat_of_nat_u64 [simp]: "n < 2 ^ 64 \<Longrightarrow> unat (of_nat n :: u64) = n"
  by (simp add: unat_of_nat take_bit_nat_eq_self)

subsection \<open>Byte vectors\<close>

lemma length_resize [simp]: "length (resize n bs) = n"
  by (simp add: resize_def)

lemma resize_ge: "length bs \<le> n \<Longrightarrow> resize n bs = bs @ replicate (n - length bs) 0"
  by (simp add: resize_def)

lemma length_str_bytes [simp]: "length (str_bytes s) = length s"
  by (simp add: str_bytes_def)

subsection \<open>Containers\<close>

text \<open>
  What the crates rely on of a Rust map: a lookup sees the last insertion under its key, a
  removal makes the key absent, and both keep the representation well formed. The two
  containers above provide it.
\<close>

locale rust_map =
  fixes get :: "'m \<Rightarrow> 'k \<Rightarrow> 'v option"
    and ins :: "'k \<Rightarrow> 'v \<Rightarrow> 'm \<Rightarrow> 'm"
    and rem :: "'k \<Rightarrow> 'm \<Rightarrow> 'm"
    and entries :: "'m \<Rightarrow> ('k \<times> 'v) list"
    and wf :: "'m \<Rightarrow> bool"
  assumes get_ins: "wf m \<Longrightarrow> get (ins k v m) k' = (if k' = k then Some v else get m k')"
    and get_rem: "wf m \<Longrightarrow> get (rem k m) k' = (if k' = k then None else get m k')"
    and wf_ins: "wf m \<Longrightarrow> wf (ins k v m)"
    and wf_rem: "wf m \<Longrightarrow> wf (rem k m)"
    and get_entries: "wf m \<Longrightarrow> get m k = map_of (entries m) k"
    and distinct_entries: "wf m \<Longrightarrow> distinct (map fst (entries m))"
begin

lemma get_in_entries: "wf m \<Longrightarrow> get m k = Some v \<longleftrightarrow> (k, v) \<in> set (entries m)"
  by (simp add: get_entries distinct_entries)

lemma get_rem_ins: "wf m \<Longrightarrow> get (rem k (ins k v m)) k' = (if k' = k then None else get m k')"
  by (simp add: get_rem get_ins wf_ins)

lemma entries_ins:
  "wf m \<Longrightarrow> set (entries (ins k v m)) = insert (k, v) {p \<in> set (entries m). fst p \<noteq> k}"
  by (auto simp: get_in_entries [symmetric] get_ins wf_ins split: if_splits)

lemma entries_rem: "wf m \<Longrightarrow> set (entries (rem k m)) = {p \<in> set (entries m). fst p \<noteq> k}"
  by (auto simp: get_in_entries [symmetric] get_rem wf_rem split: if_splits)

end

lemma map_of_filter_key: "map_of (filter (\<lambda>p. fst p \<noteq> k) m) k' = (if k' = k then None else map_of m k')"
  by (induction m) auto

interpretation hm: rust_map hm_get hm_insert hm_remove "\<lambda>m. m" hm_wf
  by unfold_locales
    (auto simp: hm_get_def hm_insert_def hm_remove_def hm_wf_def update_conv' distinct_update
      map_of_filter_key distinct_map_filter)

lemma hm_insert_fresh: "k \<notin> fst ` set m \<Longrightarrow> hm_insert k v m = m @ [(k, v)]"
  unfolding hm_insert_def by (induction m) auto

lemma hm_get_insert_any: "hm_get (hm_insert k v m) k' = (if k' = k then Some v else hm_get m k')"
  by (simp add: hm_get_def hm_insert_def update_conv')

lemma map_of_retain:
  "distinct (map fst xs) \<Longrightarrow> map_of (filter (\<lambda>p. P (fst p) (snd p)) xs) k =
     (case map_of xs k of Some v \<Rightarrow> if P k v then Some v else None | None \<Rightarrow> None)"
  by (induction xs) (auto split: option.splits simp: map_of_eq_None_iff rev_image_eqI)

lemma hm_get_retain:
  "hm_wf m \<Longrightarrow> hm_get (hm_retain P m) k = (case hm_get m k of Some v \<Rightarrow> if P k v then Some v else None | None \<Rightarrow> None)"
  by (simp add: hm_get_def hm_retain_def hm_wf_def map_of_retain)

lemma hm_wf_retain: "hm_wf m \<Longrightarrow> hm_wf (hm_retain P m)"
  by (simp add: hm_wf_def hm_retain_def distinct_map_filter)

lemma set_hm_retain [simp]: "set (hm_retain P m) = {p \<in> set m. P (fst p) (snd p)}"
  by (auto simp: hm_retain_def)

lemma hm_get_retain_in: "hm_wf m \<Longrightarrow> hm_get (hm_retain P m) k = Some v \<Longrightarrow> hm_get m k = Some v"
  by (auto simp: hm_get_retain split: option.splits if_splits)

lemma map_of_bt_insert: "map_of (bt_insert k v m) k' = (if k' = k then Some v else map_of m k')"
  by (induction k v m rule: bt_insert.induct) auto

lemma fst_set_bt_insert: "fst ` set (bt_insert k v m) = insert k (fst ` set m)"
  by (induction k v m rule: bt_insert.induct) auto

lemma bt_wf_insert: "bt_wf m \<Longrightarrow> bt_wf (bt_insert k v m)"
  unfolding bt_wf_def
  by (induction k v m rule: bt_insert.induct)
    (auto simp: fst_set_bt_insert simp del: set_map simp flip: image_set dest: less_trans)

lemma bt_wf_distinct: "bt_wf m \<Longrightarrow> distinct (map fst m)"
  by (simp add: bt_wf_def strict_sorted_iff)

lemma bt_wf_filter: "bt_wf m \<Longrightarrow> bt_wf (filter P m)"
  by (simp add: bt_wf_def sorted_wrt_filter sorted_wrt_map)

interpretation bt: rust_map hm_get bt_insert hm_remove "\<lambda>m :: 'v btree. m" bt_wf
  by unfold_locales
    (auto simp: hm_get_def hm_remove_def map_of_bt_insert map_of_filter_key bt_wf_insert
      bt_wf_filter bt_wf_distinct)

end
