(* ===== verification/Wire_Ids.thy ===== *)
theory Wire_Ids
  imports Prelude
begin

text \<open>
  \<open>nemo-wire\<close>: the error type (\<open>error.rs\<close>), the identifiers and their hexadecimal forms
  (\<open>ids.rs\<close>), the protocol version (\<open>lib.rs\<close>), and the cryptographic primitives the
  crate takes from other packages.

  The primitives (SHA-256, Ed25519, HPKE, base64url) are fields of one record that every
  definition using them takes as an argument. What the theorems rely on of them is stated
  as named predicates on that record: documented behaviour of those packages only.
\<close>

section \<open>Primitives of other packages\<close>

text \<open>
  \<^item> \<open>lib_sha256\<close>: \<open>sha2::Sha256::digest\<close>.
  \<^item> \<open>lib_ed_public\<close>, \<open>lib_ed_point\<close>, \<open>lib_ed_sign\<close>, \<open>lib_ed_verify\<close>: \<open>ed25519_dalek\<close>;
    a signing key is its 32-byte seed, a verifying key its 32-byte encoding, and
    \<open>lib_ed_point\<close> says that \<open>VerifyingKey::from_bytes\<close> accepts an encoding.
  \<^item> \<open>lib_hpke_seal\<close> and \<open>lib_hpke_open\<close>: single-shot HPKE base mode; sealing takes the
    randomness it draws as its first argument and returns \<open>enc\<close> and \<open>ct\<close>.
    \<open>lib_hpke_public\<close> is the public key of a secret key, \<open>lib_hpke_pk\<close>, \<open>lib_hpke_sk\<close>
    and \<open>lib_hpke_enc\<close> say which encodings the package accepts.
  \<^item> \<open>lib_b64_encode\<close>, \<open>lib_b64_decode\<close>: \<open>URL_SAFE_NO_PAD\<close> of \<open>base64\<close>.
\<close>

record crypto =
  lib_sha256 :: "bytes \<Rightarrow> bytes"
  lib_ed_public :: "bytes \<Rightarrow> bytes"
  lib_ed_point :: "bytes \<Rightarrow> bool"
  lib_ed_sign :: "bytes \<Rightarrow> bytes \<Rightarrow> bytes"
  lib_ed_verify :: "bytes \<Rightarrow> bytes \<Rightarrow> bytes \<Rightarrow> bool"
  lib_hpke_public :: "bytes \<Rightarrow> bytes"
  lib_hpke_pk :: "bytes \<Rightarrow> bool"
  lib_hpke_sk :: "bytes \<Rightarrow> bool"
  lib_hpke_enc :: "bytes \<Rightarrow> bool"
  lib_hpke_seal :: "bytes \<Rightarrow> bytes \<Rightarrow> bytes \<Rightarrow> bytes \<Rightarrow> bytes \<Rightarrow> (bytes \<times> bytes) option"
  lib_hpke_open :: "bytes \<Rightarrow> bytes \<Rightarrow> bytes \<Rightarrow> bytes \<Rightarrow> bytes \<Rightarrow> bytes option"
  lib_b64_encode :: "bytes \<Rightarrow> bytes"
  lib_b64_decode :: "bytes \<Rightarrow> bytes option"

definition sha256_digest :: "crypto \<Rightarrow> bool" where
  "sha256_digest C \<longleftrightarrow> (\<forall>m. length (lib_sha256 C m) = 32)"

definition ed25519_correct :: "crypto \<Rightarrow> bool" where
  "ed25519_correct C \<longleftrightarrow>
     (\<forall>sk. length (lib_ed_public C sk) = 32 \<and> lib_ed_point C (lib_ed_public C sk)) \<and>
     (\<forall>sk m. length (lib_ed_sign C sk m) = 64 \<and>
        lib_ed_verify C (lib_ed_public C sk) m (lib_ed_sign C sk m))"

definition hpke_correct :: "crypto \<Rightarrow> bool" where
  "hpke_correct C \<longleftrightarrow>
     (\<forall>sk. lib_hpke_sk C sk \<longrightarrow> lib_hpke_pk C (lib_hpke_public C sk)) \<and>
     (\<forall>rnd pk info aad pt enc ct. lib_hpke_seal C rnd pk info aad pt = Some (enc, ct) \<longrightarrow>
        length enc = 32 \<and> lib_hpke_enc C enc) \<and>
     (\<forall>rnd sk info aad pt enc ct. lib_hpke_sk C sk \<longrightarrow>
        lib_hpke_seal C rnd (lib_hpke_public C sk) info aad pt = Some (enc, ct) \<longrightarrow>
        lib_hpke_open C sk enc info aad ct = Some pt)"

definition base64_correct :: "crypto \<Rightarrow> bool" where
  "base64_correct C \<longleftrightarrow> (\<forall>m. lib_b64_decode C (lib_b64_encode C m) = Some m)"

section \<open>Errors and constants\<close>

datatype WireError =
    UnknownVersion u64
  | Cbor string
  | Length nat nat
  | Signature
  | ServerIdMismatch
  | BindingExpired
  | BadHost
  | CardTooLarge
  | BadRevocationStatus
  | NoBucket
  | BadEnvelope
  | Hpke string
  | UnknownMessageType byte
  | UnknownTtl byte
  | Uri string

definition PROTOCOL_VERSION :: byte where
  "PROTOCOL_VERSION = 1"

definition ID_LEN :: nat where
  "ID_LEN = 32"

definition KEY_LEN :: nat where
  "KEY_LEN = 32"

definition SIG_LEN :: nat where
  "SIG_LEN = 64"

section \<open>Identifiers\<close>

definition sha256 :: "crypto \<Rightarrow> bytes \<Rightarrow> bytes" where
  "sha256 C m = lib_sha256 C m"

definition identity_id :: "crypto \<Rightarrow> key \<Rightarrow> key" where
  "identity_id C pk = sha256 C pk"

definition server_id :: "crypto \<Rightarrow> key \<Rightarrow> key" where
  "server_id C pk = sha256 C pk"

definition copy_fixed :: "nat \<Rightarrow> bytes \<Rightarrow> WireError + bytes" where
  "copy_fixed n bs = (if length bs = n then Ok bs else Err (Length n (length bs)))"

text \<open>The hexadecimal digit at an index of the table \<open>HEX\<close>.\<close>

definition hex_digit :: "byte \<Rightarrow> byte" where
  "hex_digit n = str_bytes ''0123456789abcdef'' ! unat n"

fun hex_encode :: "bytes \<Rightarrow> bytes" where
  "hex_encode [] = []"
| "hex_encode (b # bs) = hex_digit (drop_bit 4 b) # hex_digit (b AND 0x0f) # hex_encode bs"

definition to_hex :: "bytes \<Rightarrow> bytes" where
  "to_hex bs = hex_encode bs"

definition is_ascii_hexdigit :: "byte \<Rightarrow> bool" where
  "is_ascii_hexdigit b \<longleftrightarrow> in_range 0x30 0x39 b \<or> in_range 0x61 0x66 b \<or> in_range 0x41 0x46 b"

definition hex_nibble :: "byte \<Rightarrow> WireError + byte" where
  "hex_nibble b =
     (if in_range 0x30 0x39 b then Ok (b - 0x30)
      else if in_range 0x61 0x66 b then Ok (b - 0x61 + 10)
      else if in_range 0x41 0x46 b then Ok (b - 0x41 + 10)
      else Err (Length 1 0))"

text \<open>The loop of \<open>from_hex\<close> over pairs of digits; the length is even when it is entered.\<close>

fun from_hex_loop :: "bytes \<Rightarrow> WireError + bytes" where
  "from_hex_loop (h # l # s) =
     rbind (hex_nibble h) (\<lambda>hi. rbind (hex_nibble l) (\<lambda>lo.
     rbind (from_hex_loop s) (\<lambda>out. Ok ((push_bit 4 hi OR lo) # out))))"
| "from_hex_loop _ = Ok []"

definition from_hex :: "bytes \<Rightarrow> WireError + bytes" where
  "from_hex s =
     (if odd (length s) \<or> \<not> list_all is_ascii_hexdigit s
      then Err (Length (length s div 2) (length s))
      else from_hex_loop s)"

definition parse_identity_id :: "bytes \<Rightarrow> WireError + key" where
  "parse_identity_id s = rbind (from_hex s) (copy_fixed ID_LEN)"

text \<open>\<open>slice.chunks(n)\<close> and \<open>join(" ")\<close>.\<close>

function chunks :: "nat \<Rightarrow> bytes \<Rightarrow> bytes list" where
  "chunks n bs = (if bs = [] \<or> n = 0 then [] else take n bs # chunks n (drop n bs))"
  by pat_completeness auto
termination
  by (relation "measure (\<lambda>(n, bs). length bs)") auto

fun join_space :: "bytes list \<Rightarrow> bytes" where
  "join_space [] = []"
| "join_space [c] = c"
| "join_space (c # cs) = c @ [0x20] @ join_space cs"

definition fingerprint :: "key \<Rightarrow> bytes" where
  "fingerprint ident = join_space (chunks 8 (hex_encode ident))"

section \<open>Lemmas\<close>

lemmas len_defs [simp] = ID_LEN_def KEY_LEN_def SIG_LEN_def

lemma copy_fixed_eq_Ok [simp, result_simps]: "copy_fixed n bs = Ok x \<longleftrightarrow> x = bs \<and> length bs = n"
  by (auto simp: copy_fixed_def)

lemma length_server_id: "sha256_digest C \<Longrightarrow> length (server_id C pk) = 32"
  by (simp add: sha256_digest_def server_id_def sha256_def)

lemma length_hex_encode [simp]: "length (hex_encode bs) = 2 * length bs"
  by (induction bs) auto

lemma less_16_cases: "n < 16 \<Longrightarrow> n \<in> set [0, 1, 2, 3, 4, 5, 6, 7, 8, 9, 10, 11, 12, 13, 14, 15 :: nat]"
  by simp arith

lemma hex_digit_nat:
  "k < 16 \<Longrightarrow> is_ascii_hexdigit (hex_digit (word_of_nat k)) \<and>
     hex_nibble (hex_digit (word_of_nat k)) = Ok (word_of_nat k)"
  by (drule less_16_cases)
    (auto simp: hex_digit_def hex_nibble_def is_ascii_hexdigit_def in_range_def str_bytes_def of_char_def)

lemma hex_digit_facts:
  "unat n < 16 \<Longrightarrow> is_ascii_hexdigit (hex_digit n) \<and> hex_nibble (hex_digit n) = Ok n"
  using hex_digit_nat [of "unat n"] by simp

lemma low_nibble: "b AND 0x0f = take_bit 4 (b :: byte)"
  by (simp add: take_bit_eq_mask mask_eq_exp_minus_1)

lemma nibbles_lt: "unat (drop_bit 4 (b :: byte)) < 16" "unat (b AND 0x0f) < 16"
proof -
  have "unat b < 256"
    using unsigned_less [of b, where ?'a = nat] by simp
  then show "unat (drop_bit 4 b) < 16"
    by (simp add: drop_bit_eq_div unat_div)
  show "unat (b AND 0x0f) < 16"
    unfolding low_nibble by (simp only: unsigned_take_bit_eq) (simp add: take_bit_eq_mod)
qed

lemma nibbles_join: "push_bit 4 (drop_bit 4 b) OR (b AND 0x0f) = (b :: byte)"
  unfolding low_nibble by (rule bit_word_eqI) (auto simp: bit_simps)

lemma from_hex_loop_encode: "from_hex_loop (hex_encode bs) = Ok bs"
  by (induction bs) (simp_all add: hex_digit_facts nibbles_lt nibbles_join)

lemma hex_encode_digits: "list_all is_ascii_hexdigit (hex_encode bs)"
  by (induction bs) (simp_all add: hex_digit_facts nibbles_lt)

lemma from_hex_to_hex [simp]: "from_hex (to_hex bs) = Ok bs"
  by (simp add: from_hex_def to_hex_def from_hex_loop_encode hex_encode_digits)

text \<open>
  Hexadecimal encoding loses nothing: \<open>from_hex\<close> reads back exactly the bytes that
  \<open>to_hex\<close> wrote, and \<open>parse_identity_id\<close> accepts such a text exactly when the bytes are an
  identifier of 32 bytes.
\<close>

theorem hex_roundtrip:
  "from_hex (to_hex bs) = Ok bs \<and> parse_identity_id (to_hex bs) = copy_fixed ID_LEN bs"
  by (simp add: from_hex_def to_hex_def from_hex_loop_encode hex_encode_digits parse_identity_id_def)

end
