(* ===== verification/Cbor_Codec.thy ===== *)
theory Cbor_Codec
  imports Wire_Ids
begin

text \<open>
  \<open>nemo-wire/src/cbor.rs\<close>: the CBOR values, the encoder, the decoder and the accessors the
  other wire formats are written with.

  The encoder sorts map entries by key; the decoder accepts definite lengths only and
  requires strictly increasing keys. \<open>usize::try_from\<close> of a \<open>u64\<close> succeeds on the 64-bit
  targets the crates build for, so its error branches are not reached. The decoder recurses
  over its input; each call leaves a strictly shorter rest, which is the termination
  argument of the model.
\<close>

section \<open>Values and the encoder\<close>

datatype Value =
    Uint u64
  | Bytes bytes
  | Text bytes
  | Array "Value list"
  | Map "(u64 \<times> Value) list"

definition write_head :: "byte \<Rightarrow> u64 \<Rightarrow> bytes" where
  "write_head major n =
     (if n < 24 then [push_bit 5 major OR ucast n]
      else if n \<le> 0xFF then [push_bit 5 major OR 24, ucast n]
      else if n \<le> 0xFFFF then (push_bit 5 major OR 25) # be_bytes 2 n
      else if n \<le> 0xFFFFFFFF then (push_bit 5 major OR 26) # be_bytes 4 n
      else (push_bit 5 major OR 27) # be_bytes 8 n)"

function (sequential) write_value :: "Value \<Rightarrow> bytes" where
  "write_value (Uint n) = write_head 0 n"
| "write_value (Bytes b) = write_head 2 (of_nat (length b)) @ b"
| "write_value (Text s) = write_head 3 (of_nat (length s)) @ s"
| "write_value (Array items) =
     write_head 4 (of_nat (length items)) @ concat (map write_value items)"
| "write_value (Map pairs) =
     write_head 5 (of_nat (length pairs)) @
     concat (map (\<lambda>p. write_head 0 (fst p) @ write_value (snd p)) (sort_key fst pairs))"
  by pat_completeness auto
termination
proof (relation "measure size", goal_cases)
  case (2 items z)
  then show ?case by (auto dest: size_list_estimation' [where f = size and y = "size z"])
next
  case (3 pairs p)
  then have "p \<in> set pairs" by simp
  then have "size_prod (\<lambda>_. 0) size p \<le> size_list (size_prod (\<lambda>_. 0) size) pairs"
    by (rule size_list_estimation') simp
  then show ?case by (cases p) simp
qed simp

definition encode :: "Value \<Rightarrow> bytes" where
  "encode v = write_value v"

section \<open>The decoder\<close>

definition read_head :: "bytes \<Rightarrow> WireError + (byte \<times> u64 \<times> bytes)" where
  "read_head input =
     (case input of
        [] \<Rightarrow> Err (Cbor ''empty'')
      | first # rest \<Rightarrow>
          (let major = drop_bit 5 first; ai = first AND 0x1f in
           if ai \<le> 23 then Ok (major, ucast ai, rest)
           else if ai = 24 then
             (case rest of [] \<Rightarrow> Err (Cbor ''truncated u8'') | b # rest' \<Rightarrow> Ok (major, ucast b, rest'))
           else if ai = 25 then
             (if length rest < 2 then Err (Cbor ''truncated u16'')
              else Ok (major, from_be_bytes (take 2 rest), drop 2 rest))
           else if ai = 26 then
             (if length rest < 4 then Err (Cbor ''truncated u32'')
              else Ok (major, from_be_bytes (take 4 rest), drop 4 rest))
           else if ai = 27 then
             (if length rest < 8 then Err (Cbor ''truncated u64'')
              else Ok (major, from_be_bytes (take 8 rest), drop 8 rest))
           else Err (Cbor ''indefinite or reserved additional info'')))"

lemma read_head_shrinks: "read_head input = Ok (major, n, rest) \<Longrightarrow> length rest < length input"
  by (auto simp: read_head_def Let_def split: list.splits if_splits)

text \<open>
  \<open>read_items\<close> and \<open>read_pairs\<close> are the two \<open>for _ in 0..count\<close> loops of \<open>read_value\<close>;
  \<open>read_pairs\<close> carries \<open>last_key\<close>.
\<close>

function (domintros) read_value :: "bytes \<Rightarrow> WireError + (Value \<times> bytes)"
  and read_items :: "nat \<Rightarrow> bytes \<Rightarrow> WireError + (Value list \<times> bytes)"
  and read_pairs :: "nat \<Rightarrow> u64 option \<Rightarrow> bytes \<Rightarrow> WireError + ((u64 \<times> Value) list \<times> bytes)"
where
  "read_value input = rbind (read_head input) (\<lambda>(major, n, rest).
     if major = 0 then Ok (Uint n, rest)
     else if major = 2 then
       (if length rest < unat n then Err (Cbor ''truncated bstr'')
        else Ok (Bytes (take (unat n) rest), drop (unat n) rest))
     else if major = 3 then
       (if length rest < unat n then Err (Cbor ''truncated tstr'')
        else if \<not> utf8_valid (take (unat n) rest) then Err (Cbor ''tstr not utf-8'')
        else Ok (Text (take (unat n) rest), drop (unat n) rest))
     else if major = 4 then
       (if unat n > length rest then Err (Cbor ''array too large'')
        else rbind (read_items (unat n) rest) (\<lambda>(items, rest'). Ok (Array items, rest')))
     else if major = 5 then
       (if unat n > length rest then Err (Cbor ''map too large'')
        else rbind (read_pairs (unat n) None rest) (\<lambda>(pairs, rest'). Ok (Map pairs, rest')))
     else Err (Cbor ''unsupported major type''))"
| "read_items 0 rest = Ok ([], rest)"
| "read_items (Suc count) rest = rbind (read_value rest) (\<lambda>(v, r).
     rbind (read_items count r) (\<lambda>(items, r'). Ok (v # items, r')))"
| "read_pairs 0 last_key rest = Ok ([], rest)"
| "read_pairs (Suc count) last_key rest = rbind (read_value rest) (\<lambda>(k, r).
     (case k of
        Uint key \<Rightarrow>
          if (case last_key of Some prev \<Rightarrow> key \<le> prev | None \<Rightarrow> False)
          then Err (Cbor ''map keys not strictly increasing'')
          else rbind (read_value r) (\<lambda>(v, r').
            rbind (read_pairs count (Some key) r') (\<lambda>(pairs, r''). Ok ((key, v) # pairs, r'')))
      | _ \<Rightarrow> Err (Cbor ''map key must be uint'')))"
  by pat_completeness auto

lemma read_shrinks_dom:
  "read_value_read_items_read_pairs_dom (Inl input) \<Longrightarrow>
     (\<forall>v r. read_value input = Ok (v, r) \<longrightarrow> length r < length input)"
  "read_value_read_items_read_pairs_dom (Inr (Inl (n, rest))) \<Longrightarrow>
     (\<forall>v r. read_items n rest = Ok (v, r) \<longrightarrow> length r \<le> length rest)"
  "read_value_read_items_read_pairs_dom (Inr (Inr (n, l, rest))) \<Longrightarrow>
     (\<forall>v r. read_pairs n l rest = Ok (v, r) \<longrightarrow> length r \<le> length rest)"
proof (induction input and n rest and n l rest rule: read_value_read_items_read_pairs.pinduct)
  case (1 input)
  have items: "length r \<le> length rest"
    if "read_head input = Ok (4, n, rest)" "\<not> length rest < unat n"
      "read_items (unat n) rest = Ok (vs, r)" for n rest vs r
    using 1(2) [OF that(1)] that by simp
  have pairs: "length r \<le> length rest"
    if "read_head input = Ok (5, n, rest)" "\<not> length rest < unat n"
      "read_pairs (unat n) None rest = Ok (vs, r)" for n rest vs r
    using 1(3) [OF that(1)] that by simp
  show ?case
  proof (intro allI impI)
    fix v r
    assume "read_value input = Ok (v, r)"
    then obtain major n rest where h: "read_head input = Ok (major, n, rest)"
      and "major = 0 \<and> r = rest \<or> r = drop (unat n) rest \<or>
        (major = 4 \<and> \<not> length rest < unat n \<and> (\<exists>vs. read_items (unat n) rest = Ok (vs, r))) \<or>
        (major = 5 \<and> \<not> length rest < unat n \<and> (\<exists>vs. read_pairs (unat n) None rest = Ok (vs, r)))"
      unfolding read_value.psimps [OF 1(1)]
      by (force simp: rbind_eq_Ok split: if_splits)
    with items pairs have "length r \<le> length rest" by auto
    with read_head_shrinks [OF h] show "length r < length input" by simp
  qed
next
  case (3 n rest)
  have items: "length r' \<le> length r"
    if "read_value rest = Ok (v, r)" "read_items n r = Ok (vs, r')" for v r vs r'
    using 3(3) [OF that(1)] that(2) by simp
  show ?case
  proof (intro allI impI)
    fix vs r'
    assume "read_items (Suc n) rest = Ok (vs, r')"
    then obtain v r vs' where "read_value rest = Ok (v, r)" "read_items n r = Ok (vs', r')"
      unfolding read_items.psimps(2) [OF 3(1)] by (auto simp: rbind_eq_Ok)
    with 3(2) items show "length r' \<le> length rest" by fastforce
  qed
next
  case (5 n l rest)
  have vals: "length r' < length r"
    if "read_value rest = Ok (Uint key, r)" "read_value r = Ok (v, r')"
      "\<not> (case l of Some prev \<Rightarrow> key \<le> prev | None \<Rightarrow> False)" for key r v r'
    using 5(3) [OF that(1)] that by simp
  have pairs: "length r'' \<le> length r'"
    if "read_value rest = Ok (Uint key, r)" "read_value r = Ok (v, r')"
      "\<not> (case l of Some prev \<Rightarrow> key \<le> prev | None \<Rightarrow> False)"
      "read_pairs n (Some key) r' = Ok (ps, r'')" for key r v r' ps r''
    using 5(4) [OF that(1) refl refl that(3) that(2) refl] that(4) by simp
  show ?case
  proof (intro allI impI)
    fix ps r''
    assume "read_pairs (Suc n) l rest = Ok (ps, r'')"
    then obtain k r where "read_value rest = Ok (k, r)" and "\<exists>key. k = Uint key"
      unfolding read_pairs.psimps(2) [OF 5(1)] by (cases "read_value rest") (auto split: Value.split_asm)
    then obtain key where a: "read_value rest = Ok (Uint key, r)" by blast
    with \<open>read_pairs (Suc n) l rest = Ok (ps, r'')\<close> obtain v r' ps' where b: "read_value r = Ok (v, r')"
      "\<not> (case l of Some prev \<Rightarrow> key \<le> prev | None \<Rightarrow> False)"
      "read_pairs n (Some key) r' = Ok (ps', r'')"
      unfolding read_pairs.psimps(2) [OF 5(1)] by (auto simp: rbind_eq_Ok split: if_split_asm)
    from a 5(2) have "length r < length rest" by simp
    with vals [OF a b(1,2)] pairs [OF a b] show "length r'' \<le> length rest" by simp
  qed
qed (simp_all add: read_items.psimps read_pairs.psimps)

termination read_value
  by (relation "measure (\<lambda>x. case x of
        Inl input \<Rightarrow> 2 * length input
      | Inr (Inl (n, r)) \<Rightarrow> 2 * length r + 1
      | Inr (Inr (n, l, r)) \<Rightarrow> 2 * length r + 1)")
    (auto dest!: read_head_shrinks read_shrinks_dom)

definition decode :: "bytes \<Rightarrow> WireError + Value" where
  "decode input = rbind (read_value input) (\<lambda>(v, rest).
     if rest \<noteq> [] then Err (Cbor ''trailing bytes'') else Ok v)"

section \<open>Accessors\<close>

definition map_get_opt :: "(u64 \<times> Value) list \<Rightarrow> u64 \<Rightarrow> Value option" where
  "map_get_opt m key = map_option snd (find (\<lambda>p. fst p = key) m)"

definition map_get :: "(u64 \<times> Value) list \<Rightarrow> u64 \<Rightarrow> WireError + Value" where
  "map_get m key = ok_or (map_get_opt m key) (Cbor ''missing map key'')"

fun expect_bytes :: "Value \<Rightarrow> WireError + bytes" where
  "expect_bytes (Bytes b) = Ok b"
| "expect_bytes _ = Err (Cbor ''expected bstr'')"

fun expect_text :: "Value \<Rightarrow> WireError + bytes" where
  "expect_text (Text s) = Ok s"
| "expect_text _ = Err (Cbor ''expected tstr'')"

fun expect_uint :: "Value \<Rightarrow> WireError + u64" where
  "expect_uint (Uint n) = Ok n"
| "expect_uint _ = Err (Cbor ''expected uint'')"

fun expect_map :: "Value \<Rightarrow> WireError + (u64 \<times> Value) list" where
  "expect_map (Map m) = Ok m"
| "expect_map _ = Err (Cbor ''expected map'')"

fun expect_array :: "Value \<Rightarrow> WireError + Value list" where
  "expect_array (Array a) = Ok a"
| "expect_array _ = Err (Cbor ''expected array'')"

section \<open>Specification\<close>

text \<open>
  \<open>wf_value\<close>: the values of the Rust type that have an encoding (vector lengths fit a
  \<open>u64\<close>, a \<open>String\<close> is UTF-8) and whose maps have distinct keys. \<open>canon\<close> is the value
  with every map sorted, which is what the encoder writes.
\<close>

fun wf_value :: "Value \<Rightarrow> bool" where
  "wf_value (Uint n) = True"
| "wf_value (Bytes b) = (length b < 2 ^ 64)"
| "wf_value (Text s) = (length s < 2 ^ 64 \<and> utf8_valid s)"
| "wf_value (Array items) = (length items < 2 ^ 64 \<and> (\<forall>v \<in> set items. wf_value v))"
| "wf_value (Map pairs) =
     (length pairs < 2 ^ 64 \<and> distinct (map fst pairs) \<and> (\<forall>p \<in> set pairs. wf_value (snd p)))"

function (sequential) canon :: "Value \<Rightarrow> Value" where
  "canon (Array items) = Array (map canon items)"
| "canon (Map pairs) = Map (map (\<lambda>p. (fst p, canon (snd p))) (sort_key fst pairs))"
| "canon v = v"
  by pat_completeness auto
termination
proof (relation "measure size", goal_cases)
  case (2 items z)
  then show ?case by (auto dest: size_list_estimation' [where f = size and y = "size z"])
next
  case (3 pairs p)
  then have "p \<in> set pairs" by simp
  then have "size_prod (\<lambda>_. 0) size p \<le> size_list (size_prod (\<lambda>_. 0) size) pairs"
    by (rule size_list_estimation') simp
  then show ?case by (cases p) simp
qed simp

fun sorted_value :: "Value \<Rightarrow> bool" where
  "sorted_value (Array items) = (\<forall>v \<in> set items. sorted_value v)"
| "sorted_value (Map pairs) =
     (sorted_wrt (<) (map fst pairs) \<and> (\<forall>p \<in> set pairs. sorted_value (snd p)))"
| "sorted_value v = True"

section \<open>Lemmas\<close>

declare read_value.simps [simp del]

subsection \<open>Heads\<close>

lemma take_bit_byte_self: "unat x < 2 ^ k \<Longrightarrow> take_bit k (x :: byte) = x"
  by (metis take_bit_nat_eq_self_iff unsigned_take_bit_eq word_unat_eq_iff)

lemma head_byte:
  assumes "unat major < 8" "unat x < 32"
  shows "drop_bit 5 (push_bit 5 major OR x) = (major :: byte)"
    and "(push_bit 5 major OR x) AND 0x1f = x"
proof -
  have m: "take_bit 3 major = major" and x: "take_bit 5 x = x"
    using assms by (auto intro: take_bit_byte_self)
  have "drop_bit 5 (push_bit 5 (take_bit 3 major) OR take_bit 5 x) = take_bit 3 major"
    by (rule bit_word_eqI) (auto simp: bit_simps)
  then show "drop_bit 5 (push_bit 5 major OR x) = major"
    by (simp only: m x)
  have "take_bit 5 (push_bit 5 (take_bit 3 major) OR take_bit 5 x) = take_bit 5 x"
    by (rule bit_word_eqI) (auto simp: bit_simps)
  then have "take_bit 5 (push_bit 5 major OR x) = x"
    by (simp only: m x)
  then show "(push_bit 5 major OR x) AND 0x1f = x"
    by (simp add: take_bit_eq_mask mask_eq_exp_minus_1)
qed

lemma unat_ucast_byte: "unat n < 256 \<Longrightarrow> unat (ucast (n :: u64) :: byte) = unat n"
  by (simp add: unsigned_ucast_eq take_bit_nat_eq_self)

lemma ucast_byte_back: "unat n < 256 \<Longrightarrow> ucast (ucast (n :: u64) :: byte) = n"
  by (simp add: word_unat_eq_iff unsigned_ucast_eq unsigned_take_bit_eq take_bit_nat_eq_self)

lemma read_write_head:
  assumes "unat major < 8"
  shows "read_head (write_head major n @ rest) = Ok (major, n, rest)"
proof -
  consider "unat n < 24" | "24 \<le> unat n" "unat n \<le> 0xFF" | "0xFF < unat n" "unat n \<le> 0xFFFF"
    | "0xFFFF < unat n" "unat n \<le> 0xFFFFFFFF" | "0xFFFFFFFF < unat n"
    by linarith
  then show ?thesis
  proof cases
    case 1
    then show ?thesis
      using head_byte [OF assms, of "ucast n"]
      by (simp add: write_head_def read_head_def Let_def word_less_nat_alt word_le_nat_alt
          unat_ucast_byte ucast_byte_back)
  next
    case 2
    then show ?thesis
      using head_byte [OF assms, of 24]
      by (simp add: write_head_def read_head_def Let_def word_less_nat_alt word_le_nat_alt
          ucast_byte_back)
  next
    case 3
    then show ?thesis
      using head_byte [OF assms, of 25] from_be_bytes_small [of n 2]
      by (simp add: write_head_def read_head_def Let_def word_less_nat_alt word_le_nat_alt
          del: be_bytes.simps)
  next
    case 4
    then show ?thesis
      using head_byte [OF assms, of 26] from_be_bytes_small [of n 4]
      by (simp add: write_head_def read_head_def Let_def word_less_nat_alt word_le_nat_alt
          del: be_bytes.simps)
  next
    case 5
    then show ?thesis
      using head_byte [OF assms, of 27]
      by (simp add: write_head_def read_head_def Let_def word_less_nat_alt word_le_nat_alt
          del: be_bytes.simps)
  qed
qed

lemma length_write_head: "1 \<le> length (write_head major n)" "length (write_head major n) \<le> 9"
  by (simp_all add: write_head_def)

lemma length_write_value: "1 \<le> length (write_value v)"
  using length_write_head(1) by (cases v) (auto simp: le_Suc_eq trans_le_add1)

subsection \<open>Round trip\<close>

lemma length_le_concat: "(\<And>x. x \<in> set xs \<Longrightarrow> 1 \<le> length (f x)) \<Longrightarrow> length xs \<le> length (concat (map f xs))"
proof (induction xs)
  case (Cons x xs)
  then have "1 \<le> length (f x)" "length xs \<le> length (concat (map f xs))" by auto
  then show ?case by simp
qed simp

lemma read_items_concat:
  assumes "\<And>v rest. v \<in> set items \<Longrightarrow> read_value (write_value v @ rest) = Ok (canon v, rest)"
  shows "read_items (length items) (concat (map write_value items) @ rest) =
           Ok (map canon items, rest)"
  using assms by (induction items) simp_all

lemma read_value_uint: "read_value (write_head 0 k @ rest) = Ok (Uint k, rest)"
  by (simp add: read_value.simps read_write_head)

lemma read_pairs_concat:
  assumes "\<And>p rest. p \<in> set pairs \<Longrightarrow> read_value (write_value (snd p) @ rest) = Ok (canon (snd p), rest)"
    and "sorted_wrt (<) (map fst pairs)"
    and "\<And>prev p. last_key = Some prev \<Longrightarrow> p \<in> set pairs \<Longrightarrow> prev < fst p"
  shows "read_pairs (length pairs) last_key
           (concat (map (\<lambda>p. write_head 0 (fst p) @ write_value (snd p)) pairs) @ rest) =
         Ok (map (\<lambda>p. (fst p, canon (snd p))) pairs, rest)"
  using assms
proof (induction pairs arbitrary: last_key)
  case (Cons p pairs)
  have "\<not> (case last_key of Some prev \<Rightarrow> fst p \<le> prev | None \<Rightarrow> False)"
    using Cons.prems(3) [of _ p] by (auto simp: not_le split: option.splits)
  moreover have "read_pairs (length pairs) (Some (fst p))
      (concat (map (\<lambda>p. write_head 0 (fst p) @ write_value (snd p)) pairs) @ rest) =
    Ok (map (\<lambda>p. (fst p, canon (snd p))) pairs, rest)"
    using Cons.prems by (intro Cons.IH) auto
  ultimately show ?case
    using Cons.prems(1) by (simp add: read_value_uint)
qed simp

lemma sort_key_strict:
  "distinct (map fst pairs) \<Longrightarrow> sorted_wrt (<) (map fst (sort_key fst (pairs :: (u64 \<times> 'a) list)))"
  by (simp add: strict_sorted_iff distinct_map)

lemma read_write_value: "wf_value v \<Longrightarrow> read_value (write_value v @ rest) = Ok (canon v, rest)"
proof (induction v arbitrary: rest rule: write_value.induct)
  case (4 items)
  have "length items \<le> length (concat (map write_value items) @ rest)"
    using length_le_concat [of items write_value] length_write_value by (simp add: trans_le_add1)
  moreover have "read_items (length items) (concat (map write_value items) @ rest) =
      Ok (map canon items, rest)"
    using 4 by (intro read_items_concat) auto
  ultimately show ?case
    using "4.prems" by (simp add: read_value.simps [of "_ @ _"] read_write_head)
next
  case (5 pairs)
  let ?w = "\<lambda>p. write_head 0 (fst p) @ write_value (snd p)"
  have "length (sort_key fst pairs) \<le> length (concat (map ?w (sort_key fst pairs)))"
    using length_write_value by (intro length_le_concat) (simp add: trans_le_add2)
  then have "length pairs \<le> length (concat (map ?w (sort_key fst pairs)) @ rest)"
    by simp
  moreover have "read_pairs (length (sort_key fst pairs)) None
      (concat (map ?w (sort_key fst pairs)) @ rest) =
    Ok (map (\<lambda>p. (fst p, canon (snd p))) (sort_key fst pairs), rest)"
    using 5 by (intro read_pairs_concat) (auto simp: sort_key_strict)
  ultimately show ?case
    using "5.prems" by (simp add: read_value.simps [of "_ @ _"] read_write_head)
qed (simp_all add: read_value.simps [of "_ @ _"] read_value_uint read_write_head)

text \<open>
  C28. The decoder inverts the encoder: a well-formed value (distinct map keys, UTF-8 text,
  lengths that fit a \<open>u64\<close>) decodes, from its own encoding, to itself with its map entries
  in key order.
\<close>

theorem cbor_roundtrip: "wf_value v \<Longrightarrow> decode (encode v) = Ok (canon v)"
  using read_write_value [of v "[]"] by (simp add: decode_def encode_def)

subsection \<open>What the decoder returns\<close>

lemma canon_sorted: "sorted_value v \<Longrightarrow> canon v = v"
proof (induction v rule: canon.induct)
  case (2 pairs)
  then have "sorted_wrt (\<lambda>a b. fst a \<le> fst b) pairs"
    by (auto simp: sorted_wrt_map elim: sorted_wrt_mono_rel [rotated])
  then have s: "sort_key fst pairs = pairs"
    by (simp add: sorted_map sort_key_id_if_sorted)
  have "map (\<lambda>p. (fst p, canon (snd p))) pairs = pairs"
    using 2 by (intro map_idI) (auto simp: s)
  with s show ?case by simp
qed (simp_all add: map_idI)

lemma read_sound:
  "read_value input = Ok (v, r) \<Longrightarrow> wf_value v \<and> sorted_value v"
  "read_items n rest = Ok (vs, r) \<Longrightarrow> length vs = n \<and> (\<forall>v \<in> set vs. wf_value v \<and> sorted_value v)"
  "read_pairs n l rest = Ok (ps, r) \<Longrightarrow> length ps = n \<and> sorted_wrt (<) (map fst ps) \<and>
     (\<forall>p \<in> set ps. (case l of None \<Rightarrow> True | Some k \<Rightarrow> k < fst p) \<and>
        wf_value (snd p) \<and> sorted_value (snd p))"
proof (induction input and n rest and n l rest arbitrary: v r and vs r and ps r
    rule: read_value_read_items_read_pairs.induct)
  case (1 input)
  obtain major n rest where h: "read_head input = Ok (major, n, rest)"
    using "1.prems" by (auto simp: read_value.simps rbind_eq_Ok)
  note items = "1.IH"(1) [OF h refl refl] and pairs = "1.IH"(2) [OF h refl refl]
  have "major = 0 \<and> v = Uint n \<or> v = Bytes (take (unat n) rest) \<or>
      utf8_valid (take (unat n) rest) \<and> v = Text (take (unat n) rest) \<or>
      (\<exists>vs r. major = 4 \<and> \<not> length rest < unat n \<and> read_items (unat n) rest = Ok (vs, r) \<and> v = Array vs) \<or>
      (\<exists>ps r. major = 5 \<and> \<not> length rest < unat n \<and> read_pairs (unat n) None rest = Ok (ps, r) \<and> v = Map ps)"
    using "1.prems" h by (auto simp: read_value.simps rbind_eq_Ok split: if_splits)
  moreover have "length (take (unat n) rest) < 2 ^ 64"
    by (rule le_less_trans [OF _ unat_u64 [of n]]) simp
  ultimately show ?case
    using items pairs by (elim disjE exE conjE) (simp_all add: strict_sorted_iff)
next
  case (3 count rest)
  then show ?case by (fastforce simp: rbind_eq_Ok)
next
  case (5 count l rest)
  obtain k r1 where k: "read_value rest = Ok (k, r1)"
    using "5.prems" by (auto simp: rbind_eq_Ok)
  with "5.prems" obtain key where key: "k = Uint key" by (cases k) auto
  have fresh: "\<not> (case l of Some prev \<Rightarrow> key \<le> prev | None \<Rightarrow> False)"
    using "5.prems" k key by (auto split: if_splits)
  obtain v r2 ps' r3 where v: "read_value r1 = Ok (v, r2)"
    and ps': "read_pairs count (Some key) r2 = Ok (ps', r3)" and ps: "ps = (key, v) # ps'"
    using "5.prems" k key fresh by (auto simp: rbind_eq_Ok)
  show ?case
    using "5.IH"(2) [OF k refl key fresh v] "5.IH"(3) [OF k refl key fresh v refl ps'] fresh
    by (auto simp: ps split: option.splits)
qed simp_all

text \<open>
  Whatever bytes the decoder accepts, the value it returns is one the encoder can
  write: UTF-8 text, map keys strictly increasing at every depth; so encoding it and
  decoding again gives the same value.
\<close>

theorem decode_sound:
  assumes "decode bs = Ok v"
  shows "wf_value v \<and> sorted_value v \<and> decode (encode v) = Ok v"
proof -
  obtain r where "read_value bs = Ok (v, r)"
    using assms by (auto simp: decode_def rbind_eq_Ok split: if_splits)
  then have "wf_value v" "sorted_value v" by (simp_all add: read_sound)
  then show ?thesis
    using read_write_value [of v "[]"] by (simp add: decode_def encode_def canon_sorted)
qed

theorem decode_sound_witness:
  "decode [0xA1, 0x01, 0x82, 0x00, 0x18, 0x05] = Ok (Map [(1, Array [Uint 0, Uint 5])]) \<and>
   decode (encode (Map [(1, Array [Uint 0, Uint 5])])) = Ok (Map [(1, Array [Uint 0, Uint 5])])"
proof -
  have "decode [0xA1, 0x01, 0x82, 0x00, 0x18, 0x05] = Ok (Map [(1, Array [Uint 0, Uint 5])])"
    by code_simp
  with decode_sound [OF this] show ?thesis by simp
qed

theorem cbor_roundtrip_witness:
  "decode (encode (Map [(7, Text (str_bytes ''a'')), (2, Uint 300)])) =
     Ok (Map [(2, Uint 300), (7, Text (str_bytes ''a''))])"
  using cbor_roundtrip [of "Map [(7, Text (str_bytes ''a'')), (2, Uint 300)]"]
  by (simp add: str_bytes_def of_char_def)

lemma read_nested: "read_value (replicate n 0x81 @ 0 # rest) = Ok (((\<lambda>v. Array [v]) ^^ n) (Uint 0), rest)"
proof (induction n)
  case 0
  show ?case by (simp add: read_value.simps [of "0 # _"] read_head_def)
next
  case (Suc n)
  have "read_value (0x81 # replicate n 0x81 @ 0 # rest) =
      rbind (read_items 1 (replicate n 0x81 @ 0 # rest)) (\<lambda>(items, r). Ok (Array items, r))"
    by (simp add: read_value.simps [of "0x81 # _"] read_head_def Let_def not_less)
  with Suc show ?case by simp
qed

text \<open>
  The decoder has no limit on nesting: \<open>n\<close> bytes \<open>0x81\<close> and a zero byte decode, for
  every \<open>n\<close>, to \<open>n\<close> nested arrays, one recursive call of \<open>read_value\<close> per input byte.
\<close>

theorem decode_nesting_unbounded:
  "decode (replicate n 0x81 @ [0]) = Ok (((\<lambda>v. Array [v]) ^^ n) (Uint 0))"
  by (simp add: decode_def read_nested)

end
