(* ===== verification/Sign.thy ===== *)
theory Sign
  imports Wire_Ids
begin

text \<open>
  \<open>nemo-wire/src/sign.rs\<close>: domain-separated Ed25519 signatures. The signed bytes are the
  prefix \<open>nemo-v1/\<close>, the context, a zero byte and the payload.
\<close>

section \<open>Model\<close>

definition CONTEXT_PREFIX :: bytes where
  "CONTEXT_PREFIX = str_bytes ''nemo-v1/''"

definition HOME_SERVER_BINDING :: bytes where
  "HOME_SERVER_BINDING = str_bytes ''home-server-binding''"

definition PREKEY :: bytes where
  "PREKEY = str_bytes ''prekey''"

definition REVOCATION :: bytes where
  "REVOCATION = str_bytes ''revocation''"

definition GROUP_INVITE :: bytes where
  "GROUP_INVITE = str_bytes ''group-invite''"

definition GROUP_ADMIT :: bytes where
  "GROUP_ADMIT = str_bytes ''group-admit''"

definition INVITEE_PROOF :: bytes where
  "INVITEE_PROOF = str_bytes ''invitee-proof''"

definition REMOVE_SIDECAR :: bytes where
  "REMOVE_SIDECAR = str_bytes ''remove-sidecar''"

definition SIGNING_KEY_REPLACE :: bytes where
  "SIGNING_KEY_REPLACE = str_bytes ''signing-key-replace''"

definition SERVER_BUNDLE :: bytes where
  "SERVER_BUNDLE = str_bytes ''server-bundle''"

definition SERVER_SIGN_ROTATE :: bytes where
  "SERVER_SIGN_ROTATE = str_bytes ''server-sign-rotate''"

definition MAILBOX_OWNER :: bytes where
  "MAILBOX_OWNER = str_bytes ''mailbox-owner''"

definition CAPABILITY_INTRO :: bytes where
  "CAPABILITY_INTRO = str_bytes ''capability-intro''"

definition SERVER_RESPONSE :: bytes where
  "SERVER_RESPONSE = str_bytes ''server-response''"

definition message :: "bytes \<Rightarrow> bytes \<Rightarrow> WireError + bytes" where
  "message ctxt payload =
     (if ctxt = [] \<or> 0x2F \<in> set ctxt \<or> \<not> list_all (\<lambda>b. b < 0x80) ctxt
      then Err (Cbor ''invalid signature context'')
      else Ok (CONTEXT_PREFIX @ ctxt @ [0x00] @ payload))"

definition sign :: "crypto \<Rightarrow> bytes \<Rightarrow> bytes \<Rightarrow> bytes \<Rightarrow> WireError + bytes" where
  "sign C sk ctxt payload = rbind (message ctxt payload) (\<lambda>msg. Ok (lib_ed_sign C sk msg))"

definition verify :: "crypto \<Rightarrow> key \<Rightarrow> bytes \<Rightarrow> bytes \<Rightarrow> bytes \<Rightarrow> WireError + unit" where
  "verify C pk ctxt payload sig = rbind (message ctxt payload) (\<lambda>msg.
     if lib_ed_verify C pk msg sig then Ok () else Err Signature)"

section \<open>Lemmas\<close>

text \<open>The contexts the protocol uses, all of them.\<close>

definition contexts :: "bytes list" where
  "contexts = [HOME_SERVER_BINDING, PREKEY, REVOCATION, GROUP_INVITE, GROUP_ADMIT, INVITEE_PROOF,
     REMOVE_SIDECAR, SIGNING_KEY_REPLACE, SERVER_BUNDLE, SERVER_SIGN_ROTATE, MAILBOX_OWNER,
     CAPABILITY_INTRO, SERVER_RESPONSE]"

lemmas context_defs = HOME_SERVER_BINDING_def PREKEY_def REVOCATION_def GROUP_INVITE_def
  GROUP_ADMIT_def INVITEE_PROOF_def REMOVE_SIDECAR_def SIGNING_KEY_REPLACE_def SERVER_BUNDLE_def
  SERVER_SIGN_ROTATE_def MAILBOX_OWNER_def CAPABILITY_INTRO_def SERVER_RESPONSE_def

definition context_ok :: "bytes \<Rightarrow> bool" where
  "context_ok ctxt \<longleftrightarrow> ctxt \<noteq> [] \<and> 0x2F \<notin> set ctxt \<and> list_all (\<lambda>b. b < 0x80) ctxt \<and> 0 \<notin> set ctxt"

lemma contexts_ok: "list_all context_ok contexts"
  by code_simp

lemma message_context_ok: "context_ok c \<Longrightarrow> message c p = Ok (CONTEXT_PREFIX @ c @ [0x00] @ p)"
  by (auto simp: message_def context_ok_def)

lemma append_sep_inj:
  "x \<notin> set as \<Longrightarrow> x \<notin> set bs \<Longrightarrow> as @ x # u = bs @ x # v \<longleftrightarrow> as = bs \<and> u = v"
  by (auto simp: append_eq_Cons_conv Cons_eq_append_conv append_eq_append_conv2)

lemma message_inj:
  assumes "context_ok c1" "context_ok c2"
  shows "message c1 p1 = message c2 p2 \<longleftrightarrow> c1 = c2 \<and> p1 = p2"
proof -
  have "c1 @ 0 # p1 = c2 @ 0 # p2 \<longleftrightarrow> c1 = c2 \<and> p1 = p2"
    using assms by (intro append_sep_inj) (auto simp: context_ok_def)
  then show ?thesis
    by (simp add: message_context_ok assms)
qed

lemma context_okI: "c \<in> set contexts \<Longrightarrow> context_ok c"
  using contexts_ok by (simp add: list_all_iff)

lemma contexts_known [simp]:
  "HOME_SERVER_BINDING \<in> set contexts" "PREKEY \<in> set contexts" "REVOCATION \<in> set contexts"
  "GROUP_INVITE \<in> set contexts" "GROUP_ADMIT \<in> set contexts" "INVITEE_PROOF \<in> set contexts"
  "REMOVE_SIDECAR \<in> set contexts" "SIGNING_KEY_REPLACE \<in> set contexts"
  "SERVER_BUNDLE \<in> set contexts" "SERVER_SIGN_ROTATE \<in> set contexts"
  "MAILBOX_OWNER \<in> set contexts" "CAPABILITY_INTRO \<in> set contexts" "SERVER_RESPONSE \<in> set contexts"
  by (simp_all add: contexts_def)

lemma sign_total:
  "c \<in> set contexts \<Longrightarrow> sign C sk c p = Ok (lib_ed_sign C sk (CONTEXT_PREFIX @ c @ [0x00] @ p))"
  by (simp add: sign_def message_context_ok context_okI)

lemma sign_Ok: "c \<in> set contexts \<Longrightarrow> \<exists>s. sign C sk c p = Ok s"
  by (simp add: sign_def message_context_ok context_okI)

lemma sign_eq_Ok: "sign C sk c p = Ok s \<longleftrightarrow> (\<exists>m. message c p = Ok m \<and> s = lib_ed_sign C sk m)"
  by (auto simp: sign_def rbind_eq_Ok)

lemma length_sign: "ed25519_correct C \<Longrightarrow> sign C sk c p = Ok s \<Longrightarrow> length s = 64"
  by (auto simp: sign_eq_Ok ed25519_correct_def)

lemma verify_sign_ok: "ed25519_correct C \<Longrightarrow> sign C sk c p = Ok s \<Longrightarrow> verify C (lib_ed_public C sk) c p s = Ok ()"
  by (auto simp: verify_def sign_eq_Ok ed25519_correct_def)

subsection \<open>A concrete instance of the primitives\<close>

text \<open>
  The packages' laws hold of these functions; the witnesses of the properties that rely on
  the laws evaluate on them.
\<close>

definition plain_crypto :: crypto where
  "plain_crypto = \<lparr>
     lib_sha256 = (\<lambda>m. resize 32 m),
     lib_ed_public = (\<lambda>sk. resize 32 sk),
     lib_ed_point = (\<lambda>pk. length pk = 32),
     lib_ed_sign = (\<lambda>sk m. resize 64 (resize 32 sk @ m)),
     lib_ed_verify = (\<lambda>pk m s. s = resize 64 (pk @ m)),
     lib_hpke_public = (\<lambda>sk. sk),
     lib_hpke_pk = (\<lambda>pk. length pk = 32),
     lib_hpke_sk = (\<lambda>sk. length sk = 32),
     lib_hpke_enc = (\<lambda>e. length e = 32),
     lib_hpke_seal = (\<lambda>rnd pk info aad pt. Some (resize 32 rnd, pk @ pt)),
     lib_hpke_open = (\<lambda>sk enc info aad ct. if take 32 ct = sk then Some (drop 32 ct) else None),
     lib_b64_encode = (\<lambda>m. m),
     lib_b64_decode = Some\<rparr>"

lemma plain_crypto_laws [simp]:
  "sha256_digest plain_crypto" "ed25519_correct plain_crypto"
  "hpke_correct plain_crypto" "base64_correct plain_crypto"
  by (simp_all add: plain_crypto_def sha256_digest_def ed25519_correct_def hpke_correct_def
      base64_correct_def)

section \<open>Properties\<close>

text \<open>
  Domain separation: the bytes signed under two of the protocol's contexts are equal only
  when the contexts and the payloads are equal, so no signature made for one purpose is a
  signature for another.
\<close>

theorem message_domain_separation:
  assumes "c1 \<in> set contexts" "c2 \<in> set contexts"
  shows "message c1 p1 = message c2 p2 \<longleftrightarrow> c1 = c2 \<and> p1 = p2"
  using assms by (simp add: message_inj context_okI)

theorem message_domain_separation_witness:
  "PREKEY \<in> set contexts \<and> REVOCATION \<in> set contexts \<and> message PREKEY [1] \<noteq> message REVOCATION [2]"
proof -
  have "PREKEY \<in> set contexts" "REVOCATION \<in> set contexts" by (simp_all add: contexts_def)
  moreover have "PREKEY \<noteq> REVOCATION" by code_simp
  ultimately show ?thesis
    using message_domain_separation [of PREKEY REVOCATION "[1]" "[2]"] by simp
qed

end
