(* ===== verification/Codec.thy ===== *)
theory Codec
  imports Cbor_Codec Sign
begin

text \<open>
  What the wire objects share. The accessor chains
  \<open>copy_fixed(cbor::expect_bytes(cbor::map_get(&m, k)?)?)?\<close> and their like are named here, with
  the two interfaces every object of \<open>nemo-wire\<close> provides: a \<open>codec\<close> (encoding and decoding
  invert each other, the decoder returns well-formed objects only) and, for signed objects, a
  payload that determines every field the signature is meant to cover.
\<close>

section \<open>Accessor chains\<close>

definition get_bytes :: "(u64 \<times> Value) list \<Rightarrow> u64 \<Rightarrow> WireError + bytes" where
  "get_bytes m k = rbind (map_get m k) expect_bytes"

definition get_fixed :: "nat \<Rightarrow> (u64 \<times> Value) list \<Rightarrow> u64 \<Rightarrow> WireError + bytes" where
  "get_fixed n m k = rbind (get_bytes m k) (copy_fixed n)"

definition get_text :: "(u64 \<times> Value) list \<Rightarrow> u64 \<Rightarrow> WireError + bytes" where
  "get_text m k = rbind (map_get m k) expect_text"

definition get_uint :: "(u64 \<times> Value) list \<Rightarrow> u64 \<Rightarrow> WireError + u64" where
  "get_uint m k = rbind (map_get m k) expect_uint"

text \<open>An optional entry of fixed length.\<close>

definition get_fixed_opt :: "nat \<Rightarrow> (u64 \<times> Value) list \<Rightarrow> u64 \<Rightarrow> WireError + bytes option" where
  "get_fixed_opt n m k =
     (case map_get_opt m k of
        Some v \<Rightarrow> rbind (expect_bytes v) (\<lambda>b. rbind (copy_fixed n b) (\<lambda>x. Ok (Some x)))
      | None \<Rightarrow> Ok None)"

text \<open>\<open>let Value::Map(m) = cbor::decode(bytes)? else { return Err(...) }\<close>.\<close>

definition decode_map :: "string \<Rightarrow> bytes \<Rightarrow> WireError + (u64 \<times> Value) list" where
  "decode_map msg bs = rbind (decode bs) (\<lambda>v. case v of Map m \<Rightarrow> Ok m | _ \<Rightarrow> Err (Cbor msg))"

text \<open>The version check on key 0.\<close>

definition check_version :: "(u64 \<times> Value) list \<Rightarrow> WireError + unit" where
  "check_version m = rbind (get_uint m 0) (\<lambda>version.
     if version \<noteq> ucast PROTOCOL_VERSION then Err (UnknownVersion version) else Ok ())"

definition version_value :: Value where
  "version_value = Uint (ucast PROTOCOL_VERSION)"

section \<open>Interfaces\<close>

text \<open>
  A wire format: what is encoded is read back, so no two objects share an encoding. A strict
  format also returns nothing but well-formed objects, so what was decoded survives being
  encoded and decoded again.
\<close>

locale codec =
  fixes enc :: "'a \<Rightarrow> bytes"
    and dec :: "bytes \<Rightarrow> WireError + 'a"
    and wf :: "'a \<Rightarrow> bool"
  assumes roundtrip: "wf x \<Longrightarrow> dec (enc x) = Ok x"
begin

lemma enc_inj: "wf x \<Longrightarrow> wf y \<Longrightarrow> enc x = enc y \<longleftrightarrow> x = y"
  using roundtrip by (metis sum.inject(2))

end

locale strict_codec = codec +
  assumes dec_wf: "dec bs = Ok x \<Longrightarrow> wf x"
begin

lemma dec_enc_dec: "dec bs = Ok x \<Longrightarrow> dec (enc x) = Ok x"
  by (simp add: roundtrip dec_wf)

lemma wf_iff: "wf x \<longleftrightarrow> dec (enc x) = Ok x"
  using roundtrip dec_wf by blast

end

text \<open>
  A signed object: its context is one of the protocol's, and its payload determines the part
  \<open>body\<close> the signature covers. Then the signed bytes determine that part, and a signature made
  with the key verifies.
\<close>

locale signed_object =
  fixes ctxt :: bytes
    and payload :: "'a \<Rightarrow> bytes"
    and body :: "'a \<Rightarrow> 'b"
    and wf :: "'a \<Rightarrow> bool"
  assumes known_context: "ctxt \<in> set contexts"
    and covers: "wf x \<Longrightarrow> wf y \<Longrightarrow> payload x = payload y \<Longrightarrow> body x = body y"
begin

lemma signed_bytes_inj:
  "wf x \<Longrightarrow> wf y \<Longrightarrow> message ctxt (payload x) = message ctxt (payload y) \<Longrightarrow> body x = body y"
  using message_inj [OF context_okI [OF known_context] context_okI [OF known_context]] covers by blast

lemma other_context:
  "c \<in> set contexts \<Longrightarrow> c \<noteq> ctxt \<Longrightarrow> message ctxt (payload x) \<noteq> message c p"
  using known_context by (simp add: message_inj context_okI)

lemma sign_verifies:
  "ed25519_correct C \<Longrightarrow>
   \<exists>s. sign C sk ctxt (payload x) = Ok s \<and> length s = 64 \<and>
       verify C (lib_ed_public C sk) ctxt (payload x) s = Ok ()"
  using known_context sign_Ok length_sign verify_sign_ok by metis

end

section \<open>Lemmas\<close>

lemma decode_encode_sorted [simp]:
  "wf_value v \<Longrightarrow> sorted_value v \<Longrightarrow> decode (encode v) = Ok v"
  using read_write_value [of v "[]"] by (simp add: decode_def encode_def canon_sorted)

lemma encode_inj:
  "wf_value v \<Longrightarrow> sorted_value v \<Longrightarrow> wf_value w \<Longrightarrow> sorted_value w \<Longrightarrow> encode v = encode w \<longleftrightarrow> v = w"
  by (metis decode_encode_sorted sum.inject(2))

lemma decode_wf: "decode bs = Ok v \<Longrightarrow> wf_value v"
  by (auto simp: decode_def rbind_eq_Ok dest: read_sound split: if_splits)

lemma decode_map_eq_Ok [result_simps]: "decode_map msg bs = Ok m \<longleftrightarrow> decode bs = Ok (Map m)"
proof (cases "decode bs")
  case (Inr v)
  then show ?thesis by (cases v) (simp_all add: decode_map_def)
qed (simp add: decode_map_def)

lemma decode_map_encode [simp]:
  "wf_value (Map m) \<Longrightarrow> sorted_value (Map m) \<Longrightarrow> decode_map msg (encode (Map m)) = Ok m"
  by (simp add: decode_map_def del: wf_value.simps sorted_value.simps)

lemma map_get_opt_simps [simp]:
  "map_get_opt [] k = None"
  "map_get_opt ((k', v) # m) k = (if k' = k then Some v else map_get_opt m k)"
  by (simp_all add: map_get_opt_def)

lemma map_get_opt_in: "map_get_opt m k = Some v \<Longrightarrow> (k, v) \<in> set m"
  by (induction m) (auto split: if_splits)

lemma expect_eq_Ok [simp, result_simps]:
  "expect_bytes v = Ok b \<longleftrightarrow> v = Bytes b"
  "expect_text v = Ok s \<longleftrightarrow> v = Text s"
  "expect_uint v = Ok n \<longleftrightarrow> v = Uint n"
  "expect_map v = Ok m \<longleftrightarrow> v = Map m"
  by (cases v; simp)+

lemma get_Cons [simp]:
  "get_bytes ((k', v) # m) k = (if k' = k then expect_bytes v else get_bytes m k)"
  "get_fixed n ((k', v) # m) k = (if k' = k then rbind (expect_bytes v) (copy_fixed n) else get_fixed n m k)"
  "get_text ((k', v) # m) k = (if k' = k then expect_text v else get_text m k)"
  "get_uint ((k', v) # m) k = (if k' = k then expect_uint v else get_uint m k)"
  by (simp_all add: get_bytes_def get_fixed_def get_text_def get_uint_def map_get_def)

lemma get_fixed_opt_simps [simp]:
  "get_fixed_opt n [] k = Ok None"
  "get_fixed_opt n ((k', v) # m) k =
     (if k' = k then rbind (expect_bytes v) (\<lambda>b. rbind (copy_fixed n b) (\<lambda>x. Ok (Some x)))
      else get_fixed_opt n m k)"
  by (simp_all add: get_fixed_opt_def)

lemma get_eq_Ok [result_simps]:
  "get_bytes m k = Ok b \<longleftrightarrow> map_get_opt m k = Some (Bytes b)"
  "get_fixed n m k = Ok b \<longleftrightarrow> map_get_opt m k = Some (Bytes b) \<and> length b = n"
  "get_text m k = Ok b \<longleftrightarrow> map_get_opt m k = Some (Text b)"
  "get_uint m k = Ok i \<longleftrightarrow> map_get_opt m k = Some (Uint i)"
  by (auto simp: get_bytes_def get_fixed_def get_text_def get_uint_def map_get_def rbind_eq_Ok)

lemma get_fixed_opt_eq_Ok [result_simps]:
  "get_fixed_opt n m k = Ok None \<longleftrightarrow> map_get_opt m k = None"
  "get_fixed_opt n m k = Ok (Some b) \<longleftrightarrow> map_get_opt m k = Some (Bytes b) \<and> length b = n"
  by (auto simp: get_fixed_opt_def rbind_eq_Ok split: option.splits)

lemma check_version_simps [simp]:
  "check_version ((0, version_value) # m) = Ok ()"
  by (simp add: check_version_def version_value_def)

lemma wf_version_value [simp]: "wf_value version_value" "sorted_value version_value"
  by (simp_all add: version_value_def)

lemma copy_fixed_simps [simp]: "length b = n \<Longrightarrow> copy_fixed n b = Ok b"
  by (simp add: copy_fixed_def)

lemma wf_entry:
  assumes "wf_value (Map m)"
  shows "map_get_opt m k = Some v \<Longrightarrow> wf_value v"
    and "map_get_opt m k = Some (Text s) \<Longrightarrow> utf8_valid s \<and> length s < 2 ^ 64"
    and "map_get_opt m k = Some (Bytes b) \<Longrightarrow> length b < 2 ^ 64"
  using assms by (force dest!: map_get_opt_in)+

lemmas decoded_entry = wf_entry [OF decode_wf]
lemmas decoded_lengths = decoded_entry(2,3) [simplified]

end
