(* ===== verification/Card.thy ===== *)
theory Card
  imports Codec
begin

text \<open>
  \<open>nemo-wire/src/card.rs\<close>: the signed home-server binding and the contact cc that carries
  it, with its URI form.
\<close>

section \<open>Model\<close>

definition CARD_MAX_BYTES :: nat where
  "CARD_MAX_BYTES = 400"

definition HOST_MAX_BYTES :: nat where
  "HOST_MAX_BYTES = 64"

definition CLOCK_SKEW_SECS :: u64 where
  "CLOCK_SKEW_SECS = 300"

definition URI_PREFIX :: bytes where
  "URI_PREFIX = str_bytes ''nemo:1:''"

record HomeServerBinding =
  hb_server_id :: key
  hb_hpke_public :: key
  hb_host :: bytes
  hb_seq :: u64
  hb_expires_at :: u64
  hb_signature :: bytes

definition hb_unsigned_cbor :: "HomeServerBinding \<Rightarrow> bytes" where
  "hb_unsigned_cbor b = encode (Map
     [(0, Bytes (hb_server_id b)),
      (1, Bytes (hb_hpke_public b)),
      (2, Text (hb_host b)),
      (3, Uint (hb_seq b)),
      (4, Uint (hb_expires_at b))])"

text \<open>\<open>contains("://")\<close> is implied by \<open>contains(':')\<close>, so it adds nothing to the guard.\<close>

definition validate_host :: "bytes \<Rightarrow> WireError + unit" where
  "validate_host host =
     (if host = [] \<or> length host > HOST_MAX_BYTES then Err BadHost
      else if 0x2F \<in> set host \<or> 0x3A \<in> set host \<or> sublist (str_bytes ''://'') host then Err BadHost
      else Ok ())"

definition hb_sign :: "crypto \<Rightarrow> bytes \<Rightarrow> HomeServerBinding \<Rightarrow> WireError + HomeServerBinding" where
  "hb_sign C sk b =
     rbind (validate_host (hb_host b)) (\<lambda>_.
     if hb_server_id b \<noteq> server_id C (hb_hpke_public b) then Err ServerIdMismatch
     else rbind (sign C sk HOME_SERVER_BINDING (hb_unsigned_cbor b)) (\<lambda>s.
       Ok (b\<lparr>hb_signature := s\<rparr>)))"

definition hb_verify :: "crypto \<Rightarrow> HomeServerBinding \<Rightarrow> key \<Rightarrow> u64 \<Rightarrow> WireError + unit" where
  "hb_verify C b pk now =
     rbind (validate_host (hb_host b)) (\<lambda>_.
     if hb_server_id b \<noteq> server_id C (hb_hpke_public b) then Err ServerIdMismatch
     else if hb_expires_at b + CLOCK_SKEW_SECS < now then Err BindingExpired
     else verify C pk HOME_SERVER_BINDING (hb_unsigned_cbor b) (hb_signature b))"

definition hb_to_cbor :: "HomeServerBinding \<Rightarrow> Value" where
  "hb_to_cbor b = Map
     [(0, Bytes (hb_server_id b)),
      (1, Bytes (hb_hpke_public b)),
      (2, Text (hb_host b)),
      (3, Uint (hb_seq b)),
      (4, Uint (hb_expires_at b)),
      (5, Bytes (hb_signature b))]"

definition hb_from_cbor :: "Value \<Rightarrow> WireError + HomeServerBinding" where
  "hb_from_cbor v =
     rbind (expect_map v) (\<lambda>m.
     rbind (get_fixed ID_LEN m 0) (\<lambda>sid.
     rbind (get_fixed KEY_LEN m 1) (\<lambda>pk.
     rbind (get_text m 2) (\<lambda>host.
     rbind (get_uint m 3) (\<lambda>seq.
     rbind (get_uint m 4) (\<lambda>expires.
     rbind (get_fixed SIG_LEN m 5) (\<lambda>sig.
       Ok \<lparr>hb_server_id = sid, hb_hpke_public = pk, hb_host = host, hb_seq = seq,
            hb_expires_at = expires, hb_signature = sig\<rparr>)))))))"

record ContactCard =
  cc_identity_public :: key
  cc_revocation_public :: key
  cc_share_token :: key
  cc_binding :: HomeServerBinding

definition cc_identity_id :: "crypto \<Rightarrow> ContactCard \<Rightarrow> key" where
  "cc_identity_id C cc = identity_id C (cc_identity_public cc)"

definition cc_bytes :: "ContactCard \<Rightarrow> bytes" where
  "cc_bytes cc = encode (Map
     [(0, version_value),
      (1, Bytes (cc_identity_public cc)),
      (2, Bytes (cc_revocation_public cc)),
      (3, Bytes (cc_share_token cc)),
      (4, hb_to_cbor (cc_binding cc))])"

definition cc_encode :: "ContactCard \<Rightarrow> WireError + bytes" where
  "cc_encode cc =
     (let bs = cc_bytes cc in if length bs > CARD_MAX_BYTES then Err CardTooLarge else Ok bs)"

definition cc_decode :: "bytes \<Rightarrow> WireError + ContactCard" where
  "cc_decode bs =
     (if length bs > CARD_MAX_BYTES then Err CardTooLarge
      else
        rbind (decode_map ''card must be a map'' bs) (\<lambda>m.
        rbind (check_version m) (\<lambda>_.
        rbind (get_fixed KEY_LEN m 1) (\<lambda>ipk.
        rbind (get_fixed KEY_LEN m 2) (\<lambda>rpk.
        rbind (get_fixed KEY_LEN m 3) (\<lambda>tok.
        rbind (rbind (map_get m 4) hb_from_cbor) (\<lambda>b.
          Ok \<lparr>cc_identity_public = ipk, cc_revocation_public = rpk, cc_share_token = tok,
               cc_binding = b\<rparr>)))))))"

definition cc_to_uri :: "crypto \<Rightarrow> ContactCard \<Rightarrow> WireError + bytes" where
  "cc_to_uri C cc = rbind (cc_encode cc) (\<lambda>bs. Ok (URI_PREFIX @ lib_b64_encode C bs))"

definition cc_from_uri :: "crypto \<Rightarrow> bytes \<Rightarrow> WireError + ContactCard" where
  "cc_from_uri C uri =
     (if \<not> prefix URI_PREFIX uri then Err (Uri ''missing nemo:1: prefix'')
      else rbind (ok_or (lib_b64_decode C (drop (length URI_PREFIX) uri)) (Uri ''base64url'')) cc_decode)"

definition cc_verify :: "crypto \<Rightarrow> ContactCard \<Rightarrow> u64 \<Rightarrow> WireError + unit" where
  "cc_verify C cc now =
     (if \<not> lib_ed_point C (cc_identity_public cc) then Err Signature
      else hb_verify C (cc_binding cc) (cc_identity_public cc) now)"

section \<open>Lemmas\<close>

definition hb_wf :: "HomeServerBinding \<Rightarrow> bool" where
  "hb_wf b \<longleftrightarrow> length (hb_server_id b) = 32 \<and> length (hb_hpke_public b) = 32 \<and>
     utf8_valid (hb_host b) \<and> length (hb_host b) < 2 ^ 64 \<and> length (hb_signature b) = 64"

text \<open>The fields a binding's signature covers: all but the signature.\<close>

definition hb_body :: "HomeServerBinding \<Rightarrow> HomeServerBinding" where
  "hb_body b = b\<lparr>hb_signature := []\<rparr>"

lemma hb_to_cbor_wf: "hb_wf b \<Longrightarrow> wf_value (hb_to_cbor b) \<and> sorted_value (hb_to_cbor b)"
  by (simp add: hb_wf_def hb_to_cbor_def)

lemma hb_from_to_cbor: "hb_wf b \<Longrightarrow> hb_from_cbor (hb_to_cbor b) = Ok b"
  by (simp add: hb_wf_def hb_to_cbor_def hb_from_cbor_def)

lemma hb_from_cbor_wf: "wf_value v \<Longrightarrow> hb_from_cbor v = Ok b \<Longrightarrow> hb_wf b"
  by (auto simp: hb_from_cbor_def hb_wf_def result_simps simp del: wf_value.simps dest: wf_entry)

lemma hb_covers:
  assumes "hb_wf x" "hb_wf y" "hb_unsigned_cbor x = hb_unsigned_cbor y"
  shows "hb_body x = hb_body y"
  using assms by (simp add: hb_unsigned_cbor_def encode_inj hb_wf_def hb_body_def)

interpretation binding_sig: signed_object HOME_SERVER_BINDING hb_unsigned_cbor hb_body hb_wf
  by unfold_locales (simp add: contexts_def, rule hb_covers)

definition cc_wf :: "ContactCard \<Rightarrow> bool" where
  "cc_wf cc \<longleftrightarrow> length (cc_identity_public cc) = 32 \<and> length (cc_revocation_public cc) = 32 \<and>
     length (cc_share_token cc) = 32 \<and> hb_wf (cc_binding cc) \<and> length (hb_host (cc_binding cc)) \<le> HOST_MAX_BYTES"

lemma length_write_head_small:
  "n < 24 \<Longrightarrow> length (write_head major n) = 1" "n < 256 \<Longrightarrow> length (write_head major n) \<le> 2"
  by (auto simp: write_head_def word_less_nat_alt word_le_nat_alt)

lemma length_write_bytes:
  "length b < 256 \<Longrightarrow> length (write_value (Bytes b)) \<le> 2 + length b"
  "length b < 256 \<Longrightarrow> length (write_value (Text b)) \<le> 2 + length b"
  using length_write_head_small(2) [of "of_nat (length b)"] by (simp_all add: word_less_nat_alt)

lemma cc_bytes_le:
  assumes "cc_wf cc"
  shows "length (cc_bytes cc) \<le> CARD_MAX_BYTES"
proof -
  have s: "sort_key fst m = m" if "sorted_wrt (\<lambda>a b. fst a < fst b) m" for m :: "(u64 \<times> Value) list"
    using that by (intro sort_key_id_if_sorted) (auto simp: sorted_map intro: sorted_wrt_mono_rel [rotated])
  have h: "length (write_head 0 n) = 1" if "n \<in> {0, 1, 2, 3, 4, 5}" for n
    using that by (intro length_write_head_small) (auto simp: word_less_nat_alt)
  have "length (write_value (hb_to_cbor (cc_binding cc))) \<le> 229"
    using assms length_write_head(2) [of 0 "hb_seq (cc_binding cc)"] length_write_head(2) [of 0 "hb_expires_at (cc_binding cc)"]
      length_write_head_small(1) [of 6 5]
      length_write_bytes(1) [of "hb_server_id (cc_binding cc)"] length_write_bytes(1) [of "hb_hpke_public (cc_binding cc)"]
      length_write_bytes(1) [of "hb_signature (cc_binding cc)"] length_write_bytes(2) [of "hb_host (cc_binding cc)"]
    by (simp add: hb_to_cbor_def s h cc_wf_def hb_wf_def HOST_MAX_BYTES_def del: write_value.simps(2-4))
  then show ?thesis
    using assms length_write_head_small(1) [of 5 5] length_write_bytes(1) [of "cc_identity_public cc"]
      length_write_bytes(1) [of "cc_revocation_public cc"] length_write_bytes(1) [of "cc_share_token cc"]
      length_write_head_small(1) [of 1 0]
    by (simp add: cc_bytes_def encode_def s h cc_wf_def version_value_def PROTOCOL_VERSION_def CARD_MAX_BYTES_def)
qed

lemma cc_decode_bytes: "cc_wf cc \<Longrightarrow> cc_decode (cc_bytes cc) = Ok cc"
  using cc_bytes_le [of cc] hb_to_cbor_wf [of "cc_binding cc"] hb_from_to_cbor [of "cc_binding cc"]
  by (simp add: cc_decode_def cc_bytes_def cc_wf_def map_get_def)

interpretation card_codec: codec cc_bytes cc_decode cc_wf
  by unfold_locales (rule cc_decode_bytes)

section \<open>Properties\<close>

text \<open>
  A contact card travels unchanged: with fields of the right sizes and a host of at most
  64 bytes, \<open>cc_encode\<close> never refuses it as too large, \<open>cc_decode\<close> returns the same card,
  and so does \<open>cc_from_uri\<close> from the URI form.
\<close>

theorem card_roundtrip:
  assumes "cc_wf cc" "base64_correct C"
  shows "cc_encode cc = Ok (cc_bytes cc) \<and> length (cc_bytes cc) \<le> 400 \<and> cc_decode (cc_bytes cc) = Ok cc \<and>
    rbind (cc_to_uri C cc) (cc_from_uri C) = Ok cc"
  using assms cc_bytes_le [OF assms(1)] card_codec.roundtrip [OF assms(1)]
  by (simp add: cc_encode_def cc_to_uri_def cc_from_uri_def CARD_MAX_BYTES_def base64_correct_def)

text \<open>
  A binding that \<open>hb_sign\<close> issues verifies under the signer's key until its expiry
  (plus the allowed clock skew), as long as that sum does not wrap around.
\<close>

theorem binding_sign_verify:
  assumes "ed25519_correct C" "hb_sign C sk b = Ok b'"
    and "now \<le> hb_expires_at b + CLOCK_SKEW_SECS"
  shows "hb_verify C b' (lib_ed_public C sk) now = Ok () \<and> hb_body b' = hb_body b"
  using assms verify_sign_ok [OF assms(1)]
  by (auto simp: hb_sign_def hb_verify_def hb_body_def result_simps not_less hb_unsigned_cbor_def split: if_splits)

text \<open>
  The signature of a binding covers every other field: two well-formed bindings whose
  signed bytes coincide differ at most in their signature, and the bytes are those of no
  other kind of signed object.
\<close>

theorem binding_signature_covers:
  assumes "hb_wf x" "hb_wf y" "c \<in> set contexts" "c \<noteq> HOME_SERVER_BINDING"
  shows "(message HOME_SERVER_BINDING (hb_unsigned_cbor x) = message HOME_SERVER_BINDING (hb_unsigned_cbor y)
      \<longrightarrow> hb_body x = hb_body y) \<and>
    message HOME_SERVER_BINDING (hb_unsigned_cbor x) \<noteq> message c p"
  using binding_sig.signed_bytes_inj [OF assms(1,2)] binding_sig.other_context [OF assms(3,4)] by blast

text \<open>
  The expiry check of a binding adds the skew without a check for overflow: a binding
  that expires in the last 300 seconds of the \<open>u64\<close> range is refused as expired at a time
  long before its expiry.
\<close>

theorem binding_expiry_wraps:
  assumes "validate_host (hb_host b) = Ok ()" "hb_server_id b = server_id C (hb_hpke_public b)"
    and "- 300 \<le> hb_expires_at b" "300 \<le> now" "now < hb_expires_at b"
  shows "hb_verify C b pk now = Err BindingExpired"
proof -
  have "unat (- 300 :: u64) \<le> unat (hb_expires_at b)" using assms(3) by (simp add: word_le_nat_alt)
  then have "unat (hb_expires_at b + CLOCK_SKEW_SECS) < 300"
    using unat_u64 [of "hb_expires_at b"] by (simp add: CLOCK_SKEW_SECS_def unat_word_ariths le_mod_geq)
  with assms(4) have "hb_expires_at b + CLOCK_SKEW_SECS < now"
    by (simp add: word_less_nat_alt word_le_nat_alt)
  then show ?thesis using assms(1,2) by (simp add: hb_verify_def)
qed

section \<open>Witnesses\<close>

definition sample_binding :: HomeServerBinding where
  "sample_binding = \<lparr>hb_server_id = replicate 32 3, hb_hpke_public = replicate 32 3, hb_host = str_bytes ''home'',
     hb_seq = 1, hb_expires_at = 1000, hb_signature = replicate 64 0\<rparr>"

definition sample_card :: ContactCard where
  "sample_card = \<lparr>cc_identity_public = replicate 32 1, cc_revocation_public = replicate 32 2,
     cc_share_token = replicate 32 4, cc_binding = sample_binding\<rparr>"

lemma sample_binding_wf: "hb_wf sample_binding"
  by (simp add: hb_wf_def sample_binding_def str_bytes_def of_char_def)

lemma sample_card_wf: "cc_wf sample_card"
  using sample_binding_wf
  by (simp add: cc_wf_def sample_card_def HOST_MAX_BYTES_def) (simp add: sample_binding_def)

lemma sample_binding_server: "hb_server_id sample_binding = server_id plain_crypto (hb_hpke_public sample_binding)"
  by (simp add: sample_binding_def server_id_def sha256_def plain_crypto_def resize_def)

lemma sample_host_ok: "validate_host (hb_host sample_binding) = Ok ()"
  by code_simp

theorem card_roundtrip_witness:
  "cc_decode (cc_bytes sample_card) = Ok sample_card \<and>
   rbind (cc_to_uri plain_crypto sample_card) (cc_from_uri plain_crypto) = Ok sample_card"
  using card_roundtrip [OF sample_card_wf, of plain_crypto] by simp

theorem binding_sign_verify_witness:
  "\<exists>b'. hb_sign plain_crypto [1, 2] sample_binding = Ok b' \<and>
     hb_verify plain_crypto b' (lib_ed_public plain_crypto [1, 2]) 1100 = Ok ()"
proof -
  obtain s where "sign plain_crypto [1, 2] HOME_SERVER_BINDING (hb_unsigned_cbor sample_binding) = Ok s"
    using binding_sig.sign_verifies [of plain_crypto] by auto
  then have s: "hb_sign plain_crypto [1, 2] sample_binding = Ok (sample_binding\<lparr>hb_signature := s\<rparr>)"
    using sample_binding_server by (simp add: hb_sign_def sample_host_ok)
  have "(1100 :: u64) \<le> hb_expires_at sample_binding + CLOCK_SKEW_SECS"
    by (simp add: sample_binding_def CLOCK_SKEW_SECS_def)
  from binding_sign_verify [OF _ s this] s show ?thesis by simp
qed

theorem binding_signature_covers_witness:
  "message HOME_SERVER_BINDING (hb_unsigned_cbor sample_binding) \<noteq> message PREKEY []"
proof -
  have "PREKEY \<in> set contexts" "PREKEY \<noteq> HOME_SERVER_BINDING" by (simp add: contexts_def) code_simp
  from binding_signature_covers [OF sample_binding_wf sample_binding_wf this] show ?thesis by blast
qed

theorem binding_expiry_wraps_witness:
  "hb_verify plain_crypto (sample_binding\<lparr>hb_expires_at := - 1\<rparr>) [] 1000 = Err BindingExpired"
  using sample_host_ok sample_binding_server
  by (intro binding_expiry_wraps) (simp_all add: word_le_nat_alt word_less_nat_alt)

end
