(* ===== verification/Records.thy ===== *)
theory Records
  imports Card
begin

text \<open>
  Revocation statements (\<open>nemo-wire/src/revocation.rs\<close>), signed prekeys
  (\<open>nemo-wire/src/prekey.rs\<close>) and discovery records (\<open>nemo-wire/src/discovery.rs\<close>).
\<close>

section \<open>Model\<close>

subsection \<open>Revocation statements\<close>

record RevocationStatement =
  rs_identity_id :: key
  rs_coarse_timestamp :: u64
  rs_signature :: bytes

definition rs_fields :: "RevocationStatement \<Rightarrow> (u64 \<times> Value) list" where
  "rs_fields s =
     [(0, version_value),
      (1, Bytes (rs_identity_id s)),
      (2, Text (str_bytes ''revoked'')),
      (3, Uint (rs_coarse_timestamp s))]"

definition rs_unsigned_cbor :: "RevocationStatement \<Rightarrow> bytes" where
  "rs_unsigned_cbor s = encode (Map (rs_fields s))"

definition rs_sign :: "crypto \<Rightarrow> bytes \<Rightarrow> key \<Rightarrow> u64 \<Rightarrow> WireError + RevocationStatement" where
  "rs_sign C sk ident ts =
     (let s = \<lparr>rs_identity_id = ident, rs_coarse_timestamp = ts, rs_signature = replicate 64 0\<rparr> in
      rbind (sign C sk REVOCATION (rs_unsigned_cbor s)) (\<lambda>sig. Ok (s\<lparr>rs_signature := sig\<rparr>)))"

definition rs_verify :: "crypto \<Rightarrow> RevocationStatement \<Rightarrow> key \<Rightarrow> WireError + unit" where
  "rs_verify C s pk = verify C pk REVOCATION (rs_unsigned_cbor s) (rs_signature s)"

definition rs_encode :: "RevocationStatement \<Rightarrow> bytes" where
  "rs_encode s = encode (Map (rs_fields s @ [(4, Bytes (rs_signature s))]))"

definition rs_decode :: "bytes \<Rightarrow> WireError + RevocationStatement" where
  "rs_decode bs =
     rbind (decode_map ''revocation must be a map'' bs) (\<lambda>m.
     rbind (check_version m) (\<lambda>_.
     rbind (get_text m 2) (\<lambda>status.
     if status \<noteq> str_bytes ''revoked'' then Err BadRevocationStatus
     else
       rbind (get_fixed ID_LEN m 1) (\<lambda>ident.
       rbind (get_uint m 3) (\<lambda>ts.
       rbind (get_fixed SIG_LEN m 4) (\<lambda>sig.
         Ok \<lparr>rs_identity_id = ident, rs_coarse_timestamp = ts, rs_signature = sig\<rparr>))))))"

definition rs_verifying_key :: "crypto \<Rightarrow> key \<Rightarrow> WireError + key" where
  "rs_verifying_key C pk = (if lib_ed_point C pk then Ok pk else Err Signature)"

subsection \<open>Signed prekeys\<close>

record SignedPrekey =
  sp_identity_public :: key
  sp_prekey_id :: u64
  sp_libsignal_prekey :: bytes
  sp_signature :: bytes

definition sp_fields :: "SignedPrekey \<Rightarrow> (u64 \<times> Value) list" where
  "sp_fields p =
     [(0, version_value),
      (1, Bytes (sp_identity_public p)),
      (2, Uint (sp_prekey_id p)),
      (3, Bytes (sp_libsignal_prekey p))]"

definition sp_unsigned_cbor :: "SignedPrekey \<Rightarrow> bytes" where
  "sp_unsigned_cbor p = encode (Map (sp_fields p))"

definition sp_sign :: "crypto \<Rightarrow> bytes \<Rightarrow> u64 \<Rightarrow> bytes \<Rightarrow> WireError + SignedPrekey" where
  "sp_sign C sk prekey_id blob =
     (let p = \<lparr>sp_identity_public = lib_ed_public C sk, sp_prekey_id = prekey_id,
               sp_libsignal_prekey = blob, sp_signature = replicate 64 0\<rparr> in
      rbind (sign C sk PREKEY (sp_unsigned_cbor p)) (\<lambda>sig. Ok (p\<lparr>sp_signature := sig\<rparr>)))"

definition sp_verify :: "crypto \<Rightarrow> SignedPrekey \<Rightarrow> key \<Rightarrow> WireError + unit" where
  "sp_verify C p pinned =
     (if sp_identity_public p \<noteq> pinned then Err Signature
      else verify C pinned PREKEY (sp_unsigned_cbor p) (sp_signature p))"

definition sp_encode :: "SignedPrekey \<Rightarrow> bytes" where
  "sp_encode p = encode (Map (sp_fields p @ [(4, Bytes (sp_signature p))]))"

definition sp_decode :: "bytes \<Rightarrow> WireError + SignedPrekey" where
  "sp_decode bs =
     rbind (decode_map ''prekey must be a map'' bs) (\<lambda>m.
     rbind (check_version m) (\<lambda>_.
     rbind (get_fixed KEY_LEN m 1) (\<lambda>pk.
     rbind (get_uint m 2) (\<lambda>prekey_id.
     rbind (get_bytes m 3) (\<lambda>blob.
     rbind (get_fixed SIG_LEN m 4) (\<lambda>sig.
       Ok \<lparr>sp_identity_public = pk, sp_prekey_id = prekey_id, sp_libsignal_prekey = blob,
            sp_signature = sig\<rparr>))))))"

subsection \<open>Discovery records\<close>

record DiscoveryRecord =
  dr_identity_public :: key
  dr_revocation_public :: key
  dr_binding :: HomeServerBinding
  dr_revocation :: "RevocationStatement option"

definition dr_encode :: "DiscoveryRecord \<Rightarrow> bytes" where
  "dr_encode d = encode (Map
     ([(0, version_value),
       (1, Bytes (dr_identity_public d)),
       (2, Bytes (dr_revocation_public d)),
       (3, hb_to_cbor (dr_binding d))] @
      (case dr_revocation d of Some stmt \<Rightarrow> [(4, Bytes (rs_encode stmt))] | None \<Rightarrow> [])))"

definition dr_decode :: "bytes \<Rightarrow> WireError + DiscoveryRecord" where
  "dr_decode bs =
     rbind (decode_map ''discovery must be a map'' bs) (\<lambda>m.
     rbind (check_version m) (\<lambda>_.
     rbind (case map_get_opt m 4 of
              Some v \<Rightarrow> rbind (expect_bytes v) (\<lambda>b. rbind (rs_decode b) (\<lambda>s. Ok (Some s)))
            | None \<Rightarrow> Ok None) (\<lambda>revocation.
     rbind (get_fixed KEY_LEN m 1) (\<lambda>ipk.
     rbind (get_fixed KEY_LEN m 2) (\<lambda>rpk.
     rbind (rbind (map_get m 3) hb_from_cbor) (\<lambda>b.
       Ok \<lparr>dr_identity_public = ipk, dr_revocation_public = rpk, dr_binding = b,
            dr_revocation = revocation\<rparr>))))))"

section \<open>Lemmas\<close>

lemma utf8_words [simp]:
  "utf8_valid (str_bytes ''revoked'')" "utf8_valid (str_bytes ''admit'')" "utf8_valid (str_bytes ''revoke'')"
  "utf8_valid (str_bytes ''ok'')" "utf8_valid (str_bytes ''fail'')"
  by code_simp+

definition rs_wf :: "RevocationStatement \<Rightarrow> bool" where
  "rs_wf s \<longleftrightarrow> length (rs_identity_id s) = 32 \<and> length (rs_signature s) = 64"

definition sp_wf :: "SignedPrekey \<Rightarrow> bool" where
  "sp_wf p \<longleftrightarrow> length (sp_identity_public p) = 32 \<and> length (sp_signature p) = 64 \<and>
     length (sp_libsignal_prekey p) < 2 ^ 64"

definition dr_wf :: "DiscoveryRecord \<Rightarrow> bool" where
  "dr_wf d \<longleftrightarrow> length (dr_identity_public d) = 32 \<and> length (dr_revocation_public d) = 32 \<and>
     hb_wf (dr_binding d) \<and> (\<forall>s. dr_revocation d = Some s \<longrightarrow> rs_wf s)"

definition rs_body :: "RevocationStatement \<Rightarrow> RevocationStatement" where
  "rs_body s = s\<lparr>rs_signature := []\<rparr>"

definition sp_body :: "SignedPrekey \<Rightarrow> SignedPrekey" where
  "sp_body p = p\<lparr>sp_signature := []\<rparr>"

lemma rs_decode_wf: "rs_decode bs = Ok s \<Longrightarrow> rs_wf s"
  by (auto simp: rs_decode_def rs_wf_def result_simps split: if_splits)

interpretation revocation_codec: strict_codec rs_encode rs_decode rs_wf
  by unfold_locales
    (simp_all add: rs_encode_def rs_decode_def rs_fields_def rs_wf_def, auto simp: result_simps split: if_splits)

interpretation revocation_sig: signed_object REVOCATION rs_unsigned_cbor rs_body rs_wf
  by unfold_locales
    (simp_all add: contexts_def rs_unsigned_cbor_def rs_fields_def encode_inj rs_wf_def rs_body_def)

interpretation prekey_codec: strict_codec sp_encode sp_decode sp_wf
  by unfold_locales
    (simp_all add: sp_encode_def sp_decode_def sp_fields_def sp_wf_def, auto simp: result_simps dest: decoded_entry)

interpretation prekey_sig: signed_object PREKEY sp_unsigned_cbor sp_body sp_wf
  by unfold_locales
    (simp_all add: contexts_def sp_unsigned_cbor_def sp_fields_def encode_inj sp_wf_def sp_body_def)

lemma length_rs_encode:
  assumes "rs_wf s"
  shows "length (rs_encode s) < 2 ^ 64"
proof -
  let ?m = "rs_fields s @ [(4, Bytes (rs_signature s))]"
  have "sort_key fst ?m = ?m"
    by (rule sort_key_id_if_sorted) (simp add: rs_fields_def)
  then have "rs_encode s = write_head 5 5 @ concat (map (\<lambda>p. write_head 0 (fst p) @ write_value (snd p)) ?m)"
    by (simp add: rs_encode_def encode_def rs_fields_def)
  note w = length_write_head(2)
  from \<open>rs_encode s = _\<close> have "length (rs_encode s) \<le> 9 * 12 + 7 + 32 + 64"
    using assms w [of 5 5] w [of 0 0] w [of 0 "ucast PROTOCOL_VERSION"] w [of 0 1] w [of 2 32] w [of 0 2]
      w [of 3 7] w [of 0 3] w [of 0 "rs_coarse_timestamp s"] w [of 0 4] w [of 2 64]
    by (simp add: rs_fields_def version_value_def rs_wf_def)
  then show ?thesis by simp
qed

lemma dr_roundtrip:
  assumes "dr_wf d"
  shows "dr_decode (dr_encode d) = Ok d"
proof (cases "dr_revocation d")
  case None
  then show ?thesis
    using assms hb_to_cbor_wf [of "dr_binding d"] hb_from_to_cbor [of "dr_binding d"]
    by (simp add: dr_decode_def dr_encode_def dr_wf_def map_get_def)
next
  case (Some s)
  then have "rs_wf s" using assms by (simp add: dr_wf_def)
  with Some show ?thesis
    using assms hb_to_cbor_wf [of "dr_binding d"] hb_from_to_cbor [of "dr_binding d"]
      length_rs_encode [of s] revocation_codec.roundtrip [of s]
    by (simp add: dr_decode_def dr_encode_def dr_wf_def map_get_def)
qed

lemma hb_decoded:
  "decode bs = Ok (Map m) \<Longrightarrow> map_get_opt m k = Some v \<Longrightarrow> hb_from_cbor v = Ok b \<Longrightarrow> hb_wf b"
  using hb_from_cbor_wf [OF decoded_entry(1)] by blast

lemma dr_decode_wf: "dr_decode bs = Ok d \<Longrightarrow> dr_wf d"
  by (auto simp: dr_decode_def dr_wf_def map_get_def result_simps split: option.splits;
      blast intro: rs_decode_wf hb_decoded)

interpretation discovery_codec: strict_codec dr_encode dr_decode dr_wf
  by unfold_locales (rule dr_roundtrip, assumption, rule dr_decode_wf)

section \<open>Properties\<close>

text \<open>
  Revocation statements, signed prekeys and discovery records survive encoding and
  decoding, and each decoder returns nothing but objects that do: an object decodes from its
  own encoding exactly when it is well formed.
\<close>

theorem records_roundtrip:
  "(rs_wf s \<longleftrightarrow> rs_decode (rs_encode s) = Ok s) \<and>
   (sp_wf p \<longleftrightarrow> sp_decode (sp_encode p) = Ok p) \<and>
   (dr_wf d \<longleftrightarrow> dr_decode (dr_encode d) = Ok d)"
  using revocation_codec.wf_iff prekey_codec.wf_iff discovery_codec.wf_iff by simp

text \<open>
  A revocation statement verifies under the revocation key that signed it, and so does a
  prekey under the identity key; \<open>sp_verify\<close> refuses a prekey for any other pinned
  identity.
\<close>

theorem records_sign_verify:
  assumes "ed25519_correct C" "rs_sign C rsk ident ts = Ok s" "sp_sign C isk prekey_id blob = Ok p"
  shows "rs_verify C s (lib_ed_public C rsk) = Ok () \<and> rs_identity_id s = ident \<and>
    sp_verify C p (lib_ed_public C isk) = Ok () \<and> sp_libsignal_prekey p = blob \<and>
    (pk \<noteq> lib_ed_public C isk \<longrightarrow> sp_verify C p pk = Err Signature)"
  using assms verify_sign_ok [OF assms(1)]
  by (auto simp: rs_sign_def rs_verify_def sp_sign_def sp_verify_def Let_def result_simps
      rs_unsigned_cbor_def sp_unsigned_cbor_def rs_fields_def sp_fields_def)

theorem records_sign_verify_witness:
  "\<exists>s p. rs_sign plain_crypto [1] (replicate 32 5) 7 = Ok s \<and> sp_sign plain_crypto [2] 9 [1, 2, 3] = Ok p \<and>
    rs_verify plain_crypto s (lib_ed_public plain_crypto [1]) = Ok () \<and>
    sp_verify plain_crypto p (lib_ed_public plain_crypto [2]) = Ok ()"
proof -
  obtain s where s: "rs_sign plain_crypto [1] (replicate 32 5) 7 = Ok s"
    by (simp add: rs_sign_def sign_total)
  obtain p where p: "sp_sign plain_crypto [2] 9 [1, 2, 3] = Ok p"
    by (simp add: sp_sign_def sign_total)
  from s p show ?thesis
    using records_sign_verify [OF _ s p] by simp
qed

end
