(* ===== verification/Join.thy ===== *)
theory Join
  imports Records
begin

text \<open>
  \<open>nemo-wire/src/join.rs\<close>: the signed group invite, the admit and the invitee proof, and the
  check an admitting member makes of a bound invite.
\<close>

section \<open>Model\<close>

definition INTRO_TTL_5_MIN :: u64 where
  "INTRO_TTL_5_MIN = 5 * 60"

definition INTRO_TTL_30_MIN :: u64 where
  "INTRO_TTL_30_MIN = 30 * 60"

definition INTRO_TTL_1_HOUR :: u64 where
  "INTRO_TTL_1_HOUR = 60 * 60"

definition allowed_intro_ttl :: "u64 \<Rightarrow> bool" where
  "allowed_intro_ttl ttl \<longleftrightarrow> ttl = INTRO_TTL_5_MIN \<or> ttl = INTRO_TTL_30_MIN \<or> ttl = INTRO_TTL_1_HOUR"

definition invitee_binding :: "crypto \<Rightarrow> key \<Rightarrow> key \<Rightarrow> key" where
  "invitee_binding C pk salt = sha256 C (pk @ salt)"

subsection \<open>Invites\<close>

record GroupInvite =
  gi_group_id :: key
  gi_nonce :: key
  gi_ttl_secs :: u64
  gi_binding :: "key option"
  gi_salt :: "key option"
  gi_signature :: bytes

text \<open>\<open>if let Some(b) = field { pairs.push((k, Value::Bytes(b))) }\<close>.\<close>

definition opt_entry :: "u64 \<Rightarrow> key option \<Rightarrow> (u64 \<times> Value) list" where
  "opt_entry k f = (case f of Some b \<Rightarrow> [(k, Bytes b)] | None \<Rightarrow> [])"

definition gi_payload_map :: "GroupInvite \<Rightarrow> (u64 \<times> Value) list" where
  "gi_payload_map i =
     [(0, version_value),
      (1, Bytes (gi_group_id i)),
      (2, Bytes (gi_nonce i)),
      (3, Uint (gi_ttl_secs i))] @
     opt_entry 4 (gi_binding i) @ opt_entry 5 (gi_salt i)"

definition gi_payload :: "GroupInvite \<Rightarrow> bytes" where
  "gi_payload i = encode (Map (gi_payload_map i))"

definition gi_sign :: "crypto \<Rightarrow> bytes \<Rightarrow> key \<Rightarrow> key \<Rightarrow> u64 \<Rightarrow> (key \<times> key) option \<Rightarrow> WireError + GroupInvite" where
  "gi_sign C sk group_id nonce ttl bind =
     (if \<not> allowed_intro_ttl ttl then Err (Cbor ''intro ttl must be 5m, 30m, or 1h'')
      else
        (let i = \<lparr>gi_group_id = group_id, gi_nonce = nonce, gi_ttl_secs = ttl,
                  gi_binding = map_option fst bind, gi_salt = map_option snd bind,
                  gi_signature = replicate 64 0\<rparr> in
         rbind (sign C sk GROUP_INVITE (gi_payload i)) (\<lambda>s. Ok (i\<lparr>gi_signature := s\<rparr>))))"

definition gi_verify :: "crypto \<Rightarrow> GroupInvite \<Rightarrow> key \<Rightarrow> WireError + unit" where
  "gi_verify C i pk =
     (if \<not> allowed_intro_ttl (gi_ttl_secs i) then Err (Cbor ''intro ttl must be 5m, 30m, or 1h'')
      else if (gi_binding i \<noteq> None) \<noteq> (gi_salt i \<noteq> None) then Err (Cbor ''bound invite needs binding and salt'')
      else verify C pk GROUP_INVITE (gi_payload i) (gi_signature i))"

definition gi_encode :: "GroupInvite \<Rightarrow> bytes" where
  "gi_encode i = encode (Map (gi_payload_map i @ [(6, Bytes (gi_signature i))]))"

definition gi_decode :: "bytes \<Rightarrow> WireError + GroupInvite" where
  "gi_decode bs =
     rbind (decode_map ''group-invite must be a map'' bs) (\<lambda>m.
     rbind (check_version m) (\<lambda>_.
     rbind (get_fixed KEY_LEN m 1) (\<lambda>group_id.
     rbind (get_fixed KEY_LEN m 2) (\<lambda>nonce.
     rbind (get_uint m 3) (\<lambda>ttl.
     rbind (get_fixed_opt KEY_LEN m 4) (\<lambda>binding.
     rbind (get_fixed_opt KEY_LEN m 5) (\<lambda>salt.
     rbind (get_fixed SIG_LEN m 6) (\<lambda>sig.
       Ok \<lparr>gi_group_id = group_id, gi_nonce = nonce, gi_ttl_secs = ttl, gi_binding = binding,
            gi_salt = salt, gi_signature = sig\<rparr>))))))))"

subsection \<open>Admits\<close>

record GroupAdmit =
  ga_group_id :: key
  ga_pending_id :: key
  ga_signature :: bytes

definition ga_payload :: "key \<Rightarrow> key \<Rightarrow> bytes" where
  "ga_payload group_id pending_id = encode (Map
     [(0, version_value),
      (1, Bytes group_id),
      (2, Bytes pending_id),
      (3, Text (str_bytes ''admit''))])"

definition ga_sign :: "crypto \<Rightarrow> bytes \<Rightarrow> key \<Rightarrow> key \<Rightarrow> WireError + GroupAdmit" where
  "ga_sign C sk group_id pending_id =
     rbind (sign C sk GROUP_ADMIT (ga_payload group_id pending_id)) (\<lambda>s.
       Ok \<lparr>ga_group_id = group_id, ga_pending_id = pending_id, ga_signature = s\<rparr>)"

definition ga_verify :: "crypto \<Rightarrow> GroupAdmit \<Rightarrow> key \<Rightarrow> WireError + unit" where
  "ga_verify C a pk = verify C pk GROUP_ADMIT (ga_payload (ga_group_id a) (ga_pending_id a)) (ga_signature a)"

definition ga_encode :: "GroupAdmit \<Rightarrow> bytes" where
  "ga_encode a = encode (Map
     [(0, version_value),
      (1, Bytes (ga_group_id a)),
      (2, Bytes (ga_pending_id a)),
      (3, Text (str_bytes ''admit'')),
      (4, Bytes (ga_signature a))])"

definition ga_decode :: "bytes \<Rightarrow> WireError + GroupAdmit" where
  "ga_decode bs =
     rbind (decode_map ''group-admit must be a map'' bs) (\<lambda>m.
     rbind (check_version m) (\<lambda>_.
     rbind (get_text m 3) (\<lambda>word.
     if word \<noteq> str_bytes ''admit'' then Err (Cbor ''expected admit'')
     else
       rbind (get_fixed KEY_LEN m 1) (\<lambda>group_id.
       rbind (get_fixed KEY_LEN m 2) (\<lambda>pending_id.
       rbind (get_fixed SIG_LEN m 4) (\<lambda>sig.
         Ok \<lparr>ga_group_id = group_id, ga_pending_id = pending_id, ga_signature = sig\<rparr>))))))"

subsection \<open>Invitee proofs\<close>

record InviteeProof =
  ip_group_id :: key
  ip_pending_id :: key
  ip_signature :: bytes

definition ip_payload :: "key \<Rightarrow> key \<Rightarrow> bytes" where
  "ip_payload group_id pending_id = encode (Map
     [(0, version_value),
      (1, Bytes group_id),
      (2, Bytes pending_id)])"

definition ip_sign :: "crypto \<Rightarrow> bytes \<Rightarrow> key \<Rightarrow> key \<Rightarrow> WireError + InviteeProof" where
  "ip_sign C sk group_id pending_id =
     rbind (sign C sk INVITEE_PROOF (ip_payload group_id pending_id)) (\<lambda>s.
       Ok \<lparr>ip_group_id = group_id, ip_pending_id = pending_id, ip_signature = s\<rparr>)"

definition ip_verify :: "crypto \<Rightarrow> InviteeProof \<Rightarrow> key \<Rightarrow> WireError + unit" where
  "ip_verify C p pk = verify C pk INVITEE_PROOF (ip_payload (ip_group_id p) (ip_pending_id p)) (ip_signature p)"

definition ip_encode :: "InviteeProof \<Rightarrow> bytes" where
  "ip_encode p = encode (Map
     [(0, version_value),
      (1, Bytes (ip_group_id p)),
      (2, Bytes (ip_pending_id p)),
      (3, Bytes (ip_signature p))])"

definition ip_decode :: "bytes \<Rightarrow> WireError + InviteeProof" where
  "ip_decode bs =
     rbind (decode_map ''invitee-proof must be a map'' bs) (\<lambda>m.
     rbind (check_version m) (\<lambda>_.
     rbind (get_fixed KEY_LEN m 1) (\<lambda>group_id.
     rbind (get_fixed KEY_LEN m 2) (\<lambda>pending_id.
     rbind (get_fixed SIG_LEN m 3) (\<lambda>sig.
       Ok \<lparr>ip_group_id = group_id, ip_pending_id = pending_id, ip_signature = sig\<rparr>)))))"

definition verify_bound_invite :: "crypto \<Rightarrow> GroupInvite \<Rightarrow> InviteeProof \<Rightarrow> key \<Rightarrow> WireError + unit" where
  "verify_bound_invite C invite pf pk =
     (case (gi_binding invite, gi_salt invite) of
        (Some want, Some salt) \<Rightarrow>
          if ip_group_id pf \<noteq> gi_group_id invite then Err (Cbor ''proof group_id mismatch'')
          else rbind (ip_verify C pf pk) (\<lambda>_.
            if invitee_binding C pk salt \<noteq> want then Err Signature else Ok ())
      | _ \<Rightarrow> Err (Cbor ''invite is not bound''))"

section \<open>Lemmas\<close>

definition gi_wf :: "GroupInvite \<Rightarrow> bool" where
  "gi_wf i \<longleftrightarrow> length (gi_group_id i) = 32 \<and> length (gi_nonce i) = 32 \<and> length (gi_signature i) = 64 \<and>
     pred_option (\<lambda>b. length b = 32) (gi_binding i) \<and> pred_option (\<lambda>b. length b = 32) (gi_salt i)"

definition ga_wf :: "GroupAdmit \<Rightarrow> bool" where
  "ga_wf a \<longleftrightarrow> length (ga_group_id a) = 32 \<and> length (ga_pending_id a) = 32 \<and> length (ga_signature a) = 64"

definition ip_wf :: "InviteeProof \<Rightarrow> bool" where
  "ip_wf p \<longleftrightarrow> length (ip_group_id p) = 32 \<and> length (ip_pending_id p) = 32 \<and> length (ip_signature p) = 64"

definition gi_body :: "GroupInvite \<Rightarrow> GroupInvite" where
  "gi_body i = i\<lparr>gi_signature := []\<rparr>"

lemma opt_entry_simps [simp]: "opt_entry k None = []" "opt_entry k (Some b) = [(k, Bytes b)]"
  by (simp_all add: opt_entry_def)

lemma gi_decode_wf: "gi_decode bs = Ok i \<Longrightarrow> gi_wf i"
  by (auto simp: gi_decode_def gi_wf_def result_simps pred_option_def elim!: option.set_cases)

lemma gi_roundtrip: "gi_wf i \<Longrightarrow> gi_decode (gi_encode i) = Ok i"
  by (cases "gi_binding i"; cases "gi_salt i")
    (simp_all add: gi_encode_def gi_decode_def gi_payload_map_def gi_wf_def)

interpretation invite_codec: strict_codec gi_encode gi_decode gi_wf
  by unfold_locales (rule gi_roundtrip, assumption, rule gi_decode_wf)

lemma gi_covers:
  assumes "gi_wf x" "gi_wf y" "gi_payload x = gi_payload y"
  shows "gi_body x = gi_body y"
proof -
  have v: "wf_value (Map (gi_payload_map i)) \<and> sorted_value (Map (gi_payload_map i))" if "gi_wf i" for i
    using that by (cases "gi_binding i"; cases "gi_salt i") (simp_all add: gi_payload_map_def gi_wf_def)
  have "gi_payload_map x = gi_payload_map y"
    using assms v [of x] v [of y] by (simp add: gi_payload_def encode_inj)
  then show ?thesis
    by (cases "gi_binding x"; cases "gi_salt x"; cases "gi_binding y"; cases "gi_salt y")
      (simp_all add: gi_payload_map_def gi_body_def)
qed

interpretation invite_sig: signed_object GROUP_INVITE gi_payload gi_body gi_wf
  by unfold_locales (simp, rule gi_covers)

interpretation admit_codec: strict_codec ga_encode ga_decode ga_wf
  by unfold_locales
    (simp_all add: ga_encode_def ga_decode_def ga_wf_def, auto simp: result_simps split: if_splits)

interpretation admit_sig: signed_object GROUP_ADMIT "\<lambda>a. ga_payload (ga_group_id a) (ga_pending_id a)"
  "\<lambda>a. a\<lparr>ga_signature := []\<rparr>" ga_wf
  by unfold_locales (simp_all add: ga_payload_def encode_inj ga_wf_def)

interpretation proof_codec: strict_codec ip_encode ip_decode ip_wf
  by unfold_locales (simp_all add: ip_encode_def ip_decode_def ip_wf_def, auto simp: result_simps)

interpretation proof_sig: signed_object INVITEE_PROOF "\<lambda>p. ip_payload (ip_group_id p) (ip_pending_id p)"
  "\<lambda>p. p\<lparr>ip_signature := []\<rparr>" ip_wf
  by unfold_locales (simp_all add: ip_payload_def encode_inj ip_wf_def)

section \<open>Properties\<close>

text \<open>
  Invites, admits and invitee proofs survive encoding and decoding, with or without the
  optional binding and salt, and their decoders return nothing but objects that do.
\<close>

theorem join_roundtrip:
  "(gi_wf i \<longleftrightarrow> gi_decode (gi_encode i) = Ok i) \<and>
   (ga_wf a \<longleftrightarrow> ga_decode (ga_encode a) = Ok a) \<and>
   (ip_wf p \<longleftrightarrow> ip_decode (ip_encode p) = Ok p)"
  using invite_codec.wf_iff admit_codec.wf_iff proof_codec.wf_iff by simp

text \<open>
  \<open>gi_sign\<close> issues an invite exactly for the three allowed lifetimes, and what it issues
  verifies under the signer's key.
\<close>

theorem invite_sign_verify:
  assumes "ed25519_correct C"
  shows "if allowed_intro_ttl ttl
    then \<exists>i. gi_sign C sk g n ttl bind = Ok i \<and> gi_verify C i (lib_ed_public C sk) = Ok () \<and>
           gi_group_id i = g \<and> gi_nonce i = n \<and> gi_ttl_secs i = ttl \<and>
           gi_binding i = map_option fst bind \<and> gi_salt i = map_option snd bind
    else gi_sign C sk g n ttl bind = Err (Cbor ''intro ttl must be 5m, 30m, or 1h'')"
  using verify_sign_ok [OF assms, of sk GROUP_INVITE]
  by (auto simp: gi_sign_def gi_verify_def Let_def sign_total gi_payload_def gi_payload_map_def)

text \<open>
  A bound invite admits the invitee it was made for and nobody else: with a proof signed
  by the invitee's identity key \<open>verify_bound_invite\<close> accepts, and if it accepts another key
  then the two keys with the invite's salt are a collision of the hash. An invite without a
  binding is never accepted.
\<close>

theorem bound_invite_sound:
  assumes "ed25519_correct C" "ip_sign C isk (gi_group_id invt) pid = Ok pf"
    and "gi_salt invt = Some salt" "gi_binding invt = Some (invitee_binding C (lib_ed_public C isk) salt)"
  shows "verify_bound_invite C invt pf (lib_ed_public C isk) = Ok () \<and>
    (verify_bound_invite C invt pf' pk = Ok () \<longrightarrow> pk = lib_ed_public C isk \<or>
       pk @ salt \<noteq> lib_ed_public C isk @ salt \<and> sha256 C (pk @ salt) = sha256 C (lib_ed_public C isk @ salt)) \<and>
    verify_bound_invite C (invt\<lparr>gi_binding := None\<rparr>) pf' pk = Err (Cbor ''invite is not bound'')"
  using assms verify_sign_ok [OF assms(1)]
  by (auto simp: ip_sign_def verify_bound_invite_def ip_verify_def invitee_binding_def result_simps
      split: if_splits)

section \<open>Witnesses\<close>

theorem invite_sign_verify_witness:
  "\<exists>i. gi_sign plain_crypto [1] (replicate 32 2) (replicate 32 3) 300 None = Ok i \<and>
     gi_verify plain_crypto i (lib_ed_public plain_crypto [1]) = Ok ()"
proof -
  have "allowed_intro_ttl 300" by (simp add: allowed_intro_ttl_def INTRO_TTL_5_MIN_def)
  with invite_sign_verify [of plain_crypto 300 "[1]" "replicate 32 2" "replicate 32 3" None] show ?thesis
    by auto
qed

definition sample_invite :: GroupInvite where
  "sample_invite = \<lparr>gi_group_id = replicate 32 2, gi_nonce = replicate 32 3, gi_ttl_secs = 300,
     gi_binding = Some (invitee_binding plain_crypto (lib_ed_public plain_crypto [1]) (replicate 32 6)),
     gi_salt = Some (replicate 32 6), gi_signature = replicate 64 0\<rparr>"

theorem bound_invite_sound_witness:
  "\<exists>pf. ip_sign plain_crypto [1] (gi_group_id sample_invite) (replicate 32 8) = Ok pf \<and>
     verify_bound_invite plain_crypto sample_invite pf (lib_ed_public plain_crypto [1]) = Ok ()"
proof -
  obtain pf where "ip_sign plain_crypto [1] (gi_group_id sample_invite) (replicate 32 8) = Ok pf"
    by (simp add: ip_sign_def sign_total)
  with bound_invite_sound [OF _ this] show ?thesis by (simp add: sample_invite_def)
qed

end
