(* ===== verification/Envelope.thy ===== *)
theory Envelope
  imports Wire_Ids
begin

text \<open>
  \<open>nemo-wire/src/envelope.rs\<close>: message types, time-to-live buckets, messages padded to a
  size bucket, the inner envelope and the outer envelope.
\<close>

section \<open>Model\<close>

definition T1 :: nat where "T1 = 1024"
definition T2 :: nat where "T2 = 4096"
definition T3 :: nat where "T3 = 16384"
definition A1 :: nat where "A1 = 262144"
definition A2 :: nat where "A2 = 1048576"
definition A3 :: nat where "A3 = 4194304"
definition A4 :: nat where "A4 = 16777216"
definition INNER_TEXT_OUTER :: nat where "INNER_TEXT_OUTER = 20480"
definition A1_OUTER :: nat where "A1_OUTER = 266240"
definition A2_OUTER :: nat where "A2_OUTER = 1052672"
definition A3_OUTER :: nat where "A3_OUTER = 4202496"
definition A4_OUTER :: nat where "A4_OUTER = 16781312"

definition TEXT_INNER :: "nat list" where
  "TEXT_INNER = [T1, T2, T3]"

definition ATTACH_INNER :: "nat list" where
  "ATTACH_INNER = [A1, A2, A3, A4]"

datatype MessageType =
    DoubleRatchet | MlsApp | AttachmentDr | RemoveBundleType | SigningKeyReplaceType
  | AttachmentReserveType | RevocationStatementType | MlsHandshake

fun type_u8 :: "MessageType \<Rightarrow> byte" where
  "type_u8 DoubleRatchet = 0x01"
| "type_u8 MlsApp = 0x02"
| "type_u8 AttachmentDr = 0x03"
| "type_u8 RemoveBundleType = 0x10"
| "type_u8 SigningKeyReplaceType = 0x11"
| "type_u8 AttachmentReserveType = 0x12"
| "type_u8 RevocationStatementType = 0x13"
| "type_u8 MlsHandshake = 0x14"

definition type_from_u8 :: "byte \<Rightarrow> WireError + MessageType" where
  "type_from_u8 v =
     (if v = 0x01 then Ok DoubleRatchet
      else if v = 0x02 then Ok MlsApp
      else if v = 0x03 then Ok AttachmentDr
      else if v = 0x10 then Ok RemoveBundleType
      else if v = 0x11 then Ok SigningKeyReplaceType
      else if v = 0x12 then Ok AttachmentReserveType
      else if v = 0x13 then Ok RevocationStatementType
      else if v = 0x14 then Ok MlsHandshake
      else Err (UnknownMessageType v))"

definition is_attachment :: "MessageType \<Rightarrow> bool" where
  "is_attachment t \<longleftrightarrow> t = AttachmentDr"

datatype TtlBucket = TtlBucket (ttl_u8: byte)

text \<open>\<open>TtlBucket::DEFAULT\<close> and \<open>TtlBucket::SECONDS_60\<close>.\<close>

definition TTL_DEFAULT :: TtlBucket where "TTL_DEFAULT = TtlBucket 0"
definition TTL_SECONDS_60 :: TtlBucket where "TTL_SECONDS_60 = TtlBucket 1"

definition ttl_from_u8 :: "byte \<Rightarrow> WireError + TtlBucket" where
  "ttl_from_u8 v = (if v \<le> 3 then Ok (TtlBucket v) else Err (UnknownTtl v))"

definition ttl_secs :: "TtlBucket \<Rightarrow> u64 option" where
  "ttl_secs t =
     (if ttl_u8 t = 0 then None
      else if ttl_u8 t = 1 then Some 60
      else if ttl_u8 t = 2 then Some 3600
      else if ttl_u8 t = 3 then Some 86400
      else None)"

record PaddedMessage =
  pm_type :: MessageType
  pm_body :: bytes
  pm_inner_len :: nat

definition buckets :: "MessageType \<Rightarrow> nat list" where
  "buckets t = (if is_attachment t then ATTACH_INNER else TEXT_INNER)"

definition pad :: "MessageType \<Rightarrow> bytes \<Rightarrow> WireError + PaddedMessage" where
  "pad t body =
     rbind (ok_or (find (\<lambda>b. 2 + length body \<le> b) (buckets t)) NoBucket) (\<lambda>inner_len.
       Ok \<lparr>pm_type = t, pm_body = body, pm_inner_len = inner_len\<rparr>)"

definition pm_encode :: "PaddedMessage \<Rightarrow> bytes" where
  "pm_encode m = resize (pm_inner_len m) ([PROTOCOL_VERSION, type_u8 (pm_type m)] @ pm_body m)"

definition pm_decode :: "bytes \<Rightarrow> WireError + PaddedMessage" where
  "pm_decode bs =
     (if length bs < 2 then Err BadEnvelope
      else if bs ! 0 \<noteq> PROTOCOL_VERSION then Err (UnknownVersion (ucast (bs ! 0)))
      else rbind (type_from_u8 (bs ! 1)) (\<lambda>t.
        if length bs \<notin> set (buckets t) then Err BadEnvelope
        else Ok \<lparr>pm_type = t, pm_body = drop 2 bs, pm_inner_len = length bs\<rparr>))"

record InnerEnvelope =
  ie_capability :: key
  ie_ttl :: TtlBucket
  ie_idempotency :: key
  ie_message :: PaddedMessage

definition header_len :: nat where
  "header_len = 1 + KEY_LEN + 1 + KEY_LEN"

definition outer_len :: "InnerEnvelope \<Rightarrow> nat" where
  "outer_len e =
     (if is_attachment (pm_type (ie_message e)) then
        (let n = pm_inner_len (ie_message e) in
         if n = A1 then A1_OUTER
         else if n = A2 then A2_OUTER
         else if n = A3 then A3_OUTER
         else if n = A4 then A4_OUTER
         else INNER_TEXT_OUTER)
      else INNER_TEXT_OUTER)"

definition encode_padded :: "InnerEnvelope \<Rightarrow> WireError + bytes" where
  "encode_padded e =
     (let out = [PROTOCOL_VERSION] @ ie_capability e @ [ttl_u8 (ie_ttl e)] @ ie_idempotency e @
                pm_encode (ie_message e);
          outer = outer_len e in
      if length out > outer then Err NoBucket else Ok (resize outer out))"

definition inner_len_of :: "bytes \<Rightarrow> WireError + nat" where
  "inner_len_of bs =
     (let rest = drop header_len bs in
      if length bs = INNER_TEXT_OUTER then
        ok_or (find (\<lambda>n. n \<le> length rest \<and> list_all (\<lambda>b. b = 0) (drop n rest)) TEXT_INNER) BadEnvelope
      else if length bs = A1_OUTER then Ok A1
      else if length bs = A2_OUTER then Ok A2
      else if length bs = A3_OUTER then Ok A3
      else if length bs = A4_OUTER then Ok A4
      else Err BadEnvelope)"

definition decode_padded :: "bytes \<Rightarrow> WireError + InnerEnvelope" where
  "decode_padded bs =
     (if length bs < header_len + 2 then Err BadEnvelope
      else if bs ! 0 \<noteq> PROTOCOL_VERSION then Err (UnknownVersion (ucast (bs ! 0)))
      else
        rbind (copy_fixed KEY_LEN (take KEY_LEN (drop 1 bs))) (\<lambda>cap.
        rbind (ttl_from_u8 (bs ! (1 + KEY_LEN))) (\<lambda>ttl.
        rbind (copy_fixed KEY_LEN (take KEY_LEN (drop (1 + KEY_LEN + 1) bs))) (\<lambda>idem.
        rbind (inner_len_of bs) (\<lambda>inner_len.
          if length (drop header_len bs) < inner_len then Err BadEnvelope
          else rbind (pm_decode (take inner_len (drop header_len bs))) (\<lambda>m.
            Ok \<lparr>ie_capability = cap, ie_ttl = ttl, ie_idempotency = idem, ie_message = m\<rparr>))))))"

record OuterEnvelope =
  oe_destination :: key
  oe_ciphertext :: bytes

definition oe_encode :: "OuterEnvelope \<Rightarrow> bytes" where
  "oe_encode oe =
     [PROTOCOL_VERSION] @ oe_destination oe @ be_bytes 4 (of_nat (length (oe_ciphertext oe))) @
     oe_ciphertext oe"

definition oe_decode :: "bytes \<Rightarrow> WireError + OuterEnvelope" where
  "oe_decode bs =
     (if length bs < 1 + KEY_LEN + 4 then Err BadEnvelope
      else if bs ! 0 \<noteq> PROTOCOL_VERSION then Err (UnknownVersion (ucast (bs ! 0)))
      else
        rbind (copy_fixed KEY_LEN (take KEY_LEN (drop 1 bs))) (\<lambda>dest.
        let n = unat (from_be_bytes (take 4 (drop (1 + KEY_LEN) bs)));
            rest = drop (1 + KEY_LEN + 4) bs in
        if length rest \<noteq> n then Err (Length n (length rest))
        else Ok \<lparr>oe_destination = dest, oe_ciphertext = rest\<rparr>))"

section \<open>Lemmas\<close>

lemmas text_sizes = T1_def T2_def T3_def INNER_TEXT_OUTER_def
lemmas attach_sizes = A1_def A2_def A3_def A4_def A1_OUTER_def A2_OUTER_def A3_OUTER_def A4_OUTER_def
lemmas size_defs = text_sizes attach_sizes TEXT_INNER_def ATTACH_INNER_def

lemma type_from_type_u8 [simp]: "type_from_u8 (type_u8 t) = Ok t"
  by (cases t) (simp_all add: type_from_u8_def)

lemma type_u8_from: "type_from_u8 v = Ok t \<Longrightarrow> type_u8 t = v"
  by (auto simp: type_from_u8_def split: if_splits)

lemma ttl_from_ttl_u8: "ttl_u8 t \<le> 3 \<Longrightarrow> ttl_from_u8 (ttl_u8 t) = Ok t"
  by (simp add: ttl_from_u8_def)

text \<open>The messages \<open>pad\<close> makes: the bucket is the smallest of its type that fits.\<close>

definition padded_ok :: "PaddedMessage \<Rightarrow> bool" where
  "padded_ok m \<longleftrightarrow> pm_inner_len m \<in> set (buckets (pm_type m)) \<and> 2 + length (pm_body m) \<le> pm_inner_len m"

lemma pad_eq_Ok:
  "pad t body = Ok m \<longleftrightarrow> (\<exists>n. find (\<lambda>b. 2 + length body \<le> b) (buckets t) = Some n \<and>
     m = \<lparr>pm_type = t, pm_body = body, pm_inner_len = n\<rparr>)"
  by (auto simp: pad_def rbind_eq_Ok)

lemma pad_padded_ok: "pad t body = Ok m \<Longrightarrow> padded_ok m \<and> pm_type m = t \<and> pm_body m = body"
  by (auto simp: pad_eq_Ok padded_ok_def find_Some_iff)

lemma buckets_ge_2: "n \<in> set (buckets t) \<Longrightarrow> 2 \<le> n"
  by (auto simp: buckets_def size_defs split: if_splits)

lemma pm_encode_padded_ok:
  "padded_ok m \<Longrightarrow> pm_encode m = PROTOCOL_VERSION # type_u8 (pm_type m) # pm_body m @
     replicate (pm_inner_len m - 2 - length (pm_body m)) 0"
  by (simp add: pm_encode_def padded_ok_def resize_ge)

lemma length_pm_encode [simp]: "length (pm_encode m) = pm_inner_len m"
  by (simp add: pm_encode_def)

lemma pm_decode_Cons:
  "2 + length body = n \<Longrightarrow> n \<in> set (buckets t) \<Longrightarrow>
   pm_decode (PROTOCOL_VERSION # type_u8 t # body) = Ok \<lparr>pm_type = t, pm_body = body, pm_inner_len = n\<rparr>"
  by (auto simp: pm_decode_def)

text \<open>The bytes of a padded inner envelope, by their parts.\<close>

definition inner_ok :: "InnerEnvelope \<Rightarrow> bool" where
  "inner_ok e \<longleftrightarrow> length (ie_capability e) = 32 \<and> length (ie_idempotency e) = 32 \<and>
     ttl_u8 (ie_ttl e) \<le> 3 \<and> padded_ok (ie_message e)"

lemma outer_len_fits:
  "padded_ok (ie_message e) \<Longrightarrow> header_len + pm_inner_len (ie_message e) \<le> outer_len e"
  by (auto simp: padded_ok_def buckets_def outer_len_def size_defs header_len_def Let_def split: if_splits)

lemma encode_padded_ok:
  assumes "inner_ok e"
  shows "encode_padded e = Ok ([PROTOCOL_VERSION] @ ie_capability e @ [ttl_u8 (ie_ttl e)] @
     ie_idempotency e @ pm_encode (ie_message e) @
     replicate (outer_len e - header_len - pm_inner_len (ie_message e)) 0)"
  using assms outer_len_fits [of e]
  by (simp add: encode_padded_def inner_ok_def Let_def resize_ge header_len_def)

lemma decode_padded_parts:
  assumes "length cap = 32" "length idem = 32" "ttl_u8 ttl \<le> 3" "2 \<le> length rest"
    and bs: "bs = [PROTOCOL_VERSION] @ cap @ [ttl_u8 ttl] @ idem @ rest"
  shows "decode_padded bs = rbind (inner_len_of bs) (\<lambda>n.
     if length rest < n then Err BadEnvelope
     else rbind (pm_decode (take n rest)) (\<lambda>m.
       Ok \<lparr>ie_capability = cap, ie_ttl = ttl, ie_idempotency = idem, ie_message = m\<rparr>))"
proof -
  have "drop header_len bs = rest"
    using assms by (simp add: header_len_def)
  moreover have "bs ! 33 = ttl_u8 ttl" "bs ! 0 = PROTOCOL_VERSION"
    using assms by (simp_all add: nth_append nth_Cons')
  moreover have "take 32 (drop 34 bs) = idem" "take 32 (drop 1 bs) = cap"
    using assms by (simp_all add: numeral_eq_Suc)
  moreover have "header_len + 2 \<le> length bs"
    using assms by (simp add: header_len_def)
  ultimately show ?thesis
    using assms(1-4) by (simp add: decode_padded_def ttl_from_u8_def copy_fixed_def cong: if_cong)
qed

text \<open>
  Which bucket \<open>decode_padded\<close> takes for the encoding of an envelope: for a text type the
  smallest one beyond which the padded message is zero.
\<close>

definition zero_from :: "nat \<Rightarrow> bytes \<Rightarrow> bool" where
  "zero_from n bs \<longleftrightarrow> list_all (\<lambda>b. b = 0) (drop n bs)"

definition seen_len :: "PaddedMessage \<Rightarrow> nat" where
  "seen_len m =
     (if is_attachment (pm_type m) then pm_inner_len m
      else if zero_from T1 (pm_encode m) then T1
      else if zero_from T2 (pm_encode m) then T2
      else T3)"

lemma zero_from_append_zeros: "zero_from n (bs @ replicate k 0) \<longleftrightarrow> zero_from n bs"
  by (auto simp: zero_from_def list_all_iff in_set_replicate dest: in_set_dropD)

lemma zero_from_ge: "length bs \<le> n \<Longrightarrow> zero_from n bs"
  by (simp add: zero_from_def)

lemma inner_len_of_plain:
  assumes "length bs = INNER_TEXT_OUTER"
  shows "inner_len_of bs =
     (if zero_from T1 (drop header_len bs) then Ok T1
      else if zero_from T2 (drop header_len bs) then Ok T2
      else if zero_from T3 (drop header_len bs) then Ok T3
      else Err BadEnvelope)"
  using assms by (simp add: inner_len_of_def Let_def TEXT_INNER_def text_sizes header_len_def zero_from_def)

lemma inner_len_of_attach:
  "length bs = A1_OUTER \<Longrightarrow> inner_len_of bs = Ok A1"
  "length bs = A2_OUTER \<Longrightarrow> inner_len_of bs = Ok A2"
  "length bs = A3_OUTER \<Longrightarrow> inner_len_of bs = Ok A3"
  "length bs = A4_OUTER \<Longrightarrow> inner_len_of bs = Ok A4"
  by (simp_all add: inner_len_of_def INNER_TEXT_OUTER_def attach_sizes)

lemma outer_len_attach:
  assumes "is_attachment (pm_type (ie_message e))"
  shows "pm_inner_len (ie_message e) = A1 \<Longrightarrow> outer_len e = A1_OUTER"
    "pm_inner_len (ie_message e) = A2 \<Longrightarrow> outer_len e = A2_OUTER"
    "pm_inner_len (ie_message e) = A3 \<Longrightarrow> outer_len e = A3_OUTER"
    "pm_inner_len (ie_message e) = A4 \<Longrightarrow> outer_len e = A4_OUTER"
  using assms by (simp_all add: outer_len_def attach_sizes)

lemma inner_len_of_encoded:
  assumes "inner_ok e" "encode_padded e = Ok bs"
  shows "length bs = outer_len e" "inner_len_of bs = Ok (seen_len (ie_message e))"
    "seen_len (ie_message e) \<le> pm_inner_len (ie_message e)"
proof -
  let ?m = "ie_message e" and ?z = "replicate (outer_len e - header_len - pm_inner_len (ie_message e)) (0 :: byte)"
  have bs: "bs = [PROTOCOL_VERSION] @ ie_capability e @ [ttl_u8 (ie_ttl e)] @ ie_idempotency e @ pm_encode ?m @ ?z"
    using encode_padded_ok [OF assms(1)] assms(2) by simp
  have fits: "header_len + pm_inner_len ?m \<le> outer_len e"
    using assms(1) by (intro outer_len_fits) (simp add: inner_ok_def)
  show len: "length bs = outer_len e"
    using assms fits by (simp add: bs inner_ok_def header_len_def)
  have rest: "drop header_len bs = pm_encode ?m @ ?z"
    using assms(1) by (simp add: bs inner_ok_def header_len_def)
  have bucket: "pm_inner_len ?m \<in> set (buckets (pm_type ?m))"
    using assms(1) by (simp add: inner_ok_def padded_ok_def)
  have attach: "inner_len_of bs = Ok (pm_inner_len ?m)" if "is_attachment (pm_type ?m)"
  proof -
    have "pm_inner_len ?m \<in> {A1, A2, A3, A4}"
      using bucket that by (simp add: buckets_def ATTACH_INNER_def)
    then show ?thesis
      by (elim insertE emptyE) (simp_all only: outer_len_attach [OF that] inner_len_of_attach len)
  qed
  have plain: "inner_len_of bs = Ok (seen_len ?m) \<and> seen_len ?m \<le> pm_inner_len ?m"
    if "\<not> is_attachment (pm_type ?m)"
  proof -
    have o: "outer_len e = INNER_TEXT_OUTER" using that by (simp add: outer_len_def)
    have z: "zero_from n (drop header_len bs) \<longleftrightarrow> zero_from n (pm_encode ?m)" for n
      by (simp add: rest zero_from_append_zeros)
    have full: "zero_from n (pm_encode ?m)" if "pm_inner_len ?m \<le> n" for n
      using that by (simp add: zero_from_ge)
    have three: "pm_inner_len ?m = T1 \<or> pm_inner_len ?m = T2 \<or> pm_inner_len ?m = T3"
      using bucket that by (simp add: buckets_def TEXT_INNER_def)
    then have "zero_from T3 (pm_encode ?m)"
      by (intro full) (auto simp: text_sizes)
    then have "inner_len_of bs = Ok (seen_len ?m)"
      using that len by (simp add: inner_len_of_plain o seen_len_def z)
    moreover from three have "seen_len ?m \<le> pm_inner_len ?m"
      using that full [of T1] full [of T2] by (elim disjE) (simp_all add: seen_len_def text_sizes)
    ultimately show ?thesis by simp
  qed
  show "inner_len_of bs = Ok (seen_len ?m)" "seen_len ?m \<le> pm_inner_len ?m"
    using attach plain by (cases "is_attachment (pm_type ?m)"; simp add: seen_len_def)+
qed

lemma take_pm_encode:
  assumes "padded_ok m" "2 \<le> n" "n \<le> pm_inner_len m"
  shows "take n (pm_encode m) = PROTOCOL_VERSION # type_u8 (pm_type m) #
    take (n - 2) (pm_body m @ replicate (pm_inner_len m - 2 - length (pm_body m)) 0)"
  using assms by (simp add: pm_encode_padded_ok take_Cons' numeral_2_eq_2)

lemma seen_len_bucket:
  "padded_ok m \<Longrightarrow> seen_len m \<in> set (buckets (pm_type m))"
  by (auto simp: seen_len_def padded_ok_def buckets_def TEXT_INNER_def)

lemma decode_encode_padded:
  assumes "inner_ok e" "encode_padded e = Ok bs"
  shows "decode_padded bs = Ok (e\<lparr>ie_message := \<lparr>pm_type = pm_type (ie_message e),
     pm_body = take (seen_len (ie_message e) - 2) (pm_body (ie_message e) @
       replicate (pm_inner_len (ie_message e) - 2 - length (pm_body (ie_message e))) 0),
     pm_inner_len = seen_len (ie_message e)\<rparr>\<rparr>)"
proof -
  let ?m = "ie_message e"
  let ?n = "seen_len ?m"
  have m: "padded_ok ?m" using assms(1) by (simp add: inner_ok_def)
  have n: "2 \<le> ?n" "?n \<le> pm_inner_len ?m" "?n \<in> set (buckets (pm_type ?m))"
    using seen_len_bucket [OF m] inner_len_of_encoded(3) [OF assms] buckets_ge_2 by auto
  have "pm_decode (take ?n (pm_encode ?m @ z)) = Ok \<lparr>pm_type = pm_type ?m,
     pm_body = take (?n - 2) (pm_body ?m @ replicate (pm_inner_len ?m - 2 - length (pm_body ?m)) 0),
     pm_inner_len = ?n\<rparr>" for z
  proof -
    have "take ?n (pm_encode ?m @ z) = take ?n (pm_encode ?m)" using n(2) by simp
    moreover have "2 + length (take (?n - 2) (pm_body ?m @ replicate (pm_inner_len ?m - 2 - length (pm_body ?m)) 0)) = ?n"
      using n m by (auto simp: padded_ok_def)
    ultimately show ?thesis
      using pm_decode_Cons [OF _ n(3)] by (simp only: take_pm_encode [OF m n(1,2)])
  qed
  moreover have "decode_padded bs = rbind (inner_len_of bs) (\<lambda>n.
     if length (pm_encode ?m @ replicate (outer_len e - header_len - pm_inner_len ?m) 0) < n then Err BadEnvelope
     else rbind (pm_decode (take n (pm_encode ?m @ replicate (outer_len e - header_len - pm_inner_len ?m) 0))) (\<lambda>m.
       Ok \<lparr>ie_capability = ie_capability e, ie_ttl = ie_ttl e, ie_idempotency = ie_idempotency e, ie_message = m\<rparr>))"
    using assms encode_padded_ok [OF assms(1)] n
    by (intro decode_padded_parts) (auto simp: inner_ok_def)
  ultimately show ?thesis
    using n by (simp add: inner_len_of_encoded(2) [OF assms])
qed

lemma zero_tail:
  assumes "padded_ok m" "pm_body m \<noteq> []" "last (pm_body m) \<noteq> 0" "zero_from n (pm_encode m)"
  shows "2 + length (pm_body m) \<le> n"
proof (rule ccontr)
  assume "\<not> 2 + length (pm_body m) \<le> n"
  then have "last (pm_body m) \<in> set (drop n (PROTOCOL_VERSION # type_u8 (pm_type m) # pm_body m))"
    using assms(2) last_in_set [of "drop n (PROTOCOL_VERSION # type_u8 (pm_type m) # pm_body m)"]
    by simp
  then have "last (pm_body m) \<in> set (drop n (pm_encode m))"
    by (simp only: pm_encode_padded_ok [OF assms(1)] drop_append append_Cons [symmetric]) simp
  with assms(3,4) show False
    by (auto simp: zero_from_def list_all_iff)
qed

lemma find_sorted_Min:
  "sorted xs \<Longrightarrow> find P xs = (if {x \<in> set xs. P x} = {} then None else Some (Min {x \<in> set xs. P x}))"
proof (induction xs)
  case (Cons x xs)
  have "{y \<in> set (x # xs). P y} = (if P x then insert x {y \<in> set xs. P y} else {y \<in> set xs. P y})"
    by auto
  moreover have "Min (insert x {y \<in> set xs. P y}) = x"
    using Cons.prems by (intro Min_eqI) auto
  ultimately show ?case using Cons by simp
qed simp

lemma seen_len_zero: "padded_ok m \<Longrightarrow> zero_from (seen_len m) (pm_encode m)"
proof (cases "is_attachment (pm_type m) \<or> zero_from T1 (pm_encode m) \<or> zero_from T2 (pm_encode m)")
  case True
  then show ?thesis by (auto simp: seen_len_def zero_from_ge)
next
  case False
  moreover assume "padded_ok m"
  ultimately have "pm_inner_len m \<le> T3"
    by (auto simp: padded_ok_def buckets_def TEXT_INNER_def text_sizes)
  with False show ?thesis by (simp add: seen_len_def zero_from_ge)
qed

lemma seen_len_exact:
  assumes "pad t body = Ok m" "is_attachment t \<or> body \<noteq> [] \<and> last body \<noteq> 0"
    and "seen_len m \<le> pm_inner_len m"
  shows "seen_len m = pm_inner_len m"
proof (cases "is_attachment t")
  case True
  then show ?thesis using pad_padded_ok [OF assms(1)] by (simp add: seen_len_def)
next
  case False
  have m: "padded_ok m" "pm_type m = t" "pm_body m = body"
    using pad_padded_ok [OF assms(1)] by auto
  with False assms(2) have "2 + length body \<le> seen_len m"
    using zero_tail [OF m(1), of "seen_len m"] seen_len_zero [OF m(1)] by simp
  moreover have "sorted (buckets t)" by (simp add: buckets_def size_defs)
  ultimately have "pm_inner_len m \<le> seen_len m"
    using assms(1) seen_len_bucket [OF m(1)] m(2)
    by (auto simp: pad_eq_Ok find_sorted_Min split: if_splits)
  with assms(3) show ?thesis by simp
qed

section \<open>Properties\<close>

text \<open>
  C6. Padding hides the length: a message that \<open>pad\<close> accepts encodes to exactly the
  smallest size bucket of its type that holds its two header bytes and its body; \<open>pad\<close>
  refuses exactly the bodies that no bucket holds.
\<close>

theorem pad_smallest_bucket:
  "case pad t body of
     Ok m \<Rightarrow> {b \<in> set (buckets t). 2 + length body \<le> b} \<noteq> {} \<and>
       length (pm_encode m) = Min {b \<in> set (buckets t). 2 + length body \<le> b}
   | Err e \<Rightarrow> e = NoBucket \<and> {b \<in> set (buckets t). 2 + length body \<le> b} = {}"
proof -
  have "sorted (buckets t)" by (simp add: buckets_def size_defs)
  from find_sorted_Min [OF this, of "\<lambda>b. 2 + length body \<le> b"] show ?thesis
    by (cases "{b \<in> set (buckets t). 2 + length body \<le> b} = {}") (auto simp: pad_def)
qed

text \<open>
  An inner envelope whose message \<open>pad\<close> made encodes to its outer bucket, and
  \<open>decode_padded\<close> recovers capability, time to live, idempotency token and message type, and
  the body up to trailing zero bytes: exactly the body and its padding when the last byte of
  the body is not zero or the message is an attachment.
\<close>

theorem inner_envelope_roundtrip:
  assumes "pad t body = Ok m" "length cap = 32" "length idem = 32" "ttl_u8 ttl \<le> 3"
    and "e = \<lparr>ie_capability = cap, ie_ttl = ttl, ie_idempotency = idem, ie_message = m\<rparr>"
  shows "\<exists>bs n body'. encode_padded e = Ok bs \<and> length bs = outer_len e \<and>
     decode_padded bs = Ok (e\<lparr>ie_message := \<lparr>pm_type = t, pm_body = body', pm_inner_len = n\<rparr>\<rparr>) \<and>
     n \<le> pm_inner_len m \<and>
     body' @ replicate (pm_inner_len m - n) 0 = body @ replicate (pm_inner_len m - 2 - length body) 0 \<and>
     (is_attachment t \<or> body \<noteq> [] \<and> last body \<noteq> 0 \<longrightarrow> n = pm_inner_len m)"
proof -
  have e: "inner_ok e" and m: "padded_ok m" "pm_type m = t" "pm_body m = body"
    using assms pad_padded_ok [of t body m] by (auto simp: inner_ok_def)
  obtain bs where bs: "encode_padded e = Ok bs" using encode_padded_ok [OF e] by blast
  let ?n = "seen_len m"
  let ?p = "body @ replicate (pm_inner_len m - 2 - length body) 0"
  have n: "?n \<le> pm_inner_len m" "2 \<le> ?n"
    using inner_len_of_encoded(3) [OF e bs] seen_len_bucket [OF m(1)] buckets_ge_2 assms(5) by auto
  have p: "drop 2 (pm_encode m) = ?p"
    by (simp add: pm_encode_padded_ok m)
  have "list_all (\<lambda>b. b = 0) (drop (?n - 2) ?p)"
    using seen_len_zero [OF m(1)] n(2) by (simp only: p [symmetric] zero_from_def drop_drop le_add_diff_inverse2)
  then have tail: "drop (?n - 2) ?p = replicate (pm_inner_len m - ?n) 0"
    using n m(1,3) by (intro replicate_eqI) (auto simp: list_all_iff padded_ok_def)
  have "take (?n - 2) ?p @ replicate (pm_inner_len m - ?n) 0 = ?p"
    using append_take_drop_id [of "?n - 2" ?p] by (simp only: tail)
  moreover have "is_attachment t \<or> body \<noteq> [] \<and> last body \<noteq> 0 \<longrightarrow> ?n = pm_inner_len m"
    using seen_len_exact [OF assms(1) _ n(1)] by blast
  ultimately show ?thesis
    using bs inner_len_of_encoded(1) [OF e bs] decode_encode_padded [OF e bs] n(1) m assms(5) by auto
qed

text \<open>
  C36. The inner bucket is not always recovered: a text body of 1023 bytes whose last byte is
  zero is padded to \<open>T2\<close> and comes back from \<open>decode_padded\<close> in bucket \<open>T1\<close>, without
  its last byte.
\<close>

theorem inner_envelope_truncates:
  assumes "length body = 1023" "last body = 0" "length cap = 32" "length idem = 32"
    and "e = \<lparr>ie_capability = cap, ie_ttl = TtlBucket 0, ie_idempotency = idem,
      ie_message = \<lparr>pm_type = DoubleRatchet, pm_body = body, pm_inner_len = T2\<rparr>\<rparr>"
  shows "pad DoubleRatchet body = Ok (ie_message e) \<and> (\<exists>bs. encode_padded e = Ok bs \<and>
    decode_padded bs = Ok (e\<lparr>ie_message := \<lparr>pm_type = DoubleRatchet, pm_body = butlast body, pm_inner_len = T1\<rparr>\<rparr>))"
proof -
  have b: "buckets DoubleRatchet = [1024, 4096, 16384]" "\<not> is_attachment DoubleRatchet"
    by (simp_all add: buckets_def is_attachment_def size_defs)
  have e: "inner_ok e" using assms by (simp add: inner_ok_def padded_ok_def b T2_def)
  obtain bs where bs: "encode_padded e = Ok bs" using encode_padded_ok [OF e] by blast
  have body: "body = butlast body @ [0]"
    using assms(1,2) append_butlast_last_id [of body] by force
  have "drop T1 (pm_encode (ie_message e)) = 0 # replicate 3071 0"
    using assms(1) e by (subst pm_encode_padded_ok; simp add: inner_ok_def assms(5) T1_def T2_def)
      (subst body, simp)
  then have "seen_len (ie_message e) = T1"
    by (simp add: seen_len_def assms(5) b zero_from_def list_all_iff in_set_replicate)
  then show ?thesis
    using bs decode_encode_padded [OF e bs] assms(1)
    by (simp add: assms(5) pad_def b T1_def T2_def butlast_conv_take)
qed

lemma oe_decode_canonical:
  assumes "oe_decode bs = Ok oe"
  shows "length (oe_destination oe) = 32 \<and> length (oe_ciphertext oe) < 2 ^ 32 \<and> bs = oe_encode oe"
proof -
  define l where "l = take 4 (drop 33 bs)"
  have h: "37 \<le> length bs" "bs ! 0 = PROTOCOL_VERSION" "oe_destination oe = take 32 (drop 1 bs)"
      "oe_ciphertext oe = drop 37 bs" "length (drop 37 bs) = unat (from_be_bytes l)"
    using assms by (auto simp: oe_decode_def l_def Let_def rbind_eq_Ok split: if_splits)
  have "length l = 4" using h(1) by (simp add: l_def)
  then have l: "be_bytes 4 (from_be_bytes l) = l" "unat (from_be_bytes l) < 2 ^ 32"
    using be_bytes_from_be_bytes [of l] unat_from_be_bytes [of l] by simp_all
  have "bs = take 1 bs @ take 32 (drop 1 bs) @ take 4 (drop 33 bs) @ drop 37 bs"
    using append_take_drop_id [of 1 bs] append_take_drop_id [of 32 "drop 1 bs"]
      append_take_drop_id [of 4 "drop 33 bs"] by simp
  moreover have "take 1 bs = [PROTOCOL_VERSION]" using h(1,2) by (cases bs) auto
  ultimately have "bs = oe_encode oe"
    using h(3-5) l(1) by (simp add: oe_encode_def l_def [symmetric] h(5) del: be_bytes.simps)
  then show ?thesis
    using h l by simp
qed

lemma oe_decode_encode: "length (oe_destination oe) = 32 \<Longrightarrow> length (oe_ciphertext oe) < 2 ^ 32 \<Longrightarrow> oe_decode (oe_encode oe) = Ok oe"
  by (simp add: oe_decode_def oe_encode_def from_be_bytes_small copy_fixed_def Let_def del: be_bytes.simps)

text \<open>
  The outer envelope, which every relay reads, survives encoding and decoding for any
  ciphertext shorter than \<open>2 ^ 32\<close> bytes; \<open>oe_decode\<close> accepts nothing else, so the bytes
  of an accepted envelope are the encoding of what it returns.
\<close>

theorem outer_envelope_decode_iff:
  "oe_decode bs = Ok oe \<longleftrightarrow>
     length (oe_destination oe) = 32 \<and> length (oe_ciphertext oe) < 2 ^ 32 \<and> bs = oe_encode oe"
  using oe_decode_canonical oe_decode_encode by blast

section \<open>Witnesses\<close>

theorem inner_envelope_roundtrip_witness:
  "\<exists>bs. encode_padded \<lparr>ie_capability = replicate 32 7, ie_ttl = TtlBucket 2, ie_idempotency = replicate 32 9,
      ie_message = \<lparr>pm_type = MlsApp, pm_body = [5], pm_inner_len = 1024\<rparr>\<rparr> = Ok bs \<and> length bs = 20480 \<and>
    decode_padded bs = Ok \<lparr>ie_capability = replicate 32 7, ie_ttl = TtlBucket 2, ie_idempotency = replicate 32 9,
      ie_message = \<lparr>pm_type = MlsApp, pm_body = [5] @ replicate 1021 0, pm_inner_len = 1024\<rparr>\<rparr>"
proof -
  have "pad MlsApp [5] = Ok \<lparr>pm_type = MlsApp, pm_body = [5], pm_inner_len = 1024\<rparr>"
    by (simp add: pad_def buckets_def is_attachment_def size_defs)
  from inner_envelope_roundtrip [OF this, of "replicate 32 7" "replicate 32 9" "TtlBucket 2", OF _ _ _ refl]
  show ?thesis
    by (auto simp: outer_len_def is_attachment_def INNER_TEXT_OUTER_def)
qed

theorem inner_envelope_truncates_witness:
  "\<exists>bs. encode_padded \<lparr>ie_capability = replicate 32 7, ie_ttl = TtlBucket 0, ie_idempotency = replicate 32 9,
      ie_message = \<lparr>pm_type = DoubleRatchet, pm_body = replicate 1022 1 @ [0], pm_inner_len = T2\<rparr>\<rparr> = Ok bs \<and>
    decode_padded bs = Ok \<lparr>ie_capability = replicate 32 7, ie_ttl = TtlBucket 0, ie_idempotency = replicate 32 9,
      ie_message = \<lparr>pm_type = DoubleRatchet, pm_body = replicate 1022 1, pm_inner_len = T1\<rparr>\<rparr>"
  using inner_envelope_truncates [of "replicate 1022 1 @ [0]" "replicate 32 7" "replicate 32 9", OF _ _ _ _ refl]
  by simp

end
