(* ===== verification/Hostframe.thy ===== *)
theory Hostframe
  imports Records Envelope
begin

text \<open>
  \<open>nemo-wire/src/hostframe.rs\<close>: the bodies a group host frames (remove bundle, signing-key
  replacement, attachment reservation), the owner's authorisation of a mailbox request, signed
  responses, the server bundle and its key rotation, and the frames servers exchange.
\<close>

section \<open>Model\<close>

subsection \<open>Attachment sizes\<close>

datatype AttachmentSizeBucket = SizeA1 | SizeA2 | SizeA3 | SizeA4

definition size_from_u8 :: "byte \<Rightarrow> WireError + AttachmentSizeBucket" where
  "size_from_u8 v =
     (if v = 1 then Ok SizeA1
      else if v = 2 then Ok SizeA2
      else if v = 3 then Ok SizeA3
      else if v = 4 then Ok SizeA4
      else Err BadEnvelope)"

fun size_u8 :: "AttachmentSizeBucket \<Rightarrow> byte" where
  "size_u8 SizeA1 = 1"
| "size_u8 SizeA2 = 2"
| "size_u8 SizeA3 = 3"
| "size_u8 SizeA4 = 4"

fun size_inner_len :: "AttachmentSizeBucket \<Rightarrow> nat" where
  "size_inner_len SizeA1 = A1"
| "size_inner_len SizeA2 = A2"
| "size_inner_len SizeA3 = A3"
| "size_inner_len SizeA4 = A4"

definition size_for_len :: "nat \<Rightarrow> WireError + AttachmentSizeBucket" where
  "size_for_len n = ok_or (find (\<lambda>b. n \<le> size_inner_len b) [SizeA1, SizeA2, SizeA3, SizeA4]) NoBucket"

subsection \<open>Remove bundles\<close>

record RemoveBundle =
  rb_credential_id :: key
  rb_sidecar_signature :: bytes
  rb_mls_commit :: bytes

definition rb_sidecar_payload :: "crypto \<Rightarrow> key \<Rightarrow> key \<Rightarrow> bytes \<Rightarrow> bytes" where
  "rb_sidecar_payload C group_id credential_id commit = encode (Map
     [(0, Bytes credential_id),
      (1, Text (str_bytes ''revoke'')),
      (2, Bytes group_id),
      (3, Bytes (sha256 C commit))])"

definition rb_sign :: "crypto \<Rightarrow> bytes \<Rightarrow> key \<Rightarrow> key \<Rightarrow> bytes \<Rightarrow> WireError + RemoveBundle" where
  "rb_sign C sk group_id credential_id commit =
     rbind (sign C sk REMOVE_SIDECAR (rb_sidecar_payload C group_id credential_id commit)) (\<lambda>s.
       Ok \<lparr>rb_credential_id = credential_id, rb_sidecar_signature = s, rb_mls_commit = commit\<rparr>)"

definition rb_verify_sidecar :: "crypto \<Rightarrow> RemoveBundle \<Rightarrow> key \<Rightarrow> key \<Rightarrow> WireError + unit" where
  "rb_verify_sidecar C b pk group_id =
     verify C pk REMOVE_SIDECAR (rb_sidecar_payload C group_id (rb_credential_id b) (rb_mls_commit b))
       (rb_sidecar_signature b)"

definition rb_encode :: "RemoveBundle \<Rightarrow> WireError + bytes" where
  "rb_encode b =
     (if length (rb_mls_commit b) \<ge> 2 ^ 32 then Err NoBucket
      else Ok (rb_credential_id b @ rb_sidecar_signature b @
               be_bytes 4 (of_nat (length (rb_mls_commit b))) @ rb_mls_commit b))"

definition rb_decode :: "bytes \<Rightarrow> WireError + RemoveBundle" where
  "rb_decode body =
     (let hdr = KEY_LEN + SIG_LEN + 4 in
      if length body < hdr then Err BadEnvelope
      else
        rbind (copy_fixed KEY_LEN (take KEY_LEN body)) (\<lambda>cid.
        rbind (copy_fixed SIG_LEN (take SIG_LEN (drop KEY_LEN body))) (\<lambda>sig.
        let n = unat (from_be_bytes (take 4 (drop (KEY_LEN + SIG_LEN) body))) in
        if length body < hdr + n then Err BadEnvelope
        else Ok \<lparr>rb_credential_id = cid, rb_sidecar_signature = sig, rb_mls_commit = take n (drop hdr body)\<rparr>)))"

subsection \<open>Replacing a signing key\<close>

record SigningKeyReplace =
  skr_new_public :: key
  skr_signature :: bytes

definition skr_payload :: "key \<Rightarrow> bytes" where
  "skr_payload pk = encode (Map [(0, Bytes pk)])"

definition skr_sign :: "crypto \<Rightarrow> bytes \<Rightarrow> key \<Rightarrow> WireError + SigningKeyReplace" where
  "skr_sign C sk pk = rbind (sign C sk SIGNING_KEY_REPLACE (skr_payload pk)) (\<lambda>s.
     Ok \<lparr>skr_new_public = pk, skr_signature = s\<rparr>)"

definition skr_verify :: "crypto \<Rightarrow> SigningKeyReplace \<Rightarrow> key \<Rightarrow> WireError + unit" where
  "skr_verify C r pk = verify C pk SIGNING_KEY_REPLACE (skr_payload (skr_new_public r)) (skr_signature r)"

definition skr_encode :: "SigningKeyReplace \<Rightarrow> bytes" where
  "skr_encode r = skr_new_public r @ skr_signature r"

definition skr_decode :: "bytes \<Rightarrow> WireError + SigningKeyReplace" where
  "skr_decode body =
     (if length body < KEY_LEN + SIG_LEN then Err BadEnvelope
      else
        rbind (copy_fixed KEY_LEN (take KEY_LEN body)) (\<lambda>pk.
        rbind (copy_fixed SIG_LEN (take SIG_LEN (drop KEY_LEN body))) (\<lambda>sig.
          Ok \<lparr>skr_new_public = pk, skr_signature = sig\<rparr>)))"

subsection \<open>Attachment reservations\<close>

record AttachmentReserve =
  ar_fetch_token :: key
  ar_size_bucket :: AttachmentSizeBucket
  ar_ttl_bucket :: TtlBucket

definition ar_encode :: "AttachmentReserve \<Rightarrow> bytes" where
  "ar_encode r = ar_fetch_token r @ [size_u8 (ar_size_bucket r), ttl_u8 (ar_ttl_bucket r)]"

definition ar_decode :: "bytes \<Rightarrow> WireError + AttachmentReserve" where
  "ar_decode body =
     (if length body < KEY_LEN + 2 then Err BadEnvelope
      else
        rbind (copy_fixed KEY_LEN (take KEY_LEN body)) (\<lambda>tok.
        rbind (size_from_u8 (body ! KEY_LEN)) (\<lambda>sz.
        rbind (ttl_from_u8 (body ! (KEY_LEN + 1))) (\<lambda>ttl.
          Ok \<lparr>ar_fetch_token = tok, ar_size_bucket = sz, ar_ttl_bucket = ttl\<rparr>))))"

subsection \<open>Owner authorisation\<close>

record AuthScope =
  as_server_id :: key
  as_http_method :: bytes
  as_path :: bytes
  as_body_hash :: key

definition scope_header :: "crypto \<Rightarrow> key \<Rightarrow> bytes \<Rightarrow> bytes \<Rightarrow> bytes \<Rightarrow> AuthScope" where
  "scope_header C sid meth path body =
     \<lparr>as_server_id = sid, as_http_method = meth, as_path = path, as_body_hash = sha256 C body\<rparr>"

definition scope_body :: "key \<Rightarrow> bytes \<Rightarrow> bytes \<Rightarrow> AuthScope" where
  "scope_body sid meth path =
     \<lparr>as_server_id = sid, as_http_method = meth, as_path = path, as_body_hash = replicate KEY_LEN 0\<rparr>"

record MailboxOwnerAuth =
  mo_mailbox_hint :: bytes
  mo_cursor :: u64
  mo_limit :: u64
  mo_ts :: u64
  mo_scope :: AuthScope
  mo_nonce :: key
  mo_signature :: bytes

definition MAX_AGE_SECS :: u64 where
  "MAX_AGE_SECS = 120"

definition mo_unsigned_cbor :: "MailboxOwnerAuth \<Rightarrow> bytes" where
  "mo_unsigned_cbor a = encode (Map
     [(0, Bytes (mo_mailbox_hint a)),
      (1, Uint (mo_cursor a)),
      (2, Uint (mo_limit a)),
      (3, Uint (mo_ts a)),
      (5, Bytes (as_server_id (mo_scope a))),
      (6, Text (as_http_method (mo_scope a))),
      (7, Text (as_path (mo_scope a))),
      (8, Bytes (as_body_hash (mo_scope a))),
      (9, Bytes (mo_nonce a))])"

text \<open>The 32 random bytes of the nonce are the argument \<open>nonce\<close>.\<close>

definition mo_sign :: "crypto \<Rightarrow> key \<Rightarrow> bytes \<Rightarrow> bytes \<Rightarrow> u64 \<Rightarrow> u64 \<Rightarrow> u64 \<Rightarrow> AuthScope \<Rightarrow>
    WireError + MailboxOwnerAuth" where
  "mo_sign C nonce sk hint cursor limit ts scope =
     (let a = \<lparr>mo_mailbox_hint = hint, mo_cursor = cursor, mo_limit = limit, mo_ts = ts,
               mo_scope = scope, mo_nonce = nonce, mo_signature = replicate 64 0\<rparr> in
      rbind (sign C sk MAILBOX_OWNER (mo_unsigned_cbor a)) (\<lambda>s. Ok (a\<lparr>mo_signature := s\<rparr>)))"

definition mo_verify :: "crypto \<Rightarrow> MailboxOwnerAuth \<Rightarrow> key \<Rightarrow> u64 \<Rightarrow> AuthScope \<Rightarrow> WireError + unit" where
  "mo_verify C a pk now expected =
     (let age = saturating_sub now (mo_ts a) in
      if age > MAX_AGE_SECS \<or> mo_ts a > now + MAX_AGE_SECS then Err BindingExpired
      else if mo_scope a \<noteq> expected then Err Signature
      else verify C pk MAILBOX_OWNER (mo_unsigned_cbor a) (mo_signature a))"

definition mo_encode :: "MailboxOwnerAuth \<Rightarrow> bytes" where
  "mo_encode a = encode (Map
     [(0, Bytes (mo_mailbox_hint a)),
      (1, Uint (mo_cursor a)),
      (2, Uint (mo_limit a)),
      (3, Uint (mo_ts a)),
      (4, Bytes (mo_signature a)),
      (5, Bytes (as_server_id (mo_scope a))),
      (6, Text (as_http_method (mo_scope a))),
      (7, Text (as_path (mo_scope a))),
      (8, Bytes (as_body_hash (mo_scope a))),
      (9, Bytes (mo_nonce a))])"

definition mo_decode :: "bytes \<Rightarrow> WireError + MailboxOwnerAuth" where
  "mo_decode bs =
     rbind (decode_map ''owner auth must be a map'' bs) (\<lambda>m.
     rbind (get_bytes m 0) (\<lambda>hint.
     rbind (get_uint m 1) (\<lambda>cursor.
     rbind (get_uint m 2) (\<lambda>limit.
     rbind (get_uint m 3) (\<lambda>ts.
     rbind (get_fixed SIG_LEN m 4) (\<lambda>sig.
     rbind (get_fixed ID_LEN m 5) (\<lambda>sid.
     rbind (get_text m 6) (\<lambda>meth.
     rbind (get_text m 7) (\<lambda>path.
     rbind (get_fixed KEY_LEN m 8) (\<lambda>hash.
     rbind (get_fixed KEY_LEN m 9) (\<lambda>nonce.
       Ok \<lparr>mo_mailbox_hint = hint, mo_cursor = cursor, mo_limit = limit, mo_ts = ts,
            mo_scope = \<lparr>as_server_id = sid, as_http_method = meth, as_path = path, as_body_hash = hash\<rparr>,
            mo_nonce = nonce, mo_signature = sig\<rparr>)))))))))))"

subsection \<open>Signed responses\<close>

definition response_payload :: "crypto \<Rightarrow> key \<Rightarrow> 16 word \<Rightarrow> bytes \<Rightarrow> bytes" where
  "response_payload C nonce status body = encode (Map
     [(0, version_value),
      (1, Bytes nonce),
      (2, Uint (ucast status)),
      (3, Bytes (sha256 C body))])"

definition sign_response :: "crypto \<Rightarrow> bytes \<Rightarrow> key \<Rightarrow> 16 word \<Rightarrow> bytes \<Rightarrow> WireError + bytes" where
  "sign_response C sk nonce status body = sign C sk SERVER_RESPONSE (response_payload C nonce status body)"

definition verify_response :: "crypto \<Rightarrow> key \<Rightarrow> key \<Rightarrow> 16 word \<Rightarrow> bytes \<Rightarrow> bytes \<Rightarrow> WireError + unit" where
  "verify_response C pk nonce status body sig =
     verify C pk SERVER_RESPONSE (response_payload C nonce status body) sig"

subsection \<open>Server bundle\<close>

record ServerBundle =
  sb_server_id :: key
  sb_hpke_public :: key
  sb_sign_public :: key
  sb_host :: bytes
  sb_s2s_port :: u64
  sb_signature :: bytes

definition sb_fields :: "ServerBundle \<Rightarrow> (u64 \<times> Value) list" where
  "sb_fields b =
     [(0, version_value),
      (1, Bytes (sb_server_id b)),
      (2, Bytes (sb_hpke_public b)),
      (3, Bytes (sb_sign_public b)),
      (4, Text (sb_host b)),
      (5, Uint (sb_s2s_port b))]"

definition sb_unsigned_cbor :: "ServerBundle \<Rightarrow> bytes" where
  "sb_unsigned_cbor b = encode (Map (sb_fields b))"

definition sb_sign :: "crypto \<Rightarrow> bytes \<Rightarrow> ServerBundle \<Rightarrow> WireError + ServerBundle" where
  "sb_sign C sk b =
     (if sb_server_id b \<noteq> server_id C (sb_hpke_public b) then Err ServerIdMismatch
      else if sb_sign_public b \<noteq> lib_ed_public C sk then Err Signature
      else rbind (sign C sk SERVER_BUNDLE (sb_unsigned_cbor b)) (\<lambda>s. Ok (b\<lparr>sb_signature := s\<rparr>)))"

definition sb_verify :: "crypto \<Rightarrow> ServerBundle \<Rightarrow> WireError + unit" where
  "sb_verify C b =
     (if sb_server_id b \<noteq> server_id C (sb_hpke_public b) then Err ServerIdMismatch
      else if \<not> lib_ed_point C (sb_sign_public b) then Err Signature
      else verify C (sb_sign_public b) SERVER_BUNDLE (sb_unsigned_cbor b) (sb_signature b))"

definition sb_encode :: "ServerBundle \<Rightarrow> bytes" where
  "sb_encode b = encode (Map (sb_fields b @ [(6, Bytes (sb_signature b))]))"

definition sb_decode :: "bytes \<Rightarrow> WireError + ServerBundle" where
  "sb_decode bs =
     rbind (decode_map ''server bundle must be a map'' bs) (\<lambda>m.
     rbind (check_version m) (\<lambda>_.
     rbind (get_fixed ID_LEN m 1) (\<lambda>sid.
     rbind (get_fixed KEY_LEN m 2) (\<lambda>hpke.
     rbind (get_fixed KEY_LEN m 3) (\<lambda>spk.
     rbind (get_text m 4) (\<lambda>host.
     rbind (get_uint m 5) (\<lambda>port.
     rbind (get_fixed SIG_LEN m 6) (\<lambda>sig.
       Ok \<lparr>sb_server_id = sid, sb_hpke_public = hpke, sb_sign_public = spk, sb_host = host,
            sb_s2s_port = port, sb_signature = sig\<rparr>))))))))"

record ServerSignRotate =
  sr_new_public :: key
  sr_seq :: u64
  sr_signature :: bytes

definition sr_unsigned_cbor :: "ServerSignRotate \<Rightarrow> bytes" where
  "sr_unsigned_cbor r = encode (Map [(0, Bytes (sr_new_public r)), (1, Uint (sr_seq r))])"

definition sr_sign :: "crypto \<Rightarrow> bytes \<Rightarrow> key \<Rightarrow> u64 \<Rightarrow> WireError + ServerSignRotate" where
  "sr_sign C sk pk seq =
     (let r = \<lparr>sr_new_public = pk, sr_seq = seq, sr_signature = replicate 64 0\<rparr> in
      rbind (sign C sk SERVER_SIGN_ROTATE (sr_unsigned_cbor r)) (\<lambda>s. Ok (r\<lparr>sr_signature := s\<rparr>)))"

definition sr_verify :: "crypto \<Rightarrow> ServerSignRotate \<Rightarrow> key \<Rightarrow> WireError + unit" where
  "sr_verify C r pk = verify C pk SERVER_SIGN_ROTATE (sr_unsigned_cbor r) (sr_signature r)"

subsection \<open>Frames between servers\<close>

record S2sFrame =
  sf_counter :: u64
  sf_payload :: bytes

definition sf_encode :: "S2sFrame \<Rightarrow> WireError + bytes" where
  "sf_encode f =
     (if length (sf_payload f) \<ge> 2 ^ 32 then Err NoBucket
      else Ok (be_bytes 8 (sf_counter f) @ be_bytes 4 (of_nat (length (sf_payload f))) @ sf_payload f))"

definition sf_decode :: "bytes \<Rightarrow> WireError + S2sFrame" where
  "sf_decode bs =
     (if length bs < 12 then Err BadEnvelope
      else
        (let counter = from_be_bytes (take 8 bs);
             n = unat (from_be_bytes (take 4 (drop 8 bs)));
             rest = drop 12 bs in
         if length rest \<noteq> n then Err (Length n (length rest))
         else Ok \<lparr>sf_counter = counter, sf_payload = rest\<rparr>))"

definition hello_payload :: "key \<Rightarrow> key \<Rightarrow> bytes" where
  "hello_payload sender receiver = encode (Map
     [(0, version_value),
      (1, Bytes sender),
      (2, Bytes receiver)])"

definition ok_payload :: "u64 \<Rightarrow> bytes" where
  "ok_payload seq = encode (Map [(0, Text (str_bytes ''ok'')), (1, Uint seq)])"

definition fail_payload :: bytes where
  "fail_payload = encode (Map [(0, Text (str_bytes ''fail''))])"

datatype S2sPayload =
    Hello key key
  | PayloadOk u64
  | Fail
  | Ciphertext bytes

definition parse_hello :: "bytes \<Rightarrow> WireError + (key \<times> key)" where
  "parse_hello bs =
     rbind (decode_map ''hello must be a map'' bs) (\<lambda>m.
     rbind (check_version m) (\<lambda>_.
     rbind (get_fixed ID_LEN m 1) (\<lambda>sender.
     rbind (get_fixed ID_LEN m 2) (\<lambda>receiver.
       Ok (sender, receiver)))))"

definition parse_payload :: "bytes \<Rightarrow> WireError + S2sPayload" where
  "parse_payload bs =
     (case decode bs of
        Ok (Map m) \<Rightarrow>
          (case map_get_opt m 0 of
             Some v \<Rightarrow>
               if v = Uint 1 then rbind (parse_hello bs) (\<lambda>(s, r). Ok (Hello s r))
               else (case v of
                   Text s \<Rightarrow>
                     if s = str_bytes ''ok'' then rbind (get_uint m 1) (\<lambda>seq. Ok (PayloadOk seq))
                     else if s = str_bytes ''fail'' then Ok Fail
                     else Ok (Ciphertext bs)
                 | _ \<Rightarrow> Ok (Ciphertext bs))
           | None \<Rightarrow> Ok (Ciphertext bs))
      | _ \<Rightarrow> Ok (Ciphertext bs))"

section \<open>Lemmas\<close>

definition sb_wf :: "ServerBundle \<Rightarrow> bool" where
  "sb_wf b \<longleftrightarrow> length (sb_server_id b) = 32 \<and> length (sb_hpke_public b) = 32 \<and> length (sb_sign_public b) = 32 \<and>
     utf8_valid (sb_host b) \<and> length (sb_host b) < 2 ^ 64 \<and> length (sb_signature b) = 64"

definition mo_wf :: "MailboxOwnerAuth \<Rightarrow> bool" where
  "mo_wf a \<longleftrightarrow> length (mo_mailbox_hint a) < 2 ^ 64 \<and> length (as_server_id (mo_scope a)) = 32 \<and>
     utf8_valid (as_http_method (mo_scope a)) \<and> length (as_http_method (mo_scope a)) < 2 ^ 64 \<and>
     utf8_valid (as_path (mo_scope a)) \<and> length (as_path (mo_scope a)) < 2 ^ 64 \<and>
     length (as_body_hash (mo_scope a)) = 32 \<and> length (mo_nonce a) = 32 \<and> length (mo_signature a) = 64"

definition mo_body :: "MailboxOwnerAuth \<Rightarrow> MailboxOwnerAuth" where
  "mo_body a = a\<lparr>mo_signature := []\<rparr>"

definition sb_body :: "ServerBundle \<Rightarrow> ServerBundle" where
  "sb_body b = b\<lparr>sb_signature := []\<rparr>"

definition rb_wf :: "RemoveBundle \<Rightarrow> bool" where
  "rb_wf b \<longleftrightarrow> length (rb_credential_id b) = 32 \<and> length (rb_sidecar_signature b) = 64 \<and>
     length (rb_mls_commit b) < 2 ^ 32"

definition skr_wf :: "SigningKeyReplace \<Rightarrow> bool" where
  "skr_wf r \<longleftrightarrow> length (skr_new_public r) = 32 \<and> length (skr_signature r) = 64"

definition ar_wf :: "AttachmentReserve \<Rightarrow> bool" where
  "ar_wf r \<longleftrightarrow> length (ar_fetch_token r) = 32 \<and> ttl_u8 (ar_ttl_bucket r) \<le> 3"

lemma mo_decode_wf: "mo_decode bs = Ok a \<Longrightarrow> mo_wf a"
  by (clarsimp simp: mo_decode_def mo_wf_def result_simps) (meson decoded_lengths)

lemma mo_roundtrip: "mo_wf a \<Longrightarrow> mo_decode (mo_encode a) = Ok a"
  by (simp add: mo_encode_def mo_decode_def mo_wf_def)

interpretation owner_codec: strict_codec mo_encode mo_decode mo_wf
  by unfold_locales (rule mo_roundtrip, assumption, rule mo_decode_wf)

interpretation owner_sig: signed_object MAILBOX_OWNER mo_unsigned_cbor mo_body mo_wf
  by unfold_locales (simp_all add: mo_unsigned_cbor_def encode_inj mo_wf_def mo_body_def)

interpretation bundle_codec: strict_codec sb_encode sb_decode sb_wf
  by unfold_locales
    (simp_all add: sb_encode_def sb_decode_def sb_fields_def sb_wf_def, auto simp: result_simps dest: decoded_entry)

interpretation bundle_sig: signed_object SERVER_BUNDLE sb_unsigned_cbor sb_body sb_wf
  by unfold_locales (simp_all add: sb_unsigned_cbor_def sb_fields_def encode_inj sb_wf_def sb_body_def)

interpretation replace_codec: strict_codec skr_encode skr_decode skr_wf
  by unfold_locales
    (simp_all add: skr_encode_def skr_decode_def skr_wf_def, auto simp: result_simps split: if_splits)

lemma size_from_size_u8 [simp]: "size_from_u8 (size_u8 b) = Ok b"
  by (cases b) (simp_all add: size_from_u8_def)

interpretation reserve_codec: strict_codec ar_encode ar_decode ar_wf
  by unfold_locales
    (simp_all add: ar_encode_def ar_decode_def ar_wf_def ttl_from_u8_def nth_append,
     auto simp: result_simps ttl_from_u8_def split: if_splits)

lemma rb_decode_encode:
  assumes "rb_wf b" "rb_encode b = Ok bs"
  shows "rb_decode (bs @ padding) = Ok b"
  using assms
  by (auto simp: rb_encode_def rb_decode_def rb_wf_def Let_def from_be_bytes_small simp del: be_bytes.simps
      split: if_splits)

lemma sf_split:
  assumes "12 \<le> length bs"
  shows "bs = take 8 bs @ take 4 (drop 8 bs) @ drop 12 bs"
  using append_take_drop_id [of 8 bs] append_take_drop_id [of 4 "drop 8 bs"] by simp

lemma parse_hello_payload:
  "length s = 32 \<Longrightarrow> length r = 32 \<Longrightarrow> parse_hello (hello_payload s r) = Ok (s, r)"
  by (simp add: parse_hello_def hello_payload_def)

lemma word_bytes_distinct [simp]: "str_bytes ''ok'' \<noteq> str_bytes ''fail''" "str_bytes ''fail'' \<noteq> str_bytes ''ok''"
  by (simp_all add: str_bytes_def)

section \<open>Properties\<close>

text \<open>
  Owner authorisations, server bundles, signing-key replacements and attachment
  reservations survive encoding and decoding, and their decoders return nothing but objects
  that do.
\<close>

theorem hostframe_roundtrip:
  "(mo_wf a \<longleftrightarrow> mo_decode (mo_encode a) = Ok a) \<and>
   (sb_wf b \<longleftrightarrow> sb_decode (sb_encode b) = Ok b) \<and>
   (skr_wf k \<longleftrightarrow> skr_decode (skr_encode k) = Ok k) \<and>
   (ar_wf r \<longleftrightarrow> ar_decode (ar_encode r) = Ok r)"
  using owner_codec.wf_iff bundle_codec.wf_iff replace_codec.wf_iff reserve_codec.wf_iff by simp

text \<open>
  A remove bundle is read back from a padded body whatever the padding is, and its
  sidecar, made for one group, verifies there under the appender's key.
\<close>

theorem remove_bundle_padded:
  assumes "ed25519_correct C" "rb_sign C sk g cid commit = Ok b"
    and "length cid = 32" "length commit < 2 ^ 32"
  shows "\<exists>bs. rb_encode b = Ok bs \<and> rb_decode (bs @ padding) = Ok b \<and>
    rb_verify_sidecar C b (lib_ed_public C sk) g = Ok ()"
proof -
  obtain s where s: "sign C sk REMOVE_SIDECAR (rb_sidecar_payload C g cid commit) = Ok s"
    and b: "b = \<lparr>rb_credential_id = cid, rb_sidecar_signature = s, rb_mls_commit = commit\<rparr>"
    using assms(2) by (auto simp: rb_sign_def rbind_eq_Ok)
  have wf: "rb_wf b" using assms(3,4) length_sign [OF assms(1) s] by (simp add: rb_wf_def b)
  obtain bs where bs: "rb_encode b = Ok bs" using assms(4) by (simp add: rb_encode_def b)
  have "rb_verify_sidecar C b (lib_ed_public C sk) g = Ok ()"
    using verify_sign_ok [OF assms(1) s] by (simp add: rb_verify_sidecar_def b)
  with bs rb_decode_encode [OF wf bs] show ?thesis by blast
qed

text \<open>
  C22. What an accepted owner authorisation guarantees, away from the end of the \<open>u64\<close>
  range: its time stamp is within 120 seconds of the server's clock on either side, its scope is
  exactly the request at hand (server, verb, path, body hash), and the identity key verifies
  its signature over all of its fields. Nothing else is accepted.
\<close>

theorem owner_auth_accepts_iff:
  assumes "unat now + 120 < 2 ^ 64"
  shows "mo_verify C a pk now expected = Ok () \<longleftrightarrow>
    unat now \<le> unat (mo_ts a) + 120 \<and> unat (mo_ts a) \<le> unat now + 120 \<and> mo_scope a = expected \<and>
    verify C pk MAILBOX_OWNER (mo_unsigned_cbor a) (mo_signature a) = Ok ()"
proof -
  have "unat (now + MAX_AGE_SECS) = unat now + 120"
    using assms by (simp add: MAX_AGE_SECS_def unat_word_ariths)
  then show ?thesis
    by (auto simp: mo_verify_def Let_def word_less_nat_alt sat_simps MAX_AGE_SECS_def)
qed

text \<open>
  The signature of an owner authorisation covers mailbox, cursor, limit, time stamp,
  scope and nonce: two authorisations with the same signed bytes differ at most in the
  signature itself.
\<close>

theorem owner_signature_covers:
  assumes "mo_wf x" "mo_wf y"
    and "message MAILBOX_OWNER (mo_unsigned_cbor x) = message MAILBOX_OWNER (mo_unsigned_cbor y)"
  shows "x\<lparr>mo_signature := s\<rparr> = y\<lparr>mo_signature := s\<rparr>"
  using owner_sig.signed_bytes_inj [OF assms] by (cases x; cases y) (simp add: mo_body_def)

text \<open>
  Frames between servers are parsed without loss: \<open>sf_decode\<close> accepts exactly the
  encodings of frames with a payload below \<open>2 ^ 32\<close> bytes, and returns the frame encoded.
\<close>

theorem frame_decode_iff:
  "sf_decode bs = Ok f \<longleftrightarrow> sf_encode f = Ok bs"
proof
  assume ok: "sf_decode bs = Ok f"
  then have h: "12 \<le> length bs" "sf_counter f = from_be_bytes (take 8 bs)" "sf_payload f = drop 12 bs"
      "length (drop 12 bs) = unat (from_be_bytes (take 4 (drop 8 bs)))"
    by (auto simp: sf_decode_def Let_def split: if_splits)
  have "be_bytes 8 (from_be_bytes (take 8 bs)) = take 8 bs"
    using h(1) be_bytes_from_be_bytes [of "take 8 bs"] by simp
  moreover have "be_bytes 4 (from_be_bytes (take 4 (drop 8 bs))) = take 4 (drop 8 bs)"
      "unat (from_be_bytes (take 4 (drop 8 bs))) < 2 ^ 32"
    using h(1) be_bytes_from_be_bytes [of "take 4 (drop 8 bs)"] unat_from_be_bytes [of "take 4 (drop 8 bs)"]
    by simp_all
  ultimately show "sf_encode f = Ok bs"
    using h sf_split [OF h(1)] by (simp add: sf_encode_def del: be_bytes.simps)
next
  assume "sf_encode f = Ok bs"
  then show "sf_decode bs = Ok f"
    by (auto simp: sf_encode_def sf_decode_def Let_def from_be_bytes_small simp del: be_bytes.simps split: if_splits)
qed

text \<open>
  A server reads its peer's control payloads as what they are: a hello, an
  acknowledgement with its number and a failure are parsed back, and bytes that are not a
  CBOR map are taken as a ciphertext, unchanged.
\<close>

theorem parse_payload_classifies:
  assumes "length s = 32" "length r = 32"
  shows "parse_payload (hello_payload s r) = Ok (Hello s r) \<and>
    parse_payload (ok_payload n) = Ok (PayloadOk n) \<and>
    parse_payload fail_payload = Ok Fail \<and>
    ((\<forall>m. decode bs \<noteq> Ok (Map m)) \<longrightarrow> parse_payload bs = Ok (Ciphertext bs))"
proof -
  have "parse_payload (hello_payload s r) = Ok (Hello s r)"
    using parse_hello_payload [OF assms] assms
    by (simp add: parse_payload_def hello_payload_def version_value_def PROTOCOL_VERSION_def)
  moreover have "parse_payload (ok_payload n) = Ok (PayloadOk n)"
    by (simp add: parse_payload_def ok_payload_def)
  moreover have "parse_payload fail_payload = Ok Fail"
    by (simp add: parse_payload_def fail_payload_def)
  ultimately show ?thesis
    by (auto simp: parse_payload_def split: sum.splits Value.splits)
qed

section \<open>Witnesses\<close>

definition sample_scope :: AuthScope where
  "sample_scope = scope_body (replicate 32 1) (str_bytes ''POST'') (str_bytes ''v1'')"

definition sample_auth :: MailboxOwnerAuth where
  "sample_auth = \<lparr>mo_mailbox_hint = replicate 32 2, mo_cursor = 0, mo_limit = 10, mo_ts = 950,
     mo_scope = sample_scope, mo_nonce = replicate 32 4, mo_signature = replicate 64 0\<rparr>"

lemma sample_auth_wf: "mo_wf sample_auth"
  by (simp add: mo_wf_def sample_auth_def sample_scope_def scope_body_def) code_simp

theorem remove_bundle_padded_witness:
  "\<exists>b bs. rb_sign plain_crypto [1] (replicate 32 2) (replicate 32 3) [9, 9] = Ok b \<and>
     rb_encode b = Ok bs \<and> rb_decode (bs @ [0, 0, 0]) = Ok b"
proof -
  obtain b where b: "rb_sign plain_crypto [1] (replicate 32 2) (replicate 32 3) [9, 9] = Ok b"
    by (simp add: rb_sign_def sign_total)
  from remove_bundle_padded [OF _ b, of "[0, 0, 0]"] b show ?thesis by auto
qed

theorem owner_auth_accepts_iff_witness:
  "\<exists>a. mo_sign plain_crypto (replicate 32 4) [1] (replicate 32 2) 0 10 950 sample_scope = Ok a \<and>
     mo_verify plain_crypto a (lib_ed_public plain_crypto [1]) 1000 sample_scope = Ok ()"
proof -
  obtain s where s: "sign plain_crypto [1] MAILBOX_OWNER (mo_unsigned_cbor sample_auth) = Ok s"
    by (simp add: sign_total)
  have a: "mo_sign plain_crypto (replicate 32 4) [1] (replicate 32 2) 0 10 950 sample_scope =
      Ok (sample_auth\<lparr>mo_signature := s\<rparr>)"
    using s by (simp add: mo_sign_def sample_auth_def)
  have "mo_unsigned_cbor (sample_auth\<lparr>mo_signature := s\<rparr>) = mo_unsigned_cbor sample_auth"
    by (simp add: mo_unsigned_cbor_def)
  then have "mo_verify plain_crypto (sample_auth\<lparr>mo_signature := s\<rparr>) (lib_ed_public plain_crypto [1]) 1000 sample_scope = Ok ()"
    using verify_sign_ok [OF _ s]
    by (subst owner_auth_accepts_iff) (simp_all add: sample_auth_def)
  with a show ?thesis by blast
qed

theorem owner_signature_covers_witness:
  "sample_auth\<lparr>mo_signature := []\<rparr> = (sample_auth\<lparr>mo_signature := replicate 64 1\<rparr>)\<lparr>mo_signature := []\<rparr>"
proof (rule owner_signature_covers [OF sample_auth_wf])
  show "mo_wf (sample_auth\<lparr>mo_signature := replicate 64 1\<rparr>)"
    using sample_auth_wf by (simp add: mo_wf_def)
  show "message MAILBOX_OWNER (mo_unsigned_cbor sample_auth) =
      message MAILBOX_OWNER (mo_unsigned_cbor (sample_auth\<lparr>mo_signature := replicate 64 1\<rparr>))"
    by (simp add: mo_unsigned_cbor_def)
qed

theorem parse_payload_classifies_witness:
  "parse_payload (hello_payload (replicate 32 1) (replicate 32 2)) = Ok (Hello (replicate 32 1) (replicate 32 2)) \<and>
   parse_payload (ok_payload 7) = Ok (PayloadOk 7)"
  using parse_payload_classifies [of "replicate 32 1" "replicate 32 2"] by simp

end
