(* ===== verification/Hpke_Envelope.thy ===== *)
theory Hpke_Envelope
  imports Envelope Sign
begin

text \<open>
  \<open>nemo-wire/src/hpke.rs\<close>: sealing an inner envelope to a server's HPKE key and opening it.
  The randomness HPKE draws is the argument \<open>rnd\<close>.
\<close>

section \<open>Model\<close>

definition INFO :: bytes where
  "INFO = str_bytes ''nemo-v1/s2s-inner''"

definition ENCAP_LEN :: nat where
  "ENCAP_LEN = 32"

definition encap_key :: "bytes \<Rightarrow> WireError + bytes" where
  "encap_key ct =
     (if length ct < ENCAP_LEN then Err (Hpke ''truncated enc'')
      else copy_fixed ENCAP_LEN (take ENCAP_LEN ct))"

record HpkeKeypair =
  kp_public :: key
  kp_secret :: key

definition kp_server_id :: "crypto \<Rightarrow> HpkeKeypair \<Rightarrow> key" where
  "kp_server_id C kp = server_id C (kp_public kp)"

definition aad :: "key \<Rightarrow> bytes" where
  "aad dest = [PROTOCOL_VERSION] @ dest"

definition seal :: "crypto \<Rightarrow> bytes \<Rightarrow> key \<Rightarrow> key \<Rightarrow> bytes \<Rightarrow> WireError + bytes" where
  "seal C rnd pk dest plaintext =
     (if \<not> lib_hpke_pk C pk then Err (Hpke ''recipient pk'')
      else case lib_hpke_seal C rnd pk INFO (aad dest) plaintext of
        None \<Rightarrow> Err (Hpke ''seal'')
      | Some (enc, ct) \<Rightarrow> Ok (enc @ ct))"

definition hpke_open :: "crypto \<Rightarrow> key \<Rightarrow> key \<Rightarrow> bytes \<Rightarrow> WireError + bytes" where
  "hpke_open C sk dest ciphertext =
     (if length ciphertext < ENCAP_LEN then Err (Hpke ''truncated enc'')
      else if \<not> lib_hpke_sk C sk then Err (Hpke ''recipient sk'')
      else if \<not> lib_hpke_enc C (take ENCAP_LEN ciphertext) then Err (Hpke ''encapped key'')
      else ok_or (lib_hpke_open C sk (take ENCAP_LEN ciphertext) INFO (aad dest) (drop ENCAP_LEN ciphertext))
             (Hpke ''open''))"

definition seal_to_server :: "crypto \<Rightarrow> bytes \<Rightarrow> key \<Rightarrow> InnerEnvelope \<Rightarrow> WireError + OuterEnvelope" where
  "seal_to_server C rnd pk inner =
     (let dest = server_id C pk in
      rbind (encode_padded inner) (\<lambda>plaintext.
      rbind (seal C rnd pk dest plaintext) (\<lambda>ct.
        Ok \<lparr>oe_destination = dest, oe_ciphertext = ct\<rparr>)))"

definition seal_inner :: "crypto \<Rightarrow> bytes \<Rightarrow> HpkeKeypair \<Rightarrow> InnerEnvelope \<Rightarrow> WireError + OuterEnvelope" where
  "seal_inner C rnd recipient inner = seal_to_server C rnd (kp_public recipient) inner"

definition open_outer :: "crypto \<Rightarrow> HpkeKeypair \<Rightarrow> OuterEnvelope \<Rightarrow> WireError + InnerEnvelope" where
  "open_outer C recipient outer =
     (if oe_destination outer \<noteq> kp_server_id C recipient then Err ServerIdMismatch
      else rbind (hpke_open C (kp_secret recipient) (oe_destination outer) (oe_ciphertext outer)) decode_padded)"

section \<open>Lemmas\<close>

definition keypair_ok :: "crypto \<Rightarrow> HpkeKeypair \<Rightarrow> bool" where
  "keypair_ok C kp \<longleftrightarrow> lib_hpke_sk C (kp_secret kp) \<and> kp_public kp = lib_hpke_public C (kp_secret kp)"

lemma open_seal:
  assumes "hpke_correct C" "keypair_ok C kp" "seal C rnd (kp_public kp) dest pt = Ok ct"
  shows "hpke_open C (kp_secret kp) dest ct = Ok pt"
proof -
  obtain e c where sealed: "lib_hpke_seal C rnd (kp_public kp) INFO (aad dest) pt = Some (e, c)"
    and ct: "ct = e @ c"
    using assms(3) by (auto simp: seal_def split: if_splits option.splits)
  have "length e = 32" "lib_hpke_enc C e"
    using assms(1) sealed unfolding hpke_correct_def by blast+
  moreover have "lib_hpke_open C (kp_secret kp) e INFO (aad dest) c = Some pt"
    using assms(1,2) sealed unfolding hpke_correct_def keypair_ok_def by metis
  moreover have "lib_hpke_sk C (kp_secret kp)"
    using assms(2) by (simp add: keypair_ok_def)
  ultimately show ?thesis
    by (simp add: hpke_open_def ct ENCAP_LEN_def)
qed

lemma sealed_destination: "seal_inner C rnd kp inner = Ok outer \<Longrightarrow> oe_destination outer = kp_server_id C kp"
  by (auto simp: seal_inner_def seal_to_server_def kp_server_id_def Let_def rbind_eq_Ok)

lemma open_sealed_outer:
  assumes "hpke_correct C" "keypair_ok C kp" "seal_inner C rnd kp inner = Ok outer"
  shows "open_outer C kp outer = rbind (encode_padded inner) decode_padded"
proof -
  obtain pt ct where pt: "encode_padded inner = Ok pt"
    and ct: "seal C rnd (kp_public kp) (server_id C (kp_public kp)) pt = Ok ct"
    and outer: "outer = \<lparr>oe_destination = server_id C (kp_public kp), oe_ciphertext = ct\<rparr>"
    using assms(3) by (auto simp: seal_inner_def seal_to_server_def Let_def rbind_eq_Ok)
  show ?thesis
    using open_seal [OF assms(1,2) ct] by (simp add: open_outer_def kp_server_id_def outer pt)
qed

section \<open>Properties\<close>

text \<open>
  What is sealed to a server's key opens with its secret key: \<open>open_outer\<close> returns what
  \<open>decode_padded\<close> reads from the padded envelope, and any other server, one whose identifier
  is different, refuses it before decrypting.
\<close>

theorem seal_open_outer:
  assumes "hpke_correct C" "keypair_ok C kp" "seal_inner C rnd kp inner = Ok outer"
  shows "open_outer C kp outer = rbind (encode_padded inner) decode_padded \<and>
    (\<forall>kp'. kp_server_id C kp' \<noteq> kp_server_id C kp \<longrightarrow> open_outer C kp' outer = Err ServerIdMismatch)"
  using open_sealed_outer [OF assms] sealed_destination [OF assms(3)] by (auto simp: open_outer_def)

text \<open>The padded envelope of the witness, with the concrete primitives.\<close>

definition sample_inner :: InnerEnvelope where
  "sample_inner = \<lparr>ie_capability = replicate 32 7, ie_ttl = TtlBucket 2, ie_idempotency = replicate 32 9,
     ie_message = \<lparr>pm_type = MlsApp, pm_body = [5], pm_inner_len = 1024\<rparr>\<rparr>"

lemma sample_inner_ok: "inner_ok sample_inner"
  by (simp add: sample_inner_def inner_ok_def padded_ok_def buckets_def is_attachment_def size_defs)

theorem seal_open_outer_witness:
  "\<exists>outer. seal_inner plain_crypto [] \<lparr>kp_public = replicate 32 3, kp_secret = replicate 32 3\<rparr> sample_inner = Ok outer \<and>
    open_outer plain_crypto \<lparr>kp_public = replicate 32 3, kp_secret = replicate 32 3\<rparr> outer =
      rbind (encode_padded sample_inner) decode_padded"
proof -
  let ?kp = "\<lparr>kp_public = replicate 32 3, kp_secret = replicate 32 3\<rparr> :: HpkeKeypair"
  have kp: "keypair_ok plain_crypto ?kp"
    by (simp add: keypair_ok_def plain_crypto_def)
  obtain bs where "encode_padded sample_inner = Ok bs"
    using encode_padded_ok [OF sample_inner_ok] by blast
  then obtain outer where "seal_inner plain_crypto [] ?kp sample_inner = Ok outer"
    by (auto simp: seal_inner_def seal_to_server_def seal_def Let_def plain_crypto_def)
  with seal_open_outer [OF _ kp this] show ?thesis by simp
qed

end
