(* ===== verification/Server_State.thy ===== *)
theory Server_State
  imports Hpke_Envelope Join Hostframe
begin

text \<open>
  The state of \<open>nemo-server\<close>: errors (\<open>error.rs\<close>), the home server's records and its
  persistence journal (\<open>home.rs\<close>), and the peer and outbound records of \<open>federation.rs\<close> that
  the home server holds.

  An operation takes the state and returns a result with the state it leaves, on errors too:
  what an operation changed before it failed stays changed.
\<close>

section \<open>Errors\<close>

datatype ServerError =
    Wire WireError
  | Denied
  | OwnerAuth
  | AlreadyRegistered
  | FetchLimit
  | NotPinned
  | PeerRefused
  | CounterGap
  | HelloMismatch
  | OutboundExpired

section \<open>Mailboxes, directory, tokens\<close>

record Limits =
  mailbox_max_bytes :: u64
  mailbox_max_age_secs :: u64

definition MAILBOX_MAX_BYTES :: u64 where
  "MAILBOX_MAX_BYTES = 500 * 1024 * 1024"

definition MAILBOX_MAX_AGE_SECS :: u64 where
  "MAILBOX_MAX_AGE_SECS = 14 * 24 * 3600"

definition default_limits :: Limits where
  "default_limits = \<lparr>mailbox_max_bytes = MAILBOX_MAX_BYTES, mailbox_max_age_secs = MAILBOX_MAX_AGE_SECS\<rparr>"

record StoredEnvelope =
  se_seq :: u64
  se_received_at :: u64
  se_expires_at :: u64
  se_inner :: InnerEnvelope

record Mailbox =
  mb_owner_pk :: key
  mb_next_seq :: u64
  mb_rows :: "StoredEnvelope btree"
  mb_idempotency :: "(key, u64) hashmap"
  mb_bytes :: u64
  mb_disabled :: bool

record DirectoryRow =
  di_identity_public :: key
  di_revocation_public :: key
  di_binding :: HomeServerBinding
  di_binding_seq :: u64
  di_revocation :: "RevocationStatement option"

record DiscoveryRow =
  dy_identity_public :: key
  dy_revocation_public :: key
  dy_binding :: HomeServerBinding
  dy_revocation :: "RevocationStatement option"

datatype TokenKind =
    Share (tk_mailbox: key) (tk_expires_at: u64) (tk_burned: bool) (tk_reserved: "bytes option")
  | Contact (tk_mailbox: key) (tk_grace_until: "u64 option") (tk_window_start: u64) (tk_window_count: nat)

section \<open>Peers and the outbound queue\<close>

record PeerState =
  ps_bundle :: ServerBundle
  ps_refused :: bool
  ps_last_rx :: u64
  ps_next_tx :: u64
  ps_hello_done :: bool
  ps_window_sec :: u64
  ps_window_ok :: nat
  ps_seen_enc :: "(key, u64) hashmap"

definition ps_new :: "ServerBundle \<Rightarrow> PeerState" where
  "ps_new b = \<lparr>ps_bundle = b, ps_refused = False, ps_last_rx = 0, ps_next_tx = 1, ps_hello_done = False,
     ps_window_sec = 0, ps_window_ok = 0, ps_seen_enc = []\<rparr>"

definition ps_restore :: "ServerBundle \<Rightarrow> bool \<Rightarrow> u64 \<Rightarrow> u64 \<Rightarrow> PeerState" where
  "ps_restore b refused last_rx next_tx = \<lparr>ps_bundle = b, ps_refused = refused, ps_last_rx = last_rx,
     ps_next_tx = next_tx, ps_hello_done = (last_rx > 0 \<or> next_tx > 1),
     ps_window_sec = 0, ps_window_ok = 0, ps_seen_enc = []\<rparr>"

record OutboundRow =
  or_dest :: key
  or_outer :: OuterEnvelope
  or_enqueued_at :: u64
  or_next_attempt :: u64
  or_backoff_secs :: u64

datatype Enqueue = Local u64 | Queued

section \<open>The persistence journal\<close>

record HomeDirty =
  hd_server_identity :: bool
  hd_identities :: "key set"
  hd_mailbox_new :: "(key \<times> u64) list"
  hd_mailbox_acked :: "(key, u64) hashmap"
  hd_mailbox_dropped :: "(key \<times> u64) list"
  hd_mailbox_cleared :: "key set"
  hd_tokens :: "key set"
  hd_tokens_dropped :: "key set"
  hd_tokens_dropped_exact :: "key set"
  hd_prekeys :: "key set"
  hd_memberships :: "key set"
  hd_peers :: "key set"
  hd_outbound_dirty :: bool
  hd_seen_enc_new :: "key list"
  hd_seen_enc_cleared :: bool

definition hd_default :: HomeDirty where
  "hd_default = \<lparr>hd_server_identity = False, hd_identities = {}, hd_mailbox_new = [], hd_mailbox_acked = [],
     hd_mailbox_dropped = [], hd_mailbox_cleared = {}, hd_tokens = {}, hd_tokens_dropped = {},
     hd_tokens_dropped_exact = {}, hd_prekeys = {}, hd_memberships = {}, hd_peers = {},
     hd_outbound_dirty = False, hd_seen_enc_new = [], hd_seen_enc_cleared = False\<rparr>"

definition is_clean :: "HomeDirty \<Rightarrow> bool" where
  "is_clean d \<longleftrightarrow>
     \<not> hd_server_identity d \<and> hd_identities d = {} \<and> hd_mailbox_new d = [] \<and> hd_mailbox_acked d = [] \<and>
     hd_mailbox_dropped d = [] \<and> hd_mailbox_cleared d = {} \<and> hd_tokens d = {} \<and> hd_tokens_dropped d = {} \<and>
     hd_tokens_dropped_exact d = {} \<and> hd_prekeys d = {} \<and> hd_memberships d = {} \<and> hd_peers d = {} \<and>
     \<not> hd_outbound_dirty d \<and> hd_seen_enc_new d = [] \<and> \<not> hd_seen_enc_cleared d"

text \<open>\<open>entry(owner).and_modify(|u| *u = (*u).max(up_to)).or_insert(up_to)\<close>.\<close>

definition acked_max :: "key \<Rightarrow> u64 \<Rightarrow> (key, u64) hashmap \<Rightarrow> (key, u64) hashmap" where
  "acked_max owner up_to m =
     (case hm_get m owner of
        Some u \<Rightarrow> hm_insert owner (max u up_to) m
      | None \<Rightarrow> hm_insert owner up_to m)"

definition absorb :: "HomeDirty \<Rightarrow> HomeDirty \<Rightarrow> HomeDirty" where
  "absorb d other = \<lparr>
     hd_server_identity = (hd_server_identity d \<or> hd_server_identity other),
     hd_identities = hd_identities d \<union> hd_identities other,
     hd_mailbox_new = hd_mailbox_new d @ hd_mailbox_new other,
     hd_mailbox_acked = foldl (\<lambda>m (owner, up_to). acked_max owner up_to m) (hd_mailbox_acked d) (hd_mailbox_acked other),
     hd_mailbox_dropped = hd_mailbox_dropped d @ hd_mailbox_dropped other,
     hd_mailbox_cleared = hd_mailbox_cleared d \<union> hd_mailbox_cleared other,
     hd_tokens = hd_tokens d \<union> hd_tokens other,
     hd_tokens_dropped = hd_tokens_dropped d \<union> hd_tokens_dropped other,
     hd_tokens_dropped_exact = hd_tokens_dropped_exact d \<union> hd_tokens_dropped_exact other,
     hd_prekeys = hd_prekeys d \<union> hd_prekeys other,
     hd_memberships = hd_memberships d \<union> hd_memberships other,
     hd_peers = hd_peers d \<union> hd_peers other,
     hd_outbound_dirty = (hd_outbound_dirty d \<or> hd_outbound_dirty other),
     hd_seen_enc_new = hd_seen_enc_new d @ hd_seen_enc_new other,
     hd_seen_enc_cleared = (hd_seen_enc_cleared d \<or> hd_seen_enc_cleared other)\<rparr>"

definition ack_upto :: "key \<Rightarrow> u64 \<Rightarrow> HomeDirty \<Rightarrow> HomeDirty" where
  "ack_upto owner up_to d = d\<lparr>hd_mailbox_acked := acked_max owner up_to (hd_mailbox_acked d)\<rparr>"

section \<open>The home server\<close>

record HomeServer =
  hs_hpke :: HpkeKeypair
  hs_sign :: bytes
  hs_bundle :: ServerBundle
  hs_now :: u64
  hs_limits :: Limits
  hs_mailboxes :: "(key, Mailbox) hashmap"
  hs_directory :: "(key, DirectoryRow) hashmap"
  hs_memberships :: "(key, key list) hashmap"
  hs_tokens :: "(key \<times> TokenKind) list"
  hs_prekeys :: "(key, bytes list) hashmap"
  hs_seen_enc :: "(key, u64) hashmap"
  hs_peers :: "(key, PeerState) hashmap"
  hs_outbound :: "OutboundRow list"
  hs_last_token_sweep :: u64
  hs_dirty :: HomeDirty
  hs_owner_nonces :: "(key, u64) hashmap"

type_synonym 'a sresult = "(ServerError + 'a) \<times> HomeServer"

text \<open>The journal entries the operations make.\<close>

definition mark_identity :: "key \<Rightarrow> HomeServer \<Rightarrow> HomeServer" where
  "mark_identity i h = h\<lparr>hs_dirty := (hs_dirty h)\<lparr>hd_identities := insert i (hd_identities (hs_dirty h))\<rparr>\<rparr>"

definition mark_token :: "key \<Rightarrow> HomeServer \<Rightarrow> HomeServer" where
  "mark_token t h = h\<lparr>hs_dirty := (hs_dirty h)\<lparr>hd_tokens := insert t (hd_tokens (hs_dirty h))\<rparr>\<rparr>"

definition mark_prekeys :: "key \<Rightarrow> HomeServer \<Rightarrow> HomeServer" where
  "mark_prekeys i h = h\<lparr>hs_dirty := (hs_dirty h)\<lparr>hd_prekeys := insert i (hd_prekeys (hs_dirty h))\<rparr>\<rparr>"

definition mark_memberships :: "key \<Rightarrow> HomeServer \<Rightarrow> HomeServer" where
  "mark_memberships i h = h\<lparr>hs_dirty := (hs_dirty h)\<lparr>hd_memberships := insert i (hd_memberships (hs_dirty h))\<rparr>\<rparr>"

definition mark_peer_dirty :: "key \<Rightarrow> HomeServer \<Rightarrow> HomeServer" where
  "mark_peer_dirty p h = h\<lparr>hs_dirty := (hs_dirty h)\<lparr>hd_peers := insert p (hd_peers (hs_dirty h))\<rparr>\<rparr>"

definition mark_outbound_dirty :: "HomeServer \<Rightarrow> HomeServer" where
  "mark_outbound_dirty h = h\<lparr>hs_dirty := (hs_dirty h)\<lparr>hd_outbound_dirty := True\<rparr>\<rparr>"

section \<open>Lemmas\<close>

lemmas mark_defs = mark_identity_def mark_token_def mark_prekeys_def mark_memberships_def
  mark_peer_dirty_def mark_outbound_dirty_def

end
