(* ===== verification/Home.thy ===== *)
theory Home
  imports Server_State
begin

text \<open>
  The home server's operations, \<open>nemo-server/src/home.rs\<close>: registration, discovery, tokens,
  prekeys, the mailbox log with its garbage collection, and owner authentication.

  Random tokens are arguments; \<open>dummy_work\<close>, which spends time and returns nothing, changes
  no state and has no counterpart. Token comparison in constant time is equality.
\<close>

section \<open>Model\<close>

definition FETCH_LIMIT_MAX :: u64 where "FETCH_LIMIT_MAX = 256"
definition SHARE_TTL_DEFAULT :: u64 where "SHARE_TTL_DEFAULT = INTRO_TTL_30_MIN"
definition HPKE_ENC_WINDOW :: nat where "HPKE_ENC_WINDOW = 1024"
definition CONTACT_GRACE_SECS :: u64 where "CONTACT_GRACE_SECS = 72 * 3600"
definition CONTACT_CAP_IDLE_SECS :: u64 where "CONTACT_CAP_IDLE_SECS = 30 * 24 * 3600"
definition SHARE_EXPIRED_BUFFER_SECS :: u64 where "SHARE_EXPIRED_BUFFER_SECS = 24 * 3600"
definition SHARE_RESERVED_BUFFER_SECS :: u64 where "SHARE_RESERVED_BUFFER_SECS = 7 * 24 * 3600"
definition TOKEN_SWEEP_INTERVAL_SECS :: u64 where "TOKEN_SWEEP_INTERVAL_SECS = 24 * 3600"
definition RATE_PER_MIN :: nat where "RATE_PER_MIN = 30"

subsection \<open>Construction\<close>

definition hs_server_id :: "crypto \<Rightarrow> HomeServer \<Rightarrow> key" where
  "hs_server_id C h = kp_server_id C (hs_hpke h)"

definition own_bundle :: "crypto \<Rightarrow> HpkeKeypair \<Rightarrow> bytes \<Rightarrow> bytes \<Rightarrow> 16 word \<Rightarrow> WireError + ServerBundle" where
  "own_bundle C hpke sk host port = sb_sign C sk
     \<lparr>sb_server_id = kp_server_id C hpke, sb_hpke_public = kp_public hpke,
      sb_sign_public = lib_ed_public C sk, sb_host = host, sb_s2s_port = ucast port,
      sb_signature = replicate 64 0\<rparr>"

text \<open>\<open>None\<close> is the panic of \<open>expect\<close> on a bundle that cannot be signed.\<close>

definition from_identity :: "crypto \<Rightarrow> HpkeKeypair \<Rightarrow> bytes \<Rightarrow> bytes \<Rightarrow> 16 word \<Rightarrow> HomeServer option" where
  "from_identity C hpke sk host port =
     (case own_bundle C hpke sk host port of
        Err _ \<Rightarrow> None
      | Ok bundle \<Rightarrow> Some
          \<lparr>hs_hpke = hpke, hs_sign = sk, hs_bundle = bundle, hs_now = 1700000000,
           hs_limits = default_limits, hs_mailboxes = [], hs_directory = [], hs_memberships = [],
           hs_tokens = [], hs_prekeys = [], hs_seen_enc = [], hs_peers = [], hs_outbound = [],
           hs_last_token_sweep = 0, hs_dirty = hd_default, hs_owner_nonces = []\<rparr>)"

text \<open>The generated keys are the arguments.\<close>

definition hs_new :: "crypto \<Rightarrow> HpkeKeypair \<Rightarrow> bytes \<Rightarrow> HomeServer option" where
  "hs_new C hpke sk = from_identity C hpke sk (str_bytes ''local'') 8443"

definition with_limits :: "crypto \<Rightarrow> HpkeKeypair \<Rightarrow> bytes \<Rightarrow> Limits \<Rightarrow> HomeServer option" where
  "with_limits C hpke sk limits = map_option (\<lambda>h. h\<lparr>hs_limits := limits\<rparr>) (hs_new C hpke sk)"

definition rebind_host :: "crypto \<Rightarrow> bytes \<Rightarrow> 16 word \<Rightarrow> HomeServer \<Rightarrow> HomeServer option" where
  "rebind_host C host port h =
     (case own_bundle C (hs_hpke h) (hs_sign h) host port of
        Err _ \<Rightarrow> None
      | Ok bundle \<Rightarrow> Some (h\<lparr>hs_bundle := bundle,
          hs_dirty := (hs_dirty h)\<lparr>hd_server_identity := True\<rparr>\<rparr>))"

definition advertise :: "crypto \<Rightarrow> HpkeKeypair \<Rightarrow> bytes \<Rightarrow> bytes \<Rightarrow> 16 word \<Rightarrow> HomeServer option" where
  "advertise C hpke sk host port = Option.bind (hs_new C hpke sk) (rebind_host C host port)"

subsection \<open>Readers\<close>

definition identity_keys :: "HomeServer \<Rightarrow> HpkeKeypair \<times> bytes" where
  "identity_keys h = (hs_hpke h, hs_sign h)"

definition token_count :: "HomeServer \<Rightarrow> nat" where
  "token_count h = length (hs_tokens h)"

definition sign_public :: "crypto \<Rightarrow> HomeServer \<Rightarrow> key" where
  "sign_public C h = lib_ed_public C (hs_sign h)"

definition peer_id_for_sign_key :: "HomeServer \<Rightarrow> key \<Rightarrow> key option" where
  "peer_id_for_sign_key h pk =
     map_option fst (find (\<lambda>(sid, p). sb_sign_public (ps_bundle p) = pk) (hs_peers h))"

definition peer_refused :: "HomeServer \<Rightarrow> key \<Rightarrow> bool" where
  "peer_refused h sid = (case hm_get (hs_peers h) sid of Some p \<Rightarrow> ps_refused p | None \<Rightarrow> False)"

definition mailbox_disabled :: "HomeServer \<Rightarrow> key \<Rightarrow> bool" where
  "mailbox_disabled h owner = (case hm_get (hs_mailboxes h) owner of Some m \<Rightarrow> mb_disabled m | None \<Rightarrow> False)"

definition mailbox_head :: "HomeServer \<Rightarrow> key \<Rightarrow> u64" where
  "mailbox_head h owner =
     (case hm_get (hs_mailboxes h) owner of Some m \<Rightarrow> saturating_sub (mb_next_seq m) 1 | None \<Rightarrow> 0)"

definition require_mailbox :: "HomeServer \<Rightarrow> key \<Rightarrow> ServerError + unit" where
  "require_mailbox h owner =
     (case hm_get (hs_mailboxes h) owner of
        Some m \<Rightarrow> if \<not> mb_disabled m then Ok () else Err Denied
      | None \<Rightarrow> Err Denied)"

definition fanout_hpke_allowed :: "HomeServer \<Rightarrow> key \<Rightarrow> bool" where
  "fanout_hpke_allowed h pk \<longleftrightarrow> kp_public (hs_hpke h) = pk \<or>
     list_ex (\<lambda>(sid, p). sb_hpke_public (ps_bundle p) = pk) (hs_peers h)"

definition discovery :: "HomeServer \<Rightarrow> key \<Rightarrow> ServerError + DiscoveryRow" where
  "discovery h ident =
     (case hm_get (hs_directory h) ident of
        Some row \<Rightarrow> Ok \<lparr>dy_identity_public = di_identity_public row, dy_revocation_public = di_revocation_public row,
                        dy_binding = di_binding row, dy_revocation = di_revocation row\<rparr>
      | None \<Rightarrow> Err Denied)"

definition sign_rotate :: "crypto \<Rightarrow> HomeServer \<Rightarrow> key \<Rightarrow> u64 \<Rightarrow> ServerError + ServerSignRotate" where
  "sign_rotate C h pk seq = map_err Wire (sr_sign C (hs_sign h) pk seq)"

definition bundle_pin :: "HomeServer \<Rightarrow> key \<Rightarrow> ServerBundle option" where
  "bundle_pin h peer = map_option ps_bundle (hm_get (hs_peers h) peer)"

subsection \<open>Token lookup\<close>

text \<open>The loops of \<open>token\<close> and \<open>token_mut\<close>: the last entry with the key counts.\<close>

fun token_loop :: "key \<Rightarrow> TokenKind option \<Rightarrow> (key \<times> TokenKind) list \<Rightarrow> TokenKind option" where
  "token_loop want found [] = found"
| "token_loop want found ((k, v) # ts) = token_loop want (if k = want then Some v else found) ts"

definition token :: "HomeServer \<Rightarrow> key \<Rightarrow> TokenKind option" where
  "token h want = token_loop want None (hs_tokens h)"

fun token_idx_loop :: "key \<Rightarrow> nat \<Rightarrow> nat option \<Rightarrow> (key \<times> TokenKind) list \<Rightarrow> nat option" where
  "token_idx_loop want i idx [] = idx"
| "token_idx_loop want i idx ((k, v) # ts) = token_idx_loop want (Suc i) (if k = want then Some i else idx) ts"

definition token_idx :: "HomeServer \<Rightarrow> key \<Rightarrow> nat option" where
  "token_idx h want = token_idx_loop want 0 None (hs_tokens h)"

text \<open>Writing through the reference \<open>token_mut\<close> returns.\<close>

definition set_token :: "HomeServer \<Rightarrow> key \<Rightarrow> TokenKind \<Rightarrow> HomeServer" where
  "set_token h want kind =
     (case token_idx h want of
        None \<Rightarrow> h
      | Some i \<Rightarrow> h\<lparr>hs_tokens := (hs_tokens h)[i := (fst (hs_tokens h ! i), kind)]\<rparr>)"

definition capability_mailbox :: "HomeServer \<Rightarrow> key \<Rightarrow> key option" where
  "capability_mailbox h t = map_option tk_mailbox (token h t)"

definition token_belongs_to :: "TokenKind \<Rightarrow> key \<Rightarrow> bool" where
  "token_belongs_to kind owner \<longleftrightarrow> tk_mailbox kind = owner"

definition share_token_dead :: "u64 \<Rightarrow> bytes option \<Rightarrow> u64 \<Rightarrow> bool" where
  "share_token_dead expires_at reserved now =
     (let buf = if reserved \<noteq> None then SHARE_RESERVED_BUFFER_SECS else SHARE_EXPIRED_BUFFER_SECS in
      now > saturating_add expires_at buf)"

definition contact_token_dead :: "u64 \<Rightarrow> u64 \<Rightarrow> bool" where
  "contact_token_dead window_start now \<longleftrightarrow> saturating_sub now window_start > CONTACT_CAP_IDLE_SECS"

subsection \<open>Sweeping tokens\<close>

text \<open>\<open>newest_contact_idx_for\<close>: the loop carries the best index and its window start.\<close>

fun newest_loop :: "key \<Rightarrow> nat \<Rightarrow> (nat \<times> u64) option \<Rightarrow> (key \<times> TokenKind) list \<Rightarrow> (nat \<times> u64) option" where
  "newest_loop owner i best [] = best"
| "newest_loop owner i best ((k, Contact mailbox grace start cnt) # ts) =
     newest_loop owner (Suc i)
       (if mailbox \<noteq> owner then best
        else case best of
          None \<Rightarrow> Some (i, start)
        | Some (bi, bs) \<Rightarrow> if start > bs \<or> (start = bs \<and> i > bi) then Some (i, start) else best) ts"
| "newest_loop owner i best ((k, Share mailbox e b r) # ts) = newest_loop owner (Suc i) best ts"

definition newest_contact_idx_for :: "HomeServer \<Rightarrow> key \<Rightarrow> nat option" where
  "newest_contact_idx_for h owner = map_option fst (newest_loop owner 0 None (hs_tokens h))"

definition drop_tokens_exact :: "key list \<Rightarrow> HomeServer \<Rightarrow> nat \<times> HomeServer" where
  "drop_tokens_exact dead h =
     (if dead = [] then (0, h)
      else (length dead,
        h\<lparr>hs_tokens := filter (\<lambda>(tok, kind). tok \<notin> set dead) (hs_tokens h),
          hs_dirty := (hs_dirty h)\<lparr>hd_tokens := hd_tokens (hs_dirty h) - set dead,
            hd_tokens_dropped_exact := hd_tokens_dropped_exact (hs_dirty h) \<union> set dead\<rparr>\<rparr>))"

text \<open>The verdict of a sweep on one entry, once the survivor of its mailbox is known.\<close>

definition token_dead :: "u64 \<Rightarrow> nat option \<Rightarrow> nat \<Rightarrow> TokenKind \<Rightarrow> bool" where
  "token_dead now survivor i kind =
     (case kind of
        Share mailbox expires_at burned reserved \<Rightarrow> share_token_dead expires_at reserved now
      | Contact mailbox grace start cnt \<Rightarrow>
          if survivor = Some i then False
          else if (case grace of Some g \<Rightarrow> now < g | None \<Rightarrow> False) then False
          else contact_token_dead start now)"

definition sweep_dead_tokens_for :: "key \<Rightarrow> HomeServer \<Rightarrow> nat \<times> HomeServer" where
  "sweep_dead_tokens_for owner h =
     (let survivor = newest_contact_idx_for h owner;
          dead = List.map_filter (\<lambda>(i, (tok, kind)).
            if \<not> token_belongs_to kind owner then None
            else if (case hm_get (hs_mailboxes h) owner of None \<Rightarrow> True | Some m \<Rightarrow> mb_disabled m) then Some tok
            else if token_dead (hs_now h) survivor i kind then Some tok else None)
            (enumerate 0 (hs_tokens h)) in
      drop_tokens_exact dead h)"

text \<open>
  The survivor loop of \<open>sweep_dead_tokens\<close> keeps, per mailbox, the greatest window start seen
  and the index that had it.
\<close>

fun survivors_loop :: "nat \<Rightarrow> (key, nat) hashmap \<Rightarrow> (key, u64) hashmap \<Rightarrow> (key \<times> TokenKind) list \<Rightarrow> (key, nat) hashmap" where
  "survivors_loop i surv best [] = surv"
| "survivors_loop i surv best ((k, Contact mailbox grace start cnt) # ts) =
     (if (case hm_get best mailbox of None \<Rightarrow> True | Some s \<Rightarrow> start > s \<or> start = s)
      then survivors_loop (Suc i) (hm_insert mailbox i surv) (hm_insert mailbox start best) ts
      else survivors_loop (Suc i) surv best ts)"
| "survivors_loop i surv best ((k, Share mailbox e b r) # ts) = survivors_loop (Suc i) surv best ts"

definition sweep_dead_tokens :: "HomeServer \<Rightarrow> nat \<times> HomeServer" where
  "sweep_dead_tokens h =
     (let survivors = survivors_loop 0 [] [] (hs_tokens h);
          disabled = set (List.map_filter (\<lambda>(i, m). if mb_disabled m then Some i else None) (hs_mailboxes h));
          dead = List.map_filter (\<lambda>(i, (tok, kind)).
            let owner = tk_mailbox kind in
            if hm_get (hs_mailboxes h) owner = None \<or> owner \<in> disabled then Some tok
            else if token_dead (hs_now h) (hm_get survivors owner) i kind then Some tok else None)
            (enumerate 0 (hs_tokens h)) in
      drop_tokens_exact dead h)"

definition token_sweep_due :: "HomeServer \<Rightarrow> bool" where
  "token_sweep_due h \<longleftrightarrow> saturating_sub (hs_now h) (hs_last_token_sweep h) \<ge> TOKEN_SWEEP_INTERVAL_SECS"

definition record_token_sweep :: "HomeServer \<Rightarrow> HomeServer" where
  "record_token_sweep h = h\<lparr>hs_last_token_sweep := hs_now h\<rparr>"

subsection \<open>Mailbox rows\<close>

definition put_mailbox :: "key \<Rightarrow> Mailbox \<Rightarrow> HomeServer \<Rightarrow> HomeServer" where
  "put_mailbox i m h = h\<lparr>hs_mailboxes := hm_insert i m (hs_mailboxes h)\<rparr>"

text \<open>\<open>row.inner.encode_padded().map(|b| b.len() as u64).unwrap_or(0)\<close>.\<close>

definition row_size :: "StoredEnvelope \<Rightarrow> u64" where
  "row_size r = (case encode_padded (se_inner r) of Ok b \<Rightarrow> of_nat (length b) | Err _ \<Rightarrow> 0)"

definition remove_row :: "u64 \<Rightarrow> Mailbox \<Rightarrow> Mailbox" where
  "remove_row seq m =
     (case hm_get (mb_rows m) seq of
        None \<Rightarrow> m
      | Some row \<Rightarrow> m\<lparr>mb_rows := hm_remove seq (mb_rows m),
          mb_bytes := saturating_sub (mb_bytes m) (row_size row),
          mb_idempotency := hm_retain (\<lambda>_ s. s \<noteq> seq) (mb_idempotency m)\<rparr>)"

definition envelope_expiry :: "u64 \<Rightarrow> TtlBucket \<Rightarrow> u64 \<Rightarrow> u64" where
  "envelope_expiry now ttl max_age =
     (let cap = saturating_add now max_age in
      case ttl_secs ttl of Some s \<Rightarrow> min (saturating_add now s) cap | None \<Rightarrow> cap)"

text \<open>The \<open>while\<close> loop of \<open>gc_mailbox\<close>, which drops the oldest row until the bytes fit.\<close>

function gc_loop :: "u64 \<Rightarrow> Mailbox \<Rightarrow> u64 list \<Rightarrow> Mailbox \<times> u64 list" where
  "gc_loop max_bytes m dropped =
     (if mb_bytes m > max_bytes then
        (case mb_rows m of
           [] \<Rightarrow> (m, dropped)
         | (oldest, row) # rest \<Rightarrow> gc_loop max_bytes (remove_row oldest m) (dropped @ [oldest]))
      else (m, dropped))"
  by pat_completeness auto
termination
  by (relation "measure (\<lambda>(mx, m, d). length (mb_rows m))")
    (auto simp: remove_row_def hm_get_def hm_remove_def less_Suc_eq_le intro: length_filter_le)

declare gc_loop.simps [simp del]

definition row_expired :: "u64 \<Rightarrow> u64 \<Rightarrow> StoredEnvelope \<Rightarrow> bool" where
  "row_expired now max_age r \<longleftrightarrow> se_expires_at r \<le> now \<or> saturating_sub now (se_received_at r) > max_age"

definition gc_rows :: "u64 \<Rightarrow> Limits \<Rightarrow> Mailbox \<Rightarrow> Mailbox \<times> u64 list" where
  "gc_rows now limits m =
     (let expired = map fst (filter (\<lambda>(s, r). row_expired now (mailbox_max_age_secs limits) r) (mb_rows m)) in
      gc_loop (mailbox_max_bytes limits) (fold remove_row expired m) expired)"

definition gc_mailbox :: "key \<Rightarrow> HomeServer \<Rightarrow> HomeServer" where
  "gc_mailbox owner h =
     (case hm_get (hs_mailboxes h) owner of
        None \<Rightarrow> h
      | Some m \<Rightarrow>
          (let (m', dropped) = gc_rows (hs_now h) (hs_limits h) m;
               h' = put_mailbox owner m' h in
           if dropped = [] then h'
           else mark_identity owner (h'\<lparr>hs_dirty := (hs_dirty h')\<lparr>
             hd_mailbox_dropped := hd_mailbox_dropped (hs_dirty h') @ map (Pair owner) dropped\<rparr>\<rparr>)))"

definition disable_mailbox :: "key \<Rightarrow> HomeServer \<Rightarrow> HomeServer" where
  "disable_mailbox owner h =
     (let h1 = (case hm_get (hs_mailboxes h) owner of
                  None \<Rightarrow> h
                | Some m \<Rightarrow> put_mailbox owner ((fold remove_row (map fst (mb_rows m)) m)\<lparr>mb_disabled := True\<rparr>) h);
          h2 = h1\<lparr>hs_prekeys := hm_remove owner (hs_prekeys h1),
                  hs_tokens := filter (\<lambda>(tok, kind). tk_mailbox kind \<noteq> owner) (hs_tokens h1)\<rparr>;
          d = hs_dirty h2 in
      h2\<lparr>hs_dirty := d\<lparr>hd_mailbox_cleared := insert owner (hd_mailbox_cleared d),
           hd_tokens_dropped := insert owner (hd_tokens_dropped d),
           hd_prekeys := insert owner (hd_prekeys d),
           hd_identities := insert owner (hd_identities d)\<rparr>\<rparr>)"

subsection \<open>Registration and directory\<close>

definition register :: "key \<Rightarrow> key \<Rightarrow> HomeServer \<Rightarrow> unit sresult" where
  "register ident owner_pk h =
     (if hm_get (hs_mailboxes h) ident \<noteq> None then (Err AlreadyRegistered, h)
      else (Ok (), mark_identity ident (put_mailbox ident
        \<lparr>mb_owner_pk = owner_pk, mb_next_seq = 1, mb_rows = [], mb_idempotency = [], mb_bytes = 0,
         mb_disabled = False\<rparr> h)))"

definition register_share_token :: "key \<Rightarrow> key \<Rightarrow> u64 option \<Rightarrow> HomeServer \<Rightarrow> unit sresult" where
  "register_share_token owner tok ttl_opt h =
     sread (require_mailbox h owner) h (\<lambda>_.
       let ttl = (case ttl_opt of Some t \<Rightarrow> t | None \<Rightarrow> SHARE_TTL_DEFAULT) in
       if \<not> allowed_intro_ttl ttl then (Err Denied, h)
       else (Ok (), mark_token tok
         (h\<lparr>hs_tokens := hs_tokens h @ [(tok, Share owner (hs_now h + ttl) False None)]\<rparr>)))"

definition register_from_card :: "crypto \<Rightarrow> ContactCard \<Rightarrow> HomeServer \<Rightarrow> key sresult" where
  "register_from_card C cc h =
     sread (map_err Wire (cc_verify C cc (hs_now h))) h (\<lambda>_.
       if hb_server_id (cc_binding cc) \<noteq> hs_server_id C h then (Err Denied, h)
       else
         (let ident = cc_identity_id C cc in
          sbind (register ident (cc_identity_public cc) h) (\<lambda>_ h.
          let h = h\<lparr>hs_directory := hm_insert ident
                \<lparr>di_identity_public = cc_identity_public cc, di_revocation_public = cc_revocation_public cc,
                 di_binding = cc_binding cc, di_binding_seq = hb_seq (cc_binding cc), di_revocation = None\<rparr>
                (hs_directory h)\<rparr> in
          sbind (register_share_token ident (cc_share_token cc) None h) (\<lambda>_ h. (Ok ident, h)))))"

text \<open>The key \<open>observe_binding\<close> checks the binding with.\<close>

definition observed_pk :: "HomeServer \<Rightarrow> key \<Rightarrow> ServerError + key" where
  "observed_pk h ident =
     (case hm_get (hs_directory h) ident of
        Some row \<Rightarrow> Ok (di_identity_public row)
      | None \<Rightarrow> rbind (ok_or (hm_get (hs_mailboxes h) ident) Denied) (\<lambda>m. Ok (mb_owner_pk m)))"

definition observe_binding :: "crypto \<Rightarrow> key \<Rightarrow> HomeServerBinding \<Rightarrow> HomeServer \<Rightarrow> unit sresult" where
  "observe_binding C ident b h =
     sread (observed_pk h ident) h (\<lambda>pk.
     if \<not> lib_ed_point C pk then (Err Denied, h)
     else if identity_id C pk \<noteq> ident then (Err Denied, h)
     else sread (map_err (\<lambda>_. Denied) (hb_verify C b pk (hs_now h))) h (\<lambda>_.
       let stored_seq = (case hm_get (hs_directory h) ident of Some r \<Rightarrow> di_binding_seq r | None \<Rightarrow> 0) in
       if hb_seq b \<le> stored_seq then (Ok (), h)
       else
         (let row = (case hm_get (hs_directory h) ident of
                       Some row \<Rightarrow> row\<lparr>di_binding := b, di_binding_seq := hb_seq b\<rparr>
                     | None \<Rightarrow> \<lparr>di_identity_public = pk, di_revocation_public = replicate KEY_LEN 0,
                                di_binding = b, di_binding_seq = hb_seq b, di_revocation = None\<rparr>);
              h = mark_identity ident (h\<lparr>hs_directory := hm_insert ident row (hs_directory h)\<rparr>) in
          if hb_server_id b \<noteq> hs_server_id C h then (Ok (), disable_mailbox ident h) else (Ok (), h))))"

definition note_group_membership :: "key \<Rightarrow> key \<Rightarrow> HomeServer \<Rightarrow> HomeServer" where
  "note_group_membership ident group_id h =
     (let list = (case hm_get (hs_memberships h) ident of Some l \<Rightarrow> l | None \<Rightarrow> []) in
      if group_id \<notin> set list
      then mark_memberships ident (h\<lparr>hs_memberships := hm_insert ident (list @ [group_id]) (hs_memberships h)\<rparr>)
      else h)"

definition ingest_revocation :: "crypto \<Rightarrow> RevocationStatement \<Rightarrow> HomeServer \<Rightarrow> key list sresult" where
  "ingest_revocation C stmt h =
     sread (ok_or (hm_get (hs_directory h) (rs_identity_id stmt)) Denied) h (\<lambda>row.
     sread (map_err (\<lambda>_. Denied) (rs_verifying_key C (di_revocation_public row))) h (\<lambda>pk.
     sread (map_err (\<lambda>_. Denied) (rs_verify C stmt pk)) h (\<lambda>_.
     if rs_identity_id stmt \<noteq> identity_id C (di_identity_public row) then (Err Denied, h)
     else
       (let ident = rs_identity_id stmt;
            h1 = h\<lparr>hs_directory := hm_insert ident (row\<lparr>di_revocation := Some stmt\<rparr>) (hs_directory h)\<rparr>;
            h2 = disable_mailbox ident (mark_identity ident h1);
            removed = hm_get (hs_memberships h2) ident;
            h3 = h2\<lparr>hs_memberships := hm_remove ident (hs_memberships h2)\<rparr> in
        (Ok (case removed of Some l \<Rightarrow> l | None \<Rightarrow> []),
         if removed \<noteq> None then mark_memberships ident h3 else h3)))))"

subsection \<open>Capabilities and prekeys\<close>

definition mint_share_token :: "key \<Rightarrow> key \<Rightarrow> u64 option \<Rightarrow> HomeServer \<Rightarrow> key sresult" where
  "mint_share_token random owner ttl h =
     sbind (register_share_token owner random ttl h) (\<lambda>_ h. (Ok random, h))"

definition mint_contact_capability :: "key \<Rightarrow> key \<Rightarrow> HomeServer \<Rightarrow> key sresult" where
  "mint_contact_capability random owner h =
     sread (require_mailbox h owner) h (\<lambda>_.
       let h = snd (sweep_dead_tokens_for owner h) in
       (Ok random, mark_token random
         (h\<lparr>hs_tokens := hs_tokens h @ [(random, Contact owner None (hs_now h) 0)]\<rparr>)))"

definition rotate_contact :: "key \<Rightarrow> key \<Rightarrow> key \<Rightarrow> bool \<Rightarrow> HomeServer \<Rightarrow> key sresult" where
  "rotate_contact random owner old confirm h =
     sbind (mint_contact_capability random owner h) (\<lambda>new h.
       let grace = hs_now h + CONTACT_GRACE_SECS in
       if confirm then
         (case token h old of
            Some (Contact mailbox grace_until start cnt) \<Rightarrow>
              if mailbox = owner
              then (Ok new, mark_token old (set_token h old (Contact mailbox (Some grace) start cnt)))
              else (Ok new, h)
          | _ \<Rightarrow> (Ok new, h))
       else (Ok new, h))"

definition publish_prekey :: "key \<Rightarrow> bytes \<Rightarrow> HomeServer \<Rightarrow> unit sresult" where
  "publish_prekey owner blob h =
     sread (require_mailbox h owner) h (\<lambda>_.
       let q = (case hm_get (hs_prekeys h) owner of Some q \<Rightarrow> q | None \<Rightarrow> []) in
       (Ok (), mark_prekeys owner (h\<lparr>hs_prekeys := hm_insert owner (q @ [blob]) (hs_prekeys h)\<rparr>)))"

definition fetch_prekey :: "key \<Rightarrow> HomeServer \<Rightarrow> bytes sresult" where
  "fetch_prekey tok h =
     (case token h tok of
        Some (Share mailbox expires_at burned reserved) \<Rightarrow>
          if \<not> burned \<and> hs_now h < expires_at then
            (case reserved of
               Some blob \<Rightarrow> (Ok blob, h)
             | None \<Rightarrow>
                 (case hm_get (hs_prekeys h) mailbox of
                    Some (blob # q) \<Rightarrow>
                      (let h1 = h\<lparr>hs_prekeys := hm_insert mailbox q (hs_prekeys h)\<rparr>;
                           h2 = set_token h1 tok (Share mailbox expires_at burned (Some blob)) in
                       (Ok blob, mark_token tok (mark_prekeys mailbox h2)))
                  | _ \<Rightarrow> (Err Denied, h)))
          else (Err Denied, h)
      | _ \<Rightarrow> (Err Denied, h))"

subsection \<open>Appending\<close>

definition authorize_append :: "key \<Rightarrow> HomeServer \<Rightarrow> key sresult" where
  "authorize_append tok h =
     (let now = hs_now h;
          enabled = (\<lambda>mailbox h. if mailbox_disabled h mailbox then (Err Denied, h) else (Ok mailbox, h)) in
      case token h tok of
        Some (Share mailbox expires_at burned reserved) \<Rightarrow>
          if \<not> burned \<and> now < expires_at then enabled mailbox h else (Err Denied, h)
      | Some (Contact mailbox grace start cnt) \<Rightarrow>
          if (case grace of Some g \<Rightarrow> now \<ge> g | None \<Rightarrow> False) then (Err Denied, h)
          else
            (let (start', cnt') = (if saturating_sub now start \<ge> 60 then (now, 0) else (start, cnt)) in
             if cnt' \<ge> RATE_PER_MIN then (Err Denied, set_token h tok (Contact mailbox grace start' cnt'))
             else enabled mailbox (mark_token tok (set_token h tok (Contact mailbox grace start' (cnt' + 1)))))
      | None \<Rightarrow> (Err Denied, h))"

definition burn_if_share :: "key \<Rightarrow> HomeServer \<Rightarrow> HomeServer" where
  "burn_if_share tok h =
     (case token h tok of
        Some (Share mailbox expires_at burned reserved) \<Rightarrow>
          if \<not> burned then mark_token tok (set_token h tok (Share mailbox expires_at True reserved)) else h
      | _ \<Rightarrow> h)"

definition append_inner :: "InnerEnvelope \<Rightarrow> HomeServer \<Rightarrow> u64 sresult" where
  "append_inner inner h =
     (let tok = ie_capability inner in
      sbind (authorize_append tok h) (\<lambda>mailbox h.
      sread (ok_or (hm_get (hs_mailboxes h) mailbox) Denied) h (\<lambda>m.
      case hm_get (mb_idempotency m) (ie_idempotency inner) of
        Some seq \<Rightarrow> (Ok seq, h)
      | None \<Rightarrow>
          sread (map_err Wire (encode_padded inner)) h (\<lambda>padded.
          let size = of_nat (length padded);
              expires_at = envelope_expiry (hs_now h) (ie_ttl inner) (mailbox_max_age_secs (hs_limits h));
              seq = mb_next_seq m;
              m' = m\<lparr>mb_next_seq := mb_next_seq m + 1,
                     mb_idempotency := hm_insert (ie_idempotency inner) seq (mb_idempotency m),
                     mb_bytes := mb_bytes m + size,
                     mb_rows := bt_insert seq \<lparr>se_seq = seq, se_received_at = hs_now h,
                                  se_expires_at = expires_at, se_inner = inner\<rparr> (mb_rows m)\<rparr>;
              h1 = put_mailbox mailbox m' h;
              h2 = mark_identity mailbox (h1\<lparr>hs_dirty := (hs_dirty h1)\<lparr>
                     hd_mailbox_new := hd_mailbox_new (hs_dirty h1) @ [(mailbox, seq)]\<rparr>\<rparr>);
              h3 = gc_mailbox mailbox (burn_if_share tok h2) in
          (Ok seq, h3)))))"

text \<open>The tail of \<open>ingest\<close>: remembering the encapsulated key in the deduplication window.\<close>

definition remember_enc :: "key \<Rightarrow> u64 \<Rightarrow> HomeServer \<Rightarrow> HomeServer" where
  "remember_enc enc seq h =
     (let h1 = (if length (hs_seen_enc h) \<ge> HPKE_ENC_WINDOW
                then h\<lparr>hs_seen_enc := [], hs_dirty := (hs_dirty h)\<lparr>hd_seen_enc_cleared := True\<rparr>\<rparr> else h);
          h2 = h1\<lparr>hs_seen_enc := hm_insert enc seq (hs_seen_enc h1)\<rparr> in
      if \<not> hd_seen_enc_cleared (hs_dirty h2)
      then h2\<lparr>hs_dirty := (hs_dirty h2)\<lparr>hd_seen_enc_new := hd_seen_enc_new (hs_dirty h2) @ [enc]\<rparr>\<rparr>
      else h2)"

definition ingest :: "crypto \<Rightarrow> OuterEnvelope \<Rightarrow> HomeServer \<Rightarrow> u64 sresult" where
  "ingest C outer h =
     sread (map_err Wire (encap_key (oe_ciphertext outer))) h (\<lambda>enc.
     case hm_get (hs_seen_enc h) enc of
       Some seq \<Rightarrow> (Ok seq, h)
     | None \<Rightarrow>
         sread (map_err Wire (open_outer C (hs_hpke h) outer)) h (\<lambda>inner.
         sbind (append_inner inner h) (\<lambda>seq h. (Ok seq, remember_enc enc seq h))))"

subsection \<open>The owner's requests\<close>

definition gc_owner_nonces :: "u64 \<Rightarrow> HomeServer \<Rightarrow> HomeServer" where
  "gc_owner_nonces now h =
     h\<lparr>hs_owner_nonces := hm_retain (\<lambda>_ ts. saturating_sub now ts \<le> MAX_AGE_SECS) (hs_owner_nonces h)\<rparr>"

definition check_owner :: "crypto \<Rightarrow> key \<Rightarrow> MailboxOwnerAuth \<Rightarrow> u64 \<Rightarrow> AuthScope \<Rightarrow> HomeServer \<Rightarrow> unit sresult" where
  "check_owner C owner auth now expected h =
     sread (ok_or (hm_get (hs_mailboxes h) owner) OwnerAuth) h (\<lambda>m.
     if mb_disabled m then (Err OwnerAuth, h)
     else if mo_mailbox_hint auth \<noteq> owner then (Err OwnerAuth, h)
     else if \<not> lib_ed_point C (mb_owner_pk m) then (Err OwnerAuth, h)
     else sread (map_err (\<lambda>_. OwnerAuth) (mo_verify C auth (mb_owner_pk m) now expected)) h (\<lambda>_.
       let h = gc_owner_nonces now h in
       if hm_get (hs_owner_nonces h) (mo_nonce auth) \<noteq> None then (Err OwnerAuth, h)
       else (Ok (), h\<lparr>hs_owner_nonces := hm_insert (mo_nonce auth) (mo_ts auth) (hs_owner_nonces h)\<rparr>)))"

definition fetch :: "crypto \<Rightarrow> key \<Rightarrow> MailboxOwnerAuth \<Rightarrow> u64 \<Rightarrow> HomeServer \<Rightarrow> StoredEnvelope list sresult" where
  "fetch C owner auth now h =
     (let scope = scope_body (hs_server_id C h) (str_bytes ''POST'') (str_bytes ''/v1/mailbox/fetch'') in
      sbind (check_owner C owner auth now scope h) (\<lambda>_ h.
      if mo_limit auth = 0 \<or> mo_limit auth > FETCH_LIMIT_MAX then (Err FetchLimit, h)
      else
        (let h = gc_mailbox owner h in
         sread (ok_or (hm_get (hs_mailboxes h) owner) OwnerAuth) h (\<lambda>m.
           (Ok (take (unat (mo_limit auth))
                 (filter (\<lambda>r. se_seq r > mo_cursor auth \<and> se_expires_at r > hs_now h) (map snd (mb_rows m)))), h)))))"

text \<open>A row removed by an acknowledgement; unlike \<open>remove_row\<close> it keeps its idempotency entry.\<close>

definition ack_row :: "u64 \<Rightarrow> Mailbox \<Rightarrow> Mailbox" where
  "ack_row seq m =
     (case hm_get (mb_rows m) seq of
        None \<Rightarrow> m
      | Some row \<Rightarrow> m\<lparr>mb_rows := hm_remove seq (mb_rows m),
          mb_bytes := saturating_sub (mb_bytes m) (row_size row)\<rparr>)"

definition ack :: "crypto \<Rightarrow> key \<Rightarrow> MailboxOwnerAuth \<Rightarrow> u64 \<Rightarrow> HomeServer \<Rightarrow> unit sresult" where
  "ack C owner auth now h =
     (let scope = scope_body (hs_server_id C h) (str_bytes ''POST'') (str_bytes ''/v1/mailbox/ack'') in
      sbind (check_owner C owner auth now scope h) (\<lambda>_ h.
      sread (ok_or (hm_get (hs_mailboxes h) owner) OwnerAuth) h (\<lambda>m.
        let up_to = mo_cursor auth;
            drop = filter (\<lambda>s. s \<le> up_to) (map fst (mb_rows m)) in
        if drop = [] then (Ok (), h)
        else
          (let h = put_mailbox owner (fold ack_row drop m) h in
           (Ok (), mark_identity owner (h\<lparr>hs_dirty := ack_upto owner up_to (hs_dirty h)\<rparr>))))))"

subsection \<open>Sending\<close>

definition enqueue :: "crypto \<Rightarrow> OuterEnvelope \<Rightarrow> HomeServer \<Rightarrow> Enqueue sresult" where
  "enqueue C outer h =
     (if oe_destination outer = hs_server_id C h
      then sbind (ingest C outer h) (\<lambda>seq h. (Ok (Local seq), h))
      else (Ok Queued, mark_outbound_dirty (h\<lparr>hs_outbound := hs_outbound h @
        [\<lparr>or_dest = oe_destination outer, or_outer = outer, or_enqueued_at = hs_now h,
          or_next_attempt = hs_now h, or_backoff_secs = 1\<rparr>]\<rparr>)))"

definition enqueue_from_owner :: "crypto \<Rightarrow> key \<Rightarrow> MailboxOwnerAuth \<Rightarrow> u64 \<Rightarrow> OuterEnvelope \<Rightarrow> HomeServer \<Rightarrow> Enqueue sresult" where
  "enqueue_from_owner C owner auth now outer h =
     (let scope = scope_header C (hs_server_id C h) (str_bytes ''POST'') (str_bytes ''/v1/envelopes'') (oe_encode outer) in
      sbind (check_owner C owner auth now scope h) (\<lambda>_ h.
      sread (require_mailbox h owner) h (\<lambda>_. enqueue C outer h)))"

definition defer_outbound :: "u64 \<Rightarrow> HomeServer \<Rightarrow> HomeServer" where
  "defer_outbound until h =
     (let h' = h\<lparr>hs_outbound := map (\<lambda>row. row\<lparr>or_next_attempt := until\<rparr>) (hs_outbound h)\<rparr> in
      if hs_outbound h' \<noteq> [] then mark_outbound_dirty h' else h')"

end
