(* ===== verification/Mailbox_Log.thy ===== *)
theory Mailbox_Log
  imports Home
begin

text \<open>
  The mailbox log as a data structure: its invariant, that the operations on it keep the
  invariant, and what garbage collection leaves, against a reference definition.
\<close>

section \<open>Specification\<close>

definition rows_bytes :: "StoredEnvelope btree \<Rightarrow> nat" where
  "rows_bytes rows = (\<Sum>p\<leftarrow>rows. unat (row_size (snd p)))"

text \<open>
  The invariant of one mailbox: rows sorted under their own sequence numbers, all below
  \<open>next_seq\<close>; the byte count is the sum of the row sizes; every row's idempotency token leads to
  the row; a disabled mailbox has no rows.
\<close>

definition mb_inv :: "Mailbox \<Rightarrow> bool" where
  "mb_inv m \<longleftrightarrow>
     bt_wf (mb_rows m) \<and>
     (\<forall>p \<in> set (mb_rows m). se_seq (snd p) = fst p \<and> fst p < mb_next_seq m \<and>
        hm_get (mb_idempotency m) (ie_idempotency (se_inner (snd p))) = Some (fst p)) \<and>
     hm_wf (mb_idempotency m) \<and> (\<forall>p \<in> set (mb_idempotency m). snd p < mb_next_seq m) \<and>
     unat (mb_bytes m) = rows_bytes (mb_rows m) \<and>
     (mb_disabled m \<longrightarrow> mb_rows m = [])"

text \<open>The longest suffix of the rows whose bytes fit: what is left when the oldest go first.\<close>

fun fit :: "nat \<Rightarrow> StoredEnvelope btree \<Rightarrow> StoredEnvelope btree" where
  "fit mx [] = []"
| "fit mx (r # rs) = (if mx < rows_bytes (r # rs) then fit mx rs else r # rs)"

section \<open>Lemmas\<close>

lemma rows_bytes_simps [simp]:
  "rows_bytes [] = 0" "rows_bytes (r # rs) = unat (row_size (snd r)) + rows_bytes rs"
  by (simp_all add: rows_bytes_def)

lemma rows_bytes_remove:
  "distinct (map fst rows) \<Longrightarrow> map_of rows k = Some r \<Longrightarrow>
   rows_bytes (filter (\<lambda>p. fst p \<noteq> k) rows) = rows_bytes rows - unat (row_size r)"
proof (induction rows)
  case (Cons p rows)
  show ?case
  proof (cases "fst p = k")
    case True
    then have "filter (\<lambda>p. fst p \<noteq> k) rows = rows"
      using Cons.prems by (auto simp: filter_id_conv image_iff)
    with True Cons.prems show ?thesis by simp
  next
    case False
    then have "map_of rows k = Some r" using Cons.prems by (cases p) simp
    moreover have "unat (row_size r) \<le> rows_bytes rows" if "map_of rows k = Some r"
      using that by (induction rows) (auto simp: trans_le_add2 split: if_splits)
    ultimately show ?thesis using False Cons by simp
  qed
qed simp

lemma unat_row_size: "unat (row_size r) \<le> 16781312"
proof (cases "encode_padded (se_inner r)")
  case (Inr b)
  then have "length b \<le> 16781312"
    by (auto simp: encode_padded_def Let_def outer_len_def size_defs split: if_splits)
  with Inr show ?thesis by (simp add: row_size_def)
qed (simp add: row_size_def)

lemma mb_invD:
  assumes "mb_inv m"
  shows "bt_wf (mb_rows m)" "distinct (map fst (mb_rows m))" "hm_wf (mb_idempotency m)"
    "unat (mb_bytes m) = rows_bytes (mb_rows m)"
    "(k, r) \<in> set (mb_rows m) \<Longrightarrow> se_seq r = k \<and> k < mb_next_seq m \<and> hm_get (mb_idempotency m) (ie_idempotency (se_inner r)) = Some k"
    "(t, s) \<in> set (mb_idempotency m) \<Longrightarrow> s < mb_next_seq m"
  using assms by (auto simp: mb_inv_def bt_wf_distinct)

lemma remove_row_rows [simp]: "mb_rows (remove_row k m) = filter (\<lambda>p. fst p \<noteq> k) (mb_rows m)"
proof (cases "map_of (mb_rows m) k")
  case None
  then have "k \<notin> fst ` set (mb_rows m)" by (simp add: map_of_eq_None_iff)
  then have "filter (\<lambda>p. fst p \<noteq> k) (mb_rows m) = mb_rows m"
    by (auto simp: filter_id_conv)
  with None show ?thesis by (simp add: remove_row_def hm_get_def)
qed (simp add: remove_row_def hm_get_def hm_remove_def)

lemma remove_row_same [simp]:
  "mb_next_seq (remove_row k m) = mb_next_seq m" "mb_owner_pk (remove_row k m) = mb_owner_pk m"
  "mb_disabled (remove_row k m) = mb_disabled m"
  by (simp_all add: remove_row_def split: option.splits)

lemma remove_row_bytes:
  assumes "mb_inv m"
  shows "unat (mb_bytes (remove_row k m)) = rows_bytes (mb_rows (remove_row k m))"
  using mb_invD(2,4) [OF assms]
  by (cases "map_of (mb_rows m) k")
    (simp_all add: remove_row_rows [unfolded remove_row_def] remove_row_def hm_get_def hm_remove_def rows_bytes_remove sat_simps)

lemma mb_inv_remove_row:
  assumes "mb_inv m"
  shows "mb_inv (remove_row k m)"
proof (cases "hm_get (mb_rows m) k")
  case None
  then show ?thesis using assms by (simp add: remove_row_def)
next
  case (Some r)
  then have i: "mb_idempotency (remove_row k m) = hm_retain (\<lambda>_ s. s \<noteq> k) (mb_idempotency m)"
    by (simp add: remove_row_def)
  show ?thesis
    using assms remove_row_bytes [OF assms, of k] unfolding mb_inv_def
    by (auto simp: i hm_wf_retain hm_get_retain bt_wf_filter)
qed

lemma mb_inv_fold_remove: "mb_inv m \<Longrightarrow> mb_inv (fold remove_row ks m)"
  by (induction ks arbitrary: m) (simp_all add: mb_inv_remove_row)

lemma fold_remove_same [simp]:
  "mb_rows (fold remove_row ks m) = filter (\<lambda>p. fst p \<notin> set ks) (mb_rows m)"
  "mb_next_seq (fold remove_row ks m) = mb_next_seq m"
  "mb_owner_pk (fold remove_row ks m) = mb_owner_pk m"
  "mb_disabled (fold remove_row ks m) = mb_disabled m"
  by (induction ks arbitrary: m) (auto simp: conj_commute intro!: filter_cong)

lemma filter_key_unique:
  "distinct (map fst xs) \<Longrightarrow> filter (\<lambda>p. fst p \<notin> set (map fst (filter P xs))) xs = filter (\<lambda>p. \<not> P p) xs"
  by (rule filter_cong) (auto simp: distinct_map inj_on_def)


lemma gc_loop_fit:
  assumes "mb_inv m"
  shows "mb_rows (fst (gc_loop mx m ds)) = fit (unat mx) (mb_rows m) \<and> mb_inv (fst (gc_loop mx m ds)) \<and>
    mb_next_seq (fst (gc_loop mx m ds)) = mb_next_seq m \<and> mb_owner_pk (fst (gc_loop mx m ds)) = mb_owner_pk m \<and>
    mb_disabled (fst (gc_loop mx m ds)) = mb_disabled m \<and>
    snd (gc_loop mx m ds) @ map fst (fit (unat mx) (mb_rows m)) = ds @ map fst (mb_rows m)"
  using assms
proof (induction mx m ds rule: gc_loop.induct)
  case (1 mx m ds)
  have bytes: "unat (mb_bytes m) = rows_bytes (mb_rows m)" using "1.prems" by (rule mb_invD)
  show ?case
  proof (cases "mb_bytes m > mx \<and> mb_rows m \<noteq> []")
    case True
    then obtain k r rs where rows: "mb_rows m = (k, r) # rs" by (cases "mb_rows m") auto
    have flt: "filter (\<lambda>p. fst p \<noteq> k) rs = rs"
      using mb_invD(2) [OF "1.prems"] by (auto simp: rows filter_id_conv image_iff)
    have g: "gc_loop mx m ds = gc_loop mx (remove_row k m) (ds @ [k])"
      using True by (subst gc_loop.simps) (simp add: rows)
    have f: "fit (unat mx) (mb_rows m) = fit (unat mx) rs"
      using True bytes by (simp add: rows word_less_nat_alt)
    have ih: "mb_rows (fst (gc_loop mx (remove_row k m) (ds @ [k]))) = fit (unat mx) rs \<and>
        mb_inv (fst (gc_loop mx (remove_row k m) (ds @ [k]))) \<and>
        mb_next_seq (fst (gc_loop mx (remove_row k m) (ds @ [k]))) = mb_next_seq m \<and>
        mb_owner_pk (fst (gc_loop mx (remove_row k m) (ds @ [k]))) = mb_owner_pk m \<and>
        mb_disabled (fst (gc_loop mx (remove_row k m) (ds @ [k]))) = mb_disabled m \<and>
        snd (gc_loop mx (remove_row k m) (ds @ [k])) @ map fst (fit (unat mx) rs) = (ds @ [k]) @ map fst rs"
      using "1.IH" [of "(k, r)" rs k r] True mb_inv_remove_row [OF "1.prems", of k] by (simp add: rows flt)
    show ?thesis unfolding g f using ih by (simp add: rows)
  next
    case False
    then have "gc_loop mx m ds = (m, ds)" by (subst gc_loop.simps) (auto split: list.splits)
    moreover have "fit (unat mx) (mb_rows m) = mb_rows m"
      using False bytes by (cases "mb_rows m") (auto simp: not_less word_le_nat_alt)
    ultimately show ?thesis using "1.prems" by simp
  qed
qed

lemma fit_bytes: "rows_bytes (fit mx rows) \<le> mx"
  by (induction rows) auto

lemma suffix_fit: "suffix (fit mx rows) rows"
  by (induction rows) (auto simp: suffix_Cons)

lemma gc_rows_fit:
  assumes "mb_inv m"
  shows "mb_rows (fst (gc_rows now lim m)) =
      fit (unat (mailbox_max_bytes lim)) (filter (\<lambda>p. \<not> row_expired now (mailbox_max_age_secs lim) (snd p)) (mb_rows m)) \<and>
    mb_inv (fst (gc_rows now lim m)) \<and> mb_next_seq (fst (gc_rows now lim m)) = mb_next_seq m \<and>
    mb_owner_pk (fst (gc_rows now lim m)) = mb_owner_pk m \<and> mb_disabled (fst (gc_rows now lim m)) = mb_disabled m \<and>
    set (snd (gc_rows now lim m)) = fst ` set (mb_rows m) - fst ` set (mb_rows (fst (gc_rows now lim m)))"
proof -
  let ?P = "\<lambda>(s, r). row_expired now (mailbox_max_age_secs lim) r"
  let ?ks = "map fst (filter ?P (mb_rows m))" and ?mx = "mailbox_max_bytes lim"
  let ?m = "fold remove_row ?ks m"
  have d: "distinct (map fst (mb_rows m))" using assms by (rule mb_invD)
  have rows: "mb_rows ?m = filter (\<lambda>p. \<not> row_expired now (mailbox_max_age_secs lim) (snd p)) (mb_rows m)"
    unfolding fold_remove_same filter_key_unique [OF d, of ?P] by (simp add: case_prod_beta)
  have inv: "mb_inv ?m" using assms by (rule mb_inv_fold_remove)
  have gc: "gc_rows now lim m = gc_loop ?mx ?m ?ks" by (simp add: gc_rows_def Let_def)
  note g = gc_loop_fit [OF inv, of ?mx ?ks]
  define F where "F = fit (unat ?mx) (mb_rows ?m)"
  obtain xs where xs: "mb_rows ?m = xs @ F"
    using suffix_fit [of "unat ?mx" "mb_rows ?m"] by (auto simp: suffix_def F_def)
  have "map fst (mb_rows ?m) = map fst xs @ map fst F" unfolding xs by simp
  then have snd: "snd (gc_rows now lim m) = ?ks @ map fst xs"
    using g unfolding gc F_def [symmetric] by simp
  have "distinct (map fst (mb_rows ?m))" using d unfolding fold_remove_same by (simp add: distinct_map_filter)
  then have dis: "fst ` set xs \<inter> fst ` set F = {}" unfolding xs by simp
  have keys: "fst ` set (mb_rows m) = set ?ks \<union> fst ` set (mb_rows ?m)" "set ?ks \<inter> fst ` set (mb_rows ?m) = {}"
    unfolding fold_remove_same by (force, force)
  have "fst ` set (mb_rows ?m) = fst ` set xs \<union> fst ` set F" unfolding xs by (simp add: image_Un)
  then have "set (snd (gc_rows now lim m)) = fst ` set (mb_rows m) - fst ` set F"
    unfolding snd using dis keys by auto
  then show ?thesis using g unfolding rows [symmetric] F_def gc by simp
qed

subsection \<open>Acknowledging and appending\<close>

lemma ack_row_rows [simp]: "mb_rows (ack_row k m) = filter (\<lambda>p. fst p \<noteq> k) (mb_rows m)"
proof (cases "map_of (mb_rows m) k")
  case None
  then have "filter (\<lambda>p. fst p \<noteq> k) (mb_rows m) = mb_rows m"
    by (auto simp: filter_id_conv map_of_eq_None_iff)
  with None show ?thesis by (simp add: ack_row_def hm_get_def)
qed (simp add: ack_row_def hm_get_def hm_remove_def)

lemma ack_row_same [simp]:
  "mb_next_seq (ack_row k m) = mb_next_seq m" "mb_owner_pk (ack_row k m) = mb_owner_pk m"
  "mb_disabled (ack_row k m) = mb_disabled m" "mb_idempotency (ack_row k m) = mb_idempotency m"
  by (simp_all add: ack_row_def split: option.splits)

lemma mb_inv_ack_row:
  assumes "mb_inv m"
  shows "mb_inv (ack_row k m)"
proof -
  have "unat (mb_bytes (ack_row k m)) = rows_bytes (filter (\<lambda>p. fst p \<noteq> k) (mb_rows m))"
    using mb_invD(2,4) [OF assms] ack_row_rows [of k m]
    by (cases "map_of (mb_rows m) k") (simp_all add: ack_row_def hm_get_def rows_bytes_remove sat_simps)
  then show ?thesis
    using assms by (auto simp: mb_inv_def bt_wf_filter)
qed

lemma fold_ack_row:
  "mb_inv m \<Longrightarrow> mb_inv (fold ack_row ks m)"
  "mb_rows (fold ack_row ks m) = filter (\<lambda>p. fst p \<notin> set ks) (mb_rows m)"
  "mb_next_seq (fold ack_row ks m) = mb_next_seq m"
  "mb_disabled (fold ack_row ks m) = mb_disabled m"
  "mb_owner_pk (fold ack_row ks m) = mb_owner_pk m"
  "mb_idempotency (fold ack_row ks m) = mb_idempotency m"
  by (induction ks arbitrary: m) (auto simp: mb_inv_ack_row conj_commute intro!: filter_cong)

lemma bt_insert_last:
  "(\<And>p. p \<in> set rows \<Longrightarrow> fst p < k) \<Longrightarrow> bt_insert k v rows = rows @ [(k, v)]"
proof (induction rows)
  case (Cons p rows)
  then have "fst p < k" by simp
  with Cons show ?case by (cases p) auto
qed simp

lemma rows_bytes_append [simp]: "rows_bytes (xs @ ys) = rows_bytes xs + rows_bytes ys"
  by (simp add: rows_bytes_def)

text \<open>The mailbox \<open>append_inner\<close> writes, before garbage collection.\<close>

definition appended :: "StoredEnvelope \<Rightarrow> u64 \<Rightarrow> Mailbox \<Rightarrow> Mailbox" where
  "appended row sz m = m\<lparr>mb_next_seq := mb_next_seq m + 1,
     mb_idempotency := hm_insert (ie_idempotency (se_inner row)) (mb_next_seq m) (mb_idempotency m),
     mb_bytes := mb_bytes m + sz,
     mb_rows := bt_insert (mb_next_seq m) row (mb_rows m)\<rparr>"

lemma appended_rows: "mb_inv m \<Longrightarrow> mb_rows (appended row sz m) = mb_rows m @ [(mb_next_seq m, row)]"
  by (auto simp: appended_def intro!: bt_insert_last dest: mb_invD)

lemma mb_inv_appended:
  assumes "mb_inv m" "\<not> mb_disabled m" "hm_get (mb_idempotency m) (ie_idempotency (se_inner row)) = None"
    and "mb_next_seq m \<noteq> - 1" "unat (mb_bytes m) + 16781312 < 2 ^ 64"
    and "se_seq row = mb_next_seq m" "sz = row_size row"
  shows "mb_inv (appended row sz m)"
proof -
  have rows: "mb_rows (appended row sz m) = mb_rows m @ [(mb_next_seq m, row)]"
    using assms(1) by (rule appended_rows)
  have next_lt: "mb_next_seq m < mb_next_seq m + 1"
    using assms(4) by (rule unat_succ)
  have "bt_wf (mb_rows (appended row sz m))"
    using bt.wf_ins [OF mb_invD(1) [OF assms(1)]] by (simp add: appended_def)
  moreover have "unat (mb_bytes (appended row sz m)) = unat (mb_bytes m) + unat (row_size row)"
    using assms(5,7) unat_row_size [of row] by (simp add: appended_def unat_word_ariths)
  then have "unat (mb_bytes (appended row sz m)) = rows_bytes (mb_rows (appended row sz m))"
    using mb_invD(4) [OF assms(1)] by (simp add: rows)
  moreover have "hm_wf (mb_idempotency (appended row sz m))"
    using hm.wf_ins [OF mb_invD(3) [OF assms(1)]] by (simp add: appended_def)
  moreover have "snd p < mb_next_seq m + 1" if "p \<in> set (mb_idempotency (appended row sz m))" for p
  proof -
    have "p = (ie_idempotency (se_inner row), mb_next_seq m) \<or> p \<in> set (mb_idempotency m)"
      using that hm.entries_ins [OF mb_invD(3) [OF assms(1)]] by (auto simp: appended_def)
    then show ?thesis
      using mb_invD(6) [OF assms(1), of "fst p" "snd p"] next_lt by (auto intro: less_trans)
  qed
  moreover have "se_seq (snd p) = fst p \<and> fst p < mb_next_seq m + 1 \<and>
      hm_get (mb_idempotency (appended row sz m)) (ie_idempotency (se_inner (snd p))) = Some (fst p)"
    if p: "p \<in> set (mb_rows (appended row sz m))" for p
  proof (cases "p = (mb_next_seq m, row)")
    case True
    then show ?thesis
      using hm.get_ins [OF mb_invD(3) [OF assms(1)]] assms(6) next_lt by (simp add: appended_def)
  next
    case False
    then have "(fst p, snd p) \<in> set (mb_rows m)" using p rows by auto
    from mb_invD(5) [OF assms(1) this] show ?thesis
      using assms(3) hm.get_ins [OF mb_invD(3) [OF assms(1)]] less_trans [OF _ next_lt]
      by (auto simp: appended_def)
  qed
  moreover have "mb_next_seq (appended row sz m) = mb_next_seq m + 1" "\<not> mb_disabled (appended row sz m)"
    using assms(2) by (simp_all add: appended_def)
  ultimately show ?thesis unfolding mb_inv_def by simp
qed

end
