(* ===== verification/Home_Inv.thy ===== *)
theory Home_Inv
  imports Mailbox_Log
begin

text \<open>
  The invariant of the home server and that every operation keeps it: the maps are
  well formed, every mailbox satisfies the log invariant and its byte limit, every token and
  every prekey queue belongs to an enabled mailbox, no contact capability exceeds its rate
  count, and the window of seen encapsulated keys is bounded.
\<close>

section \<open>The invariant\<close>

definition enabled :: "HomeServer \<Rightarrow> key \<Rightarrow> bool" where
  "enabled h i \<longleftrightarrow> (case hm_get (hs_mailboxes h) i of Some m \<Rightarrow> \<not> mb_disabled m | None \<Rightarrow> False)"

definition token_ok :: "HomeServer \<Rightarrow> TokenKind \<Rightarrow> bool" where
  "token_ok h k \<longleftrightarrow> enabled h (tk_mailbox k) \<and>
     (case k of Contact mailbox grace start cnt \<Rightarrow> cnt \<le> RATE_PER_MIN | Share mailbox e b r \<Rightarrow> True)"

definition box_ok :: "bool \<Rightarrow> nat \<Rightarrow> Limits \<Rightarrow> Mailbox \<Rightarrow> bool" where
  "box_ok full n lim m \<longleftrightarrow> mb_inv m \<and> (full \<longrightarrow> unat (mb_bytes m) \<le> unat (mailbox_max_bytes lim)) \<and> unat (mb_next_seq m) \<le> n + 1"

text \<open>
  The byte limit leaves room for one more envelope in a \<open>u64\<close>; the limit the server runs with
  is 500 MiB. The bound \<open>n\<close> counts the operations so far.
\<close>

definition limits_ok :: "Limits \<Rightarrow> bool" where
  "limits_ok lim \<longleftrightarrow> unat (mailbox_max_bytes lim) + 16781312 < 2 ^ 64"

text \<open>
  Mailboxes in \<open>S\<close> are awaiting garbage collection and may exceed their byte limit; between
  operations \<open>S\<close> is empty.
\<close>

definition home_invg :: "key set \<Rightarrow> nat \<Rightarrow> HomeServer \<Rightarrow> bool" where
  "home_invg S n h \<longleftrightarrow>
     hm_wf (hs_mailboxes h) \<and> hm_wf (hs_directory h) \<and> hm_wf (hs_prekeys h) \<and> hm_wf (hs_memberships h) \<and>
     hm_wf (hs_seen_enc h) \<and> length (hs_seen_enc h) \<le> HPKE_ENC_WINDOW \<and> hm_wf (hs_owner_nonces h) \<and>
     limits_ok (hs_limits h) \<and>
     (\<forall>i m. hm_get (hs_mailboxes h) i = Some m \<longrightarrow> box_ok (i \<notin> S) n (hs_limits h) m) \<and>
     (\<forall>p \<in> set (hs_tokens h). token_ok h (snd p)) \<and>
     (\<forall>i q. hm_get (hs_prekeys h) i = Some q \<longrightarrow> enabled h i)"

definition home_inv :: "nat \<Rightarrow> HomeServer \<Rightarrow> bool" where
  "home_inv n h \<longleftrightarrow> home_invg {} n h"

section \<open>Lemmas\<close>

subsection \<open>Frame\<close>

lemma token_ok_simps [simp]:
  "token_ok h (Share mailbox e b r) \<longleftrightarrow> enabled h mailbox"
  "token_ok h (Contact mailbox g s c) \<longleftrightarrow> enabled h mailbox \<and> c \<le> RATE_PER_MIN"
  by (simp_all add: token_ok_def)

lemma enabled_frame [simp]:
  "enabled (h\<lparr>hs_dirty := d\<rparr>) = enabled h" "enabled (h\<lparr>hs_tokens := ts\<rparr>) = enabled h"
  "enabled (h\<lparr>hs_prekeys := pk\<rparr>) = enabled h" "enabled (h\<lparr>hs_directory := dir\<rparr>) = enabled h"
  "enabled (h\<lparr>hs_memberships := ms\<rparr>) = enabled h" "enabled (h\<lparr>hs_seen_enc := se\<rparr>) = enabled h"
  "enabled (h\<lparr>hs_owner_nonces := on\<rparr>) = enabled h"
  by (simp_all add: enabled_def fun_eq_iff)

lemma token_ok_frame [simp]:
  "token_ok (h\<lparr>hs_dirty := d\<rparr>) = token_ok h" "token_ok (h\<lparr>hs_tokens := ts\<rparr>) = token_ok h"
  "token_ok (h\<lparr>hs_prekeys := pk\<rparr>) = token_ok h" "token_ok (h\<lparr>hs_directory := dir\<rparr>) = token_ok h"
  "token_ok (h\<lparr>hs_memberships := ms\<rparr>) = token_ok h" "token_ok (h\<lparr>hs_seen_enc := se\<rparr>) = token_ok h"
  "token_ok (h\<lparr>hs_owner_nonces := on\<rparr>) = token_ok h"
  by (simp_all add: token_ok_def fun_eq_iff)

lemma home_inv_frame [simp]:
  "home_invg S n (h\<lparr>hs_dirty := d\<rparr>) = home_invg S n h"
  "home_invg S n (h\<lparr>hs_now := t\<rparr>) = home_invg S n h"
  "home_invg S n (h\<lparr>hs_bundle := b\<rparr>) = home_invg S n h"
  "home_invg S n (h\<lparr>hs_outbound := ob\<rparr>) = home_invg S n h"
  "home_invg S n (h\<lparr>hs_peers := ps\<rparr>) = home_invg S n h"
  "home_invg S n (h\<lparr>hs_last_token_sweep := t\<rparr>) = home_invg S n h"
  by (simp_all add: home_invg_def enabled_def token_ok_def)

lemma home_inv_mark [simp]:
  "home_invg S n (mark_identity i h) = home_invg S n h" "home_invg S n (mark_token t h) = home_invg S n h"
  "home_invg S n (mark_prekeys i h) = home_invg S n h" "home_invg S n (mark_memberships i h) = home_invg S n h"
  "home_invg S n (mark_peer_dirty i h) = home_invg S n h" "home_invg S n (mark_outbound_dirty h) = home_invg S n h"
  by (simp_all add: mark_defs)

lemma box_ok_mono: "box_ok b n lim m \<Longrightarrow> n \<le> n' \<Longrightarrow> box_ok b n' lim m"
  by (simp add: box_ok_def)

lemma box_ok_weaken: "box_ok b n lim m \<Longrightarrow> (b' \<Longrightarrow> b) \<Longrightarrow> box_ok b' n lim m"
  by (auto simp: box_ok_def)

lemma home_inv_mono: "home_invg S n h \<Longrightarrow> n \<le> n' \<Longrightarrow> home_invg S n' h"
  unfolding home_invg_def using box_ok_mono by blast

lemma home_invD:
  assumes "home_invg S n h"
  shows "hm_wf (hs_mailboxes h)" "limits_ok (hs_limits h)" "hm_wf (hs_prekeys h)" "hm_wf (hs_owner_nonces h)"
    "hm_wf (hs_directory h)" "hm_wf (hs_memberships h)" "hm_wf (hs_seen_enc h)"
    "length (hs_seen_enc h) \<le> HPKE_ENC_WINDOW"
    "hm_get (hs_mailboxes h) i = Some m \<Longrightarrow> box_ok (i \<notin> S) n (hs_limits h) m"
    "p \<in> set (hs_tokens h) \<Longrightarrow> token_ok h (snd p)"
    "hm_get (hs_prekeys h) i = Some q \<Longrightarrow> enabled h i"
  using assms by (auto simp: home_invg_def)

subsection \<open>Changing one part\<close>

lemma inv_tokens:
  "home_invg S n h \<Longrightarrow> (\<And>p. p \<in> set ts \<Longrightarrow> token_ok h (snd p)) \<Longrightarrow> home_invg S n (h\<lparr>hs_tokens := ts\<rparr>)"
  by (simp add: home_invg_def)

lemma inv_prekeys:
  "home_invg S n h \<Longrightarrow> hm_wf pk \<Longrightarrow> (\<And>i q. hm_get pk i = Some q \<Longrightarrow> enabled h i) \<Longrightarrow> home_invg S n (h\<lparr>hs_prekeys := pk\<rparr>)"
  by (simp add: home_invg_def)

lemma inv_directory: "home_invg S n h \<Longrightarrow> hm_wf d \<Longrightarrow> home_invg S n (h\<lparr>hs_directory := d\<rparr>)"
  by (simp add: home_invg_def)

lemma inv_memberships: "home_invg S n h \<Longrightarrow> hm_wf d \<Longrightarrow> home_invg S n (h\<lparr>hs_memberships := d\<rparr>)"
  by (simp add: home_invg_def)

lemma inv_nonces: "home_invg S n h \<Longrightarrow> hm_wf d \<Longrightarrow> home_invg S n (h\<lparr>hs_owner_nonces := d\<rparr>)"
  by (simp add: home_invg_def)

lemma inv_seen_enc:
  "home_invg S n h \<Longrightarrow> hm_wf d \<Longrightarrow> length d \<le> HPKE_ENC_WINDOW \<Longrightarrow> home_invg S n (h\<lparr>hs_seen_enc := d\<rparr>)"
  by (simp add: home_invg_def)

lemma hm_get_put_mailbox:
  "hm_wf (hs_mailboxes h) \<Longrightarrow>
   hm_get (hs_mailboxes (put_mailbox i m h)) j = (if j = i then Some m else hm_get (hs_mailboxes h) j)"
  by (simp add: put_mailbox_def hm.get_ins)

lemma put_mailbox_same [simp]:
  "hs_tokens (put_mailbox i m h) = hs_tokens h" "hs_prekeys (put_mailbox i m h) = hs_prekeys h"
  "hs_limits (put_mailbox i m h) = hs_limits h" "hs_now (put_mailbox i m h) = hs_now h"
  "hs_directory (put_mailbox i m h) = hs_directory h" "hs_memberships (put_mailbox i m h) = hs_memberships h"
  "hs_seen_enc (put_mailbox i m h) = hs_seen_enc h" "hs_owner_nonces (put_mailbox i m h) = hs_owner_nonces h"
  "hs_dirty (put_mailbox i m h) = hs_dirty h" "hs_hpke (put_mailbox i m h) = hs_hpke h"
  "hs_peers (put_mailbox i m h) = hs_peers h" "hs_outbound (put_mailbox i m h) = hs_outbound h"
  by (simp_all add: put_mailbox_def)

text \<open>Writing a mailbox that is enabled, or was and still is disabled, or is new.\<close>

lemma inv_put_mailbox:
  assumes "home_invg S n h" "box_ok (i \<notin> S') n (hs_limits h) m" "enabled h i \<Longrightarrow> \<not> mb_disabled m" "S - {i} \<subseteq> S'"
  shows "home_invg S' n (put_mailbox i m h)"
proof -
  have get: "hm_get (hs_mailboxes (put_mailbox i m h)) j = (if j = i then Some m else hm_get (hs_mailboxes h) j)" for j
    using assms(1) by (simp add: hm_get_put_mailbox home_invD)
  have en: "enabled (put_mailbox i m h) j" if "enabled h j" for j
    using that assms(3) by (auto simp: enabled_def get)
  have "token_ok (put_mailbox i m h) k" if "token_ok h k" for k
    using that en by (auto simp: token_ok_def)
  moreover have "hm_wf (hs_mailboxes (put_mailbox i m h))"
    using assms(1) by (simp add: put_mailbox_def hm.wf_ins home_invD)
  moreover have "box_ok (j \<notin> S') n (hs_limits h) mj" if "hm_get (hs_mailboxes h) j = Some mj" "j \<noteq> i" for j mj
    using assms(4) that(2) by (intro box_ok_weaken [OF home_invD(9) [OF assms(1) that(1)]]) auto
  ultimately show ?thesis
    using assms(1,2) en unfolding home_invg_def by (auto simp: get)
qed

lemma token_loop_in: "token_loop want found ts = Some k \<Longrightarrow> found = Some k \<or> (want, k) \<in> set ts"
  by (induction want found ts rule: token_loop.induct) (auto split: if_splits)

lemma token_in: "token h t = Some k \<Longrightarrow> (t, k) \<in> set (hs_tokens h)"
  using token_loop_in by (force simp: token_def)

lemma token_Some_ok: "home_invg S n h \<Longrightarrow> token h t = Some k \<Longrightarrow> token_ok h k"
  using token_in home_invD(10) by force

lemma inv_set_token:
  assumes "home_invg S n h" "token_ok h kind"
  shows "home_invg S n (set_token h t kind)"
proof (cases "token_idx h t")
  case (Some i)
  have "token_ok h (snd p)" if "p \<in> set ((hs_tokens h)[i := (k, kind)])" for p k
  proof -
    have "p = (k, kind) \<or> p \<in> set (hs_tokens h)"
      using that set_update_subset_insert [of "hs_tokens h" i "(k, kind)"] by auto
    then show ?thesis using assms home_invD(10) [OF assms(1), of p] by auto
  qed
  then show ?thesis
    using assms(1) by (auto simp: set_token_def Some intro: inv_tokens)
qed (simp add: set_token_def assms)

lemma set_token_same [simp]:
  "hs_mailboxes (set_token h t k) = hs_mailboxes h" "hs_prekeys (set_token h t k) = hs_prekeys h"
  "hs_limits (set_token h t k) = hs_limits h" "hs_now (set_token h t k) = hs_now h"
  "enabled (set_token h t k) = enabled h"
  by (simp_all add: set_token_def enabled_def fun_eq_iff split: option.splits)

lemma mark_same [simp]:
  "hs_mailboxes (mark_identity i h) = hs_mailboxes h" "hs_mailboxes (mark_token i h) = hs_mailboxes h"
  "hs_mailboxes (mark_prekeys i h) = hs_mailboxes h" "hs_mailboxes (mark_memberships i h) = hs_mailboxes h"
  "hs_tokens (mark_identity i h) = hs_tokens h" "hs_tokens (mark_token i h) = hs_tokens h"
  "hs_tokens (mark_prekeys i h) = hs_tokens h" "hs_tokens (mark_memberships i h) = hs_tokens h"
  "hs_prekeys (mark_identity i h) = hs_prekeys h" "hs_prekeys (mark_token i h) = hs_prekeys h"
  "hs_prekeys (mark_prekeys i h) = hs_prekeys h"
  "hs_limits (mark_identity i h) = hs_limits h" "hs_limits (mark_token i h) = hs_limits h"
  "hs_now (mark_identity i h) = hs_now h" "hs_now (mark_token i h) = hs_now h"
  "hs_directory (mark_identity i h) = hs_directory h" "hs_memberships (mark_identity i h) = hs_memberships h"
  "hs_owner_nonces (mark_identity i h) = hs_owner_nonces h" "hs_owner_nonces (mark_token i h) = hs_owner_nonces h"
  "hs_hpke (mark_identity i h) = hs_hpke h"
  by (simp_all add: mark_defs)

lemma enabled_mark [simp]:
  "enabled (mark_identity i h) = enabled h" "enabled (mark_token i h) = enabled h"
  "enabled (mark_prekeys i h) = enabled h" "enabled (mark_memberships i h) = enabled h"
  by (simp_all add: enabled_def fun_eq_iff)

lemma require_mailbox_iff [simp]: "require_mailbox h i = Ok u \<longleftrightarrow> enabled h i"
  by (auto simp: require_mailbox_def enabled_def split: option.splits)

subsection \<open>Operations keep the invariant\<close>

lemma gc_box_ok:
  "box_ok b n lim m \<Longrightarrow> box_ok True n lim (fst (gc_rows now lim m))"
  using gc_rows_fit [of m now lim] fit_bytes mb_invD(4) by (simp add: box_ok_def)

lemma inv_gc_mailbox: "home_invg S n h \<Longrightarrow> home_invg (S - {owner}) n (gc_mailbox owner h)"
proof (cases "hm_get (hs_mailboxes h) owner")
  case (Some m)
  assume inv: "home_invg S n h"
  have m: "box_ok (owner \<notin> S) n (hs_limits h) m" using home_invD(9) [OF inv Some] .
  obtain m' ds where g: "gc_rows (hs_now h) (hs_limits h) m = (m', ds)" by (cases "gc_rows (hs_now h) (hs_limits h) m")
  have "box_ok True n (hs_limits h) m'" "mb_disabled m' = mb_disabled m"
    using gc_box_ok [OF m, of "hs_now h"] gc_rows_fit [of m "hs_now h" "hs_limits h"] m by (simp_all add: g box_ok_def)
  then have "home_invg (S - {owner}) n (put_mailbox owner m' h)"
    using inv Some by (intro inv_put_mailbox [OF inv]) (auto simp: enabled_def)
  then show ?thesis by (simp add: gc_mailbox_def Some g Let_def)
next
  case None
  assume inv: "home_invg S n h"
  have "box_ok (i \<notin> S - {owner}) n (hs_limits h) m" if "hm_get (hs_mailboxes h) i = Some m" for i m
    using None that by (intro box_ok_weaken [OF home_invD(9) [OF inv that]]) auto
  with inv have "home_invg (S - {owner}) n h" unfolding home_invg_def by auto
  with None show ?thesis by (simp add: gc_mailbox_def)
qed

lemma inv_disable_mailbox:
  assumes "home_invg S n h"
  shows "home_invg S n (disable_mailbox owner h)"
proof -
  define m' where "m' m = (fold remove_row (map fst (mb_rows m)) m)\<lparr>mb_disabled := True\<rparr>" for m
  define bs where "bs = (case hm_get (hs_mailboxes h) owner of None \<Rightarrow> hs_mailboxes h | Some m \<Rightarrow> hm_insert owner (m' m) (hs_mailboxes h))"
  have m': "box_ok b n lim (m' m)" if "box_ok b n lim m" for b lim m
  proof -
    have rows: "mb_rows (m' m) = []" unfolding m'_def by (simp add: filter_empty_conv)
    have "mb_inv (fold remove_row (map fst (mb_rows m)) m)"
      using that by (intro mb_inv_fold_remove) (simp add: box_ok_def)
    then have "mb_inv (m' m)" using rows by (simp add: mb_inv_def m'_def)
    moreover have "unat (mb_bytes (m' m)) = 0" using mb_invD(4) [OF calculation] rows by simp
    ultimately show ?thesis using that by (simp add: box_ok_def m'_def)
  qed
  have get: "hm_get bs i = (if i = owner then map_option m' (hm_get (hs_mailboxes h) owner) else hm_get (hs_mailboxes h) i)" for i
    using home_invD(1) [OF assms] by (auto simp: bs_def hm.get_ins split: option.splits)
  have dis: "disable_mailbox owner h = h\<lparr>hs_mailboxes := bs, hs_prekeys := hm_remove owner (hs_prekeys h),
      hs_tokens := filter (\<lambda>(tok, kind). tk_mailbox kind \<noteq> owner) (hs_tokens h),
      hs_dirty := hs_dirty (disable_mailbox owner h)\<rparr>"
    by (simp add: disable_mailbox_def Let_def bs_def m'_def put_mailbox_def split: option.splits)
  have en: "enabled (h\<lparr>hs_mailboxes := bs\<rparr>) i \<longleftrightarrow> i \<noteq> owner \<and> enabled h i" for i
    by (auto simp: enabled_def get m'_def split: option.splits)
  have "hm_wf bs" using home_invD(1) [OF assms] by (auto simp: bs_def hm.wf_ins split: option.splits)
  then have "home_invg S n (h\<lparr>hs_mailboxes := bs, hs_prekeys := hm_remove owner (hs_prekeys h),
      hs_tokens := filter (\<lambda>(tok, kind). tk_mailbox kind \<noteq> owner) (hs_tokens h)\<rparr>)"
    using assms en m' unfolding home_invg_def
    by (auto simp: get hm.wf_rem hm.get_rem token_ok_def enabled_def split: if_splits)
  then show ?thesis by (subst dis) simp
qed

lemma box_ok_new: "box_ok b n lim \<lparr>mb_owner_pk = pk, mb_next_seq = 1, mb_rows = [], mb_idempotency = [], mb_bytes = 0, mb_disabled = False\<rparr>"
  by (simp add: box_ok_def mb_inv_def bt_wf_def hm_wf_def)

lemma inv_register: "home_invg S n h \<Longrightarrow> home_invg S n (snd (register i pk h))"
  by (auto simp: register_def box_ok_new intro: inv_put_mailbox)

lemma inv_append_token:
  "home_invg S n h \<Longrightarrow> token_ok h k \<Longrightarrow> home_invg S n (h\<lparr>hs_tokens := hs_tokens h @ [(t, k)]\<rparr>)"
  by (rule inv_tokens) (auto dest: home_invD(10))

lemmas inv_sbind = snd_sbind [where P = "home_invg _ _"]
lemmas inv_sread = snd_sread [where P = "home_invg _ _"]

lemma inv_if: "home_invg S n (snd a) \<Longrightarrow> home_invg S n (snd b) \<Longrightarrow> home_invg S n (snd (if c then a else b))"
  by simp

lemma inv_register_share_token: "home_invg S n h \<Longrightarrow> home_invg S n (snd (register_share_token owner t ttl h))"
  unfolding register_share_token_def
  by (rule inv_sread) (auto simp: Let_def token_ok_def intro: inv_append_token)

lemma inv_dir_insert: "home_invg S n h \<Longrightarrow> home_invg S n (h\<lparr>hs_directory := hm_insert i row (hs_directory h)\<rparr>)"
  by (intro inv_directory hm.wf_ins home_invD(5))

lemma inv_register_from_card: "home_invg S n h \<Longrightarrow> home_invg S n (snd (register_from_card C cc h))"
  unfolding register_from_card_def Let_def
proof (rule inv_sread, assumption, rule inv_if, simp, rule inv_sbind)
  assume inv: "home_invg S n h"
  then show "home_invg S n (snd (register (cc_identity_id C cc) (cc_identity_public cc) h))"
    by (rule inv_register)
  then show "home_invg S n (snd (sbind (register_share_token (cc_identity_id C cc) (cc_share_token cc) None
      (snd (register (cc_identity_id C cc) (cc_identity_public cc) h)
        \<lparr>hs_directory := hm_insert (cc_identity_id C cc)
         \<lparr>di_identity_public = cc_identity_public cc, di_revocation_public = cc_revocation_public cc,
          di_binding = cc_binding cc, di_binding_seq = hb_seq (cc_binding cc), di_revocation = None\<rparr>
         (hs_directory (snd (register (cc_identity_id C cc) (cc_identity_public cc) h)))\<rparr>)) (\<lambda>_ h. (Ok (cc_identity_id C cc), h))))"
    by (intro inv_sbind inv_register_share_token inv_dir_insert) (simp_all add: inv_register_share_token inv_dir_insert)
qed

lemma inv_observe_binding: "home_invg S n h \<Longrightarrow> home_invg S n (snd (observe_binding C i b h))"
  unfolding observe_binding_def Let_def
  by (intro inv_sread inv_if) (simp_all add: inv_disable_mailbox inv_dir_insert)

lemma inv_note_group_membership: "home_invg S n h \<Longrightarrow> home_invg S n (note_group_membership i g h)"
  by (simp add: note_group_membership_def Let_def inv_memberships hm.wf_ins home_invD)

lemma inv_ingest_revocation: "home_invg S n h \<Longrightarrow> home_invg S n (snd (ingest_revocation C stmt h))"
  unfolding ingest_revocation_def Let_def
proof (intro inv_sread inv_if)
  fix row
  assume "home_invg S n h"
  then have "home_invg S n (disable_mailbox (rs_identity_id stmt) (mark_identity (rs_identity_id stmt)
      (h\<lparr>hs_directory := hm_insert (rs_identity_id stmt) (row\<lparr>di_revocation := Some stmt\<rparr>) (hs_directory h)\<rparr>)))"
      (is "home_invg S n ?h")
    by (simp add: inv_disable_mailbox inv_dir_insert)
  then have "home_invg S n (?h\<lparr>hs_memberships := hm_remove (rs_identity_id stmt) (hs_memberships ?h)\<rparr>)"
    by (intro inv_memberships hm.wf_rem home_invD(6))
  then show "home_invg S n (snd (Ok (case hm_get (hs_memberships ?h) (rs_identity_id stmt) of Some l \<Rightarrow> l | None \<Rightarrow> []),
      if hm_get (hs_memberships ?h) (rs_identity_id stmt) \<noteq> None
      then mark_memberships (rs_identity_id stmt) (?h\<lparr>hs_memberships := hm_remove (rs_identity_id stmt) (hs_memberships ?h)\<rparr>)
      else ?h\<lparr>hs_memberships := hm_remove (rs_identity_id stmt) (hs_memberships ?h)\<rparr>))"
    by simp
qed simp_all

lemma drop_tokens_filter:
  "snd (drop_tokens_exact dead h) = h\<lparr>hs_tokens := filter (\<lambda>(tok, kind). tok \<notin> set dead) (hs_tokens h),
     hs_dirty := hs_dirty (snd (drop_tokens_exact dead h))\<rparr>"
  by (cases h) (simp add: drop_tokens_exact_def)

lemma inv_drop_tokens: "home_invg S n h \<Longrightarrow> home_invg S n (snd (drop_tokens_exact dead h))"
  by (subst drop_tokens_filter) (auto intro!: inv_tokens dest: home_invD(10))

lemma drop_tokens_same [simp]:
  "hs_mailboxes (snd (drop_tokens_exact dead h)) = hs_mailboxes h"
  "hs_now (snd (drop_tokens_exact dead h)) = hs_now h"
  by (simp_all add: drop_tokens_exact_def)

lemma inv_sweeps:
  "home_invg S n h \<Longrightarrow> home_invg S n (snd (sweep_dead_tokens_for owner h))"
  "home_invg S n h \<Longrightarrow> home_invg S n (snd (sweep_dead_tokens h))"
  by (simp_all add: sweep_dead_tokens_for_def sweep_dead_tokens_def Let_def inv_drop_tokens)

lemma enabled_cong: "hs_mailboxes h = hs_mailboxes h' \<Longrightarrow> enabled h = enabled h'"
  by (simp add: enabled_def fun_eq_iff)

lemma enabled_sweep [simp]: "enabled (snd (sweep_dead_tokens_for owner h)) = enabled h"
  by (rule enabled_cong) (simp add: sweep_dead_tokens_for_def Let_def)

lemma inv_mint_share_token: "home_invg S n h \<Longrightarrow> home_invg S n (snd (mint_share_token r owner ttl h))"
  unfolding mint_share_token_def by (rule inv_sbind) (simp_all add: inv_register_share_token)

lemma inv_mint_contact: "home_invg S n h \<Longrightarrow> home_invg S n (snd (mint_contact_capability r owner h))"
  unfolding mint_contact_capability_def Let_def
  by (rule inv_sread) (auto simp: token_ok_def intro!: inv_append_token inv_sweeps)

lemma inv_rotate_contact: "home_invg S n h \<Longrightarrow> home_invg S n (snd (rotate_contact r owner old confirm h))"
  unfolding rotate_contact_def Let_def
proof (rule inv_sbind)
  fix x
  assume "home_invg S n h"
  then have inv: "home_invg S n (snd (mint_contact_capability r owner h))" (is "home_invg S n ?h") by (rule inv_mint_contact)
  show "home_invg S n (snd (if confirm then
      case token ?h old of
        Some (Contact mailbox grace_until start cnt) \<Rightarrow>
          if mailbox = owner then (Ok x, mark_token old (set_token ?h old (Contact mailbox (Some (hs_now ?h + CONTACT_GRACE_SECS)) start cnt)))
          else (Ok x, ?h)
      | _ \<Rightarrow> (Ok x, ?h) else (Ok x, ?h)))"
    using inv by (auto split: option.splits TokenKind.splits intro!: inv_set_token dest: token_Some_ok [OF inv])
qed (simp add: inv_mint_contact)

lemma inv_publish_prekey: "home_invg S n h \<Longrightarrow> home_invg S n (snd (publish_prekey owner blob h))"
  unfolding publish_prekey_def Let_def
  by (rule inv_sread) (auto simp: hm.wf_ins hm.get_ins home_invD split: if_splits intro!: inv_prekeys dest: home_invD(11))

lemma inv_fetch_prekey:
  assumes "home_invg S n h"
  shows "home_invg S n (snd (fetch_prekey t h))"
proof -
  have "home_invg S n (h\<lparr>hs_prekeys := hm_insert i q' (hs_prekeys h)\<rparr>)" if "hm_get (hs_prekeys h) i = Some q" for i q q'
    using assms that by (intro inv_prekeys hm.wf_ins) (auto simp: hm.get_ins home_invD split: if_splits dest: home_invD(11))
  then show ?thesis
    using assms by (auto simp: fetch_prekey_def Let_def split: option.splits TokenKind.splits list.splits
        intro!: inv_set_token dest: token_Some_ok [OF assms])
qed

lemma inv_authorize_append: "home_invg S n h \<Longrightarrow> home_invg S n (snd (authorize_append t h))"
  by (auto simp: authorize_append_def Let_def split: option.splits TokenKind.splits
      intro!: inv_set_token dest: token_Some_ok)

lemma authorize_append_same:
  "hs_mailboxes (snd (authorize_append t h)) = hs_mailboxes h" "hs_now (snd (authorize_append t h)) = hs_now h"
  "hs_limits (snd (authorize_append t h)) = hs_limits h"
  by (auto simp: authorize_append_def Let_def split: option.splits TokenKind.splits)

lemma authorize_append_enabled:
  assumes "home_invg S n h" "authorize_append t h = (Ok i, h')"
  shows "enabled h i"
proof -
  obtain k where k: "token h t = Some k" "tk_mailbox k = i"
    using assms(2) by (auto simp: authorize_append_def Let_def split: option.splits TokenKind.splits if_splits)
  then show ?thesis using token_Some_ok [OF assms(1) k(1)] by (simp add: token_ok_def)
qed

lemma inv_burn_if_share: "home_invg S n h \<Longrightarrow> home_invg S n (burn_if_share t h)"
  by (auto simp: burn_if_share_def split: option.splits TokenKind.splits intro!: inv_set_token dest: token_Some_ok)

text \<open>The state \<open>append_inner\<close> reaches when it stores a new row in mailbox \<open>i\<close>.\<close>

definition stored :: "InnerEnvelope \<Rightarrow> key \<Rightarrow> Mailbox \<Rightarrow> HomeServer \<Rightarrow> StoredEnvelope" where
  "stored inner i m h = \<lparr>se_seq = mb_next_seq m, se_received_at = hs_now h,
     se_expires_at = envelope_expiry (hs_now h) (ie_ttl inner) (mailbox_max_age_secs (hs_limits h)), se_inner = inner\<rparr>"

definition append_at :: "InnerEnvelope \<Rightarrow> key \<Rightarrow> Mailbox \<Rightarrow> HomeServer \<Rightarrow> HomeServer" where
  "append_at inner i m h =
     (let h1 = put_mailbox i (appended (stored inner i m h) (row_size (stored inner i m h)) m) h;
          h2 = mark_identity i (h1\<lparr>hs_dirty := (hs_dirty h1)\<lparr>hd_mailbox_new := hd_mailbox_new (hs_dirty h1) @ [(i, mb_next_seq m)]\<rparr>\<rparr>)
      in gc_mailbox i (burn_if_share (ie_capability inner) h2))"

lemma append_inner_cases:
  "append_inner inner h =
     (case authorize_append (ie_capability inner) h of
        (Err e, h') \<Rightarrow> (Err e, h')
      | (Ok i, h') \<Rightarrow>
          (case hm_get (hs_mailboxes h) i of
             None \<Rightarrow> (Err Denied, h')
           | Some m \<Rightarrow>
               (case hm_get (mb_idempotency m) (ie_idempotency inner) of
                  Some seq \<Rightarrow> (Ok seq, h')
                | None \<Rightarrow>
                    (case encode_padded inner of
                       Err e \<Rightarrow> (Err (Wire e), h')
                     | Ok padded \<Rightarrow> (Ok (mb_next_seq m), append_at inner i m h')))))"
proof -
  have same: "hs_mailboxes h' = hs_mailboxes h" if "authorize_append t h = (r, h')" for t r h'
    using authorize_append_same(1) [of t h] that by simp
  show ?thesis
    by (auto simp: append_inner_def append_at_def stored_def appended_def row_size_def Let_def sbind_def
        same split: prod.splits sum.splits option.splits)
qed

lemma burn_same [simp]:
  "hs_mailboxes (burn_if_share t h) = hs_mailboxes h" "hs_now (burn_if_share t h) = hs_now h"
  "hs_limits (burn_if_share t h) = hs_limits h"
  by (simp_all add: burn_if_share_def split: option.splits TokenKind.splits)

lemma gc_same [simp]:
  "hs_tokens (gc_mailbox i h) = hs_tokens h" "hs_now (gc_mailbox i h) = hs_now h"
  "hs_limits (gc_mailbox i h) = hs_limits h" "hs_owner_nonces (gc_mailbox i h) = hs_owner_nonces h"
  "hs_prekeys (gc_mailbox i h) = hs_prekeys h" "hs_directory (gc_mailbox i h) = hs_directory h"
  "hs_seen_enc (gc_mailbox i h) = hs_seen_enc h"
  by (auto simp: gc_mailbox_def Let_def mark_defs put_mailbox_def split: option.splits prod.splits)

lemma inv_append_at:
  assumes "home_invg {} n h" "hm_get (hs_mailboxes h) i = Some m" "\<not> mb_disabled m"
    and "hm_get (mb_idempotency m) (ie_idempotency inner) = None" "n + 2 < 2 ^ 64"
  shows "home_invg {} (Suc n) (append_at inner i m h)"
proof -
  let ?row = "stored inner i m h"
  have m: "box_ok True n (hs_limits h) m" using home_invD(9) [OF assms(1,2)] by simp
  then have "unat (mb_next_seq m) \<le> n + 1" by (simp add: box_ok_def)
  then have nx: "mb_next_seq m \<noteq> - 1" using assms(5) by (auto simp: unat_max64)
  have b: "unat (mb_bytes m) + 16781312 < 2 ^ 64"
    using m home_invD(2) [OF assms(1)] by (simp add: box_ok_def limits_ok_def)
  have "mb_inv (appended ?row (row_size ?row) m)"
    using m nx b assms(3,4) by (intro mb_inv_appended) (simp_all add: box_ok_def stored_def)
  moreover have "mb_next_seq (appended ?row (row_size ?row) m) = mb_next_seq m + 1"
      "mb_disabled (appended ?row (row_size ?row) m) = mb_disabled m"
    by (simp_all add: appended_def)
  ultimately have "box_ok (i \<notin> {i}) (Suc n) (hs_limits h) (appended ?row (row_size ?row) m)"
    using \<open>unat (mb_next_seq m) \<le> n + 1\<close> unat_succ [OF nx] by (simp add: box_ok_def)
  moreover have "home_invg {} (Suc n) h" using assms(1) by (rule home_inv_mono) simp
  ultimately have "home_invg {i} (Suc n) (put_mailbox i (appended ?row (row_size ?row) m) h)"
    using assms(3) by (intro inv_put_mailbox) (auto simp: appended_def)
  then have "home_invg ({i} - {i}) (Suc n) (append_at inner i m h)"
    unfolding append_at_def Let_def by (intro inv_gc_mailbox inv_burn_if_share) simp
  then show ?thesis by simp
qed

lemma inv_append_inner:
  assumes "home_invg {} n h" "n + 2 < 2 ^ 64"
  shows "home_invg {} (Suc n) (snd (append_inner inner h))"
proof -
  obtain r h' where a: "authorize_append (ie_capability inner) h = (r, h')" by fastforce
  have inv: "home_invg {} n h'" using inv_authorize_append [OF assms(1)] a by (metis snd_conv)
  then have inv': "home_invg {} (Suc n) h'" by (rule home_inv_mono) simp
  have same: "hs_mailboxes h' = hs_mailboxes h" using authorize_append_same(1) a by (metis snd_conv)
  have "\<not> mb_disabled m" if "r = Ok i" "hm_get (hs_mailboxes h) i = Some m" for i m
    using authorize_append_enabled [OF assms(1), of "ie_capability inner" i h'] that a by (simp add: enabled_def)
  then show ?thesis
    using inv inv' inv_append_at [OF inv _ _ _ assms(2)]
    by (auto simp: append_inner_cases a same split: sum.splits option.splits)
qed

lemma length_hm_insert: "length (hm_insert k v m) \<le> Suc (length m)"
  unfolding hm_insert_def by (induction m) auto

lemma inv_remember_enc:
  assumes "home_invg S n h"
  shows "home_invg S n (remember_enc enc seq h)"
proof -
  have empty: "hm_wf (hm_insert enc seq [])" "length (hm_insert enc seq []) \<le> HPKE_ENC_WINDOW"
    by (simp_all add: hm_wf_def hm_insert_def HPKE_ENC_WINDOW_def)
  have grow: "length (hm_insert enc seq (hs_seen_enc h)) \<le> HPKE_ENC_WINDOW" if "\<not> HPKE_ENC_WINDOW \<le> length (hs_seen_enc h)"
    using length_hm_insert [of enc seq "hs_seen_enc h"] that by linarith
  show ?thesis
    using assms empty grow hm.wf_ins [OF home_invD(7) [OF assms]]
    by (auto simp: remember_enc_def Let_def intro: inv_seen_enc)
qed

lemma inv_ingest:
  assumes "home_invg {} n h" "n + 2 < 2 ^ 64"
  shows "home_invg {} (Suc n) (snd (ingest C outer h))"
proof -
  have inv: "home_invg {} (Suc n) h" using assms(1) by (rule home_inv_mono) simp
  show ?thesis
    unfolding ingest_def
  proof (rule inv_sread [OF inv])
    fix enc
    show "home_invg {} (Suc n) (snd (case hm_get (hs_seen_enc h) enc of
        Some seq \<Rightarrow> (Ok seq, h)
      | None \<Rightarrow> sread (map_err Wire (open_outer C (hs_hpke h) outer)) h (\<lambda>inner.
          sbind (append_inner inner h) (\<lambda>seq h. (Ok seq, remember_enc enc seq h)))))"
      using inv inv_append_inner [OF assms]
      by (auto split: option.splits intro!: inv_sread inv_sbind inv_remember_enc)
  qed
qed

lemma inv_gc_owner_nonces: "home_invg S n h \<Longrightarrow> home_invg S n (gc_owner_nonces now h)"
  by (simp add: gc_owner_nonces_def inv_nonces hm_wf_retain home_invD)

lemma inv_check_owner: "home_invg S n h \<Longrightarrow> home_invg S n (snd (check_owner C owner auth now ex h))"
  unfolding check_owner_def Let_def
  by (intro inv_sread inv_if) (auto intro: inv_gc_owner_nonces inv_nonces hm.wf_ins home_invD(4))

lemma inv_fetch: "home_invg {} n h \<Longrightarrow> home_invg {} n (snd (fetch C owner auth now h))"
  unfolding fetch_def Let_def
  by (intro inv_sbind inv_if inv_sread)
    (use inv_check_owner inv_gc_mailbox [where S = "{}"] in auto)

lemma inv_ack: "home_invg {} n h \<Longrightarrow> home_invg {} n (snd (ack C owner auth now h))"
  unfolding ack_def Let_def
proof (rule inv_sbind, simp add: inv_check_owner, rule inv_sread, simp add: inv_check_owner, rule inv_if)
  fix m :: Mailbox
  assume "home_invg {} n h"
  then have inv: "home_invg {} n (snd (check_owner C owner auth now (scope_body (hs_server_id C h) (str_bytes ''POST'') (str_bytes ''/v1/mailbox/ack'')) h))"
    (is "home_invg {} n ?h") by (rule inv_check_owner)
  assume "ok_or (hm_get (hs_mailboxes ?h) owner) OwnerAuth = Ok m"
  then have m: "hm_get (hs_mailboxes ?h) owner = Some m" by simp
  let ?m = "fold ack_row (filter (\<lambda>s. s \<le> mo_cursor auth) (map fst (mb_rows m))) m"
  have bm: "box_ok True n (hs_limits ?h) m" using home_invD(9) [OF inv m] by simp
  have le: "rows_bytes (filter P rows) \<le> rows_bytes rows" for P rows by (induction rows) auto
  have "mb_inv ?m" using bm by (simp add: box_ok_def fold_ack_row)
  moreover from this have "unat (mb_bytes ?m) \<le> unat (mb_bytes m)"
    using bm le [of _ "mb_rows m"] by (simp add: box_ok_def mb_invD(4) fold_ack_row)
  ultimately have "box_ok True n (hs_limits ?h) ?m" using bm by (simp add: box_ok_def fold_ack_row)
  then have "home_invg {} n (put_mailbox owner ?m ?h)"
    using m by (intro inv_put_mailbox [OF inv]) (auto simp: enabled_def fold_ack_row)
  then show "home_invg {} n (snd (Ok (), mark_identity owner (put_mailbox owner ?m ?h
      \<lparr>hs_dirty := ack_upto owner (mo_cursor auth) (hs_dirty (put_mailbox owner ?m ?h))\<rparr>)))"
    by simp
qed (simp add: inv_check_owner)

lemma inv_enqueue:
  assumes "home_invg {} n h" "n + 2 < 2 ^ 64"
  shows "home_invg {} (Suc n) (snd (enqueue C outer h))"
proof -
  have inv: "home_invg {} (Suc n) h" using assms(1) by (rule home_inv_mono) simp
  show ?thesis
    unfolding enqueue_def
    by (intro inv_if inv_sbind) (use inv inv_ingest [OF assms] in simp_all)
qed

lemma inv_enqueue_from_owner:
  assumes "home_invg {} n h" "n + 2 < 2 ^ 64"
  shows "home_invg {} (Suc n) (snd (enqueue_from_owner C owner auth now outer h))"
  unfolding enqueue_from_owner_def Let_def
  by (intro inv_sbind inv_sread inv_enqueue assms inv_check_owner home_inv_mono [OF inv_check_owner [OF assms(1)]]) simp_all

lemma inv_defer_outbound: "home_invg S n h \<Longrightarrow> home_invg S n (defer_outbound t h)"
  by (simp add: defer_outbound_def Let_def)

end
