(* ===== verification/Home_Props.thy ===== *)
theory Home_Props
  imports Home_Inv
begin

text \<open>
  What the home server guarantees: reachable states satisfy the invariant, and the functional
  behaviour of appending, fetching, acknowledging, tokens, prekeys, revocation, migration and
  sweeping.
\<close>

section \<open>Steps of the server\<close>

text \<open>
  One step is one call of an operation, or the clock being set. Randomness and the caller's
  arguments are arbitrary.
\<close>

inductive home_step :: "crypto \<Rightarrow> HomeServer \<Rightarrow> HomeServer \<Rightarrow> bool" for C where
  clock: "home_step C h (h\<lparr>hs_now := t\<rparr>)"
| rebind: "rebind_host C host port h = Some h' \<Longrightarrow> home_step C h h'"
| register: "home_step C h (snd (register i pk h))"
| register_card: "home_step C h (snd (register_from_card C cc h))"
| observe: "home_step C h (snd (observe_binding C i b h))"
| membership: "home_step C h (note_group_membership i g h)"
| revoke: "home_step C h (snd (ingest_revocation C stmt h))"
| share: "home_step C h (snd (mint_share_token r owner ttl h))"
| share_given: "home_step C h (snd (register_share_token owner t ttl h))"
| contact: "home_step C h (snd (mint_contact_capability r owner h))"
| rotate: "home_step C h (snd (rotate_contact r owner old confirm h))"
| publish: "home_step C h (snd (publish_prekey owner blob h))"
| prekey: "home_step C h (snd (fetch_prekey t h))"
| append: "home_step C h (snd (append_inner inner h))"
| ingest: "home_step C h (snd (ingest C outer h))"
| check: "home_step C h (snd (check_owner C owner auth now scope h))"
| fetch: "home_step C h (snd (fetch C owner auth now h))"
| ack: "home_step C h (snd (ack C owner auth now h))"
| enqueue: "home_step C h (snd (enqueue C outer h))"
| enqueue_owner: "home_step C h (snd (enqueue_from_owner C owner auth now outer h))"
| defer_rows: "home_step C h (defer_outbound t h)"
| sweep: "home_step C h (record_token_sweep (snd (sweep_dead_tokens h)))"
| sweep_for: "home_step C h (snd (sweep_dead_tokens_for owner h))"

inductive home_run :: "crypto \<Rightarrow> nat \<Rightarrow> HomeServer \<Rightarrow> HomeServer \<Rightarrow> bool" for C where
  start: "home_run C 0 h h"
| step: "home_run C n h h' \<Longrightarrow> home_step C h' h'' \<Longrightarrow> home_run C (Suc n) h h''"

inductive_cases home_step_cases: "home_step C h h'"
inductive_cases home_run_Suc: "home_run C (Suc n) h h'"

section \<open>Lemmas\<close>

lemma own_bundle_ok: "\<exists>b. own_bundle C kp sk host port = Ok b"
  by (simp add: own_bundle_def sb_sign_def kp_server_id_def sign_total)

lemma from_identity_some: "\<exists>h. from_identity C kp sk host port = Some h"
  using own_bundle_ok [of C kp sk host port] by (auto simp: from_identity_def)

lemma inv_from_identity: "from_identity C kp sk host port = Some h \<Longrightarrow> home_invg {} 0 h"
  by (auto simp: from_identity_def home_invg_def hm_wf_def hm_get_def limits_ok_def default_limits_def
      MAILBOX_MAX_BYTES_def split: sum.splits)

lemma inv_home_step:
  assumes "home_step C h h'" "home_invg {} n h" "n + 2 < 2 ^ 64"
  shows "home_invg {} (Suc n) h'"
proof -
  have mono: "home_invg {} (Suc n) h''" if "home_invg {} n h''" for h''
    using that by (rule home_inv_mono) simp
  show ?thesis
    using assms(1)
  proof cases
    case (rebind host port)
    then show ?thesis using assms(2) by (auto simp: rebind_host_def intro: mono split: sum.splits)
  qed (simp_all add: assms(2,3) mono inv_register inv_register_from_card inv_observe_binding
      inv_note_group_membership inv_ingest_revocation inv_mint_share_token inv_register_share_token
      inv_mint_contact inv_rotate_contact inv_publish_prekey inv_fetch_prekey inv_append_inner [OF assms(2,3)] inv_ingest [OF assms(2,3)]
      inv_check_owner inv_fetch inv_ack inv_enqueue [OF assms(2,3)] inv_enqueue_from_owner [OF assms(2,3)] inv_defer_outbound inv_sweeps record_token_sweep_def)
qed

lemma inv_home_run:
  "home_run C n h h' \<Longrightarrow> home_invg {} k h \<Longrightarrow> n + k + 2 < 2 ^ 64 \<Longrightarrow> home_invg {} (n + k) h'"
proof (induction rule: home_run.induct)
  case (step n h h' h'')
  then have "home_invg {} (n + k) h'" by simp
  then show ?case using inv_home_step [OF step.hyps(2)] step.prems by simp
qed simp

subsection \<open>Token lookup\<close>

lemma token_loop_snoc:
  "token_loop w f (ts @ [(k, v)]) = (if k = w then Some v else token_loop w f ts)"
  by (induction w f ts rule: token_loop.induct) auto

lemma token_idx_loop_snoc:
  "token_idx_loop w i x (ts @ [(k, v)]) = (if k = w then Some (i + length ts) else token_idx_loop w i x ts)"
  by (induction w i x ts rule: token_idx_loop.induct) auto

lemma token_append [simp]:
  "token (h\<lparr>hs_tokens := hs_tokens h @ [(t, k)]\<rparr>) t' = (if t' = t then Some k else token h t')"
  by (auto simp: token_def token_loop_snoc)

lemma token_idx_spec:
  "case token_idx_loop t 0 None ts of
     None \<Rightarrow> token_loop t None ts = None
   | Some i \<Rightarrow> i < length ts \<and> ts ! i = (t, the (token_loop t None ts)) \<and> token_loop t None ts \<noteq> None \<and>
       (\<forall>kind t'. token_loop t' None (ts[i := (t, kind)]) = (if t' = t then Some kind else token_loop t' None ts))"
proof (induction ts rule: rev_induct)
  case (snoc p ts)
  obtain k v where p: "p = (k, v)" by fastforce
  show ?case
  proof (cases "k = t")
    case True
    then show ?thesis by (auto simp: p token_idx_loop_snoc token_loop_snoc)
  next
    case False
    then show ?thesis
      using snoc by (auto simp: p token_idx_loop_snoc token_loop_snoc nth_append list_update_append
          split: option.splits)
  qed
qed simp

lemma token_set_token:
  "token (set_token h t kind) t' = (if t' = t \<and> token h t \<noteq> None then Some kind else token h t')"
  using token_idx_spec [of t "hs_tokens h"]
  by (auto simp: set_token_def token_def token_idx_def split: option.splits)

lemma token_mark [simp]:
  "token (mark_identity i h) = token h" "token (mark_token i h) = token h" "token (mark_prekeys i h) = token h"
  "token (put_mailbox i m h) = token h" "token (gc_mailbox i h) = token h" "token (h\<lparr>hs_dirty := d\<rparr>) = token h"
  "token (h\<lparr>hs_prekeys := pk\<rparr>) = token h" "token (h\<lparr>hs_directory := dir\<rparr>) = token h"
  by (simp_all add: token_def fun_eq_iff mark_defs)

subsection \<open>Appending\<close>

lemma hm_get_gc_mailbox:
  assumes "hm_wf (hs_mailboxes h)"
  shows "hm_get (hs_mailboxes (gc_mailbox i h)) j =
    (if j = i then map_option (\<lambda>m. fst (gc_rows (hs_now h) (hs_limits h) m)) (hm_get (hs_mailboxes h) i)
     else hm_get (hs_mailboxes h) j)"
  using assms
  by (auto simp: gc_mailbox_def Let_def hm_get_put_mailbox put_mailbox_def hm.get_ins split: option.splits prod.splits)

lemma mailboxes_append_at:
  assumes "hm_wf (hs_mailboxes h)"
  shows "hm_get (hs_mailboxes (append_at inner i m h)) j =
    (if j = i then Some (fst (gc_rows (hs_now h) (hs_limits h) (appended (stored inner i m h) (row_size (stored inner i m h)) m)))
     else hm_get (hs_mailboxes h) j)"
  using assms by (simp add: append_at_def Let_def hm_get_gc_mailbox hm_get_put_mailbox put_mailbox_def hm.wf_ins hm.get_ins)

lemma authorize_append_token:
  assumes "authorize_append t h = (Ok i, h')"
  shows "\<exists>k. token h t = Some k \<and> tk_mailbox k = i"
  using assms by (auto simp: authorize_append_def Let_def split: option.splits TokenKind.splits if_splits)

lemma authorize_share:
  "token h t = Some (Share i e b r) \<Longrightarrow>
   authorize_append t h = (if \<not> b \<and> hs_now h < e \<and> \<not> mailbox_disabled h i then Ok i else Err Denied, h)"
  by (simp add: authorize_append_def Let_def)

lemma token_append_at:
  "token h (ie_capability inner) = Some (Share i' e False r) \<Longrightarrow>
   token (append_at inner i m h) (ie_capability inner) = Some (Share i' e True r)"
  by (simp add: append_at_def Let_def burn_if_share_def token_set_token)

subsection \<open>Rate limit\<close>

text \<open>\<open>k\<close> attempts to append under a token while the clock stands, and how many succeed.\<close>

fun attempts :: "key \<Rightarrow> nat \<Rightarrow> HomeServer \<Rightarrow> nat" where
  "attempts t 0 h = 0"
| "attempts t (Suc k) h =
     (case authorize_append t h of (r, h') \<Rightarrow> (if is_ok r then 1 else 0) + attempts t k h')"

lemma authorize_contact:
  assumes "token h t = Some (Contact i g s c)"
  defines "c0 \<equiv> (if saturating_sub (hs_now h) s \<ge> 60 then 0 else c)"
    and "s0 \<equiv> (if saturating_sub (hs_now h) s \<ge> 60 then hs_now h else s)"
  obtains r h' where "authorize_append t h = (r, h')" "hs_now h' = hs_now h"
    "is_ok r \<Longrightarrow> c0 < RATE_PER_MIN \<and> token h' t = Some (Contact i g s0 (c0 + 1))"
    "\<not> is_ok r \<Longrightarrow> token h' t = Some (Contact i g s c) \<or> token h' t = Some (Contact i g s0 c0) \<or>
       c0 < RATE_PER_MIN \<and> token h' t = Some (Contact i g s0 (c0 + 1))"
proof -
  obtain r h' where a: "authorize_append t h = (r, h')" by fastforce
  have "hs_now h' = hs_now h" using authorize_append_same(2) [of t h] by (simp add: a)
  moreover have "is_ok r \<Longrightarrow> c0 < RATE_PER_MIN \<and> token h' t = Some (Contact i g s0 (c0 + 1))"
    using a assms by (auto simp: authorize_append_def Let_def token_set_token split: if_splits option.splits)
  moreover have "\<not> is_ok r \<Longrightarrow> token h' t = Some (Contact i g s c) \<or> token h' t = Some (Contact i g s0 c0) \<or>
       c0 < RATE_PER_MIN \<and> token h' t = Some (Contact i g s0 (c0 + 1))"
    using a assms by (auto simp: authorize_append_def Let_def token_set_token split: if_splits option.splits)
  ultimately show ?thesis using a that by blast
qed

lemma attempts_window:
  assumes "token h t = Some (Contact i g s c)" "c \<le> RATE_PER_MIN"
  shows "attempts t k h \<le> RATE_PER_MIN - (if saturating_sub (hs_now h) s \<ge> 60 then 0 else c)"
  using assms
proof (induction k arbitrary: h s c)
  case (Suc k)
  let ?c = "if saturating_sub (hs_now h) s \<ge> 60 then 0 else c"
    and ?s = "if saturating_sub (hs_now h) s \<ge> 60 then hs_now h else s"
  obtain r h' where a: "authorize_append t h = (r, h')" "hs_now h' = hs_now h"
    "is_ok r \<Longrightarrow> ?c < RATE_PER_MIN \<and> token h' t = Some (Contact i g ?s (?c + 1))"
    "\<not> is_ok r \<Longrightarrow> token h' t = Some (Contact i g s c) \<or> token h' t = Some (Contact i g ?s ?c) \<or>
       ?c < RATE_PER_MIN \<and> token h' t = Some (Contact i g ?s (?c + 1))"
    by (rule authorize_contact [OF Suc.prems(1)]) auto
  have c: "?c \<le> RATE_PER_MIN" using Suc.prems(2) by simp
  have s: "\<not> saturating_sub (hs_now h') ?s \<ge> 60" using a(2) by simp
  have next1: "attempts t k h' \<le> RATE_PER_MIN - (?c + 1)"
    if "?c < RATE_PER_MIN" "token h' t = Some (Contact i g ?s (?c + 1))"
    using Suc.IH [OF that(2)] that(1) s by simp
  have next0: "attempts t k h' \<le> RATE_PER_MIN - ?c" if "token h' t = Some (Contact i g ?s ?c)"
    using Suc.IH [OF that c] s by simp
  have same: "attempts t k h' \<le> RATE_PER_MIN - ?c" if "token h' t = Some (Contact i g s c)"
    using Suc.IH [OF that Suc.prems(2)] a(2) by simp
  show ?case
  proof (cases "is_ok r")
    case True
    then show ?thesis using a(1) a(3) [OF True] next1 by (auto split: if_splits)
  next
    case False
    then show ?thesis using a(1) a(4) [OF False] next1 next0 same by auto
  qed
qed simp

subsection \<open>Owner requests\<close>

text \<open>
  What may happen between two owner requests: further owner checks with a clock that does not
  go back, and anything that leaves the remembered nonces alone.
\<close>

inductive nonce_run :: "crypto \<Rightarrow> u64 \<Rightarrow> HomeServer \<Rightarrow> u64 \<Rightarrow> HomeServer \<Rightarrow> bool" for C where
  start: "nonce_run C t h t h"
| check: "nonce_run C t h t1 h1 \<Longrightarrow> t1 \<le> t2 \<Longrightarrow> nonce_run C t h t2 (snd (check_owner C owner auth t2 ex h1))"
| other: "nonce_run C t h t1 h1 \<Longrightarrow> hs_owner_nonces h2 = hs_owner_nonces h1 \<Longrightarrow> nonce_run C t h t1 h2"

definition stale :: "u64 \<Rightarrow> u64 \<Rightarrow> bool" where
  "stale now ts \<longleftrightarrow> saturating_sub now ts > MAX_AGE_SECS"

lemma stale_mono: "stale t ts \<Longrightarrow> t \<le> t' \<Longrightarrow> stale t' ts"
  by (simp add: stale_def word_less_nat_alt word_le_nat_alt sat_simps)

lemma hm_get_gc_nonces:
  "hm_wf (hs_owner_nonces h) \<Longrightarrow> hm_get (hs_owner_nonces (gc_owner_nonces now h)) k =
     (case hm_get (hs_owner_nonces h) k of Some ts \<Rightarrow> if stale now ts then None else Some ts | None \<Rightarrow> None)"
  by (auto simp: gc_owner_nonces_def hm_get_retain stale_def not_less split: option.splits dest: leD)

lemma check_owner_nonces:
  assumes "hm_wf (hs_owner_nonces h)"
  shows "hm_wf (hs_owner_nonces (snd (check_owner C owner auth now ex h)))"
    and "hm_get (hs_owner_nonces h) k = Some ts \<Longrightarrow>
      hm_get (hs_owner_nonces (snd (check_owner C owner auth now ex h))) k = Some ts \<or> stale now ts"
proof -
  have gc: "hm_wf (hs_owner_nonces (gc_owner_nonces now h))"
    using assms by (simp add: gc_owner_nonces_def hm_wf_retain)
  show "hm_wf (hs_owner_nonces (snd (check_owner C owner auth now ex h)))"
    using assms gc by (auto simp: check_owner_def Let_def hm.wf_ins sread_def split: sum.splits)
  show "hm_get (hs_owner_nonces (snd (check_owner C owner auth now ex h))) k = Some ts \<or> stale now ts"
    if "hm_get (hs_owner_nonces h) k = Some ts"
    using that gc hm_get_gc_nonces [OF assms, of now k]
    by (auto simp: check_owner_def Let_def sread_def hm.get_ins split: sum.splits if_splits)
qed

lemma nonce_run_keeps:
  assumes "nonce_run C t h t' h'" "hm_wf (hs_owner_nonces h)" "hm_get (hs_owner_nonces h) k = Some ts"
  shows "hm_wf (hs_owner_nonces h') \<and> t \<le> t' \<and> (hm_get (hs_owner_nonces h') k = Some ts \<or> stale t' ts)"
  using assms
proof (induction rule: nonce_run.induct)
  case (check t h t1 h1 t2 owner auth ex)
  then show ?case using check_owner_nonces [of h1] stale_mono [of t1 ts t2] by fastforce
qed auto

lemma check_owner_Ok:
  assumes "check_owner C owner auth now ex h = (Ok u, h')"
  shows "\<not> stale now (mo_ts auth)" "hs_owner_nonces h' = hm_insert (mo_nonce auth) (mo_ts auth) (hs_owner_nonces (gc_owner_nonces now h))"
    "hs_mailboxes h' = hs_mailboxes h" "hs_now h' = hs_now h" "hs_limits h' = hs_limits h" "enabled h owner"
    "hs_dirty h' = hs_dirty h"
  using assms
  by (auto simp: check_owner_def Let_def sread_def mo_verify_def stale_def gc_owner_nonces_def enabled_def
      split: sum.splits if_splits option.splits)

lemma check_owner_stale: "stale now (mo_ts auth) \<Longrightarrow> fst (check_owner C owner auth now ex h) = Err OwnerAuth"
  by (auto simp: check_owner_def sread_def mo_verify_def stale_def Let_def split: sum.splits option.splits)

lemma check_owner_known:
  assumes "hm_wf (hs_owner_nonces h)" "hm_get (hs_owner_nonces h) (mo_nonce auth) = Some (mo_ts auth)"
  shows "fst (check_owner C owner auth now ex h) = Err OwnerAuth"
proof (cases "stale now (mo_ts auth)")
  case False
  then have "hm_get (hs_owner_nonces (gc_owner_nonces now h)) (mo_nonce auth) = Some (mo_ts auth)"
    using assms by (simp add: hm_get_gc_nonces)
  then show ?thesis
    by (auto simp: check_owner_def sread_def Let_def split: sum.splits option.splits)
qed (rule check_owner_stale)

subsection \<open>Sweeps\<close>

definition best_of :: "(key, nat) hashmap \<Rightarrow> (key, u64) hashmap \<Rightarrow> key \<Rightarrow> (nat \<times> u64) option" where
  "best_of surv best o' = (case (hm_get surv o', hm_get best o') of (Some i, Some s) \<Rightarrow> Some (i, s) | _ \<Rightarrow> None)"

lemma survivors_newest:
  assumes "hm_wf surv" "hm_wf best" "\<And>k. hm_get surv k = None \<longleftrightarrow> hm_get best k = None"
    and "\<And>k j. hm_get surv k = Some j \<Longrightarrow> j < i"
  shows "hm_get (survivors_loop i surv best ts) ow = map_option fst (newest_loop ow i (best_of surv best ow) ts)"
  using assms
proof (induction i surv best ts rule: survivors_loop.induct)
  case (1 i surv best)
  then show ?case by (auto simp: best_of_def split: option.splits)
next
  case (2 i surv best k mb g s c ts)
  let ?keep = "case hm_get best mb of None \<Rightarrow> True | Some s' \<Rightarrow> s > s' \<or> s = s'"
  have new: "(if mb \<noteq> ow then best_of surv best ow else case best_of surv best ow of
      None \<Rightarrow> Some (i, s) | Some (bi, bs) \<Rightarrow> if s > bs \<or> (s = bs \<and> i > bi) then Some (i, s) else best_of surv best ow) =
    (if ?keep then best_of (hm_insert mb i surv) (hm_insert mb s best) ow else best_of surv best ow)"
    using "2.prems" by (auto simp: best_of_def hm.get_ins split: option.splits)
  show ?case
  proof (cases ?keep)
    case True
    have "hm_get (survivors_loop (Suc i) (hm_insert mb i surv) (hm_insert mb s best) ts) ow =
        map_option fst (newest_loop ow (Suc i) (best_of (hm_insert mb i surv) (hm_insert mb s best) ow) ts)"
      using "2.prems" True by (intro "2.IH"(1)) (auto simp: hm.get_ins hm.wf_ins less_Suc_eq split: if_splits)
    with True show ?thesis by (simp add: new)
  next
    case False
    have "hm_get (survivors_loop (Suc i) surv best ts) ow = map_option fst (newest_loop ow (Suc i) (best_of surv best ow) ts)"
      using "2.prems" False by (intro "2.IH"(2)) (auto simp: less_Suc_eq)
    with False show ?thesis by (simp add: new)
  qed
next
  case (3 i surv best k mb e b r ts)
  then show ?case by (auto simp: less_Suc_eq)
qed

lemma survivors_eq: "hm_get (survivors_loop 0 [] [] (hs_tokens h)) ow = newest_contact_idx_for h ow"
  using survivors_newest [of "[]" "[]" 0 "hs_tokens h" ow]
  by (simp add: newest_contact_idx_for_def best_of_def hm_get_def hm_wf_def)

lemma filter_enumerate:
  assumes "distinct (map fst ts)"
  shows "filter (\<lambda>(t, k). t \<notin> set (List.map_filter (\<lambda>(i, (t, k)). if D i k then Some t else None) (enumerate 0 ts))) ts =
    map snd (filter (\<lambda>(i, (t, k)). \<not> D i k) (enumerate 0 ts))"
proof -
  let ?e = "enumerate 0 ts"
  let ?dead = "set (List.map_filter (\<lambda>(i, (t, k)). if D i k then Some t else None) ?e)"
  have uniq: "i' = i \<and> k' = k" if "(i, (t, k)) \<in> set ?e" "(i', (t, k')) \<in> set ?e" for i t k i' k'
  proof -
    have "i < length ts" "i' < length ts" "ts ! i = (t, k)" "ts ! i' = (t, k')"
      using that by (auto simp: in_set_enumerate_eq)
    then show ?thesis using nth_eq_iff_index_eq [OF assms, of i i'] by auto
  qed
  have dead: "t \<in> ?dead \<longleftrightarrow> D i k" if "(i, (t, k)) \<in> set ?e" for i t k
  proof
    assume "t \<in> ?dead"
    then obtain i' k' where "(i', (t, k')) \<in> set ?e" "D i' k'"
      by (auto simp: List.map_filter_def split: if_splits)
    then show "D i k" using uniq [OF that] by auto
  next
    assume "D i k"
    then show "t \<in> ?dead"
      using that unfolding List.map_filter_def by (auto intro!: rev_image_eqI [of "(i, (t, k))"])
  qed
  have "filter (\<lambda>(t, k). t \<notin> ?dead) ts = filter (\<lambda>(t, k). t \<notin> ?dead) (map snd ?e)"
    by (simp add: enumerate_eq_zip)
  also have "\<dots> = map snd (filter (\<lambda>(i, (t, k)). t \<notin> ?dead) ?e)"
    by (simp only: filter_map o_def) (rule arg_cong [where f = "map snd"], rule filter_cong, auto)
  also have "filter (\<lambda>(i, (t, k)). t \<notin> ?dead) ?e = filter (\<lambda>(i, (t, k)). \<not> D i k) ?e"
    using dead by (intro filter_cong) auto
  finally show ?thesis .
qed

definition entry_dead :: "HomeServer \<Rightarrow> nat \<Rightarrow> TokenKind \<Rightarrow> bool" where
  "entry_dead h i k \<longleftrightarrow> \<not> enabled h (tk_mailbox k) \<or>
     token_dead (hs_now h) (newest_contact_idx_for h (tk_mailbox k)) i k"

lemma drop_tokens_tokens:
  "hs_tokens (snd (drop_tokens_exact dead h)) = filter (\<lambda>(tok, kind). tok \<notin> set dead) (hs_tokens h)"
  by (auto simp: drop_tokens_exact_def)

lemma disabled_set:
  "hm_wf (hs_mailboxes h) \<Longrightarrow>
   hm_get (hs_mailboxes h) ow = None \<or> ow \<in> set (List.map_filter (\<lambda>(i, m). if mb_disabled m then Some i else None) (hs_mailboxes h)) \<longleftrightarrow>
   \<not> enabled h ow"
  using hm.get_in_entries [of "hs_mailboxes h" ow]
  by (auto simp: enabled_def List.map_filter_def image_iff split: option.splits if_splits) (metis option.inject)

lemma map_filter_if_or:
  "List.map_filter (\<lambda>(i, (t, k)). if A i k then Some t else if B i k then Some t else None) xs =
   List.map_filter (\<lambda>(i, (t, k)). if A i k \<or> B i k then Some t else None) xs"
  by (rule arg_cong [where f = "\<lambda>f. List.map_filter f xs"]) auto

lemma sweep_all_tokens:
  assumes "hm_wf (hs_mailboxes h)" "distinct (map fst (hs_tokens h))"
  shows "hs_tokens (snd (sweep_dead_tokens h)) =
    map snd (filter (\<lambda>(i, (t, k)). \<not> entry_dead h i k) (enumerate 0 (hs_tokens h)))"
  unfolding sweep_dead_tokens_def Let_def drop_tokens_tokens survivors_eq disabled_set [OF assms(1)] map_filter_if_or
  by (subst filter_enumerate [OF assms(2)]) (simp add: entry_dead_def)

lemma sweep_for_tokens:
  assumes "distinct (map fst (hs_tokens h))"
  shows "hs_tokens (snd (sweep_dead_tokens_for ow h)) =
    map snd (filter (\<lambda>(i, (t, k)). \<not> (tk_mailbox k = ow \<and> entry_dead h i k)) (enumerate 0 (hs_tokens h)))"
proof -
  have "List.map_filter (\<lambda>(i, (tok, kind)).
            if \<not> token_belongs_to kind ow then None
            else if (case hm_get (hs_mailboxes h) ow of None \<Rightarrow> True | Some m \<Rightarrow> mb_disabled m) then Some tok
            else if token_dead (hs_now h) (newest_contact_idx_for h ow) i kind then Some tok else None)
            (enumerate 0 (hs_tokens h)) =
        List.map_filter (\<lambda>(i, (t, k)). if tk_mailbox k = ow \<and> entry_dead h i k then Some t else None) (enumerate 0 (hs_tokens h))"
    by (rule arg_cong [where f = "\<lambda>f. List.map_filter f _"])
      (auto simp: fun_eq_iff token_belongs_to_def entry_dead_def enabled_def split: option.splits)
  then show ?thesis
    unfolding sweep_dead_tokens_for_def Let_def drop_tokens_tokens by (simp only: filter_enumerate [OF assms])
qed

subsection \<open>Disabling a mailbox\<close>

lemma disable_fields:
  "hs_directory (disable_mailbox i h) = hs_directory h" "hs_memberships (disable_mailbox i h) = hs_memberships h"
  "hs_tokens (disable_mailbox i h) = filter (\<lambda>(tok, kind). tk_mailbox kind \<noteq> i) (hs_tokens h)"
  "hs_prekeys (disable_mailbox i h) = hm_remove i (hs_prekeys h)"
  by (simp_all add: disable_mailbox_def Let_def split: option.splits)

lemma disable_get:
  assumes "hm_wf (hs_mailboxes h)"
  shows "hm_get (hs_mailboxes (disable_mailbox i h)) j =
    (if j = i then map_option (\<lambda>m. (fold remove_row (map fst (mb_rows m)) m)\<lparr>mb_disabled := True\<rparr>) (hm_get (hs_mailboxes h) i)
     else hm_get (hs_mailboxes h) j)"
  using assms by (auto simp: disable_mailbox_def Let_def hm_get_put_mailbox put_mailbox_def hm.get_ins split: option.splits)

lemma disable_effects:
  assumes "hm_wf (hs_mailboxes h)" "hm_wf (hs_prekeys h)"
  shows "\<not> enabled (disable_mailbox i h) i"
    "hm_get (hs_mailboxes (disable_mailbox i h)) i = Some m \<Longrightarrow> mb_rows m = [] \<and> mb_disabled m"
    "p \<in> set (hs_tokens (disable_mailbox i h)) \<Longrightarrow> tk_mailbox (snd p) \<noteq> i"
    "hm_get (hs_prekeys (disable_mailbox i h)) i = None"
    "j \<noteq> i \<Longrightarrow> enabled (disable_mailbox i h) j = enabled h j"
  using assms by (auto simp: enabled_def disable_get disable_fields hm.get_rem filter_empty_conv split: option.splits)

lemma check_owner_not_enabled: "\<not> enabled h i \<Longrightarrow> fst (check_owner C i auth now ex h) = Err OwnerAuth"
  by (auto simp: check_owner_def sread_def enabled_def split: sum.splits option.splits)

section \<open>Properties\<close>

text \<open>
  Every state the server reaches from its start, by any sequence of operations with any
  arguments (fewer than \<open>2 ^ 64 - 2\<close> of them), satisfies the invariant: mailbox logs sorted
  and numbered below \<open>next_seq\<close>, byte counts exact and within the limit, tokens and prekeys
  only for enabled mailboxes, rate counts and the deduplication window bounded.
\<close>

theorem home_reachable_inv:
  assumes "from_identity C kp sk host port = Some h0" "home_run C n h0 h" "n + 2 < 2 ^ 64"
  shows "home_inv n h"
  using inv_home_run [OF assms(2) inv_from_identity [OF assms(1)]] assms(3) by (simp add: home_inv_def)

text \<open>
  C5. A successful append is either a repetition, when the idempotency token is known: the
  earlier number is returned and the mailbox is untouched; or it stores one row in the
  mailbox the capability stands for, under a number above all others, and keeps of the
  mailbox what garbage collection keeps. No other mailbox changes.
\<close>

theorem append_inner_stores:
  assumes "home_inv n h" "append_inner inner h = (Ok seq, h')"
  shows "\<exists>i m m'. capability_mailbox h (ie_capability inner) = Some i \<and> hm_get (hs_mailboxes h) i = Some m \<and>
    hm_get (hs_mailboxes h') i = Some m' \<and> (\<forall>j. j \<noteq> i \<longrightarrow> hm_get (hs_mailboxes h') j = hm_get (hs_mailboxes h) j) \<and>
    (hm_get (mb_idempotency m) (ie_idempotency inner) = Some seq \<and> m' = m \<or>
     hm_get (mb_idempotency m) (ie_idempotency inner) = None \<and> seq = mb_next_seq m \<and>
     (\<forall>k \<in> fst ` set (mb_rows m). k < seq) \<and>
     m' = fst (gc_rows (hs_now h) (hs_limits h) (appended (stored inner i m h) (row_size (stored inner i m h)) m)))"
proof -
  have wf: "hm_wf (hs_mailboxes h)" using assms(1) by (simp add: home_inv_def home_invD)
  obtain i h1 where a: "authorize_append (ie_capability inner) h = (Ok i, h1)"
    using assms(2) by (cases "authorize_append (ie_capability inner) h"; cases "fst (authorize_append (ie_capability inner) h)")
      (auto simp: append_inner_cases)
  have same: "hs_mailboxes h1 = hs_mailboxes h" "hs_now h1 = hs_now h" "hs_limits h1 = hs_limits h"
    using authorize_append_same [of "ie_capability inner" h] by (simp_all add: a)
  obtain m where m: "hm_get (hs_mailboxes h) i = Some m"
    using assms(2) by (auto simp: append_inner_cases a split: option.splits)
  have cap: "capability_mailbox h (ie_capability inner) = Some i"
    using authorize_append_token [OF a] by (auto simp: capability_mailbox_def)
  have st: "stored inner i m h1 = stored inner i m h" by (simp add: stored_def same)
  have lt: "\<forall>k \<in> fst ` set (mb_rows m). k < mb_next_seq m"
    using home_invD(9) [OF assms(1) [unfolded home_inv_def] m] mb_invD(5) [of m] by (auto simp: box_ok_def)
  show ?thesis
  proof (cases "hm_get (mb_idempotency m) (ie_idempotency inner)")
    case None
    then have "h' = append_at inner i m h1" "seq = mb_next_seq m"
      using assms(2) by (auto simp: append_inner_cases a m split: sum.splits)
    then show ?thesis
      using cap m None lt mailboxes_append_at [of h1 inner i m] wf by (auto simp: same st)
  next
    case (Some s)
    then have "h' = h1" "s = seq" using assms(2) by (auto simp: append_inner_cases a m)
    then show ?thesis using cap m Some same by auto
  qed
qed


text \<open>
  C25. A contact capability authorises at most 30 appends while the clock stands, however
  many are attempted.
\<close>

theorem contact_rate_limit:
  assumes "home_inv n h" "token h t = Some (Contact i g s c)"
  shows "attempts t k h \<le> 30"
proof -
  have "c \<le> RATE_PER_MIN" using token_Some_ok [OF assms(1) [unfolded home_inv_def] assms(2)] by simp
  then show ?thesis using attempts_window [OF assms(2), of k] by (simp add: RATE_PER_MIN_def)
qed

text \<open>
  C7. An owner authorisation is accepted once: after it was accepted, and whatever else the
  server did with a clock that does not go back, presenting it again is refused, for any
  mailbox and any request.
\<close>

theorem owner_replay_refused:
  assumes "hm_wf (hs_owner_nonces h)" "check_owner C owner auth t1 ex h = (Ok (), h1)"
    and "nonce_run C t1 h1 t2 h2" "t2 \<le> t3"
  shows "fst (check_owner C owner' auth t3 ex' h2) = Err OwnerAuth"
proof -
  have "hm_wf (hs_owner_nonces h1)" "hm_get (hs_owner_nonces h1) (mo_nonce auth) = Some (mo_ts auth)"
    using assms(1) by (simp_all add: check_owner_Ok(2) [OF assms(2)] gc_owner_nonces_def hm_wf_retain hm.wf_ins hm.get_ins)
  from nonce_run_keeps [OF assms(3) this] show ?thesis
    using check_owner_known check_owner_stale stale_mono [OF _ assms(4)] by blast
qed

text \<open>
  A fetch returns the owner's unexpired rows above the cursor, oldest first, at most as
  many as asked for and never more than 256; it leaves out none of the first ones.
\<close>

theorem fetch_returns:
  assumes "home_inv n h" "fetch C owner auth now h = (Ok rows, h')"
  shows "\<exists>m. hm_get (hs_mailboxes h') owner = Some m \<and>
    rows = take (unat (mo_limit auth)) (filter (\<lambda>r. mo_cursor auth < se_seq r \<and> hs_now h < se_expires_at r) (map snd (mb_rows m))) \<and>
    sorted_wrt (\<lambda>a b. se_seq a < se_seq b) rows \<and> length rows \<le> 256 \<and>
    (\<forall>r \<in> set rows. mo_cursor auth < se_seq r \<and> hs_now h < se_expires_at r)"
proof -
  obtain h1 where c: "check_owner C owner auth now (scope_body (hs_server_id C h) (str_bytes ''POST'') (str_bytes ''/v1/mailbox/fetch'')) h = (Ok (), h1)"
    and l: "\<not> (mo_limit auth = 0 \<or> mo_limit auth > FETCH_LIMIT_MAX)"
    and m': "h' = gc_mailbox owner h1"
    and ex: "\<exists>m. hm_get (hs_mailboxes h') owner = Some m \<and> rows = take (unat (mo_limit auth))
          (filter (\<lambda>r. mo_cursor auth < se_seq r \<and> hs_now h' < se_expires_at r) (map snd (mb_rows m)))"
    using assms(2) by (auto simp: fetch_def Let_def result_simps split: if_splits)
  from ex obtain m where m: "hm_get (hs_mailboxes h') owner = Some m"
    and rows: "rows = take (unat (mo_limit auth)) (filter (\<lambda>r. mo_cursor auth < se_seq r \<and> hs_now h' < se_expires_at r) (map snd (mb_rows m)))"
    by blast
  have now: "hs_now h' = hs_now h" using check_owner_Ok(4) [OF c] by (simp add: m')
  have "home_invg {} n h'"
    using inv_fetch [OF assms(1) [unfolded home_inv_def], of C owner auth now] assms(2) by simp
  then have inv: "mb_inv m" using home_invD(9) [OF _ m] by (auto simp: box_ok_def)
  have "map (se_seq \<circ> snd) (mb_rows m) = map fst (mb_rows m)"
    using mb_invD(5) [OF inv] by auto
  then have "sorted_wrt (<) (map (se_seq \<circ> snd) (mb_rows m))"
    using mb_invD(1) [OF inv] by (simp only: bt_wf_def)
  then have "sorted_wrt (\<lambda>a b. se_seq a < se_seq b) (map snd (mb_rows m))"
    by (simp add: sorted_wrt_map)
  then have "sorted_wrt (\<lambda>a b. se_seq a < se_seq b) rows"
    unfolding rows by (intro sorted_wrt_take sorted_wrt_filter)
  moreover have "length rows \<le> 256"
    using l by (simp add: rows FETCH_LIMIT_MAX_def not_less word_le_nat_alt min.coboundedI2 del: length_filter_le)
  moreover have "\<forall>r \<in> set rows. mo_cursor auth < se_seq r \<and> hs_now h < se_expires_at r"
    unfolding rows by (auto simp: now dest!: in_set_takeD)
  moreover have "rows = take (unat (mo_limit auth)) (filter (\<lambda>r. mo_cursor auth < se_seq r \<and> hs_now h < se_expires_at r) (map snd (mb_rows m)))"
    using rows unfolding now .
  ultimately show ?thesis using m by blast
qed

text \<open>
  An acknowledgement removes from the owner's mailbox exactly the rows up to the cursor;
  numbering and idempotency tokens stay, and no other mailbox changes.
\<close>

theorem ack_removes:
  assumes "home_inv n h" "ack C owner auth now h = (Ok (), h')"
  shows "\<exists>m m'. hm_get (hs_mailboxes h) owner = Some m \<and> hm_get (hs_mailboxes h') owner = Some m' \<and>
    mb_rows m' = filter (\<lambda>p. mo_cursor auth < fst p) (mb_rows m) \<and>
    mb_idempotency m' = mb_idempotency m \<and> mb_next_seq m' = mb_next_seq m \<and>
    (\<forall>j. j \<noteq> owner \<longrightarrow> hm_get (hs_mailboxes h') j = hm_get (hs_mailboxes h) j)"
proof -
  obtain h1 where c: "check_owner C owner auth now (scope_body (hs_server_id C h) (str_bytes ''POST'') (str_bytes ''/v1/mailbox/ack'')) h = (Ok (), h1)"
    using assms(2) by (auto simp: ack_def Let_def result_simps)
  have same: "hs_mailboxes h1 = hs_mailboxes h" using check_owner_Ok(3) [OF c] .
  have wf: "hm_wf (hs_mailboxes h)" using assms(1) by (simp add: home_inv_def home_invD)
  obtain m where m: "hm_get (hs_mailboxes h) owner = Some m"
    using assms(2) by (auto simp: ack_def Let_def c same result_simps)
  let ?drop = "filter (\<lambda>s. s \<le> mo_cursor auth) (map fst (mb_rows m))"
  have f: "filter (\<lambda>p. fst p \<notin> set ?drop) (mb_rows m) = filter (\<lambda>p. mo_cursor auth < fst p) (mb_rows m)"
    by (rule filter_cong) (auto simp: not_le)
  show ?thesis
  proof (cases "?drop = []")
    case True
    then have "h' = h1" using assms(2) by (simp add: ack_def Let_def c same m)
    moreover have "filter (\<lambda>p. mo_cursor auth < fst p) (mb_rows m) = mb_rows m"
      using True by (auto simp: filter_id_conv filter_empty_conv not_le)
    ultimately show ?thesis using m same by simp
  next
    case False
    then have "hs_mailboxes h' = hs_mailboxes (put_mailbox owner (fold ack_row ?drop m) h1)"
      using assms(2) by (auto simp: ack_def Let_def c same m)
    then show ?thesis
      using m f wf same by (auto simp: hm_get_put_mailbox fold_ack_row)
  qed
qed


text \<open>
  Bindings only move forward: observing a binding never lowers the recorded sequence
  number; a binding that verifies and is newer is recorded, and disables the mailbox when it
  names another server.
\<close>

theorem observe_binding_monotone:
  assumes "home_inv n h" "observe_binding C i b h = (r, h')"
  defines "seq_of \<equiv> \<lambda>h. case hm_get (hs_directory h) i of Some row \<Rightarrow> di_binding_seq row | None \<Rightarrow> 0"
  shows "seq_of h \<le> seq_of h' \<and>
    (r = Ok () \<longrightarrow> hb_seq b \<le> seq_of h' \<and>
      (seq_of h < hb_seq b \<and> hb_server_id b \<noteq> hs_server_id C h \<longrightarrow> \<not> enabled h' i)) \<and>
    (hb_seq b \<le> seq_of h \<longrightarrow> h' = h)"
proof -
  have wf: "hm_wf (hs_directory h)" "hm_wf (hs_mailboxes h)" "hm_wf (hs_prekeys h)"
    using assms(1) by (auto simp: home_inv_def home_invD)
  define row where "row pk = (case hm_get (hs_directory h) i of
      Some row \<Rightarrow> row\<lparr>di_binding := b, di_binding_seq := hb_seq b\<rparr>
    | None \<Rightarrow> \<lparr>di_identity_public = pk, di_revocation_public = replicate KEY_LEN 0,
               di_binding = b, di_binding_seq = hb_seq b, di_revocation = None\<rparr>)" for pk
  define h1 where "h1 pk = mark_identity i (h\<lparr>hs_directory := hm_insert i (row pk) (hs_directory h)\<rparr>)" for pk
  have seq1: "seq_of (h1 pk) = hb_seq b" "seq_of (disable_mailbox i (h1 pk)) = hb_seq b" for pk
    using wf by (auto simp: seq_of_def h1_def disable_fields hm.get_ins row_def split: option.splits)
  have sid: "hs_server_id C (h1 pk) = hs_server_id C h" for pk
    by (simp add: h1_def hs_server_id_def mark_identity_def)
  have dis: "\<not> enabled (disable_mailbox i (h1 pk)) i" for pk
    using wf by (intro disable_effects) (simp_all add: h1_def)
  show ?thesis
  proof (cases "\<exists>pk. observed_pk h i = Ok pk \<and> lib_ed_point C pk \<and> identity_id C pk = i \<and> hb_verify C b pk (hs_now h) = Ok ()")
    case True
    then obtain pk where pk: "observed_pk h i = Ok pk" "lib_ed_point C pk" "identity_id C pk = i"
      "hb_verify C b pk (hs_now h) = Ok ()" by blast
    have "observe_binding C i b h = (Ok (), if hb_seq b \<le> seq_of h then h
        else if hb_server_id b \<noteq> hs_server_id C h then disable_mailbox i (h1 pk) else h1 pk)"
      using sid [of pk] by (simp add: observe_binding_def pk Let_def seq_of_def h1_def row_def)
    then show ?thesis using assms(2) seq1 dis by (auto split: if_splits)
  next
    case False
    then have "h' = h \<and> r \<noteq> Ok ()"
      using assms(2) by (auto simp: observe_binding_def sread_def Let_def split: sum.splits if_splits)
    then show ?thesis by simp
  qed
qed

text \<open>
  A share token reserves at most one prekey: asking again returns the same prekey and
  takes nothing more from the queue; the first request takes the oldest prekey of the mailbox.
\<close>

theorem prekey_reserved_once:
  assumes "hm_wf (hs_prekeys h)" "fetch_prekey t h = (Ok blob, h')"
  shows "fetch_prekey t h' = (Ok blob, h') \<and>
    (h' = h \<or> (\<exists>i q. capability_mailbox h t = Some i \<and> hm_get (hs_prekeys h) i = Some (blob # q) \<and>
      hm_get (hs_prekeys h') i = Some q \<and> (\<forall>j. j \<noteq> i \<longrightarrow> hm_get (hs_prekeys h') j = hm_get (hs_prekeys h) j)))"
proof -
  obtain i e r where tok: "token h t = Some (Share i e False r)" and now: "hs_now h < e"
    using assms(2) by (auto simp: fetch_prekey_def split: option.splits TokenKind.splits if_splits)
  show ?thesis
  proof (cases r)
    case (Some b)
    then show ?thesis using assms(2) tok now by (auto simp: fetch_prekey_def)
  next
    case None
    then obtain q where q: "hm_get (hs_prekeys h) i = Some (blob # q)"
      and h': "h' = mark_token t (mark_prekeys i (set_token (h\<lparr>hs_prekeys := hm_insert i q (hs_prekeys h)\<rparr>) t (Share i e False (Some blob))))"
      using assms(2) tok now by (auto simp: fetch_prekey_def Let_def split: option.splits list.splits)
    have "token h' t = Some (Share i e False (Some blob))" "hs_now h' = hs_now h" "hs_prekeys h' = hm_insert i q (hs_prekeys h)"
      using tok by (simp_all add: h' token_set_token mark_defs)
    then show ?thesis
      using now q tok assms(1) by (auto simp: fetch_prekey_def capability_mailbox_def hm.get_ins)
  qed
qed

text \<open>
  Delivering the same sealed envelope again is harmless: right after it was accepted, the
  server answers a copy with the same number and does not change.
\<close>

theorem ingest_replay:
  assumes "ingest C outer h = (Ok seq, h')"
  shows "ingest C outer h' = (Ok seq, h')"
proof -
  obtain enc where enc: "encap_key (oe_ciphertext outer) = Ok enc"
    using assms by (auto simp: ingest_def result_simps)
  have "hm_get (hs_seen_enc h') enc = Some seq"
  proof (cases "hm_get (hs_seen_enc h) enc")
    case None
    then obtain h1 where "h' = remember_enc enc seq h1"
      using assms enc by (auto simp: ingest_def result_simps)
    then show ?thesis by (simp add: remember_enc_def Let_def hm_get_def hm_insert_def update_conv')
  next
    case (Some s)
    then show ?thesis using assms enc by (simp add: ingest_def)
  qed
  then show ?thesis by (simp add: ingest_def enc)
qed


text \<open>
  A sweep takes no token that is in use: of an enabled mailbox it keeps every share
  token that has not expired, every contact capability in its grace period, and the newest
  contact capability.
\<close>

theorem sweep_keeps_live:
  assumes "home_inv n h" "distinct (map fst (hs_tokens h))" "i < length (hs_tokens h)" "hs_tokens h ! i = (t, k)"
    and "case k of
        Share mailbox e b r \<Rightarrow> hs_now h \<le> e
      | Contact mailbox g s c \<Rightarrow> (\<exists>g'. g = Some g' \<and> hs_now h < g') \<or> newest_contact_idx_for h mailbox = Some i"
  shows "(t, k) \<in> set (hs_tokens (snd (sweep_dead_tokens h)))"
proof -
  have wf: "hm_wf (hs_mailboxes h)" using assms(1) by (simp add: home_inv_def home_invD)
  have "enabled h (tk_mailbox k)"
    using home_invD(10) [OF assms(1) [unfolded home_inv_def], of "(t, k)"] assms(3,4) nth_mem by (force simp: token_ok_def)
  moreover have "\<not> token_dead (hs_now h) (newest_contact_idx_for h (tk_mailbox k)) i k"
    using assms(5) le_saturating_add
    by (auto simp: token_dead_def share_token_dead_def Let_def not_less split: TokenKind.splits intro: order_trans)
  ultimately have "\<not> entry_dead h i k" by (simp add: entry_dead_def)
  then have "(i, (t, k)) \<in> set (filter (\<lambda>(i, (t, k)). \<not> entry_dead h i k) (enumerate 0 (hs_tokens h)))"
    using assms(3,4) by (simp add: in_set_enumerate_eq)
  then show ?thesis
    unfolding sweep_all_tokens [OF wf assms(2)] by (metis (no_types, lifting) imageI image_set snd_conv)
qed

text \<open>
  A card's share token is taken as given: registering a card whose share token already
  stands for another mailbox succeeds, and from then on that token stands for the new one.
\<close>

theorem card_token_shadows:
  assumes "home_inv n h" "capability_mailbox h (cc_share_token cc) = Some victim"
    and "register_from_card C cc h = (Ok i, h')"
  shows "i \<noteq> victim \<and> capability_mailbox h' (cc_share_token cc) = Some i"
proof -
  obtain h1 where reg: "register (cc_identity_id C cc) (cc_identity_public cc) h = (Ok (), h1)"
    and i: "i = cc_identity_id C cc" and h': "\<exists>row. register_share_token i (cc_share_token cc) None (h1\<lparr>hs_directory := row\<rparr>) = (Ok (), h')"
    using assms(3) by (auto simp: register_from_card_def Let_def result_simps split: if_splits)
  have "enabled h victim"
    using assms(2) token_Some_ok [OF assms(1) [unfolded home_inv_def]] by (auto simp: capability_mailbox_def token_ok_def)
  moreover have "hm_get (hs_mailboxes h) i = None"
    using reg by (simp add: register_def i split: if_splits)
  ultimately have "i \<noteq> victim" by (auto simp: enabled_def)
  moreover have "capability_mailbox h' (cc_share_token cc) = Some i"
    using h' by (auto simp: register_share_token_def Let_def capability_mailbox_def token_def token_loop_snoc
        mark_token_def result_simps split: if_splits)
  ultimately show ?thesis by simp
qed

section \<open>Witnesses\<close>

text \<open>A small server state: one mailbox with one row, a share token, a contact capability, two prekeys.\<close>

definition sample_row :: StoredEnvelope where
  "sample_row = \<lparr>se_seq = 1, se_received_at = 900, se_expires_at = 5000, se_inner = sample_inner\<rparr>"

definition sample_box :: Mailbox where
  "sample_box = \<lparr>mb_owner_pk = lib_ed_public plain_crypto [1], mb_next_seq = 2, mb_rows = [(1, sample_row)],
     mb_idempotency = [(replicate 32 9, 1)], mb_bytes = 20480, mb_disabled = False\<rparr>"

definition sample_dir :: DirectoryRow where
  "sample_dir = \<lparr>di_identity_public = replicate 32 1, di_revocation_public = lib_ed_public plain_crypto [2],
     di_binding = sample_binding, di_binding_seq = 1, di_revocation = None\<rparr>"

definition sample_home :: HomeServer where
  "sample_home = \<lparr>hs_hpke = \<lparr>kp_public = replicate 32 3, kp_secret = replicate 32 3\<rparr>, hs_sign = [4],
     hs_bundle = \<lparr>sb_server_id = [], sb_hpke_public = [], sb_sign_public = [], sb_host = [], sb_s2s_port = 0, sb_signature = []\<rparr>,
     hs_now = 1000, hs_limits = default_limits,
     hs_mailboxes = [(replicate 32 1, sample_box)], hs_directory = [(replicate 32 1, sample_dir)],
     hs_memberships = [(replicate 32 1, [[5]])],
     hs_tokens = [(replicate 32 7, Share (replicate 32 1) 2000 False None), ([8], Contact (replicate 32 1) None 990 0)],
     hs_prekeys = [(replicate 32 1, [[11], [12]])], hs_seen_enc = [], hs_peers = [], hs_outbound = [],
     hs_last_token_sweep = 0, hs_dirty = hd_default, hs_owner_nonces = []\<rparr>"

lemma row_size_sample: "row_size sample_row = 20480"
proof -
  obtain bs where bs: "encode_padded sample_inner = Ok bs" using encode_padded_ok [OF sample_inner_ok] by blast
  have "length bs = 20480"
    using inner_len_of_encoded(1) [OF sample_inner_ok bs]
    by (simp add: outer_len_def sample_inner_def is_attachment_def INNER_TEXT_OUTER_def)
  then show ?thesis by (simp add: row_size_def sample_row_def bs)
qed

lemma sample_box_inv: "mb_inv sample_box"
proof -
  have "ie_idempotency (se_inner sample_row) = replicate 32 9" "se_seq sample_row = 1"
    by (simp_all add: sample_row_def sample_inner_def)
  then show ?thesis
    by (simp add: mb_inv_def sample_box_def bt_wf_def hm_wf_def hm_get_def rows_bytes_def row_size_sample)
qed

lemma sample_home_inv: "home_inv 1 sample_home"
  using sample_box_inv
  by (simp add: home_inv_def home_invg_def sample_home_def hm_wf_def hm_get_def limits_ok_def default_limits_def
      MAILBOX_MAX_BYTES_def box_ok_def enabled_def HPKE_ENC_WINDOW_def)
    (simp add: sample_box_def)

definition sample_msg :: InnerEnvelope where
  "sample_msg = sample_inner\<lparr>ie_idempotency := replicate 32 2\<rparr>"

lemma sample_msg_ok: "\<exists>bs. encode_padded sample_msg = Ok bs"
proof -
  have "inner_ok sample_msg" using sample_inner_ok by (simp add: sample_msg_def inner_ok_def)
  from encode_padded_ok [OF this] show ?thesis by blast
qed

lemma replicate_neq_singleton: "replicate 32 a \<noteq> [b]" "[b] \<noteq> replicate 32 a"
  by (auto dest: arg_cong [of _ _ length])

lemma sample_lookups:
  "token sample_home (replicate 32 7) = Some (Share (replicate 32 1) 2000 False None)"
  "token sample_home [8] = Some (Contact (replicate 32 1) None 990 0)"
  "hm_get (hs_mailboxes sample_home) (replicate 32 1) = Some sample_box"
  "hs_now sample_home = 1000" "hs_limits sample_home = default_limits"
  "hm_get (hs_directory sample_home) (replicate 32 1) = Some sample_dir"
  by (simp_all add: sample_home_def token_def hm_get_def numeral_eq_Suc)

lemma sample_append: "\<exists>h'. append_inner sample_msg sample_home = (Ok 2, h') \<and> h' \<noteq> sample_home"
proof -
  obtain bs where bs: "encode_padded sample_msg = Ok bs" using sample_msg_ok by blast
  have cap: "ie_capability sample_msg = replicate 32 7" by (simp add: sample_msg_def sample_inner_def)
  have a: "authorize_append (replicate 32 7) sample_home = (Ok (replicate 32 1), sample_home)"
    by (simp add: authorize_share [OF sample_lookups(1)] sample_lookups mailbox_disabled_def) (simp add: sample_box_def)
  have i: "hm_get (mb_idempotency sample_box) (ie_idempotency sample_msg) = None"
    by (simp add: sample_box_def sample_msg_def hm_get_def)
  let ?h = "append_at sample_msg (replicate 32 1) sample_box sample_home"
  have "append_inner sample_msg sample_home = (Ok 2, ?h)"
    by (simp add: append_inner_cases cap a sample_lookups i bs) (simp add: sample_box_def)
  moreover have "token ?h (replicate 32 7) = Some (Share (replicate 32 1) 2000 True None)"
    using token_append_at [of sample_home sample_msg] sample_lookups(1) by (simp add: cap)
  then have "?h \<noteq> sample_home" using sample_lookups(1) by auto
  ultimately show ?thesis by blast
qed

theorem home_reachable_inv_witness:
  "\<exists>h0 h. from_identity plain_crypto \<lparr>kp_public = [3], kp_secret = [3]\<rparr> [4] [5] 443 = Some h0 \<and>
     home_run plain_crypto 1 h0 h \<and> h = snd (register [1] [2] h0) \<and> home_inv 1 h"
proof -
  obtain h0 where h0: "from_identity plain_crypto \<lparr>kp_public = [3], kp_secret = [3]\<rparr> [4] [5] 443 = Some h0"
    using from_identity_some by blast
  have r: "home_run plain_crypto 1 h0 (snd (register [1] [2] h0))"
    using home_run.step [OF home_run.start home_step.register] by simp
  from home_reachable_inv [OF h0 r] h0 r show ?thesis by auto
qed

theorem append_inner_stores_witness:
  "\<exists>h' m'. append_inner sample_msg sample_home = (Ok 2, h') \<and> hm_get (hs_mailboxes h') (replicate 32 1) = Some m'"
proof -
  obtain h' where h': "append_inner sample_msg sample_home = (Ok 2, h')" using sample_append by blast
  have "capability_mailbox sample_home (ie_capability sample_msg) = Some (replicate 32 1)"
    by (simp add: capability_mailbox_def sample_lookups sample_msg_def sample_inner_def)
  with append_inner_stores [OF sample_home_inv h'] h' show ?thesis by auto
qed


theorem contact_rate_limit_witness: "attempts [8] 100 sample_home \<le> 30"
  by (rule contact_rate_limit [OF sample_home_inv sample_lookups(2)])

theorem ingest_replay_witness:
  "\<exists>h'. ingest plain_crypto \<lparr>oe_destination = [], oe_ciphertext = replicate 32 6\<rparr> (sample_home\<lparr>hs_seen_enc := [(replicate 32 6, 4)]\<rparr>) = (Ok 4, h') \<and>
     ingest plain_crypto \<lparr>oe_destination = [], oe_ciphertext = replicate 32 6\<rparr> h' = (Ok 4, h')"
proof -
  let ?o = "\<lparr>oe_destination = [], oe_ciphertext = replicate 32 6\<rparr>" and ?h = "sample_home\<lparr>hs_seen_enc := [(replicate 32 6, 4)]\<rparr>"
  have "ingest plain_crypto ?o ?h = (Ok 4, ?h)"
    by (simp add: ingest_def encap_key_def ENCAP_LEN_def hm_get_def)
  with ingest_replay [OF this] show ?thesis by blast
qed

theorem prekey_reserved_once_witness:
  "\<exists>h'. fetch_prekey (replicate 32 7) sample_home = (Ok [11], h') \<and> fetch_prekey (replicate 32 7) h' = (Ok [11], h')"
proof -
  have "hm_get (hs_prekeys sample_home) (replicate 32 1) = Some [[11], [12]]" "hm_wf (hs_prekeys sample_home)"
    by (simp_all add: sample_home_def hm_get_def hm_wf_def)
  then obtain h' where "fetch_prekey (replicate 32 7) sample_home = (Ok [11], h')"
    by (simp add: fetch_prekey_def sample_lookups Let_def)
  with prekey_reserved_once [OF \<open>hm_wf (hs_prekeys sample_home)\<close> this] show ?thesis by blast
qed


theorem sweep_keeps_live_witness:
  "(replicate 32 7, Share (replicate 32 1) 2000 False None) \<in> set (hs_tokens (snd (sweep_dead_tokens sample_home)))"
  by (rule sweep_keeps_live [OF sample_home_inv, of 0]) (simp_all add: sample_home_def replicate_neq_singleton token_dead_def share_token_dead_def
    sat_simps word_less_nat_alt SHARE_EXPIRED_BUFFER_SECS_def)

text \<open>An owner request to the sample server, signed with the owner's key.\<close>

definition sample_request :: "bytes \<Rightarrow> MailboxOwnerAuth" where
  "sample_request path =
     (let a = \<lparr>mo_mailbox_hint = replicate 32 1, mo_cursor = 0, mo_limit = 10, mo_ts = 1000,
        mo_scope = scope_body (hs_server_id plain_crypto sample_home) (str_bytes ''POST'') path,
        mo_nonce = replicate 32 4, mo_signature = []\<rparr> in
      a\<lparr>mo_signature := lib_ed_sign plain_crypto [1] (CONTEXT_PREFIX @ MAILBOX_OWNER @ [0] @ mo_unsigned_cbor a)\<rparr>)"

lemma sample_request_verifies:
  "mo_verify plain_crypto (sample_request path) (lib_ed_public plain_crypto [1]) 1000
     (scope_body (hs_server_id plain_crypto sample_home) (str_bytes ''POST'') path) = Ok ()"
proof -
  let ?a = "sample_request path"
  have "sign plain_crypto [1] MAILBOX_OWNER (mo_unsigned_cbor ?a) = Ok (mo_signature ?a)"
    by (simp add: sign_total sample_request_def Let_def mo_unsigned_cbor_def)
  then have "verify plain_crypto (lib_ed_public plain_crypto [1]) MAILBOX_OWNER (mo_unsigned_cbor ?a) (mo_signature ?a) = Ok ()"
    by (rule verify_sign_ok [OF plain_crypto_laws(2)])
  then show ?thesis
    by (simp add: mo_verify_def Let_def MAX_AGE_SECS_def) (simp add: sample_request_def Let_def)
qed

lemma sample_check:
  "\<exists>h'. check_owner plain_crypto (replicate 32 1) (sample_request path) 1000
     (scope_body (hs_server_id plain_crypto sample_home) (str_bytes ''POST'') path) sample_home = (Ok (), h')"
proof -
  have "mo_mailbox_hint (sample_request path) = replicate 32 1" by (simp add: sample_request_def Let_def)
  moreover have "mb_owner_pk sample_box = lib_ed_public plain_crypto [1]" "\<not> mb_disabled sample_box"
    by (simp_all add: sample_box_def)
  moreover have "lib_ed_point plain_crypto (lib_ed_public plain_crypto [1])" by (simp add: plain_crypto_def)
  moreover have "hs_owner_nonces (gc_owner_nonces 1000 sample_home) = []"
    by (simp add: gc_owner_nonces_def sample_home_def hm_retain_def)
  moreover have "hm_get ([] :: (key, u64) hashmap) k = None" for k by (simp add: hm_get_def)
  ultimately show ?thesis
    by (simp add: check_owner_def sample_lookups sample_request_verifies Let_def)
qed

theorem owner_replay_refused_witness:
  "\<exists>h'. check_owner plain_crypto (replicate 32 1) (sample_request [9]) 1000
      (scope_body (hs_server_id plain_crypto sample_home) (str_bytes ''POST'') [9]) sample_home = (Ok (), h') \<and>
    fst (check_owner plain_crypto (replicate 32 1) (sample_request [9]) 1001
      (scope_body (hs_server_id plain_crypto sample_home) (str_bytes ''POST'') [9]) h') = Err OwnerAuth"
proof -
  obtain h' where h': "check_owner plain_crypto (replicate 32 1) (sample_request [9]) 1000
      (scope_body (hs_server_id plain_crypto sample_home) (str_bytes ''POST'') [9]) sample_home = (Ok (), h')"
    using sample_check by blast
  have "hm_wf (hs_owner_nonces sample_home)" by (simp add: sample_home_def hm_wf_def)
  from owner_replay_refused [OF this h' nonce_run.start, of 1001] h' show ?thesis by auto
qed

theorem fetch_returns_witness:
  "\<exists>rows h'. fetch plain_crypto (replicate 32 1) (sample_request (str_bytes ''/v1/mailbox/fetch'')) 1000 sample_home = (Ok rows, h') \<and>
     length rows \<le> 256"
proof -
  let ?a = "sample_request (str_bytes ''/v1/mailbox/fetch'')"
  obtain h1 where h1: "check_owner plain_crypto (replicate 32 1) ?a 1000
      (scope_body (hs_server_id plain_crypto sample_home) (str_bytes ''POST'') (str_bytes ''/v1/mailbox/fetch'')) sample_home = (Ok (), h1)"
    using sample_check by blast
  have "hm_wf (hs_mailboxes h1)" "hm_get (hs_mailboxes h1) (replicate 32 1) = Some sample_box"
    by (simp_all add: check_owner_Ok(3) [OF h1] sample_lookups) (simp add: sample_home_def hm_wf_def)
  moreover have "mo_limit ?a = 10" by (simp add: sample_request_def Let_def)
  ultimately obtain rows h' where "fetch plain_crypto (replicate 32 1) ?a 1000 sample_home = (Ok rows, h')"
    using h1 by (simp add: fetch_def Let_def hm_get_gc_mailbox FETCH_LIMIT_MAX_def)
  with fetch_returns [OF sample_home_inv this] show ?thesis by blast
qed

theorem ack_removes_witness:
  "\<exists>h' m'. ack plain_crypto (replicate 32 1) (sample_request (str_bytes ''/v1/mailbox/ack'')) 1000 sample_home = (Ok (), h') \<and>
     hm_get (hs_mailboxes h') (replicate 32 1) = Some m' \<and> map fst (mb_rows m') = [1]"
proof -
  let ?a = "sample_request (str_bytes ''/v1/mailbox/ack'')"
  obtain h1 where h1: "check_owner plain_crypto (replicate 32 1) ?a 1000
      (scope_body (hs_server_id plain_crypto sample_home) (str_bytes ''POST'') (str_bytes ''/v1/mailbox/ack'')) sample_home = (Ok (), h1)"
    using sample_check by blast
  have "hm_get (hs_mailboxes h1) (replicate 32 1) = Some sample_box"
    by (simp add: check_owner_Ok(3) [OF h1] sample_lookups)
  moreover have c: "mo_cursor ?a = 0" "mb_rows sample_box = [(1, sample_row)]"
    by (simp_all add: sample_request_def Let_def sample_box_def)
  ultimately obtain h' where h': "ack plain_crypto (replicate 32 1) ?a 1000 sample_home = (Ok (), h')"
    using h1 by (simp add: ack_def Let_def)
  from ack_removes [OF sample_home_inv h'] obtain m' where "hm_get (hs_mailboxes h') (replicate 32 1) = Some m'"
    "mb_rows m' = filter (\<lambda>p. mo_cursor ?a < fst p) (mb_rows sample_box)"
    by (auto simp: sample_lookups)
  with h' show ?thesis by (simp add: c)
qed


theorem observe_binding_monotone_witness:
  "\<exists>h'. observe_binding plain_crypto (replicate 32 1) sample_binding sample_home = (Err Denied, h') \<and> h' = sample_home"
proof -
  obtain r h' where o: "observe_binding plain_crypto (replicate 32 1) sample_binding sample_home = (r, h')" by fastforce
  have "hb_seq sample_binding \<le> 1" by (simp add: sample_binding_def)
  then have "h' = sample_home"
    using observe_binding_monotone [OF sample_home_inv o] by (simp add: sample_lookups sample_dir_def)
  moreover have "hb_verify plain_crypto sample_binding (replicate 32 1) 1000 = Err Signature"
    by code_simp
  then have "r = Err Denied"
    using o by (simp add: observe_binding_def observed_pk_def sample_lookups sample_dir_def sread_def split: if_splits)
  ultimately show ?thesis using o by simp
qed

text \<open>A second identity's card that names the share token of the sample server's mailbox.\<close>

definition intruder_card :: ContactCard where
  "intruder_card = \<lparr>cc_identity_public = lib_ed_public plain_crypto [6], cc_revocation_public = replicate 32 2,
     cc_share_token = replicate 32 7, cc_binding = sample_binding\<lparr>hb_signature :=
       lib_ed_sign plain_crypto [6] (CONTEXT_PREFIX @ HOME_SERVER_BINDING @ [0] @ hb_unsigned_cbor sample_binding)\<rparr>\<rparr>"

lemma intruder_card_verifies: "cc_verify plain_crypto intruder_card 1000 = Ok ()"
proof -
  let ?b = "cc_binding intruder_card"
  have u: "hb_unsigned_cbor ?b = hb_unsigned_cbor sample_binding"
    by (simp add: intruder_card_def hb_unsigned_cbor_def)
  have "sign plain_crypto [6] HOME_SERVER_BINDING (hb_unsigned_cbor ?b) = Ok (hb_signature ?b)"
    by (simp add: sign_total u) (simp add: intruder_card_def)
  then have "verify plain_crypto (cc_identity_public intruder_card) HOME_SERVER_BINDING (hb_unsigned_cbor ?b) (hb_signature ?b) = Ok ()"
    using verify_sign_ok [OF plain_crypto_laws(2)] by (simp add: intruder_card_def)
  moreover have "lib_ed_point plain_crypto (cc_identity_public intruder_card)"
    by (simp add: intruder_card_def plain_crypto_def)
  moreover have "hb_host ?b = hb_host sample_binding" "hb_server_id ?b = hb_server_id sample_binding"
      "hb_hpke_public ?b = hb_hpke_public sample_binding" "hb_expires_at ?b = 1000"
    by (simp_all add: intruder_card_def) (simp add: sample_binding_def)
  ultimately show ?thesis
    using sample_binding_server by (simp add: cc_verify_def hb_verify_def sample_host_ok CLOCK_SKEW_SECS_def)
qed

theorem card_token_shadows_witness:
  "\<exists>i h'. register_from_card plain_crypto intruder_card sample_home = (Ok i, h') \<and>
     capability_mailbox sample_home (replicate 32 7) = Some (replicate 32 1) \<and> i \<noteq> replicate 32 1 \<and>
     capability_mailbox h' (replicate 32 7) = Some i"
proof -
  have tok: "cc_share_token intruder_card = replicate 32 7" by (simp add: intruder_card_def)
  have i: "cc_identity_id plain_crypto intruder_card \<noteq> replicate 32 1"
    by code_simp
  have "hm_get (hs_mailboxes sample_home) (cc_identity_id plain_crypto intruder_card) = None"
    using i by (simp add: sample_home_def hm_get_def)
  moreover have "hb_server_id (cc_binding intruder_card) = hs_server_id plain_crypto sample_home"
    by code_simp
  moreover have "allowed_intro_ttl SHARE_TTL_DEFAULT" by code_simp
  moreover have "hm_wf (hs_mailboxes sample_home)" by (simp add: sample_home_def hm_wf_def)
  ultimately obtain h' where h': "register_from_card plain_crypto intruder_card sample_home = (Ok (cc_identity_id plain_crypto intruder_card), h')"
    by (simp add: register_from_card_def sample_lookups intruder_card_verifies Let_def register_def
        register_share_token_def require_mailbox_def mark_identity_def hm_get_put_mailbox)
  have c: "capability_mailbox sample_home (cc_share_token intruder_card) = Some (replicate 32 1)"
    by (simp add: tok capability_mailbox_def sample_lookups)
  from card_token_shadows [OF sample_home_inv c h'] c h' i show ?thesis by (auto simp: tok)
qed

end
