(* ===== verification/Federation.thy ===== *)
theory Federation
  imports Home
begin

text \<open>
  The hop between two home servers, \<open>nemo-server/src/federation.rs\<close>: pinned peers, counted
  frames, the receiver's handling of a frame, and the sender's loop over its outbound queue.

  \<open>pump\<close> works on two servers, so its steps act on a pair of states, the sender first.
\<close>

section \<open>Model\<close>

definition PEER_RATE_PER_SEC :: nat where "PEER_RATE_PER_SEC = 100"
definition OUTBOUND_MAX_AGE_SECS :: u64 where "OUTBOUND_MAX_AGE_SECS = 14 * 24 * 3600"
definition BACKOFF_CAP_SECS :: u64 where "BACKOFF_CAP_SECS = 300"

record PumpStats =
  st_delivered :: nat
  st_failed :: nat
  st_deferred :: nat
  st_expired :: nat

definition stats_default :: PumpStats where
  "stats_default = \<lparr>st_delivered = 0, st_failed = 0, st_deferred = 0, st_expired = 0\<rparr>"

subsection \<open>Peers\<close>

definition put_peer :: "key \<Rightarrow> PeerState \<Rightarrow> HomeServer \<Rightarrow> HomeServer" where
  "put_peer sid p h = h\<lparr>hs_peers := hm_insert sid p (hs_peers h)\<rparr>"

definition pin :: "crypto \<Rightarrow> ServerBundle \<Rightarrow> HomeServer \<Rightarrow> unit sresult" where
  "pin C bundle h =
     sread (map_err Wire (sb_verify C bundle)) h (\<lambda>_.
       let sid = sb_server_id bundle in
       if hs_server_id C h = sid then (Ok (), h)
       else
         (let p = (case hm_get (hs_peers h) sid of
                     Some p \<Rightarrow> p\<lparr>ps_bundle := bundle\<rparr>
                   | None \<Rightarrow> ps_new bundle) in
          (Ok (), mark_peer_dirty sid (put_peer sid p h))))"

definition refuse :: "key \<Rightarrow> HomeServer \<Rightarrow> HomeServer" where
  "refuse peer h =
     (case hm_get (hs_peers h) peer of
        Some p \<Rightarrow> mark_peer_dirty peer (put_peer peer (p\<lparr>ps_refused := True\<rparr>) h)
      | None \<Rightarrow> h)"

definition apply_sign_rotate :: "crypto \<Rightarrow> key \<Rightarrow> ServerSignRotate \<Rightarrow> HomeServer \<Rightarrow> unit sresult" where
  "apply_sign_rotate C peer rot h =
     sread (ok_or (hm_get (hs_peers h) peer) NotPinned) h (\<lambda>p.
     let current = sb_sign_public (ps_bundle p) in
     if \<not> lib_ed_point C current then (Err NotPinned, h)
     else sread (map_err Wire (sr_verify C rot current)) h (\<lambda>_.
       (Ok (), mark_peer_dirty peer (put_peer peer
         (p\<lparr>ps_bundle := (ps_bundle p)\<lparr>sb_sign_public := sr_new_public rot\<rparr>\<rparr>) h))))"

definition reset_link :: "key \<Rightarrow> HomeServer \<Rightarrow> HomeServer" where
  "reset_link peer h =
     (case hm_get (hs_peers h) peer of
        Some p \<Rightarrow> mark_peer_dirty peer
          (put_peer peer (p\<lparr>ps_last_rx := 0, ps_next_tx := 1, ps_hello_done := False\<rparr>) h)
      | None \<Rightarrow> h)"

definition set_hello_done :: "key \<Rightarrow> HomeServer \<Rightarrow> HomeServer" where
  "set_hello_done peer h =
     (case hm_get (hs_peers h) peer of
        Some p \<Rightarrow> put_peer peer (p\<lparr>ps_hello_done := True\<rparr>) h
      | None \<Rightarrow> h)"

subsection \<open>Frames\<close>

definition take_frame :: "key \<Rightarrow> bytes \<Rightarrow> HomeServer \<Rightarrow> S2sFrame sresult" where
  "take_frame peer payload h =
     sread (ok_or (hm_get (hs_peers h) peer) NotPinned) h (\<lambda>p.
     if ps_refused p then (Err PeerRefused, h)
     else (Ok \<lparr>sf_counter = ps_next_tx p, sf_payload = payload\<rparr>,
           mark_peer_dirty peer (put_peer peer (p\<lparr>ps_next_tx := ps_next_tx p + 1\<rparr>) h)))"

text \<open>The peer's rate window moved to the current second, and the record of a stored envelope.\<close>

definition roll_window :: "u64 \<Rightarrow> PeerState \<Rightarrow> PeerState" where
  "roll_window now p = (if ps_window_sec p \<noteq> now then p\<lparr>ps_window_sec := now, ps_window_ok := 0\<rparr> else p)"

definition remember_peer :: "key \<Rightarrow> u64 \<Rightarrow> PeerState \<Rightarrow> PeerState" where
  "remember_peer enc seq p =
     (let seen = (if length (ps_seen_enc p) \<ge> HPKE_ENC_WINDOW then [] else ps_seen_enc p) in
      p\<lparr>ps_window_ok := ps_window_ok p + 1, ps_seen_enc := hm_insert enc seq seen\<rparr>)"

definition handle_ciphertext :: "crypto \<Rightarrow> key \<Rightarrow> bytes \<Rightarrow> HomeServer \<Rightarrow> bytes sresult" where
  "handle_ciphertext C from_id ct h =
     (if length ct < ENCAP_LEN then (Ok fail_payload, h)
      else
        (let enc = take ENCAP_LEN ct; now = hs_now h in
         sread (ok_or (hm_get (hs_peers h) from_id) NotPinned) h (\<lambda>p0.
         let p = roll_window now p0;
             h = put_peer from_id p h in
         if ps_window_ok p \<ge> PEER_RATE_PER_SEC then (Ok fail_payload, h)
         else
           (case hm_get (ps_seen_enc p) enc of
              Some seq \<Rightarrow> (Ok (ok_payload seq), h)
            | None \<Rightarrow>
                (case ingest C \<lparr>oe_destination = hs_server_id C h, oe_ciphertext = ct\<rparr> h of
                   (Ok seq, h) \<Rightarrow>
                     sread (ok_or (hm_get (hs_peers h) from_id) NotPinned) h (\<lambda>p.
                     (Ok (ok_payload seq), put_peer from_id (remember_peer enc seq p) h))
                 | (Err _, h) \<Rightarrow> (Ok fail_payload, h))))))"

definition accept_frame :: "crypto \<Rightarrow> key \<Rightarrow> S2sFrame \<Rightarrow> HomeServer \<Rightarrow> bytes sresult" where
  "accept_frame C from_id frame h =
     sread (ok_or (hm_get (hs_peers h) from_id) NotPinned) h (\<lambda>p.
     if ps_refused p then (Err PeerRefused, h)
     else if sf_counter frame \<le> ps_last_rx p then (Ok (ok_payload 0), h)
     else if sf_counter frame \<noteq> ps_last_rx p + 1 then (Err CounterGap, h)
     else
       (let h = mark_peer_dirty from_id (put_peer from_id (p\<lparr>ps_last_rx := sf_counter frame\<rparr>) h) in
        sread (map_err Wire (parse_payload (sf_payload frame))) h (\<lambda>payload.
          case payload of
            Hello sender receiver \<Rightarrow>
              if sender \<noteq> from_id \<or> receiver \<noteq> hs_server_id C h then (Err HelloMismatch, h) else (Ok [], h)
          | PayloadOk seq \<Rightarrow> (Ok (sf_payload frame), h)
          | Fail \<Rightarrow> (Ok (sf_payload frame), h)
          | Ciphertext ct \<Rightarrow> handle_ciphertext C from_id ct h)))"

subsection \<open>Two servers\<close>

type_synonym 'a presult = "(ServerError + 'a) \<times> (HomeServer \<times> HomeServer)"

definition on_from :: "(HomeServer \<Rightarrow> 'a sresult) \<Rightarrow> HomeServer \<times> HomeServer \<Rightarrow> 'a presult" where
  "on_from f s = (case f (fst s) of (r, h) \<Rightarrow> (r, (h, snd s)))"

definition on_to :: "(HomeServer \<Rightarrow> 'a sresult) \<Rightarrow> HomeServer \<times> HomeServer \<Rightarrow> 'a presult" where
  "on_to f s = (case f (snd s) of (r, h) \<Rightarrow> (r, (fst s, h)))"

definition pin_each_other :: "crypto \<Rightarrow> HomeServer \<times> HomeServer \<Rightarrow> unit presult" where
  "pin_each_other C s =
     sbind (on_from (pin C (hs_bundle (snd s))) s) (\<lambda>_ s.
     sbind (on_to (pin C (hs_bundle (fst s))) s) (\<lambda>_ s. (Ok (), s)))"

definition hello_needed :: "HomeServer \<Rightarrow> key \<Rightarrow> bool" where
  "hello_needed h peer \<longleftrightarrow> \<not> (case hm_get (hs_peers h) peer of Some p \<Rightarrow> ps_hello_done p | None \<Rightarrow> False)"

definition ensure_hello :: "crypto \<Rightarrow> HomeServer \<times> HomeServer \<Rightarrow> unit presult" where
  "ensure_hello C s =
     (let a_id = hs_server_id C (fst s); b_id = hs_server_id C (snd s) in
      if \<not> hello_needed (fst s) b_id \<and> \<not> hello_needed (snd s) a_id then (Ok (), s)
      else
        sbind (on_from (take_frame b_id (hello_payload a_id b_id)) s) (\<lambda>a_hello s.
        sbind (on_to (take_frame a_id (hello_payload b_id a_id)) s) (\<lambda>b_hello s.
        sbind (on_to (accept_frame C a_id a_hello) s) (\<lambda>_ s.
        sbind (on_from (accept_frame C b_id b_hello) s) (\<lambda>_ s.
          (Ok (), (set_hello_done b_id (fst s), set_hello_done a_id (snd s))))))))"

definition matches_fail :: "bytes \<Rightarrow> bool" where
  "matches_fail bs \<longleftrightarrow> parse_payload bs = Ok Fail"

definition forward_one :: "crypto \<Rightarrow> OutboundRow \<Rightarrow> HomeServer \<times> HomeServer \<Rightarrow> unit presult" where
  "forward_one C row s =
     (let src = hs_server_id C (fst s); dest = hs_server_id C (snd s) in
      sbind (on_from (take_frame dest (oe_ciphertext (or_outer row))) s) (\<lambda>frame s.
      sbind (on_to (accept_frame C src frame) s) (\<lambda>reply s.
      sbind (on_to (take_frame src reply) s) (\<lambda>reply_frame s.
      sbind (on_from (accept_frame C dest reply_frame) s) (\<lambda>payload s.
        if payload = fail_payload \<or> matches_fail payload then (Err Denied, s) else (Ok (), s))))))"

subsection \<open>The outbound queue\<close>

text \<open>\<open>outbound.remove(i)\<close> with its journal mark, and the back-off of a row that stays.\<close>

definition drop_outbound :: "nat \<Rightarrow> HomeServer \<Rightarrow> HomeServer" where
  "drop_outbound i h = mark_outbound_dirty
     (h\<lparr>hs_outbound := take i (hs_outbound h) @ drop (Suc i) (hs_outbound h)\<rparr>)"

definition back_off :: "u64 \<Rightarrow> OutboundRow \<Rightarrow> OutboundRow" where
  "back_off now row =
     (let back = min (saturating_double (or_backoff_secs row)) BACKOFF_CAP_SECS in
      row\<lparr>or_backoff_secs := back, or_next_attempt := saturating_add now back\<rparr>)"

definition back_off_at :: "u64 \<Rightarrow> nat \<Rightarrow> HomeServer \<Rightarrow> HomeServer" where
  "back_off_at now i h = mark_outbound_dirty
     (h\<lparr>hs_outbound := (hs_outbound h)[i := back_off now (hs_outbound h ! i)]\<rparr>)"

subsubsection \<open>What a hop leaves alone\<close>

text \<open>
  Handling a frame changes neither the outbound queue nor the keys nor the clock; the home
  server's own operations do not touch the peers either.
\<close>

definition env_view :: "HomeServer \<Rightarrow> OutboundRow list \<times> HpkeKeypair \<times> u64" where
  "env_view h = (hs_outbound h, hs_hpke h, hs_now h)"

definition fed_view :: "HomeServer \<Rightarrow> (key, PeerState) hashmap \<times> OutboundRow list \<times> HpkeKeypair \<times> u64" where
  "fed_view h = (hs_peers h, env_view h)"

lemma env_view_peer_ops [simp]:
  "env_view (put_peer k p h) = env_view h" "env_view (mark_peer_dirty k h) = env_view h"
  "env_view (reset_link k h) = env_view h" "env_view (set_hello_done k h) = env_view h"
  by (simp_all add: env_view_def put_peer_def mark_peer_dirty_def reset_link_def set_hello_done_def split: option.split)

lemma fed_view_home_ops [simp]:
  "fed_view (set_token h t k) = fed_view h" "fed_view (mark_token t h) = fed_view h"
  "fed_view (mark_identity i h) = fed_view h" "fed_view (put_mailbox i m h) = fed_view h"
  "fed_view (gc_mailbox i h) = fed_view h" "fed_view (burn_if_share t h) = fed_view h"
  "fed_view (remember_enc e n h) = fed_view h" "fed_view (h\<lparr>hs_dirty := d\<rparr>) = fed_view h"
  by (auto simp: fed_view_def env_view_def set_token_def mark_token_def mark_identity_def put_mailbox_def gc_mailbox_def
      burn_if_share_def remember_enc_def Let_def split: option.split TokenKind.split prod.split)

lemma fed_view_authorize [simp]: "fed_view (snd (authorize_append t h)) = fed_view h"
  by (auto simp: authorize_append_def Let_def split: option.split TokenKind.split)

lemma fed_view_append_inner [simp]: "fed_view (snd (append_inner inner h)) = fed_view h"
proof -
  have "fed_view (snd (append_inner inner h)) = fed_view (snd (authorize_append (ie_capability inner) h))"
    by (cases "authorize_append (ie_capability inner) h"; cases "fst (authorize_append (ie_capability inner) h)")
      (auto simp: append_inner_def Let_def sread_def ok_or_def map_err_def split: option.split sum.split)
  then show ?thesis by simp
qed

lemmas fed_view_sread = snd_sread [where P = "\<lambda>s. fed_view s = v" for v]
  and fed_view_sbind = snd_sbind [where P = "\<lambda>s. fed_view s = v" for v]

lemma fed_view_ingest [simp]: "fed_view (snd (ingest C outer h)) = fed_view h"
  unfolding ingest_def
  by (intro fed_view_sread refl) (auto split: option.split intro!: fed_view_sread fed_view_sbind)

lemma env_view_ingest [simp]: "env_view (snd (ingest C outer h)) = env_view h"
  using fed_view_ingest [of C outer h] by (simp add: fed_view_def)

lemma peers_ingest [simp]: "hs_peers (snd (ingest C outer h)) = hs_peers h"
  using fed_view_ingest [of C outer h] by (simp add: fed_view_def)

lemma env_view_frames [simp]:
  "env_view (snd (take_frame k payload h)) = env_view h"
  "env_view (snd (handle_ciphertext C k ct h)) = env_view h"
  "env_view (snd (accept_frame C k frame h)) = env_view h"
proof -
  let ?P = "\<lambda>s. env_view s = env_view h"
  show "?P (snd (take_frame k payload h))"
    unfolding take_frame_def by (rule snd_sread [where P = ?P]) auto
  have ct: "env_view (snd (handle_ciphertext C k ct h)) = env_view h" for h ct
    by (auto simp: handle_ciphertext_def Let_def sread_def split: option.split sum.split prod.split)
      (metis env_view_ingest env_view_peer_ops(1) snd_conv)+
  then show "?P (snd (handle_ciphertext C k ct h))" .
  show "?P (snd (accept_frame C k frame h))"
    unfolding accept_frame_def
    by (rule snd_sread [where P = ?P])
      (auto simp: Let_def ct split: S2sPayload.split intro!: snd_sread [where P = ?P])
qed

lemma snd_on:
  "snd (snd (on_from f s)) = snd s" "fst (snd (on_from f s)) = snd (f (fst s))"
  "fst (snd (on_to f s)) = fst s" "snd (snd (on_to f s)) = snd (f (snd s))"
  "fst (on_from f s) = fst (f (fst s))" "fst (on_to f s) = fst (f (snd s))"
  by (simp_all add: on_from_def on_to_def split: prod.split)

lemma env_view_forward [simp]:
  "env_view (fst (snd (forward_one C row s))) = env_view (fst s)"
  "env_view (snd (snd (forward_one C row s))) = env_view (snd s)"
proof -
  let ?P = "\<lambda>t. env_view (fst t) = env_view (fst s) \<and> env_view (snd t) = env_view (snd s)"
  have "?P (snd (forward_one C row s))"
    unfolding forward_one_def Let_def
    by (intro snd_sbind [where P = ?P]) (simp_all add: snd_on)
  then show "env_view (fst (snd (forward_one C row s))) = env_view (fst s)"
    "env_view (snd (snd (forward_one C row s))) = env_view (snd s)" by simp_all
qed

lemma forward_one_env:
  "forward_one C row s = (r, t) \<Longrightarrow> hs_outbound (fst t) = hs_outbound (fst s)"
  "forward_one C row s = (r, t) \<Longrightarrow> hs_server_id C (fst t) = hs_server_id C (fst s)"
  "forward_one C row s = (r, t) \<Longrightarrow> hs_server_id C (snd t) = hs_server_id C (snd s)"
  using env_view_forward [of C row s] by (simp_all add: env_view_def hs_server_id_def)

text \<open>
  One round of the \<open>while i < from.outbound.len()\<close> loop of \<open>pump\<close>: the next index, the
  statistics and the servers.
\<close>

definition pump_row :: "crypto \<Rightarrow> key \<Rightarrow> u64 \<Rightarrow> nat \<Rightarrow> PumpStats \<Rightarrow> HomeServer \<times> HomeServer \<Rightarrow> nat \<times> PumpStats \<times> (HomeServer \<times> HomeServer)" where
  "pump_row C dest now i st s =
     (let row = hs_outbound (fst s) ! i in
      if or_dest row \<noteq> dest then (Suc i, st, s)
      else if saturating_sub now (or_enqueued_at row) > OUTBOUND_MAX_AGE_SECS then
        (i, st\<lparr>st_expired := st_expired st + 1\<rparr>, (drop_outbound i (fst s), snd s))
      else if or_next_attempt row > now then (Suc i, st\<lparr>st_deferred := st_deferred st + 1\<rparr>, s)
      else
        (let (r, s') = forward_one C row s in
         case r of
           Ok _ \<Rightarrow> (i, st\<lparr>st_delivered := st_delivered st + 1\<rparr>, (drop_outbound i (fst s'), snd s'))
         | Err e \<Rightarrow>
             (let st' = st\<lparr>st_failed := st_failed st + 1\<rparr> in
              if e = Denied \<or> e = PeerRefused then (i, st', (drop_outbound i (fst s'), snd s'))
              else if e = CounterGap then
                (Suc i, st', (back_off_at now i (reset_link dest (fst s')), reset_link (hs_server_id C (fst s')) (snd s')))
              else (Suc i, st', (back_off_at now i (fst s'), snd s')))))"

lemma length_drop_outbound:
  "i < length (hs_outbound h) \<Longrightarrow> length (hs_outbound (drop_outbound i h)) = length (hs_outbound h) - 1"
  by (simp add: drop_outbound_def mark_outbound_dirty_def)

lemma length_back_off_at [simp]: "length (hs_outbound (back_off_at now i h)) = length (hs_outbound h)"
  by (simp add: back_off_at_def mark_outbound_dirty_def)

text \<open>A round either passes a row or removes it, so what is left to visit shrinks by one.\<close>

lemma pump_row_progress:
  assumes "i < length (hs_outbound (fst s))" "pump_row C dest now i st s = (i', st', s')"
  shows "length (hs_outbound (fst s')) - i' < length (hs_outbound (fst s)) - i"
proof -
  obtain r t where f: "forward_one C (hs_outbound (fst s) ! i) s = (r, t)"
    by (cases "forward_one C (hs_outbound (fst s) ! i) s")
  then have o: "hs_outbound (fst t) = hs_outbound (fst s)" by (rule forward_one_env)
  have "hs_outbound (reset_link k h) = hs_outbound h" for k h
    using env_view_peer_ops(3) [of k h] by (simp add: env_view_def)
  with assms o show ?thesis
    by (auto simp: pump_row_def f Let_def length_drop_outbound split: if_splits sum.splits)
qed

function pump_from :: "crypto \<Rightarrow> key \<Rightarrow> u64 \<Rightarrow> nat \<Rightarrow> PumpStats \<Rightarrow> HomeServer \<times> HomeServer \<Rightarrow> PumpStats \<times> (HomeServer \<times> HomeServer)" where
  "pump_from C dest now i st s =
     (if i < length (hs_outbound (fst s))
      then (case pump_row C dest now i st s of (i', st', s') \<Rightarrow> pump_from C dest now i' st' s')
      else (st, s))"
  by pat_completeness auto

termination pump_from
proof (relation "measure (\<lambda>(C, dest, now, i, st, s). length (hs_outbound (fst s)) - i)", goal_cases)
  case (2 C dest now i st s i' r st' s')
  then have r: "pump_row C dest now i st s = (i', st', s')" by simp
  from pump_row_progress [OF 2(1) r] r show ?case by simp
qed simp

declare pump_from.simps [simp del]

definition pump :: "crypto \<Rightarrow> HomeServer \<times> HomeServer \<Rightarrow> PumpStats presult" where
  "pump C s =
     (let src = hs_server_id C (fst s); dest = hs_server_id C (snd s) in
      if peer_refused (fst s) dest \<or> peer_refused (snd s) src then (Err PeerRefused, s)
      else if hm_get (hs_peers (fst s)) dest = None \<or> hm_get (hs_peers (snd s)) src = None then (Err NotPinned, s)
      else sbind (ensure_hello C s) (\<lambda>_ s.
        case pump_from C dest (hs_now (fst s)) 0 stats_default s of (st, s) \<Rightarrow> (Ok st, s)))"

end
