(* ===== verification/Federation_Props.thy ===== *)
theory Federation_Props
  imports Home_Props Federation
begin

text \<open>
  What the hop between servers guarantees: frames are processed in order and once, the loop
  over the outbound queue accounts for every row, both servers keep their invariants, a peer's
  rate is bounded, and a row that is due on a healthy link reaches the recipient's mailbox.
\<close>

section \<open>Lemmas\<close>

lemma hm_get_insert: "hm_get (hm_insert k v m) k' = (if k' = k then Some v else hm_get m k')"
  by (simp add: hm_get_def hm_insert_def update_conv')

lemma peer_put [simp]:
  "hm_get (hs_peers (put_peer k p h)) k' = (if k' = k then Some p else hm_get (hs_peers h) k')"
  "hm_get (hs_peers (mark_peer_dirty k h)) k' = hm_get (hs_peers h) k'"
  by (simp_all add: put_peer_def mark_peer_dirty_def hm_get_insert)

lemma env_fields:
  assumes "env_view h' = env_view h"
  shows "hs_outbound h' = hs_outbound h" "hs_now h' = hs_now h" "hs_server_id C h' = hs_server_id C h"
    "hs_hpke h' = hs_hpke h"
  using assms by (simp_all add: env_view_def hs_server_id_def)

subsection \<open>Appending does not read the peers\<close>

text \<open>The part of the state that frames change besides what \<open>ingest\<close> does.\<close>

definition set_fed :: "(key, PeerState) hashmap \<Rightarrow> key set \<Rightarrow> HomeServer \<Rightarrow> HomeServer" where
  "set_fed ps D h = h\<lparr>hs_peers := ps, hs_dirty := (hs_dirty h)\<lparr>hd_peers := D\<rparr>\<rparr>"

lemma set_fed_fields [simp]:
  "hs_mailboxes (set_fed ps D h) = hs_mailboxes h" "hs_tokens (set_fed ps D h) = hs_tokens h"
  "hs_now (set_fed ps D h) = hs_now h" "hs_limits (set_fed ps D h) = hs_limits h"
  "hs_seen_enc (set_fed ps D h) = hs_seen_enc h" "hs_hpke (set_fed ps D h) = hs_hpke h"
  "hs_peers (set_fed ps D h) = ps" "hd_seen_enc_cleared (hs_dirty (set_fed ps D h)) = hd_seen_enc_cleared (hs_dirty h)"
  by (simp_all add: set_fed_def)

lemma token_idx_fed [simp]: "token_idx (set_fed ps D h) t = token_idx h t" "token (set_fed ps D h) t = token h t"
  "mailbox_disabled (set_fed ps D h) i = mailbox_disabled h i"
  by (simp_all add: token_idx_def token_def mailbox_disabled_def)

lemma set_fed_ops [simp]:
  "set_token (set_fed ps D h) t k = set_fed ps D (set_token h t k)"
  "mark_token t (set_fed ps D h) = set_fed ps D (mark_token t h)"
  "mark_identity i (set_fed ps D h) = set_fed ps D (mark_identity i h)"
  "put_mailbox i m (set_fed ps D h) = set_fed ps D (put_mailbox i m h)"
  "burn_if_share t (set_fed ps D h) = set_fed ps D (burn_if_share t h)"
  "gc_mailbox i (set_fed ps D h) = set_fed ps D (gc_mailbox i h)"
  "remember_enc e n (set_fed ps D h) = set_fed ps D (remember_enc e n h)"
  by (simp_all add: set_fed_def set_token_def token_idx_def mark_token_def mark_identity_def put_mailbox_def
      burn_if_share_def token_def gc_mailbox_def remember_enc_def Let_def split: option.split TokenKind.split prod.split)

lemma authorize_fed: "authorize_append t (set_fed ps D h) = apsnd (set_fed ps D) (authorize_append t h)"
  by (simp add: authorize_append_def Let_def split: option.split TokenKind.split prod.split)

lemma append_at_fed: "append_at inner i m (set_fed ps D h) = set_fed ps D (append_at inner i m h)"
proof -
  have "stored inner i m (set_fed ps D h) = stored inner i m h" by (simp add: stored_def)
  moreover have "(set_fed ps D h)\<lparr>hs_dirty := (hs_dirty (set_fed ps D h))\<lparr>hd_mailbox_new := x\<rparr>\<rparr> =
      set_fed ps D (h\<lparr>hs_dirty := (hs_dirty h)\<lparr>hd_mailbox_new := x\<rparr>\<rparr>)"
    "hd_mailbox_new (hs_dirty (set_fed ps D h)) = hd_mailbox_new (hs_dirty h)" for x h
    by (simp_all add: set_fed_def)
  ultimately show ?thesis by (simp add: append_at_def Let_def)
qed

lemma append_inner_fed: "append_inner inner (set_fed ps D h) = apsnd (set_fed ps D) (append_inner inner h)"
  by (auto simp: append_inner_cases authorize_fed append_at_fed split: prod.split sum.split option.split)

lemma ingest_fed: "ingest C outer (set_fed ps D h) = apsnd (set_fed ps D) (ingest C outer h)"
  by (auto simp: ingest_def sread_def sbind_def append_inner_fed split: prod.split sum.split option.split)

lemma set_fed_peer:
  "put_peer k p h = set_fed (hm_insert k p (hs_peers h)) (hd_peers (hs_dirty h)) h"
  "mark_peer_dirty k h = set_fed (hs_peers h) (insert k (hd_peers (hs_dirty h))) h"
  "set_fed ps D (set_fed ps' D' h) = set_fed ps D h"
  by (simp_all add: set_fed_def put_peer_def mark_peer_dirty_def)

lemma set_fed_server_id [simp]: "hs_server_id C (set_fed ps D h) = hs_server_id C h"
  "hs_outbound (set_fed ps D h) = hs_outbound h" "env_view (set_fed ps D h) = env_view h"
  "hd_peers (hs_dirty (set_fed ps D h)) = D"
  by (simp_all add: hs_server_id_def) (simp_all add: set_fed_def env_view_def)

subsection \<open>Reasoning about a frame\<close>

text \<open>
  To show a property of the state a frame leaves, show it for the states the handling passes
  through: \<open>P\<close> up to the append, \<open>Q\<close> after it.
\<close>

lemma roll_window_same [simp]:
  "ps_last_rx (roll_window now p) = ps_last_rx p" "ps_next_tx (roll_window now p) = ps_next_tx p"
  "ps_refused (roll_window now p) = ps_refused p" "ps_hello_done (roll_window now p) = ps_hello_done p"
  "ps_seen_enc (roll_window now p) = ps_seen_enc p" "ps_window_sec (roll_window now p) = now"
  by (simp_all add: roll_window_def)

lemma remember_peer_same [simp]:
  "ps_last_rx (remember_peer e n p) = ps_last_rx p" "ps_next_tx (remember_peer e n p) = ps_next_tx p"
  "ps_refused (remember_peer e n p) = ps_refused p" "ps_hello_done (remember_peer e n p) = ps_hello_done p"
  "ps_window_sec (remember_peer e n p) = ps_window_sec p" "ps_window_ok (remember_peer e n p) = ps_window_ok p + 1"
  by (simp_all add: remember_peer_def Let_def)

lemma handle_ciphertext_rule:
  assumes "Q h" "\<And>p. hm_get (hs_peers h) k = Some p \<Longrightarrow> P (put_peer k (roll_window (hs_now h) p) h)"
    and imp: "\<And>h1. P h1 \<Longrightarrow> Q h1" and ing: "\<And>outer h1. P h1 \<Longrightarrow> Q (snd (ingest C outer h1))"
    and rem: "\<And>seq p h1. Q h1 \<Longrightarrow> hm_get (hs_peers h1) k = Some p \<Longrightarrow> ps_window_ok p < PEER_RATE_PER_SEC \<Longrightarrow>
      Q (put_peer k (remember_peer (take ENCAP_LEN ct) seq p) h1)"
  shows "Q (snd (handle_ciphertext C k ct h))"
proof (cases "hm_get (hs_peers h) k")
  case (Some p)
  let ?h = "put_peer k (roll_window (hs_now h) p) h"
  obtain r h1 where i: "ingest C \<lparr>oe_destination = hs_server_id C ?h, oe_ciphertext = ct\<rparr> ?h = (r, h1)" by fastforce
  then have "hs_peers h1 = hs_peers ?h" using peers_ingest by (metis snd_conv)
  then have g: "hm_get (hs_peers h1) k = Some (roll_window (hs_now h) p)" by simp
  have "P ?h" by (rule assms(2) [OF Some])
  then have "Q ?h" "Q h1" using imp ing [of ?h] i by (simp, metis snd_conv)
  then show ?thesis
    using assms(1) rem [OF \<open>Q h1\<close> g]
    by (auto simp: handle_ciphertext_def Let_def Some i g not_le split: option.split sum.split)
qed (use assms(1) in \<open>simp add: handle_ciphertext_def Let_def\<close>)

lemma accept_frame_next:
  assumes p: "hm_get (hs_peers h) k = Some p" "\<not> ps_refused p" "ps_last_rx p < sf_counter f" "sf_counter f = ps_last_rx p + 1"
    and "P (mark_peer_dirty k (put_peer k (p\<lparr>ps_last_rx := sf_counter f\<rparr>) h))"
    and imp: "\<And>h1. P h1 \<Longrightarrow> Q h1" and hand: "\<And>ct h1. P h1 \<Longrightarrow> Q (snd (handle_ciphertext C k ct h1))"
  shows "Q (snd (accept_frame C k f h))"
proof -
  define h1 where "h1 = mark_peer_dirty k (put_peer k (p\<lparr>ps_last_rx := sf_counter f\<rparr>) h)"
  have "Q h1" "\<And>ct. Q (snd (handle_ciphertext C k ct h1))" using assms(5) by (simp_all add: h1_def imp hand)
  moreover have "\<not> sf_counter f \<le> ps_last_rx p" using p(3) by simp
  ultimately show ?thesis
    using p(2,4) unfolding accept_frame_def Let_def p(1) h1_def [symmetric] ok_or_simps sread_simps
    by (simp add: sread_def split: sum.split S2sPayload.split)
qed

lemma accept_frame_rule:
  assumes "Q h" "\<And>p. hm_get (hs_peers h) k = Some p \<Longrightarrow> ps_last_rx p < sf_counter f \<Longrightarrow> sf_counter f = ps_last_rx p + 1 \<Longrightarrow>
      P (mark_peer_dirty k (put_peer k (p\<lparr>ps_last_rx := sf_counter f\<rparr>) h))"
    and "\<And>h1. P h1 \<Longrightarrow> Q h1" and "\<And>ct h1. P h1 \<Longrightarrow> Q (snd (handle_ciphertext C k ct h1))"
  shows "Q (snd (accept_frame C k f h))"
proof (cases "hm_get (hs_peers h) k")
  case (Some p)
  show ?thesis
  proof (cases "\<not> ps_refused p \<and> ps_last_rx p < sf_counter f \<and> sf_counter f = ps_last_rx p + 1")
    case True
    then have c: "\<not> ps_refused p" "ps_last_rx p < sf_counter f" "sf_counter f = ps_last_rx p + 1" by blast+
    show ?thesis by (rule accept_frame_next [where P = P and Q = Q and C = C, OF Some c assms(2) [OF Some c(2,3)] assms(3,4)])
  next
    case False
    then show ?thesis using assms(1) by (auto simp: accept_frame_def Some not_le)
  qed
qed (use assms(1) in \<open>simp add: accept_frame_def\<close>)

subsection \<open>Payloads\<close>

lemma parse_ok_payload [simp]: "parse_payload (ok_payload n) = Ok (PayloadOk n)"
  by (simp add: parse_payload_def ok_payload_def)

lemma parse_fail_payload [simp]: "parse_payload fail_payload = Ok Fail"
  by (simp add: parse_payload_def fail_payload_def)

lemma parse_hello_ok [simp]:
  "length s = 32 \<Longrightarrow> length r = 32 \<Longrightarrow> parse_payload (hello_payload s r) = Ok (Hello s r)"
  using parse_hello_payload [of s r]
  by (simp add: parse_payload_def hello_payload_def version_value_def PROTOCOL_VERSION_def)

lemma ok_not_fail [simp]: "ok_payload n \<noteq> fail_payload" "\<not> matches_fail (ok_payload n)" "matches_fail fail_payload"
  by (metis parse_fail_payload parse_ok_payload S2sPayload.distinct(7) sum.inject(2)) (simp_all add: matches_fail_def)

subsection \<open>A link in order\<close>

text \<open>
  The sender's record of a peer and the peer's record of the sender agree: pinned, not refused,
  greeted, and each side expects the counter the other sends next. The counters leave room for
  \<open>k\<close> further frames.
\<close>

definition pair_ready :: "nat \<Rightarrow> PeerState \<Rightarrow> PeerState \<Rightarrow> bool" where
  "pair_ready k p q \<longleftrightarrow> \<not> ps_refused p \<and> \<not> ps_refused q \<and> ps_hello_done p \<and> ps_hello_done q \<and>
     ps_next_tx p = ps_last_rx q + 1 \<and> ps_next_tx q = ps_last_rx p + 1 \<and>
     unat (ps_last_rx p) + k < 2 ^ 64 \<and> unat (ps_last_rx q) + k < 2 ^ 64"

definition link_ready :: "crypto \<Rightarrow> nat \<Rightarrow> HomeServer \<Rightarrow> HomeServer \<Rightarrow> bool" where
  "link_ready C k a b \<longleftrightarrow>
     (case (hm_get (hs_peers a) (hs_server_id C b), hm_get (hs_peers b) (hs_server_id C a)) of
        (Some p, Some q) \<Rightarrow> pair_ready k p q
      | _ \<Rightarrow> False)"

text \<open>The receiver would take this ciphertext now: under its rate limit and not seen before.\<close>

definition takes :: "HomeServer \<Rightarrow> key \<Rightarrow> bytes \<Rightarrow> bool" where
  "takes b src ct \<longleftrightarrow> ENCAP_LEN \<le> length ct \<and> parse_payload ct = Ok (Ciphertext ct) \<and>
     (case hm_get (hs_peers b) src of
        Some q \<Rightarrow> (ps_window_sec q \<noteq> hs_now b \<or> ps_window_ok q < PEER_RATE_PER_SEC) \<and>
                  hm_get (ps_seen_enc q) (take ENCAP_LEN ct) = None
      | None \<Rightarrow> False)"

lemma take_frame_ok:
  assumes "hm_get (hs_peers h) k = Some p" "\<not> ps_refused p"
  shows "take_frame k payload h = (Ok \<lparr>sf_counter = ps_next_tx p, sf_payload = payload\<rparr>,
    set_fed (hm_insert k (p\<lparr>ps_next_tx := ps_next_tx p + 1\<rparr>) (hs_peers h)) (insert k (hd_peers (hs_dirty h))) h)"
  using assms by (simp add: take_frame_def set_fed_def put_peer_def mark_peer_dirty_def)

lemma accept_ciphertext:
  assumes p: "hm_get (hs_peers b) k = Some q" "\<not> ps_refused q" "ps_last_rx q \<noteq> - 1"
    and t: "takes b k ct" and i: "ingest C \<lparr>oe_destination = hs_server_id C b, oe_ciphertext = ct\<rparr> b = (Ok seq, b1)"
  shows "\<exists>h' q'. accept_frame C k \<lparr>sf_counter = ps_last_rx q + 1, sf_payload = ct\<rparr> b = (Ok (ok_payload seq), h') \<and>
    hs_mailboxes h' = hs_mailboxes b1 \<and> env_view h' = env_view b \<and> hm_get (hs_peers h') k = Some q' \<and>
    ps_last_rx q' = ps_last_rx q + 1 \<and> ps_next_tx q' = ps_next_tx q \<and> \<not> ps_refused q' \<and> ps_hello_done q' = ps_hello_done q"
proof -
  let ?f = "\<lparr>sf_counter = ps_last_rx q + 1, sf_payload = ct\<rparr>"
  have lt: "ps_last_rx q < ps_last_rx q + 1" using unat_succ(2) p(3) by blast
  have ct: "\<not> length ct < ENCAP_LEN" "parse_payload ct = Ok (Ciphertext ct)"
    "ps_window_sec q \<noteq> hs_now b \<or> ps_window_ok q < PEER_RATE_PER_SEC" "hm_get (ps_seen_enc q) (take ENCAP_LEN ct) = None"
    using t p by (auto simp: takes_def)
  have i': "ingest C \<lparr>oe_destination = hs_server_id C b, oe_ciphertext = ct\<rparr> (set_fed ps D b) = (Ok seq, set_fed ps D b1)" for ps D
    by (simp add: ingest_fed i)
  obtain r h' where a: "accept_frame C k ?f b = (r, h')" by fastforce
  have "PEER_RATE_PER_SEC > 0" by (simp add: PEER_RATE_PER_SEC_def)
  then have "r = Ok (ok_payload seq) \<and> hs_mailboxes h' = hs_mailboxes b1 \<and>
      (\<exists>q'. hm_get (hs_peers h') k = Some q' \<and> ps_last_rx q' = ps_last_rx q + 1 \<and> ps_next_tx q' = ps_next_tx q \<and>
        \<not> ps_refused q' \<and> ps_hello_done q' = ps_hello_done q)"
    using a p lt ct
    by (auto simp: accept_frame_def handle_ciphertext_def roll_window_def remember_peer_def Let_def i' set_fed_peer hm_get_insert not_le split: if_splits)
  with a env_view_frames(3) [of C k ?f b] show ?thesis by auto
qed

lemma accept_ok_payload:
  assumes "hm_get (hs_peers a) k = Some p" "\<not> ps_refused p" "ps_last_rx p \<noteq> - 1"
  shows "accept_frame C k \<lparr>sf_counter = ps_last_rx p + 1, sf_payload = ok_payload seq\<rparr> a = (Ok (ok_payload seq),
    set_fed (hm_insert k (p\<lparr>ps_last_rx := ps_last_rx p + 1\<rparr>) (hs_peers a)) (insert k (hd_peers (hs_dirty a))) a)"
  using assms unat_succ(2) [of "ps_last_rx p"]
  by (auto simp: accept_frame_def Let_def set_fed_peer not_le)

lemma pair_readyD:
  assumes "pair_ready (Suc k) p q"
  shows "ps_last_rx p \<noteq> - 1" "ps_last_rx q \<noteq> - 1"
    "unat (ps_last_rx p + 1) + k < 2 ^ 64" "unat (ps_last_rx q + 1) + k < 2 ^ 64"
proof -
  have b: "unat (ps_last_rx p) + 1 < 2 ^ 64" "unat (ps_last_rx q) + 1 < 2 ^ 64" using assms by (simp_all add: pair_ready_def)
  then show n: "ps_last_rx p \<noteq> - 1" "ps_last_rx q \<noteq> - 1" using unat_max64 by fastforce+
  show "unat (ps_last_rx p + 1) + k < 2 ^ 64" "unat (ps_last_rx q + 1) + k < 2 ^ 64"
    using assms unat_succ(1) [OF n(1)] unat_succ(1) [OF n(2)] by (simp_all add: pair_ready_def)
qed

text \<open>The hop when the receiver answers \<open>ok\<close> and its reply is the one the sender expects.\<close>

lemma forward_one_reply:
  assumes p: "hm_get (hs_peers a) (hs_server_id C b) = Some p" "\<not> ps_refused p" "ps_last_rx p \<noteq> - 1"
    and acc: "accept_frame C (hs_server_id C a) \<lparr>sf_counter = ps_next_tx p, sf_payload = oe_ciphertext (or_outer row)\<rparr> b = (Ok (ok_payload seq), b2)"
    and q: "hm_get (hs_peers b2) (hs_server_id C a) = Some q" "\<not> ps_refused q" "ps_next_tx q = ps_last_rx p + 1"
  shows "\<exists>a' b'. forward_one C row (a, b) = (Ok (), (a', b')) \<and> hs_mailboxes b' = hs_mailboxes b2 \<and>
    env_view a' = env_view a \<and> env_view b' = env_view b2 \<and>
    hm_get (hs_peers a') (hs_server_id C b) = Some (p\<lparr>ps_next_tx := ps_next_tx p + 1, ps_last_rx := ps_last_rx p + 1\<rparr>) \<and>
    hm_get (hs_peers b') (hs_server_id C a) = Some (q\<lparr>ps_next_tx := ps_next_tx q + 1\<rparr>)"
proof -
  let ?src = "hs_server_id C a" and ?dest = "hs_server_id C b" and ?ct = "oe_ciphertext (or_outer row)"
  define a1 where "a1 = snd (take_frame ?dest ?ct a)"
  have ta: "take_frame ?dest ?ct a = (Ok \<lparr>sf_counter = ps_next_tx p, sf_payload = ?ct\<rparr>, a1)"
    and a1: "hm_get (hs_peers a1) ?dest = Some (p\<lparr>ps_next_tx := ps_next_tx p + 1\<rparr>)" "env_view a1 = env_view a"
    unfolding a1_def by (simp_all add: take_frame_ok [OF p(1,2)] hm_get_insert)
  define b3 where "b3 = snd (take_frame ?src (ok_payload seq) b2)"
  have tb: "take_frame ?src (ok_payload seq) b2 = (Ok \<lparr>sf_counter = ps_last_rx p + 1, sf_payload = ok_payload seq\<rparr>, b3)"
    and b3: "hm_get (hs_peers b3) ?src = Some (q\<lparr>ps_next_tx := ps_next_tx q + 1\<rparr>)" "env_view b3 = env_view b2"
      "hs_mailboxes b3 = hs_mailboxes b2"
    unfolding b3_def by (simp_all add: take_frame_ok [OF q(1,2)] q(3) hm_get_insert)
  define a4 where "a4 = snd (accept_frame C ?dest \<lparr>sf_counter = ps_last_rx p + 1, sf_payload = ok_payload seq\<rparr> a1)"
  have aa: "accept_frame C ?dest \<lparr>sf_counter = ps_last_rx p + 1, sf_payload = ok_payload seq\<rparr> a1 = (Ok (ok_payload seq), a4)"
    and a4: "hm_get (hs_peers a4) ?dest = Some (p\<lparr>ps_next_tx := ps_next_tx p + 1, ps_last_rx := ps_last_rx p + 1\<rparr>)" "env_view a4 = env_view a"
    using accept_ok_payload [OF a1(1)] p(2,3) a1(2) unfolding a4_def by (simp_all add: hm_get_insert)
  have "forward_one C row (a, b) = (Ok (), (a4, b3))"
    by (simp add: forward_one_def Let_def on_from_def on_to_def ta acc tb aa)
  then show ?thesis using a4 b3 by blast
qed

lemma link_readyE:
  assumes "link_ready C k a b"
  obtains p q where "hm_get (hs_peers a) (hs_server_id C b) = Some p" "hm_get (hs_peers b) (hs_server_id C a) = Some q"
    "pair_ready k p q" "\<not> ps_refused p" "\<not> ps_refused q" "ps_next_tx p = ps_last_rx q + 1" "ps_next_tx q = ps_last_rx p + 1"
    "ps_hello_done p" "ps_hello_done q"
  using assms by (auto simp: link_ready_def pair_ready_def split: option.splits)

lemma forward_one_delivers:
  assumes "link_ready C (Suc k) a b" "takes b (hs_server_id C a) (oe_ciphertext (or_outer row))"
    and i: "ingest C \<lparr>oe_destination = hs_server_id C b, oe_ciphertext = oe_ciphertext (or_outer row)\<rparr> b = (Ok seq, b1)"
  shows "\<exists>a' b'. forward_one C row (a, b) = (Ok (), (a', b')) \<and> link_ready C k a' b' \<and>
    hs_mailboxes b' = hs_mailboxes b1 \<and> env_view a' = env_view a"
proof -
  let ?src = "hs_server_id C a" and ?dest = "hs_server_id C b"
  from assms(1) obtain p q where p: "hm_get (hs_peers a) ?dest = Some p" and q: "hm_get (hs_peers b) ?src = Some q"
    and r: "pair_ready (Suc k) p q" "\<not> ps_refused p" "\<not> ps_refused q" "ps_next_tx p = ps_last_rx q + 1" "ps_next_tx q = ps_last_rx p + 1"
      "ps_hello_done p" "ps_hello_done q"
    by (rule link_readyE)
  note D = pair_readyD [OF r(1)]
  obtain b2 q' where acc: "accept_frame C ?src \<lparr>sf_counter = ps_next_tx p, sf_payload = oe_ciphertext (or_outer row)\<rparr> b = (Ok (ok_payload seq), b2)"
    and b2: "hs_mailboxes b2 = hs_mailboxes b1" "env_view b2 = env_view b" "hm_get (hs_peers b2) ?src = Some q'"
    and q': "ps_last_rx q' = ps_last_rx q + 1" "ps_next_tx q' = ps_last_rx p + 1" "\<not> ps_refused q'" "ps_hello_done q'"
    using accept_ciphertext [OF q r(3) D(2) assms(2) i] r by auto
  from forward_one_reply [OF p r(2) D(1) acc b2(3) q'(3,2)] obtain a' b' where f: "forward_one C row (a, b) = (Ok (), (a', b'))"
    and e: "hs_mailboxes b' = hs_mailboxes b2" "env_view a' = env_view a" "env_view b' = env_view b2"
    and pq: "hm_get (hs_peers a') ?dest = Some (p\<lparr>ps_next_tx := ps_next_tx p + 1, ps_last_rx := ps_last_rx p + 1\<rparr>)"
      "hm_get (hs_peers b') ?src = Some (q'\<lparr>ps_next_tx := ps_next_tx q' + 1\<rparr>)"
    by blast
  have "link_ready C k a' b'"
    using D(3,4) r q' by (simp add: link_ready_def env_fields(3) [OF e(2)] env_fields(3) [OF e(3)] env_fields(3) [OF b2(2)] pq pair_ready_def)
  with f e b2 show ?thesis by auto
qed

subsection \<open>One round of the loop\<close>

definition total :: "PumpStats \<Rightarrow> nat" where
  "total st = st_delivered st + st_failed st + st_deferred st + st_expired st"

lemma outbound_mark [simp]: "hs_outbound (mark_outbound_dirty h) = hs_outbound h"
  by (simp add: mark_outbound_dirty_def)

lemma outbound_reset [simp]: "hs_outbound (reset_link k h) = hs_outbound h"
  using env_fields(1) [OF env_view_peer_ops(3)] .

text \<open>
  A round replaces the row at \<open>i\<close> by nothing, by itself, or by itself backed off; only a row
  for the destination is dropped or backed off, and it is counted once.
\<close>

lemma pump_row_effect:
  assumes "i < length (hs_outbound (fst s))" "pump_row C dest now i st s = (i', st', s')"
  defines "row \<equiv> hs_outbound (fst s) ! i"
  shows "\<exists>new. hs_outbound (fst s') = take i (hs_outbound (fst s)) @ new @ drop (Suc i) (hs_outbound (fst s)) \<and>
    i' = i + length new \<and> (new = [row] \<or> or_dest row = dest \<and> (new = [] \<or> new = [back_off now row])) \<and>
    total st' = total st + (if or_dest row = dest then 1 else 0)"
proof -
  obtain r t where f: "forward_one C row s = (r, t)" by (cases "forward_one C row s")
  then have o: "hs_outbound (fst t) = hs_outbound (fst s)" by (rule forward_one_env)
  let ?n = "if or_dest row = dest then 1 else 0"
  consider (keep) "i' = Suc i" "hs_outbound (fst s') = hs_outbound (fst s)"
    | (gone) h where "or_dest row = dest" "i' = i" "fst s' = drop_outbound i h" "hs_outbound h = hs_outbound (fst s)"
    | (later) h where "or_dest row = dest" "i' = Suc i" "fst s' = back_off_at now i h" "hs_outbound h = hs_outbound (fst s)"
    using assms(2) f o by (auto simp: pump_row_def row_def [symmetric] Let_def split: if_splits sum.splits)
  then have "\<exists>new. hs_outbound (fst s') = take i (hs_outbound (fst s)) @ new @ drop (Suc i) (hs_outbound (fst s)) \<and>
    i' = i + length new \<and> (new = [row] \<or> or_dest row = dest \<and> (new = [] \<or> new = [back_off now row]))"
  proof cases
    case keep
    then show ?thesis using assms(1) by (intro exI [of _ "[row]"]) (simp add: row_def id_take_nth_drop [symmetric])
  next
    case gone
    then show ?thesis by (intro exI [of _ "[]"]) (simp add: drop_outbound_def)
  next
    case later
    then show ?thesis using assms(1)
      by (intro exI [of _ "[back_off now row]"]) (simp add: back_off_at_def row_def upd_conv_take_nth_drop)
  qed
  moreover have "total st' = total st + ?n"
    using assms(2) f by (auto simp: pump_row_def row_def [symmetric] Let_def total_def split: if_splits sum.splits)
  ultimately show ?thesis by blast
qed

text \<open>The queue before and after the loop, from the index on.\<close>

inductive pumped :: "u64 \<Rightarrow> key \<Rightarrow> OutboundRow list \<Rightarrow> OutboundRow list \<Rightarrow> bool" for now dest where
  empty: "pumped now dest [] []"
| keep: "pumped now dest rs rs' \<Longrightarrow> pumped now dest (r # rs) (r # rs')"
| gone: "pumped now dest rs rs' \<Longrightarrow> or_dest r = dest \<Longrightarrow> pumped now dest (r # rs) rs'"
| later: "pumped now dest rs rs' \<Longrightarrow> or_dest r = dest \<Longrightarrow> pumped now dest (r # rs) (back_off now r # rs')"

lemma back_off_same [simp]: "or_dest (back_off now r) = or_dest r" "or_outer (back_off now r) = or_outer r"
  by (simp_all add: back_off_def Let_def)

lemma pumped_effects:
  assumes "pumped now dest rs rs'"
  shows "filter (\<lambda>r. or_dest r \<noteq> dest) rs' = filter (\<lambda>r. or_dest r \<noteq> dest) rs"
    "subseq (map or_outer rs') (map or_outer rs)"
    "r \<in> set rs' \<Longrightarrow> r \<in> set rs \<or> (\<exists>r0 \<in> set rs. r = back_off now r0)"
  using assms by (induction) auto

lemma pump_from_pumped:
  "pump_from C dest now i st s = (st', s') \<Longrightarrow>
   \<exists>rs'. hs_outbound (fst s') = take i (hs_outbound (fst s)) @ rs' \<and>
     pumped now dest (drop i (hs_outbound (fst s))) rs' \<and>
     total st' = total st + length (filter (\<lambda>r. or_dest r = dest) (drop i (hs_outbound (fst s))))"
proof (induction C dest now i st s rule: pump_from.induct)
  case (1 C dest now i st s)
  let ?ob = "hs_outbound (fst s)"
  show ?case
  proof (cases "i < length ?ob")
    case False
    then show ?thesis using 1(2) by (simp add: pump_from.simps [of C dest now i] pumped.empty)
  next
    case True
    obtain i1 st1 s1 where r: "pump_row C dest now i st s = (i1, st1, s1)" by (metis prod_cases3)
    obtain new where new: "hs_outbound (fst s1) = take i ?ob @ new @ drop (Suc i) ?ob" "i1 = i + length new"
      "new = [?ob ! i] \<or> or_dest (?ob ! i) = dest \<and> (new = [] \<or> new = [back_off now (?ob ! i)])"
      "total st1 = total st + (if or_dest (?ob ! i) = dest then 1 else 0)"
      using pump_row_effect [OF True r] by blast
    have "pump_from C dest now i1 st1 s1 = (st', s')"
      using 1(2) True r by (simp add: pump_from.simps [of C dest now i])
    from 1(1) [OF True r [symmetric] refl this] obtain rs' where rs':
      "hs_outbound (fst s') = take i1 (hs_outbound (fst s1)) @ rs'"
      "pumped now dest (drop i1 (hs_outbound (fst s1))) rs'"
      "total st' = total st1 + length (filter (\<lambda>r. or_dest r = dest) (drop i1 (hs_outbound (fst s1))))"
      by blast
    have cut: "take i1 (hs_outbound (fst s1)) = take i ?ob @ new" "drop i1 (hs_outbound (fst s1)) = drop (Suc i) ?ob"
      using True by (simp_all add: new(1,2))
    have "pumped now dest (?ob ! i # drop (Suc i) ?ob) (new @ rs')"
      using rs'(2) new(3) by (auto simp: cut intro: pumped.intros)
    then show ?thesis
      using rs'(1,3) new(4) True by (auto simp: cut Cons_nth_drop_Suc [symmetric])
  qed
qed

lemma case_Ok_eq: "(case x of (st, s) \<Rightarrow> (Ok st, s)) = (Ok st', s') \<longleftrightarrow> x = (st', s')"
  by (cases x) auto

lemma pump_eq_Ok:
  assumes "pump C s = (Ok st, s')"
  obtains s1 where "ensure_hello C s = (Ok (), s1)"
    "pump_from C (hs_server_id C (snd s)) (hs_now (fst s1)) 0 stats_default s1 = (st, s')"
  using assms by (auto simp: pump_def Let_def result_simps case_Ok_eq split: if_splits)

lemma env_view_hello:
  "env_view (fst (snd (ensure_hello C s))) = env_view (fst s)"
  "env_view (snd (snd (ensure_hello C s))) = env_view (snd s)"
proof -
  let ?P = "\<lambda>t. env_view (fst t) = env_view (fst s) \<and> env_view (snd t) = env_view (snd s)"
  have "?P (snd (ensure_hello C s))"
    unfolding ensure_hello_def Let_def
    by (auto intro!: snd_sbind [where P = ?P] simp: snd_on)
  then show "env_view (fst (snd (ensure_hello C s))) = env_view (fst s)"
    "env_view (snd (snd (ensure_hello C s))) = env_view (snd s)" by simp_all
qed

lemma back_off_bound: "1 \<le> or_backoff_secs r \<Longrightarrow> 1 \<le> or_backoff_secs (back_off now r) \<and> or_backoff_secs (back_off now r) \<le> 300"
  by (auto simp: back_off_def Let_def BACKOFF_CAP_SECS_def min_def word_le_nat_alt sat_simps)

section \<open>Properties\<close>


text \<open>A row that is due and not too old.\<close>

definition row_due :: "HomeServer \<Rightarrow> OutboundRow \<Rightarrow> bool" where
  "row_due a row \<longleftrightarrow> or_next_attempt row \<le> hs_now a \<and> saturating_sub (hs_now a) (or_enqueued_at row) \<le> OUTBOUND_MAX_AGE_SECS"

lemma pump_single:
  assumes p: "hm_get (hs_peers a) (hs_server_id C b) = Some p" "\<not> ps_refused p" "ps_hello_done p"
    and q: "hm_get (hs_peers b) (hs_server_id C a) = Some q" "\<not> ps_refused q" "ps_hello_done q"
    and row: "hs_outbound a = [row]" "or_dest row = hs_server_id C b" "row_due a row"
    and f: "forward_one C row (a, b) = (Ok (), (a', b'))"
  shows "pump C (a, b) = (Ok \<lparr>st_delivered = 1, st_failed = 0, st_deferred = 0, st_expired = 0\<rparr>, (drop_outbound 0 a', b'))"
    "hs_outbound (drop_outbound 0 a') = []"
proof -
  have o: "hs_outbound a' = [row]" using forward_one_env(1) [OF f] row(1) by simp
  then show e: "hs_outbound (drop_outbound 0 a') = []" by (simp add: drop_outbound_def)
  have "pump_row C (hs_server_id C b) (hs_now a) 0 stats_default (a, b) =
      (0, \<lparr>st_delivered = 1, st_failed = 0, st_deferred = 0, st_expired = 0\<rparr>, (drop_outbound 0 a', b'))"
    using row f by (simp add: pump_row_def row_due_def not_less stats_default_def)
  then have "pump_from C (hs_server_id C b) (hs_now a) 0 stats_default (a, b) =
      (\<lparr>st_delivered = 1, st_failed = 0, st_deferred = 0, st_expired = 0\<rparr>, (drop_outbound 0 a', b'))"
    using row(1) e by (simp add: pump_from.simps)
  moreover have "ensure_hello C (a, b) = (Ok (), (a, b))"
    using p q by (simp add: ensure_hello_def Let_def hello_needed_def)
  ultimately show "pump C (a, b) = (Ok \<lparr>st_delivered = 1, st_failed = 0, st_deferred = 0, st_expired = 0\<rparr>, (drop_outbound 0 a', b'))"
    using p q by (simp add: pump_def Let_def peer_refused_def)
qed

lemma drop_outbound_fields [simp]:
  "hs_peers (drop_outbound i h) = hs_peers h" "hs_server_id C (drop_outbound i h) = hs_server_id C h"
  by (simp_all add: drop_outbound_def mark_outbound_dirty_def hs_server_id_def)

lemma link_ready_drop [simp]: "link_ready C k (drop_outbound i a) b = link_ready C k a b"
  by (simp only: link_ready_def drop_outbound_fields)


text \<open>
  C35. A sender whose counter has fallen behind loses rows: the receiver answers a frame whose
  counter it has already seen with \<open>ok\<close> without looking at it, and the sender counts the row
  as delivered and removes it, although the receiver's mailboxes are unchanged.
\<close>

theorem stale_counter_drops_row:
  assumes "hm_get (hs_peers a) (hs_server_id C b) = Some p" "\<not> ps_refused p" "ps_hello_done p"
    and "hm_get (hs_peers b) (hs_server_id C a) = Some q" "\<not> ps_refused q" "ps_hello_done q"
    and "ps_next_tx p \<le> ps_last_rx q" "ps_next_tx q = ps_last_rx p + 1" "ps_last_rx p \<noteq> - 1"
    and "hs_outbound a = [row]" "or_dest row = hs_server_id C b" "row_due a row"
  shows "\<exists>a' b'. pump C (a, b) = (Ok \<lparr>st_delivered = 1, st_failed = 0, st_deferred = 0, st_expired = 0\<rparr>, (a', b')) \<and>
    hs_outbound a' = [] \<and> hs_mailboxes b' = hs_mailboxes b"
proof -
  have acc: "accept_frame C (hs_server_id C a) \<lparr>sf_counter = ps_next_tx p, sf_payload = oe_ciphertext (or_outer row)\<rparr> b = (Ok (ok_payload 0), b)"
    using assms by (simp add: accept_frame_def)
  from forward_one_reply [OF assms(1,2,9) acc assms(4,5,8)] obtain a' b' where
    f: "forward_one C row (a, b) = (Ok (), (a', b'))" "hs_mailboxes b' = hs_mailboxes b" by blast
  show ?thesis using pump_single [OF assms(1-6,10-12) f(1)] f(2) by blast
qed

subsection \<open>Replay\<close>

text \<open>
  What may happen at a server between two frames of a peer: frames from and to any peer, pins,
  refusals, key rotations, and any operation of the home server; but no reset of the link.
\<close>

inductive link_step :: "crypto \<Rightarrow> HomeServer \<Rightarrow> HomeServer \<Rightarrow> bool" for C where
  home: "home_step C h h' \<Longrightarrow> link_step C h h'"
| accept: "link_step C h (snd (accept_frame C k f h))"
| take_out: "link_step C h (snd (take_frame k payload h))"
| pinned: "link_step C h (snd (pin C bundle h))"
| refused: "link_step C h (refuse k h)"
| rotated: "link_step C h (snd (apply_sign_rotate C k rot h))"
| greeted: "link_step C h (set_hello_done k h)"

inductive link_run :: "crypto \<Rightarrow> HomeServer \<Rightarrow> HomeServer \<Rightarrow> bool" for C where
  start: "link_run C h h"
| step: "link_run C h h' \<Longrightarrow> link_step C h' h'' \<Longrightarrow> link_run C h h''"

text \<open>The last counter received from a peer; none before it is pinned.\<close>

definition rx :: "HomeServer \<Rightarrow> key \<Rightarrow> u64 option" where
  "rx h k = map_option ps_last_rx (hm_get (hs_peers h) k)"

definition rx_le :: "HomeServer \<Rightarrow> HomeServer \<Rightarrow> bool" where
  "rx_le h h' \<longleftrightarrow> (\<forall>k c. rx h k = Some c \<longrightarrow> (\<exists>c'. rx h' k = Some c' \<and> c \<le> c'))"

lemma rx_le_refl [simp]: "rx_le h h" by (simp add: rx_le_def)

lemma rx_le_trans: "rx_le h h' \<Longrightarrow> rx_le h' h'' \<Longrightarrow> rx_le h h''"
  unfolding rx_le_def by (meson order_trans)

lemma rx_le_peers: "hs_peers h' = hs_peers h \<Longrightarrow> rx_le h h'"
  by (auto simp: rx_le_def rx_def)

lemma rx_le_put:
  "hm_get (hs_peers h) k = Some p \<Longrightarrow> ps_last_rx p \<le> ps_last_rx p' \<Longrightarrow> rx_le h (put_peer k p' h)"
  "hm_get (hs_peers h) k = None \<Longrightarrow> rx_le h (put_peer k p' h)"
  by (auto simp: rx_le_def rx_def)

lemma rx_mark [simp]: "rx (mark_peer_dirty k h) = rx h" "rx_le h (mark_peer_dirty k h') = rx_le h h'"
  by (simp_all add: rx_def rx_le_def fun_eq_iff)

lemma rx_handle: "rx_le h (snd (handle_ciphertext C k ct h))"
proof (rule handle_ciphertext_rule [where P = "rx_le h" and Q = "rx_le h"])
  show "rx_le h (put_peer k (roll_window (hs_now h) p) h)" if "hm_get (hs_peers h) k = Some p" for p
    using rx_le_put(1) [OF that] by simp
  show "rx_le h (put_peer k (remember_peer (take ENCAP_LEN ct) seq p) h1)" if "rx_le h h1" "hm_get (hs_peers h1) k = Some p" for seq p h1
    using rx_le_put(1) [OF that(2)] rx_le_trans [OF that(1)] by simp
qed (auto intro: rx_le_trans [OF _ rx_le_peers])

lemma rx_accept: "rx_le h (snd (accept_frame C k f h))"
proof (rule accept_frame_rule [where P = "rx_le h" and Q = "rx_le h"])
  show "rx_le h (mark_peer_dirty k (put_peer k (p\<lparr>ps_last_rx := sf_counter f\<rparr>) h))"
    if "hm_get (hs_peers h) k = Some p" "ps_last_rx p < sf_counter f" for p
    using rx_le_put(1) [OF that(1)] that(2) by simp
qed (auto intro: rx_le_trans [OF _ rx_handle])

lemmas peers_sread = snd_sread [where P = "\<lambda>s. hs_peers s = v" for v]
  and peers_sbind = snd_sbind [where P = "\<lambda>s. hs_peers s = v" for v]

lemma peers_small_ops [simp]:
  "hs_peers (mark_identity i h) = hs_peers h" "hs_peers (mark_token t h) = hs_peers h"
  "hs_peers (mark_prekeys i h) = hs_peers h" "hs_peers (mark_memberships i h) = hs_peers h"
  "hs_peers (mark_outbound_dirty h) = hs_peers h" "hs_peers (put_mailbox i m h) = hs_peers h"
  "hs_peers (set_token h t k) = hs_peers h" "hs_peers (gc_mailbox i h) = hs_peers h"
  "hs_peers (disable_mailbox i h) = hs_peers h" "hs_peers (snd (drop_tokens_exact dead h)) = hs_peers h"
  "hs_peers (gc_owner_nonces now h) = hs_peers h"
  by (auto simp: mark_defs put_mailbox_def set_token_def gc_mailbox_def disable_mailbox_def drop_tokens_exact_def
      gc_owner_nonces_def Let_def split: option.split prod.split)

lemma peers_tokens [simp]:
  "hs_peers (snd (sweep_dead_tokens_for i h)) = hs_peers h" "hs_peers (snd (sweep_dead_tokens h)) = hs_peers h"
  "hs_peers (snd (register_share_token i t ttl h)) = hs_peers h" "hs_peers (snd (register i pk h)) = hs_peers h"
  "hs_peers (snd (mint_contact_capability r i h)) = hs_peers h" "hs_peers (snd (check_owner C i auth now ex h)) = hs_peers h"
  by (simp_all add: sweep_dead_tokens_for_def sweep_dead_tokens_def register_share_token_def register_def
      mint_contact_capability_def check_owner_def Let_def sread_def split: sum.split)

lemma peers_append [simp]: "hs_peers (snd (append_inner inner h)) = hs_peers h"
  using fed_view_append_inner [of inner h] by (simp add: fed_view_def)

lemma peers_home_step: "home_step C h h' \<Longrightarrow> hs_peers h' = hs_peers h"
  by (cases rule: home_step.cases)
    (auto simp: rebind_host_def register_from_card_def observe_binding_def note_group_membership_def ingest_revocation_def
      mint_share_token_def rotate_contact_def publish_prekey_def fetch_prekey_def fetch_def ack_def enqueue_def
      enqueue_from_owner_def defer_outbound_def record_token_sweep_def Let_def
      intro!: peers_sread peers_sbind split: sum.split_asm option.split list.split TokenKind.split)

lemma rx_link_step: "link_step C h h' \<Longrightarrow> rx_le h h'"
proof (induction rule: link_step.cases)
  case (pinned h sb)
  then show ?case
    using rx_le_put [of h "sb_server_id sb"]
    by (cases "hm_get (hs_peers h) (sb_server_id sb)") (auto simp: pin_def Let_def sread_def split: sum.split)
next
  case (rotated h k rot)
  then show ?case
    using rx_le_put(1) [of h k] by (cases "hm_get (hs_peers h) k") (auto simp: apply_sign_rotate_def Let_def sread_def split: sum.split)
next
  case (take_out h k payload)
  then show ?case
    using rx_le_put(1) [of h k] by (cases "hm_get (hs_peers h) k") (auto simp: take_frame_def)
qed (auto simp: rx_accept refuse_def set_hello_done_def rx_le_put(1) rx_le_peers peers_home_step split: option.split)

lemma rx_link_run: "link_run C h h' \<Longrightarrow> rx_le h h'"
  by (induction rule: link_run.induct) (auto intro: rx_le_trans rx_link_step)

text \<open>
  C16. A frame is processed at most once: when a frame of a peer was accepted, then whatever the
  server does afterwards short of resetting the link, the same frame, or any earlier one, is
  answered \<open>ok\<close> and changes nothing (or is refused, if the peer was refused meanwhile).
\<close>

theorem frame_processed_once:
  assumes "accept_frame C k f h = (Ok reply, h1)" "link_run C h1 h2" "sf_counter f' \<le> sf_counter f"
  shows "accept_frame C k f' h2 = (Ok (ok_payload 0), h2) \<or> accept_frame C k f' h2 = (Err PeerRefused, h2)"
proof -
  obtain p where p: "hm_get (hs_peers h) k = Some p" using assms(1) by (auto simp: accept_frame_def result_simps)
  have "\<exists>c. rx h1 k = Some c \<and> sf_counter f \<le> c"
  proof (cases "sf_counter f \<le> ps_last_rx p")
    case True
    then show ?thesis using rx_accept [of h C k f] assms(1) p by (force simp: rx_le_def rx_def)
  next
    case False
    have ok: "\<not> ps_refused p" "sf_counter f = ps_last_rx p + 1"
      using assms(1) p False by (auto simp: accept_frame_def split: if_splits)
    let ?Q = "\<lambda>h'. \<exists>c. rx h' k = Some c \<and> sf_counter f \<le> c"
    have "?Q (snd (accept_frame C k f h))"
    proof (rule accept_frame_next [where P = ?Q and Q = ?Q])
      show "?Q (snd (handle_ciphertext C k ct h1))" if "?Q h1" for ct h1
        using rx_handle [of h1 C k ct] that unfolding rx_le_def by (meson order_trans)
    qed (use p ok False in \<open>auto simp: rx_def\<close>)
    then show ?thesis using assms(1) by simp
  qed
  with rx_link_run [OF assms(2)] obtain q where "hm_get (hs_peers h2) k = Some q" "sf_counter f \<le> ps_last_rx q"
    unfolding rx_le_def rx_def by (metis (no_types, lifting) map_option_eq_Some order_trans)
  then show ?thesis using assms(3) by (auto simp: accept_frame_def)
qed

subsection \<open>Rate of a peer\<close>

text \<open>
  Handling a list of ciphertexts from a peer while the clock stands, and how many of them were
  new to the peer's window and stored.
\<close>

definition fresh :: "HomeServer \<Rightarrow> key \<Rightarrow> bytes \<Rightarrow> bool" where
  "fresh h k ct = (case hm_get (hs_peers h) k of Some p \<Rightarrow> hm_get (ps_seen_enc p) (take ENCAP_LEN ct) = None | None \<Rightarrow> True)"

fun stored_from :: "crypto \<Rightarrow> key \<Rightarrow> bytes list \<Rightarrow> HomeServer \<Rightarrow> nat" where
  "stored_from C k [] h = 0"
| "stored_from C k (ct # cts) h =
     (case handle_ciphertext C k ct h of (r, h') \<Rightarrow>
        (if fresh h k ct \<and> is_ok r \<and> r \<noteq> Ok fail_payload then 1 else 0) + stored_from C k cts h')"

definition window :: "u64 \<Rightarrow> PeerState \<Rightarrow> nat" where
  "window now p = (if ps_window_sec p = now then ps_window_ok p else 0)"

lemma window_roll: "ps_window_ok (roll_window now p) = window now p"
  by (simp add: roll_window_def window_def)

lemma handle_window:
  assumes "hm_get (hs_peers h) k = Some p" "handle_ciphertext C k ct h = (r, h')"
  shows "hs_now h' = hs_now h" "\<exists>p'. hm_get (hs_peers h') k = Some p' \<and>
    (if fresh h k ct \<and> is_ok r \<and> r \<noteq> Ok fail_payload
     then window (hs_now h) p < PEER_RATE_PER_SEC \<and> window (hs_now h) p' = window (hs_now h) p + 1
     else window (hs_now h) p' = window (hs_now h) p)"
proof -
  show "hs_now h' = hs_now h" using env_fields(2) [OF env_view_frames(2) [of C k ct h]] by (simp add: assms(2))
  let ?h = "put_peer k (roll_window (hs_now h) p) h"
  obtain s h1 where i: "ingest C \<lparr>oe_destination = hs_server_id C ?h, oe_ciphertext = ct\<rparr> ?h = (s, h1)" by fastforce
  then have "hs_peers h1 = hs_peers ?h" using peers_ingest by (metis snd_conv)
  then have g: "hm_get (hs_peers h1) k = Some (roll_window (hs_now h) p)" by simp
  show "\<exists>p'. hm_get (hs_peers h') k = Some p' \<and>
    (if fresh h k ct \<and> is_ok r \<and> r \<noteq> Ok fail_payload
     then window (hs_now h) p < PEER_RATE_PER_SEC \<and> window (hs_now h) p' = window (hs_now h) p + 1
     else window (hs_now h) p' = window (hs_now h) p)"
    using assms i g
    by (auto simp: handle_ciphertext_def Let_def fresh_def window_roll window_def [of _ "roll_window _ _"]
        window_def [of _ "remember_peer _ _ _"] not_le split: if_splits option.splits sum.splits)
qed

lemma stored_from_window:
  "hm_get (hs_peers h) k = Some p \<Longrightarrow> stored_from C k cts h \<le> PEER_RATE_PER_SEC - window (hs_now h) p"
proof (induction cts arbitrary: h p)
  case (Cons ct cts)
  obtain r h' where e: "handle_ciphertext C k ct h = (r, h')" by fastforce
  from handle_window [OF Cons.prems e] obtain p' where "hs_now h' = hs_now h" "hm_get (hs_peers h') k = Some p'"
    "if fresh h k ct \<and> is_ok r \<and> r \<noteq> Ok fail_payload
     then window (hs_now h) p < PEER_RATE_PER_SEC \<and> window (hs_now h) p' = window (hs_now h) p + 1
     else window (hs_now h) p' = window (hs_now h) p" by blast
  with Cons.IH [of h' p'] show ?case by (auto simp: e split: if_splits)
qed simp

lemma stored_from_unpinned: "hm_get (hs_peers h) k = None \<Longrightarrow> stored_from C k cts h = 0"
  by (induction cts arbitrary: h) (auto simp: handle_ciphertext_def Let_def)

text \<open>
  Of any number of ciphertexts a peer sends within one second, at most 100 that are new are
  stored; the rest are answered \<open>fail\<close>.
\<close>

theorem peer_rate_limit: "stored_from C k cts h \<le> 100"
proof (cases "hm_get (hs_peers h) k")
  case (Some p)
  then show ?thesis using stored_from_window [OF Some, of C cts] by (simp add: PEER_RATE_PER_SEC_def)
qed (simp add: stored_from_unpinned)

subsection \<open>Both servers keep their invariant\<close>

definition peer_ok :: "PeerState \<Rightarrow> bool" where
  "peer_ok p \<longleftrightarrow> ps_window_ok p \<le> PEER_RATE_PER_SEC \<and> hm_wf (ps_seen_enc p) \<and> length (ps_seen_enc p) \<le> HPKE_ENC_WINDOW"

definition row_ok :: "OutboundRow \<Rightarrow> bool" where
  "row_ok r \<longleftrightarrow> 1 \<le> or_backoff_secs r \<and> or_backoff_secs r \<le> BACKOFF_CAP_SECS"

definition peers_ok :: "HomeServer \<Rightarrow> bool" where
  "peers_ok h \<longleftrightarrow> hm_wf (hs_peers h) \<and> (\<forall>k p. hm_get (hs_peers h) k = Some p \<longrightarrow> peer_ok p)"

definition fed_inv :: "nat \<Rightarrow> HomeServer \<Rightarrow> bool" where
  "fed_inv n h \<longleftrightarrow> home_inv n h \<and> peers_ok h \<and> (\<forall>r \<in> set (hs_outbound h). row_ok r)"

lemma fed_inv_put [intro]: "fed_inv n h \<Longrightarrow> peer_ok p \<Longrightarrow> fed_inv n (put_peer k p h)"
  by (auto simp: fed_inv_def peers_ok_def home_inv_def) (auto simp: put_peer_def hm.wf_ins)

lemma fed_inv_mark [simp]: "fed_inv n (mark_peer_dirty k h) = fed_inv n h" "fed_inv n (mark_outbound_dirty h) = fed_inv n h"
  by (simp_all add: fed_inv_def home_inv_def peers_ok_def mark_peer_dirty_def mark_outbound_dirty_def)

lemma fed_inv_get: "fed_inv n h \<Longrightarrow> hm_get (hs_peers h) k = Some p \<Longrightarrow> peer_ok p"
  by (simp add: fed_inv_def peers_ok_def)

lemma fed_inv_mono: "fed_inv n h \<Longrightarrow> n \<le> n' \<Longrightarrow> fed_inv n' h"
  by (auto simp: fed_inv_def home_inv_def intro: home_inv_mono)

lemma peer_ok_updates [intro, simp]:
  "peer_ok p \<Longrightarrow> peer_ok (roll_window now p)"
  "peer_ok (p\<lparr>ps_last_rx := x\<rparr>) = peer_ok p" "peer_ok (p\<lparr>ps_next_tx := x\<rparr>) = peer_ok p"
  "peer_ok (p\<lparr>ps_refused := b\<rparr>) = peer_ok p" "peer_ok (p\<lparr>ps_hello_done := b\<rparr>) = peer_ok p"
  "peer_ok (p\<lparr>ps_bundle := sb\<rparr>) = peer_ok p" "peer_ok (ps_new sb)"
  by (simp_all add: peer_ok_def roll_window_def ps_new_def hm_wf_def)

lemma peer_ok_remember: "peer_ok p \<Longrightarrow> ps_window_ok p < PEER_RATE_PER_SEC \<Longrightarrow> peer_ok (remember_peer e n p)"
  using length_hm_insert [of e n "ps_seen_enc p"] length_hm_insert [of e n "[]"]
  by (auto simp: peer_ok_def remember_peer_def Let_def hm.wf_ins hm_wf_def [of "[]"] HPKE_ENC_WINDOW_def)

lemma fed_inv_ingest:
  assumes "fed_inv n h" "n + 2 < 2 ^ 64"
  shows "fed_inv (Suc n) (snd (ingest C outer h))"
  using assms inv_ingest [of n h C outer] env_fields(1) [OF env_view_ingest [of C outer h]]
  by (simp add: fed_inv_def home_inv_def peers_ok_def)

lemma fed_inv_handle:
  assumes "fed_inv n h" "n + 2 < 2 ^ 64"
  shows "fed_inv (Suc n) (snd (handle_ciphertext C k ct h))"
proof (rule handle_ciphertext_rule [where P = "fed_inv n" and Q = "fed_inv (Suc n)"])
  show "fed_inv n (put_peer k (roll_window (hs_now h) p) h)" if "hm_get (hs_peers h) k = Some p" for p
    using assms(1) fed_inv_get [OF assms(1) that] by blast
qed (auto intro: fed_inv_mono [OF assms(1)] fed_inv_mono fed_inv_ingest [OF _ assms(2)] fed_inv_put peer_ok_remember fed_inv_get)

lemma fed_inv_frames:
  assumes "fed_inv n h" "n + 2 < 2 ^ 64"
  shows "fed_inv (Suc n) (snd (accept_frame C k f h))" "fed_inv n (snd (take_frame k payload h))"
proof -
  show "fed_inv (Suc n) (snd (accept_frame C k f h))"
  proof (rule accept_frame_rule [where P = "fed_inv n" and Q = "fed_inv (Suc n)"])
    show "fed_inv n (mark_peer_dirty k (put_peer k (p\<lparr>ps_last_rx := sf_counter f\<rparr>) h))" if "hm_get (hs_peers h) k = Some p" for p
      using assms(1) fed_inv_get [OF assms(1) that] by (simp add: fed_inv_put)
  qed (auto intro: fed_inv_mono [OF assms(1)] fed_inv_mono fed_inv_handle [OF _ assms(2)])
  show "fed_inv n (snd (take_frame k payload h))"
    using assms(1) fed_inv_get [OF assms(1)] by (auto simp: take_frame_def sread_def fed_inv_put split: sum.split)
qed

definition rows_ok :: "HomeServer \<Rightarrow> bool" where
  "rows_ok h \<longleftrightarrow> (\<forall>r \<in> set (hs_outbound h). row_ok r)"

lemmas rows_sread = snd_sread [where P = rows_ok] and rows_sbind = snd_sbind [where P = rows_ok]

lemma rows_ok_frame [simp]:
  "rows_ok (mark_identity i h) = rows_ok h" "rows_ok (mark_token t h) = rows_ok h"
  "rows_ok (mark_prekeys i h) = rows_ok h" "rows_ok (mark_memberships i h) = rows_ok h"
  "rows_ok (mark_outbound_dirty h) = rows_ok h" "rows_ok (put_mailbox i m h) = rows_ok h"
  "rows_ok (set_token h t k) = rows_ok h" "rows_ok (gc_mailbox i h) = rows_ok h"
  "rows_ok (disable_mailbox i h) = rows_ok h" "rows_ok (snd (drop_tokens_exact dead h)) = rows_ok h"
  "rows_ok (gc_owner_nonces now h) = rows_ok h"
  "rows_ok (h\<lparr>hs_dirty := d\<rparr>) = rows_ok h" "rows_ok (h\<lparr>hs_tokens := ts\<rparr>) = rows_ok h"
  "rows_ok (h\<lparr>hs_directory := dir\<rparr>) = rows_ok h" "rows_ok (h\<lparr>hs_memberships := ms\<rparr>) = rows_ok h"
  "rows_ok (h\<lparr>hs_prekeys := pk\<rparr>) = rows_ok h" "rows_ok (h\<lparr>hs_owner_nonces := on\<rparr>) = rows_ok h"
  "rows_ok (h\<lparr>hs_now := u\<rparr>) = rows_ok h" "rows_ok (h\<lparr>hs_bundle := sb\<rparr>) = rows_ok h"
  "rows_ok (h\<lparr>hs_last_token_sweep := u\<rparr>) = rows_ok h"
  by (auto simp: rows_ok_def mark_defs put_mailbox_def set_token_def gc_mailbox_def disable_mailbox_def drop_tokens_exact_def
      gc_owner_nonces_def Let_def split: option.split prod.split)

lemma rows_ok_tokens [simp]:
  "rows_ok (snd (sweep_dead_tokens_for i h)) = rows_ok h" "rows_ok (snd (sweep_dead_tokens h)) = rows_ok h"
  "rows_ok (snd (register_share_token i t ttl h)) = rows_ok h" "rows_ok (snd (register i pk h)) = rows_ok h"
  "rows_ok (snd (mint_contact_capability r i h)) = rows_ok h" "rows_ok (snd (check_owner C i auth now ex h)) = rows_ok h"
  by (simp_all add: sweep_dead_tokens_for_def sweep_dead_tokens_def register_share_token_def register_def
      mint_contact_capability_def check_owner_def Let_def sread_def split: sum.split)

lemma rows_ok_append [simp]:
  "rows_ok (snd (append_inner inner h)) = rows_ok h" "rows_ok (snd (ingest C outer h)) = rows_ok h"
  using fed_view_append_inner [of inner h] fed_view_ingest [of C outer h]
  by (simp_all add: fed_view_def env_view_def rows_ok_def)

lemma rows_ok_enqueue: "rows_ok h \<Longrightarrow> rows_ok (snd (enqueue C outer h))"
  by (auto simp: enqueue_def intro!: rows_sbind)
    (simp add: rows_ok_def row_ok_def BACKOFF_CAP_SECS_def)

lemma rows_ok_defer: "rows_ok h \<Longrightarrow> rows_ok (defer_outbound t h)"
  by (auto simp: defer_outbound_def Let_def rows_ok_def row_ok_def)

lemma rows_ok_home_step: "home_step C h h' \<Longrightarrow> rows_ok h \<Longrightarrow> rows_ok h'"
  by (cases rule: home_step.cases)
    (auto simp: rebind_host_def register_from_card_def observe_binding_def note_group_membership_def ingest_revocation_def
      mint_share_token_def rotate_contact_def publish_prekey_def fetch_prekey_def fetch_def ack_def
      enqueue_from_owner_def record_token_sweep_def Let_def rows_ok_enqueue rows_ok_defer
      intro!: rows_sread rows_sbind split: sum.split_asm option.split list.split TokenKind.split)

lemma fed_inv_alt: "fed_inv n h \<longleftrightarrow> home_invg {} n h \<and> peers_ok h \<and> rows_ok h"
  by (simp add: fed_inv_def home_inv_def rows_ok_def)

lemma fed_inv_home_step:
  assumes "home_step C h h'" "fed_inv n h" "n + 2 < 2 ^ 64"
  shows "fed_inv (Suc n) h'"
  using assms inv_home_step [OF assms(1)] rows_ok_home_step [OF assms(1)] peers_home_step [OF assms(1)]
  by (simp add: fed_inv_alt peers_ok_def)

lemma fed_inv_peer_ops:
  assumes "fed_inv n h"
  shows "fed_inv n (snd (pin C bun h))" "fed_inv n (refuse k h)" "fed_inv n (snd (apply_sign_rotate C k rot h))"
    "fed_inv n (set_hello_done k h)" "fed_inv n (reset_link k h)"
  using assms fed_inv_get [OF assms]
  by (auto simp: pin_def refuse_def apply_sign_rotate_def set_hello_done_def reset_link_def Let_def sread_def fed_inv_put
      split: sum.split option.split)

lemma fed_inv_link_step:
  assumes "link_step C h h'" "fed_inv n h" "n + 2 < 2 ^ 64"
  shows "fed_inv (Suc n) h'"
  using assms(1)
  by cases (auto intro: fed_inv_home_step [OF _ assms(2,3)] fed_inv_frames [OF assms(2,3)]
      fed_inv_mono [OF fed_inv_peer_ops(1) [OF assms(2)]] fed_inv_mono [OF fed_inv_peer_ops(2) [OF assms(2)]]
      fed_inv_mono [OF fed_inv_peer_ops(3) [OF assms(2)]] fed_inv_mono [OF fed_inv_peer_ops(4) [OF assms(2)]]
      fed_inv_mono [OF fed_inv_frames(2) [OF assms(2,3)]])

definition pair_inv :: "nat \<Rightarrow> HomeServer \<times> HomeServer \<Rightarrow> bool" where
  "pair_inv n s \<longleftrightarrow> fed_inv n (fst s) \<and> fed_inv n (snd s)"

lemma pair_inv_on:
  assumes "pair_inv n s" "n + 2 < 2 ^ 64"
  shows "pair_inv n (snd (on_from (take_frame k payload) s))" "pair_inv n (snd (on_to (take_frame k payload) s))"
    "pair_inv (Suc n) (snd (on_from (accept_frame C k f) s))" "pair_inv (Suc n) (snd (on_to (accept_frame C k f) s))"
  using assms by (auto simp: pair_inv_def snd_on intro: fed_inv_frames fed_inv_mono)

lemma pair_inv_mono: "pair_inv n s \<Longrightarrow> n \<le> n' \<Longrightarrow> pair_inv n' s"
  by (auto simp: pair_inv_def intro: fed_inv_mono)

text \<open>Sequencing where the bound grows from step to step.\<close>

lemma pair_inv_sbind:
  assumes "pair_inv n (snd m)" "n \<le> n'" "\<And>x s. pair_inv n s \<Longrightarrow> pair_inv n' (snd (f x s))"
  shows "pair_inv n' (snd (sbind m f))"
  using assms by (cases m; cases "fst m") (auto intro: pair_inv_mono)

lemma pair_inv_forward:
  assumes "pair_inv n s" "n + 3 < 2 ^ 64"
  shows "pair_inv (n + 2) (snd (forward_one C row s))"
  unfolding forward_one_def Let_def
proof (rule pair_inv_sbind [of n], goal_cases)
  case (3 frame s1)
  then show ?case
  proof (rule pair_inv_sbind [OF pair_inv_on(4)], goal_cases)
    case (3 reply s2)
    show ?case
    proof (rule pair_inv_sbind [OF pair_inv_on(2) [OF 3]], goal_cases)
      case (3 reply_frame s3)
      then have "pair_inv (n + 2) (snd (on_from (accept_frame C (hs_server_id C (snd s)) reply_frame) s3))"
        using pair_inv_on(3) [of "Suc n" s3] assms(2) by simp
      then show ?case by (rule pair_inv_sbind) simp_all
    qed (use assms(2) in simp_all)
  qed (use assms(2) in simp_all)
qed (use assms pair_inv_on(1) [OF assms(1)] in simp_all)

lemma pair_inv_hello:
  assumes "pair_inv n s" "n + 3 < 2 ^ 64"
  shows "pair_inv (n + 2) (snd (ensure_hello C s))"
proof -
  let ?a = "hs_server_id C (fst s)" and ?b = "hs_server_id C (snd s)"
  have "pair_inv (n + 2) (snd (
      sbind (on_from (take_frame ?b (hello_payload ?a ?b)) s) (\<lambda>a_hello s.
      sbind (on_to (take_frame ?a (hello_payload ?b ?a)) s) (\<lambda>b_hello s.
      sbind (on_to (accept_frame C ?a a_hello) s) (\<lambda>_ s.
      sbind (on_from (accept_frame C ?b b_hello) s) (\<lambda>_ s.
        (Ok (), (set_hello_done ?b (fst s), set_hello_done ?a (snd s)))))))))"
  proof (rule pair_inv_sbind [OF pair_inv_on(1) [OF assms(1)]], goal_cases)
    case (3 a_hello s1)
    show ?case
    proof (rule pair_inv_sbind [OF pair_inv_on(2) [OF 3]], goal_cases)
      case (3 b_hello s2)
      show ?case
      proof (rule pair_inv_sbind [OF pair_inv_on(4) [OF 3]], goal_cases)
        case (3 _ s3)
        then have "pair_inv (n + 2) (snd (on_from (accept_frame C ?b b_hello) s3))"
          using pair_inv_on(3) [of "Suc n" s3] assms(2) by simp
        then show ?case by (rule pair_inv_sbind) (auto simp: pair_inv_def intro: fed_inv_peer_ops)
      qed (use assms(2) in simp_all)
    qed (use assms(2) in simp_all)
  qed (use assms(2) in simp_all)
  then show ?thesis using pair_inv_mono [OF assms(1)] by (simp add: ensure_hello_def Let_def)
qed

lemma fed_inv_outbound: "fed_inv n h \<Longrightarrow> (\<And>r. r \<in> set rs \<Longrightarrow> row_ok r) \<Longrightarrow> fed_inv n (h\<lparr>hs_outbound := rs\<rparr>)"
  by (simp add: fed_inv_alt peers_ok_def rows_ok_def)

lemma row_ok_back_off: "row_ok r \<Longrightarrow> row_ok (back_off now r)"
  using back_off_bound [of r now] by (simp add: row_ok_def BACKOFF_CAP_SECS_def)

lemma fed_inv_rows: "fed_inv n h \<Longrightarrow> r \<in> set (hs_outbound h) \<Longrightarrow> row_ok r"
  by (simp add: fed_inv_def)

lemma fed_inv_drop:
  assumes "fed_inv n h"
  shows "fed_inv n (drop_outbound i h)"
  unfolding drop_outbound_def fed_inv_mark
  by (rule fed_inv_outbound [OF assms]) (auto dest: in_set_takeD in_set_dropD intro: fed_inv_rows [OF assms])

lemma fed_inv_back_off:
  assumes "fed_inv n h" "i < length (hs_outbound h)"
  shows "fed_inv n (back_off_at now i h)"
  unfolding back_off_at_def fed_inv_mark
proof (rule fed_inv_outbound [OF assms(1)])
  fix r
  assume "r \<in> set ((hs_outbound h)[i := back_off now (hs_outbound h ! i)])"
  then have "r \<in> insert (back_off now (hs_outbound h ! i)) (set (hs_outbound h))"
    by (rule set_update_subset_insert [THEN subsetD])
  then show "row_ok r"
    using fed_inv_rows [OF assms(1), of r] row_ok_back_off [OF fed_inv_rows [OF assms(1) nth_mem [OF assms(2)]]] by blast
qed

lemma pair_inv_row:
  assumes "pair_inv n s" "n + 3 < 2 ^ 64" "i < length (hs_outbound (fst s))" "pump_row C dest now i st s = (i', st', s')"
  shows "pair_inv (n + 2) s'"
proof -
  obtain r t where f: "forward_one C (hs_outbound (fst s) ! i) s = (r, t)" by (cases "forward_one C (hs_outbound (fst s) ! i) s")
  have t: "fed_inv (n + 2) (fst t)" "fed_inv (n + 2) (snd t)" "i < length (hs_outbound (fst t))"
    using pair_inv_forward [OF assms(1,2), of C "hs_outbound (fst s) ! i"] forward_one_env(1) [OF f] assms(3)
    by (simp_all add: f pair_inv_def)
  have s: "pair_inv (n + 2) s" using pair_inv_mono [OF assms(1)] by simp
  show ?thesis
    using assms(4) s t
    by (auto simp: pump_row_def f Let_def pair_inv_def fed_inv_drop fed_inv_back_off fed_inv_peer_ops(5) split: if_splits sum.splits)
qed

lemma pair_inv_pump_from:
  "pump_from C dest now i st s = (st', s') \<Longrightarrow> pair_inv n s \<Longrightarrow> n + 2 * (length (hs_outbound (fst s)) - i) + 3 < 2 ^ 64 \<Longrightarrow>
   pair_inv (n + 2 * (length (hs_outbound (fst s)) - i)) s'"
proof (induction C dest now i st s arbitrary: n rule: pump_from.induct)
  case (1 C dest now i st s)
  show ?case
  proof (cases "i < length (hs_outbound (fst s))")
    case False
    then show ?thesis using 1(2,3) by (simp add: pump_from.simps [of C dest now i])
  next
    case True
    obtain i1 st1 s1 where r: "pump_row C dest now i st s = (i1, st1, s1)" by (metis prod_cases3)
    have "pump_from C dest now i1 st1 s1 = (st', s')"
      using 1(2) True r by (simp add: pump_from.simps [of C dest now i])
    note IH = 1(1) [OF True r [symmetric] refl this]
    have less: "length (hs_outbound (fst s1)) - i1 + 1 \<le> length (hs_outbound (fst s)) - i"
      using pump_row_progress [OF True r] by simp
    have "pair_inv (n + 2) s1" using pair_inv_row [OF 1(3) _ True r] 1(4) True by simp
    from pair_inv_mono [OF IH [OF this]] show ?thesis using less 1(4) by simp
  qed
qed

lemma pair_inv_pump:
  assumes "pair_inv n s" "n + 2 * length (hs_outbound (fst s)) + 5 < 2 ^ 64"
  shows "pair_inv (n + 2 + 2 * length (hs_outbound (fst s))) (snd (pump C s))"
proof -
  obtain r s1 where h: "ensure_hello C s = (r, s1)" by (cases "ensure_hello C s")
  have i1: "pair_inv (n + 2) s1" using pair_inv_hello [OF assms(1), of C] assms(2) by (simp add: h)
  have o: "hs_outbound (fst s1) = hs_outbound (fst s)" using env_fields(1) [OF env_view_hello(1) [of C s]] by (simp add: h)
  obtain st s2 where p: "pump_from C (hs_server_id C (snd s)) (hs_now (fst s1)) 0 stats_default s1 = (st, s2)"
    by (cases "pump_from C (hs_server_id C (snd s)) (hs_now (fst s1)) 0 stats_default s1")
  have "pair_inv (n + 2 + 2 * length (hs_outbound (fst s))) s2"
    using pair_inv_pump_from [OF p i1] assms(2) by (simp add: o)
  moreover have "pair_inv (n + 2 + 2 * length (hs_outbound (fst s))) s" "pair_inv (n + 2 + 2 * length (hs_outbound (fst s))) s1"
    using pair_inv_mono [OF assms(1)] pair_inv_mono [OF i1] by simp_all
  ultimately show ?thesis by (cases r) (auto simp: pump_def Let_def h p)
qed

text \<open>
  Two servers and what happens to them: steps of either, link resets, and \<open>pump\<close> in either
  direction. The bound counts the appends there can have been.
\<close>

inductive net_run :: "crypto \<Rightarrow> nat \<Rightarrow> HomeServer \<times> HomeServer \<Rightarrow> HomeServer \<times> HomeServer \<Rightarrow> bool" for C where
  start: "net_run C 0 s s"
| left: "net_run C n s (a, b) \<Longrightarrow> link_step C a a' \<Longrightarrow> net_run C (Suc n) s (a', b)"
| right: "net_run C n s (a, b) \<Longrightarrow> link_step C b b' \<Longrightarrow> net_run C (Suc n) s (a, b')"
| reset_left: "net_run C n s (a, b) \<Longrightarrow> net_run C (Suc n) s (reset_link k a, b)"
| reset_right: "net_run C n s (a, b) \<Longrightarrow> net_run C (Suc n) s (a, reset_link k b)"
| pump_right: "net_run C n s (a, b) \<Longrightarrow> pump C (a, b) = (r, (a', b')) \<Longrightarrow>
    net_run C (n + 2 + 2 * length (hs_outbound a)) s (a', b')"
| pump_left: "net_run C n s (a, b) \<Longrightarrow> pump C (b, a) = (r, (b', a')) \<Longrightarrow>
    net_run C (n + 2 + 2 * length (hs_outbound b)) s (a', b')"

lemma pair_inv_net_run:
  "net_run C n s s' \<Longrightarrow> pair_inv 0 s \<Longrightarrow> n + 3 < 2 ^ 64 \<Longrightarrow> pair_inv n s'"
proof (induction rule: net_run.induct)
  case (left n s a b a')
  then show ?case using fed_inv_link_step [OF left(2)] by (auto simp: pair_inv_def intro: fed_inv_mono)
next
  case (right n s a b b')
  then show ?case using fed_inv_link_step [OF right(2)] by (auto simp: pair_inv_def intro: fed_inv_mono)
next
  case (pump_right n s a b r a' b')
  then show ?case using pair_inv_pump [of n "(a, b)" C] by simp
next
  case (pump_left n s a b r b' a')
  then have "pair_inv n (b, a)" by (simp add: pair_inv_def)
  then show ?case using pair_inv_pump [of n "(b, a)" C] pump_left by (simp add: pair_inv_def)
qed (auto simp: pair_inv_def intro: fed_inv_mono [OF fed_inv_peer_ops(5)] fed_inv_mono)

lemma fed_inv_from_identity: "from_identity C kp sk host port = Some h \<Longrightarrow> fed_inv 0 h"
  using inv_from_identity [of C kp sk host port h]
  by (auto simp: fed_inv_alt peers_ok_def rows_ok_def from_identity_def hm_wf_def hm_get_def split: sum.splits)

text \<open>
  C2. Two servers that talk to each other both keep their invariant: from fresh states, after
  any interleaving of operations of either server, frames, pins, resets and pump runs in both
  directions, both satisfy the home server's invariant, every peer record stays within its rate
  and deduplication bounds, and every queued row has a back-off between 1 and 300 seconds.
\<close>

theorem net_reachable_inv:
  assumes "from_identity C kp1 sk1 host1 port1 = Some a0" "from_identity C kp2 sk2 host2 port2 = Some b0"
    and "net_run C n (a0, b0) (a, b)" "n + 3 < 2 ^ 64"
  shows "home_inv n a \<and> peers_ok a \<and> (\<forall>r \<in> set (hs_outbound a). row_ok r) \<and>
    home_inv n b \<and> peers_ok b \<and> (\<forall>r \<in> set (hs_outbound b). row_ok r)"
proof -
  have "pair_inv 0 (a0, b0)"
    using fed_inv_from_identity [OF assms(1)] fed_inv_from_identity [OF assms(2)] by (simp add: pair_inv_def)
  from pair_inv_net_run [OF assms(3) this assms(4)] show ?thesis by (simp add: pair_inv_def fed_inv_def)
qed

subsection \<open>First contact\<close>

lemma from_identity_facts:
  assumes "ed25519_correct C" "from_identity C kp sk host port = Some h"
  shows "sb_verify C (hs_bundle h) = Ok ()" "sb_server_id (hs_bundle h) = hs_server_id C h"
    "hs_peers h = []" "hs_outbound h = []"
proof -
  obtain s where s: "sign C sk SERVER_BUNDLE (sb_unsigned_cbor b) = Ok s" "verify C (lib_ed_public C sk) SERVER_BUNDLE (sb_unsigned_cbor b) s = Ok ()"
    if "b = \<lparr>sb_server_id = kp_server_id C kp, sb_hpke_public = kp_public kp, sb_sign_public = lib_ed_public C sk,
      sb_host = host, sb_s2s_port = ucast port, sb_signature = replicate 64 0\<rparr>" for b
    using bundle_sig.sign_verifies [OF assms(1), of sk] by metis
  let ?b = "\<lparr>sb_server_id = kp_server_id C kp, sb_hpke_public = kp_public kp, sb_sign_public = lib_ed_public C sk,
      sb_host = host, sb_s2s_port = ucast port, sb_signature = s\<rparr>"
  have b: "own_bundle C kp sk host port = Ok ?b"
    by (simp add: own_bundle_def sb_sign_def kp_server_id_def s)
  have "sb_unsigned_cbor ?b = sb_unsigned_cbor (?b\<lparr>sb_signature := replicate 64 0\<rparr>)"
    by (simp add: sb_unsigned_cbor_def sb_fields_def)
  then have v: "verify C (lib_ed_public C sk) SERVER_BUNDLE (sb_unsigned_cbor ?b) s = Ok ()" using s(2) by simp
  then have "sb_verify C ?b = Ok ()"
    using assms(1) by (simp add: sb_verify_def kp_server_id_def ed25519_correct_def)
  with assms(2) b show "sb_verify C (hs_bundle h) = Ok ()" "sb_server_id (hs_bundle h) = hs_server_id C h"
    "hs_peers h = []" "hs_outbound h = []"
    by (auto simp: from_identity_def hs_server_id_def)
qed

lemma accept_hello:
  assumes "hm_get (hs_peers h) k = Some p" "\<not> ps_refused p" "ps_last_rx p \<noteq> - 1"
    and "length k = 32" "length (hs_server_id C h) = 32"
  shows "accept_frame C k \<lparr>sf_counter = ps_last_rx p + 1, sf_payload = hello_payload k (hs_server_id C h)\<rparr> h = (Ok [],
    set_fed (hm_insert k (p\<lparr>ps_last_rx := ps_last_rx p + 1\<rparr>) (hs_peers h)) (insert k (hd_peers (hs_dirty h))) h)"
  using assms unat_succ(2) [of "ps_last_rx p"] by (auto simp: accept_frame_def Let_def set_fed_peer not_le)

text \<open>
  First contact: two fresh servers with different keys that pin each other greet each other
  on the first \<open>pump\<close>, and from then on the link between them is in order.
\<close>

theorem pinned_servers_connect:
  assumes "sha256_digest C" "ed25519_correct C"
    and "from_identity C kp1 sk1 host1 port1 = Some a" "from_identity C kp2 sk2 host2 port2 = Some b"
    and "hs_server_id C a \<noteq> hs_server_id C b"
  shows "\<exists>s1 a' b'. pin_each_other C (a, b) = (Ok (), s1) \<and> pump C s1 = (Ok stats_default, (a', b')) \<and>
    link_ready C (2 ^ 64 - 2) a' b'"
proof -
  note A = from_identity_facts [OF assms(2,3)] and B = from_identity_facts [OF assms(2,4)]
  let ?i = "hs_server_id C a" and ?j = "hs_server_id C b"
  have len: "length ?i = 32" "length ?j = 32"
    using assms(1) by (simp_all add: hs_server_id_def kp_server_id_def server_id_def sha256_def sha256_digest_def)
  define a1 where "a1 = set_fed [(?j, ps_new (hs_bundle b))] (insert ?j (hd_peers (hs_dirty a))) a"
  define b1 where "b1 = set_fed [(?i, ps_new (hs_bundle a))] (insert ?i (hd_peers (hs_dirty b))) b"
  have "hs_bundle (set_fed ps D h) = hs_bundle h" for ps D h by (simp add: set_fed_def)
  then have pins: "pin_each_other C (a, b) = (Ok (), (a1, b1))"
    using A B assms(5)
    by (simp add: pin_each_other_def on_from_def on_to_def pin_def Let_def set_fed_peer hm_get_def hm_insert_def a1_def b1_def)
  have p: "hm_get (hs_peers a1) ?j = Some (ps_new (hs_bundle b))" "hm_get (hs_peers b1) ?i = Some (ps_new (hs_bundle a))"
    "hs_server_id C a1 = ?i" "hs_server_id C b1 = ?j" "hs_outbound a1 = []"
    by (simp_all add: a1_def b1_def hm_get_def A)
  have n: "\<not> ps_refused (ps_new sb)" "ps_next_tx (ps_new sb) = 1" "ps_last_rx (ps_new sb) = 0" "\<not> ps_hello_done (ps_new sb)" for sb
    by (simp_all add: ps_new_def)
  define a2 where "a2 = snd (take_frame ?j (hello_payload ?i ?j) a1)"
  define b2 where "b2 = snd (take_frame ?i (hello_payload ?j ?i) b1)"
  have t: "take_frame ?j (hello_payload ?i ?j) a1 = (Ok \<lparr>sf_counter = 1, sf_payload = hello_payload ?i ?j\<rparr>, a2)"
    "take_frame ?i (hello_payload ?j ?i) b1 = (Ok \<lparr>sf_counter = 1, sf_payload = hello_payload ?j ?i\<rparr>, b2)"
    unfolding a2_def b2_def by (simp_all add: take_frame_ok [OF p(1)] take_frame_ok [OF p(2)] n)
  have p2: "hm_get (hs_peers a2) ?j = Some ((ps_new (hs_bundle b))\<lparr>ps_next_tx := 2\<rparr>)"
    "hm_get (hs_peers b2) ?i = Some ((ps_new (hs_bundle a))\<lparr>ps_next_tx := 2\<rparr>)"
    "hs_server_id C a2 = ?i" "hs_server_id C b2 = ?j" "hs_outbound a2 = []"
    unfolding a2_def b2_def by (simp_all add: take_frame_ok [OF p(1)] take_frame_ok [OF p(2)] n hm_get_insert p(3-5))
  let ?pa = "(ps_new (hs_bundle b))\<lparr>ps_next_tx := 2, ps_last_rx := 1\<rparr>"
    and ?pb = "(ps_new (hs_bundle a))\<lparr>ps_next_tx := 2, ps_last_rx := 1\<rparr>"
  define a3 where "a3 = set_fed (hm_insert ?j ?pa (hs_peers a2)) (insert ?j (hd_peers (hs_dirty a2))) a2"
  define b3 where "b3 = set_fed (hm_insert ?i ?pb (hs_peers b2)) (insert ?i (hd_peers (hs_dirty b2))) b2"
  have acc: "accept_frame C ?i \<lparr>sf_counter = 1, sf_payload = hello_payload ?i ?j\<rparr> b2 = (Ok [], b3)"
    "accept_frame C ?j \<lparr>sf_counter = 1, sf_payload = hello_payload ?j ?i\<rparr> a2 = (Ok [], a3)"
    using accept_hello [OF p2(2), of C] accept_hello [OF p2(1), of C] len p2(3,4) n by (simp_all add: a3_def b3_def)
  have p3: "hm_get (hs_peers a3) ?j = Some ?pa" "hm_get (hs_peers b3) ?i = Some ?pb" "hs_outbound a3 = []"
    "hs_server_id C a3 = ?i" "hs_server_id C b3 = ?j"
    by (simp_all add: a3_def b3_def hm_get_insert p2)
  have hello: "ensure_hello C (a1, b1) = (Ok (), (set_hello_done ?j a3, set_hello_done ?i b3))"
    by (simp add: ensure_hello_def Let_def p hello_needed_def n on_from_def on_to_def t acc)
  have o: "hs_outbound (set_hello_done ?j a3) = []" using env_fields(1) [OF env_view_peer_ops(4)] p3(3) by simp
  have "pump C (a1, b1) = (Ok stats_default, (set_hello_done ?j a3, set_hello_done ?i b3))"
    by (simp add: pump_def Let_def p peer_refused_def n hello pump_from.simps o)
  moreover have "link_ready C (2 ^ 64 - 2) (set_hello_done ?j a3) (set_hello_done ?i b3)"
  proof -
    have "hs_server_id C (set_hello_done ?j a3) = ?i" "hs_server_id C (set_hello_done ?i b3) = ?j"
      using env_fields(3) [OF env_view_peer_ops(4)] p3(4,5) by simp_all
    moreover have "hm_get (hs_peers (set_hello_done ?j a3)) ?j = Some (?pa\<lparr>ps_hello_done := True\<rparr>)"
      "hm_get (hs_peers (set_hello_done ?i b3)) ?i = Some (?pb\<lparr>ps_hello_done := True\<rparr>)"
      by (simp_all add: set_hello_done_def p3)
    ultimately show ?thesis using n by (simp add: link_ready_def pair_ready_def)
  qed
  ultimately show ?thesis using pins by blast
qed

section \<open>Witnesses\<close>

text \<open>Two servers with a link in order; the sender has one row, the receiver knows the envelope.\<close>

definition sample_peer :: PeerState where
  "sample_peer = (ps_new ((hs_bundle sample_home)\<lparr>sb_sign_public := lib_ed_public plain_crypto [4]\<rparr>))\<lparr>ps_last_rx := 1, ps_next_tx := 2, ps_hello_done := True\<rparr>"

definition sample_out :: OutboundRow where
  "sample_out = \<lparr>or_dest = replicate 32 3, or_outer = \<lparr>oe_destination = replicate 32 3, oe_ciphertext = replicate 32 6\<rparr>,
     or_enqueued_at = 900, or_next_attempt = 900, or_backoff_secs = 1\<rparr>"

definition sender :: "PeerState \<Rightarrow> HomeServer" where
  "sender p = sample_home\<lparr>hs_hpke := \<lparr>kp_public = replicate 32 5, kp_secret = replicate 32 5\<rparr>,
     hs_peers := [(replicate 32 3, p)], hs_outbound := [sample_out]\<rparr>"

definition receiver :: HomeServer where
  "receiver = sample_home\<lparr>hs_peers := [(replicate 32 5, sample_peer)], hs_seen_enc := [(replicate 32 6, 4)]\<rparr>"

lemma sample_link:
  "hs_server_id plain_crypto (sender p) = replicate 32 5" "hs_server_id plain_crypto receiver = replicate 32 3"
  "hm_get (hs_peers (sender p)) (replicate 32 3) = Some p" "hm_get (hs_peers receiver) (replicate 32 5) = Some sample_peer"
  "hs_outbound (sender p) = [sample_out]" "hs_now (sender p) = 1000" "or_dest sample_out = replicate 32 3"
  "oe_ciphertext (or_outer sample_out) = replicate 32 6" "row_due (sender p) sample_out"
  by (simp_all add: hs_server_id_def kp_server_id_def server_id_def sha256_def plain_crypto_def resize_def
      sender_def receiver_def sample_home_def hm_get_def row_due_def sample_out_def saturating_sub_def OUTBOUND_MAX_AGE_SECS_def)

lemma sample_peer_fields:
  "\<not> ps_refused sample_peer" "ps_hello_done sample_peer" "ps_last_rx sample_peer = 1" "ps_next_tx sample_peer = 2"
  "ps_window_ok sample_peer = 0" "ps_seen_enc sample_peer = []"
  by (simp_all add: sample_peer_def ps_new_def)

lemma sample_ready: "link_ready plain_crypto 7 (sender sample_peer) receiver"
  by (simp add: link_ready_def sample_link pair_ready_def sample_peer_fields)

lemma sample_takes: "takes receiver (replicate 32 5) (replicate 32 6)"
proof -
  have "decode (replicate 32 6) = Err (Cbor ''trailing bytes'')" by code_simp
  then have "parse_payload (replicate 32 6) = Ok (Ciphertext (replicate 32 6))" by (simp add: parse_payload_def)
  then show ?thesis
    by (simp add: takes_def sample_link sample_peer_fields ENCAP_LEN_def PEER_RATE_PER_SEC_def hm_get_def [of "[]"])
qed

lemma sample_ingest:
  "ingest plain_crypto \<lparr>oe_destination = replicate 32 3, oe_ciphertext = replicate 32 6\<rparr> receiver = (Ok 4, receiver)"
  by (simp add: ingest_def encap_key_def ENCAP_LEN_def receiver_def hm_get_def)


theorem stale_counter_drops_row_witness:
  "\<exists>a' b'. pump plain_crypto (sender (sample_peer\<lparr>ps_next_tx := 1\<rparr>), receiver) =
     (Ok \<lparr>st_delivered = 1, st_failed = 0, st_deferred = 0, st_expired = 0\<rparr>, (a', b')) \<and> hs_outbound a' = [] \<and>
     hs_mailboxes b' = hs_mailboxes receiver"
  using stale_counter_drops_row [of "sender (sample_peer\<lparr>ps_next_tx := 1\<rparr>)" plain_crypto receiver "sample_peer\<lparr>ps_next_tx := 1\<rparr>" sample_peer sample_out]
  by (auto simp: sample_link sample_peer_fields)


theorem frame_processed_once_witness:
  "\<exists>h1. accept_frame plain_crypto (replicate 32 5) \<lparr>sf_counter = 2, sf_payload = ok_payload 3\<rparr> receiver = (Ok (ok_payload 3), h1) \<and>
     fst (accept_frame plain_crypto (replicate 32 5) \<lparr>sf_counter = 1, sf_payload = []\<rparr> h1) \<in> {Ok (ok_payload 0), Err PeerRefused}"
proof -
  obtain h1 where h1: "accept_frame plain_crypto (replicate 32 5) \<lparr>sf_counter = 2, sf_payload = ok_payload 3\<rparr> receiver = (Ok (ok_payload 3), h1)"
    using accept_ok_payload [OF sample_link(4), of plain_crypto 3] by (simp add: sample_peer_fields)
  show ?thesis
    using frame_processed_once [OF h1 link_run.start, of "\<lparr>sf_counter = 1, sf_payload = []\<rparr>"] h1 by auto
qed

theorem pinned_servers_connect_witness:
  "\<exists>a b s1 a' b'. from_identity plain_crypto \<lparr>kp_public = [3], kp_secret = [3]\<rparr> [4] [5] 443 = Some a \<and>
     from_identity plain_crypto \<lparr>kp_public = [7], kp_secret = [7]\<rparr> [8] [9] 443 = Some b \<and>
     pin_each_other plain_crypto (a, b) = (Ok (), s1) \<and> pump plain_crypto s1 = (Ok stats_default, (a', b'))"
proof -
  obtain a b where ab: "from_identity plain_crypto \<lparr>kp_public = [3], kp_secret = [3]\<rparr> [4] [5] 443 = Some a"
    "from_identity plain_crypto \<lparr>kp_public = [7], kp_secret = [7]\<rparr> [8] [9] 443 = Some b"
    using from_identity_some by meson
  then have "hs_hpke a = \<lparr>kp_public = [3], kp_secret = [3]\<rparr>" "hs_hpke b = \<lparr>kp_public = [7], kp_secret = [7]\<rparr>"
    by (auto simp: from_identity_def split: sum.splits)
  then have "hs_server_id plain_crypto a \<noteq> hs_server_id plain_crypto b"
    by (simp add: hs_server_id_def kp_server_id_def server_id_def sha256_def plain_crypto_def resize_def)
  from pinned_servers_connect [OF plain_crypto_laws(1,2) ab this] ab show ?thesis by blast
qed

theorem net_reachable_inv_witness:
  "\<exists>a b a' b'. from_identity plain_crypto \<lparr>kp_public = [3], kp_secret = [3]\<rparr> [4] [5] 443 = Some a \<and>
     from_identity plain_crypto \<lparr>kp_public = [7], kp_secret = [7]\<rparr> [8] [9] 443 = Some b \<and>
     net_run plain_crypto 1 (a, b) (a', b') \<and> a' = snd (pin plain_crypto (hs_bundle b) a) \<and> home_inv 1 a' \<and> peers_ok a'"
proof -
  obtain a b where ab: "from_identity plain_crypto \<lparr>kp_public = [3], kp_secret = [3]\<rparr> [4] [5] 443 = Some a"
    "from_identity plain_crypto \<lparr>kp_public = [7], kp_secret = [7]\<rparr> [8] [9] 443 = Some b"
    using from_identity_some by meson
  have r: "net_run plain_crypto 1 (a, b) (snd (pin plain_crypto (hs_bundle b) a), b)"
    using net_run.left [OF net_run.start link_step.pinned] by simp
  from net_reachable_inv [OF ab r] ab r show ?thesis by auto
qed

end
