(* ===== verification/S2s.thy ===== *)
theory S2s
  imports Federation
begin

text \<open>
  The server-to-server transport, \<open>nemo-server/src/s2s.rs\<close>: frames on a byte stream, the
  listener's handling of a connection, and the dialler's loop over the rows that are due.

  The sockets and TLS are parameters: a byte stream is the list of bytes still to be read, and
  what a connection does to each exchange is a \<open>Dial\<close> record, the outcomes of connecting, of
  each write and of each read. The state lock is held for each step as in the code; what other
  tasks do between the steps is not part of one run. \<open>persist\<close> writes the journal to the
  database and changes nothing else.
\<close>

section \<open>Model\<close>

definition MAX_FRAME :: nat where "MAX_FRAME = 18000000"

subsection \<open>Frames on a stream\<close>

text \<open>\<open>read_exact\<close> of \<open>n\<close> bytes; \<open>None\<close> is the I/O error.\<close>

definition read_exact :: "nat \<Rightarrow> bytes \<Rightarrow> (bytes \<times> bytes) option" where
  "read_exact n input = (if length input < n then None else Some (take n input, drop n input))"

definition read_frame :: "bytes \<Rightarrow> (S2sFrame \<times> bytes) option" where
  "read_frame input =
     (case read_exact 12 input of
        None \<Rightarrow> None
      | Some (hdr, rest) \<Rightarrow>
          (let n = unat (from_be_bytes (drop 8 hdr)) in
           if n > MAX_FRAME then None
           else
             (case read_exact n rest of
                None \<Rightarrow> None
              | Some (payload, rest') \<Rightarrow>
                  Some (\<lparr>sf_counter = from_be_bytes (take 8 hdr), sf_payload = payload\<rparr>, rest'))))"

text \<open>The bytes \<open>write_frame\<close> puts on the stream; \<open>None\<close> is the I/O error of a frame that cannot be encoded.\<close>

definition write_frame :: "S2sFrame \<Rightarrow> bytes option" where
  "write_frame frame = (case sf_encode frame of Ok bs \<Rightarrow> Some bs | Err _ \<Rightarrow> None)"

subsection \<open>The listener\<close>

text \<open>\<open>handle_inbound\<close> up to its loop: the peer's greeting, and the frame that answers it.\<close>

definition inbound_hello :: "crypto \<Rightarrow> key \<Rightarrow> S2sFrame \<Rightarrow> HomeServer \<Rightarrow> S2sFrame sresult" where
  "inbound_hello C pk hello h =
     sread (ok_or (peer_id_for_sign_key h pk) NotPinned) h (\<lambda>peer.
     sbind (accept_frame C peer hello h) (\<lambda>_ h.
       let h = set_hello_done peer h; us = hs_server_id C h in
       take_frame peer (hello_payload us peer) h))"

text \<open>One round of its loop: a frame, and the reply to write, if any.\<close>

definition inbound_frame :: "crypto \<Rightarrow> key \<Rightarrow> S2sFrame \<Rightarrow> HomeServer \<Rightarrow> S2sFrame option sresult" where
  "inbound_frame C peer frame h =
     (case accept_frame C peer frame h of
        (Ok payload, h) \<Rightarrow>
          if payload \<noteq> [] then sbind (take_frame peer payload h) (\<lambda>reply h. (Ok (Some reply), h)) else (Ok None, h)
      | (Err e, h) \<Rightarrow> (Err e, if e = CounterGap then reset_link peer h else h))"

subsection \<open>The outbound rows\<close>

fun due_loop :: "HomeServer \<Rightarrow> key list \<Rightarrow> OutboundRow list \<Rightarrow> key list" where
  "due_loop h out [] = out"
| "due_loop h out (row # rows) =
     (if or_next_attempt row \<le> hs_now h \<and> or_dest row \<notin> set out then
        (if hm_get (hs_peers h) (or_dest row) \<noteq> None \<and> \<not> peer_refused h (or_dest row)
         then due_loop h (out @ [or_dest row]) rows else due_loop h out rows)
      else due_loop h out rows)"

definition due_destinations :: "HomeServer \<Rightarrow> key list" where
  "due_destinations h = due_loop h [] (hs_outbound h)"

definition next_due :: "HomeServer \<Rightarrow> key \<Rightarrow> OutboundRow option" where
  "next_due h dest = find (\<lambda>r. or_dest r = dest \<and> or_next_attempt r \<le> hs_now h \<and>
     saturating_sub (hs_now h) (or_enqueued_at r) \<le> OUTBOUND_MAX_AGE_SECS) (hs_outbound h)"

definition same_row :: "OutboundRow \<Rightarrow> OutboundRow \<Rightarrow> bool" where
  "same_row row r \<longleftrightarrow> or_dest r = or_dest row \<and> oe_ciphertext (or_outer r) = oe_ciphertext (or_outer row)"

text \<open>\<open>iter().position(p)\<close>.\<close>

fun position :: "('a \<Rightarrow> bool) \<Rightarrow> 'a list \<Rightarrow> nat option" where
  "position P [] = None"
| "position P (x # xs) = (if P x then Some 0 else map_option Suc (position P xs))"

definition remove_matching_outbound :: "OutboundRow \<Rightarrow> HomeServer \<Rightarrow> HomeServer" where
  "remove_matching_outbound row h =
     (case position (same_row row) (hs_outbound h) of
        Some i \<Rightarrow> drop_outbound i h
      | None \<Rightarrow> h)"

definition purge_expired :: "key \<Rightarrow> HomeServer \<Rightarrow> nat \<times> HomeServer" where
  "purge_expired dest h =
     (let rows = filter (\<lambda>r. or_dest r \<noteq> dest \<or> saturating_sub (hs_now h) (or_enqueued_at r) \<le> OUTBOUND_MAX_AGE_SECS) (hs_outbound h);
          expired = length (hs_outbound h) - length rows;
          h = h\<lparr>hs_outbound := rows\<rparr> in
      (expired, if expired > 0 then mark_outbound_dirty h else h))"

definition backoff_row :: "OutboundRow \<Rightarrow> HomeServer \<Rightarrow> HomeServer" where
  "backoff_row row h =
     (case position (same_row row) (hs_outbound h) of
        Some i \<Rightarrow> back_off_at (hs_now h) i h
      | None \<Rightarrow> h)"

subsection \<open>The dialler\<close>

text \<open>
  What the connection does to one exchange: whether the write succeeds, and the frame that is
  read afterwards, if one is.
\<close>

record Exchange =
  ex_written :: bool
  ex_reply :: "S2sFrame option"

definition forward_row :: "crypto \<Rightarrow> key \<Rightarrow> Exchange \<Rightarrow> OutboundRow \<Rightarrow> HomeServer \<Rightarrow> unit sresult" where
  "forward_row C dest io row h =
     sbind (take_frame dest (oe_ciphertext (or_outer row)) h) (\<lambda>frame h.
     sread (ensure (ex_written io) Denied) h (\<lambda>_.
     sread (ok_or (ex_reply io) Denied) h (\<lambda>reply.
     sbind (accept_frame C dest reply h) (\<lambda>payload h.
     sread (map_err Wire (parse_payload payload)) h (\<lambda>p.
       case p of
         Fail \<Rightarrow> (Err Denied, h)
       | PayloadOk _ \<Rightarrow> (Ok (), h)
       | _ \<Rightarrow> if payload = fail_payload then (Err Denied, h) else (Ok (), h))))))"

text \<open>One round of the loop of \<open>dial_and_pump\<close>: whether to go on, the statistics and the state.\<close>

definition dial_row :: "crypto \<Rightarrow> key \<Rightarrow> Exchange \<Rightarrow> OutboundRow \<Rightarrow> PumpStats \<Rightarrow> HomeServer \<Rightarrow> bool \<times> PumpStats \<times> HomeServer" where
  "dial_row C dest io row st h =
     (let (r, h) = forward_row C dest io row h in
      case r of
        Ok _ \<Rightarrow> (True, st\<lparr>st_delivered := st_delivered st + 1\<rparr>, remove_matching_outbound row h)
      | Err e \<Rightarrow>
          (let st = st\<lparr>st_failed := st_failed st + 1\<rparr> in
           if e = Denied \<or> e = PeerRefused then (True, st, remove_matching_outbound row h)
           else if e = CounterGap then (False, st, backoff_row row (reset_link dest h))
           else (False, st, backoff_row row h)))"

text \<open>The exchanges of a connection that has ended.\<close>

definition closed :: Exchange where
  "closed = \<lparr>ex_written = False, ex_reply = None\<rparr>"

definition next_io :: "Exchange list \<Rightarrow> Exchange \<times> Exchange list" where
  "next_io ios = (case ios of [] \<Rightarrow> (closed, []) | io # ios' \<Rightarrow> (io, ios'))"

lemma env_view_forward_row: "env_view (snd (forward_row C dest io row h)) = env_view h"
  unfolding forward_row_def
  by (intro snd_sbind [where P = "\<lambda>s. env_view s = env_view h"] snd_sread [where P = "\<lambda>s. env_view s = env_view h"])
    (auto split: S2sPayload.split)

lemma position_Some: "position P xs = Some i \<Longrightarrow> i < length xs \<and> P (xs ! i)"
  by (induction xs arbitrary: i) (auto split: if_splits)

lemma position_None: "position P xs = None \<longleftrightarrow> (\<forall>x \<in> set xs. \<not> P x)"
  by (induction xs) auto

lemma position_exists: "x \<in> set xs \<Longrightarrow> P x \<Longrightarrow> \<exists>i. position P xs = Some i"
  using position_None [of P xs] by (cases "position P xs") auto

lemma length_remove_matching:
  assumes "row \<in> set (hs_outbound h)"
  shows "length (hs_outbound (remove_matching_outbound row h)) < length (hs_outbound h)"
proof -
  obtain i where i: "position (same_row row) (hs_outbound h) = Some i"
    using position_exists [OF assms, of "same_row row"] by (auto simp: same_row_def)
  have "i < length (hs_outbound h)" using position_Some [OF i] by simp
  then show ?thesis by (simp add: remove_matching_outbound_def i length_drop_outbound)
qed

lemma next_due_in: "next_due h dest = Some row \<Longrightarrow> row \<in> set (hs_outbound h) \<and> or_dest row = dest"
  by (auto simp: next_due_def find_Some_iff)

lemma dial_row_shrinks:
  assumes "next_due h dest = Some row" "dial_row C dest io row st h = (True, st', h')"
  shows "length (hs_outbound h') < length (hs_outbound h)"
proof -
  obtain r h1 where f: "forward_row C dest io row h = (r, h1)" by (cases "forward_row C dest io row h")
  then have "hs_outbound h1 = hs_outbound h" using env_view_forward_row [of C dest io row h] by (simp add: env_view_def)
  with assms f next_due_in [OF assms(1)] length_remove_matching [of row h1] show ?thesis
    by (auto simp: dial_row_def Let_def split: sum.splits if_splits)
qed

function dial_loop :: "crypto \<Rightarrow> key \<Rightarrow> Exchange list \<Rightarrow> PumpStats \<Rightarrow> HomeServer \<Rightarrow> PumpStats \<times> HomeServer" where
  "dial_loop C dest ios st h =
     (case next_due h dest of
        None \<Rightarrow> (st, h)
      | Some row \<Rightarrow>
          (let (io, ios') = next_io ios; (go, st', h') = dial_row C dest io row st h in
           if go then dial_loop C dest ios' st' h' else (st', h')))"
  by pat_completeness auto

termination dial_loop
proof (relation "measure (\<lambda>(C, dest, ios, st, h). length (hs_outbound h))", goal_cases)
  case (2 C dest ios st h row x io ios' y go z st' h')
  then have "dial_row C dest io row st h = (True, st', h')" by simp
  from dial_row_shrinks [OF 2(1) this] 2(6) show ?case by auto
qed simp

declare dial_loop.simps [simp del]

text \<open>
  \<open>dial_and_pump\<close>: \<open>di_config\<close> says whether the TLS configuration can be built, \<open>di_connected\<close> whether
  the connection is made, then the greeting and the exchanges of the loop.
\<close>

record Dial =
  di_config :: bool
  di_connected :: bool
  di_hello :: Exchange
  di_rows :: "Exchange list"

definition dial_and_pump :: "crypto \<Rightarrow> Dial \<Rightarrow> key \<Rightarrow> HomeServer \<Rightarrow> PumpStats sresult" where
  "dial_and_pump C d dest h =
     sread (ok_or (hm_get (hs_peers h) dest) NotPinned) h (\<lambda>peer.
     if ps_refused peer then (Err PeerRefused, h)
     else sread (ensure (di_config d) NotPinned) h (\<lambda>_.
     sread (ensure (di_connected d) Denied) h (\<lambda>_.
     sbind (take_frame dest (hello_payload (hs_server_id C h) dest) h) (\<lambda>hello h.
     sread (ensure (ex_written (di_hello d)) Denied) h (\<lambda>_.
     sread (ok_or (ex_reply (di_hello d)) Denied) h (\<lambda>peer_hello.
     sbind (accept_frame C dest peer_hello h) (\<lambda>_ h.
       let h = set_hello_done dest h;
           (expired, h) = purge_expired dest h;
           (st, h) = dial_loop C dest (di_rows d) (stats_default\<lparr>st_expired := expired\<rparr>) h in
       (Ok st, h))))))))"

text \<open>\<open>pump_due\<close>: a dial that fails is logged and the next destination is tried.\<close>

definition pump_due :: "crypto \<Rightarrow> (key \<Rightarrow> Dial) \<Rightarrow> HomeServer \<Rightarrow> HomeServer" where
  "pump_due C dials h = fold (\<lambda>dest h. snd (dial_and_pump C (dials dest) dest h)) (due_destinations h) h"

text \<open>One turn of \<open>pump_loop\<close> at a given time: the clock, the sweep when it is due, the dials.\<close>

definition tick :: "crypto \<Rightarrow> u64 \<Rightarrow> (key \<Rightarrow> Dial) \<Rightarrow> HomeServer \<Rightarrow> HomeServer" where
  "tick C now dials h =
     (let h = h\<lparr>hs_now := now\<rparr>;
          h = (if token_sweep_due h then record_token_sweep (snd (sweep_dead_tokens h)) else h) in
      pump_due C dials h)"

text \<open>\<open>load_peers_dir\<close> on the contents of the \<open>.cbor\<close> files, in directory order.\<close>

fun load_peers :: "crypto \<Rightarrow> nat \<Rightarrow> bytes list \<Rightarrow> HomeServer \<Rightarrow> nat sresult" where
  "load_peers C n [] h = (Ok n, h)"
| "load_peers C n (bs # files) h =
     sread (map_err Wire (sb_decode bs)) h (\<lambda>bun.
     sbind (pin C bun h) (\<lambda>_ h. load_peers C (n + 1) files h))"

end
