(* ===== verification/S2s_Props.thy ===== *)
theory S2s_Props
  imports Federation_Props S2s
begin

text \<open>
  What the server-to-server transport guarantees: the frames on a stream are those written, the
  dialler touches only the rows of its destination, and what happens when a connection fails.
\<close>

section \<open>Lemmas\<close>

subsection \<open>Streams\<close>

lemma read_frame_written:
  assumes "length (sf_payload f) \<le> MAX_FRAME"
  shows "\<exists>bs. write_frame f = Some bs \<and> read_frame (bs @ rest) = Some (f, rest)"
proof -
  let ?n = "length (sf_payload f)"
  let ?bs = "be_bytes 8 (sf_counter f) @ be_bytes 4 (of_nat ?n) @ sf_payload f"
  have small: "?n < 2 ^ 32" using assms by (simp add: MAX_FRAME_def)
  have "unat (of_nat ?n :: u64) = ?n" using small by (intro unat_of_nat_u64) simp
  then have "unat (from_be_bytes (be_bytes 4 (of_nat ?n))) = ?n" using small by (subst from_be_bytes_small) simp_all
  moreover have "drop 8 (take 12 (?bs @ rest)) = be_bytes 4 (of_nat ?n)" "take 8 (take 12 (?bs @ rest)) = be_bytes 8 (sf_counter f)"
    "drop 12 (?bs @ rest) = sf_payload f @ rest"
    by simp_all
  ultimately have "read_frame (?bs @ rest) = Some (f, rest)"
    using assms by (simp add: read_frame_def read_exact_def Let_def del: be_bytes.simps)
  moreover have "write_frame f = Some ?bs" using small by (simp add: write_frame_def sf_encode_def)
  ultimately show ?thesis by blast
qed

lemma read_frame_reads:
  assumes "read_frame input = Some (f, rest)"
  shows "length (sf_payload f) \<le> MAX_FRAME" "\<exists>bs. write_frame f = Some bs \<and> input = bs @ rest"
proof -
  let ?hdr = "take 12 input"
  let ?n = "unat (from_be_bytes (drop 8 ?hdr))"
  have l: "12 \<le> length input" "?n \<le> MAX_FRAME" "?n \<le> length (drop 12 input)"
    and f: "f = \<lparr>sf_counter = from_be_bytes (take 8 ?hdr), sf_payload = take ?n (drop 12 input)\<rparr>" "rest = drop ?n (drop 12 input)"
    using assms by (auto simp: read_frame_def read_exact_def Let_def not_less split: if_splits)
  have pl: "length (sf_payload f) = ?n" using f(1) l(3) by simp
  then show "length (sf_payload f) \<le> MAX_FRAME" using l(2) by simp
  have "length (take 8 ?hdr) = 8" "length (drop 8 ?hdr) = 4" using l(1) by simp_all
  then have h: "be_bytes 8 (from_be_bytes (take 8 ?hdr)) = take 8 ?hdr" "be_bytes 4 (from_be_bytes (drop 8 ?hdr)) = drop 8 ?hdr"
    using be_bytes_from_be_bytes [of "take 8 ?hdr"] be_bytes_from_be_bytes [of "drop 8 ?hdr"] by (simp_all del: be_bytes.simps)
  have "?n < 2 ^ 32" using l(2) by (simp add: MAX_FRAME_def)
  moreover have "of_nat ?n = from_be_bytes (drop 8 ?hdr)" by simp
  ultimately have "write_frame f = Some (take 8 ?hdr @ drop 8 ?hdr @ take ?n (drop 12 input))"
    using h pl f(1) by (simp add: write_frame_def sf_encode_def del: be_bytes.simps)
  moreover have "input = (take 8 ?hdr @ drop 8 ?hdr @ take ?n (drop 12 input)) @ rest"
    unfolding f(2) append_assoc append_take_drop_id [of ?n] by (metis append_assoc append_take_drop_id)
  ultimately show "\<exists>bs. write_frame f = Some bs \<and> input = bs @ rest" by blast
qed

subsection \<open>The dialler's rows\<close>

text \<open>What a dial may do to the queue: rows of other destinations stay, no row is added or moved.\<close>

definition queue_kept :: "key \<Rightarrow> HomeServer \<Rightarrow> HomeServer \<Rightarrow> bool" where
  "queue_kept dest h h' \<longleftrightarrow>
     filter (\<lambda>r. or_dest r \<noteq> dest) (hs_outbound h') = filter (\<lambda>r. or_dest r \<noteq> dest) (hs_outbound h) \<and>
     subseq (map or_outer (hs_outbound h')) (map or_outer (hs_outbound h))"

lemma queue_kept_refl [simp]: "queue_kept dest h h" "hs_outbound h' = hs_outbound h \<Longrightarrow> queue_kept dest h h'"
  by (simp_all add: queue_kept_def)

lemma queue_kept_trans: "queue_kept dest h h' \<Longrightarrow> queue_kept dest h' h'' \<Longrightarrow> queue_kept dest h h''"
  unfolding queue_kept_def by (metis subseq_order.trans)

lemma queue_kept_splice:
  assumes "i < length (hs_outbound h)" "or_dest (hs_outbound h ! i) = dest"
    and "hs_outbound h' = take i (hs_outbound h) @ new @ drop (Suc i) (hs_outbound h)"
    and "new = [] \<or> (\<exists>r. new = [r] \<and> or_dest r = dest \<and> or_outer r = or_outer (hs_outbound h ! i))"
  shows "queue_kept dest h h'"
proof -
  have ob: "hs_outbound h = take i (hs_outbound h) @ hs_outbound h ! i # drop (Suc i) (hs_outbound h)"
    using assms(1) by (rule id_take_nth_drop)
  have "filter (\<lambda>r. or_dest r \<noteq> dest) (take i (hs_outbound h) @ hs_outbound h ! i # drop (Suc i) (hs_outbound h)) =
      filter (\<lambda>r. or_dest r \<noteq> dest) (hs_outbound h')"
    using assms by auto
  moreover have "subseq (map or_outer (hs_outbound h')) (map or_outer (take i (hs_outbound h) @ hs_outbound h ! i # drop (Suc i) (hs_outbound h)))"
    using assms(3,4) by (auto intro!: list_emb_append_mono)
  ultimately show ?thesis unfolding queue_kept_def using ob by metis
qed

lemma same_rowD: "same_row row r \<Longrightarrow> or_dest r = or_dest row"
  by (simp add: same_row_def)

lemma remove_matching_kept:
  "or_dest row = dest \<Longrightarrow> queue_kept dest h (remove_matching_outbound row h)"
  "length (hs_outbound h) \<le> length (hs_outbound (remove_matching_outbound row h)) + 1"
proof -
  show "queue_kept dest h (remove_matching_outbound row h)" if "or_dest row = dest"
  proof (cases "position (same_row row) (hs_outbound h)")
    case (Some i)
    then have "i < length (hs_outbound h)" "or_dest (hs_outbound h ! i) = dest"
      using position_Some [OF Some] same_rowD that by auto
    then show ?thesis
      by (rule queue_kept_splice [where new = "[]"]) (simp_all add: remove_matching_outbound_def Some drop_outbound_def)
  qed (simp add: remove_matching_outbound_def)
  show "length (hs_outbound h) \<le> length (hs_outbound (remove_matching_outbound row h)) + 1"
    by (auto simp: remove_matching_outbound_def drop_outbound_def split: option.split)
qed

lemma backoff_row_kept:
  "or_dest row = dest \<Longrightarrow> queue_kept dest h (backoff_row row h)"
  "length (hs_outbound (backoff_row row h)) = length (hs_outbound h)"
proof -
  show "queue_kept dest h (backoff_row row h)" if "or_dest row = dest"
  proof (cases "position (same_row row) (hs_outbound h)")
    case (Some i)
    then have i: "i < length (hs_outbound h)" "or_dest (hs_outbound h ! i) = dest"
      using position_Some [OF Some] same_rowD that by auto
    then show ?thesis
      by (rule queue_kept_splice [where new = "[back_off (hs_now h) (hs_outbound h ! i)]"])
        (simp_all add: backoff_row_def Some back_off_at_def upd_conv_take_nth_drop i)
  qed (simp add: backoff_row_def)
  show "length (hs_outbound (backoff_row row h)) = length (hs_outbound h)"
    by (simp add: backoff_row_def split: option.split)
qed

lemma dial_row_effect:
  assumes "next_due h dest = Some row" "dial_row C dest io row st h = (go, st', h')"
  shows "queue_kept dest h h' \<and> st_expired st' = st_expired st \<and> st_deferred st' = st_deferred st \<and>
    length (hs_outbound h') + st_delivered st' \<le> length (hs_outbound h) + st_delivered st \<and>
    length (hs_outbound h) + st_delivered st + st_failed st \<le> length (hs_outbound h') + st_delivered st' + st_failed st'"
proof -
  obtain r h1 where f: "forward_row C dest io row h = (r, h1)" by (cases "forward_row C dest io row h")
  then have o: "hs_outbound h1 = hs_outbound h" using env_view_forward_row [of C dest io row h] by (simp add: env_view_def)
  then have k: "queue_kept dest h h1" "queue_kept dest h (reset_link dest h1)" by simp_all
  note row = next_due_in [OF assms(1)]
  have rm: "queue_kept dest h (remove_matching_outbound row h1)"
    "length (hs_outbound (remove_matching_outbound row h1)) < length (hs_outbound h)"
    "length (hs_outbound h) \<le> length (hs_outbound (remove_matching_outbound row h1)) + 1"
    using queue_kept_trans [OF k(1) remove_matching_kept(1)] length_remove_matching [of row h1] remove_matching_kept(2) [of h1 row] row
    by (simp_all add: o)
  have bo: "queue_kept dest h (backoff_row row h1)" "queue_kept dest h (backoff_row row (reset_link dest h1))"
    "length (hs_outbound (backoff_row row h1)) = length (hs_outbound h)"
    "length (hs_outbound (backoff_row row (reset_link dest h1))) = length (hs_outbound h)"
    using queue_kept_trans [OF k(1) backoff_row_kept(1)] queue_kept_trans [OF k(2) backoff_row_kept(1)] row
    by (simp_all add: backoff_row_kept(2) o)
  show ?thesis
    using assms(2) rm bo by (auto simp: dial_row_def f Let_def split: sum.splits if_splits)
qed

lemma dial_loop_effect:
  "dial_loop C dest ios st h = (st', h') \<Longrightarrow>
   queue_kept dest h h' \<and> st_expired st' = st_expired st \<and> st_deferred st' = st_deferred st \<and>
    length (hs_outbound h') + st_delivered st' \<le> length (hs_outbound h) + st_delivered st \<and>
    length (hs_outbound h) + st_delivered st + st_failed st \<le> length (hs_outbound h') + st_delivered st' + st_failed st'"
proof (induction C dest ios st h rule: dial_loop.induct)
  case (1 C dest ios st h)
  show ?case
  proof (cases "next_due h dest")
    case None
    then show ?thesis using 1(2) by (simp add: dial_loop.simps [of C dest ios])
  next
    case (Some row)
    obtain io ios1 where io: "next_io ios = (io, ios1)" by (cases "next_io ios")
    obtain go st1 h1 where r: "dial_row C dest io row st h = (go, st1, h1)" by (metis prod_cases3)
    note E = dial_row_effect [OF Some r]
    show ?thesis
    proof (cases go)
      case True
      then have "dial_loop C dest ios1 st1 h1 = (st', h')" using 1(2) Some io r by (simp add: dial_loop.simps [of C dest ios])
      from 1(1) [OF Some refl io [symmetric] refl r [symmetric] refl True this] E show ?thesis
        by (auto intro: queue_kept_trans)
    next
      case False
      then show ?thesis using 1(2) Some io r E by (simp add: dial_loop.simps [of C dest ios])
    qed
  qed
qed

lemma purge_expired_effect:
  assumes "purge_expired dest h = (n, h')"
  shows "queue_kept dest h h'" "n + length (hs_outbound h') = length (hs_outbound h)"
proof -
  let ?keep = "\<lambda>r. or_dest r \<noteq> dest \<or> saturating_sub (hs_now h) (or_enqueued_at r) \<le> OUTBOUND_MAX_AGE_SECS"
  have o: "hs_outbound h' = filter ?keep (hs_outbound h)" and n: "n = length (hs_outbound h) - length (filter ?keep (hs_outbound h))"
    using assms by (auto simp: purge_expired_def Let_def split: if_splits)
  have "filter (\<lambda>r. or_dest r \<noteq> dest) (filter ?keep (hs_outbound h)) = filter (\<lambda>r. or_dest r \<noteq> dest) (hs_outbound h)"
    unfolding filter_filter by (rule filter_cong) auto
  then show "queue_kept dest h h'" by (simp add: queue_kept_def o subseq_map)
  show "n + length (hs_outbound h') = length (hs_outbound h)" by (simp add: o n)
qed

lemma sbind_eqE:
  assumes "sbind m f = (r, s')"
  obtains e where "m = (Err e, s')" "r = Err e" | x s where "m = (Ok x, s)" "f x s = (r, s')"
  using assms by (cases m; cases "fst m") auto

lemma sread_eqE:
  assumes "sread m s f = (r, s')"
  obtains e where "m = Err e" "s' = s" "r = Err e" | x where "m = Ok x" "f x = (r, s')"
  using assms by (cases m) auto

lemma frame_envD:
  "take_frame k payload h = (r, h') \<Longrightarrow> env_view h' = env_view h"
  "accept_frame C k f h = (r', h') \<Longrightarrow> env_view h' = env_view h"
  using env_view_frames(1) [of k payload h] env_view_frames(3) [of C k f h] by simp_all

lemma dial_cases:
  assumes "dial_and_pump C d dest h = (r, h')"
  obtains (err) e where "r = Err e" "env_view h' = env_view h"
    | (ok) st h1 n h2 where "r = Ok st" "env_view h1 = env_view h" "purge_expired dest h1 = (n, h2)"
        "dial_loop C dest (di_rows d) (stats_default\<lparr>st_expired := n\<rparr>) h2 = (st, h')"
proof -
  have fin: thesis
    if "env_view h1 = env_view h"
      "(let h = set_hello_done dest h1; (expired, h) = purge_expired dest h;
           (st, h) = dial_loop C dest (di_rows d) (stats_default\<lparr>st_expired := expired\<rparr>) h in (Ok st, h)) = (r, h')" for h1
    using that ok [of _ "set_hello_done dest h1"] by (auto simp: Let_def split: prod.splits)
  show thesis
    using assms unfolding dial_and_pump_def
    by (elim sread_eqE sbind_eqE) (auto dest!: frame_envD intro: err fin [unfolded Let_def] simp: Let_def split: if_splits elim!: sread_eqE sbind_eqE)
qed

section \<open>Properties\<close>

text \<open>
  Framing on a stream: a reader finds exactly the frames that were written, whatever
  follows them, and accepts exactly those whose payload is within the frame limit.
\<close>

theorem frame_stream:
  "read_frame input = Some (f, rest) \<longleftrightarrow>
     length (sf_payload f) \<le> MAX_FRAME \<and> (\<exists>bs. write_frame f = Some bs \<and> input = bs @ rest)"
  using read_frame_reads [of input f rest] read_frame_written [of f rest] by auto

text \<open>
  Whatever the connection does, a dial ends, leaves the rows of other destinations alone,
  adds, duplicates and reorders no row; every row it counts as delivered or expired has left the
  queue, and no row leaves the queue uncounted.
\<close>

theorem dial_accounts:
  assumes "dial_and_pump C d dest h = (r, h')"
  shows "filter (\<lambda>r. or_dest r \<noteq> dest) (hs_outbound h') = filter (\<lambda>r. or_dest r \<noteq> dest) (hs_outbound h) \<and>
    subseq (map or_outer (hs_outbound h')) (map or_outer (hs_outbound h)) \<and>
    (case r of
       Err e \<Rightarrow> hs_outbound h' = hs_outbound h
     | Ok st \<Rightarrow> length (hs_outbound h') + st_delivered st + st_expired st \<le> length (hs_outbound h) \<and>
         length (hs_outbound h) \<le> length (hs_outbound h') + st_delivered st + st_failed st + st_expired st)"
proof -
  from assms show ?thesis
  proof (cases rule: dial_cases)
    case (err e)
    then show ?thesis using env_fields(1) [OF err(2)] by simp
  next
    case (ok st h1 n h2)
    have o: "hs_outbound h1 = hs_outbound h" using ok(2) by (rule env_fields)
    note E = dial_loop_effect [OF ok(4)] and P = purge_expired_effect [OF ok(3)]
    have "queue_kept dest h h'"
      by (rule queue_kept_trans [OF queue_kept_trans [OF queue_kept_refl(2) [OF o] P(1)] conjunct1 [OF E]])
    then show ?thesis
      using P(2) E ok(1) o by (simp add: queue_kept_def stats_default_def)
  qed
qed

lemma forward_row_cut:
  assumes "hm_get (hs_peers h) dest = Some p" "\<not> ps_refused p" "\<not> ex_written io \<or> ex_reply io = None"
  shows "\<exists>D. forward_row C dest io row h = (Err Denied, set_fed (hm_insert dest (p\<lparr>ps_next_tx := ps_next_tx p + 1\<rparr>) (hs_peers h)) D h)"
  using assms by (cases "ex_written io") (auto simp: forward_row_def take_frame_ok)

text \<open>
  A connection that breaks loses the row: when the dialler has greeted its peer and the
  connection then fails while a row is being written, the row is removed from the queue and
  counted as failed, although it was never sent.
\<close>

theorem io_failure_drops_row:
  assumes "hm_get (hs_peers h) dest = Some p" "\<not> ps_refused p" "ps_last_rx p \<noteq> - 1"
    and "length dest = 32" "length (hs_server_id C h) = 32"
    and "hs_outbound h = [row]" "or_dest row = dest" "row_due h row"
    and "d = \<lparr>di_config = True, di_connected = True,
      di_hello = \<lparr>ex_written = True, ex_reply = Some \<lparr>sf_counter = ps_last_rx p + 1, sf_payload = hello_payload dest (hs_server_id C h)\<rparr>\<rparr>,
      di_rows = []\<rparr>"
  shows "\<exists>h'. dial_and_pump C d dest h = (Ok \<lparr>st_delivered = 0, st_failed = 1, st_deferred = 0, st_expired = 0\<rparr>, h') \<and>
    hs_outbound h' = []"
proof -
  define h1 where "h1 = snd (take_frame dest (hello_payload (hs_server_id C h) dest) h)"
  have t: "take_frame dest (hello_payload (hs_server_id C h) dest) h = (Ok \<lparr>sf_counter = ps_next_tx p, sf_payload = hello_payload (hs_server_id C h) dest\<rparr>, h1)"
    and p1: "hm_get (hs_peers h1) dest = Some (p\<lparr>ps_next_tx := ps_next_tx p + 1\<rparr>)" and e1: "env_view h1 = env_view h"
    unfolding h1_def by (simp_all add: take_frame_ok [OF assms(1,2)] hm_get_insert)
  let ?p = "p\<lparr>ps_next_tx := ps_next_tx p + 1, ps_last_rx := ps_last_rx p + 1\<rparr>"
  define h2 where "h2 = set_fed (hm_insert dest ?p (hs_peers h1)) (insert dest (hd_peers (hs_dirty h1))) h1"
  have a: "accept_frame C dest \<lparr>sf_counter = ps_last_rx p + 1, sf_payload = hello_payload dest (hs_server_id C h)\<rparr> h1 = (Ok [], h2)"
    using accept_hello [OF p1, of C] assms(2-5) by (simp add: env_fields(3) [OF e1] h2_def)
  define h3 where "h3 = set_hello_done dest h2"
  have p3: "hm_get (hs_peers h3) dest = Some (?p\<lparr>ps_hello_done := True\<rparr>)"
    by (simp add: h3_def set_hello_done_def h2_def hm_get_insert)
  have e3: "env_view h3 = env_view h" using e1 by (simp add: h3_def h2_def)
  have o3: "hs_outbound h3 = [row]" "hs_now h3 = hs_now h" using env_fields(1,2) [OF e3] assms(6) by simp_all
  have purge: "purge_expired dest h3 = (0, h3)"
    using assms(8) o3 by (simp add: purge_expired_def row_due_def Let_def)
  have nd: "next_due h3 dest = Some row" using assms(7,8) o3 by (simp add: next_due_def row_due_def)
  obtain D where f: "forward_row C dest closed row h3 = (Err Denied, set_fed (hm_insert dest (?p\<lparr>ps_hello_done := True, ps_next_tx := ps_next_tx ?p + 1\<rparr>) (hs_peers h3)) D h3)"
    using forward_row_cut [OF p3, of closed] assms(2) by (auto simp: closed_def)
  define h4 where "h4 = set_fed (hm_insert dest (?p\<lparr>ps_hello_done := True, ps_next_tx := ps_next_tx ?p + 1\<rparr>) (hs_peers h3)) D h3"
  have o5: "hs_outbound (remove_matching_outbound row h4) = []"
    by (simp add: remove_matching_outbound_def h4_def o3 same_row_def drop_outbound_def)
  then have nd5: "next_due (remove_matching_outbound row h4) dest = None" by (simp add: next_due_def)
  have "dial_row C dest closed row stats_default h3 =
      (True, \<lparr>st_delivered = 0, st_failed = 1, st_deferred = 0, st_expired = 0\<rparr>, remove_matching_outbound row h4)"
    unfolding dial_row_def f h4_def [symmetric] by (simp add: stats_default_def)
  then have "dial_loop C dest [] stats_default h3 =
      (\<lparr>st_delivered = 0, st_failed = 1, st_deferred = 0, st_expired = 0\<rparr>, remove_matching_outbound row h4)"
    by (simp add: dial_loop.simps nd nd5 next_io_def)
  moreover have "stats_default\<lparr>st_expired := 0\<rparr> = stats_default" by (simp add: stats_default_def)
  ultimately have "dial_and_pump C d dest h =
      (Ok \<lparr>st_delivered = 0, st_failed = 1, st_deferred = 0, st_expired = 0\<rparr>, remove_matching_outbound row h4)"
    using assms(1,2) t a purge by (simp add: dial_and_pump_def assms(9) h3_def [symmetric] Let_def)
  with o5 show ?thesis by blast
qed

subsection \<open>Both ends of a connection\<close>

text \<open>
  The dialler connects to the listener: its greeting reaches the listener, and what the listener
  answers is what the dialler reads. \<open>ios\<close> is what would happen to the rows after that.
\<close>

definition redial :: "crypto \<Rightarrow> Exchange list \<Rightarrow> HomeServer \<times> HomeServer \<Rightarrow> PumpStats presult" where
  "redial C ios s =
     (let dest = hs_server_id C (snd s); src = hs_server_id C (fst s);
          (ex, b') = (case fst (take_frame dest (hello_payload src dest) (fst s)) of
              Ok f \<Rightarrow> (case inbound_hello C (sign_public C (fst s)) f (snd s) of
                  (Ok reply, b') \<Rightarrow> (\<lparr>ex_written = True, ex_reply = Some reply\<rparr>, b')
                | (Err _, b') \<Rightarrow> (\<lparr>ex_written = True, ex_reply = None\<rparr>, b'))
            | Err _ \<Rightarrow> (closed, snd s));
          (r, a') = dial_and_pump C \<lparr>di_config = True, di_connected = True, di_hello = ex, di_rows = ios\<rparr> dest (fst s) in
      (r, (a', b')))"

fun redials :: "crypto \<Rightarrow> Exchange list list \<Rightarrow> HomeServer \<times> HomeServer \<Rightarrow> (ServerError + PumpStats) list \<times> (HomeServer \<times> HomeServer)" where
  "redials C [] s = ([], s)"
| "redials C (ios # rest) s =
     (case redial C ios s of (r, s') \<Rightarrow> (case redials C rest s' of (rs, s'') \<Rightarrow> (r # rs, s'')))"

text \<open>
  A gap: the listener's next frame is not the one the dialler expects, while the dialler's
  frames are in order. The counters leave room for \<open>k\<close> more frames.
\<close>

definition gap_pair :: "nat \<Rightarrow> PeerState \<Rightarrow> PeerState \<Rightarrow> bool" where
  "gap_pair k p q \<longleftrightarrow> \<not> ps_refused p \<and> \<not> ps_refused q \<and> ps_next_tx p = ps_last_rx q + 1 \<and>
     unat (ps_last_rx p) + 1 < unat (ps_next_tx q) \<and> unat (ps_next_tx q) + k < 2 ^ 64 \<and> unat (ps_last_rx q) + k < 2 ^ 64"

definition gapped :: "crypto \<Rightarrow> nat \<Rightarrow> HomeServer \<Rightarrow> HomeServer \<Rightarrow> bool" where
  "gapped C k a b \<longleftrightarrow> length (hs_server_id C a) = 32 \<and> length (hs_server_id C b) = 32 \<and>
     peer_id_for_sign_key b (sign_public C a) = Some (hs_server_id C a) \<and>
     (\<exists>p q. hm_get (hs_peers a) (hs_server_id C b) = Some p \<and> hm_get (hs_peers b) (hs_server_id C a) = Some q \<and> gap_pair k p q)"

lemma sign_key_update:
  assumes "map_of ps k = Some p" "ps_bundle p' = ps_bundle p"
  shows "map_option fst (find (\<lambda>(sid, p). sb_sign_public (ps_bundle p) = pk) (AList.update k p' ps)) =
    map_option fst (find (\<lambda>(sid, p). sb_sign_public (ps_bundle p) = pk) ps)"
  using assms by (induction ps) (auto split: if_splits)

lemma sign_key_put:
  assumes "hm_get (hs_peers h) k = Some p" "ps_bundle p' = ps_bundle p"
  shows "peer_id_for_sign_key (set_fed (hm_insert k p' (hs_peers h)) D h) pk = peer_id_for_sign_key h pk"
    "peer_id_for_sign_key (put_peer k p' h) pk = peer_id_for_sign_key h pk"
  using sign_key_update [of "hs_peers h" k p p' pk] assms
  by (simp_all add: peer_id_for_sign_key_def hm_insert_def hm_get_def put_peer_def)

lemma bundle_same [simp]: "ps_bundle (roll_window now p) = ps_bundle p" "ps_bundle (remember_peer e n p) = ps_bundle p"
  by (simp_all add: roll_window_def remember_peer_def Let_def)

lemma sign_key_mark [simp]: "peer_id_for_sign_key (mark_peer_dirty k h) = peer_id_for_sign_key h"
  by (simp add: peer_id_for_sign_key_def mark_peer_dirty_def fun_eq_iff)

text \<open>Handling frames does not change which key stands for which peer.\<close>

lemma sign_key_accept: "peer_id_for_sign_key (snd (accept_frame C k f h)) pk = peer_id_for_sign_key h pk"
proof -
  let ?K = "\<lambda>h'. peer_id_for_sign_key h' pk = peer_id_for_sign_key h pk"
  have "?K (snd (handle_ciphertext C k ct h1))" if K: "?K h1" for ct h1
  proof (rule handle_ciphertext_rule [where P = ?K and Q = ?K])
    show "?K (put_peer k (roll_window (hs_now h1) p) h1)" if "hm_get (hs_peers h1) k = Some p" for p
      using sign_key_put(2) [OF that] K by simp
    show "?K (put_peer k (remember_peer (take ENCAP_LEN ct) seq p) h2)" if "?K h2" "hm_get (hs_peers h2) k = Some p" for seq p h2
      using sign_key_put(2) [OF that(2)] that(1) by simp
  qed (use K in \<open>auto simp: peer_id_for_sign_key_def\<close>)
  then show ?thesis
    by (intro accept_frame_rule [where P = ?K and Q = ?K]) (auto simp: sign_key_put(2))
qed

lemma ok_payload_nonempty: "ok_payload n \<noteq> []"
proof
  assume e: "ok_payload n = []"
  have "parse_payload [] = Ok (Ciphertext [])" by (simp add: parse_payload_def decode_def read_value.simps read_head_def)
  with parse_ok_payload [of n, unfolded e] show False by simp
qed

lemma gap_pairD:
  assumes "gap_pair (Suc k) p q"
  shows "ps_last_rx q \<noteq> - 1" "\<not> ps_next_tx q \<le> ps_last_rx p" "ps_next_tx q \<noteq> ps_last_rx p + 1"
    "unat (ps_next_tx q + 1) = unat (ps_next_tx q) + 1" "unat (ps_last_rx q + 1) = unat (ps_last_rx q) + 1"
proof -
  have g: "unat (ps_last_rx p) + 1 < unat (ps_next_tx q)" "unat (ps_next_tx q) + 1 < 2 ^ 64" "unat (ps_last_rx q) + 1 < 2 ^ 64"
    using assms by (simp_all add: gap_pair_def)
  show n: "ps_last_rx q \<noteq> - 1" using g(3) unat_max64 by fastforce
  have m: "ps_next_tx q \<noteq> - 1" using g(2) unat_max64 by fastforce
  show "\<not> ps_next_tx q \<le> ps_last_rx p" using g(1) by (simp add: word_le_nat_alt)
  have "unat (ps_last_rx p) + 1 < 2 ^ 64" using g(1,2) by linarith
  then have "ps_last_rx p \<noteq> - 1" using unat_max64 by fastforce
  then show "ps_next_tx q \<noteq> ps_last_rx p + 1" using g(1) unat_succ(1) by force
  show "unat (ps_next_tx q + 1) = unat (ps_next_tx q) + 1" "unat (ps_last_rx q + 1) = unat (ps_last_rx q) + 1"
    using unat_succ(1) [OF m] unat_succ(1) [OF n] by simp_all
qed

lemma redial_gapped:
  assumes "gapped C (Suc k) a b" "redial C ios (a, b) = (r, (a', b'))"
  shows "r = Err CounterGap \<and> gapped C k a' b' \<and> hs_outbound a' = hs_outbound a"
proof -
  let ?src = "hs_server_id C a" and ?dest = "hs_server_id C b"
  obtain p q where p: "hm_get (hs_peers a) ?dest = Some p" and q: "hm_get (hs_peers b) ?src = Some q" and g: "gap_pair (Suc k) p q"
    and len: "length ?src = 32" "length ?dest = 32" and key: "peer_id_for_sign_key b (sign_public C a) = Some ?src"
    using assms(1) by (auto simp: gapped_def)
  note D = gap_pairD [OF g]
  have pq: "\<not> ps_refused p" "\<not> ps_refused q" "ps_next_tx p = ps_last_rx q + 1" using g by (simp_all add: gap_pair_def)
  let ?p = "p\<lparr>ps_next_tx := ps_next_tx p + 1\<rparr>" and ?q1 = "q\<lparr>ps_last_rx := ps_last_rx q + 1\<rparr>"
  let ?q2 = "?q1\<lparr>ps_hello_done := True\<rparr>"
  let ?q3 = "?q2\<lparr>ps_next_tx := ps_next_tx q + 1\<rparr>"
  define a1 where "a1 = set_fed (hm_insert ?dest ?p (hs_peers a)) (insert ?dest (hd_peers (hs_dirty a))) a"
  have ta: "take_frame ?dest (hello_payload ?src ?dest) a = (Ok \<lparr>sf_counter = ps_last_rx q + 1, sf_payload = hello_payload ?src ?dest\<rparr>, a1)"
    by (simp add: take_frame_ok [OF p pq(1)] a1_def pq(3))
  define b1 where "b1 = set_fed (hm_insert ?src ?q1 (hs_peers b)) (insert ?src (hd_peers (hs_dirty b))) b"
  have ab: "accept_frame C ?src \<lparr>sf_counter = ps_last_rx q + 1, sf_payload = hello_payload ?src ?dest\<rparr> b = (Ok [], b1)"
    unfolding b1_def by (rule accept_hello [OF q pq(2) D(1) len])
  have q1: "hm_get (hs_peers b1) ?src = Some ?q1" by (simp add: b1_def hm_get_insert)
  define b2 where "b2 = put_peer ?src ?q2 b1"
  have h2: "set_hello_done ?src b1 = b2" by (simp add: set_hello_done_def q1 b2_def)
  have q2: "hm_get (hs_peers b2) ?src = Some ?q2" by (simp add: b2_def)
  have ids: "hs_server_id C b2 = ?dest" "hs_server_id C a1 = ?src" by (simp_all add: b2_def b1_def a1_def set_fed_peer)
  define b3 where "b3 = set_fed (hm_insert ?src ?q3 (hs_peers b2)) (insert ?src (hd_peers (hs_dirty b2))) b2"
  have tb: "take_frame ?src (hello_payload ?dest ?src) b2 = (Ok \<lparr>sf_counter = ps_next_tx q, sf_payload = hello_payload ?dest ?src\<rparr>, b3)"
    using pq(2) by (simp add: take_frame_ok [OF q2] b3_def)
  have inb: "inbound_hello C (sign_public C a) \<lparr>sf_counter = ps_last_rx q + 1, sf_payload = hello_payload ?src ?dest\<rparr> b =
      (Ok \<lparr>sf_counter = ps_next_tx q, sf_payload = hello_payload ?dest ?src\<rparr>, b3)"
    by (simp add: inbound_hello_def key ab h2 ids tb Let_def)
  have pa: "hm_get (hs_peers a1) ?dest = Some ?p" by (simp add: a1_def hm_get_insert)
  have "accept_frame C ?dest \<lparr>sf_counter = ps_next_tx q, sf_payload = hello_payload ?dest ?src\<rparr> a1 = (Err CounterGap, a1)"
    using pq(1) D(2,3) by (simp add: accept_frame_def pa)
  then have "dial_and_pump C \<lparr>di_config = True, di_connected = True, di_hello = \<lparr>ex_written = True,
      ex_reply = Some \<lparr>sf_counter = ps_next_tx q, sf_payload = hello_payload ?dest ?src\<rparr>\<rparr>, di_rows = ios\<rparr> ?dest a = (Err CounterGap, a1)"
    using pq(1) by (simp add: dial_and_pump_def p ta)
  then have res: "r = Err CounterGap" "a' = a1" "b' = b3" using assms(2) by (simp_all add: redial_def Let_def ta inb)
  have "peer_id_for_sign_key b3 (sign_public C a) = Some ?src"
    using sign_key_put(1) [OF q2, of ?q3] sign_key_put(2) [OF q1, of ?q2] sign_key_put(1) [OF q, of ?q1] key
    by (simp add: b3_def b2_def b1_def)
  moreover have "sign_public C a1 = sign_public C a" "hs_server_id C b3 = ?dest" "hs_outbound a1 = hs_outbound a"
    using ids by (simp_all add: a1_def b3_def) (simp_all add: sign_public_def set_fed_def)
  moreover have "hm_get (hs_peers b3) ?src = Some ?q3" by (simp add: b3_def hm_get_insert)
  moreover have "gap_pair k ?p ?q3" using g D(4,5) by (simp add: gap_pair_def)
  ultimately show ?thesis using len pa ids by (simp add: res gapped_def)
qed

lemma redials_gapped:
  "gapped C (length tries) a b \<Longrightarrow>
   \<exists>a' b'. redials C tries (a, b) = (replicate (length tries) (Err CounterGap), (a', b')) \<and> hs_outbound a' = hs_outbound a"
proof (induction tries arbitrary: a b)
  case (Cons ios tries)
  obtain r a1 b1 where r: "redial C ios (a, b) = (r, (a1, b1))" by (metis prod_cases3)
  from redial_gapped [OF _ r, of "length tries"] Cons.prems have "r = Err CounterGap" "gapped C (length tries) a1 b1" "hs_outbound a1 = hs_outbound a"
    by simp_all
  with Cons.IH [of a1 b1] r show ?case by auto
qed simp

text \<open>
  A lost reply stops a link for good: when the listener has taken a row and its reply is
  lost, then however often the dialler connects again afterwards, over connections that work,
  every attempt fails with a counter gap and no row leaves the queue.
\<close>

theorem lost_reply_stops_link:
  assumes "link_ready C (length tries + 2) a b" "length (hs_server_id C a) = 32" "length (hs_server_id C b) = 32"
    and "peer_id_for_sign_key b (sign_public C a) = Some (hs_server_id C a)"
    and "takes b (hs_server_id C a) (oe_ciphertext (or_outer row))"
    and "ingest C \<lparr>oe_destination = hs_server_id C b, oe_ciphertext = oe_ciphertext (or_outer row)\<rparr> b = (Ok seq, b0)"
    and "forward_row C (hs_server_id C b) \<lparr>ex_written = True, ex_reply = None\<rparr> row a = (r, a1)"
    and "take_frame (hs_server_id C b) (oe_ciphertext (or_outer row)) a = (Ok frame, a1')"
    and "inbound_frame C (hs_server_id C a) frame b = (Ok (Some reply), b1)"
  shows "\<exists>a2 b2. redials C tries (a1, b1) = (replicate (length tries) (Err CounterGap), (a2, b2)) \<and> hs_outbound a2 = hs_outbound a"
proof -
  let ?src = "hs_server_id C a" and ?dest = "hs_server_id C b" and ?ct = "oe_ciphertext (or_outer row)"
  from assms(1) obtain p q where p: "hm_get (hs_peers a) ?dest = Some p" and q: "hm_get (hs_peers b) ?src = Some q"
    and rd: "pair_ready (length tries + 2) p q" "\<not> ps_refused p" "\<not> ps_refused q" "ps_next_tx p = ps_last_rx q + 1" "ps_next_tx q = ps_last_rx p + 1"
    by (rule link_readyE)
  have rd1: "pair_ready (Suc (length tries + 1)) p q" using rd(1) by simp
  note D = pair_readyD [OF rd1]
  have u: "unat (ps_last_rx p + 1) = unat (ps_last_rx p) + 1" "unat (ps_last_rx q + 1) = unat (ps_last_rx q) + 1"
    using unat_succ(1) D(1,2) by blast+
  have "unat (ps_last_rx p + 1) + 1 < 2 ^ 64" using D(3) by simp
  then have "ps_last_rx p + 1 \<noteq> - 1" using unat_max64 by fastforce
  then have u2: "unat (ps_last_rx p + 1 + 1) = unat (ps_last_rx p) + 2" using unat_succ(1) u(1) by fastforce
  let ?p = "p\<lparr>ps_next_tx := ps_next_tx p + 1\<rparr>"
  obtain Da where a1: "a1 = set_fed (hm_insert ?dest ?p (hs_peers a)) Da a"
    using forward_row_cut [OF p rd(2), of "\<lparr>ex_written = True, ex_reply = None\<rparr>" C row] assms(7) by auto
  have fr: "frame = \<lparr>sf_counter = ps_last_rx q + 1, sf_payload = ?ct\<rparr>"
    using assms(8) by (simp add: take_frame_ok [OF p rd(2)] rd(4))
  from accept_ciphertext [OF q rd(3) D(2) assms(5,6)] obtain h' q' where
    acc: "accept_frame C ?src frame b = (Ok (ok_payload seq), h')" "env_view h' = env_view b" "hm_get (hs_peers h') ?src = Some q'"
    and q': "ps_last_rx q' = ps_last_rx q + 1" "ps_next_tx q' = ps_next_tx q" "\<not> ps_refused q'"
    unfolding fr by blast
  have key: "peer_id_for_sign_key h' (sign_public C a) = Some ?src"
    using sign_key_accept [of C ?src frame b "sign_public C a"] acc(1) assms(4) by simp
  let ?q = "q'\<lparr>ps_next_tx := ps_next_tx q' + 1\<rparr>"
  have b1: "b1 = set_fed (hm_insert ?src ?q (hs_peers h')) (insert ?src (hd_peers (hs_dirty h'))) h'"
    using assms(9) by (simp add: inbound_frame_def acc take_frame_ok [OF acc(3) q'(3)] ok_payload_nonempty)
  have "gap_pair (length tries) ?p ?q"
    using rd D(3,4) q' u u2 by (simp add: gap_pair_def)
  moreover have "hm_get (hs_peers a1) ?dest = Some ?p" "hm_get (hs_peers b1) ?src = Some ?q"
    "hs_server_id C a1 = ?src" "hs_server_id C b1 = ?dest"
    using env_fields(3) [OF acc(2), of C] by (simp_all add: a1 b1 hm_get_insert)
  moreover have "peer_id_for_sign_key b1 (sign_public C a1) = Some ?src"
    using key sign_key_put(1) [OF acc(3), of ?q] by (simp add: b1 a1) (simp add: sign_public_def set_fed_def)
  ultimately have "gapped C (length tries) a1 b1" using assms(2,3) by (simp add: gapped_def)
  from redials_gapped [OF this] show ?thesis by (simp add: a1)
qed

section \<open>Witnesses\<close>

theorem dial_accounts_witness:
  "\<exists>r h'. dial_and_pump plain_crypto \<lparr>di_config = True, di_connected = False, di_hello = closed, di_rows = []\<rparr> (replicate 32 3) (sender sample_peer) = (r, h') \<and>
     subseq (map or_outer (hs_outbound h')) (map or_outer (hs_outbound (sender sample_peer)))"
proof -
  obtain r h' where "dial_and_pump plain_crypto \<lparr>di_config = True, di_connected = False, di_hello = closed, di_rows = []\<rparr> (replicate 32 3) (sender sample_peer) = (r, h')"
    by fastforce
  with dial_accounts [OF this] show ?thesis by blast
qed

theorem io_failure_drops_row_witness:
  "\<exists>d h'. dial_and_pump plain_crypto d (replicate 32 3) (sender sample_peer) =
     (Ok \<lparr>st_delivered = 0, st_failed = 1, st_deferred = 0, st_expired = 0\<rparr>, h') \<and> hs_outbound h' = []"
proof -
  let ?d = "\<lparr>di_config = True, di_connected = True, di_hello = \<lparr>ex_written = True,
      ex_reply = Some \<lparr>sf_counter = ps_last_rx sample_peer + 1, sf_payload = hello_payload (replicate 32 3) (hs_server_id plain_crypto (sender sample_peer))\<rparr>\<rparr>,
      di_rows = []\<rparr>"
  have "\<exists>h'. dial_and_pump plain_crypto ?d (replicate 32 3) (sender sample_peer) =
     (Ok \<lparr>st_delivered = 0, st_failed = 1, st_deferred = 0, st_expired = 0\<rparr>, h') \<and> hs_outbound h' = []"
    by (rule io_failure_drops_row [OF sample_link(3) sample_peer_fields(1) _ _ _ sample_link(5,7,9) refl])
      (simp_all add: sample_link sample_peer_fields)
  then show ?thesis by blast
qed

theorem lost_reply_stops_link_witness:
  "\<exists>a1 b1 a2 b2. fst (forward_row plain_crypto (replicate 32 3) \<lparr>ex_written = True, ex_reply = None\<rparr> sample_out (sender sample_peer)) = Err Denied \<and>
     redials plain_crypto [[], [], []] (a1, b1) = ([Err CounterGap, Err CounterGap, Err CounterGap], (a2, b2)) \<and> hs_outbound a2 = [sample_out]"
proof -
  let ?a = "sender sample_peer" and ?ct = "replicate 32 6 :: bytes"
  have key: "peer_id_for_sign_key receiver (sign_public plain_crypto ?a) = Some (replicate 32 5)"
    by (simp add: peer_id_for_sign_key_def receiver_def sample_peer_def ps_new_def sign_public_def sender_def)
      (simp add: sample_home_def)
  obtain r a1 where f: "forward_row plain_crypto (replicate 32 3) \<lparr>ex_written = True, ex_reply = None\<rparr> sample_out ?a = (r, a1)" by fastforce
  have r: "r = Err Denied"
    using forward_row_cut [OF sample_link(3) sample_peer_fields(1), of "\<lparr>ex_written = True, ex_reply = None\<rparr>" plain_crypto sample_out] f by auto
  obtain frame a1' where t: "take_frame (replicate 32 3) ?ct ?a = (Ok frame, a1')" "frame = \<lparr>sf_counter = ps_last_rx sample_peer + 1, sf_payload = ?ct\<rparr>"
    by (simp add: take_frame_ok [OF sample_link(3) sample_peer_fields(1)] sample_peer_fields)
  obtain h' q' where acc: "accept_frame plain_crypto (replicate 32 5) frame receiver = (Ok (ok_payload 4), h')" "hm_get (hs_peers h') (replicate 32 5) = Some q'" "\<not> ps_refused q'"
    using accept_ciphertext [OF sample_link(4) sample_peer_fields(1) _ sample_takes, of plain_crypto 4 receiver] sample_ingest
    by (auto simp: sample_link sample_peer_fields t(2))
  obtain reply b1 where i: "inbound_frame plain_crypto (replicate 32 5) frame receiver = (Ok (Some reply), b1)"
    by (simp add: inbound_frame_def acc take_frame_ok [OF acc(2,3)] ok_payload_nonempty)
  have rdy: "link_ready plain_crypto (length [[], [], [] :: Exchange list] + 2) ?a receiver"
    by (simp add: link_ready_def sample_link pair_ready_def sample_peer_fields)
  have "\<exists>a2 b2. redials plain_crypto [[], [], []] (a1, b1) = (replicate (length [[], [], [] :: Exchange list]) (Err CounterGap), (a2, b2)) \<and>
      hs_outbound a2 = hs_outbound ?a"
    by (rule lost_reply_stops_link [OF rdy, of sample_out 4 receiver r a1 frame a1' reply b1])
      (simp_all add: sample_link key sample_takes sample_ingest f t(1) i del: redials.simps)
  then show ?thesis using f r by (auto simp: sample_link simp del: redials.simps)
qed

end
