(* ===== verification/Group_Host.thy ===== *)
theory Group_Host
  imports Server_State
begin

text \<open>
  The group stream host, \<open>nemo-server/src/group.rs\<close>: groups with their member credentials,
  invites and pending joins, the stream of host frames, its fan-out to the members' home
  servers, and the group's file slots.

  Random tokens are arguments; \<open>dummy_scan\<close> spends time only. A group id is its 32 bytes.
\<close>

section \<open>Model\<close>

definition STREAM_MAX_BYTES :: u64 where "STREAM_MAX_BYTES = 2 * 1024 * 1024 * 1024"
definition FILE_BUDGET_BYTES :: u64 where "FILE_BUDGET_BYTES = 4 * 1024 * 1024 * 1024"
definition STREAM_MAX_AGE_SECS :: u64 where "STREAM_MAX_AGE_SECS = 30 * 24 * 3600"
definition GROUPS_PER_OWNER :: nat where "GROUPS_PER_OWNER = 64"

subsection \<open>State\<close>

record FanoutTarget =
  ft_capability :: key
  ft_hpke_public :: key

record MemberCred =
  mc_id :: key
  mc_secret :: key

record CreatedGroup =
  cg_group_id :: key
  cg_cred :: MemberCred

record PendingJoin =
  pj_pending_id :: key
  pj_cred :: MemberCred
  pj_binding :: "key option"
  pj_salt :: "key option"

record PendingLookup =
  pl_credential_id :: key
  pl_binding :: "key option"
  pl_salt :: "key option"

record StreamAppend =
  sa_seq :: u64
  sa_outers :: "OuterEnvelope list"

record CredRecord =
  cr_secret :: key
  cr_live :: bool
  cr_signing_pk :: "key option"
  cr_fanout :: "FanoutTarget option"

record StoredInvite =
  si_expires_at :: u64
  si_binding :: "key option"
  si_salt :: "key option"

record PendingRecord =
  pr_cred :: MemberCred
  pr_expires_at :: u64
  pr_binding :: "key option"
  pr_salt :: "key option"

record FileSlot =
  fs_group_id :: key
  fs_owner :: key
  fs_size :: nat
  fs_expires_at :: u64
  fs_bytes :: "bytes option"

record StreamRow =
  sw_seq :: u64
  sw_type :: MessageType
  sw_body :: bytes
  sw_received_at :: u64

record GroupState =
  gs_next_seq :: u64
  gs_creds :: "(key, CredRecord) hashmap"
  gs_invites :: "(key, StoredInvite) hashmap"
  gs_pending :: "(key, PendingRecord) hashmap"
  gs_bytes :: u64
  gs_stream :: "StreamRow list"
  gs_creator :: "key option"

record GroupDirty =
  gd_groups :: "key set"
  gd_creds :: "(key \<times> key) set"
  gd_invites :: "key set"
  gd_pending :: "key set"
  gd_stream_new :: "(key \<times> u64) list"
  gd_files :: "key set"

definition gd_default :: GroupDirty where
  "gd_default = \<lparr>gd_groups = {}, gd_creds = {}, gd_invites = {}, gd_pending = {}, gd_stream_new = [], gd_files = {}\<rparr>"

definition gd_is_clean :: "GroupDirty \<Rightarrow> bool" where
  "gd_is_clean d \<longleftrightarrow> gd_groups d = {} \<and> gd_creds d = {} \<and> gd_invites d = {} \<and> gd_pending d = {} \<and>
     gd_stream_new d = [] \<and> gd_files d = {}"

definition gd_absorb :: "GroupDirty \<Rightarrow> GroupDirty \<Rightarrow> GroupDirty" where
  "gd_absorb d other = \<lparr>gd_groups = gd_groups d \<union> gd_groups other, gd_creds = gd_creds d \<union> gd_creds other,
     gd_invites = gd_invites d \<union> gd_invites other, gd_pending = gd_pending d \<union> gd_pending other,
     gd_stream_new = gd_stream_new d @ gd_stream_new other, gd_files = gd_files d \<union> gd_files other\<rparr>"

record GroupHost =
  gh_now :: u64
  gh_groups :: "(key, GroupState) hashmap"
  gh_files :: "(key, FileSlot) hashmap"
  gh_file_budget :: u64
  gh_dirty :: GroupDirty

type_synonym 'a gresult = "(ServerError + 'a) \<times> GroupHost"

definition gh_new :: GroupHost where
  "gh_new = \<lparr>gh_now = 1700000000, gh_groups = [], gh_files = [], gh_file_budget = FILE_BUDGET_BYTES, gh_dirty = gd_default\<rparr>"

text \<open>Writing a group back, and the journal entries.\<close>

definition put_group :: "key \<Rightarrow> GroupState \<Rightarrow> GroupHost \<Rightarrow> GroupHost" where
  "put_group gid g h = h\<lparr>gh_groups := hm_insert gid g (gh_groups h)\<rparr>"

definition dirty_cred :: "key \<Rightarrow> key \<Rightarrow> GroupHost \<Rightarrow> GroupHost" where
  "dirty_cred gid cid h = h\<lparr>gh_dirty := (gh_dirty h)\<lparr>gd_creds := insert (gid, cid) (gd_creds (gh_dirty h))\<rparr>\<rparr>"

definition dirty_invites :: "key \<Rightarrow> GroupHost \<Rightarrow> GroupHost" where
  "dirty_invites gid h = h\<lparr>gh_dirty := (gh_dirty h)\<lparr>gd_invites := insert gid (gd_invites (gh_dirty h))\<rparr>\<rparr>"

definition dirty_pending :: "key \<Rightarrow> GroupHost \<Rightarrow> GroupHost" where
  "dirty_pending gid h = h\<lparr>gh_dirty := (gh_dirty h)\<lparr>gd_pending := insert gid (gd_pending (gh_dirty h))\<rparr>\<rparr>"

definition dirty_file :: "key \<Rightarrow> GroupHost \<Rightarrow> GroupHost" where
  "dirty_file tok h = h\<lparr>gh_dirty := (gh_dirty h)\<lparr>gd_files := insert tok (gd_files (gh_dirty h))\<rparr>\<rparr>"

subsection \<open>Credentials\<close>

definition hash_secret :: "crypto \<Rightarrow> key \<Rightarrow> key" where
  "hash_secret C secret = sha256 C secret"

definition authorize_live :: "crypto \<Rightarrow> GroupHost \<Rightarrow> key \<Rightarrow> MemberCred \<Rightarrow> ServerError + unit" where
  "authorize_live C h gid cred =
     (case hm_get (gh_groups h) gid of
        None \<Rightarrow> Err Denied
      | Some g \<Rightarrow>
          (case hm_get (gs_creds g) (mc_id cred) of
             Some rec \<Rightarrow> if cr_live rec \<and> cr_secret rec = hash_secret C (mc_secret cred) then Ok () else Err Denied
           | None \<Rightarrow> Err Denied))"

definition signing_pk :: "GroupHost \<Rightarrow> key \<Rightarrow> key \<Rightarrow> key option" where
  "signing_pk h gid cid =
     Option.bind (hm_get (gh_groups h) gid) (\<lambda>g. Option.bind (hm_get (gs_creds g) cid) cr_signing_pk)"

text \<open>Writing through \<open>g.creds.get_mut(&id)\<close>; nothing when the credential is unknown.\<close>

definition upd_cred :: "key \<Rightarrow> (CredRecord \<Rightarrow> CredRecord) \<Rightarrow> GroupState \<Rightarrow> GroupState" where
  "upd_cred cid f g =
     (case hm_get (gs_creds g) cid of
        Some rec \<Rightarrow> g\<lparr>gs_creds := hm_insert cid (f rec) (gs_creds g)\<rparr>
      | None \<Rightarrow> g)"

subsection \<open>Creating and joining\<close>

definition created_by :: "key \<Rightarrow> GroupHost \<Rightarrow> nat" where
  "created_by owner h = length (filter (\<lambda>(gid, g). gs_creator g = Some owner) (gh_groups h))"

text \<open>The random group id, secret and credential id are the first arguments.\<close>

definition create_group_for :: "crypto \<Rightarrow> key \<times> key \<times> key \<Rightarrow> key \<Rightarrow> FanoutTarget \<Rightarrow> key option \<Rightarrow> GroupHost \<Rightarrow> CreatedGroup gresult" where
  "create_group_for C rnd spk fanout creator h =
     (if (case creator of Some owner \<Rightarrow> created_by owner h \<ge> GROUPS_PER_OWNER | None \<Rightarrow> False) then (Err Denied, h)
      else
        (let (gid, secret, cid) = rnd;
             rec = \<lparr>cr_secret = hash_secret C secret, cr_live = True, cr_signing_pk = Some spk, cr_fanout = Some fanout\<rparr>;
             h = put_group gid \<lparr>gs_next_seq = 1, gs_creds = [(cid, rec)], gs_invites = [], gs_pending = [],
                   gs_bytes = 0, gs_stream = [], gs_creator = creator\<rparr> h;
             h = h\<lparr>gh_dirty := (gh_dirty h)\<lparr>gd_groups := insert gid (gd_groups (gh_dirty h))\<rparr>\<rparr> in
         (Ok \<lparr>cg_group_id = gid, cg_cred = \<lparr>mc_id = cid, mc_secret = secret\<rparr>\<rparr>, dirty_cred gid cid h)))"

definition create_group :: "crypto \<Rightarrow> key \<times> key \<times> key \<Rightarrow> key \<Rightarrow> FanoutTarget \<Rightarrow> GroupHost \<Rightarrow> CreatedGroup gresult" where
  "create_group C rnd spk fanout h = create_group_for C rnd spk fanout None h"

definition store_invite :: "crypto \<Rightarrow> key \<Rightarrow> MemberCred \<Rightarrow> GroupInvite \<Rightarrow> GroupHost \<Rightarrow> unit gresult" where
  "store_invite C gid cred invite h =
     sread (authorize_live C h gid cred) h (\<lambda>_.
     if gi_group_id invite \<noteq> gid then (Err Denied, h)
     else sread (ok_or (signing_pk h gid (mc_id cred)) Denied) h (\<lambda>pk.
     if \<not> lib_ed_point C pk then (Err Denied, h)
     else sread (map_err (\<lambda>_. Denied) (gi_verify C invite pk)) h (\<lambda>_.
     sread (ok_or (hm_get (gh_groups h) gid) Denied) h (\<lambda>g.
       (Ok (), dirty_invites gid (put_group gid (g\<lparr>gs_invites := hm_insert (gi_nonce invite)
          \<lparr>si_expires_at = saturating_add (gh_now h) (gi_ttl_secs invite), si_binding = gi_binding invite, si_salt = gi_salt invite\<rparr>
          (gs_invites g)\<rparr>) h))))))"

text \<open>The random secret, credential id and pending id come first. An expired invite is consumed too.\<close>

definition gh_accept :: "crypto \<Rightarrow> key \<times> key \<times> key \<Rightarrow> key \<Rightarrow> key \<Rightarrow> GroupHost \<Rightarrow> PendingJoin gresult" where
  "gh_accept C rnd gid nonce h =
     sread (ok_or (hm_get (gh_groups h) gid) Denied) h (\<lambda>g.
     sread (ok_or (hm_get (gs_invites g) nonce) Denied) h (\<lambda>stored.
     let g = g\<lparr>gs_invites := hm_remove nonce (gs_invites g)\<rparr> in
     if gh_now h \<ge> si_expires_at stored then (Err Denied, put_group gid g h)
     else
       (let (secret, cid, pid) = rnd;
            g = g\<lparr>gs_creds := hm_insert cid
                  \<lparr>cr_secret = hash_secret C secret, cr_live = False, cr_signing_pk = None, cr_fanout = None\<rparr> (gs_creds g),
                gs_pending := hm_insert pid
                  \<lparr>pr_cred = \<lparr>mc_id = cid, mc_secret = hash_secret C secret\<rparr>, pr_expires_at = si_expires_at stored,
                   pr_binding = si_binding stored, pr_salt = si_salt stored\<rparr> (gs_pending g)\<rparr> in
        (Ok \<lparr>pj_pending_id = pid, pj_cred = \<lparr>mc_id = cid, mc_secret = secret\<rparr>,
             pj_binding = si_binding stored, pj_salt = si_salt stored\<rparr>,
         dirty_cred gid cid (dirty_pending gid (dirty_invites gid (put_group gid g h)))))))"

definition lookup_pending :: "crypto \<Rightarrow> key \<Rightarrow> MemberCred \<Rightarrow> key \<Rightarrow> GroupHost \<Rightarrow> ServerError + PendingLookup" where
  "lookup_pending C gid cred pid h =
     rbind (authorize_live C h gid cred) (\<lambda>_.
     rbind (ok_or (hm_get (gh_groups h) gid) Denied) (\<lambda>g.
     rbind (ok_or (hm_get (gs_pending g) pid) Denied) (\<lambda>p.
     if gh_now h \<ge> pr_expires_at p then Err Denied
     else Ok \<lparr>pl_credential_id = mc_id (pr_cred p), pl_binding = pr_binding p, pl_salt = pr_salt p\<rparr>)))"

definition gc_pending :: "key \<Rightarrow> GroupHost \<Rightarrow> GroupHost" where
  "gc_pending gid h =
     (case hm_get (gh_groups h) gid of
        Some g \<Rightarrow> put_group gid (g\<lparr>gs_pending := hm_retain (\<lambda>_ p. pr_expires_at p > gh_now h) (gs_pending g),
                    gs_invites := hm_retain (\<lambda>_ i. si_expires_at i > gh_now h) (gs_invites g)\<rparr>) h
      | None \<Rightarrow> h)"

definition admit :: "crypto \<Rightarrow> key \<Rightarrow> MemberCred \<Rightarrow> GroupAdmit \<Rightarrow> key \<Rightarrow> FanoutTarget \<Rightarrow> GroupHost \<Rightarrow> key gresult" where
  "admit C gid admitter adm joiner_pk fanout h =
     sread (authorize_live C h gid admitter) h (\<lambda>_.
     if ga_group_id adm \<noteq> gid then (Err Denied, h)
     else sread (ok_or (signing_pk h gid (mc_id admitter)) Denied) h (\<lambda>pk.
     if \<not> lib_ed_point C pk then (Err Denied, h)
     else sread (map_err (\<lambda>_. Denied) (ga_verify C adm pk)) h (\<lambda>_.
     let h = dirty_pending gid (dirty_invites gid (gc_pending gid h)) in
     sread (ok_or (hm_get (gh_groups h) gid) Denied) h (\<lambda>g.
     sread (ok_or (hm_get (gs_pending g) (ga_pending_id adm)) Denied) h (\<lambda>reserved.
     let g = g\<lparr>gs_pending := hm_remove (ga_pending_id adm) (gs_pending g)\<rparr>; cid = mc_id (pr_cred reserved) in
     if gh_now h \<ge> pr_expires_at reserved then (Err Denied, put_group gid g h)
     else
       (case hm_get (gs_creds g) cid of
          None \<Rightarrow> (Err Denied, put_group gid g h)
        | Some rec \<Rightarrow>
            (Ok cid, dirty_cred gid cid (put_group gid
               (upd_cred cid (\<lambda>r. r\<lparr>cr_live := True, cr_signing_pk := Some joiner_pk, cr_fanout := Some fanout\<rparr>) g) h))))))))"

subsection \<open>The stream\<close>

text \<open>The targets of a fan-out, in the iteration order of the credentials.\<close>

definition fanout_targets :: "GroupState \<Rightarrow> FanoutTarget list" where
  "fanout_targets g = List.map_filter (\<lambda>(cid, rec). if cr_live rec then cr_fanout rec else None) (gs_creds g)"

text \<open>The loop that seals one copy per target; \<open>rnd i\<close> is the random idempotency token and the seal's randomness of copy \<open>i\<close>.\<close>

fun seal_copies :: "crypto \<Rightarrow> (nat \<Rightarrow> key \<times> bytes) \<Rightarrow> nat \<Rightarrow> MessageType \<Rightarrow> bytes \<Rightarrow> FanoutTarget list \<Rightarrow> WireError + OuterEnvelope list" where
  "seal_copies C rnd i ty body [] = Ok []"
| "seal_copies C rnd i ty body (t # ts) =
     rbind (pad ty body) (\<lambda>padded.
     let inner = \<lparr>ie_capability = ft_capability t, ie_ttl = TTL_DEFAULT, ie_idempotency = fst (rnd i), ie_message = padded\<rparr> in
     rbind (seal_to_server C (snd (rnd i)) (ft_hpke_public t) inner) (\<lambda>outer.
     rbind (seal_copies C rnd (Suc i) ty body ts) (\<lambda>outers. Ok (outer # outers))))"

definition fanout_copy :: "crypto \<Rightarrow> (nat \<Rightarrow> key \<times> bytes) \<Rightarrow> key \<Rightarrow> MessageType \<Rightarrow> bytes \<Rightarrow> GroupHost \<Rightarrow> StreamAppend gresult" where
  "fanout_copy C rnd gid ty body h =
     sread (ok_or (hm_get (gh_groups h) gid) Denied) h (\<lambda>g.
     let add = of_nat (length body) in
     if saturating_add (gs_bytes g) add > STREAM_MAX_BYTES then (Err Denied, h)
     else
       (let seq = gs_next_seq g;
            g' = g\<lparr>gs_next_seq := seq + 1, gs_bytes := saturating_add (gs_bytes g) add,
                   gs_stream := gs_stream g @ [\<lparr>sw_seq = seq, sw_type = ty, sw_body = body, sw_received_at = gh_now h\<rparr>]\<rparr>;
            h1 = put_group gid g' h;
            h2 = h1\<lparr>gh_dirty := (gh_dirty h1)\<lparr>gd_groups := insert gid (gd_groups (gh_dirty h1)),
                   gd_stream_new := gd_stream_new (gh_dirty h1) @ [(gid, seq)]\<rparr>\<rparr> in
        sread (map_err Wire (seal_copies C rnd 0 ty body (fanout_targets g'))) h2 (\<lambda>outers.
          (Ok \<lparr>sa_seq = seq, sa_outers = outers\<rparr>, h2))))"

definition append_host_revocation :: "crypto \<Rightarrow> (nat \<Rightarrow> key \<times> bytes) \<Rightarrow> key \<Rightarrow> RevocationStatement \<Rightarrow> GroupHost \<Rightarrow> StreamAppend gresult" where
  "append_host_revocation C rnd gid stmt h =
     (if hm_get (gh_groups h) gid = None then (Err Denied, h)
      else fanout_copy C rnd gid RevocationStatementType (rs_encode stmt) h)"

definition refresh_fanout :: "crypto \<Rightarrow> key \<Rightarrow> MemberCred \<Rightarrow> FanoutTarget \<Rightarrow> GroupHost \<Rightarrow> unit gresult" where
  "refresh_fanout C gid cred fanout h =
     sread (authorize_live C h gid cred) h (\<lambda>_.
     sread (ok_or (hm_get (gh_groups h) gid) Denied) h (\<lambda>g.
       (Ok (), dirty_cred gid (mc_id cred)
          (put_group gid (upd_cred (mc_id cred) (\<lambda>r. r\<lparr>cr_fanout := Some fanout\<rparr>) g) h))))"

text \<open>\<open>if let Some(g) = self.groups.get_mut(&id)\<close>, then the credential in it.\<close>

definition upd_group_cred :: "key \<Rightarrow> key \<Rightarrow> (CredRecord \<Rightarrow> CredRecord) \<Rightarrow> GroupHost \<Rightarrow> GroupHost" where
  "upd_group_cred gid cid f h =
     (case hm_get (gh_groups h) gid of Some g \<Rightarrow> put_group gid (upd_cred cid f g) h | None \<Rightarrow> h)"

definition append_remove :: "crypto \<Rightarrow> (nat \<Rightarrow> key \<times> bytes) \<Rightarrow> key \<Rightarrow> MemberCred \<Rightarrow> bytes \<Rightarrow> GroupHost \<Rightarrow> StreamAppend gresult" where
  "append_remove C rnd gid cred body h =
     sread (map_err Wire (rb_decode body)) h (\<lambda>rb.
     sread (ok_or (signing_pk h gid (mc_id cred)) Denied) h (\<lambda>pk.
     if \<not> lib_ed_point C pk then (Err Denied, h)
     else sread (map_err Wire (rb_verify_sidecar C rb pk gid)) h (\<lambda>_.
     let named = rb_credential_id rb in
     sbind (fanout_copy C rnd gid RemoveBundleType body h) (\<lambda>out h.
       (Ok out, dirty_cred gid named (upd_group_cred gid named (\<lambda>r. r\<lparr>cr_live := False, cr_fanout := None\<rparr>) h))))))"

definition live_file_bytes :: "GroupHost \<Rightarrow> key \<Rightarrow> u64" where
  "live_file_bytes h gid =
     sum_list (map (\<lambda>(tok, s). of_nat (fs_size s)) (filter (\<lambda>(tok, s). fs_group_id s = gid \<and> gh_now h < fs_expires_at s) (gh_files h)))"

definition append_reserve :: "crypto \<Rightarrow> (nat \<Rightarrow> key \<times> bytes) \<Rightarrow> key \<Rightarrow> MemberCred \<Rightarrow> bytes \<Rightarrow> GroupHost \<Rightarrow> StreamAppend gresult" where
  "append_reserve C rnd gid cred body h =
     sread (map_err Wire (ar_decode body)) h (\<lambda>reserve.
     if hm_get (gh_files h) (ar_fetch_token reserve) \<noteq> None then (Err Denied, h)
     else
       (let size = of_nat (size_inner_len (ar_size_bucket reserve)) in
        if saturating_add (live_file_bytes h gid) size > gh_file_budget h then (Err Denied, h)
        else
          (let expires_at = (case ttl_secs (ar_ttl_bucket reserve) of
                 Some s \<Rightarrow> saturating_add (gh_now h) s
               | None \<Rightarrow> saturating_add (gh_now h) STREAM_MAX_AGE_SECS) in
           sbind (fanout_copy C rnd gid AttachmentReserveType body h) (\<lambda>out h.
             (Ok out, dirty_file (ar_fetch_token reserve)
                (h\<lparr>gh_files := hm_insert (ar_fetch_token reserve)
                  \<lparr>fs_group_id = gid, fs_owner = mc_id cred, fs_size = size_inner_len (ar_size_bucket reserve),
                   fs_expires_at = expires_at, fs_bytes = None\<rparr> (gh_files h)\<rparr>))))))"

definition apply_signing_replace :: "crypto \<Rightarrow> key \<Rightarrow> MemberCred \<Rightarrow> bytes \<Rightarrow> GroupHost \<Rightarrow> unit gresult" where
  "apply_signing_replace C gid cred body h =
     sread (map_err Wire (skr_decode body)) h (\<lambda>rep.
     sread (ok_or (signing_pk h gid (mc_id cred)) Denied) h (\<lambda>current.
     if \<not> lib_ed_point C current then (Err Denied, h)
     else sread (map_err Wire (skr_verify C rep current)) h (\<lambda>_.
       (Ok (), dirty_cred gid (mc_id cred)
          (upd_group_cred gid (mc_id cred) (\<lambda>r. r\<lparr>cr_signing_pk := Some (skr_new_public rep)\<rparr>) h)))))"

definition gh_append :: "crypto \<Rightarrow> (nat \<Rightarrow> key \<times> bytes) \<Rightarrow> key \<Rightarrow> MemberCred \<Rightarrow> MessageType \<Rightarrow> bytes \<Rightarrow> GroupHost \<Rightarrow> StreamAppend gresult" where
  "gh_append C rnd gid cred ty body h =
     sread (authorize_live C h gid cred) h (\<lambda>_.
       case ty of
         RemoveBundleType \<Rightarrow> append_remove C rnd gid cred body h
       | SigningKeyReplaceType \<Rightarrow>
           sbind (apply_signing_replace C gid cred body h) (\<lambda>_ h. fanout_copy C rnd gid ty body h)
       | MlsHandshake \<Rightarrow> fanout_copy C rnd gid ty body h
       | MlsApp \<Rightarrow> fanout_copy C rnd gid ty body h
       | RevocationStatementType \<Rightarrow> fanout_copy C rnd gid ty body h
       | AttachmentReserveType \<Rightarrow> append_reserve C rnd gid cred body h
       | _ \<Rightarrow> (Err Denied, h))"

subsection \<open>Files\<close>

definition upload_file :: "crypto \<Rightarrow> key \<Rightarrow> MemberCred \<Rightarrow> key \<Rightarrow> bytes \<Rightarrow> GroupHost \<Rightarrow> unit gresult" where
  "upload_file C gid cred tok body h =
     sread (authorize_live C h gid cred) h (\<lambda>_.
     sread (ok_or (hm_get (gh_files h) tok) Denied) h (\<lambda>slot.
     if fs_group_id slot \<noteq> gid \<or> fs_owner slot \<noteq> mc_id cred \<or> gh_now h \<ge> fs_expires_at slot then (Err Denied, h)
     else if fs_bytes slot \<noteq> None \<or> length body \<noteq> fs_size slot then (Err Denied, h)
     else (Ok (), dirty_file tok (h\<lparr>gh_files := hm_insert tok (slot\<lparr>fs_bytes := Some body\<rparr>) (gh_files h)\<rparr>))))"

definition fetch_file :: "crypto \<Rightarrow> key \<Rightarrow> MemberCred \<Rightarrow> key \<Rightarrow> GroupHost \<Rightarrow> ServerError + bytes" where
  "fetch_file C gid cred tok h =
     rbind (authorize_live C h gid cred) (\<lambda>_.
       case hm_get (gh_files h) tok of
         Some slot \<Rightarrow>
           if fs_group_id slot = gid \<and> gh_now h < fs_expires_at slot
           then (case fs_bytes slot of Some b \<Rightarrow> Ok b | None \<Rightarrow> Err Denied)
           else Err Denied
       | None \<Rightarrow> Err Denied)"

end
