(* ===== verification/Group_Props.thy ===== *)
theory Group_Props
  imports Group_Host
begin

text \<open>
  What the group host guarantees: its invariant, who becomes a member and who stops being one,
  what an append does, and the group's files.
\<close>

section \<open>Guarded operations\<close>

text \<open>
  The operations of a member share a contract: when the credential is not authorised, the
  operation returns that error and changes nothing.
\<close>

locale guarded =
  fixes allowed :: "'s \<Rightarrow> 'c \<Rightarrow> ServerError + unit"
    and op :: "'c \<Rightarrow> 's \<Rightarrow> (ServerError + 'a) \<times> 's"
  assumes refused: "allowed s c = Err e \<Longrightarrow> op c s = (Err e, s)"
begin

lemma ok_allowed: "op c s = (Ok x, s') \<Longrightarrow> allowed s c = Ok ()"
  using refused [of s c] by (cases "allowed s c") auto

lemma change_allowed: "snd (op c s) \<noteq> s \<Longrightarrow> allowed s c = Ok ()"
  using refused [of s c] by (cases "allowed s c") auto

end

interpretation invite_op: guarded "\<lambda>h cred. authorize_live C h gid cred" "\<lambda>cred. store_invite C gid cred invite" for C gid invite
  by unfold_locales (simp add: store_invite_def)

interpretation admit_op: guarded "\<lambda>h cred. authorize_live C h gid cred" "\<lambda>cred. admit C gid cred adm jpk ft" for C gid adm jpk ft
  by unfold_locales (simp add: admit_def)

interpretation refresh_op: guarded "\<lambda>h cred. authorize_live C h gid cred" "\<lambda>cred. refresh_fanout C gid cred ft" for C gid ft
  by unfold_locales (simp add: refresh_fanout_def)

interpretation append_op: guarded "\<lambda>h cred. authorize_live C h gid cred" "\<lambda>cred. gh_append C rnd gid cred ty body" for C rnd gid ty body
  by unfold_locales (simp add: gh_append_def)

interpretation upload_op: guarded "\<lambda>h cred. authorize_live C h gid cred" "\<lambda>cred. upload_file C gid cred tok body" for C gid tok body
  by unfold_locales (simp add: upload_file_def)

lemma authorize_live_iff:
  "authorize_live C h gid cred = Ok () \<longleftrightarrow>
     (\<exists>g rec. hm_get (gh_groups h) gid = Some g \<and> hm_get (gs_creds g) (mc_id cred) = Some rec \<and> cr_live rec \<and>
       cr_secret rec = hash_secret C (mc_secret cred))"
  by (auto simp: authorize_live_def split: option.splits)

lemma authorize_live_Err: "authorize_live C h gid cred = Err e \<longleftrightarrow> e = Denied \<and> authorize_live C h gid cred \<noteq> Ok ()"
  by (auto simp: authorize_live_def split: option.splits if_splits)

lemma authorize_live_cases:
  obtains "authorize_live C h gid cred = Ok ()" | "authorize_live C h gid cred = Err Denied"
  by (auto simp: authorize_live_Err)

section \<open>Steps and the invariant\<close>

text \<open>
  One step is one operation, or the clock moving on. A new group's random id and a new
  credential's random id are ones that are not in use; a body is a slice in memory, shorter than
  \<open>2 ^ 64\<close> bytes.
\<close>

inductive group_step :: "crypto \<Rightarrow> GroupHost \<Rightarrow> GroupHost \<Rightarrow> bool" for C where
  clock: "gh_now h \<le> t \<Longrightarrow> group_step C h (h\<lparr>gh_now := t\<rparr>)"
| create: "hm_get (gh_groups h) (fst rnd) = None \<Longrightarrow> group_step C h (snd (create_group_for C rnd spk ft creator h))"
| invite: "group_step C h (snd (store_invite C gid cred gi h))"
| accept: "(\<And>g. hm_get (gh_groups h) gid = Some g \<Longrightarrow> hm_get (gs_creds g) (fst (snd rnd)) = None) \<Longrightarrow>
    group_step C h (snd (gh_accept C rnd gid nonce h))"
| admit: "group_step C h (snd (admit C gid cred adm jpk ft h))"
| revocation: "length (rs_encode stmt) < 2 ^ 64 \<Longrightarrow> group_step C h (snd (append_host_revocation C rnd' gid stmt h))"
| refresh: "group_step C h (snd (refresh_fanout C gid cred ft h))"
| append: "length body < 2 ^ 64 \<Longrightarrow> group_step C h (snd (gh_append C rnd' gid cred ty body h))"
| upload: "group_step C h (snd (upload_file C gid cred tok body h))"

inductive group_run :: "crypto \<Rightarrow> nat \<Rightarrow> GroupHost \<Rightarrow> GroupHost \<Rightarrow> bool" for C where
  start: "group_run C 0 h h"
| step: "group_run C n h h' \<Longrightarrow> group_step C h' h'' \<Longrightarrow> group_run C (Suc n) h h''"

definition body_bytes :: "StreamRow list \<Rightarrow> nat" where
  "body_bytes rows = sum_list (map (\<lambda>r. length (sw_body r)) rows)"

definition cred_ok :: "CredRecord \<Rightarrow> bool" where
  "cred_ok rec \<longleftrightarrow> (cr_live rec \<longrightarrow> cr_signing_pk rec \<noteq> None) \<and> (cr_fanout rec \<noteq> None \<longrightarrow> cr_live rec)"

text \<open>
  A group: rows numbered 1, 2, ... without gaps, the byte count exact and within the cap, every
  pending join backed by a credential, live credentials with a signing key.
\<close>

definition gs_inv :: "nat \<Rightarrow> GroupState \<Rightarrow> bool" where
  "gs_inv n g \<longleftrightarrow> hm_wf (gs_creds g) \<and> hm_wf (gs_invites g) \<and> hm_wf (gs_pending g) \<and>
     length (gs_stream g) \<le> n \<and> unat (gs_next_seq g) = length (gs_stream g) + 1 \<and>
     map (\<lambda>r. unat (sw_seq r)) (gs_stream g) = [1 ..< length (gs_stream g) + 1] \<and>
     unat (gs_bytes g) = body_bytes (gs_stream g) \<and> gs_bytes g \<le> STREAM_MAX_BYTES \<and>
     (\<forall>pid p. hm_get (gs_pending g) pid = Some p \<longrightarrow> hm_get (gs_creds g) (mc_id (pr_cred p)) \<noteq> None) \<and>
     (\<forall>cid rec. hm_get (gs_creds g) cid = Some rec \<longrightarrow> cred_ok rec)"

text \<open>The unexpired bytes reserved in a group, as a number.\<close>

definition live_bytes :: "GroupHost \<Rightarrow> key \<Rightarrow> nat" where
  "live_bytes h gid = sum_list (map (\<lambda>(tok, s). fs_size s) (filter (\<lambda>(tok, s). fs_group_id s = gid \<and> gh_now h < fs_expires_at s) (gh_files h)))"

definition slot_ok :: "FileSlot \<Rightarrow> bool" where
  "slot_ok s \<longleftrightarrow> (\<exists>b. fs_size s = size_inner_len b) \<and> (\<forall>bs. fs_bytes s = Some bs \<longrightarrow> length bs = fs_size s)"

definition group_inv :: "nat \<Rightarrow> GroupHost \<Rightarrow> bool" where
  "group_inv n h \<longleftrightarrow> hm_wf (gh_groups h) \<and> hm_wf (gh_files h) \<and> gh_file_budget h = FILE_BUDGET_BYTES \<and>
     (\<forall>gid g. hm_get (gh_groups h) gid = Some g \<longrightarrow> gs_inv n g) \<and>
     (\<forall>tok s. hm_get (gh_files h) tok = Some s \<longrightarrow> slot_ok s) \<and>
     (\<forall>gid. live_bytes h gid \<le> unat FILE_BUDGET_BYTES) \<and>
     (\<forall>owner. created_by owner h \<le> GROUPS_PER_OWNER)"

section \<open>Lemmas\<close>

subsection \<open>Frame\<close>

lemma dirty_frame [simp]:
  "gh_groups (dirty_cred a b h) = gh_groups h" "gh_groups (dirty_invites a h) = gh_groups h"
  "gh_groups (dirty_pending a h) = gh_groups h" "gh_groups (dirty_file a h) = gh_groups h"
  "gh_files (dirty_cred a b h) = gh_files h" "gh_files (dirty_invites a h) = gh_files h"
  "gh_files (dirty_pending a h) = gh_files h" "gh_files (dirty_file a h) = gh_files h"
  "gh_now (dirty_cred a b h) = gh_now h" "gh_now (dirty_invites a h) = gh_now h"
  "gh_now (dirty_pending a h) = gh_now h" "gh_now (dirty_file a h) = gh_now h"
  "gh_file_budget (dirty_cred a b h) = gh_file_budget h" "gh_file_budget (dirty_file a h) = gh_file_budget h"
  by (simp_all add: dirty_cred_def dirty_invites_def dirty_pending_def dirty_file_def)

lemma put_group_frame [simp]:
  "gh_groups (put_group gid g h) = hm_insert gid g (gh_groups h)" "gh_files (put_group gid g h) = gh_files h"
  "gh_now (put_group gid g h) = gh_now h" "gh_file_budget (put_group gid g h) = gh_file_budget h"
  by (simp_all add: put_group_def)

lemma inv_dirty [simp]:
  "group_inv n (h\<lparr>gh_dirty := d\<rparr>) = group_inv n h" "group_inv n (dirty_cred a b h) = group_inv n h"
  "group_inv n (dirty_invites a h) = group_inv n h" "group_inv n (dirty_pending a h) = group_inv n h"
  "group_inv n (dirty_file a h) = group_inv n h"
  by (simp_all add: group_inv_def live_bytes_def created_by_def dirty_cred_def dirty_invites_def dirty_pending_def dirty_file_def)

lemma gs_inv_mono: "gs_inv n g \<Longrightarrow> n \<le> n' \<Longrightarrow> gs_inv n' g"
  by (simp add: gs_inv_def)

lemma group_inv_mono: "group_inv n h \<Longrightarrow> n \<le> n' \<Longrightarrow> group_inv n' h"
  unfolding group_inv_def using gs_inv_mono by blast

lemma group_invD: "group_inv n h \<Longrightarrow> hm_get (gh_groups h) gid = Some g \<Longrightarrow> gs_inv n g"
  by (simp add: group_inv_def)

lemma count_update:
  assumes "map_of gs k = Some g0" "gs_creator g = gs_creator g0"
  shows "length (filter (\<lambda>(gid, g). gs_creator g = x) (AList.update k g gs)) = length (filter (\<lambda>(gid, g). gs_creator g = x) gs)"
  using assms by (induction gs) (auto split: if_splits)

lemma count_fresh:
  assumes "map_of gs k = None"
  shows "length (filter (\<lambda>(gid, g). gs_creator g = x) (AList.update k g gs)) =
    length (filter (\<lambda>(gid, g). gs_creator g = x) gs) + (if gs_creator g = x then 1 else 0)"
  using assms by (induction gs) (auto split: if_splits)

lemma inv_put_group:
  assumes "group_inv n h" "hm_get (gh_groups h) gid = Some g0" "gs_inv n g" "gs_creator g = gs_creator g0"
  shows "group_inv n (put_group gid g h)"
  using assms count_update [of "gh_groups h" gid g0 g]
  by (auto simp: group_inv_def hm.wf_ins hm_get_insert_any live_bytes_def created_by_def)
    (simp_all add: hm_get_def hm_insert_def)

subsection \<open>Operations on one group\<close>

lemma gs_inv_invites: "gs_inv n g \<Longrightarrow> hm_wf i \<Longrightarrow> gs_inv n (g\<lparr>gs_invites := i\<rparr>)"
  by (simp add: gs_inv_def)

lemma gs_inv_pending:
  "gs_inv n g \<Longrightarrow> hm_wf ps \<Longrightarrow> (\<And>pid p. hm_get ps pid = Some p \<Longrightarrow> hm_get (gs_creds g) (mc_id (pr_cred p)) \<noteq> None) \<Longrightarrow>
   gs_inv n (g\<lparr>gs_pending := ps\<rparr>)"
  by (simp add: gs_inv_def)

lemma upd_cred_same [simp]:
  "gs_creator (upd_cred cid f g) = gs_creator g" "gs_stream (upd_cred cid f g) = gs_stream g"
  "gs_bytes (upd_cred cid f g) = gs_bytes g" "gs_next_seq (upd_cred cid f g) = gs_next_seq g"
  "gs_pending (upd_cred cid f g) = gs_pending g" "gs_invites (upd_cred cid f g) = gs_invites g"
  by (simp_all add: upd_cred_def split: option.split)

lemma hm_get_upd_cred:
  "hm_get (gs_creds (upd_cred cid f g)) k = (if k = cid then map_option f (hm_get (gs_creds g) k) else hm_get (gs_creds g) k)"
  by (simp add: upd_cred_def hm_get_insert_any split: option.split)

lemma gs_inv_upd_cred:
  assumes "gs_inv n g" "\<And>rec. hm_get (gs_creds g) cid = Some rec \<Longrightarrow> cred_ok rec \<Longrightarrow> cred_ok (f rec)"
  shows "gs_inv n (upd_cred cid f g)"
proof -
  have "hm_wf (gs_creds (upd_cred cid f g))" using assms(1) by (auto simp: upd_cred_def gs_inv_def hm.wf_ins split: option.split)
  with assms show ?thesis by (auto simp: gs_inv_def hm_get_upd_cred split: if_splits)
qed

lemma inv_gc_pending:
  assumes "group_inv n h"
  shows "group_inv n (gc_pending gid h)"
proof (cases "hm_get (gh_groups h) gid")
  case (Some g)
  note g = group_invD [OF assms Some]
  have wf: "hm_wf (gs_pending g)" "hm_wf (gs_invites g)" using g by (simp_all add: gs_inv_def)
  have "hm_get (gs_creds g) (mc_id (pr_cred p)) \<noteq> None" if "hm_get (hm_retain P (gs_pending g)) pid = Some p" for P pid p
    using hm_get_retain_in [OF wf(1) that] g unfolding gs_inv_def by blast
  then have "gs_inv n (g\<lparr>gs_pending := hm_retain P (gs_pending g)\<rparr>)" for P
    by (rule gs_inv_pending [OF g hm_wf_retain [OF wf(1)]])
  then have "gs_inv n (g\<lparr>gs_pending := hm_retain P (gs_pending g), gs_invites := hm_retain Q (gs_invites g)\<rparr>)" for P Q
    using gs_inv_invites [OF _ hm_wf_retain [OF wf(2)]] by blast
  then show ?thesis using inv_put_group [OF assms Some] by (simp add: gc_pending_def Some)
qed (simp add: gc_pending_def assms)

lemma gc_pending_frame [simp]:
  "gh_now (gc_pending gid h) = gh_now h" "gh_files (gc_pending gid h) = gh_files h"
  "gh_file_budget (gc_pending gid h) = gh_file_budget h"
  by (simp_all add: gc_pending_def split: option.split)

lemma gs_inv_append:
  assumes g: "gs_inv n g" and n: "n + 2 < 2 ^ 64" and len: "length body < 2 ^ 64"
    and room: "\<not> saturating_add (gs_bytes g) (of_nat (length body)) > STREAM_MAX_BYTES"
  shows "gs_inv (Suc n) (g\<lparr>gs_next_seq := gs_next_seq g + 1, gs_bytes := saturating_add (gs_bytes g) (of_nat (length body)),
     gs_stream := gs_stream g @ [\<lparr>sw_seq = gs_next_seq g, sw_type = ty, sw_body = body, sw_received_at = now\<rparr>]\<rparr>)"
proof -
  have "unat (gs_next_seq g) < 2 ^ 64 - 1" using g n by (simp add: gs_inv_def)
  then have "gs_next_seq g \<noteq> - 1" using unat_max64 by (metis less_irrefl)
  then have next_seq: "unat (gs_next_seq g + 1) = unat (gs_next_seq g) + 1" by (rule unat_succ)
  have "unat (saturating_add (gs_bytes g) (of_nat (length body))) \<le> unat STREAM_MAX_BYTES"
    using room by (simp add: not_less word_le_nat_alt)
  then have "unat (saturating_add (gs_bytes g) (of_nat (length body))) = unat (gs_bytes g) + length body"
    using len by (simp add: sat_simps STREAM_MAX_BYTES_def)
  then show ?thesis using g next_seq room by (simp add: gs_inv_def body_bytes_def not_less)
qed

text \<open>The group and the host once a frame is on the stream.\<close>

definition fan_group :: "MessageType \<Rightarrow> bytes \<Rightarrow> u64 \<Rightarrow> GroupState \<Rightarrow> GroupState" where
  "fan_group ty body now g = g\<lparr>gs_next_seq := gs_next_seq g + 1, gs_bytes := saturating_add (gs_bytes g) (of_nat (length body)),
     gs_stream := gs_stream g @ [\<lparr>sw_seq = gs_next_seq g, sw_type = ty, sw_body = body, sw_received_at = now\<rparr>]\<rparr>"

definition fan_host :: "key \<Rightarrow> MessageType \<Rightarrow> bytes \<Rightarrow> GroupState \<Rightarrow> GroupHost \<Rightarrow> GroupHost" where
  "fan_host gid ty body g h = (let h1 = put_group gid (fan_group ty body (gh_now h) g) h in
     h1\<lparr>gh_dirty := (gh_dirty h1)\<lparr>gd_groups := insert gid (gd_groups (gh_dirty h1)),
                   gd_stream_new := gd_stream_new (gh_dirty h1) @ [(gid, gs_next_seq g)]\<rparr>\<rparr>)"

definition stream_full :: "GroupState \<Rightarrow> bytes \<Rightarrow> bool" where
  "stream_full g body \<longleftrightarrow> saturating_add (gs_bytes g) (of_nat (length body)) > STREAM_MAX_BYTES"

lemma fan_group_same [simp]:
  "gs_creds (fan_group ty body now g) = gs_creds g" "gs_creator (fan_group ty body now g) = gs_creator g"
  "gs_pending (fan_group ty body now g) = gs_pending g" "gs_invites (fan_group ty body now g) = gs_invites g"
  by (simp_all add: fan_group_def)

lemma fan_host_frame [simp]:
  "gh_groups (fan_host gid ty body g h) = hm_insert gid (fan_group ty body (gh_now h) g) (gh_groups h)"
  "gh_files (fan_host gid ty body g h) = gh_files h" "gh_now (fan_host gid ty body g h) = gh_now h"
  "gh_file_budget (fan_host gid ty body g h) = gh_file_budget h"
  by (simp_all add: fan_host_def Let_def)

lemma fanout_copy_eq:
  "fanout_copy C rnd gid ty body h =
     (case hm_get (gh_groups h) gid of
        None \<Rightarrow> (Err Denied, h)
      | Some g \<Rightarrow>
          if stream_full g body then (Err Denied, h)
          else (map_err Wire (rbind (seal_copies C rnd 0 ty body (fanout_targets g)) (\<lambda>outers. Ok \<lparr>sa_seq = gs_next_seq g, sa_outers = outers\<rparr>)),
                fan_host gid ty body g h))"
  by (auto simp: fanout_copy_def fan_host_def fan_group_def stream_full_def fanout_targets_def Let_def sread_def map_err_def
      split: option.split sum.split)

lemma inv_fan_host:
  assumes h: "group_inv n h" and g: "hm_get (gh_groups h) gid = Some g" and n: "n + 2 < 2 ^ 64" and len: "length body < 2 ^ 64"
    and room: "\<not> stream_full g body"
  shows "group_inv (Suc n) (fan_host gid ty body g h)"
proof -
  have "gs_inv (Suc n) (fan_group ty body (gh_now h) g)"
    using gs_inv_append [OF group_invD [OF h g] n len] room unfolding fan_group_def stream_full_def by blast
  then have "group_inv (Suc n) (put_group gid (fan_group ty body (gh_now h) g) h)"
    using inv_put_group [OF group_inv_mono [OF h le_SucI [OF order_refl]] g] by simp
  then show ?thesis by (simp add: fan_host_def Let_def)
qed

lemma inv_fanout_copy:
  assumes h: "group_inv n h" and n: "n + 2 < 2 ^ 64" and len: "length body < 2 ^ 64"
  shows "group_inv (Suc n) (snd (fanout_copy C rnd gid ty body h))"
  using inv_fan_host [OF h _ n len] group_inv_mono [OF h le_SucI [OF order_refl]]
  by (simp add: fanout_copy_eq split: option.split)

subsection \<open>Every operation keeps the invariant\<close>

lemmas ginv_sread = snd_sread [where P = "group_inv n" for n]
lemmas ginv_sbind = snd_sbind [where P = "group_inv n" for n]

lemma ginv_if: "(b \<Longrightarrow> group_inv n (snd x)) \<Longrightarrow> (\<not> b \<Longrightarrow> group_inv n (snd y)) \<Longrightarrow> group_inv n (snd (if b then x else y))"
  by simp

lemma inv_store_invite: "group_inv n h \<Longrightarrow> group_inv n (snd (store_invite C gid cred invite h))"
  unfolding store_invite_def
  by (intro ginv_sread ginv_if) (auto intro!: inv_put_group gs_inv_invites dest: group_invD simp: gs_inv_def hm.wf_ins)

lemma inv_accept:
  assumes h: "group_inv n h"
  shows "group_inv n (snd (gh_accept C rnd gid nonce h))"
proof -
  have wf_remove: "hm_wf (hm_remove nonce (gs_invites g))" if "hm_get (gh_groups h) gid = Some g" for g
    using group_invD [OF h that] by (auto simp: gs_inv_def hm_wf_def hm_remove_def distinct_map_filter)
  obtain secret cid pid where rnd: "rnd = (secret, cid, pid)" by (cases rnd)
  show ?thesis unfolding gh_accept_def rnd Let_def prod.case
  proof (intro ginv_sread ginv_if)
    fix g stored assume "ok_or (hm_get (gh_groups h) gid) Denied = Ok g"
    then have g: "hm_get (gh_groups h) gid = Some g" by simp
    note gi = gs_inv_invites [OF group_invD [OF h g] wf_remove [OF g]]
    show "group_inv n (snd (Err Denied, put_group gid (g\<lparr>gs_invites := hm_remove nonce (gs_invites g)\<rparr>) h))"
      using inv_put_group [OF h g gi] by simp
    show "group_inv n (snd (Ok \<lparr>pj_pending_id = pid, pj_cred = \<lparr>mc_id = cid, mc_secret = secret\<rparr>,
             pj_binding = si_binding stored, pj_salt = si_salt stored\<rparr>,
         dirty_cred gid cid (dirty_pending gid (dirty_invites gid (put_group gid (g\<lparr>gs_invites := hm_remove nonce (gs_invites g),
           gs_creds := hm_insert cid \<lparr>cr_secret = hash_secret C secret, cr_live = False, cr_signing_pk = None, cr_fanout = None\<rparr>
             (gs_creds (g\<lparr>gs_invites := hm_remove nonce (gs_invites g)\<rparr>)),
           gs_pending := hm_insert pid \<lparr>pr_cred = \<lparr>mc_id = cid, mc_secret = hash_secret C secret\<rparr>, pr_expires_at = si_expires_at stored,
                   pr_binding = si_binding stored, pr_salt = si_salt stored\<rparr>
             (gs_pending (g\<lparr>gs_invites := hm_remove nonce (gs_invites g)\<rparr>))\<rparr>) h)))))"
      using gi by (auto simp: gs_inv_def hm.wf_ins hm_get_insert_any cred_ok_def split: if_splits intro!: inv_put_group [OF h g])
  qed (rule h)+
qed

lemma inv_upd_cred:
  assumes h: "group_inv n h" and g: "hm_get (gh_groups h) gid = Some g"
    and ok: "\<And>rec. hm_get (gs_creds g) cid = Some rec \<Longrightarrow> cred_ok rec \<Longrightarrow> cred_ok (f rec)"
  shows "group_inv n (put_group gid (upd_cred cid f g) h)"
  by (rule inv_put_group [OF h g gs_inv_upd_cred [OF group_invD [OF h g] ok]]) simp_all

lemma gs_inv_unpend: "gs_inv n g \<Longrightarrow> gs_inv n (g\<lparr>gs_pending := hm_remove pid (gs_pending g)\<rparr>)"
  by (rule gs_inv_pending) (auto simp: gs_inv_def hm.wf_rem hm.get_rem split: if_splits)

lemma inv_admit:
  assumes h: "group_inv n h"
  shows "group_inv n (snd (admit C gid cred adm jpk fanout h))"
proof -
  define h1 where "h1 = dirty_pending gid (dirty_invites gid (gc_pending gid h))"
  have h1: "group_inv n h1" by (simp add: h1_def inv_gc_pending [OF h])
  have unpend: "group_inv n (put_group gid (g\<lparr>gs_pending := hm_remove pid (gs_pending g)\<rparr>) h1)"
    if "hm_get (gh_groups h1) gid = Some g" for g pid
    by (rule inv_put_group [OF h1 that gs_inv_unpend [OF group_invD [OF h1 that]]]) simp
  have live: "group_inv n (put_group gid (upd_cred cid (\<lambda>r. r\<lparr>cr_live := True, cr_signing_pk := Some jpk, cr_fanout := Some fanout\<rparr>)
      (g\<lparr>gs_pending := hm_remove pid (gs_pending g)\<rparr>)) h1)"
    if "hm_get (gh_groups h1) gid = Some g" for g pid cid
    by (rule inv_put_group [OF h1 that gs_inv_upd_cred [OF gs_inv_unpend [OF group_invD [OF h1 that]]]])
      (simp_all add: cred_ok_def)
  show ?thesis unfolding admit_def Let_def h1_def [symmetric]
    by (intro ginv_sread ginv_if h) (use h h1 unpend live in \<open>auto split: option.split\<close>)
qed

lemma inv_refresh_fanout:
  assumes h: "group_inv n h"
  shows "group_inv n (snd (refresh_fanout C gid cred fanout h))"
proof (cases "authorize_live C h gid cred")
  case (Inr u)
  then obtain g rec where g: "hm_get (gh_groups h) gid = Some g" and rec: "hm_get (gs_creds g) (mc_id cred) = Some rec" "cr_live rec"
    using authorize_live_iff [of C h gid cred] by auto
  have "group_inv n (put_group gid (upd_cred (mc_id cred) (\<lambda>r. r\<lparr>cr_fanout := Some fanout\<rparr>) g) h)"
    by (rule inv_upd_cred [OF h g]) (use rec in \<open>auto simp: cred_ok_def\<close>)
  then show ?thesis by (simp add: refresh_fanout_def Inr g)
qed (simp add: refresh_fanout_def h)

lemma inv_upd_group_cred:
  assumes "group_inv n h" "\<And>rec. cred_ok rec \<Longrightarrow> cred_ok (f rec)"
  shows "group_inv n (upd_group_cred gid cid f h)"
  using assms inv_upd_cred [OF assms(1)] by (simp add: upd_group_cred_def split: option.split)

lemma inv_append_remove:
  assumes h: "group_inv n h" and n: "n + 2 < 2 ^ 64" and len: "length body < 2 ^ 64"
  shows "group_inv (Suc n) (snd (append_remove C rnd gid cred body h))"
  unfolding append_remove_def Let_def
  by (intro ginv_sread ginv_sbind ginv_if) (auto intro!: inv_upd_group_cred simp: cred_ok_def inv_fanout_copy [OF h n len] group_inv_mono [OF h])

lemma inv_signing_replace: "group_inv n h \<Longrightarrow> group_inv n (snd (apply_signing_replace C gid cred body h))"
  unfolding apply_signing_replace_def
  by (intro ginv_sread ginv_if) (auto intro!: inv_upd_group_cred simp: cred_ok_def)

subsection \<open>The file budget\<close>

lemma of_nat_filtered:
  "sum_list (map (\<lambda>(tok, s). of_nat (fs_size s)) (filter P fs)) = (of_nat (sum_list (map (\<lambda>(tok, s). fs_size s) (filter P fs))) :: u64)"
  by (induction fs) auto

lemma live_file_bytes_nat:
  assumes "group_inv n h"
  shows "unat (live_file_bytes h gid) = live_bytes h gid"
proof -
  have "live_file_bytes h gid = of_nat (live_bytes h gid)"
    unfolding live_file_bytes_def live_bytes_def by (rule of_nat_filtered)
  moreover have "live_bytes h gid < 2 ^ 64"
    using assms unat_u64 [of FILE_BUDGET_BYTES] unfolding group_inv_def by (meson order_le_less_trans)
  ultimately show ?thesis by simp
qed

lemma inv_reserve_slot:
  assumes h: "group_inv n h" and fresh: "hm_get (gh_files h) tok = None"
    and room: "live_bytes h (fs_group_id s) + fs_size s \<le> unat FILE_BUDGET_BYTES" and s: "slot_ok s"
  shows "group_inv n (h\<lparr>gh_files := hm_insert tok s (gh_files h)\<rparr>)"
proof -
  have "live_bytes (h\<lparr>gh_files := hm_insert tok s (gh_files h)\<rparr>) gid \<le> unat FILE_BUDGET_BYTES" for gid
    using h room by (auto simp: live_bytes_def group_inv_def hm_insert_fresh [OF fresh [unfolded hm_get_def map_of_eq_None_iff]])
  then show ?thesis using h s by (auto simp: group_inv_def hm.wf_ins hm_get_insert_any created_by_def split: if_splits)
qed

lemma sum_update:
  assumes "map_of fs tok = Some s0" "P s = P s0" "(v s :: nat) = v s0"
  shows "sum_list (map (\<lambda>(tok, s). v s) (filter (\<lambda>(tok, s). P s) (AList.update tok s fs))) =
    sum_list (map (\<lambda>(tok, s). v s) (filter (\<lambda>(tok, s). P s) fs))"
  using assms by (induction fs) (auto split: if_split_asm)

lemma inv_upload:
  assumes h: "group_inv n h"
  shows "group_inv n (snd (upload_file C gid cred tok body h))"
proof -
  have "group_inv n (h\<lparr>gh_files := hm_insert tok (slot\<lparr>fs_bytes := Some body\<rparr>) (gh_files h)\<rparr>)"
    if slot: "hm_get (gh_files h) tok = Some slot" and len: "length body = fs_size slot" for slot
  proof -
    have "live_bytes (h\<lparr>gh_files := hm_insert tok (slot\<lparr>fs_bytes := Some body\<rparr>) (gh_files h)\<rparr>) g = live_bytes h g" for g
      using sum_update [of "gh_files h" tok slot "\<lambda>s. fs_group_id s = g \<and> gh_now h < fs_expires_at s" "slot\<lparr>fs_bytes := Some body\<rparr>" fs_size] slot
      by (simp add: live_bytes_def hm_insert_def hm_get_def)
    moreover have "slot_ok (slot\<lparr>fs_bytes := Some body\<rparr>)" using h slot len by (auto simp: group_inv_def slot_ok_def)
    ultimately show ?thesis using h by (auto simp: group_inv_def hm.wf_ins hm_get_insert_any created_by_def split: if_splits)
  qed
  then show ?thesis unfolding upload_file_def by (intro ginv_sread ginv_if) (auto simp: h)
qed

lemma fanout_copy_files:
  "gh_files (snd (fanout_copy C rnd gid ty body h)) = gh_files h" "gh_now (snd (fanout_copy C rnd gid ty body h)) = gh_now h"
  by (simp_all add: fanout_copy_eq split: option.split)

lemma live_bytes_cong: "gh_files h = gh_files h' \<Longrightarrow> gh_now h = gh_now h' \<Longrightarrow> live_bytes h gid = live_bytes h' gid"
  by (simp add: live_bytes_def)

lemma size_inner_small: "size_inner_len b < 2 ^ 64"
  by (cases b) (simp_all add: size_defs)

lemma inv_append_reserve:
  assumes h: "group_inv n h" and n: "n + 2 < 2 ^ 64" and len: "length body < 2 ^ 64"
  shows "group_inv (Suc n) (snd (append_reserve C rnd gid cred body h))"
proof -
  define h1 where "h1 = snd (fanout_copy C rnd gid AttachmentReserveType body h)"
  have h1: "group_inv (Suc n) h1" unfolding h1_def by (rule inv_fanout_copy [OF h n len])
  have slot: "group_inv (Suc n) (h1\<lparr>gh_files := hm_insert tok
        \<lparr>fs_group_id = gid, fs_owner = owner, fs_size = size_inner_len b, fs_expires_at = e, fs_bytes = None\<rparr> (gh_files h1)\<rparr>)"
    if fresh: "hm_get (gh_files h) tok = None"
      and room: "\<not> saturating_add (live_file_bytes h gid) (of_nat (size_inner_len b)) > gh_file_budget h" for tok owner b e
  proof (rule inv_reserve_slot [OF h1])
    show "hm_get (gh_files h1) tok = None" using fresh by (simp add: h1_def fanout_copy_files)
    have "live_bytes h1 gid = live_bytes h gid" by (rule live_bytes_cong) (simp_all add: h1_def fanout_copy_files)
    moreover have "gh_file_budget h = FILE_BUDGET_BYTES" using h by (simp add: group_inv_def)
    then have "min (live_bytes h gid + size_inner_len b) (2 ^ 64 - 1) \<le> unat FILE_BUDGET_BYTES"
      using room size_inner_small [of b]
      by (simp add: not_less word_le_nat_alt unat_saturating_add live_file_bytes_nat [OF h])
    ultimately show "live_bytes h1 (fs_group_id \<lparr>fs_group_id = gid, fs_owner = owner, fs_size = size_inner_len b, fs_expires_at = e, fs_bytes = None\<rparr>) +
        fs_size \<lparr>fs_group_id = gid, fs_owner = owner, fs_size = size_inner_len b, fs_expires_at = e, fs_bytes = None\<rparr> \<le> unat FILE_BUDGET_BYTES"
      by (simp add: FILE_BUDGET_BYTES_def)
  qed (auto simp: slot_ok_def)
  show ?thesis unfolding append_reserve_def Let_def
    by (intro ginv_sread ginv_sbind ginv_if) (use h1 slot group_inv_mono [OF h] in \<open>auto simp: h1_def [symmetric]\<close>)
qed

lemma inv_append:
  assumes h: "group_inv n h" and n: "n + 2 < 2 ^ 64" and len: "length body < 2 ^ 64"
  shows "group_inv (Suc n) (snd (gh_append C rnd gid cred ty body h))"
proof -
  note h' = group_inv_mono [OF h le_SucI [OF order_refl]]
  have "group_inv (Suc n) (snd (sbind (apply_signing_replace C gid cred body h) (\<lambda>_ h. fanout_copy C rnd gid ty' body h)))" for ty'
    by (rule ginv_sbind) (use inv_signing_replace [OF h] inv_signing_replace [OF h'] in \<open>auto intro: inv_fanout_copy [OF _ n len]\<close>)
  then show ?thesis unfolding gh_append_def
    by (intro ginv_sread h')
      (simp_all add: h' inv_append_remove [OF h n len] inv_append_reserve [OF h n len] inv_fanout_copy [OF h n len] split: MessageType.split)
qed

lemma inv_create:
  assumes h: "group_inv n h" and fresh: "hm_get (gh_groups h) (fst rnd) = None"
  shows "group_inv n (snd (create_group_for C rnd spk fanout creator h))"
proof -
  obtain gid secret cid where rnd: "rnd = (gid, secret, cid)" by (cases rnd)
  define g where "g = \<lparr>gs_next_seq = 1, gs_creds = [(cid, \<lparr>cr_secret = hash_secret C secret, cr_live = True, cr_signing_pk = Some spk, cr_fanout = Some fanout\<rparr>)],
    gs_invites = [], gs_pending = [], gs_bytes = 0, gs_stream = [], gs_creator = creator\<rparr>"
  have "gs_inv n g" by (simp add: g_def gs_inv_def hm_wf_def body_bytes_def hm_get_def cred_ok_def STREAM_MAX_BYTES_def)
  moreover have "created_by owner (put_group gid g h) = created_by owner h + (if creator = Some owner then 1 else 0)" for owner
    using count_fresh [of "gh_groups h" gid "Some owner" g] fresh
    by (simp add: rnd created_by_def hm_get_def hm_insert_def) (simp add: g_def)
  ultimately have "group_inv n (put_group gid g h)" if "\<And>owner. creator = Some owner \<Longrightarrow> created_by owner h < GROUPS_PER_OWNER"
    using h that by (auto simp: group_inv_def hm.wf_ins hm_get_insert_any live_bytes_def Suc_le_eq)
  then show ?thesis by (auto simp: create_group_for_def rnd Let_def h g_def [symmetric] not_le split: option.split)
qed

lemma inv_clock:
  assumes h: "group_inv n h" and t: "gh_now h \<le> t"
  shows "group_inv n (h\<lparr>gh_now := t\<rparr>)"
proof -
  have "sum_list (map (\<lambda>(tok, s). fs_size s) (filter (\<lambda>(tok, s). fs_group_id s = gid \<and> t < fs_expires_at s) fs)) \<le>
      sum_list (map (\<lambda>(tok, s). fs_size s) (filter (\<lambda>(tok, s). fs_group_id s = gid \<and> gh_now h < fs_expires_at s) fs))" for gid fs
    using t by (induction fs) auto
  then have "live_bytes (h\<lparr>gh_now := t\<rparr>) gid \<le> live_bytes h gid" for gid by (simp add: live_bytes_def)
  then show ?thesis using h unfolding group_inv_def created_by_def by simp (meson order_trans)
qed

lemma inv_step:
  assumes "group_step C h h'" "group_inv n h" "n + 2 < 2 ^ 64"
  shows "group_inv (Suc n) h'"
  using assms
proof cases
  case (revocation stmt rnd gid)
  note h' = group_inv_mono [OF assms(2) le_SucI [OF order_refl]]
  show ?thesis using revocation h' inv_fanout_copy [OF assms(2,3)] by (simp add: append_host_revocation_def)
qed (auto intro: group_inv_mono [OF _ le_SucI [OF order_refl]] inv_clock inv_create inv_store_invite inv_accept inv_admit
      inv_refresh_fanout inv_append inv_upload)

lemma inv_start: "group_inv 0 gh_new"
  by (simp add: group_inv_def gh_new_def hm_wf_def hm_get_def live_bytes_def created_by_def)

subsection \<open>Live credentials\<close>

definition is_live :: "GroupHost \<Rightarrow> key \<Rightarrow> key \<Rightarrow> bool" where
  "is_live h gid cid \<longleftrightarrow> (\<exists>g rec. hm_get (gh_groups h) gid = Some g \<and> hm_get (gs_creds g) cid = Some rec \<and> cr_live rec)"

definition gs_live :: "GroupState \<Rightarrow> key \<Rightarrow> bool" where
  "gs_live g cid \<longleftrightarrow> (\<exists>rec. hm_get (gs_creds g) cid = Some rec \<and> cr_live rec)"

lemma is_live_put [simp]:
  "is_live (put_group gid' g h) gid cid \<longleftrightarrow> (if gid = gid' then gs_live g cid else is_live h gid cid)"
  by (simp add: is_live_def gs_live_def hm_get_insert_any)

lemma is_live_dirty [simp]:
  "is_live (dirty_cred a b h) gid cid = is_live h gid cid" "is_live (dirty_invites a h) gid cid = is_live h gid cid"
  "is_live (dirty_pending a h) gid cid = is_live h gid cid" "is_live (dirty_file a h) gid cid = is_live h gid cid"
  "is_live (h\<lparr>gh_dirty := d\<rparr>) gid cid = is_live h gid cid" "is_live (h\<lparr>gh_files := f\<rparr>) gid cid = is_live h gid cid"
  "is_live (h\<lparr>gh_now := t\<rparr>) gid cid = is_live h gid cid"
  by (simp_all add: is_live_def)

lemma is_live_group: "hm_get (gh_groups h) gid = Some g \<Longrightarrow> is_live h gid cid = gs_live g cid"
  by (simp add: is_live_def gs_live_def)

lemma gs_live_same [simp]:
  "gs_live (g\<lparr>gs_invites := i\<rparr>) cid = gs_live g cid" "gs_live (g\<lparr>gs_pending := p\<rparr>) cid = gs_live g cid"
  "gs_live (fan_group ty body now g) cid = gs_live g cid"
  by (simp_all add: gs_live_def)

lemma gs_live_upd_cred:
  "gs_live (upd_cred c f g) cid \<longleftrightarrow> (if cid = c then \<exists>rec. hm_get (gs_creds g) c = Some rec \<and> cr_live (f rec) else gs_live g cid)"
  by (auto simp: gs_live_def hm_get_upd_cred)

lemma is_live_fan_host: "hm_get (gh_groups h) gid' = Some g \<Longrightarrow> is_live (fan_host gid' ty body g h) gid cid = is_live h gid cid"
  by (simp add: fan_host_def Let_def is_live_group)

lemma is_live_fanout_copy [simp]: "is_live (snd (fanout_copy C rnd gid' ty body h)) gid cid = is_live h gid cid"
  by (simp add: fanout_copy_eq is_live_fan_host split: option.split)

lemma is_live_upd_group_cred:
  "(\<And>rec. cr_live (f rec) \<Longrightarrow> cr_live rec) \<Longrightarrow> is_live (upd_group_cred gid' c f h) gid cid \<Longrightarrow> is_live h gid cid"
  by (cases "hm_get (gh_groups h) gid'")
    (auto simp: upd_group_cred_def gs_live_upd_cred is_live_group split: if_splits, auto simp: gs_live_def)

lemmas dead_sread = snd_sread [where P = "\<lambda>h. \<not> is_live h gid cid" for gid cid]
lemmas dead_sbind = snd_sbind [where P = "\<lambda>h. \<not> is_live h gid cid" for gid cid]

lemma dead_if:
  "(b \<Longrightarrow> \<not> is_live (snd x) gid cid) \<Longrightarrow> (\<not> b \<Longrightarrow> \<not> is_live (snd y) gid cid) \<Longrightarrow> \<not> is_live (snd (if b then x else y)) gid cid"
  by simp

lemma dead_append_remove:
  "\<not> is_live h gid cid \<Longrightarrow> \<not> is_live (snd (append_remove C rnd gid' cred body h)) gid cid"
  unfolding append_remove_def Let_def
  by (intro dead_sread dead_sbind dead_if) (auto dest!: is_live_upd_group_cred [rotated])

lemma dead_signing_replace:
  "\<not> is_live h gid cid \<Longrightarrow> \<not> is_live (snd (apply_signing_replace C gid' cred body h)) gid cid"
  unfolding apply_signing_replace_def
  by (intro dead_sread dead_sbind dead_if) (auto dest!: is_live_upd_group_cred [rotated])

lemma dead_append:
  assumes dead: "\<not> is_live h gid cid"
  shows "\<not> is_live (snd (gh_append C rnd gid' cred ty body h)) gid cid"
proof -
  have "\<not> is_live (snd (append_reserve C rnd gid' cred body h)) gid cid"
    unfolding append_reserve_def Let_def by (intro dead_sread dead_sbind dead_if) (auto simp: dead)
  moreover have "\<not> is_live (snd (sbind (apply_signing_replace C gid' cred body h) (\<lambda>_ h. fanout_copy C rnd gid' ty' body h))) gid cid" for ty'
    using dead_signing_replace [OF dead] by (intro dead_sbind) auto
  ultimately show ?thesis unfolding gh_append_def
    by (intro dead_sread) (simp_all add: dead dead_append_remove split: MessageType.split)
qed

lemma dead_accept: "\<not> is_live h gid cid \<Longrightarrow> \<not> is_live (snd (gh_accept C rnd gid' nonce h)) gid cid"
  unfolding gh_accept_def Let_def split_def
  by (intro dead_sread dead_if) (auto simp: is_live_group gs_live_def hm_get_insert_any split: if_splits)

lemma gc_pending_groups:
  "hm_get (gh_groups (gc_pending gid h)) gid = map_option (\<lambda>g. g\<lparr>gs_pending := hm_retain (\<lambda>_ p. pr_expires_at p > gh_now h) (gs_pending g),
     gs_invites := hm_retain (\<lambda>_ i. si_expires_at i > gh_now h) (gs_invites g)\<rparr>) (hm_get (gh_groups h) gid)"
  by (simp add: gc_pending_def hm_get_insert_any split: option.split)

lemma is_live_gc_pending [simp]: "is_live (gc_pending gid' h) gid cid = is_live h gid cid"
  by (auto simp: gc_pending_def is_live_group split: option.split)

text \<open>What an admission that changes the live credentials has checked.\<close>

definition admitted :: "crypto \<Rightarrow> GroupHost \<Rightarrow> key \<Rightarrow> key \<Rightarrow> MemberCred \<Rightarrow> GroupAdmit \<Rightarrow> bool" where
  "admitted C h gid cid cred adm \<longleftrightarrow> authorize_live C h gid cred = Ok () \<and> ga_group_id adm = gid \<and>
     (\<exists>pk. signing_pk h gid (mc_id cred) = Some pk \<and> ga_verify C adm pk = Ok ()) \<and>
     (\<exists>g p. hm_get (gh_groups h) gid = Some g \<and> hm_get (gs_pending g) (ga_pending_id adm) = Some p \<and>
        mc_id (pr_cred p) = cid \<and> gh_now h < pr_expires_at p)"

lemma admit_live:
  assumes h: "group_inv n h" and dead: "\<not> is_live h gid cid" and live: "is_live (snd (admit C gid' cred adm jpk fanout h)) gid cid"
  shows "gid' = gid \<and> admitted C h gid cid cred adm"
proof (rule ccontr)
  assume no: "\<not> ?thesis"
  have "\<not> is_live (snd (admit C gid' cred adm jpk fanout h)) gid cid"
    unfolding admit_def Let_def
  proof (intro dead_sread dead_if)
    fix v pk u g p
    assume checks: "authorize_live C h gid' cred = Ok v" "\<not> ga_group_id adm \<noteq> gid'"
      "ok_or (signing_pk h gid' (mc_id cred)) Denied = Ok pk" "map_err (\<lambda>_. Denied) (ga_verify C adm pk) = Ok u"
      and "ok_or (hm_get (gh_groups (dirty_pending gid' (dirty_invites gid' (gc_pending gid' h)))) gid') Denied = Ok g"
      and "ok_or (hm_get (gs_pending g) (ga_pending_id adm)) Denied = Ok p"
    then obtain g0 where g0: "hm_get (gh_groups h) gid' = Some g0" and creds: "gs_creds g = gs_creds g0"
      and p: "hm_get (hm_retain (\<lambda>_ p. pr_expires_at p > gh_now h) (gs_pending g0)) (ga_pending_id adm) = Some p"
      by (auto simp: gc_pending_groups)
    have wf: "hm_wf (gs_pending g0)" using group_invD [OF h g0] by (simp add: gs_inv_def)
    have "gh_now h < pr_expires_at p" using p by (auto simp: hm_get_def hm_retain_def dest: map_of_SomeD)
    then have "mc_id (pr_cred p) \<noteq> cid \<or> gid' \<noteq> gid"
      using no checks g0 hm_get_retain_in [OF wf p] by (auto simp: admitted_def)
    moreover have "gid' = gid \<Longrightarrow> \<not> gs_live g cid" using dead g0 creds by (simp add: is_live_group gs_live_def)
    ultimately show "\<not> is_live (snd (case hm_get (gs_creds (g\<lparr>gs_pending := hm_remove (ga_pending_id adm) (gs_pending g)\<rparr>)) (mc_id (pr_cred p)) of
         None \<Rightarrow> (Err Denied, put_group gid' (g\<lparr>gs_pending := hm_remove (ga_pending_id adm) (gs_pending g)\<rparr>) (dirty_pending gid' (dirty_invites gid' (gc_pending gid' h))))
       | Some rec \<Rightarrow> (Ok (mc_id (pr_cred p)), dirty_cred gid' (mc_id (pr_cred p)) (put_group gid' (upd_cred (mc_id (pr_cred p))
            (\<lambda>r. r\<lparr>cr_live := True, cr_signing_pk := Some jpk, cr_fanout := Some fanout\<rparr>)
            (g\<lparr>gs_pending := hm_remove (ga_pending_id adm) (gs_pending g)\<rparr>)) (dirty_pending gid' (dirty_invites gid' (gc_pending gid' h))))))) gid cid"
      using dead by (auto simp: gs_live_upd_cred split: option.split)
    show "\<not> is_live (snd (Err Denied :: ServerError + key, put_group gid' (g\<lparr>gs_pending := hm_remove (ga_pending_id adm) (gs_pending g)\<rparr>)
        (dirty_pending gid' (dirty_invites gid' (gc_pending gid' h))))) gid cid"
      using dead g0 creds by (auto simp: is_live_group gs_live_def)
  qed (use dead in simp_all)
  with live show False by blast
qed

subsection \<open>Copies\<close>

lemma seal_copies_Ok:
  assumes "seal_copies C rnd i ty body ts = Ok outs"
  shows "length outs = length ts \<and> (\<forall>j < length ts. \<exists>m. pad ty body = Ok m \<and>
    seal_to_server C (snd (rnd (i + j))) (ft_hpke_public (ts ! j))
      \<lparr>ie_capability = ft_capability (ts ! j), ie_ttl = TTL_DEFAULT, ie_idempotency = fst (rnd (i + j)), ie_message = m\<rparr> = Ok (outs ! j))"
  using assms
proof (induction C rnd i ty body ts arbitrary: outs rule: seal_copies.induct)
  case (2 C rnd i ty body t ts)
  then obtain m outer rest where m: "pad ty body = Ok m" and outs: "outs = outer # rest"
    and outer: "seal_to_server C (snd (rnd i)) (ft_hpke_public t)
      \<lparr>ie_capability = ft_capability t, ie_ttl = TTL_DEFAULT, ie_idempotency = fst (rnd i), ie_message = m\<rparr> = Ok outer"
    and rest: "seal_copies C rnd (Suc i) ty body ts = Ok rest"
    by (auto simp: rbind_eq_Ok)
  note IH = "2.IH" [OF m refl outer rest]
  have "\<exists>m. pad ty body = Ok m \<and> seal_to_server C (snd (rnd (i + j))) (ft_hpke_public ((t # ts) ! j))
      \<lparr>ie_capability = ft_capability ((t # ts) ! j), ie_ttl = TTL_DEFAULT, ie_idempotency = fst (rnd (i + j)), ie_message = m\<rparr> = Ok (outs ! j)"
    if "j < length (t # ts)" for j
    using that IH m outer by (cases j) (simp_all add: outs)
  with IH show ?case by (simp add: outs)
qed simp

lemma fanout_targets_in:
  "hm_wf (gs_creds g) \<Longrightarrow> t \<in> set (fanout_targets g) \<longleftrightarrow>
     (\<exists>cid rec. hm_get (gs_creds g) cid = Some rec \<and> cr_live rec \<and> cr_fanout rec = Some t)"
  unfolding fanout_targets_def hm.get_in_entries
  by (induction "gs_creds g") (auto simp: hm.get_in_entries List.map_filter_def image_iff split: if_splits, force+)

lemma fanout_copy_Ok:
  assumes "fanout_copy C rnd gid ty body h = (Ok out, h')" "hm_get (gh_groups h) gid = Some g"
  shows "\<not> stream_full g body" "h' = fan_host gid ty body g h" "sa_seq out = gs_next_seq g"
    "seal_copies C rnd 0 ty body (fanout_targets g) = Ok (sa_outers out)"
  using assms by (auto simp: fanout_copy_eq rbind_eq_Ok split: if_splits)

subsection \<open>The stream only grows\<close>

definition grows :: "GroupHost \<Rightarrow> GroupHost \<Rightarrow> bool" where
  "grows h h' \<longleftrightarrow> (\<forall>gid g. hm_get (gh_groups h) gid = Some g \<longrightarrow>
     (\<exists>g'. hm_get (gh_groups h') gid = Some g' \<and> prefix (gs_stream g) (gs_stream g') \<and> gs_bytes g \<le> gs_bytes g'))"

lemma grows_refl [simp]: "grows h h"
  by (simp add: grows_def)

lemma grows_trans: "grows h h' \<Longrightarrow> grows h' h'' \<Longrightarrow> grows h h''"
  unfolding grows_def by (meson order_trans prefix_order.trans)

lemma grows_cong: "gh_groups h' = gh_groups h'' \<Longrightarrow> grows h h' \<longleftrightarrow> grows h h''"
  by (simp add: grows_def)

lemma grows_dirty [simp]:
  "grows h (dirty_cred a b h') = grows h h'" "grows h (dirty_invites a h') = grows h h'" "grows h (dirty_pending a h') = grows h h'"
  "grows h (dirty_file a h') = grows h h'" "grows h (h'\<lparr>gh_files := f\<rparr>) = grows h h'" "grows h (h'\<lparr>gh_now := t\<rparr>) = grows h h'"
  "grows h (h'\<lparr>gh_dirty := d\<rparr>) = grows h h'"
  by (simp_all add: grows_def)

lemma grows_put:
  "hm_get (gh_groups h) gid = Some g0 \<Longrightarrow> prefix (gs_stream g0) (gs_stream g) \<Longrightarrow> gs_bytes g0 \<le> gs_bytes g \<Longrightarrow>
   grows h (put_group gid g h)"
  by (simp add: grows_def hm_get_insert_any)

lemma grows_gc: "grows h (gc_pending gid h)"
  by (auto simp: gc_pending_def intro: grows_put split: option.split)

lemma grows_upd: "grows h (upd_group_cred gid cid f h)"
  by (auto simp: upd_group_cred_def intro: grows_put split: option.split)

lemma grows_fanout: "grows h (snd (fanout_copy C rnd gid ty body h))"
  by (auto simp: fanout_copy_eq fan_host_def fan_group_def Let_def le_saturating_add intro!: grows_put split: option.split)

lemmas grow_sread = snd_sread [where P = "grows h" for h]
lemmas grow_sbind = snd_sbind [where P = "grows h" for h]

lemma grow_if: "(b \<Longrightarrow> grows h (snd x)) \<Longrightarrow> (\<not> b \<Longrightarrow> grows h (snd y)) \<Longrightarrow> grows h (snd (if b then x else y))"
  by simp

lemma grows_append: "grows h (snd (gh_append C rnd gid cred ty body h))"
proof -
  have "grows h (snd (append_remove C rnd gid cred body h))" unfolding append_remove_def Let_def
    by (intro grow_sread grow_sbind grow_if) (auto intro: grows_fanout grows_trans [OF grows_fanout grows_upd])
  moreover have "grows h (snd (append_reserve C rnd gid cred body h))" unfolding append_reserve_def Let_def
    by (intro grow_sread grow_sbind grow_if) (auto intro: grows_fanout)
  moreover have "grows h (snd (apply_signing_replace C gid cred body h))" unfolding apply_signing_replace_def
    by (intro grow_sread grow_if) (auto intro: grows_upd)
  then have "grows h (snd (sbind (apply_signing_replace C gid cred body h) (\<lambda>_ h. fanout_copy C rnd gid ty' body h)))" for ty'
    by (intro grow_sbind) (auto intro: grows_trans [OF _ grows_fanout])
  ultimately show ?thesis unfolding gh_append_def
    by (intro grow_sread) (simp_all add: grows_fanout split: MessageType.split)
qed

lemma grows_admit: "grows h (snd (admit C gid cred adm jpk fanout h))"
proof -
  have "grows h (put_group gid g' (dirty_pending gid (dirty_invites gid (gc_pending gid h))))"
    if "hm_get (gh_groups (gc_pending gid h)) gid = Some g" "gs_stream g' = gs_stream g" "gs_bytes g' = gs_bytes g" for g g'
    by (rule grows_trans [of _ "dirty_pending gid (dirty_invites gid (gc_pending gid h))"]) (use that in \<open>auto simp: grows_gc intro!: grows_put\<close>)
  then show ?thesis unfolding admit_def Let_def
    by (intro grow_sread grow_if) (auto simp: grows_gc split: option.split)
qed

lemma grows_step: "group_step C h h' \<Longrightarrow> grows h h'"
proof (induction rule: group_step.induct)
  case (create h rnd spk ft creator)
  then show ?case by (auto simp: create_group_for_def Let_def grows_def hm_get_insert_any split: option.split prod.split)
next
  case (invite h gid cred gi)
  show ?case unfolding store_invite_def by (intro grow_sread grow_if) (auto intro: grows_put)
next
  case (accept h rnd gid nonce)
  show ?case unfolding gh_accept_def Let_def split_def by (intro grow_sread grow_if) (auto intro: grows_put)
next
  case (refresh h gid cred ft)
  show ?case unfolding refresh_fanout_def by (intro grow_sread grow_if) (auto intro: grows_put)
next
  case (upload h gid cred tok body)
  show ?case unfolding upload_file_def by (intro grow_sread grow_if) auto
qed (simp_all add: grows_admit grows_append append_host_revocation_def grows_fanout)

lemma grows_run: "group_run C n h h' \<Longrightarrow> grows h h'"
  by (induction rule: group_run.induct) (auto intro: grows_trans grows_step)

section \<open>Properties\<close>

text \<open>
  Whatever is asked of a group host, its state stays consistent: each stream is numbered
  1, 2, 3, ... without a gap, its byte count is exact and at most 2 GiB, every pending join has
  its credential, a live credential has a signing key and only live credentials receive copies;
  the unexpired file reservations of a group stay within its 4 GiB budget, an uploaded file has
  the reserved size, and nobody owns more than 64 groups.
\<close>

theorem group_reachable_inv:
  assumes "group_run C n gh_new h" "n + 1 < 2 ^ 64"
  shows "group_inv n h"
  using assms
proof (induction n gh_new h rule: group_run.induct)
  case (step n h' h'')
  then show ?case using inv_step by simp
qed (simp add: inv_start)

text \<open>
  C9. Nobody joins unadmitted: when a step makes a credential of an existing group live, that
  step is an admission, asked for with a live credential of the group and carrying an admission
  for this group that verifies under that member's signing key and names an unexpired pending
  join of the new credential.
\<close>

theorem membership_needs_admit:
  assumes "group_inv n h" "group_step C h h'" "hm_get (gh_groups h) gid \<noteq> None"
    and "\<not> is_live h gid cid" "is_live h' gid cid"
  shows "\<exists>cred adm jpk fanout. h' = snd (admit C gid cred adm jpk fanout h) \<and> admitted C h gid cid cred adm"
  using assms(2)
proof cases
  case (create rnd spk ft creator)
  then have "fst rnd \<noteq> gid" using assms(3) by auto
  then show ?thesis using create assms(4,5) by (simp add: create_group_for_def Let_def split: prod.splits if_splits)
next
  case (admit gid' cred adm jpk ft)
  then show ?thesis using admit_live [OF assms(1,4)] assms(5) by blast
next
  case (invite gid' cred gi)
  have "\<not> is_live h' gid cid" unfolding invite store_invite_def
    by (intro dead_sread dead_if) (use assms(4) in \<open>auto simp: is_live_group\<close>)
  then show ?thesis using assms(5) by blast
next
  case (refresh gid' cred ft)
  have "\<not> is_live h' gid cid" unfolding refresh refresh_fanout_def
    by (intro dead_sread dead_if) (use assms(4) in \<open>auto simp: is_live_group gs_live_upd_cred, auto simp: gs_live_def\<close>)
  then show ?thesis using assms(5) by blast
next
  case (upload gid' cred tok body)
  have "\<not> is_live h' gid cid" unfolding upload upload_file_def
    by (intro dead_sread dead_if) (use assms(4) in auto)
  then show ?thesis using assms(5) by blast
qed (use assms(4,5) dead_accept dead_append in \<open>auto simp: append_host_revocation_def split: if_splits\<close>)



text \<open>
  C12. An invitation is used once and makes nobody a member: after it was accepted, a further
  acceptance is denied and changes nothing, and the credential handed out is not authorised.
  It becomes authorised by the admission of a member: any live member whose signed admission
  names the pending join, before the invitation's expiry.
\<close>

theorem join_completes:
  assumes "group_inv n h" "gh_accept C rnd gid nonce h = (Ok j, h1)"
    and "authorize_live C h1 gid admitter = Ok ()" "signing_pk h1 gid (mc_id admitter) = Some pk" "lib_ed_point C pk"
    and "ga_verify C adm pk = Ok ()" "ga_group_id adm = gid" "ga_pending_id adm = pj_pending_id j"
  shows "gh_accept C rnd' gid nonce h1 = (Err Denied, h1) \<and> authorize_live C h1 gid (pj_cred j) = Err Denied \<and>
    (\<exists>h2. admit C gid admitter adm jpk fanout h1 = (Ok (mc_id (pj_cred j)), h2) \<and>
       authorize_live C h2 gid (pj_cred j) = Ok () \<and> signing_pk h2 gid (mc_id (pj_cred j)) = Some jpk)"
proof -
  obtain g stored secret cid pid where g: "hm_get (gh_groups h) gid = Some g" and stored: "hm_get (gs_invites g) nonce = Some stored"
    and fresh: "gh_now h < si_expires_at stored" and rnd: "rnd = (secret, cid, pid)"
    using assms(2) by (auto simp: gh_accept_def Let_def sread_eq_Ok not_le split: if_splits prod.splits)
  define p where "p = \<lparr>pr_cred = \<lparr>mc_id = cid, mc_secret = hash_secret C secret\<rparr>, pr_expires_at = si_expires_at stored,
    pr_binding = si_binding stored, pr_salt = si_salt stored\<rparr>"
  define rec where "rec = \<lparr>cr_secret = hash_secret C secret, cr_live = False, cr_signing_pk = None, cr_fanout = None\<rparr>"
  define g1 where "g1 = g\<lparr>gs_invites := hm_remove nonce (gs_invites g), gs_creds := hm_insert cid rec (gs_creds g), gs_pending := hm_insert pid p (gs_pending g)\<rparr>"
  have j: "j = \<lparr>pj_pending_id = pid, pj_cred = \<lparr>mc_id = cid, mc_secret = secret\<rparr>, pj_binding = si_binding stored, pj_salt = si_salt stored\<rparr>"
    and h1: "h1 = dirty_cred gid cid (dirty_pending gid (dirty_invites gid (put_group gid g1 h)))"
    using assms(2) g stored fresh by (auto simp: gh_accept_def rnd g1_def p_def rec_def Let_def split: if_splits)
  have wf: "hm_wf (gs_invites g)" "hm_wf (gs_pending g1)"
    using group_invD [OF assms(1) g] by (simp_all add: gs_inv_def g1_def hm.wf_ins)
  have g1: "hm_get (gh_groups h1) gid = Some g1" "gh_now h1 = gh_now h" by (simp_all add: h1 hm_get_insert_any)
  have again: "gh_accept C rnd' gid nonce h1 = (Err Denied, h1)"
    using wf(1) by (simp add: gh_accept_def g1(1)) (simp add: g1_def hm.get_rem)
  have "authorize_live C h1 gid (pj_cred j) \<noteq> Ok ()"
    by (auto simp: authorize_live_iff g1(1)) (auto simp: g1_def j rec_def hm_get_insert_any)
  then have pending: "authorize_live C h1 gid (pj_cred j) = Err Denied" by (simp add: authorize_live_Err)
  define g2 where "g2 = g1\<lparr>gs_pending := hm_retain (\<lambda>_ p. pr_expires_at p > gh_now h) (gs_pending g1),
    gs_invites := hm_retain (\<lambda>_ i. si_expires_at i > gh_now h) (gs_invites g1)\<rparr>"
  have g2: "hm_get (gh_groups (gc_pending gid h1)) gid = Some g2" by (simp add: gc_pending_groups g1 g2_def)
  have "(pid, p) \<in> set (gs_pending g1)" using wf(2) by (simp add: hm.get_in_entries [symmetric]) (simp add: g1_def hm_get_insert_any)
  then have "(pid, p) \<in> set (gs_pending g2)" using fresh by (simp add: g2_def hm_retain_def p_def)
  then have p: "hm_get (gs_pending g2) pid = Some p" using hm_wf_retain [OF wf(2)] by (simp add: hm.get_in_entries g2_def)
  have rec: "hm_get (gs_creds g2) cid = Some rec" by (simp add: g2_def g1_def hm_get_insert_any)
  let ?up = "\<lambda>r. r\<lparr>cr_live := True, cr_signing_pk := Some jpk, cr_fanout := Some fanout\<rparr>"
  have "admit C gid admitter adm jpk fanout h1 = (Ok cid, dirty_cred gid cid (put_group gid
      (upd_cred cid ?up (g2\<lparr>gs_pending := hm_remove pid (gs_pending g2)\<rparr>)) (dirty_pending gid (dirty_invites gid (gc_pending gid h1)))))"
    using assms(3-8) g2 p rec fresh by (simp add: admit_def Let_def j p_def g1(2) not_le)
  then show ?thesis using again pending rec
    by (auto simp: j authorize_live_iff signing_pk_def hm_get_insert_any hm_get_upd_cred) (simp add: rec_def)
qed

text \<open>
  A file is uploaded once and read by members: once its owner's upload is accepted, every
  live member fetches exactly those bytes until the slot expires, nobody can overwrite them,
  and whoever is not a live member gets nothing.
\<close>

theorem file_upload_fetch:
  assumes "upload_file C gid cred tok body h = (Ok (), h')"
  shows "(\<forall>c. fetch_file C gid c tok h' = rbind (authorize_live C h gid c) (\<lambda>_. Ok body)) \<and>
    (\<forall>c b. upload_file C gid c tok b h' = (Err Denied, h')) \<and>
    (\<forall>t slot. hm_get (gh_files h') tok = Some slot \<longrightarrow> fs_expires_at slot \<le> t \<longrightarrow> fetch_file C gid c tok (h'\<lparr>gh_now := t\<rparr>) = Err Denied)"
proof -
  obtain slot where slot: "fs_group_id slot = gid" "gh_now h < fs_expires_at slot"
    and h': "h' = dirty_file tok (h\<lparr>gh_files := hm_insert tok (slot\<lparr>fs_bytes := Some body\<rparr>) (gh_files h)\<rparr>)"
    using assms by (auto simp: upload_file_def sread_eq_Ok split: if_splits)
  have auth: "authorize_live C h' gid c = authorize_live C h gid c" for c by (simp add: authorize_live_def h')
  have auth_t: "authorize_live C (h'\<lparr>gh_now := t\<rparr>) gid c = authorize_live C h gid c" for c t by (simp add: authorize_live_def h')
  have get: "hm_get (gh_files h') tok = Some (slot\<lparr>fs_bytes := Some body\<rparr>)" and now: "gh_now h' = gh_now h"
    by (simp_all add: h' hm_get_insert_any)
  have "upload_file C gid c tok b h' = (Err Denied, h')" for c b
    by (cases rule: authorize_live_cases [of C h gid c]) (simp_all add: upload_file_def auth get)
  moreover have "fetch_file C gid c tok h' = rbind (authorize_live C h gid c) (\<lambda>_. Ok body)" for c
    using slot by (simp add: fetch_file_def auth get now)
  moreover have "fetch_file C gid c tok (h'\<lparr>gh_now := t\<rparr>) = Err Denied" if "fs_expires_at slot \<le> t" for c t
    using that by (cases rule: authorize_live_cases [of C h gid c]) (simp_all add: fetch_file_def auth_t get not_less)
  ultimately show ?thesis by (simp add: get)
qed

text \<open>
  The stream is append-only: no operation removes or changes a row or lowers the byte
  count. So a stream that has no room for a message refuses every message of that length from
  then on, however much time passes.
\<close>

theorem stream_full_forever:
  assumes "group_run C n h h'" "hm_get (gh_groups h) gid = Some g"
  shows "\<exists>g'. hm_get (gh_groups h') gid = Some g' \<and> prefix (gs_stream g) (gs_stream g') \<and>
    (\<forall>body ty cred rnd. stream_full g body \<longrightarrow> ty \<in> {MlsHandshake, MlsApp, RevocationStatementType} \<longrightarrow> gh_append C rnd gid cred ty body h' = (Err Denied, h'))"
proof -
  obtain g' where g': "hm_get (gh_groups h') gid = Some g'" "prefix (gs_stream g) (gs_stream g')" "gs_bytes g \<le> gs_bytes g'"
    using grows_run [OF assms(1)] assms(2) unfolding grows_def by blast
  have full: "stream_full g' body" if "stream_full g body" for body
  proof -
    have "saturating_add (gs_bytes g) (of_nat (length body)) \<le> saturating_add (gs_bytes g') (of_nat (length body))"
      using g'(3) by (simp add: word_le_nat_alt sat_simps min_def)
    then show ?thesis using that unfolding stream_full_def by (rule less_le_trans [rotated])
  qed
  have "gh_append C rnd gid cred ty body h' = (Err Denied, h')"
    if "stream_full g body" "ty \<in> {MlsHandshake, MlsApp, RevocationStatementType}" for body ty cred rnd
    using that by (cases rule: authorize_live_cases [of C h' gid cred]) (auto simp: gh_append_def fanout_copy_eq g'(1) full)
  with g' show ?thesis by blast
qed

text \<open>
  An append that fails can leave its row behind: a message too long for every padding
  bucket is stored on the stream, with its number and its bytes spent, before the padding of
  the first copy fails and the member is told so.
\<close>

theorem failed_append_keeps_row:
  assumes "authorize_live C h gid cred = Ok ()" "hm_get (gh_groups h) gid = Some g" "fanout_targets g \<noteq> []"
    and "\<not> stream_full g body" "\<forall>b \<in> set (buckets MlsApp). b < 2 + length body"
  shows "\<exists>h' g'. gh_append C rnd gid cred MlsApp body h = (Err (Wire NoBucket), h') \<and>
    hm_get (gh_groups h') gid = Some g' \<and> gs_next_seq g' = gs_next_seq g + 1 \<and>
    gs_stream g' = gs_stream g @ [\<lparr>sw_seq = gs_next_seq g, sw_type = MlsApp, sw_body = body, sw_received_at = gh_now h\<rparr>]"
proof -
  obtain t ts where ts: "fanout_targets g = t # ts" using assms(3) by (cases "fanout_targets g") auto
  have "find (\<lambda>b. 2 + length body \<le> b) (buckets MlsApp) = None" using assms(5) by (auto simp: find_None_iff)
  then have "pad MlsApp body = Err NoBucket" by (simp add: pad_def)
  then show ?thesis using assms(1,2,4) by (simp add: gh_append_def fanout_copy_eq ts hm_get_insert_any) (simp add: fan_group_def)
qed

section \<open>Witnesses\<close>

definition sample_target :: FanoutTarget where
  "sample_target = \<lparr>ft_capability = replicate 32 7, ft_hpke_public = replicate 32 3\<rparr>"

definition sample_group :: GroupState where
  "sample_group = \<lparr>gs_next_seq = 1,
     gs_creds = [([2], \<lparr>cr_secret = hash_secret plain_crypto [5], cr_live = True, cr_signing_pk = Some (lib_ed_public plain_crypto [4]), cr_fanout = Some sample_target\<rparr>),
       (replicate 32 9, \<lparr>cr_secret = hash_secret plain_crypto [6], cr_live = True, cr_signing_pk = Some (lib_ed_public plain_crypto [8]), cr_fanout = None\<rparr>)],
     gs_invites = [([8], \<lparr>si_expires_at = 2000, si_binding = None, si_salt = None\<rparr>)], gs_pending = [],
     gs_bytes = 0, gs_stream = [], gs_creator = None\<rparr>"

definition sample_host :: GroupHost where
  "sample_host = \<lparr>gh_now = 1000, gh_groups = [([1], sample_group)],
     gh_files = [([7], \<lparr>fs_group_id = [1], fs_owner = [2], fs_size = A1, fs_expires_at = 3000, fs_bytes = None\<rparr>)],
     gh_file_budget = FILE_BUDGET_BYTES, gh_dirty = gd_default\<rparr>"

definition sample_member :: MemberCred where
  "sample_member = \<lparr>mc_id = [2], mc_secret = [5]\<rparr>"

lemma sample_group_get [simp]: "hm_get (gh_groups sample_host) [1] = Some sample_group"
  by (simp add: sample_host_def hm_get_def)

lemma sample_auth_live [simp]: "authorize_live plain_crypto sample_host [1] sample_member = Ok ()"
  by (simp add: authorize_live_iff) (simp add: sample_group_def sample_member_def hm_get_def)

lemma sample_ids [simp]: "replicate 32 9 \<noteq> [2 :: byte]" "[2 :: byte] \<noteq> replicate 32 9"
  by (simp_all add: numeral_eq_Suc)

lemma sample_host_inv: "group_inv 0 sample_host"
proof -
  have "gs_inv 0 sample_group"
    by (auto simp: gs_inv_def sample_group_def hm_wf_def hm_get_def body_bytes_def STREAM_MAX_BYTES_def cred_ok_def split: if_splits)
  moreover have "live_bytes sample_host gid \<le> unat FILE_BUDGET_BYTES" for gid
    by (simp add: live_bytes_def sample_host_def FILE_BUDGET_BYTES_def A1_def)
  moreover have "slot_ok \<lparr>fs_group_id = [1], fs_owner = [2], fs_size = A1, fs_expires_at = 3000, fs_bytes = None\<rparr>"
    by (auto simp: slot_ok_def intro: exI [of _ "SizeA1"])
  ultimately show ?thesis
    by (auto simp: group_inv_def sample_host_def hm_wf_def hm_get_def created_by_def GROUPS_PER_OWNER_def sample_group_def [THEN arg_cong [of _ _ gs_creator]] split: if_splits)
qed

lemma sample_copies:
  assumes "pad ty body = Ok m"
  shows "\<exists>outs. seal_copies plain_crypto (\<lambda>_. (replicate 32 1, [])) 0 ty body (fanout_targets sample_group) = Ok outs"
proof -
  let ?e = "\<lparr>ie_capability = replicate 32 7, ie_ttl = TTL_DEFAULT, ie_idempotency = replicate 32 1, ie_message = m\<rparr>"
  have "inner_ok ?e" using pad_padded_ok [OF assms] by (simp add: inner_ok_def TTL_DEFAULT_def)
  then obtain bs where "encode_padded ?e = Ok bs" using encode_padded_ok by blast
  moreover have "fanout_targets sample_group = [sample_target]"
    by (simp add: fanout_targets_def sample_group_def map_filter_simps)
  ultimately show ?thesis using assms
    by (simp add: sample_target_def seal_to_server_def seal_def Let_def) (simp add: plain_crypto_def)
qed

lemma sample_fanout:
  assumes "2 + length body \<le> 1024" "\<not> is_attachment ty"
  shows "\<exists>out h'. fanout_copy plain_crypto (\<lambda>_. (replicate 32 1, [])) [1] ty body sample_host = (Ok out, h')"
proof -
  have "\<exists>m. pad ty body = Ok m" using assms by (simp add: pad_def buckets_def size_defs)
  moreover have "\<not> stream_full sample_group body"
    using assms(1) by (simp add: stream_full_def not_less word_le_nat_alt sat_simps STREAM_MAX_BYTES_def) (simp add: sample_group_def)
  ultimately show ?thesis using sample_copies by (fastforce simp: fanout_copy_eq)
qed

theorem group_reachable_inv_witness:
  "\<exists>h. group_run plain_crypto 1 gh_new h \<and> is_live h [1] [2] \<and> group_inv 1 h"
proof -
  let ?h = "snd (create_group_for plain_crypto ([1], [5], [2]) [4] sample_target None gh_new)"
  have "group_run plain_crypto (Suc 0) gh_new ?h"
    by (rule group_run.step [OF group_run.start group_step.create]) (simp add: gh_new_def hm_get_def)
  then have r: "group_run plain_crypto 1 gh_new ?h" by simp
  have "is_live ?h [1] [2]" by (simp add: create_group_for_def Let_def gs_live_def hm_get_def)
  with r group_reachable_inv [OF r] show ?thesis by auto
qed

definition sample_waiting :: GroupHost where
  "sample_waiting = sample_host\<lparr>gh_groups := [([1], sample_group\<lparr>
     gs_creds := ([4], \<lparr>cr_secret = hash_secret plain_crypto [6], cr_live = False, cr_signing_pk = None, cr_fanout = None\<rparr>) # gs_creds sample_group,
     gs_pending := [([3], \<lparr>pr_cred = \<lparr>mc_id = [4], mc_secret = hash_secret plain_crypto [6]\<rparr>, pr_expires_at = 2000, pr_binding = None, pr_salt = None\<rparr>)]\<rparr>)]\<rparr>"

lemma sample_admit:
  obtains adm where "ga_group_id adm = [1]" "ga_pending_id adm = [3]" "ga_verify plain_crypto adm (lib_ed_public plain_crypto [4]) = Ok ()"
proof -
  obtain s where s: "sign plain_crypto [4] GROUP_ADMIT (ga_payload [1] [3]) = Ok s" by (simp add: sign_total)
  with verify_sign_ok [OF _ s] that [of "\<lparr>ga_group_id = [1], ga_pending_id = [3], ga_signature = s\<rparr>"] show ?thesis
    by (simp add: ga_verify_def)
qed

lemma sample_waiting_inv: "group_inv 0 sample_waiting"
proof -
  have "gs_inv 0 (sample_group\<lparr>
     gs_creds := ([4], \<lparr>cr_secret = hash_secret plain_crypto [6], cr_live = False, cr_signing_pk = None, cr_fanout = None\<rparr>) # gs_creds sample_group,
     gs_pending := [([3], \<lparr>pr_cred = \<lparr>mc_id = [4], mc_secret = hash_secret plain_crypto [6]\<rparr>, pr_expires_at = 2000, pr_binding = None, pr_salt = None\<rparr>)]\<rparr>)"
    using group_invD [OF sample_host_inv sample_group_get]
    by (auto simp: gs_inv_def hm_wf_def hm_get_def cred_ok_def split: if_splits) (auto simp: sample_group_def numeral_eq_Suc)
  from inv_put_group [OF sample_host_inv sample_group_get this] show ?thesis
    by (simp add: sample_waiting_def put_group_def hm_insert_def) (simp add: sample_host_def)
qed

theorem membership_needs_admit_witness:
  "\<exists>h' cred adm. group_step plain_crypto sample_waiting h' \<and> is_live h' [1] [4] \<and> admitted plain_crypto sample_waiting [1] [4] cred adm"
proof -
  obtain adm where adm: "ga_group_id adm = [1]" "ga_pending_id adm = [3]" "ga_verify plain_crypto adm (lib_ed_public plain_crypto [4]) = Ok ()"
    by (rule sample_admit)
  let ?h = "snd (admit plain_crypto [1] sample_member adm [1] sample_target sample_waiting)"
  have s: "group_step plain_crypto sample_waiting ?h" by (rule group_step.admit)
  have auth: "authorize_live plain_crypto sample_waiting [1] sample_member = Ok ()"
    by (simp add: authorize_live_iff sample_waiting_def sample_member_def sample_group_def hm_get_def)
  have pk: "signing_pk sample_waiting [1] (mc_id sample_member) = Some (lib_ed_public plain_crypto [4])"
    by (simp add: signing_pk_def sample_waiting_def sample_member_def sample_group_def hm_get_def)
  have point: "lib_ed_point plain_crypto (lib_ed_public plain_crypto [4])" by (simp add: plain_crypto_def)
  have live: "is_live ?h [1] [4]"
    by (simp add: admit_def auth pk point adm Let_def gc_pending_groups)
      (simp add: sample_waiting_def sample_host_def hm_get_def hm_retain_def gs_live_def upd_cred_def hm_insert_def)
  have dead: "\<not> is_live sample_waiting [1] [4]" "hm_get (gh_groups sample_waiting) [1] \<noteq> None"
    by (simp_all add: is_live_def sample_waiting_def hm_get_def)
  from membership_needs_admit [OF sample_waiting_inv s dead(2,1) live] s live show ?thesis by blast
qed



theorem join_completes_witness:
  "\<exists>j h1 h2 adm. gh_accept plain_crypto ([6], [4], [3]) [1] [8] sample_host = (Ok j, h1) \<and>
     admit plain_crypto [1] sample_member adm [1] sample_target h1 = (Ok [4], h2) \<and>
     authorize_live plain_crypto h2 [1] \<lparr>mc_id = [4], mc_secret = [6]\<rparr> = Ok ()"
proof -
  obtain adm where adm: "ga_group_id adm = [1]" "ga_pending_id adm = [3]" "ga_verify plain_crypto adm (lib_ed_public plain_crypto [4]) = Ok ()"
    by (rule sample_admit)
  obtain j h1 where a: "gh_accept plain_crypto ([6], [4], [3]) [1] [8] sample_host = (Ok j, h1)"
    and j: "pj_pending_id j = [3]" "pj_cred j = \<lparr>mc_id = [4], mc_secret = [6]\<rparr>"
    and h1: "hm_get (gh_groups h1) [1] = Some (sample_group\<lparr>gs_invites := [],
       gs_creds := hm_insert [4] \<lparr>cr_secret = hash_secret plain_crypto [6], cr_live = False, cr_signing_pk = None, cr_fanout = None\<rparr> (gs_creds sample_group),
       gs_pending := [([3], \<lparr>pr_cred = \<lparr>mc_id = [4], mc_secret = hash_secret plain_crypto [6]\<rparr>, pr_expires_at = 2000, pr_binding = None, pr_salt = None\<rparr>)]\<rparr>)"
    by (simp add: gh_accept_def Let_def) (simp add: sample_group_def sample_host_def hm_get_def hm_remove_def hm_insert_def)
  have member: "authorize_live plain_crypto h1 [1] sample_member = Ok ()" "signing_pk h1 [1] (mc_id sample_member) = Some (lib_ed_public plain_crypto [4])"
    by (simp_all add: authorize_live_iff signing_pk_def h1 hm_get_insert_any) (simp_all add: sample_member_def sample_group_def hm_get_def)
  have "lib_ed_point plain_crypto (lib_ed_public plain_crypto [4])" by (simp add: plain_crypto_def)
  from join_completes [OF sample_host_inv a member this adm(3,1), of "([], [], [])" "[1]" sample_target] a show ?thesis by (simp add: j adm) blast
qed

theorem file_upload_fetch_witness:
  "\<exists>h'. upload_file plain_crypto [1] sample_member [7] (replicate A1 3) sample_host = (Ok (), h') \<and>
     fetch_file plain_crypto [1] sample_member [7] h' = Ok (replicate A1 3)"
proof -
  obtain h' where u: "upload_file plain_crypto [1] sample_member [7] (replicate A1 3) sample_host = (Ok (), h')"
    by (simp add: upload_file_def) (simp add: sample_host_def sample_member_def hm_get_def)
  from file_upload_fetch [OF u] u show ?thesis by simp
qed

theorem stream_full_forever_witness:
  "\<exists>h. gh_append plain_crypto (\<lambda>_. ([], [])) [1] sample_member MlsApp [5] (h\<lparr>gh_now := 9000000\<rparr>) = (Err Denied, h\<lparr>gh_now := 9000000\<rparr>) \<and>
     authorize_live plain_crypto (h\<lparr>gh_now := 9000000\<rparr>) [1] sample_member = Ok ()"
proof -
  let ?g = "sample_group\<lparr>gs_bytes := STREAM_MAX_BYTES\<rparr>"
  let ?h = "sample_host\<lparr>gh_groups := [([1], ?g)]\<rparr>"
  have "group_run plain_crypto (Suc 0) ?h (?h\<lparr>gh_now := 9000000\<rparr>)"
    by (rule group_run.step [OF group_run.start group_step.clock]) (simp add: sample_host_def)
  moreover have "stream_full ?g [5]" by (simp add: stream_full_def STREAM_MAX_BYTES_def saturating_add_def)
  moreover have "authorize_live plain_crypto (?h\<lparr>gh_now := 9000000\<rparr>) [1] sample_member = Ok ()"
    by (simp add: authorize_live_iff sample_member_def sample_group_def hm_get_def)
  ultimately show ?thesis
    using stream_full_forever [of plain_crypto "Suc 0" ?h "?h\<lparr>gh_now := 9000000\<rparr>" "[1]" ?g] by (intro exI [of _ ?h]) (simp add: hm_get_def)
qed

theorem failed_append_keeps_row_witness:
  "\<exists>h' g'. gh_append plain_crypto (\<lambda>_. ([], [])) [1] sample_member MlsApp (replicate 20000 1) sample_host = (Err (Wire NoBucket), h') \<and>
     hm_get (gh_groups h') [1] = Some g' \<and> length (gs_stream g') = 1"
proof -
  have "\<not> stream_full sample_group (replicate 20000 1)"
    by (simp add: stream_full_def sample_group_def STREAM_MAX_BYTES_def saturating_add_def)
  moreover have "fanout_targets sample_group \<noteq> []" by (simp add: fanout_targets_def sample_group_def map_filter_simps)
  moreover have "\<forall>b \<in> set (buckets MlsApp). b < 2 + length (replicate 20000 (1 :: byte))"
    by (simp add: buckets_def is_attachment_def size_defs)
  moreover have "gs_stream sample_group = []" by (simp add: sample_group_def)
  ultimately show ?thesis using failed_append_keeps_row [OF sample_auth_live sample_group_get, of "replicate 20000 1" "\<lambda>_. ([], [])"] by auto
qed

end
