(* ===== verification/Group_Refine.thy ===== *)
theory Group_Refine
  imports Group_Props
begin

text \<open>
  What a group host is for, as an abstract specification: rooms, each with a set of members and
  a log. Somebody opens a room; a member lets somebody in; a member posts; a member removes
  somebody; the host posts a notice. The detailed host of \<open>nemo-server/src/group.rs\<close>, with
  its credentials, invites, pending joins, byte budgets, clock, files and journal, implements
  exactly these moves.
\<close>

section \<open>Specification\<close>

record room =
  rm_members :: "key set"
  rm_log :: "(MessageType \<times> bytes) list"

type_synonym rooms = "key \<rightharpoonup> room"

definition post :: "MessageType \<Rightarrow> bytes \<Rightarrow> room \<Rightarrow> room" where
  "post ty body r = r\<lparr>rm_log := rm_log r @ [(ty, body)]\<rparr>"

inductive room_step :: "rooms \<Rightarrow> rooms \<Rightarrow> bool" where
  quiet: "room_step R R"
| opened: "R gid = None \<Longrightarrow> room_step R (R(gid \<mapsto> \<lparr>rm_members = {cid}, rm_log = []\<rparr>))"
| joined: "R gid = Some r \<Longrightarrow> sponsor \<in> rm_members r \<Longrightarrow>
    room_step R (R(gid \<mapsto> r\<lparr>rm_members := insert cid (rm_members r)\<rparr>))"
| posted: "R gid = Some r \<Longrightarrow> author \<in> rm_members r \<Longrightarrow> room_step R (R(gid \<mapsto> post ty body r))"
| removed: "R gid = Some r \<Longrightarrow> author \<in> rm_members r \<Longrightarrow>
    room_step R (R(gid \<mapsto> (post RemoveBundleType body r)\<lparr>rm_members := rm_members r - {cid}\<rparr>))"
| notice: "R gid = Some r \<Longrightarrow> room_step R (R(gid \<mapsto> post RevocationStatementType body r))"

inductive_cases room_stepE: "room_step R R'"

text \<open>What a host's state means: its live credentials are the members, its stream is the log.\<close>

definition room_of :: "GroupState \<Rightarrow> room" where
  "room_of g = \<lparr>rm_members = {cid. gs_live g cid}, rm_log = map (\<lambda>r. (sw_type r, sw_body r)) (gs_stream g)\<rparr>"

definition rooms_of :: "GroupHost \<Rightarrow> rooms" where
  "rooms_of h gid = map_option room_of (hm_get (gh_groups h) gid)"

section \<open>Lemmas\<close>

subsection \<open>The specification\<close>

text \<open>In the specification nobody forges, drops or reorders: rooms stay, logs only grow.\<close>

lemma room_step_log:
  assumes "room_step R R'" "R gid = Some r"
  shows "\<exists>r'. R' gid = Some r' \<and> prefix (rm_log r) (rm_log r')"
  using assms by cases (auto simp: post_def)

lemma room_steps_log:
  assumes "room_step\<^sup>*\<^sup>* R R'" "R gid = Some r"
  shows "\<exists>r'. R' gid = Some r' \<and> prefix (rm_log r) (rm_log r')"
  using assms
proof (induction rule: rtranclp_induct)
  case (step R1 R2)
  then show ?case using room_step_log [OF step.hyps(2)] by (meson prefix_order.trans)
qed auto

subsection \<open>The abstraction\<close>

lemma rooms_of_put [simp]: "rooms_of (put_group gid g h) = (rooms_of h)(gid \<mapsto> room_of g)"
  by (auto simp: rooms_of_def hm_get_insert_any)

lemma rooms_of_dirty [simp]:
  "rooms_of (dirty_cred a b h) = rooms_of h" "rooms_of (dirty_invites a h) = rooms_of h"
  "rooms_of (dirty_pending a h) = rooms_of h" "rooms_of (dirty_file a h) = rooms_of h"
  "rooms_of (h\<lparr>gh_dirty := d\<rparr>) = rooms_of h" "rooms_of (h\<lparr>gh_files := f\<rparr>) = rooms_of h"
  "rooms_of (h\<lparr>gh_now := t\<rparr>) = rooms_of h"
  by (auto simp: rooms_of_def)

lemma rooms_of_get: "hm_get (gh_groups h) gid = Some g \<Longrightarrow> rooms_of h gid = Some (room_of g)"
  by (simp add: rooms_of_def)

lemma rooms_of_same: "hm_get (gh_groups h) gid = Some g \<Longrightarrow> room_of g' = room_of g \<Longrightarrow> rooms_of (put_group gid g' h) = rooms_of h"
  by (auto simp: rooms_of_get)

lemma room_of_same [simp]:
  "room_of (g\<lparr>gs_invites := i\<rparr>) = room_of g" "room_of (g\<lparr>gs_pending := p\<rparr>) = room_of g"
  by (simp_all add: room_of_def)

lemma room_of_fan_group [simp]: "room_of (fan_group ty body now g) = post ty body (room_of g)"
  by (auto simp: room_of_def post_def fan_group_def gs_live_def)

lemma room_of_upd_cred:
  assumes "\<And>rec. cr_live (f rec) = cr_live rec"
  shows "room_of (upd_cred cid f g) = room_of g"
  using assms by (auto simp: room_of_def gs_live_upd_cred) (auto simp: gs_live_def)

lemma room_of_admit:
  assumes "hm_get (gs_creds g) cid = Some rec" "\<And>rec. cr_live (f rec)"
  shows "room_of (upd_cred cid f g) = (room_of g)\<lparr>rm_members := insert cid (rm_members (room_of g))\<rparr>"
  using assms by (auto simp: room_of_def gs_live_upd_cred)

lemma room_of_remove:
  assumes "\<And>rec. \<not> cr_live (f rec)"
  shows "room_of (upd_cred cid f g) = (room_of g)\<lparr>rm_members := rm_members (room_of g) - {cid}\<rparr>"
  using assms by (auto simp: room_of_def gs_live_upd_cred)

lemma rooms_of_gc_pending [simp]: "rooms_of (gc_pending gid h) = rooms_of h"
  by (auto simp: gc_pending_def rooms_of_get split: option.split)

lemma rooms_of_upd_group_cred:
  "(\<And>rec. cr_live (f rec) = cr_live rec) \<Longrightarrow> rooms_of (upd_group_cred gid cid f h) = rooms_of h"
  by (auto simp: upd_group_cred_def rooms_of_get room_of_upd_cred split: option.split)

lemma rooms_of_fan_host:
  "rooms_of (fan_host gid ty body g h) = (rooms_of h)(gid \<mapsto> post ty body (room_of g))"
  by (simp add: fan_host_def Let_def)

lemma authorized_member:
  assumes "authorize_live C h gid cred = Ok ()"
  obtains g where "hm_get (gh_groups h) gid = Some g" "rooms_of h gid = Some (room_of g)" "mc_id cred \<in> rm_members (room_of g)"
  using assms by (auto simp: authorize_live_iff rooms_of_get room_of_def gs_live_def)

subsection \<open>Every operation is a move\<close>

text \<open>The rooms \<open>R\<close> before an operation, and the rooms of the state it leaves.\<close>

definition moves :: "rooms \<Rightarrow> GroupHost \<Rightarrow> bool" where
  "moves R h \<longleftrightarrow> room_step R (rooms_of h)"

lemmas move_sread = snd_sread [where P = "moves R" for R]
lemmas move_sbind = snd_sbind [where P = "moves R" for R]

lemma move_if: "(b \<Longrightarrow> moves R (snd x)) \<Longrightarrow> (\<not> b \<Longrightarrow> moves R (snd y)) \<Longrightarrow> moves R (snd (if b then x else y))"
  by simp

lemma moves_quiet: "rooms_of h = R \<Longrightarrow> moves R h"
  by (simp add: moves_def quiet)

lemma moves_same: "rooms_of h' = rooms_of h \<Longrightarrow> moves R h' = moves R h"
  by (simp add: moves_def)

lemma moves_fanout:
  assumes "authorize_live C h gid cred = Ok ()"
  shows "moves (rooms_of h) (snd (fanout_copy C' rnd gid ty body h))"
proof -
  obtain g where g: "hm_get (gh_groups h) gid = Some g" "rooms_of h gid = Some (room_of g)" "mc_id cred \<in> rm_members (room_of g)"
    using assms by (rule authorized_member)
  then show ?thesis using room_step.posted [of "rooms_of h" gid, OF g(2,3)] by (simp add: fanout_copy_eq moves_def rooms_of_fan_host quiet)
qed

lemma moves_append_remove:
  assumes "authorize_live C h gid cred = Ok ()"
  shows "moves (rooms_of h) (snd (append_remove C rnd gid cred body h))"
proof -
  obtain g where g: "hm_get (gh_groups h) gid = Some g" "rooms_of h gid = Some (room_of g)" "mc_id cred \<in> rm_members (room_of g)"
    using assms by (rule authorized_member)
  have "rooms_of (upd_group_cred gid cid (\<lambda>r. r\<lparr>cr_live := False, cr_fanout := None\<rparr>) (snd (fanout_copy C rnd gid RemoveBundleType body h))) =
      (rooms_of h)(gid \<mapsto> (post RemoveBundleType body (room_of g))\<lparr>rm_members := rm_members (room_of g) - {cid}\<rparr>)"
    if "fst (fanout_copy C rnd gid RemoveBundleType body h) = Ok out" for out cid
    using fanout_copy_Ok(2) [OF prod_eqI g(1), of C rnd RemoveBundleType body out] that
    by (simp add: upd_group_cred_def hm_get_insert_any rooms_of_fan_host room_of_remove) (simp add: post_def)
  then show ?thesis unfolding append_remove_def Let_def
    using moves_fanout [OF assms, of C rnd RemoveBundleType body]
    by (intro move_sread move_sbind move_if) (auto simp: moves_quiet, simp add: moves_def room_step.removed [of "rooms_of h" gid, OF g(2,3)])
qed

lemma moves_append: "moves (rooms_of h) (snd (gh_append C rnd gid cred ty body h))"
proof (cases "authorize_live C h gid cred")
  case (Inr u)
  then have auth: "authorize_live C h gid cred = Ok ()" by simp
  have reserve: "moves (rooms_of h) (snd (append_reserve C rnd gid cred body h))"
    unfolding append_reserve_def Let_def using moves_fanout [OF auth, of C rnd AttachmentReserveType body]
    by (intro move_sread move_sbind move_if) (auto simp: moves_quiet, simp add: moves_def)
  have "rooms_of (snd (apply_signing_replace C gid cred body h)) = rooms_of h \<and>
      (\<forall>x h'. apply_signing_replace C gid cred body h = (Ok x, h') \<longrightarrow> authorize_live C h' gid cred = Ok ())"
    using auth by (auto simp: apply_signing_replace_def sread_def rooms_of_upd_group_cred upd_group_cred_def authorize_live_iff
        hm_get_insert_any hm_get_upd_cred rooms_of_get room_of_upd_cred split: sum.split option.split)
  then have "moves (rooms_of h) (snd (sbind (apply_signing_replace C gid cred body h) (\<lambda>_ h. fanout_copy C rnd gid ty' body h)))" for ty'
    by (cases "apply_signing_replace C gid cred body h") (auto intro!: move_sbind simp: moves_quiet dest: moves_fanout [of C _ gid cred C rnd ty' body])
  with reserve show ?thesis
    by (simp add: gh_append_def auth moves_append_remove [OF auth] moves_fanout [OF auth] moves_quiet split: MessageType.split)
qed (simp add: gh_append_def moves_quiet)

lemma moves_admit: "moves (rooms_of h) (snd (admit C gid cred adm jpk ft h))"
proof (cases "authorize_live C h gid cred")
  case (Inr u)
  then obtain g where g: "hm_get (gh_groups h) gid = Some g" "rooms_of h gid = Some (room_of g)" "mc_id cred \<in> rm_members (room_of g)"
    using authorized_member [of C h gid cred] by auto
  have "room_step (rooms_of h) ((rooms_of h)(gid \<mapsto> room_of (upd_cred cid (\<lambda>r. r\<lparr>cr_live := True, cr_signing_pk := Some jpk, cr_fanout := Some ft\<rparr>) g')))"
    if "gs_creds g' = gs_creds g" "gs_stream g' = gs_stream g" "hm_get (gs_creds g) cid = Some rec" for g' cid rec
  proof -
    have "room_of g' = room_of g" using that by (simp add: room_of_def gs_live_def)
    then show ?thesis using room_step.joined [of "rooms_of h" gid, OF g(2,3)] that by (simp add: room_of_admit)
  qed
  then show ?thesis unfolding admit_def Let_def using g
    by (intro move_sread move_if)
      (auto simp: moves_quiet gc_pending_groups moves_def fun_upd_idem quiet split: option.split)
qed (simp add: admit_def moves_quiet)

lemma moves_step:
  assumes "group_step C h h'"
  shows "room_step (rooms_of h) (rooms_of h')"
  using assms
proof cases
  case (create rnd spk ft creator)
  obtain gid secret cid where rnd: "rnd = (gid, secret, cid)" by (cases rnd)
  have "rooms_of h gid = None" using create by (simp add: rooms_of_def rnd)
  from room_step.opened [of "rooms_of h" gid cid, OF this] show ?thesis
    by (auto simp: create create_group_for_def rnd Let_def quiet room_of_def gs_live_def hm_get_def split: option.split if_splits)
next
  case (invite gid cred gi)
  have "moves (rooms_of h) h'" unfolding invite store_invite_def
    by (intro move_sread move_if) (auto simp: moves_quiet rooms_of_get fun_upd_idem)
  then show ?thesis by (simp add: moves_def)
next
  case (accept gid rnd nonce)
  obtain secret cid pid where rnd: "rnd = (secret, cid, pid)" by (cases rnd)
  have "room_of (g\<lparr>gs_invites := i, gs_creds := hm_insert cid r (gs_creds g), gs_pending := p\<rparr>) = room_of g"
    if "hm_get (gh_groups h) gid = Some g" "\<not> cr_live r" for g i p r
    using accept(2) [OF that(1)] that(2) by (auto simp: rnd room_of_def gs_live_def hm_get_insert_any)
  then have "moves (rooms_of h) h'" unfolding accept gh_accept_def Let_def rnd prod.case
    by (intro move_sread move_if) (auto simp: moves_quiet rooms_of_get fun_upd_idem)
  then show ?thesis by (simp add: moves_def)
next
  case (revocation stmt rnd gid)
  then show ?thesis
    by (auto simp: append_host_revocation_def fanout_copy_eq rooms_of_fan_host quiet intro: room_step.notice rooms_of_get split: option.split)
next
  case (refresh gid cred ft)
  have "moves (rooms_of h) h'" unfolding refresh refresh_fanout_def
    by (intro move_sread move_if) (auto simp: moves_quiet rooms_of_get fun_upd_idem room_of_upd_cred)
  then show ?thesis by (simp add: moves_def)
next
  case (upload gid cred tok body)
  have "moves (rooms_of h) h'" unfolding upload upload_file_def
    by (intro move_sread move_if) (auto simp: moves_quiet)
  then show ?thesis by (simp add: moves_def)
qed (use moves_append moves_admit in \<open>auto simp: moves_def quiet\<close>)

section \<open>Properties\<close>



end
