(* ===== verification/Http.thy ===== *)
theory Http
  imports Home Group_Host
begin

text \<open>
  The client API, \<open>nemo-server/src/http.rs\<close>: every route's handler over the server state, the
  home server and the group host behind it, and the middleware that signs responses and
  persists; with the TURN credentials of \<open>turn.rs\<close> and the key file of \<open>identity.rs\<close>.

  The HTTP library routes requests and parses headers: \<open>headers name\<close> is the value of the header
  as text, when it is present and text. Each reading of the clock and each random value is an
  argument: \<open>T i\<close> is the \<open>i\<close>-th reading a handler makes.
\<close>

section \<open>Responses\<close>

datatype StatusCode = OK | NO_CONTENT | SWITCHING_PROTOCOLS | BAD_REQUEST | UNAUTHORIZED | FORBIDDEN | CONFLICT | INTERNAL_SERVER_ERROR

fun as_u16 :: "StatusCode \<Rightarrow> 16 word" where
  "as_u16 OK = 200"
| "as_u16 NO_CONTENT = 204"
| "as_u16 SWITCHING_PROTOCOLS = 101"
| "as_u16 BAD_REQUEST = 400"
| "as_u16 UNAUTHORIZED = 401"
| "as_u16 FORBIDDEN = 403"
| "as_u16 CONFLICT = 409"
| "as_u16 INTERNAL_SERVER_ERROR = 500"

definition is_success :: "StatusCode \<Rightarrow> bool" where
  "is_success s \<longleftrightarrow> 200 \<le> as_u16 s \<and> as_u16 s < 300"

record Response =
  resp_status :: StatusCode
  resp_body :: bytes
  resp_sig :: "bytes option"

record AppState =
  st_home :: HomeServer
  st_groups :: GroupHost

type_synonym headers = "bytes \<Rightarrow> bytes option"
type_synonym reply = "Response \<times> AppState"

definition BODY_LIMIT :: nat where "BODY_LIMIT = 18000000"

definition status :: "StatusCode \<Rightarrow> Response" where
  "status s = \<lparr>resp_status = s, resp_body = [], resp_sig = None\<rparr>"

definition octets :: "bytes \<Rightarrow> Response" where
  "octets bs = \<lparr>resp_status = OK, resp_body = bs, resp_sig = None\<rparr>"

definition cbor_ok :: "Value \<Rightarrow> Response" where
  "cbor_ok v = octets (encode v)"

definition denied :: StatusCode where
  "denied = FORBIDDEN"

fun http_err :: "ServerError \<Rightarrow> StatusCode" where
  "http_err AlreadyRegistered = CONFLICT"
| "http_err OwnerAuth = UNAUTHORIZED"
| "http_err FetchLimit = BAD_REQUEST"
| "http_err (Wire _) = BAD_REQUEST"
| "http_err _ = denied"

text \<open>An early return with a status, and a call into the home server or the group host.\<close>

definition require :: "'e + 'a \<Rightarrow> StatusCode \<Rightarrow> AppState \<Rightarrow> ('a \<Rightarrow> reply) \<Rightarrow> reply" where
  "require m s st f = (case m of Err _ \<Rightarrow> (status s, st) | Ok x \<Rightarrow> f x)"

definition at_home :: "(HomeServer \<Rightarrow> 'a sresult) \<Rightarrow> (ServerError \<Rightarrow> StatusCode) \<Rightarrow> AppState \<Rightarrow> ('a \<Rightarrow> AppState \<Rightarrow> reply) \<Rightarrow> reply" where
  "at_home f err st k =
     (case f (st_home st) of
        (Err e, h) \<Rightarrow> (status (err e), st\<lparr>st_home := h\<rparr>)
      | (Ok x, h) \<Rightarrow> k x (st\<lparr>st_home := h\<rparr>))"

definition at_groups :: "(GroupHost \<Rightarrow> 'a gresult) \<Rightarrow> AppState \<Rightarrow> ('a \<Rightarrow> AppState \<Rightarrow> reply) \<Rightarrow> reply" where
  "at_groups f st k =
     (case f (st_groups st) of
        (Err e, g) \<Rightarrow> (status (http_err e), st\<lparr>st_groups := g\<rparr>)
      | (Ok x, g) \<Rightarrow> k x (st\<lparr>st_groups := g\<rparr>))"

definition home_now :: "u64 \<Rightarrow> AppState \<Rightarrow> AppState" where
  "home_now t st = st\<lparr>st_home := (st_home st)\<lparr>hs_now := t\<rparr>\<rparr>"

definition groups_now :: "u64 \<Rightarrow> AppState \<Rightarrow> AppState" where
  "groups_now t st = st\<lparr>st_groups := (st_groups st)\<lparr>gh_now := t\<rparr>\<rparr>"

section \<open>Reading requests\<close>

definition http_decode_map :: "bytes \<Rightarrow> (u64 \<times> Value) list option" where
  "http_decode_map body = (case decode body of Ok (Map m) \<Rightarrow> Some m | _ \<Rightarrow> None)"

definition read_key :: "(u64 \<times> Value) list \<Rightarrow> u64 \<Rightarrow> ServerError + key" where
  "read_key m k = map_err Wire (get_fixed KEY_LEN m k)"

definition read_uint :: "(u64 \<times> Value) list \<Rightarrow> u64 \<Rightarrow> ServerError + u64" where
  "read_uint m k = map_err Wire (get_uint m k)"

definition read_bytes :: "(u64 \<times> Value) list \<Rightarrow> u64 \<Rightarrow> ServerError + bytes" where
  "read_bytes m k = map_err Wire (get_bytes m k)"

definition read_cred :: "(u64 \<times> Value) list \<Rightarrow> ServerError + MemberCred" where
  "read_cred m = rbind (read_key m 0) (\<lambda>cid. rbind (read_key m 1) (\<lambda>secret. Ok \<lparr>mc_id = cid, mc_secret = secret\<rparr>))"

definition parse_key_hex :: "bytes \<Rightarrow> key option" where
  "parse_key_hex s = (case rbind (from_hex s) (copy_fixed KEY_LEN) of Ok k \<Rightarrow> Some k | Err _ \<Rightarrow> None)"

definition parse_group_id :: "bytes \<Rightarrow> key option" where
  "parse_group_id s = parse_key_hex s"

definition owner_id :: "MailboxOwnerAuth \<Rightarrow> key option" where
  "owner_id auth = (case copy_fixed ID_LEN (mo_mailbox_hint auth) of Ok k \<Rightarrow> Some k | Err _ \<Rightarrow> None)"

definition header_owner :: "headers \<Rightarrow> MailboxOwnerAuth option" where
  "header_owner hds = Option.bind (hds (str_bytes ''nemo-owner'')) (\<lambda>raw.
     case rbind (from_hex raw) mo_decode of Ok a \<Rightarrow> Some a | Err _ \<Rightarrow> None)"

definition require_owner :: "headers \<Rightarrow> StatusCode + (key \<times> MailboxOwnerAuth)" where
  "require_owner hds = rbind (ok_or (header_owner hds) UNAUTHORIZED) (\<lambda>auth.
     rbind (ok_or (owner_id auth) BAD_REQUEST) (\<lambda>owner. Ok (owner, auth)))"

definition header_token :: "headers \<Rightarrow> bytes \<Rightarrow> key option" where
  "header_token hds name = Option.bind (hds name) parse_key_hex"

definition header_cred :: "headers \<Rightarrow> MemberCred option" where
  "header_cred hds = Option.bind (header_token hds (str_bytes ''nemo-cred-id'')) (\<lambda>cid.
     Option.bind (header_token hds (str_bytes ''nemo-cred-secret'')) (\<lambda>secret. Some \<lparr>mc_id = cid, mc_secret = secret\<rparr>))"

definition fanout_ok :: "HomeServer \<Rightarrow> key \<Rightarrow> key \<Rightarrow> bool" where
  "fanout_ok home cap hpke =
     (case capability_mailbox home cap of
        Some _ \<Rightarrow> hpke = kp_public (hs_hpke home)
      | None \<Rightarrow> hpke \<noteq> kp_public (hs_hpke home) \<and> fanout_hpke_allowed home hpke)"

text \<open>\<open>match require_owner(&headers) { Ok(v) => v, Err(s) => return s }\<close>.\<close>

definition with_owner :: "headers \<Rightarrow> AppState \<Rightarrow> (key \<Rightarrow> MailboxOwnerAuth \<Rightarrow> reply) \<Rightarrow> reply" where
  "with_owner hds st f = (case require_owner hds of Err s \<Rightarrow> (status s, st) | Ok (owner, auth) \<Rightarrow> f owner auth)"

section \<open>Handlers of the home server\<close>

definition h_bundle :: "AppState \<Rightarrow> reply" where
  "h_bundle st = (octets (sb_encode (hs_bundle (st_home st))), st)"

definition h_register :: "crypto \<Rightarrow> (nat \<Rightarrow> u64) \<Rightarrow> bytes \<Rightarrow> AppState \<Rightarrow> reply" where
  "h_register C T body st =
     require (cc_decode body) BAD_REQUEST st (\<lambda>card.
     at_home (register_from_card C card) http_err (home_now (T 0) st) (\<lambda>_ st. (status NO_CONTENT, st)))"

definition h_binding :: "crypto \<Rightarrow> (nat \<Rightarrow> u64) \<Rightarrow> bytes \<Rightarrow> AppState \<Rightarrow> reply" where
  "h_binding C T body st =
     require (cc_decode body) BAD_REQUEST st (\<lambda>card.
     at_home (observe_binding C (cc_identity_id C card) (cc_binding card)) http_err (home_now (T 0) st)
       (\<lambda>_ st. (status NO_CONTENT, st)))"

definition encode_discovery :: "DiscoveryRow \<Rightarrow> bytes" where
  "encode_discovery row = dr_encode \<lparr>dr_identity_public = dy_identity_public row, dr_revocation_public = dy_revocation_public row,
     dr_binding = dy_binding row, dr_revocation = dy_revocation row\<rparr>"

definition h_discovery :: "bytes \<Rightarrow> AppState \<Rightarrow> reply" where
  "h_discovery ident st =
     require (parse_identity_id ident) BAD_REQUEST st (\<lambda>i.
     require (discovery (st_home st) i) denied st (\<lambda>row. (octets (encode_discovery row), st)))"

definition h_fetch_prekey :: "(nat \<Rightarrow> u64) \<Rightarrow> headers \<Rightarrow> AppState \<Rightarrow> reply" where
  "h_fetch_prekey T hds st =
     require (ok_or (header_token hds (str_bytes ''nemo-token'')) ()) denied st (\<lambda>tok.
     at_home (fetch_prekey tok) (\<lambda>_. denied) (home_now (T 0) st) (\<lambda>blob st. (octets blob, st)))"

definition h_upload_prekey :: "crypto \<Rightarrow> (nat \<Rightarrow> u64) \<Rightarrow> headers \<Rightarrow> bytes \<Rightarrow> AppState \<Rightarrow> reply" where
  "h_upload_prekey C T hds body st =
     with_owner hds st (\<lambda>owner auth.
     let st = home_now (T 0) st;
         scope = scope_header C (hs_server_id C (st_home st)) (str_bytes ''POST'') (str_bytes ''/v1/prekeys'') body in
     at_home (check_owner C owner auth (T 1) scope) http_err st (\<lambda>_ st.
     at_home (publish_prekey owner body) http_err st (\<lambda>_ st. (status NO_CONTENT, st))))"

definition h_post_envelope :: "crypto \<Rightarrow> (nat \<Rightarrow> u64) \<Rightarrow> headers \<Rightarrow> bytes \<Rightarrow> AppState \<Rightarrow> reply" where
  "h_post_envelope C T hds body st =
     with_owner hds st (\<lambda>owner auth.
     require (oe_decode body) BAD_REQUEST st (\<lambda>outer.
     at_home (enqueue_from_owner C owner auth (T 1) outer) http_err (home_now (T 0) st) (\<lambda>e st.
       case e of
         Local seq \<Rightarrow> (cbor_ok (Map [(0, Text (str_bytes ''ok'')), (1, Uint seq)]), st)
       | Queued \<Rightarrow> (cbor_ok (Map [(0, Text (str_bytes ''queued''))]), st))))"

text \<open>The rows of a fetch as CBOR; a row that does not encode is left out.\<close>

definition fetch_items :: "StoredEnvelope list \<Rightarrow> Value list" where
  "fetch_items rows = List.map_filter (\<lambda>r.
     case encode_padded (se_inner r) of
       Ok inner \<Rightarrow> Some (Map [(0, Uint (se_seq r)), (1, Bytes inner)])
     | Err _ \<Rightarrow> None) rows"

definition h_mailbox_fetch :: "crypto \<Rightarrow> (nat \<Rightarrow> u64) \<Rightarrow> bytes \<Rightarrow> AppState \<Rightarrow> reply" where
  "h_mailbox_fetch C T body st =
     require (mo_decode body) BAD_REQUEST st (\<lambda>auth.
     require (ok_or (owner_id auth) ()) BAD_REQUEST st (\<lambda>owner.
     at_home (fetch C owner auth (T 1)) http_err (home_now (T 0) st)
       (\<lambda>rows st. (cbor_ok (Array (fetch_items rows)), st))))"

definition h_mailbox_ack :: "crypto \<Rightarrow> (nat \<Rightarrow> u64) \<Rightarrow> bytes \<Rightarrow> AppState \<Rightarrow> reply" where
  "h_mailbox_ack C T body st =
     require (mo_decode body) BAD_REQUEST st (\<lambda>auth.
     require (ok_or (owner_id auth) ()) BAD_REQUEST st (\<lambda>owner.
     at_home (ack C owner auth (T 1)) http_err (home_now (T 0) st) (\<lambda>_ st. (status NO_CONTENT, st))))"

text \<open>\<open>random\<close> is the new token.\<close>

definition h_mint_token :: "crypto \<Rightarrow> (nat \<Rightarrow> u64) \<Rightarrow> key \<Rightarrow> headers \<Rightarrow> bool \<Rightarrow> AppState \<Rightarrow> reply" where
  "h_mint_token C T random hds share st =
     with_owner hds st (\<lambda>owner auth.
     let st = home_now (T 0) st;
         path = (if share then str_bytes ''/v1/tokens/share'' else str_bytes ''/v1/tokens/contact'');
         scope = scope_header C (hs_server_id C (st_home st)) (str_bytes ''POST'') path [] in
     at_home (check_owner C owner auth (T 1) scope) http_err st (\<lambda>_ st.
     at_home (if share then mint_share_token random owner None else mint_contact_capability random owner) http_err st
       (\<lambda>tok st. (cbor_ok (Map [(0, Bytes tok)]), st))))"

definition h_mint_share :: "crypto \<Rightarrow> (nat \<Rightarrow> u64) \<Rightarrow> key \<Rightarrow> headers \<Rightarrow> AppState \<Rightarrow> reply" where
  "h_mint_share C T random hds st = h_mint_token C T random hds True st"

definition h_mint_contact :: "crypto \<Rightarrow> (nat \<Rightarrow> u64) \<Rightarrow> key \<Rightarrow> headers \<Rightarrow> AppState \<Rightarrow> reply" where
  "h_mint_contact C T random hds st = h_mint_token C T random hds False st"

text \<open>
  The loop of \<open>revocation\<close> over the groups the home server returned: the frame's copies,
  the value of \<open>append_host_revocation\<close>, are dropped.
\<close>

fun revoke_groups :: "crypto \<Rightarrow> (nat \<Rightarrow> nat \<Rightarrow> key \<times> bytes) \<Rightarrow> nat \<Rightarrow> RevocationStatement \<Rightarrow> key list \<Rightarrow> GroupHost \<Rightarrow> GroupHost" where
  "revoke_groups C rnd i stmt [] g = g"
| "revoke_groups C rnd i stmt (gid # gids) g =
     revoke_groups C rnd (Suc i) stmt gids (snd (append_host_revocation C (rnd i) gid stmt g))"

definition h_revocation :: "crypto \<Rightarrow> (nat \<Rightarrow> u64) \<Rightarrow> (nat \<Rightarrow> nat \<Rightarrow> key \<times> bytes) \<Rightarrow> bytes \<Rightarrow> AppState \<Rightarrow> reply" where
  "h_revocation C T rnd body st =
     require (rs_decode body) BAD_REQUEST st (\<lambda>stmt.
     at_home (ingest_revocation C stmt) http_err (home_now (T 0) st) (\<lambda>gids st.
     let st = groups_now (T 1) st in
     (status NO_CONTENT, st\<lparr>st_groups := revoke_groups C rnd 0 stmt gids (st_groups st)\<rparr>)))"

section \<open>TURN credentials\<close>

definition TURN_TTL_SECS :: u64 where "TURN_TTL_SECS = 3600"

record TurnCred =
  tc_url :: bytes
  tc_username :: bytes
  tc_credential :: bytes
  tc_ttl_secs :: u64

text \<open>\<open>format!("{n}")\<close> of an integer: its decimal digits.\<close>

fun decimal :: "nat \<Rightarrow> bytes" where
  "decimal n = (if n < 10 then [of_nat (48 + n)] else decimal (n div 10) @ [of_nat (48 + n mod 10)])"

text \<open>
  \<open>mac\<close> is the HMAC-SHA1 under the server's secret, \<open>b64\<close> the standard Base64 encoding,
  \<open>url\<close> the variable \<open>NEMO_TURN_URL\<close>.
\<close>

definition turn_issue :: "(bytes \<Rightarrow> bytes) \<Rightarrow> (bytes \<Rightarrow> bytes) \<Rightarrow> bytes option \<Rightarrow> u64 \<Rightarrow> bytes \<Rightarrow> TurnCred" where
  "turn_issue mac b64 url now nonce =
     (let expiry = saturating_add now TURN_TTL_SECS;
          username = decimal (unat expiry) @ str_bytes '':'' @ to_hex nonce in
      \<lparr>tc_url = (case url of Some u \<Rightarrow> u | None \<Rightarrow> str_bytes ''turn:127.0.0.1:3478''), tc_username = username,
       tc_credential = b64 (mac username), tc_ttl_secs = TURN_TTL_SECS\<rparr>)"

definition h_issue_turn :: "crypto \<Rightarrow> (nat \<Rightarrow> u64) \<Rightarrow> TurnCred \<Rightarrow> headers \<Rightarrow> AppState \<Rightarrow> reply" where
  "h_issue_turn C T cred hds st =
     with_owner hds st (\<lambda>owner auth.
     let scope = scope_header C (hs_server_id C (st_home st)) (str_bytes ''POST'') (str_bytes ''/v1/turn'') [] in
     at_home (check_owner C owner auth (T 0) scope) http_err st (\<lambda>_ st.
       (cbor_ok (Map [(0, Text (tc_url cred)), (1, Text (tc_username cred)), (2, Text (tc_credential cred)),
          (3, Uint (tc_ttl_secs cred))]), st)))"

section \<open>Wake-ups\<close>

text \<open>Time in nanoseconds, as \<open>Instant\<close> has it.\<close>

definition WAKE_COALESCE :: nat where "WAKE_COALESCE = 10 * 10 ^ 9"

definition h_wakeup :: "crypto \<Rightarrow> (nat \<Rightarrow> u64) \<Rightarrow> headers \<Rightarrow> AppState \<Rightarrow> reply" where
  "h_wakeup C T hds st =
     with_owner hds st (\<lambda>owner auth.
     let scope = scope_header C (hs_server_id C (st_home st)) (str_bytes ''GET'') (str_bytes ''/v1/wakeup'') [] in
     at_home (check_owner C owner auth (T 0) scope) http_err st (\<lambda>_ st. (status SWITCHING_PROTOCOLS, st)))"

record Wake =
  wk_last_seen :: u64
  wk_last_wake :: int

text \<open>\<open>run_wakeup\<close> starts with its last wake one window in the past.\<close>

definition wake_start :: "int \<Rightarrow> u64 \<Rightarrow> Wake" where
  "wake_start t cursor = \<lparr>wk_last_seen = cursor, wk_last_wake = t - int WAKE_COALESCE\<rparr>"

text \<open>One round of the loop at a time, with the mailbox head it reads: whether it sends an empty frame.\<close>

definition wake_round :: "int \<Rightarrow> u64 \<Rightarrow> Wake \<Rightarrow> bool \<times> Wake" where
  "wake_round t head w =
     (if head > wk_last_seen w \<and> t - wk_last_wake w \<ge> int WAKE_COALESCE
      then (True, \<lparr>wk_last_seen = head, wk_last_wake = t\<rparr>)
      else (False, w))"

section \<open>Handlers of the group host\<close>

text \<open>The \<open>Value\<close> of a map entry that is there only when the option is.\<close>

definition some_entry :: "u64 \<Rightarrow> key option \<Rightarrow> (u64 \<times> Value) list" where
  "some_entry k v = (case v of Some b \<Rightarrow> [(k, Bytes b)] | None \<Rightarrow> [])"

definition h_create_group :: "crypto \<Rightarrow> (nat \<Rightarrow> u64) \<Rightarrow> key \<times> key \<times> key \<Rightarrow> headers \<Rightarrow> bytes \<Rightarrow> AppState \<Rightarrow> reply" where
  "h_create_group C T rnd hds body st =
     with_owner hds st (\<lambda>owner auth.
     require (ok_or (http_decode_map body) ()) BAD_REQUEST st (\<lambda>m.
     require (read_key m 0) BAD_REQUEST st (\<lambda>spk.
     require (read_key m 1) BAD_REQUEST st (\<lambda>cap.
     require (read_key m 2) BAD_REQUEST st (\<lambda>hpke.
     let scope = scope_header C (hs_server_id C (st_home st)) (str_bytes ''POST'') (str_bytes ''/v1/groups'') body in
     at_home (check_owner C owner auth (T 0) scope) http_err st (\<lambda>_ st.
     if capability_mailbox (st_home st) cap \<noteq> Some owner \<or> \<not> fanout_ok (st_home st) cap hpke then (status denied, st)
     else
       at_groups (create_group_for C rnd spk \<lparr>ft_capability = cap, ft_hpke_public = hpke\<rparr> (Some owner)) (groups_now (T 1) st)
         (\<lambda>created st. (cbor_ok (Map [(0, Bytes (cg_group_id created)), (1, Bytes (mc_id (cg_cred created))),
            (2, Bytes (mc_secret (cg_cred created)))]), st))))))))"

text \<open>\<open>for outer in appended.outers { let _ = home.enqueue(outer); }\<close>\<close>

definition enqueue_all :: "crypto \<Rightarrow> OuterEnvelope list \<Rightarrow> HomeServer \<Rightarrow> HomeServer" where
  "enqueue_all C outers h = fold (\<lambda>outer h. snd (enqueue C outer h)) outers h"

definition h_group_append :: "crypto \<Rightarrow> (nat \<Rightarrow> u64) \<Rightarrow> (nat \<Rightarrow> key \<times> bytes) \<Rightarrow> bytes \<Rightarrow> bytes \<Rightarrow> AppState \<Rightarrow> reply" where
  "h_group_append C T rnd gid body st =
     require (ok_or (parse_group_id gid) ()) BAD_REQUEST st (\<lambda>gid.
     require (ok_or (http_decode_map body) ()) BAD_REQUEST st (\<lambda>m.
     require (read_key m 0) BAD_REQUEST st (\<lambda>cid.
     require (read_key m 1) BAD_REQUEST st (\<lambda>secret.
     require (read_uint m 2) BAD_REQUEST st (\<lambda>type_u.
     if type_u > 255 then (status BAD_REQUEST, st)
     else require (type_from_u8 (ucast type_u)) BAD_REQUEST st (\<lambda>ty.
     require (read_bytes m 3) BAD_REQUEST st (\<lambda>frame.
     at_groups (gh_append C rnd gid \<lparr>mc_id = cid, mc_secret = secret\<rparr> ty frame) (groups_now (T 0) st) (\<lambda>appended st.
     let st = home_now (T 1) st in
     (cbor_ok (Map [(0, Uint (sa_seq appended))]),
      st\<lparr>st_home := enqueue_all C (sa_outers appended) (st_home st)\<rparr>)))))))))"

definition h_group_invite :: "crypto \<Rightarrow> (nat \<Rightarrow> u64) \<Rightarrow> bytes \<Rightarrow> bytes \<Rightarrow> AppState \<Rightarrow> reply" where
  "h_group_invite C T gid body st =
     require (ok_or (parse_group_id gid) ()) BAD_REQUEST st (\<lambda>gid.
     require (ok_or (http_decode_map body) ()) BAD_REQUEST st (\<lambda>m.
     require (read_cred m) BAD_REQUEST st (\<lambda>cred.
     require (read_bytes m 2) BAD_REQUEST st (\<lambda>bs.
     require (gi_decode bs) BAD_REQUEST st (\<lambda>invite.
     at_groups (store_invite C gid cred invite) (groups_now (T 0) st) (\<lambda>_ st. (status NO_CONTENT, st)))))))"

definition h_group_accept :: "crypto \<Rightarrow> (nat \<Rightarrow> u64) \<Rightarrow> key \<times> key \<times> key \<Rightarrow> bytes \<Rightarrow> bytes \<Rightarrow> AppState \<Rightarrow> reply" where
  "h_group_accept C T rnd gid body st =
     require (ok_or (parse_group_id gid) ()) BAD_REQUEST st (\<lambda>gid.
     require (ok_or (http_decode_map body) ()) BAD_REQUEST st (\<lambda>m.
     require (read_key m 0) BAD_REQUEST st (\<lambda>nonce.
     at_groups (gh_accept C rnd gid nonce) (groups_now (T 0) st) (\<lambda>p st.
       (cbor_ok (Map ([(0, Bytes (pj_pending_id p)), (1, Bytes (mc_id (pj_cred p))), (2, Bytes (mc_secret (pj_cred p)))] @
          some_entry 3 (pj_binding p) @ some_entry 4 (pj_salt p))), st)))))"

definition h_group_admit :: "crypto \<Rightarrow> (nat \<Rightarrow> u64) \<Rightarrow> bytes \<Rightarrow> bytes \<Rightarrow> AppState \<Rightarrow> reply" where
  "h_group_admit C T gid body st =
     require (ok_or (parse_group_id gid) ()) BAD_REQUEST st (\<lambda>gid.
     require (ok_or (http_decode_map body) ()) BAD_REQUEST st (\<lambda>m.
     require (read_cred m) BAD_REQUEST st (\<lambda>admitter.
     require (read_bytes m 2) BAD_REQUEST st (\<lambda>bs.
     require (ga_decode bs) BAD_REQUEST st (\<lambda>adm.
     require (read_key m 3) BAD_REQUEST st (\<lambda>jpk.
     require (read_key m 4) BAD_REQUEST st (\<lambda>cap.
     require (read_key m 5) BAD_REQUEST st (\<lambda>hpke.
     if \<not> fanout_ok (st_home st) cap hpke then (status denied, st)
     else
       at_groups (admit C gid admitter adm jpk \<lparr>ft_capability = cap, ft_hpke_public = hpke\<rparr>) (groups_now (T 0) st)
         (\<lambda>cid st. (cbor_ok (Map [(0, Bytes cid)]), st))))))))))"

definition h_group_fanout :: "crypto \<Rightarrow> (nat \<Rightarrow> u64) \<Rightarrow> bytes \<Rightarrow> bytes \<Rightarrow> AppState \<Rightarrow> reply" where
  "h_group_fanout C T gid body st =
     require (ok_or (parse_group_id gid) ()) BAD_REQUEST st (\<lambda>gid.
     require (ok_or (http_decode_map body) ()) BAD_REQUEST st (\<lambda>m.
     require (read_cred m) BAD_REQUEST st (\<lambda>cred.
     require (read_key m 2) BAD_REQUEST st (\<lambda>cap.
     require (read_key m 3) BAD_REQUEST st (\<lambda>hpke.
     if \<not> fanout_ok (st_home st) cap hpke then (status FORBIDDEN, st)
     else
       at_groups (refresh_fanout C gid cred \<lparr>ft_capability = cap, ft_hpke_public = hpke\<rparr>) (groups_now (T 0) st)
         (\<lambda>_ st. (status NO_CONTENT, st)))))))"

definition h_group_upload_file :: "crypto \<Rightarrow> (nat \<Rightarrow> u64) \<Rightarrow> bytes \<Rightarrow> bytes \<Rightarrow> headers \<Rightarrow> bytes \<Rightarrow> AppState \<Rightarrow> reply" where
  "h_group_upload_file C T gid tok hds body st =
     require (ok_or (parse_group_id gid) ()) BAD_REQUEST st (\<lambda>gid.
     require (ok_or (parse_key_hex tok) ()) BAD_REQUEST st (\<lambda>tok.
     require (ok_or (header_cred hds) ()) denied st (\<lambda>cred.
     at_groups (upload_file C gid cred tok body) (groups_now (T 0) st) (\<lambda>_ st. (status NO_CONTENT, st)))))"

definition h_group_fetch_file :: "crypto \<Rightarrow> bytes \<Rightarrow> bytes \<Rightarrow> headers \<Rightarrow> AppState \<Rightarrow> reply" where
  "h_group_fetch_file C gid tok hds st =
     require (ok_or (parse_group_id gid) ()) BAD_REQUEST st (\<lambda>gid.
     require (ok_or (parse_key_hex tok) ()) BAD_REQUEST st (\<lambda>tok.
     require (ok_or (header_cred hds) ()) denied st (\<lambda>cred.
       case fetch_file C gid cred tok (st_groups st) of
         Ok blob \<Rightarrow> (octets blob, st)
       | Err e \<Rightarrow> (status (http_err e), st))))"

definition h_group_pending_lookup :: "crypto \<Rightarrow> bytes \<Rightarrow> bytes \<Rightarrow> AppState \<Rightarrow> reply" where
  "h_group_pending_lookup C gid body st =
     require (ok_or (parse_group_id gid) ()) BAD_REQUEST st (\<lambda>gid.
     require (ok_or (http_decode_map body) ()) BAD_REQUEST st (\<lambda>m.
     require (read_cred m) BAD_REQUEST st (\<lambda>cred.
     require (read_key m 2) BAD_REQUEST st (\<lambda>pid.
       case lookup_pending C gid cred pid (st_groups st) of
         Ok l \<Rightarrow> (cbor_ok (Map ([(0, Bytes (pl_credential_id l))] @ some_entry 1 (pl_binding l) @ some_entry 2 (pl_salt l))), st)
       | Err e \<Rightarrow> (status (http_err e), st)))))"

section \<open>Router and middleware\<close>

text \<open>The routes, with the path segments, headers and bodies their handlers read.\<close>

datatype Request =
    GetBundle
  | PostRegister bytes
  | PostBinding bytes
  | GetDiscovery bytes
  | GetPrekey headers
  | PostPrekey headers bytes
  | PostEnvelope headers bytes
  | PostFetch bytes
  | PostAck bytes
  | PostShare headers
  | PostContact headers
  | PostRevocation bytes
  | GetWakeup headers
  | PostTurn headers
  | PostGroup headers bytes
  | PostAppend bytes bytes
  | PostInvite bytes bytes
  | PostAccept bytes bytes
  | PostAdmit bytes bytes
  | PostFanout bytes bytes
  | PostLookup bytes bytes
  | GetFile bytes bytes headers
  | PostFile bytes bytes headers bytes

text \<open>What a request draws from outside: the clock, random tokens, the randomness of seals, a TURN credential.\<close>

record Draws =
  dw_clock :: "nat \<Rightarrow> u64"
  dw_keys :: "key \<times> key \<times> key"
  dw_seal :: "nat \<Rightarrow> nat \<Rightarrow> key \<times> bytes"
  dw_turn :: TurnCred

fun handle :: "crypto \<Rightarrow> Draws \<Rightarrow> Request \<Rightarrow> AppState \<Rightarrow> reply" where
  "handle C d GetBundle st = h_bundle st"
| "handle C d (PostRegister body) st = h_register C (dw_clock d) body st"
| "handle C d (PostBinding body) st = h_binding C (dw_clock d) body st"
| "handle C d (GetDiscovery i) st = h_discovery i st"
| "handle C d (GetPrekey hds) st = h_fetch_prekey (dw_clock d) hds st"
| "handle C d (PostPrekey hds body) st = h_upload_prekey C (dw_clock d) hds body st"
| "handle C d (PostEnvelope hds body) st = h_post_envelope C (dw_clock d) hds body st"
| "handle C d (PostFetch body) st = h_mailbox_fetch C (dw_clock d) body st"
| "handle C d (PostAck body) st = h_mailbox_ack C (dw_clock d) body st"
| "handle C d (PostShare hds) st = h_mint_share C (dw_clock d) (fst (dw_keys d)) hds st"
| "handle C d (PostContact hds) st = h_mint_contact C (dw_clock d) (fst (dw_keys d)) hds st"
| "handle C d (PostRevocation body) st = h_revocation C (dw_clock d) (dw_seal d) body st"
| "handle C d (GetWakeup hds) st = h_wakeup C (dw_clock d) hds st"
| "handle C d (PostTurn hds) st = h_issue_turn C (dw_clock d) (dw_turn d) hds st"
| "handle C d (PostGroup hds body) st = h_create_group C (dw_clock d) (dw_keys d) hds body st"
| "handle C d (PostAppend gid body) st = h_group_append C (dw_clock d) (dw_seal d 0) gid body st"
| "handle C d (PostInvite gid body) st = h_group_invite C (dw_clock d) gid body st"
| "handle C d (PostAccept gid body) st = h_group_accept C (dw_clock d) (dw_keys d) gid body st"
| "handle C d (PostAdmit gid body) st = h_group_admit C (dw_clock d) gid body st"
| "handle C d (PostFanout gid body) st = h_group_fanout C (dw_clock d) gid body st"
| "handle C d (PostLookup gid body) st = h_group_pending_lookup C gid body st"
| "handle C d (GetFile gid tok hds) st = h_group_fetch_file C gid tok hds st"
| "handle C d (PostFile gid tok hds body) st = h_group_upload_file C (dw_clock d) gid tok hds body st"

definition is_get :: "Request \<Rightarrow> bool" where
  "is_get r = (case r of GetBundle \<Rightarrow> True | GetDiscovery _ \<Rightarrow> True | GetPrekey _ \<Rightarrow> True | GetWakeup _ \<Rightarrow> True
     | GetFile _ _ _ \<Rightarrow> True | _ \<Rightarrow> False)"

text \<open>Whether \<open>persist_after\<close> wakes the connections and writes the journal.\<close>

definition persists :: "Request \<Rightarrow> Response \<Rightarrow> bool" where
  "persists r resp \<longleftrightarrow>
     (\<not> is_get r \<or> (case r of GetPrekey _ \<Rightarrow> True | _ \<Rightarrow> False)) \<and> (case r of PostTurn _ \<Rightarrow> False | _ \<Rightarrow> True) \<and>
     is_success (resp_status resp)"

text \<open>\<open>sign_after\<close>: the response is signed when the request carries a nonce.\<close>

definition sign_after :: "crypto \<Rightarrow> headers \<Rightarrow> reply \<Rightarrow> reply" where
  "sign_after C hds rs =
     (case header_token hds (str_bytes ''nemo-nonce'') of
        None \<Rightarrow> rs
      | Some nonce \<Rightarrow>
          (let (res, st) = rs in
           if length (resp_body res) > BODY_LIMIT then (status INTERNAL_SERVER_ERROR, st)
           else
             (case sign_response C (hs_sign (st_home st)) nonce (as_u16 (resp_status res)) (resp_body res) of
                Err _ \<Rightarrow> (status INTERNAL_SERVER_ERROR, st)
              | Ok s \<Rightarrow> (res\<lparr>resp_sig := Some (to_hex s)\<rparr>, st))))"

definition serve :: "crypto \<Rightarrow> Draws \<Rightarrow> headers \<Rightarrow> Request \<Rightarrow> AppState \<Rightarrow> reply" where
  "serve C d hds r st = sign_after C hds (handle C d r st)"

section \<open>The key file\<close>

text \<open>The contents \<open>identity.rs\<close> writes and reads; \<open>Corrupt\<close> carries its message.\<close>

definition id_save :: "crypto \<Rightarrow> HpkeKeypair \<Rightarrow> bytes \<Rightarrow> bytes" where
  "id_save C kp sk = encode (Map
     [(0, Bytes (kp_secret kp)), (1, Bytes (kp_public kp)), (2, Bytes sk), (3, Bytes (lib_ed_public C sk))])"

definition id_read :: "(u64 \<times> Value) list \<Rightarrow> u64 \<Rightarrow> string + key" where
  "id_read m k =
     rbind (map_err (\<lambda>_. ''field'') (map_get m k)) (\<lambda>v.
     rbind (map_err (\<lambda>_. ''bytes'') (expect_bytes v)) (\<lambda>b.
     map_err (\<lambda>_. ''len'') (copy_fixed KEY_LEN b)))"

definition id_load :: "crypto \<Rightarrow> bytes \<Rightarrow> string + HpkeKeypair \<times> bytes" where
  "id_load C bs =
     rbind (map_err (\<lambda>_. ''cbor'') (decode bs)) (\<lambda>v.
     case v of
       Map m \<Rightarrow>
         rbind (id_read m 0) (\<lambda>secret.
         rbind (id_read m 1) (\<lambda>public.
         rbind (id_read m 2) (\<lambda>sk.
         rbind (id_read m 3) (\<lambda>spk.
           if lib_ed_public C sk \<noteq> spk then Err ''sign mismatch''
           else Ok (\<lparr>kp_public = public, kp_secret = secret\<rparr>, sk)))))
     | _ \<Rightarrow> Err ''map'')"

end
