(* ===== verification/Http_Props.thy ===== *)
theory Http_Props
  imports Http Federation Home_Props Group_Props
begin

text \<open>
  What the client API guarantees: the invariants of both halves of the server in every state
  that requests lead to, who may use which route, what becomes of a group message, signed
  responses, wake-ups and the key file.
\<close>

section \<open>Runs of the server\<close>

text \<open>The credentials of all groups, and the group memberships the home server has on record.\<close>

definition members :: "GroupHost \<Rightarrow> nat" where
  "members g = sum_list (map (\<lambda>(gid, gs). length (gs_creds gs)) (gh_groups g))"

definition memberships :: "HomeServer \<Rightarrow> nat" where
  "memberships h = sum_list (map (\<lambda>(i, l). length l) (hs_memberships h))"

text \<open>
  A bound on what one request appends: a message and a copy for each member, or one statement
  in each group of a revoked identity.
\<close>

definition weight :: "AppState \<Rightarrow> nat" where
  "weight st = 1 + members (st_groups st) + memberships (st_home st)"

text \<open>The clock does not run backwards for the group host, and a new group's random id is one that is not in use.\<close>

definition draws_ok :: "Draws \<Rightarrow> AppState \<Rightarrow> bool" where
  "draws_ok d st \<longleftrightarrow> gh_now (st_groups st) \<le> dw_clock d 0 \<and> gh_now (st_groups st) \<le> dw_clock d 1 \<and>
     hm_get (gh_groups (st_groups st)) (fst (dw_keys d)) = None"

inductive served :: "crypto \<Rightarrow> nat \<Rightarrow> AppState \<Rightarrow> AppState \<Rightarrow> bool" for C where
  start: "served C 0 st st"
| request: "served C n st st' \<Longrightarrow> draws_ok d st' \<Longrightarrow> served C (n + weight st') st (snd (handle C d r st'))"

definition server_inv :: "nat \<Rightarrow> AppState \<Rightarrow> bool" where
  "server_inv n st \<longleftrightarrow> home_inv n (st_home st) \<and> group_inv n (st_groups st)"

section \<open>Lemmas\<close>

subsection \<open>Combinators\<close>

text \<open>A property of the state that early returns keep and that calls into either half may change.\<close>

lemma snd_require: "P st \<Longrightarrow> (\<And>x. m = Ok x \<Longrightarrow> P (snd (f x))) \<Longrightarrow> P (snd (require m s st f))"
  by (cases m) (simp_all add: require_def)

lemma snd_at_home:
  "P (st\<lparr>st_home := snd (f (st_home st))\<rparr>) \<Longrightarrow>
   (\<And>x h. f (st_home st) = (Ok x, h) \<Longrightarrow> P (st\<lparr>st_home := h\<rparr>) \<Longrightarrow> P (snd (k x (st\<lparr>st_home := h\<rparr>)))) \<Longrightarrow>
   P (snd (at_home f err st k))"
  by (cases "f (st_home st)"; cases "fst (f (st_home st))") (auto simp: at_home_def)

lemma snd_at_groups:
  "P (st\<lparr>st_groups := snd (f (st_groups st))\<rparr>) \<Longrightarrow>
   (\<And>x g. f (st_groups st) = (Ok x, g) \<Longrightarrow> P (st\<lparr>st_groups := g\<rparr>) \<Longrightarrow> P (snd (k x (st\<lparr>st_groups := g\<rparr>)))) \<Longrightarrow>
   P (snd (at_groups f st k))"
  by (cases "f (st_groups st)"; cases "fst (f (st_groups st))") (auto simp: at_groups_def)

lemma snd_with_owner: "P st \<Longrightarrow> (\<And>owner auth. require_owner hds = Ok (owner, auth) \<Longrightarrow> P (snd (f owner auth))) \<Longrightarrow> P (snd (with_owner hds st f))"
  by (auto simp: with_owner_def split: sum.split)

lemma snd_if: "(b \<Longrightarrow> P (snd x)) \<Longrightarrow> (\<not> b \<Longrightarrow> P (snd y)) \<Longrightarrow> P (snd (if b then x else y))"
  by simp

lemmas keeps_inv = snd_require [where P = "server_inv n" for n] snd_at_home [where P = "server_inv n" for n]
  snd_at_groups [where P = "server_inv n" for n] snd_with_owner [where P = "server_inv n" for n] snd_if [where P = "server_inv n" for n]

subsection \<open>The invariant\<close>

lemma server_inv_mono: "server_inv n st \<Longrightarrow> n \<le> n' \<Longrightarrow> server_inv n' st"
  by (auto simp: server_inv_def home_inv_def intro: home_inv_mono group_inv_mono)

lemma inv_home_now [simp]: "server_inv n (home_now t st) = server_inv n st"
  by (simp add: server_inv_def home_now_def home_inv_def)

lemma st_home_now [simp]: "st_groups (home_now t st) = st_groups st" "st_home (groups_now t st) = st_home st"
  by (simp_all add: home_now_def groups_now_def)

lemma inv_groups_now: "server_inv n st \<Longrightarrow> gh_now (st_groups st) \<le> t \<Longrightarrow> server_inv n (groups_now t st)"
  by (simp add: server_inv_def groups_now_def inv_clock)

lemma inv_st_home: "server_inv n st \<Longrightarrow> home_invg {} n h \<Longrightarrow> server_inv n (st\<lparr>st_home := h\<rparr>)"
  by (simp add: server_inv_def home_inv_def)

lemma inv_st_groups: "server_inv n st \<Longrightarrow> group_inv n g \<Longrightarrow> server_inv n (st\<lparr>st_groups := g\<rparr>)"
  by (simp add: server_inv_def)

lemma server_invD: "server_inv n st \<Longrightarrow> home_invg {} n (st_home st)" "server_inv n st \<Longrightarrow> group_inv n (st_groups st)"
  by (simp_all add: server_inv_def home_inv_def)

lemmas home_keeps = inv_register_from_card inv_observe_binding inv_fetch_prekey inv_check_owner inv_publish_prekey
  inv_fetch inv_ack inv_mint_share_token inv_mint_contact inv_ingest_revocation
lemmas group_keeps = inv_store_invite inv_accept inv_admit inv_refresh_fanout inv_upload

lemma inv_enqueue_all:
  assumes "home_invg {} n h" "n + length outers + 1 < 2 ^ 64"
  shows "home_invg {} (n + length outers) (enqueue_all C outers h)"
  using assms unfolding enqueue_all_def
proof (induction outers arbitrary: n h)
  case (Cons o' outers)
  then show ?case using Cons.IH [of "Suc n" "snd (enqueue C o' h)"] inv_enqueue [of n h C o'] by simp
qed simp

lemma inv_revoke_groups:
  assumes "group_inv n g" "n + length gids + 1 < 2 ^ 64" "length (rs_encode stmt) < 2 ^ 64"
  shows "group_inv (n + length gids) (revoke_groups C rnd i stmt gids g)"
  using assms
proof (induction C rnd i stmt gids g arbitrary: n rule: revoke_groups.induct)
  case (2 C rnd i stmt gid gids g)
  have "group_inv (Suc n) (snd (append_host_revocation C (rnd i) gid stmt g))"
    using inv_step [OF group_step.revocation] "2.prems" by simp
  then show ?case using "2.IH" [of "Suc n"] "2.prems" by simp
qed simp

subsection \<open>How much one request appends\<close>

lemma length_hm_insert_known: "hm_get m k = Some v0 \<Longrightarrow> length (hm_insert k v m) = length m"
  by (induction m) (auto simp: hm_get_def hm_insert_def split: if_splits)

lemma length_upd_cred [simp]: "length (gs_creds (upd_cred cid f g)) = length (gs_creds g)"
  by (simp add: upd_cred_def length_hm_insert_known split: option.split)

lemma length_fanout_targets: "length (fanout_targets g) \<le> length (gs_creds g)"
  by (simp add: fanout_targets_def List.map_filter_def)

lemma members_bound: "hm_get (gh_groups h) gid = Some g \<Longrightarrow> length (gs_creds g) \<le> members h"
  unfolding members_def hm_get_def by (rule member_le_sum_list, force dest: map_of_SomeD) simp

lemma fanout_outers:
  assumes "fanout_copy C rnd gid ty body h = (Ok out, h')"
  obtains g where "hm_get (gh_groups h) gid = Some g" "length (sa_outers out) \<le> length (gs_creds g)"
proof (cases "hm_get (gh_groups h) gid")
  case (Some g)
  then show ?thesis using that seal_copies_Ok [OF fanout_copy_Ok(4) [OF assms Some]] length_fanout_targets [of g] by simp
qed (use assms in \<open>simp add: fanout_copy_eq\<close>)

lemma append_outers:
  assumes "gh_append C rnd gid cred ty body h = (Ok out, h')"
  shows "length (sa_outers out) \<le> members h"
proof -
  have copy: "length (sa_outers out) \<le> members h" if "fanout_copy C rnd gid ty' body h = (Ok out, h'')" for ty' h''
    by (rule fanout_outers [OF that]) (use members_bound in \<open>force intro: order_trans\<close>)
  have replaced: "length (sa_outers out) \<le> members h"
    if rep: "apply_signing_replace C gid cred body h = (Ok u, h1)" and cp: "fanout_copy C rnd gid ty' body h1 = (Ok out, h'')" for ty' u h1 h''
  proof -
    obtain g1 where g1: "hm_get (gh_groups h1) gid = Some g1" "length (sa_outers out) \<le> length (gs_creds g1)"
      using cp by (rule fanout_outers)
    moreover obtain pk where "h1 = dirty_cred gid (mc_id cred) (upd_group_cred gid (mc_id cred) (\<lambda>r. r\<lparr>cr_signing_pk := Some pk\<rparr>) h)"
      using rep by (auto simp: apply_signing_replace_def sread_eq_Ok split: if_splits)
    ultimately obtain g where "hm_get (gh_groups h) gid = Some g" "length (gs_creds g1) = length (gs_creds g)"
      by (auto simp: upd_group_cred_def hm_get_insert_any split: option.splits)
    with g1(2) members_bound [of h gid g] show ?thesis by simp
  qed
  show ?thesis using assms
    by (auto simp: gh_append_def append_remove_def append_reserve_def Let_def sread_eq_Ok sbind_eq_Ok split: MessageType.splits if_splits
        intro: copy replaced)
qed

lemma revoked_groups:
  assumes "ingest_revocation C stmt h = (Ok gids, h')"
  shows "length gids \<le> memberships h"
proof -
  have "length l \<le> memberships h" if "hm_get (hs_memberships h) i = Some l" for i l
    unfolding memberships_def by (rule member_le_sum_list, use that in \<open>force simp: hm_get_def dest: map_of_SomeD\<close>) simp
  then show ?thesis using assms
    by (auto simp: ingest_revocation_def Let_def sread_eq_Ok disable_fields split: option.splits if_splits)
qed

lemma read_bytes_short:
  assumes "http_decode_map body = Some m" "read_bytes m k = Ok bs"
  shows "length bs < 2 ^ 64"
proof -
  have "wf_value (Map m)"
    using assms(1) by (intro decode_wf [of body]) (auto simp: http_decode_map_def split: sum.splits Value.splits)
  moreover have "(k, Bytes bs) \<in> set m" using assms(2) by (auto simp: read_bytes_def get_eq_Ok dest: map_get_opt_in)
  ultimately show ?thesis by force
qed

subsection \<open>Every request keeps the invariant\<close>

lemma inv_home_handlers:
  assumes st: "server_inv n st" and n: "n + 2 < 2 ^ 64"
  shows "server_inv n (snd (h_register C T body st))" "server_inv n (snd (h_binding C T body st))"
    "server_inv n (snd (h_discovery i st))" "server_inv n (snd (h_fetch_prekey T hds st))"
    "server_inv n (snd (h_upload_prekey C T hds body st))" "server_inv (Suc n) (snd (h_post_envelope C T hds body st))"
    "server_inv n (snd (h_mailbox_fetch C T body st))" "server_inv n (snd (h_mailbox_ack C T body st))"
    "server_inv n (snd (h_mint_token C T r hds share st))" "server_inv n (snd (h_wakeup C T hds st))"
    "server_inv n (snd (h_issue_turn C T cred hds st))"
proof -
  have keep: "server_inv n (st'\<lparr>st_home := h\<rparr>)" if "server_inv n st'" "home_invg {} n (st_home st') \<Longrightarrow> home_invg {} n h" for st' h
    using that inv_st_home server_invD(1) by blast
  have keep2: "server_inv n (st'\<lparr>st_home := h'\<rparr>)" if "server_inv n (st'\<lparr>st_home := h\<rparr>)" "home_invg {} n h \<Longrightarrow> home_invg {} n h'" for st' h h'
    using that by (auto simp: server_inv_def home_inv_def)
  have st': "server_inv n (home_now t st)" for t using st by simp
  show "server_inv n (snd (h_register C T body st))" unfolding h_register_def
    by (intro keeps_inv st keep [OF st'] home_keeps) simp_all
  show "server_inv n (snd (h_binding C T body st))" unfolding h_binding_def
    by (intro keeps_inv st keep [OF st'] home_keeps) simp_all
  show "server_inv n (snd (h_discovery i st))" unfolding h_discovery_def
    by (intro keeps_inv st) (simp_all add: st)
  show "server_inv n (snd (h_fetch_prekey T hds st))" unfolding h_fetch_prekey_def
    by (intro keeps_inv st keep [OF st'] home_keeps) simp_all
  show "server_inv n (snd (h_upload_prekey C T hds body st))" unfolding h_upload_prekey_def Let_def
    by (intro keeps_inv st keep [OF st'] home_keeps) (auto elim!: keep2 intro: home_keeps)
  show "server_inv n (snd (h_mailbox_fetch C T body st))" unfolding h_mailbox_fetch_def
    by (intro keeps_inv st keep [OF st'] home_keeps) simp_all
  show "server_inv n (snd (h_mailbox_ack C T body st))" unfolding h_mailbox_ack_def
    by (intro keeps_inv st keep [OF st'] home_keeps) simp_all
  show "server_inv n (snd (h_mint_token C T r hds share st))" unfolding h_mint_token_def Let_def
    by (intro keeps_inv st keep [OF st'] home_keeps) (auto elim!: keep2 intro: home_keeps)
  show "server_inv n (snd (h_wakeup C T hds st))" unfolding h_wakeup_def Let_def
    by (intro keeps_inv st keep [OF st] home_keeps) simp_all
  show "server_inv n (snd (h_issue_turn C T cred hds st))" unfolding h_issue_turn_def Let_def
    by (intro keeps_inv st keep [OF st] home_keeps) simp_all
  have "server_inv (Suc n) ((home_now t st)\<lparr>st_home := snd (enqueue_from_owner C owner auth now outer (st_home (home_now t st)))\<rparr>)" for t owner auth now outer
    by (rule inv_st_home [OF server_inv_mono [OF st']]) (use inv_enqueue_from_owner [OF server_invD(1) [OF st'] n] in simp_all)
  then show "server_inv (Suc n) (snd (h_post_envelope C T hds body st))" unfolding h_post_envelope_def
    by (intro keeps_inv server_inv_mono [OF st]) (auto split: Enqueue.split)
qed

lemma inv_group_handlers:
  assumes st: "server_inv n st" and now: "gh_now (st_groups st) \<le> T 0" "gh_now (st_groups st) \<le> T 1"
    and fresh: "hm_get (gh_groups (st_groups st)) (fst rnd) = None"
  shows "server_inv n (snd (h_create_group C T rnd hds body st))" "server_inv n (snd (h_group_invite C T gid body st))"
    "server_inv n (snd (h_group_accept C T rnd gid body st))" "server_inv n (snd (h_group_admit C T gid body st))"
    "server_inv n (snd (h_group_fanout C T gid body st))" "server_inv n (snd (h_group_upload_file C T gid tok hds body st))"
    "server_inv n (snd (h_group_fetch_file C gid tok hds st))" "server_inv n (snd (h_group_pending_lookup C gid body st))"
proof -
  have keep: "server_inv n (st'\<lparr>st_groups := g\<rparr>)" if "server_inv n st'" "group_inv n (st_groups st') \<Longrightarrow> group_inv n g" for st' g
    using that inv_st_groups server_invD(2) by blast
  have st0: "server_inv n (groups_now (T 0) st)" using inv_groups_now [OF st now(1)] .
  show "server_inv n (snd (h_group_invite C T gid body st))" unfolding h_group_invite_def
    by (intro keeps_inv st keep [OF st0] group_keeps) simp_all
  show "server_inv n (snd (h_group_accept C T rnd gid body st))" unfolding h_group_accept_def
    by (intro keeps_inv st keep [OF st0] group_keeps) simp_all
  show "server_inv n (snd (h_group_admit C T gid body st))" unfolding h_group_admit_def
    by (intro keeps_inv st keep [OF st0] group_keeps) (simp_all add: st)
  show "server_inv n (snd (h_group_fanout C T gid body st))" unfolding h_group_fanout_def
    by (intro keeps_inv st keep [OF st0] group_keeps) (simp_all add: st)
  show "server_inv n (snd (h_group_upload_file C T gid tok hds body st))" unfolding h_group_upload_file_def
    by (intro keeps_inv st keep [OF st0] group_keeps) simp_all
  show "server_inv n (snd (h_group_fetch_file C gid tok hds st))" unfolding h_group_fetch_file_def
    by (intro keeps_inv st) (simp add: st split: sum.split)
  show "server_inv n (snd (h_group_pending_lookup C gid body st))" unfolding h_group_pending_lookup_def
    by (intro keeps_inv st) (simp add: st split: sum.split)
  have new_group: "server_inv n (snd (at_groups (create_group_for C rnd spk ft creator) (groups_now (T 1) st') (\<lambda>created st. (k created, st))))"
    if "server_inv n st'" "st_groups st' = st_groups st" for st' spk ft creator k
  proof (intro keeps_inv keep [OF inv_groups_now [OF that(1)]])
    show "group_inv n (snd (create_group_for C rnd spk ft creator (st_groups (groups_now (T 1) st'))))"
      if "group_inv n (st_groups (groups_now (T 1) st'))"
      using inv_create [OF that] fresh \<open>st_groups st' = st_groups st\<close> by (simp add: groups_now_def)
  qed (simp_all add: that(2) now(2) del: One_nat_def)
  show "server_inv n (snd (h_create_group C T rnd hds body st))" unfolding h_create_group_def Let_def
    by (intro keeps_inv(1,2,4,5) new_group st inv_st_home [OF st] inv_check_owner server_invD(1)) (auto dest: server_invD(1))
qed

lemma inv_append_handler:
  assumes st: "server_inv n st" and now: "gh_now (st_groups st) \<le> T 0" and n: "n + weight st + 1 < 2 ^ 64"
  shows "server_inv (n + weight st) (snd (h_group_append C T rnd gid body st))"
proof -
  note mono = server_inv_mono [OF st le_add1]
  define st0 where "st0 = groups_now (T 0) st"
  have st0: "server_inv n st0" using inv_groups_now [OF st now] by (simp add: st0_def)
  have n1: "n + 2 < 2 ^ 64" using n by (simp add: weight_def)
  have le: "Suc n \<le> n + weight st" by (simp add: weight_def)
  have keep: "server_inv (n + weight st) (st0\<lparr>st_groups := snd (gh_append C rnd g cred ty frame (st_groups st0))\<rparr>)"
    if "length frame < 2 ^ 64" for g cred ty frame
    by (rule inv_st_groups [OF server_inv_mono [OF st0 le_add1] group_inv_mono [OF inv_append [OF server_invD(2) [OF st0] n1 that] le]])
  have home: "server_inv (n + weight st) ((home_now (T 1) (st0\<lparr>st_groups := g'\<rparr>))\<lparr>st_home :=
      enqueue_all C (sa_outers out) (st_home (home_now (T 1) (st0\<lparr>st_groups := g'\<rparr>)))\<rparr>)"
    if "gh_append C rnd g cred ty frame (st_groups st0) = (Ok out, g')" "server_inv (n + weight st) (st0\<lparr>st_groups := g'\<rparr>)" for g cred ty frame out g'
  proof (rule inv_st_home)
    show "server_inv (n + weight st) (home_now (T 1) (st0\<lparr>st_groups := g'\<rparr>))" using that(2) by simp
    have len: "length (sa_outers out) \<le> members (st_groups st)"
      using append_outers [OF that(1)] by (simp add: st0_def groups_now_def members_def)
    have "home_invg {} n (st_home (home_now (T 1) (st0\<lparr>st_groups := g'\<rparr>)))"
      using server_invD(1) [OF st0] by (simp add: home_now_def)
    from inv_enqueue_all [OF this, of "sa_outers out" C] show "home_invg {} (n + weight st) (enqueue_all C (sa_outers out) (st_home (home_now (T 1) (st0\<lparr>st_groups := g'\<rparr>))))"
      using len n by (auto simp: weight_def intro: home_inv_mono)
  qed
  show ?thesis unfolding h_group_append_def Let_def st0_def [symmetric]
    by (intro keeps_inv mono) (auto simp: mono simp del: One_nat_def intro!: keep home read_bytes_short)
qed

lemma inv_revocation_handler:
  assumes st: "server_inv n st" and now: "gh_now (st_groups st) \<le> T 1" and n: "n + weight st + 1 < 2 ^ 64"
  shows "server_inv (n + weight st) (snd (h_revocation C T rnd body st))"
proof -
  note mono = server_inv_mono [OF st le_add1]
  have "server_inv (n + weight st) (st'\<lparr>st_home := h, st_groups := revoke_groups C rnd 0 stmt gids (st_groups (groups_now (T 1) (st'\<lparr>st_home := h\<rparr>)))\<rparr>)"
    if "rs_decode body = Ok stmt" "ingest_revocation C stmt (st_home st') = (Ok gids, h)" "server_inv (n + weight st) (st'\<lparr>st_home := h\<rparr>)"
      "st' = home_now (T 0) st" for stmt gids h st'
  proof -
    have g: "group_inv n (st_groups (groups_now (T 1) (st'\<lparr>st_home := h\<rparr>)))"
      using inv_clock [OF server_invD(2) [OF st] now] that(4) by (simp add: groups_now_def)
    have len: "length gids \<le> memberships (st_home st)"
      using revoked_groups [OF that(2)] that(4) by (simp add: home_now_def memberships_def)
    have "length (rs_encode stmt) < 2 ^ 64" using rs_decode_wf [OF that(1)] by (rule length_rs_encode)
    from inv_revoke_groups [OF g _ this, of gids C rnd 0]
    have "group_inv (n + weight st) (revoke_groups C rnd 0 stmt gids (st_groups (groups_now (T 1) (st'\<lparr>st_home := h\<rparr>))))"
      using len n by (auto simp: weight_def intro: group_inv_mono)
    with that(3) show ?thesis by (simp add: server_inv_def)
  qed
  moreover have "server_inv (n + weight st) ((home_now (T 0) st)\<lparr>st_home := snd (ingest_revocation C stmt (st_home (home_now (T 0) st)))\<rparr>)" for stmt
    using mono by (intro inv_st_home) (auto intro!: inv_ingest_revocation server_invD(1))
  ultimately show ?thesis unfolding h_revocation_def Let_def
    by (intro keeps_inv mono) (auto simp: groups_now_def)
qed

lemma inv_handle:
  assumes st: "server_inv n st" and d: "draws_ok d st" and n: "n + weight st + 1 < 2 ^ 64"
  shows "server_inv (n + weight st) (snd (handle C d r st))"
proof -
  have n2: "n + 2 < 2 ^ 64" and le: "Suc n \<le> n + weight st" using n by (simp_all add: weight_def)
  have now: "gh_now (st_groups st) \<le> dw_clock d 0" "gh_now (st_groups st) \<le> dw_clock d 1"
    and fresh: "hm_get (gh_groups (st_groups st)) (fst (dw_keys d)) = None" using d by (simp_all add: draws_ok_def)
  note home = inv_home_handlers [OF st n2] and group = inv_group_handlers [where T = "dw_clock d", OF st now fresh]
  show ?thesis
    by (cases r) (simp_all add: h_bundle_def h_mint_share_def h_mint_contact_def server_inv_mono [OF st] server_inv_mono [OF home(6) le]
        server_inv_mono [OF home(1)] server_inv_mono [OF home(2)] server_inv_mono [OF home(3)] server_inv_mono [OF home(4)]
        server_inv_mono [OF home(5)] server_inv_mono [OF home(7)] server_inv_mono [OF home(8)] server_inv_mono [OF home(9)]
        server_inv_mono [OF home(10)] server_inv_mono [OF home(11)] server_inv_mono [OF group(1)] server_inv_mono [OF group(2)]
        server_inv_mono [OF group(3)] server_inv_mono [OF group(4)] server_inv_mono [OF group(5)] server_inv_mono [OF group(6)]
        server_inv_mono [OF group(7)] server_inv_mono [OF group(8)] inv_append_handler [where T = "dw_clock d", OF st now(1) n] inv_revocation_handler [where T = "dw_clock d", OF st now(2) n])
qed

lemma inv_served:
  "served C n st st' \<Longrightarrow> server_inv 0 st \<Longrightarrow> n + 1 < 2 ^ 64 \<Longrightarrow> server_inv n st'"
proof (induction rule: served.induct)
  case (request n st st' d r)
  then show ?case using inv_handle [of n st' d C r] by simp
qed simp

subsection \<open>Memberships\<close>

lemmas memb_sread = snd_sread [where P = "\<lambda>s. hs_memberships s = v" for v]
  and memb_sbind = snd_sbind [where P = "\<lambda>s. hs_memberships s = v" for v]

lemma memb_small_ops [simp]:
  "hs_memberships (mark_token t h) = hs_memberships h" "hs_memberships (mark_prekeys i h) = hs_memberships h"
  "hs_memberships (mark_memberships i h) = hs_memberships h" "hs_memberships (mark_outbound_dirty h) = hs_memberships h"
  "hs_memberships (set_token h t k) = hs_memberships h" "hs_memberships (gc_mailbox i h) = hs_memberships h"
  "hs_memberships (disable_mailbox i h) = hs_memberships h" "hs_memberships (snd (drop_tokens_exact dead h)) = hs_memberships h"
  "hs_memberships (gc_owner_nonces now h) = hs_memberships h" "hs_memberships (burn_if_share t h) = hs_memberships h"
  "hs_memberships (remember_enc e sq h) = hs_memberships h"
  by (auto simp: mark_defs put_mailbox_def set_token_def gc_mailbox_def disable_mailbox_def drop_tokens_exact_def
      gc_owner_nonces_def burn_if_share_def remember_enc_def Let_def split: option.split prod.split TokenKind.split)

lemma memb_tokens [simp]:
  "hs_memberships (snd (sweep_dead_tokens_for i h)) = hs_memberships h"
  "hs_memberships (snd (register_share_token i t ttl h)) = hs_memberships h" "hs_memberships (snd (register i pk h)) = hs_memberships h"
  "hs_memberships (snd (mint_contact_capability r i h)) = hs_memberships h" "hs_memberships (snd (check_owner C i auth now ex h)) = hs_memberships h"
  "hs_memberships (snd (mint_share_token r i ttl h)) = hs_memberships h"
  by (simp_all add: sweep_dead_tokens_for_def register_share_token_def register_def mint_share_token_def
      mint_contact_capability_def check_owner_def Let_def sread_def sbind_def split: sum.split prod.split)

lemma memb_append [simp]: "hs_memberships (snd (append_inner inner h)) = hs_memberships h"
proof -
  have "hs_memberships (snd (authorize_append t h)) = hs_memberships h" for t
    by (simp add: authorize_append_def Let_def split: option.split TokenKind.split)
  then show ?thesis unfolding append_inner_def Let_def
    by (intro memb_sread memb_sbind) (auto intro!: memb_sread split: option.split)
qed

lemma memb_ops [simp]:
  "hs_memberships (snd (enqueue C outer h)) = hs_memberships h" "hs_memberships (snd (fetch C i auth now h)) = hs_memberships h"
  "hs_memberships (snd (ack C i auth now h)) = hs_memberships h" "hs_memberships (snd (publish_prekey i blob h)) = hs_memberships h"
  "hs_memberships (snd (fetch_prekey t h)) = hs_memberships h" "hs_memberships (snd (observe_binding C i b h)) = hs_memberships h"
  "hs_memberships (snd (register_from_card C cc h)) = hs_memberships h"
  by (auto simp: enqueue_def ingest_def fetch_def ack_def publish_prekey_def fetch_prekey_def observe_binding_def register_from_card_def Let_def
      intro!: memb_sread memb_sbind split: option.split list.split TokenKind.split)

lemma memb_enqueue_owner [simp]: "hs_memberships (snd (enqueue_from_owner C i auth now outer h)) = hs_memberships h"
  unfolding enqueue_from_owner_def Let_def by (intro memb_sread memb_sbind) auto

lemma memb_enqueue_all [simp]: "hs_memberships (enqueue_all C outers h) = hs_memberships h"
  unfolding enqueue_all_def by (induction outers arbitrary: h) simp_all

lemma memb_revocation: "hs_memberships h = [] \<Longrightarrow> hs_memberships (snd (ingest_revocation C stmt h)) = []"
  unfolding ingest_revocation_def Let_def by (intro memb_sread) (auto simp: hm_remove_def)

lemmas keeps_memb = snd_require [where P = "\<lambda>s. hs_memberships (st_home s) = v" for v] snd_at_home [where P = "\<lambda>s. hs_memberships (st_home s) = v" for v]
  snd_at_groups [where P = "\<lambda>s. hs_memberships (st_home s) = v" for v] snd_with_owner [where P = "\<lambda>s. hs_memberships (st_home s) = v" for v]
  snd_if [where P = "\<lambda>s. hs_memberships (st_home s) = v" for v]

lemma memb_home_now [simp]: "hs_memberships (st_home (home_now t st)) = hs_memberships (st_home st)"
  by (simp add: home_now_def)

lemma memb_handle:
  assumes "hs_memberships (st_home st) = []"
  shows "hs_memberships (st_home (snd (handle C d r st))) = []"
proof (cases r)
  case (PostRevocation body)
  then show ?thesis unfolding PostRevocation handle.simps h_revocation_def Let_def
    by (intro keeps_memb) (use assms in \<open>auto simp: memb_revocation\<close>)
next
  case (PostAppend gid body)
  then show ?thesis unfolding PostAppend handle.simps h_group_append_def Let_def
    by (intro keeps_memb) (use assms in auto)
qed (use assms in \<open>auto simp: h_bundle_def h_register_def h_binding_def h_discovery_def h_fetch_prekey_def h_upload_prekey_def
      h_post_envelope_def h_mailbox_fetch_def h_mailbox_ack_def h_mint_share_def h_mint_contact_def h_mint_token_def h_wakeup_def
      h_issue_turn_def h_create_group_def h_group_invite_def h_group_accept_def h_group_admit_def h_group_fanout_def
      h_group_pending_lookup_def h_group_fetch_file_def h_group_upload_file_def Let_def
      intro!: keeps_memb split: sum.split Enqueue.split\<close>)

lemma memb_served: "served C n st st' \<Longrightarrow> hs_memberships (st_home st) = [] \<Longrightarrow> hs_memberships (st_home st') = []"
  by (induction rule: served.induct) (simp_all add: memb_handle)

subsection \<open>Owner routes\<close>

text \<open>The routes of a mailbox owner, with the authorisation a request carries, when it is checked and for which scope.\<close>

definition owner_route :: "Request \<Rightarrow> bool" where
  "owner_route r = (case r of PostPrekey _ _ \<Rightarrow> True | PostEnvelope _ _ \<Rightarrow> True | PostFetch _ \<Rightarrow> True | PostAck _ \<Rightarrow> True
     | PostShare _ \<Rightarrow> True | PostContact _ \<Rightarrow> True | GetWakeup _ \<Rightarrow> True | PostTurn _ \<Rightarrow> True | PostGroup _ _ \<Rightarrow> True | _ \<Rightarrow> False)"

definition owner_claim :: "Request \<Rightarrow> MailboxOwnerAuth option" where
  "owner_claim r = (case r of PostPrekey hds _ \<Rightarrow> header_owner hds | PostEnvelope hds _ \<Rightarrow> header_owner hds
     | PostFetch body \<Rightarrow> (case mo_decode body of Ok a \<Rightarrow> Some a | Err _ \<Rightarrow> None)
     | PostAck body \<Rightarrow> (case mo_decode body of Ok a \<Rightarrow> Some a | Err _ \<Rightarrow> None)
     | PostShare hds \<Rightarrow> header_owner hds | PostContact hds \<Rightarrow> header_owner hds | GetWakeup hds \<Rightarrow> header_owner hds
     | PostTurn hds \<Rightarrow> header_owner hds | PostGroup hds _ \<Rightarrow> header_owner hds | _ \<Rightarrow> None)"

definition owner_time :: "Draws \<Rightarrow> Request \<Rightarrow> u64" where
  "owner_time d r = (case r of GetWakeup _ \<Rightarrow> dw_clock d 0 | PostTurn _ \<Rightarrow> dw_clock d 0 | PostGroup _ _ \<Rightarrow> dw_clock d 0 | _ \<Rightarrow> dw_clock d 1)"

definition owner_scope :: "crypto \<Rightarrow> key \<Rightarrow> Request \<Rightarrow> AuthScope" where
  "owner_scope C sid r = (case r of
       PostPrekey _ body \<Rightarrow> scope_header C sid (str_bytes ''POST'') (str_bytes ''/v1/prekeys'') body
     | PostEnvelope _ body \<Rightarrow> scope_header C sid (str_bytes ''POST'') (str_bytes ''/v1/envelopes'') body
     | PostFetch _ \<Rightarrow> scope_body sid (str_bytes ''POST'') (str_bytes ''/v1/mailbox/fetch'')
     | PostAck _ \<Rightarrow> scope_body sid (str_bytes ''POST'') (str_bytes ''/v1/mailbox/ack'')
     | PostShare _ \<Rightarrow> scope_header C sid (str_bytes ''POST'') (str_bytes ''/v1/tokens/share'') []
     | PostContact _ \<Rightarrow> scope_header C sid (str_bytes ''POST'') (str_bytes ''/v1/tokens/contact'') []
     | GetWakeup _ \<Rightarrow> scope_header C sid (str_bytes ''GET'') (str_bytes ''/v1/wakeup'') []
     | PostTurn _ \<Rightarrow> scope_header C sid (str_bytes ''POST'') (str_bytes ''/v1/turn'') []
     | PostGroup _ body \<Rightarrow> scope_header C sid (str_bytes ''POST'') (str_bytes ''/v1/groups'') body
     | _ \<Rightarrow> scope_body sid [] [])"

text \<open>
  The request carries an authorisation naming an enabled mailbox, which verifies under its
  owner's key for this request and whose nonce was not seen.
\<close>

definition owner_ok :: "crypto \<Rightarrow> Draws \<Rightarrow> Request \<Rightarrow> AppState \<Rightarrow> bool" where
  "owner_ok C d r st \<longleftrightarrow> (\<exists>auth m. owner_claim r = Some auth \<and> hm_get (hs_mailboxes (st_home st)) (mo_mailbox_hint auth) = Some m \<and>
     \<not> mb_disabled m \<and> mo_verify C auth (mb_owner_pk m) (owner_time d r) (owner_scope C (hs_server_id C (st_home st)) r) = Ok () \<and>
     hm_get (hs_owner_nonces (gc_owner_nonces (owner_time d r) (st_home st))) (mo_nonce auth) = None)"

text \<open>Nothing but the clock and the nonces changed, and the client is told that it is not authorised or its request malformed.\<close>

definition refused :: "AppState \<Rightarrow> reply \<Rightarrow> bool" where
  "refused st rs \<longleftrightarrow> resp_status (fst rs) \<in> {UNAUTHORIZED, BAD_REQUEST} \<and>
     (\<exists>t ns. snd rs = st\<lparr>st_home := (st_home st)\<lparr>hs_now := t, hs_owner_nonces := ns\<rparr>\<rparr>)"

lemma refused_status: "s \<in> {UNAUTHORIZED, BAD_REQUEST} \<Longrightarrow> refused st (status s, st)"
  unfolding refused_def by (auto simp: status_def intro!: exI [of _ "hs_now (st_home st)"] exI [of _ "hs_owner_nonces (st_home st)"])

lemma check_owner_refuses:
  assumes "fst (check_owner C owner auth now ex h) \<noteq> Ok ()"
  obtains ns where "check_owner C owner auth now ex h = (Err OwnerAuth, h\<lparr>hs_owner_nonces := ns\<rparr>)"
proof -
  have "check_owner C owner auth now ex h = (Err OwnerAuth, h) \<or> check_owner C owner auth now ex h = (Err OwnerAuth, gc_owner_nonces now h)"
    using assms by (auto simp: check_owner_def Let_def sread_def split: sum.splits option.splits)
  then show ?thesis using that [of "hs_owner_nonces h"] that [of "hs_owner_nonces (gc_owner_nonces now h)"]
    by (auto simp: gc_owner_nonces_def)
qed

lemma check_owner_claims:
  assumes "fst (check_owner C owner auth now ex h) = Ok ()"
  shows "mo_mailbox_hint auth = owner \<and> (\<exists>m. hm_get (hs_mailboxes h) owner = Some m \<and> \<not> mb_disabled m \<and>
    mo_verify C auth (mb_owner_pk m) now ex = Ok () \<and> hm_get (hs_owner_nonces (gc_owner_nonces now h)) (mo_nonce auth) = None)"
  using assms by (auto simp: check_owner_def Let_def sread_def split: sum.splits option.splits if_splits)

lemma refused_at_home:
  "f h = (Err OwnerAuth, h\<lparr>hs_owner_nonces := ns\<rparr>) \<Longrightarrow> h = (st_home st)\<lparr>hs_now := t\<rparr> \<Longrightarrow>
   refused st (at_home f http_err (st\<lparr>st_home := h\<rparr>) k)"
  by (auto simp: at_home_def refused_def status_def)

text \<open>An operation that begins with the owner check, at a possibly new time, fails with it.\<close>

lemma refused_unless:
  assumes "\<not> owner_ok C d r st" "owner_claim r = Some auth" "owner = mo_mailbox_hint auth" "now = owner_time d r"
    and "scope = owner_scope C (hs_server_id C (st_home st)) r"
    and "\<And>ns. check_owner C owner auth now scope ((st_home st)\<lparr>hs_now := t\<rparr>) = (Err OwnerAuth, (st_home st)\<lparr>hs_now := t, hs_owner_nonces := ns\<rparr>) \<Longrightarrow>
      f ((st_home st)\<lparr>hs_now := t\<rparr>) = (Err OwnerAuth, (st_home st)\<lparr>hs_now := t, hs_owner_nonces := ns\<rparr>)"
  shows "refused st (at_home f http_err (st\<lparr>st_home := (st_home st)\<lparr>hs_now := t\<rparr>\<rparr>) k)"
proof -
  have "fst (check_owner C owner auth now scope ((st_home st)\<lparr>hs_now := t\<rparr>)) \<noteq> Ok ()"
    using check_owner_claims [of C owner auth now scope "(st_home st)\<lparr>hs_now := t\<rparr>"] assms(1-5)
    by (auto simp: owner_ok_def gc_owner_nonces_def)
  then obtain ns where "check_owner C owner auth now scope ((st_home st)\<lparr>hs_now := t\<rparr>) = (Err OwnerAuth, (st_home st)\<lparr>hs_now := t, hs_owner_nonces := ns\<rparr>)"
    by (rule check_owner_refuses) auto
  then show ?thesis using assms(6) by (intro refused_at_home) auto
qed

lemma refused_with_owner:
  assumes "\<And>owner auth. header_owner hds = Some auth \<Longrightarrow> owner = mo_mailbox_hint auth \<Longrightarrow> refused st (f owner auth)"
  shows "refused st (with_owner hds st f)"
  using assms refused_status
  by (auto simp: with_owner_def require_owner_def rbind_def ok_or_def owner_id_def copy_fixed_def split: sum.splits option.splits if_splits)

lemma refused_require:
  "(\<And>x. m = Ok x \<Longrightarrow> refused st (f x)) \<Longrightarrow> refused st (require m BAD_REQUEST st f)"
  using refused_status by (cases m) (auto simp: require_def)

lemma server_id_now [simp]: "hs_server_id C (h\<lparr>hs_now := t\<rparr>) = hs_server_id C h"
  by (simp add: hs_server_id_def)

lemma owner_routes_refuse:
  assumes "owner_route r" "\<not> owner_ok C d r st"
  shows "refused st (handle C d r st)"
proof -
  note rules = refused_with_owner refused_require refused_unless [OF assms(2)]
  have now: "st\<lparr>st_home := (st_home st)\<lparr>hs_now := hs_now (st_home st)\<rparr>\<rparr> = st" by simp
  have same_now: "refused st (at_home (check_owner C owner auth now scope) http_err st k)"
    if "owner_claim r = Some auth" "owner = mo_mailbox_hint auth" "now = owner_time d r" "scope = owner_scope C (hs_server_id C (st_home st)) r"
    for owner auth now scope k
    using refused_unless [OF assms(2) that, of "hs_now (st_home st)" "check_owner C owner auth now scope" k] by simp
  note defs = handle.simps h_upload_prekey_def h_post_envelope_def h_mailbox_fetch_def h_mailbox_ack_def h_mint_share_def h_mint_contact_def
    h_mint_token_def h_wakeup_def h_issue_turn_def h_create_group_def home_now_def Let_def
  note spec = owner_claim_def owner_time_def owner_scope_def
  show ?thesis
  proof (cases r)
    case (PostPrekey hds body)
    show ?thesis unfolding PostPrekey defs by (intro rules) (simp_all add: PostPrekey spec)
  next
    case (PostEnvelope hds body)
    show ?thesis unfolding PostEnvelope defs
      by (intro rules) (auto simp: PostEnvelope spec enqueue_from_owner_def Let_def dest: oe_decode_canonical)
  next
    case (PostFetch body)
    show ?thesis unfolding PostFetch defs
      by (intro rules) (auto simp: PostFetch spec fetch_def Let_def owner_id_def copy_fixed_def split: if_splits)
  next
    case (PostAck body)
    show ?thesis unfolding PostAck defs
      by (intro rules) (auto simp: PostAck spec ack_def Let_def owner_id_def copy_fixed_def split: if_splits)
  next
    case (PostShare hds)
    show ?thesis unfolding PostShare defs by (intro rules) (simp_all add: PostShare spec)
  next
    case (PostContact hds)
    show ?thesis unfolding PostContact defs by (intro rules) (simp_all add: PostContact spec)
  next
    case (GetWakeup hds)
    show ?thesis unfolding GetWakeup defs by (intro rules(1,2) same_now) (simp_all add: GetWakeup spec)
  next
    case (PostTurn hds)
    show ?thesis unfolding PostTurn defs by (intro rules(1,2) same_now) (simp_all add: PostTurn spec)
  next
    case (PostGroup hds body)
    show ?thesis unfolding PostGroup defs by (intro rules(1,2) same_now) (simp_all add: PostGroup spec)
  qed (use assms(1) in \<open>simp_all add: owner_route_def\<close>)
qed

lemma http_err_not_OK [simp]: "http_err e \<noteq> OK"
  by (cases e) (simp_all add: denied_def)

lemma id_read_eq_Ok: "id_read m k = Ok b \<longleftrightarrow> map_get_opt m k = Some (Bytes b) \<and> length b = 32"
  by (auto simp: id_read_def rbind_eq_Ok map_get_def)

subsection \<open>Queues and wake-ups\<close>

text \<open>The row \<open>enqueue\<close> adds for another server.\<close>

definition queued_row :: "HomeServer \<Rightarrow> OuterEnvelope \<Rightarrow> OutboundRow" where
  "queued_row h o' = \<lparr>or_dest = oe_destination o', or_outer = o', or_enqueued_at = hs_now h, or_next_attempt = hs_now h, or_backoff_secs = 1\<rparr>"

lemma enqueue_outbound:
  "hs_outbound (snd (enqueue C o' h)) = hs_outbound h @ (if oe_destination o' = hs_server_id C h then [] else [queued_row h o'])"
  "hs_now (snd (enqueue C o' h)) = hs_now h" "hs_server_id C (snd (enqueue C o' h)) = hs_server_id C h"
proof -
  have view: "env_view (snd (sbind (ingest C o' h) (\<lambda>sq h. (Ok (Local sq), h)))) = env_view h"
    using env_view_ingest [of C o' h] by (cases "ingest C o' h"; cases "fst (ingest C o' h)") auto
  then show "hs_outbound (snd (enqueue C o' h)) = hs_outbound h @ (if oe_destination o' = hs_server_id C h then [] else [queued_row h o'])"
    "hs_now (snd (enqueue C o' h)) = hs_now h" "hs_server_id C (snd (enqueue C o' h)) = hs_server_id C h"
    by (auto simp: enqueue_def env_view_def queued_row_def hs_server_id_def mark_outbound_dirty_def)
qed

lemma queued_row_cong: "hs_now h = hs_now h' \<Longrightarrow> queued_row h = queued_row h'"
  by (simp add: queued_row_def fun_eq_iff)

lemma enqueue_all_outbound:
  "hs_outbound (enqueue_all C outers h) =
     hs_outbound h @ map (queued_row h) (filter (\<lambda>o'. oe_destination o' \<noteq> hs_server_id C h) outers)"
proof -
  have "hs_outbound (fold (\<lambda>o' h. snd (enqueue C o' h)) outers h) =
     hs_outbound h @ map (queued_row h) (filter (\<lambda>o'. oe_destination o' \<noteq> hs_server_id C h) outers)"
  proof (induction outers arbitrary: h)
    case (Cons o' outers)
    have "queued_row (snd (enqueue C o' h)) = queued_row h" by (rule queued_row_cong) (simp add: enqueue_outbound)
    then show ?case by (simp add: Cons.IH enqueue_outbound)
  qed simp
  then show ?thesis by (simp add: enqueue_all_def)
qed

text \<open>The frames \<open>run_wakeup\<close> sends over its rounds, with the head each announces.\<close>

fun wakes :: "Wake \<Rightarrow> (int \<times> u64) list \<Rightarrow> (int \<times> u64) list" where
  "wakes w [] = []"
| "wakes w ((t, head) # rounds) =
     (let (sent, w') = wake_round t head w in if sent then (t, head) # wakes w' rounds else wakes w' rounds)"

lemma wakes_after:
  "p \<in> set (wakes w rounds) \<Longrightarrow> wk_last_wake w + int WAKE_COALESCE \<le> fst p \<and> wk_last_seen w < snd p"
proof (induction w rounds arbitrary: p rule: wakes.induct)
  case (2 w t head rounds)
  show ?case
  proof (cases "head > wk_last_seen w \<and> t - wk_last_wake w \<ge> int WAKE_COALESCE")
    case True
    note IH = "2.IH" [OF refl, of True "\<lparr>wk_last_seen = head, wk_last_wake = t\<rparr>" p]
    show ?thesis using "2.prems" True IH by (auto simp: wake_round_def)
  next
    case False
    then show ?thesis using "2.prems" "2.IH" [OF refl, of False w p] by (auto simp: wake_round_def)
  qed
qed simp

section \<open>Properties\<close>

text \<open>
  C1. Whatever requests arrive at a fresh server, both halves of its state stay consistent: the
  invariant of the home server and that of the group host hold after any sequence of requests.
  The bound counts requests, the copies they make and the streams they write; sequence numbers
  do not overflow below it.
\<close>

theorem server_reachable_inv:
  assumes "from_identity C kp sk host port = Some h0"
    and "served C n \<lparr>st_home = h0, st_groups = gh_new\<rparr> st" "n + 1 < 2 ^ 64"
  shows "home_inv n (st_home st) \<and> group_inv n (st_groups st)"
proof -
  have "server_inv 0 \<lparr>st_home = h0, st_groups = gh_new\<rparr>"
    using inv_from_identity [OF assms(1)] inv_start by (simp add: server_inv_def home_inv_def)
  from inv_served [OF assms(2) this assms(3)] show ?thesis by (simp add: server_inv_def)
qed

text \<open>
  C8. Every route of a mailbox owner is authenticated: unless the request carries an
  authorisation that names an enabled mailbox, verifies under its owner's key for exactly this
  method, path and body at the time of the request, and has a fresh nonce, the answer is
  unauthorised or malformed and nothing but the clock and the nonce table changes.
\<close>

theorem owner_routes_authenticated:
  assumes "owner_route r" "\<not> owner_ok C d r st"
  shows "resp_status (fst (handle C d r st)) \<in> {UNAUTHORIZED, BAD_REQUEST} \<and>
    (\<exists>t ns. snd (handle C d r st) = st\<lparr>st_home := (st_home st)\<lparr>hs_now := t, hs_owner_nonces := ns\<rparr>\<rparr>)"
  using owner_routes_refuse [OF assms] by (simp add: refused_def)


text \<open>
  A client that sends a nonce gets an answer it can verify: the signature header decodes to
  a signature over the nonce, the status and the body, under the key of the server's bundle.
\<close>

theorem responses_signed:
  assumes "ed25519_correct C" "header_token hds (str_bytes ''nemo-nonce'') = Some nonce"
    and "handle C d r st = (res, st')" "length (resp_body res) \<le> BODY_LIMIT"
  shows "\<exists>resp s. serve C d hds r st = (resp, st') \<and> resp_status resp = resp_status res \<and> resp_body resp = resp_body res \<and>
    Option.bind (resp_sig resp) (\<lambda>x. Some (from_hex x)) = Some (Ok s) \<and>
    verify_response C (sign_public C (st_home st')) nonce (as_u16 (resp_status resp)) (resp_body resp) s = Ok ()"
proof -
  obtain s where s: "sign_response C (hs_sign (st_home st')) nonce (as_u16 (resp_status res)) (resp_body res) = Ok s"
    by (simp add: sign_response_def sign_total)
  have "verify_response C (sign_public C (st_home st')) nonce (as_u16 (resp_status res)) (resp_body res) s = Ok ()"
    using verify_sign_ok [OF assms(1)] s by (simp add: sign_response_def verify_response_def sign_public_def)
  moreover have "serve C d hds r st = (res\<lparr>resp_sig := Some (to_hex s)\<rparr>, st')"
    using assms(2-4) s by (simp add: serve_def sign_after_def)
  ultimately show ?thesis by simp
qed

text \<open>
  C34. The statement of a revoked identity reaches no group: a server that started fresh and
  served any requests has no group membership on record, since no request records one, so the
  revocation route leaves every group stream as it is.
\<close>

theorem revocation_reaches_no_group:
  assumes "from_identity C kp sk host port = Some h0" "served C n \<lparr>st_home = h0, st_groups = gh_new\<rparr> st"
  shows "gh_groups (st_groups (snd (handle C d (PostRevocation body) st))) = gh_groups (st_groups st)"
proof -
  have "hs_memberships h0 = []" using assms(1) by (auto simp: from_identity_def split: sum.splits)
  then have empty: "hs_memberships (st_home st) = []" using memb_served [OF assms(2)] by simp
  have none: "gids = []" if "ingest_revocation C stmt (st_home (home_now t st)) = (Ok gids, h)" for t stmt gids h
    using revoked_groups [OF that] empty by (simp add: memberships_def)
  show ?thesis unfolding handle.simps h_revocation_def Let_def
    by (intro snd_require [where P = "\<lambda>s. gh_groups (st_groups s) = v" for v] snd_at_home [where P = "\<lambda>s. gh_groups (st_groups s) = v" for v])
      (auto simp: groups_now_def dest!: none)
qed

text \<open>
  Wake-ups of a connection are at least ten seconds apart, each announces a head above the
  previous one, and none is sent for a head the client has already seen.
\<close>

theorem wakes_coalesced:
  "sorted_wrt (\<lambda>p q. fst p + 10 * 10 ^ 9 \<le> fst q \<and> snd p < snd q) (wakes (wake_start t cursor) rounds) \<and>
   (\<forall>p \<in> set (wakes (wake_start t cursor) rounds). cursor < snd p)"
proof -
  have "sorted_wrt (\<lambda>p q. fst p + 10 * 10 ^ 9 \<le> fst q \<and> snd p < snd q) (wakes w rounds)" for w
  proof (induction w rounds rule: wakes.induct)
    case (2 w t head rounds)
    have "t + 10 * 10 ^ 9 \<le> fst q \<and> head < snd q" if "q \<in> set (wakes \<lparr>wk_last_seen = head, wk_last_wake = t\<rparr> rounds)" for q
      using wakes_after [OF that] by (simp add: WAKE_COALESCE_def)
    then show ?case using "2.IH" [OF refl] by (auto simp: wake_round_def)
  qed simp
  then show ?thesis using wakes_after [of _ "wake_start t cursor" rounds] by (auto simp: wake_start_def)
qed

text \<open>
  The key file restores the server's identity: what \<open>save\<close> writes \<open>load\<close> reads back, and
  \<open>load\<close> accepts a signing key only with its own public key.
\<close>

theorem key_file_roundtrip:
  assumes "ed25519_correct C" "length (kp_secret kp) = 32" "length (kp_public kp) = 32" "length sk = 32"
  shows "id_load C (id_save C kp sk) = Ok (kp, sk) \<and>
    (\<forall>bs kp' sk'. id_load C bs = Ok (kp', sk') \<longrightarrow> (\<exists>m. decode bs = Ok (Map m) \<and> map_get_opt m 3 = Some (Bytes (lib_ed_public C sk'))))"
proof
  have "length (lib_ed_public C sk) = 32" using assms(1) by (simp add: ed25519_correct_def)
  then show "id_load C (id_save C kp sk) = Ok (kp, sk)"
    using assms(2-4) by (simp add: id_load_def id_save_def id_read_def map_get_def copy_fixed_def KEY_LEN_def)
  show "\<forall>bs kp' sk'. id_load C bs = Ok (kp', sk') \<longrightarrow> (\<exists>m. decode bs = Ok (Map m) \<and> map_get_opt m 3 = Some (Bytes (lib_ed_public C sk')))"
    by (auto simp: id_load_def id_read_eq_Ok rbind_eq_Ok split: Value.split_asm if_split_asm)
qed

section \<open>Witnesses\<close>

definition sample_draws :: Draws where
  "sample_draws = \<lparr>dw_clock = (\<lambda>_. 1700000005), dw_keys = ([1], [2], [3]), dw_seal = (\<lambda>_ _. (replicate 32 1, [])),
     dw_turn = turn_issue id id None 0 []\<rparr>"

lemma fresh_server:
  obtains h0 where "from_identity plain_crypto \<lparr>kp_public = [3], kp_secret = [3]\<rparr> [4] [5] 443 = Some h0"
    "served plain_crypto 1 \<lparr>st_home = h0, st_groups = gh_new\<rparr> (snd (handle plain_crypto sample_draws (PostRegister []) \<lparr>st_home = h0, st_groups = gh_new\<rparr>))"
proof -
  obtain h0 where h0: "from_identity plain_crypto \<lparr>kp_public = [3], kp_secret = [3]\<rparr> [4] [5] 443 = Some h0"
    using from_identity_some by blast
  let ?st = "\<lparr>st_home = h0, st_groups = gh_new\<rparr>"
  have "hs_memberships h0 = []" using h0 by (auto simp: from_identity_def split: sum.splits)
  then have w: "weight ?st = 1" by (simp add: weight_def members_def memberships_def gh_new_def)
  have "draws_ok sample_draws ?st" by (simp add: draws_ok_def sample_draws_def gh_new_def hm_get_def)
  from served.request [OF served.start this, of plain_crypto "PostRegister []"] h0 that show ?thesis by (simp add: w)
qed

theorem server_reachable_inv_witness:
  "\<exists>h0 st. from_identity plain_crypto \<lparr>kp_public = [3], kp_secret = [3]\<rparr> [4] [5] 443 = Some h0 \<and>
     served plain_crypto 1 \<lparr>st_home = h0, st_groups = gh_new\<rparr> st \<and> home_inv 1 (st_home st) \<and> group_inv 1 (st_groups st)"
proof -
  obtain h0 st where h0: "from_identity plain_crypto \<lparr>kp_public = [3], kp_secret = [3]\<rparr> [4] [5] 443 = Some h0"
    and r: "served plain_crypto 1 \<lparr>st_home = h0, st_groups = gh_new\<rparr> st" using fresh_server by blast
  from server_reachable_inv [OF h0 r] h0 r show ?thesis by auto
qed

theorem owner_routes_authenticated_witness:
  "\<exists>t ns. snd (handle plain_crypto sample_draws (PostShare (\<lambda>_. None)) \<lparr>st_home = sample_home, st_groups = sample_host\<rparr>) =
     \<lparr>st_home = sample_home\<lparr>hs_now := t, hs_owner_nonces := ns\<rparr>, st_groups = sample_host\<rparr>"
proof -
  have "\<not> owner_ok plain_crypto sample_draws (PostShare (\<lambda>_. None)) \<lparr>st_home = sample_home, st_groups = sample_host\<rparr>"
    by (simp add: owner_ok_def owner_claim_def header_owner_def)
  from owner_routes_authenticated [OF _ this] show ?thesis by (simp add: owner_route_def)
qed

definition sample_append_body :: bytes where
  "sample_append_body = encode (Map [(0, Bytes (replicate 32 9)), (1, Bytes (replicate 32 6)), (2, Uint 2), (3, Bytes [5])])"

definition sample_stream :: GroupHost where
  "sample_stream = sample_host\<lparr>gh_groups := [(replicate 32 1, sample_group\<lparr>gs_creds := [(replicate 32 9,
     \<lparr>cr_secret = hash_secret plain_crypto (replicate 32 6), cr_live = True, cr_signing_pk = None,
      cr_fanout = Some \<lparr>ft_capability = replicate 32 7, ft_hpke_public = replicate 32 5\<rparr>\<rparr>)]\<rparr>)]\<rparr>"

lemma sample_append_sent:
  "\<exists>resp st'. handle plain_crypto sample_draws (PostAppend (to_hex (replicate 32 1)) sample_append_body)
     \<lparr>st_home = sample_home, st_groups = sample_stream\<rparr> = (resp, st') \<and> resp_status resp = OK"
proof -
  let ?g = "sample_group\<lparr>gs_creds := [(replicate 32 9,
     \<lparr>cr_secret = hash_secret plain_crypto (replicate 32 6), cr_live = True, cr_signing_pk = None,
      cr_fanout = Some \<lparr>ft_capability = replicate 32 7, ft_hpke_public = replicate 32 5\<rparr>\<rparr>)]\<rparr>"
  let ?h = "sample_stream\<lparr>gh_now := 1700000005\<rparr>" and ?c = "\<lparr>mc_id = replicate 32 9, mc_secret = replicate 32 6\<rparr>"
  have g: "hm_get (gh_groups ?h) (replicate 32 1) = Some ?g" by (simp add: sample_stream_def hm_get_def)
  have auth: "authorize_live plain_crypto ?h (replicate 32 1) ?c = Ok ()"
    by (simp add: authorize_live_def sample_stream_def hm_get_def)
  obtain m where m: "pad MlsApp [5] = Ok m" by (simp add: pad_def buckets_def is_attachment_def size_defs)
  let ?e = "\<lparr>ie_capability = replicate 32 7, ie_ttl = TTL_DEFAULT, ie_idempotency = replicate 32 1, ie_message = m\<rparr>"
  have "inner_ok ?e" using pad_padded_ok [OF m] by (simp add: inner_ok_def TTL_DEFAULT_def)
  then obtain bs where "encode_padded ?e = Ok bs" using encode_padded_ok by blast
  moreover have "fanout_targets ?g = [\<lparr>ft_capability = replicate 32 7, ft_hpke_public = replicate 32 5\<rparr>]"
    by (simp add: fanout_targets_def map_filter_simps)
  ultimately obtain outs where "seal_copies plain_crypto (\<lambda>_. (replicate 32 1, [])) 0 MlsApp [5] (fanout_targets ?g) = Ok outs"
    using m by (simp add: seal_to_server_def seal_def Let_def) (simp add: plain_crypto_def)
  moreover have "\<not> stream_full ?g [5]" by (simp add: stream_full_def sample_group_def STREAM_MAX_BYTES_def saturating_add_def)
  ultimately obtain out h' where a: "gh_append plain_crypto (\<lambda>_. (replicate 32 1, [])) (replicate 32 1) ?c MlsApp [5] ?h = (Ok out, h')"
    using auth g by (simp add: gh_append_def fanout_copy_eq)
  have "http_decode_map sample_append_body = Some [(0, Bytes (replicate 32 9)), (1, Bytes (replicate 32 6)), (2, Uint 2), (3, Bytes [5])]"
    by (simp add: http_decode_map_def sample_append_body_def)
  moreover have "parse_group_id (to_hex (replicate 32 1)) = Some (replicate 32 1)"
    by (simp add: parse_group_id_def parse_key_hex_def copy_fixed_def KEY_LEN_def)
  ultimately show ?thesis using a
    by (simp add: h_group_append_def require_def read_key_def read_uint_def read_bytes_def copy_fixed_def KEY_LEN_def type_from_u8_def
        at_groups_def groups_now_def sample_draws_def cbor_ok_def octets_def Let_def)
qed


theorem revocation_reaches_no_group_witness:
  "\<exists>h0 st. from_identity plain_crypto \<lparr>kp_public = [3], kp_secret = [3]\<rparr> [4] [5] 443 = Some h0 \<and>
     gh_groups (st_groups (snd (handle plain_crypto sample_draws (PostRevocation [1]) st))) = gh_groups (st_groups st)"
proof -
  obtain h0 st where h0: "from_identity plain_crypto \<lparr>kp_public = [3], kp_secret = [3]\<rparr> [4] [5] 443 = Some h0"
    and r: "served plain_crypto 1 \<lparr>st_home = h0, st_groups = gh_new\<rparr> st" using fresh_server by blast
  from revocation_reaches_no_group [OF h0 r] h0 show ?thesis by blast
qed

theorem responses_signed_witness:
  "\<exists>resp s. serve plain_crypto sample_draws (\<lambda>_. Some (to_hex (replicate 32 9))) (PostRegister []) \<lparr>st_home = sample_home, st_groups = sample_host\<rparr> =
       (resp, \<lparr>st_home = sample_home, st_groups = sample_host\<rparr>) \<and> resp_status resp = BAD_REQUEST \<and>
     verify_response plain_crypto (sign_public plain_crypto sample_home) (replicate 32 9) 400 [] s = Ok ()"
proof -
  let ?st = "\<lparr>st_home = sample_home, st_groups = sample_host\<rparr>"
  have "header_token (\<lambda>_. Some (to_hex (replicate 32 9))) (str_bytes ''nemo-nonce'') = Some (replicate 32 9)"
    by (simp add: header_token_def parse_key_hex_def copy_fixed_def KEY_LEN_def)
  moreover have "\<exists>e. cc_decode [] = Err e"
    by (simp add: cc_decode_def decode_map_def decode_def read_value.simps read_head_def CARD_MAX_BYTES_def)
  then have "handle plain_crypto sample_draws (PostRegister []) ?st = (status BAD_REQUEST, ?st)"
    by (auto simp: h_register_def require_def)
  ultimately show ?thesis
    using responses_signed [of plain_crypto "\<lambda>_. Some (to_hex (replicate 32 9))" "replicate 32 9" sample_draws "PostRegister []" ?st "status BAD_REQUEST" ?st]
    by (auto simp: status_def)
qed

theorem key_file_roundtrip_witness:
  "id_load plain_crypto (id_save plain_crypto \<lparr>kp_public = replicate 32 3, kp_secret = replicate 32 5\<rparr> (replicate 32 4)) =
     Ok (\<lparr>kp_public = replicate 32 3, kp_secret = replicate 32 5\<rparr>, replicate 32 4)"
  using key_file_roundtrip [of plain_crypto "\<lparr>kp_public = replicate 32 3, kp_secret = replicate 32 5\<rparr>" "replicate 32 4"] by simp

end
