(* ===== verification/Core_Error.thy ===== *)
theory Core_Error
  imports Codec
begin

text \<open>
  The errors of the client library, \<open>nemo-core/src/error.rs\<close>, and what its modules share:
  \<open>?\<close> on a wire result, and the errors that must not be acknowledged to the mailbox. The
  text of a libsignal, input/output or transport error is that package's.
\<close>

section \<open>Model\<close>

datatype CoreError =
    Wire WireError
  | Signal string
  | Mnemonic
  | EmptyPrekeyStock
  | IdentityMismatch
  | BadKey
  | BadCiphertext
  | TextTooLong
  | EmojiTooLong
  | DirectIceForbidden
  | DtlsFingerprintMismatch
  | Call string
  | Mls string
  | MlsWrongEpoch
  | StaleMlsUpdate
  | UnframedRemove
  | ExternalMlsJoin
  | MlsReinit
  | WrongCiphersuite
  | BadRemoveBundle
  | PendingCommit
  | LeafExtensionViolation
  | UnannouncedSignerChange
  | CredentialIdMismatch
  | BadIntro
  | UnsignedResponse
  | ServerPinMismatch
  | WrongMailboxType
  | MaximumNotShipped
  | CoverNotShipped
  | CallsUnavailable
  | Revoked
  | BoundInvite
  | BindingDowngrade
  | Denied
  | AlreadyRegistered
  | HomeHttp "16 word"
  | Transport string
  | UnknownContact
  | NotRegistered
  | WeakPassphrase
  | VaultExists
  | VaultMissing
  | VaultLocked
  | VaultCorrupt
  | VaultIo string
  | VaultDetached

type_synonym 'a cresult = "CoreError + 'a"

definition mls_retryable :: "CoreError \<Rightarrow> bool" where
  "mls_retryable e \<longleftrightarrow> e \<in> {MlsWrongEpoch, PendingCommit, UnframedRemove, BadRemoveBundle, ExternalMlsJoin,
     MlsReinit, LeafExtensionViolation, CredentialIdMismatch, WrongCiphersuite, UnannouncedSignerChange}"

text \<open>\<open>?\<close> on a \<open>Result\<close> of \<open>nemo-wire\<close>: \<open>CoreError::from\<close>.\<close>

abbreviation lift :: "WireError + 'a \<Rightarrow> 'a cresult" where
  "lift \<equiv> map_err Wire"

text \<open>\<open>.map_err(|_| CoreError::VaultCorrupt)\<close>, on every access to a stored value.\<close>

abbreviation corrupt :: "WireError + 'a \<Rightarrow> 'a cresult" where
  "corrupt \<equiv> map_err (\<lambda>_. VaultCorrupt)"

text \<open>A loop that pushes one result per item and returns the first error.\<close>

fun rmap :: "('a \<Rightarrow> 'e + 'b) \<Rightarrow> 'a list \<Rightarrow> 'e + 'b list" where
  "rmap f [] = Ok []"
| "rmap f (x # xs) = rbind (f x) (\<lambda>y. rbind (rmap f xs) (\<lambda>ys. Ok (y # ys)))"

section \<open>Lemmas\<close>

lemma rmap_cong [fundef_cong]: "xs = ys \<Longrightarrow> (\<And>x. x \<in> set ys \<Longrightarrow> f x = g x) \<Longrightarrow> rmap f xs = rmap g ys"
  by (induction ys arbitrary: xs) auto

lemma rmap_map_Ok: "(\<And>x. x \<in> set xs \<Longrightarrow> f (g x) = Ok x) \<Longrightarrow> rmap f (map g xs) = Ok xs"
  by (induction xs) auto

lemma rmap_eq_Ok: "rmap f xs = Ok ys \<longleftrightarrow> list_all2 (\<lambda>x y. f x = Ok y) xs ys"
  by (induction xs arbitrary: ys) (auto simp: rbind_eq_Ok list_all2_Cons1)

lemma rmap_Ok_all: "rmap f xs = Ok ys \<Longrightarrow> (\<And>x y. x \<in> set xs \<Longrightarrow> f x = Ok y \<Longrightarrow> P y) \<Longrightarrow> \<forall>y \<in> set ys. P y"
  by (auto simp: rmap_eq_Ok list_all2_conv_all_nth in_set_conv_nth) metis

lemma of_char_byte: "of_char c = (of_char d :: byte) \<longleftrightarrow> c = d"
proof
  assume "of_char c = (of_char d :: byte)"
  then have "unat (of_nat (of_char c) :: byte) = unat (of_nat (of_char d) :: byte)" by (simp only: of_nat_of_char)
  then have "(of_char c :: nat) = of_char d" by (simp add: unat_of_nat take_bit_nat_eq_self del: of_nat_of_char)
  then show "c = d" by simp
qed simp

lemma str_bytes_inj [simp]: "str_bytes s = str_bytes t \<longleftrightarrow> s = t"
  unfolding str_bytes_def by (rule inj_map_eq_map) (simp add: inj_def of_char_byte)

end
