(* ===== verification/Core_Mailbox.thy ===== *)
theory Core_Mailbox
  imports Core_Error Hostframe Hpke_Envelope "HOL-Library.Multiset"
begin

text \<open>
  The client's side of envelopes: wrapping and opening them (\<open>nemo-core/src/mailbox.rs\<close>),
  the sealed files of groups (\<open>attachment.rs\<close>), and the privacy transport that delays,
  batches and covers them (\<open>privacy.rs\<close>).

  Random bytes are arguments; \<open>r\<close> in \<open>uniform\<close> is the \<open>u64\<close> read from 8 random bytes. The sink
  of the privacy transport is an argument \<open>emit\<close>.
\<close>

section \<open>Model\<close>

subsection \<open>Envelopes\<close>

definition wrap :: "crypto \<Rightarrow> key \<times> bytes \<Rightarrow> key \<Rightarrow> key \<Rightarrow> TtlBucket \<Rightarrow> MessageType \<Rightarrow> bytes \<Rightarrow> OuterEnvelope cresult" where
  "wrap C rnd dest cap ttl ty body =
     rbind (lift (pad ty body)) (\<lambda>padded.
     lift (seal_to_server C (snd rnd) dest
       \<lparr>ie_capability = cap, ie_ttl = ttl, ie_idempotency = fst rnd, ie_message = padded\<rparr>))"

definition deliver :: "crypto \<Rightarrow> HpkeKeypair \<Rightarrow> OuterEnvelope \<Rightarrow> InnerEnvelope cresult" where
  "deliver C server outer = lift (open_outer C server outer)"

definition expect_type :: "InnerEnvelope \<Rightarrow> MessageType \<Rightarrow> bytes cresult" where
  "expect_type inner want =
     (if pm_type (ie_message inner) \<noteq> want then Err WrongMailboxType else Ok (pm_body (ie_message inner)))"

definition expect_ratchet :: "InnerEnvelope \<Rightarrow> bytes cresult" where
  "expect_ratchet inner =
     (if pm_type (ie_message inner) \<in> {DoubleRatchet, AttachmentDr} then Ok (pm_body (ie_message inner)) else Err WrongMailboxType)"

definition messages_lost :: "u64 \<Rightarrow> u64 \<Rightarrow> bool" where
  "messages_lost last_acked first_fetched \<longleftrightarrow> first_fetched > saturating_add last_acked 1"

subsection \<open>Group files\<close>

definition KEY_MATERIAL :: nat where "KEY_MATERIAL = KEY_LEN * 2"

text \<open>\<open>kp\<close> is the fresh key pair; \<open>blob\<close> starts as the bucket's zeros and is written from the front.\<close>

definition seal_group_file :: "crypto \<Rightarrow> HpkeKeypair \<Rightarrow> bytes \<Rightarrow> bytes \<Rightarrow> (bytes \<times> AttachmentSizeBucket \<times> bytes) cresult" where
  "seal_group_file C kp rnd plaintext =
     rbind (lift (seal C rnd (kp_public kp) (kp_server_id C kp) plaintext)) (\<lambda>sealed.
     rbind (lift (size_for_len (4 + length sealed))) (\<lambda>bucket.
     if length sealed \<ge> 2 ^ 32 then Err (Wire NoBucket)
     else
       (let blob = resize (size_inner_len bucket) (be_bytes 4 (of_nat (length sealed)) @ sealed);
            key_material = kp_secret kp @ kp_public kp in
        Ok (key_material, bucket, blob))))"

definition open_group_file :: "crypto \<Rightarrow> bytes \<Rightarrow> bytes \<Rightarrow> bytes cresult" where
  "open_group_file C fkey blob =
     (if length fkey \<noteq> KEY_MATERIAL \<or> length blob < 4 then Err BadCiphertext
      else
        (let n = unat (from_be_bytes (take 4 blob)) in
         if 4 + n > length blob then Err BadCiphertext
         else
           rbind (lift (copy_fixed KEY_LEN (take KEY_LEN fkey))) (\<lambda>secret.
           rbind (lift (copy_fixed KEY_LEN (drop KEY_LEN fkey))) (\<lambda>public.
           lift (hpke_open C secret (server_id C public) (take n (drop 4 blob)))))))"

subsection \<open>Privacy modes\<close>

definition PRIVATE_EXTRA_MIN_MS :: u64 where "PRIVATE_EXTRA_MIN_MS = 20"
definition PRIVATE_EXTRA_MAX_MS :: u64 where "PRIVATE_EXTRA_MAX_MS = 200"
definition PRIVATE_BATCH_MAX_MS :: u64 where "PRIVATE_BATCH_MAX_MS = 5000"
definition WAKE_COALESCE_MS :: u64 where "WAKE_COALESCE_MS = 10000"
definition HIGH_COVER_MIN_MS :: u64 where "HIGH_COVER_MIN_MS = 8000"
definition HIGH_COVER_MAX_MS :: u64 where "HIGH_COVER_MAX_MS = 30000"
definition MAXIMUM_SLOT_MS :: u64 where "MAXIMUM_SLOT_MS = 2000"

datatype PrivacyMode = Normal | Private | High | Maximum

datatype Hop = Direct | Tor

fun hop_for :: "PrivacyMode \<Rightarrow> Hop" where
  "hop_for Normal = Direct"
| "hop_for Private = Direct"
| "hop_for High = Tor"
| "hop_for Maximum = Tor"

definition uniform :: "u64 \<Rightarrow> u64 \<Rightarrow> u64 \<Rightarrow> u64" where
  "uniform min_v max_v r = (if max_v \<le> min_v then min_v else (let span = max_v - min_v + 1 in min_v + r mod span))"

definition extra_delay_ms :: "u64 \<Rightarrow> u64" where
  "extra_delay_ms r = uniform PRIVATE_EXTRA_MIN_MS PRIVATE_EXTRA_MAX_MS r"

definition batch_jitter_ms :: "u64 \<Rightarrow> u64" where
  "batch_jitter_ms r = uniform 0 PRIVATE_BATCH_MAX_MS r"

definition private_send_delay_ms :: "u64 \<times> u64 \<Rightarrow> u64" where
  "private_send_delay_ms r = extra_delay_ms (fst r) + batch_jitter_ms (snd r)"

fun cover_interval_ms :: "PrivacyMode \<Rightarrow> u64 \<Rightarrow> u64 option" where
  "cover_interval_ms Normal r = None"
| "cover_interval_ms Private r = None"
| "cover_interval_ms High r = Some (uniform HIGH_COVER_MIN_MS HIGH_COVER_MAX_MS r)"
| "cover_interval_ms Maximum r = Some MAXIMUM_SLOT_MS"

definition calls_allowed :: "PrivacyMode \<Rightarrow> bool" where
  "calls_allowed mode \<longleftrightarrow> mode \<noteq> Maximum"

definition dummy_outer :: "crypto \<Rightarrow> key \<times> bytes \<Rightarrow> key \<Rightarrow> key \<Rightarrow> OuterEnvelope cresult" where
  "dummy_outer C rnd dest cap = wrap C rnd dest cap TTL_DEFAULT DoubleRatchet []"

subsection \<open>The privacy transport\<close>

record Pending =
  pd_bytes :: bytes
  pd_ready_at_ms :: u64

record 's PrivacyTransport =
  pt_mode :: PrivacyMode
  pt_hop :: Hop
  pt_now_ms :: u64
  pt_pending :: "Pending list"
  pt_sink :: 's

type_synonym 's sink = "Hop \<Rightarrow> bytes \<Rightarrow> 's \<Rightarrow> unit cresult \<times> 's"

text \<open>\<open>MemSink\<close>.\<close>

definition mem_emit :: "(Hop \<times> bytes) list sink" where
  "mem_emit hop bs sent = (Ok (), sent @ [(hop, bs)])"

definition pt_new :: "PrivacyMode \<Rightarrow> 's \<Rightarrow> 's PrivacyTransport" where
  "pt_new mode snk = \<lparr>pt_mode = mode, pt_hop = hop_for mode, pt_now_ms = 0, pt_pending = [], pt_sink = snk\<rparr>"

fun delay_ms :: "PrivacyMode \<Rightarrow> u64 \<times> u64 \<Rightarrow> u64" where
  "delay_ms Normal r = 0"
| "delay_ms Maximum r = 0"
| "delay_ms Private r = extra_delay_ms (fst r) + batch_jitter_ms (snd r)"
| "delay_ms High r = extra_delay_ms (fst r) + batch_jitter_ms (snd r)"

text \<open>\<open>send\<close> draws the delay twice: once for the release time, once for the test.\<close>

definition pt_send :: "'s sink \<Rightarrow> u64 \<times> u64 \<Rightarrow> u64 \<times> u64 \<Rightarrow> OuterEnvelope \<Rightarrow> 's PrivacyTransport \<Rightarrow> unit cresult \<times> 's PrivacyTransport" where
  "pt_send emit r1 r2 outer t =
     (let bs = oe_encode outer;
          ready_at = saturating_add (pt_now_ms t) (delay_ms (pt_mode t) r1) in
      if delay_ms (pt_mode t) r2 = 0 then
        (let (res, s) = emit (pt_hop t) bs (pt_sink t) in (res, t\<lparr>pt_sink := s\<rparr>))
      else (Ok (), t\<lparr>pt_pending := pt_pending t @ [\<lparr>pd_bytes = bs, pd_ready_at_ms = ready_at\<rparr>]\<rparr>))"

fun flush_loop :: "'s sink \<Rightarrow> Hop \<Rightarrow> u64 \<Rightarrow> Pending list \<Rightarrow> Pending list \<Rightarrow> nat \<Rightarrow> 's \<Rightarrow> (nat \<times> Pending list) cresult \<times> 's" where
  "flush_loop emit hop now [] rest n s = (Ok (n, rest), s)"
| "flush_loop emit hop now (p # ps) rest n s =
     (if pd_ready_at_ms p \<le> now then
        (case emit hop (pd_bytes p) s of
           (Err e, s) \<Rightarrow> (Err e, s)
         | (Ok _, s) \<Rightarrow> flush_loop emit hop now ps rest (n + 1) s)
      else flush_loop emit hop now ps (rest @ [p]) n s)"

text \<open>\<open>drain(..)\<close> empties the queue before the loop; an error returns before \<open>rest\<close> is put back.\<close>

definition flush_ready :: "'s sink \<Rightarrow> 's PrivacyTransport \<Rightarrow> nat cresult \<times> 's PrivacyTransport" where
  "flush_ready emit t =
     (case flush_loop emit (pt_hop t) (pt_now_ms t) (pt_pending t) [] 0 (pt_sink t) of
        (Ok (n, rest), s) \<Rightarrow> (Ok n, t\<lparr>pt_pending := rest, pt_sink := s\<rparr>)
      | (Err e, s) \<Rightarrow> (Err e, t\<lparr>pt_pending := [], pt_sink := s\<rparr>))"

definition advance :: "'s sink \<Rightarrow> u64 \<Rightarrow> 's PrivacyTransport \<Rightarrow> nat cresult \<times> 's PrivacyTransport" where
  "advance emit now t = flush_ready emit (t\<lparr>pt_now_ms := now\<rparr>)"

text \<open>At most one push wake per ten seconds: the state is \<open>last_wake_ms\<close>.\<close>

definition should_wake :: "u64 \<Rightarrow> u64 option \<Rightarrow> bool \<times> u64 option" where
  "should_wake now last_wake =
     (case last_wake of
        Some t \<Rightarrow> if saturating_sub now t < WAKE_COALESCE_MS then (False, last_wake) else (True, Some now)
      | None \<Rightarrow> (True, Some now))"

section \<open>Lemmas\<close>

lemma uniform_bounds:
  assumes "min_v \<le> max_v" "max_v - min_v + 1 \<noteq> 0"
  shows "min_v \<le> uniform min_v max_v r \<and> uniform min_v max_v r \<le> max_v"
proof (cases "max_v \<le> min_v")
  case False
  then have lt: "unat min_v < unat max_v" by (simp add: word_le_nat_alt)
  have "max_v - min_v \<noteq> - 1" using assms(2) by (metis add.left_inverse)
  then have span: "unat (max_v - min_v + 1) = unat max_v - unat min_v + 1"
    using unat_succ(1) [of "max_v - min_v"] assms(1) by (simp add: unat_sub)
  have "unat (r mod (max_v - min_v + 1)) < unat (max_v - min_v + 1)" using span by (simp add: unat_mod)
  then have "unat min_v + unat (r mod (max_v - min_v + 1)) \<le> unat max_v" using span lt by simp
  moreover from this have "unat (min_v + r mod (max_v - min_v + 1)) = unat min_v + unat (r mod (max_v - min_v + 1))"
    using unat_u64 [of max_v] by (simp add: unat_word_ariths)
  ultimately show ?thesis using False by (simp add: uniform_def word_le_nat_alt)
qed (use assms(1) in \<open>simp add: uniform_def\<close>)

lemma extra_delay_bounds: "20 \<le> unat (extra_delay_ms r) \<and> unat (extra_delay_ms r) \<le> 200"
  using uniform_bounds [of PRIVATE_EXTRA_MIN_MS PRIVATE_EXTRA_MAX_MS r]
  by (simp add: extra_delay_ms_def PRIVATE_EXTRA_MIN_MS_def PRIVATE_EXTRA_MAX_MS_def word_le_nat_alt)

lemma batch_jitter_bounds: "unat (batch_jitter_ms r) \<le> 5000"
  using uniform_bounds [of 0 PRIVATE_BATCH_MAX_MS r]
  by (simp add: batch_jitter_ms_def PRIVATE_BATCH_MAX_MS_def word_le_nat_alt)

lemma delay_private:
  assumes "mode \<in> {Private, High}"
  shows "20 \<le> unat (delay_ms mode r) \<and> unat (delay_ms mode r) \<le> 5200"
proof -
  have "unat (extra_delay_ms (fst r) + batch_jitter_ms (snd r)) = unat (extra_delay_ms (fst r)) + unat (batch_jitter_ms (snd r))"
    using extra_delay_bounds [of "fst r"] batch_jitter_bounds [of "snd r"] by (simp add: unat_word_ariths)
  then show ?thesis using assms extra_delay_bounds [of "fst r"] batch_jitter_bounds [of "snd r"] by auto
qed

lemma flush_loop_mem:
  "flush_loop mem_emit hop now ps rest n s =
     (Ok (n + length (filter (\<lambda>p. pd_ready_at_ms p \<le> now) ps), rest @ filter (\<lambda>p. \<not> pd_ready_at_ms p \<le> now) ps),
      s @ map (\<lambda>p. (hop, pd_bytes p)) (filter (\<lambda>p. pd_ready_at_ms p \<le> now) ps))"
  by (induction ps arbitrary: rest n s) (simp_all add: mem_emit_def)

lemma flush_ready_mem:
  "flush_ready mem_emit t =
     (Ok (length (filter (\<lambda>p. pd_ready_at_ms p \<le> pt_now_ms t) (pt_pending t))),
      t\<lparr>pt_pending := filter (\<lambda>p. \<not> pd_ready_at_ms p \<le> pt_now_ms t) (pt_pending t),
        pt_sink := pt_sink t @ map (\<lambda>p. (pt_hop t, pd_bytes p)) (filter (\<lambda>p. pd_ready_at_ms p \<le> pt_now_ms t) (pt_pending t))\<rparr>)"
  by (simp add: flush_ready_def flush_loop_mem)

lemma delay_immediate: "delay_ms mode r = 0 \<longleftrightarrow> mode \<in> {Normal, Maximum}"
proof (cases "mode \<in> {Private, High}")
  case True
  then show ?thesis using delay_private [OF True, of r] by auto
qed (cases mode; simp)

lemma mset_map_split: "mset (map f (filter P xs)) + mset (map f (filter (\<lambda>x. \<not> P x) xs)) = mset (map f xs)"
  by (simp flip: image_mset_union mset_append add: mset_filter multiset_partition [symmetric])

text \<open>
  The runs of a transport over the sink that collects: \<open>outers\<close> are the envelopes handed to it,
  in order.
\<close>

inductive pt_run :: "PrivacyMode \<Rightarrow> OuterEnvelope list \<Rightarrow> (Hop \<times> bytes) list PrivacyTransport \<Rightarrow> bool" for mode where
  start: "pt_run mode [] (pt_new mode [])"
| send: "pt_run mode outers t \<Longrightarrow> pt_run mode (outers @ [outer]) (snd (pt_send mem_emit r1 r2 outer t))"
| tick: "pt_run mode outers t \<Longrightarrow> pt_run mode outers (snd (advance mem_emit now t))"

definition pt_inv :: "PrivacyMode \<Rightarrow> OuterEnvelope list \<Rightarrow> (Hop \<times> bytes) list PrivacyTransport \<Rightarrow> bool" where
  "pt_inv mode outers t \<longleftrightarrow> pt_mode t = mode \<and> pt_hop t = hop_for mode \<and>
     (\<forall>p \<in> set (pt_sink t). fst p = hop_for mode) \<and>
     mset (map snd (pt_sink t)) + mset (map pd_bytes (pt_pending t)) = mset (map oe_encode outers) \<and>
     (mode \<in> {Normal, Maximum} \<longrightarrow> pt_pending t = [] \<and> map snd (pt_sink t) = map oe_encode outers)"

lemma pt_inv_flush:
  assumes "pt_inv mode outers t"
  shows "pt_inv mode outers (snd (flush_ready mem_emit t))"
proof -
  let ?now = "\<lambda>p. pd_ready_at_ms p \<le> pt_now_ms t"
  have "mset (map pd_bytes (filter ?now (pt_pending t))) + mset (map pd_bytes (filter (\<lambda>p. \<not> ?now p) (pt_pending t))) =
      mset (map pd_bytes (pt_pending t))"
    by (rule mset_map_split)
  then show ?thesis using assms by (auto simp: pt_inv_def flush_ready_mem comp_def add.assoc)
qed

lemma pt_inv_run: "pt_run mode outers t \<Longrightarrow> pt_inv mode outers t"
proof (induction rule: pt_run.induct)
  case start
  show ?case by (simp add: pt_inv_def pt_new_def)
next
  case (send outers t outer r1 r2)
  then show ?case by (auto simp: pt_inv_def pt_send_def delay_immediate mem_emit_def Let_def)
next
  case (tick outers t now)
  then have "pt_inv mode outers (t\<lparr>pt_now_ms := now\<rparr>)" by (simp add: pt_inv_def)
  then show ?case by (simp add: advance_def pt_inv_flush)
qed

section \<open>Properties\<close>


text \<open>
  A sealed group file opens with its key material to the plaintext, and the blob the host
  stores has the bucket's length whatever the file's. A blob shorter than its own length field
  says, or a key of another length, is refused.
\<close>

theorem group_file_roundtrip:
  assumes "hpke_correct C" "keypair_ok C kp" "length (kp_secret kp) = 32" "length (kp_public kp) = 32"
    and "seal_group_file C kp rnd plaintext = Ok (fkey, bucket, blob)"
  shows "open_group_file C fkey blob = Ok plaintext \<and> length blob = size_inner_len bucket \<and>
    (\<forall>k. length k \<noteq> 64 \<longrightarrow> open_group_file C k blob = Err BadCiphertext)"
proof -
  obtain sealed where sealed: "seal C rnd (kp_public kp) (kp_server_id C kp) plaintext = Ok sealed"
    and bucket: "size_for_len (4 + length sealed) = Ok bucket" and small: "length sealed < 2 ^ 32"
    and fkey: "fkey = kp_secret kp @ kp_public kp"
    and blob: "blob = resize (size_inner_len bucket) (be_bytes 4 (of_nat (length sealed)) @ sealed)"
    using assms(5) by (auto simp: seal_group_file_def rbind_eq_Ok Let_def split: if_splits)
  have "4 + length sealed \<le> size_inner_len bucket" using bucket by (auto simp: size_for_len_def split: if_splits)
  then have blob': "blob = be_bytes 4 (of_nat (length sealed)) @ sealed @ replicate (size_inner_len bucket - (4 + length sealed)) 0"
    by (simp add: blob resize_def del: be_bytes.simps)
  have "unat (of_nat (length sealed) :: u64) < 2 ^ (8 * 4)" using small by simp
  then have "from_be_bytes (take 4 blob) = of_nat (length sealed)"
    using from_be_bytes_small [of "of_nat (length sealed)" 4] by (simp add: blob' del: be_bytes.simps)
  moreover have "length blob = size_inner_len bucket" by (simp add: blob resize_def)
  moreover have "hpke_open C (kp_secret kp) (server_id C (kp_public kp)) sealed = Ok plaintext"
    using open_seal [OF assms(1,2) sealed] by (simp add: kp_server_id_def)
  moreover have "take (length sealed) (drop 4 blob) = sealed" by (simp add: blob' del: be_bytes.simps)
  ultimately show ?thesis
    using assms(3,4) small \<open>4 + length sealed \<le> size_inner_len bucket\<close>
    by (simp add: open_group_file_def KEY_MATERIAL_def fkey)
qed

section \<open>Witnesses\<close>

definition sample_outer :: OuterEnvelope where
  "sample_outer = \<lparr>oe_destination = [1], oe_ciphertext = [2]\<rparr>"


theorem group_file_roundtrip_witness:
  "\<exists>fkey bucket blob. seal_group_file plain_crypto \<lparr>kp_public = replicate 32 3, kp_secret = replicate 32 3\<rparr> [] [1, 2, 3] = Ok (fkey, bucket, blob) \<and>
     open_group_file plain_crypto fkey blob = Ok [1, 2, 3] \<and> length blob = A1"
proof -
  let ?kp = "\<lparr>kp_public = replicate 32 3, kp_secret = replicate 32 3\<rparr>"
  have ok: "keypair_ok plain_crypto ?kp" by (simp add: keypair_ok_def plain_crypto_def)
  obtain fkey blob where s: "seal_group_file plain_crypto ?kp [] [1, 2, 3] = Ok (fkey, SizeA1, blob)"
    by (simp add: seal_group_file_def seal_def size_for_len_def A1_def) (simp add: plain_crypto_def resize_def A1_def)
  from group_file_roundtrip [OF _ ok _ _ s] s show ?thesis by simp
qed

end
