(* ===== verification/Core_Discovery.thy ===== *)
theory Core_Discovery
  imports Core_Error Records
begin

text \<open>
  The client's checks of what untrusted servers say about a contact,
  \<open>nemo-core/src/discovery.rs\<close>: discovery answers, first contact, the pin that remembers the
  highest binding number, and binding gossip.
\<close>

section \<open>Model\<close>

definition DISCOVERY_REFRESH_SECS :: u64 where "DISCOVERY_REFRESH_SECS = 12 * 3600"
definition DISCOVERY_REFRESH_SHOULD_SECS :: u64 where "DISCOVERY_REFRESH_SHOULD_SECS = 4 * 3600"

record Discovery =
  ds_identity_public :: key
  ds_revocation_public :: key
  ds_binding :: HomeServerBinding
  ds_revocation :: "RevocationStatement option"

definition ds_identity_id :: "crypto \<Rightarrow> Discovery \<Rightarrow> key" where
  "ds_identity_id C d = identity_id C (ds_identity_public d)"

definition ds_verify :: "crypto \<Rightarrow> Discovery \<Rightarrow> u64 \<Rightarrow> unit cresult" where
  "ds_verify C d now =
     (if \<not> lib_ed_point C (ds_identity_public d) then Err (Wire Signature)
      else rbind (lift (hb_verify C (ds_binding d) (ds_identity_public d) now)) (\<lambda>_.
        case ds_revocation d of
          Some stmt \<Rightarrow>
            rbind (lift (rs_verifying_key C (ds_revocation_public d))) (\<lambda>rpk.
            rbind (lift (rs_verify C stmt rpk)) (\<lambda>_.
            if rs_identity_id stmt \<noteq> ds_identity_id C d then Err IdentityMismatch else Ok ()))
        | None \<Rightarrow> Ok ()))"

definition check_not_revoked :: "Discovery \<Rightarrow> unit cresult" where
  "check_not_revoked d = (if ds_revocation d \<noteq> None then Err Revoked else Ok ())"

definition resolve_contact :: "crypto \<Rightarrow> ContactCard \<Rightarrow> Discovery \<Rightarrow> u64 \<Rightarrow> HomeServerBinding cresult" where
  "resolve_contact C cc d now =
     rbind (lift (cc_verify C cc now)) (\<lambda>_.
     rbind (ds_verify C d now) (\<lambda>_.
     if ds_identity_public d \<noteq> cc_identity_public cc then Err IdentityMismatch
     else if ds_revocation_public d \<noteq> cc_revocation_public cc then Err IdentityMismatch
     else rbind (check_not_revoked d) (\<lambda>_.
       if hb_seq (ds_binding d) < hb_seq (cc_binding cc) then Err BindingDowngrade
       else Ok (ds_binding d))))"

record ContactPin =
  pin_identity_id :: key
  pin_identity_public :: key
  pin_revocation_public :: key
  pin_seq :: u64

definition pin_from_card :: "crypto \<Rightarrow> ContactCard \<Rightarrow> ContactPin" where
  "pin_from_card C cc = \<lparr>pin_identity_id = cc_identity_id C cc, pin_identity_public = cc_identity_public cc,
     pin_revocation_public = cc_revocation_public cc, pin_seq = hb_seq (cc_binding cc)\<rparr>"

definition pin_refresh :: "crypto \<Rightarrow> Discovery \<Rightarrow> u64 \<Rightarrow> ContactPin \<Rightarrow> HomeServerBinding cresult \<times> ContactPin" where
  "pin_refresh C d now pin =
     (case ds_verify C d now of
        Err e \<Rightarrow> (Err e, pin)
      | Ok _ \<Rightarrow>
          if ds_identity_public d \<noteq> pin_identity_public pin then (Err IdentityMismatch, pin)
          else
            (case check_not_revoked d of
               Err e \<Rightarrow> (Err e, pin)
             | Ok _ \<Rightarrow>
                 if hb_seq (ds_binding d) < pin_seq pin then (Err BindingDowngrade, pin)
                 else (Ok (ds_binding d), pin\<lparr>pin_seq := hb_seq (ds_binding d)\<rparr>)))"

datatype BindingGossipCheck = Match | Ahead | Conflict

definition classify_binding_gossip :: "u64 \<Rightarrow> key \<Rightarrow> u64 \<Rightarrow> key \<Rightarrow> BindingGossipCheck" where
  "classify_binding_gossip pin_s pin_server gossip_seq gossip_server =
     (if gossip_seq = pin_s \<and> gossip_server = pin_server then Match
      else if gossip_seq > pin_s then Ahead
      else Conflict)"

section \<open>Lemmas\<close>

lemma pin_refresh_outcome:
  "(\<exists>e. pin_refresh C d now pin = (Err e, pin)) \<or>
   pin_refresh C d now pin = (Ok (ds_binding d), pin\<lparr>pin_seq := hb_seq (ds_binding d)\<rparr>) \<and> ds_verify C d now = Ok () \<and>
     ds_identity_public d = pin_identity_public pin \<and> ds_revocation d = None \<and> pin_seq pin \<le> hb_seq (ds_binding d)"
  by (auto simp: pin_refresh_def check_not_revoked_def not_less split: sum.split)

text \<open>A sequence of refreshes, each with its own answer and time; errors leave the pin as it is.\<close>

definition pin_refreshes :: "crypto \<Rightarrow> (Discovery \<times> u64) list \<Rightarrow> ContactPin \<Rightarrow> ContactPin" where
  "pin_refreshes C answers pin = fold (\<lambda>(d, now) p. snd (pin_refresh C d now p)) answers pin"

lemma pin_refreshes_inv:
  "pin_seq pin \<le> pin_seq (pin_refreshes C answers pin) \<and>
   pin_identity_public (pin_refreshes C answers pin) = pin_identity_public pin \<and>
   pin_revocation_public (pin_refreshes C answers pin) = pin_revocation_public pin \<and>
   (pin_seq (pin_refreshes C answers pin) = pin_seq pin \<or>
    (\<exists>(d, now) \<in> set answers. ds_verify C d now = Ok () \<and> ds_identity_public d = pin_identity_public pin \<and>
       hb_seq (ds_binding d) = pin_seq (pin_refreshes C answers pin)))"
proof (induction answers arbitrary: pin)
  case (Cons a answers)
  obtain d now where a: "a = (d, now)" by (cases a)
  from pin_refresh_outcome [of C d now pin] show ?case
  proof (elim disjE exE conjE)
    fix e assume "pin_refresh C d now pin = (Err e, pin)"
    with Cons.IH [of pin] show ?thesis by (auto simp: pin_refreshes_def a)
  next
    assume "pin_refresh C d now pin = (Ok (ds_binding d), pin\<lparr>pin_seq := hb_seq (ds_binding d)\<rparr>)"
      "ds_verify C d now = Ok ()" "ds_identity_public d = pin_identity_public pin" "pin_seq pin \<le> hb_seq (ds_binding d)"
    with Cons.IH [of "pin\<lparr>pin_seq := hb_seq (ds_binding d)\<rparr>"] show ?thesis by (force simp: pin_refreshes_def a)
  qed
qed (simp add: pin_refreshes_def)

section \<open>Properties\<close>

text \<open>
  First contact: the binding a client goes on with is exactly the one discovery returned, signed
  by the card's identity and unexpired, for the identity and the revocation key of the card, not
  revoked and not older than the card's; anything else is an error.
\<close>

theorem resolve_contact_iff:
  "resolve_contact C cc d now = Ok b \<longleftrightarrow>
     b = ds_binding d \<and> cc_verify C cc now = Ok () \<and> lib_ed_point C (cc_identity_public cc) \<and>
     hb_verify C b (cc_identity_public cc) now = Ok () \<and> ds_identity_public d = cc_identity_public cc \<and>
     ds_revocation_public d = cc_revocation_public cc \<and> ds_revocation d = None \<and> hb_seq (cc_binding cc) \<le> hb_seq b"
  by (auto simp: resolve_contact_def ds_verify_def check_not_revoked_def rbind_eq_Ok not_less split: option.splits if_splits)

text \<open>
  A pinned contact is never rolled back: whatever discovery answers, in whatever order, the
  pin's identity stays and its number never falls, and a number it rises to comes from an answer
  whose binding verifies under the pinned identity key.
\<close>

theorem pin_never_rolls_back:
  "pin_seq pin \<le> pin_seq (pin_refreshes C answers pin) \<and>
   pin_identity_public (pin_refreshes C answers pin) = pin_identity_public pin \<and>
   pin_revocation_public (pin_refreshes C answers pin) = pin_revocation_public pin \<and>
   (pin_seq (pin_refreshes C answers pin) = pin_seq pin \<or>
    (\<exists>(d, now) \<in> set answers. ds_verify C d now = Ok () \<and> ds_identity_public d = pin_identity_public pin \<and>
       hb_seq (ds_binding d) = pin_seq (pin_refreshes C answers pin)))"
  by (rule pin_refreshes_inv)

text \<open>
  The pinned revocation key is not compared on refresh: a server can answer with the contact's
  genuine binding, a revocation key of its own and a statement signed with that key, and the
  client takes the contact for revoked.
\<close>

theorem refresh_takes_forged_revocation:
  assumes "ed25519_correct C" "lib_ed_point C (pin_identity_public pin)" "hb_verify C b (pin_identity_public pin) now = Ok ()"
    and "rs_sign C forger (identity_id C (pin_identity_public pin)) ts = Ok stmt"
  shows "pin_refresh C \<lparr>ds_identity_public = pin_identity_public pin, ds_revocation_public = lib_ed_public C forger,
    ds_binding = b, ds_revocation = Some stmt\<rparr> now pin = (Err Revoked, pin)"
proof -
  have "rs_verify C stmt (lib_ed_public C forger) = Ok ()" "rs_identity_id stmt = identity_id C (pin_identity_public pin)"
    using assms(4) verify_sign_ok [OF assms(1)]
    by (auto simp: rs_sign_def rs_verify_def Let_def rbind_eq_Ok rs_unsigned_cbor_def rs_fields_def)
  moreover have "rs_verifying_key C (lib_ed_public C forger) = Ok (lib_ed_public C forger)"
    using assms(1) by (simp add: rs_verifying_key_def ed25519_correct_def)
  ultimately show ?thesis
    using assms(2,3) by (simp add: pin_refresh_def ds_verify_def ds_identity_id_def check_not_revoked_def)
qed

section \<open>Witnesses\<close>

definition sample_pin :: ContactPin where
  "sample_pin = \<lparr>pin_identity_id = identity_id plain_crypto (replicate 32 1), pin_identity_public = replicate 32 1,
     pin_revocation_public = replicate 32 2, pin_seq = 1\<rparr>"

theorem refresh_takes_forged_revocation_witness:
  "\<exists>b stmt. hb_verify plain_crypto b (pin_identity_public sample_pin) 500 = Ok () \<and>
     lib_ed_public plain_crypto [9] \<noteq> pin_revocation_public sample_pin \<and>
     pin_refresh plain_crypto \<lparr>ds_identity_public = pin_identity_public sample_pin, ds_revocation_public = lib_ed_public plain_crypto [9],
       ds_binding = b, ds_revocation = Some stmt\<rparr> 500 sample_pin = (Err Revoked, sample_pin)"
proof -
  obtain s where s: "sign plain_crypto (replicate 32 1) HOME_SERVER_BINDING (hb_unsigned_cbor sample_binding) = Ok s" by (simp add: sign_total)
  let ?b = "sample_binding\<lparr>hb_signature := s\<rparr>"
  have pk: "lib_ed_public plain_crypto (replicate 32 1) = pin_identity_public sample_pin"
    by (simp add: sample_pin_def plain_crypto_def resize_def)
  have "hb_unsigned_cbor ?b = hb_unsigned_cbor sample_binding" by (simp add: hb_unsigned_cbor_def)
  then have "verify plain_crypto (pin_identity_public sample_pin) HOME_SERVER_BINDING (hb_unsigned_cbor ?b) s = Ok ()"
    using verify_sign_ok [OF _ s] pk by simp
  moreover have "\<not> 500 > hb_expires_at ?b + CLOCK_SKEW_SECS" by (simp add: sample_binding_def CLOCK_SKEW_SECS_def)
  ultimately have b: "hb_verify plain_crypto ?b (pin_identity_public sample_pin) 500 = Ok ()"
    using sample_host_ok sample_binding_server by (simp add: hb_verify_def)
  obtain stmt where stmt: "rs_sign plain_crypto [9] (identity_id plain_crypto (pin_identity_public sample_pin)) 7 = Ok stmt"
    by (simp add: rs_sign_def sign_total)
  have "lib_ed_point plain_crypto (pin_identity_public sample_pin)" by (simp add: sample_pin_def plain_crypto_def)
  from refresh_takes_forged_revocation [OF _ this b stmt] have "pin_refresh plain_crypto \<lparr>ds_identity_public = pin_identity_public sample_pin,
      ds_revocation_public = lib_ed_public plain_crypto [9], ds_binding = ?b, ds_revocation = Some stmt\<rparr> 500 sample_pin = (Err Revoked, sample_pin)"
    by simp
  moreover have "lib_ed_public plain_crypto [9] \<noteq> pin_revocation_public sample_pin" by code_simp
  ultimately show ?thesis using b by blast
qed

end
