(* ===== verification/App_Message.thy ===== *)
theory App_Message
  imports Core_Error
begin

text \<open>
  The end-to-end encrypted application messages, \<open>nemo-core/src/app.rs\<close>: the message types
  with their CBOR encoding, the limits every message is checked against, relay-only ICE
  candidates, and the signed self-introduction that lets a stranger's message be answered.
\<close>

section \<open>Model\<close>

definition TEXT_MAX_BYTES :: nat where "TEXT_MAX_BYTES = 8192"
definition EMOJI_MAX_BYTES :: nat where "EMOJI_MAX_BYTES = 32"
definition GROUP_NAME_MAX_BYTES :: nat where "GROUP_NAME_MAX_BYTES = 128"
definition CALL_ID_LEN :: nat where "CALL_ID_LEN = 16"
definition CONTACT_CAP_LEN :: nat where "CONTACT_CAP_LEN = KEY_LEN"

subsection \<open>The self-introduction\<close>

record CapabilityIntro =
  ci_identity_id :: key
  ci_identity_public :: key
  ci_revocation_public :: key
  ci_dest_hpke :: key
  ci_binding_seq :: u64
  ci_session_key :: bytes
  ci_recipient :: key
  ci_signature :: bytes

definition ci_signed_payload :: "CapabilityIntro \<Rightarrow> key \<Rightarrow> bytes" where
  "ci_signed_payload i cap = encode (Map
     [(0, version_value),
      (1, Bytes (ci_recipient i)),
      (2, Bytes (ci_session_key i)),
      (3, Bytes cap),
      (4, Bytes (ci_identity_public i)),
      (5, Bytes (ci_revocation_public i)),
      (6, Bytes (ci_dest_hpke i)),
      (7, Uint (ci_binding_seq i))])"

definition ci_verify :: "crypto \<Rightarrow> CapabilityIntro \<Rightarrow> key \<Rightarrow> key \<Rightarrow> unit cresult" where
  "ci_verify C i cap recipient =
     (if ci_recipient i \<noteq> recipient then Err BadIntro
      else if identity_id C (ci_identity_public i) \<noteq> ci_identity_id i then Err BadIntro
      else if \<not> lib_ed_point C (ci_identity_public i) then Err BadIntro
      else map_err (\<lambda>_. BadIntro)
        (verify C (ci_identity_public i) CAPABILITY_INTRO (ci_signed_payload i cap) (ci_signature i)))"

subsection \<open>Messages\<close>

record AppHeader =
  ah_conv_seq :: u64
  ah_sent_at :: u64
  ah_reply_to :: "u64 option"

record FileMeta =
  fm_name :: bytes
  fm_mime :: bytes
  fm_size :: u64

text \<open>\<open>AppBody\<close>; the arguments are the fields, in the order of the source.\<close>

datatype AppBody =
    BText bytes
  | BAttachment bytes FileMeta "key option"
  | BReaction u64 bytes
  | BDelete u64
  | BProtocolAck u64
  | BRead u64
  | BCapability key "CapabilityIntro option"
  | BBindingGossip key u64 key
  | BDisappear u64
  | BGroupName key bytes
  | BCallInvite bytes bytes bytes "bytes list" u64
  | BCallRinging bytes
  | BCallAnswer bytes bytes bytes "bytes list"
  | BCallIce bytes "bytes list"
  | BCallReject bytes
  | BCallCancel bytes
  | BCallEnd bytes
  | BUnknown bytes

record AppMessage =
  am_header :: AppHeader
  am_body :: AppBody

definition am_text :: "u64 \<Rightarrow> u64 \<Rightarrow> bytes \<Rightarrow> AppMessage" where
  "am_text conv_seq sent_at txt =
     \<lparr>am_header = \<lparr>ah_conv_seq = conv_seq, ah_sent_at = sent_at, ah_reply_to = None\<rparr>, am_body = BText txt\<rparr>"

fun msg_type :: "AppBody \<Rightarrow> bytes" where
  "msg_type (BText _) = str_bytes ''text''"
| "msg_type (BAttachment _ _ _) = str_bytes ''attachment''"
| "msg_type (BReaction _ _) = str_bytes ''reaction''"
| "msg_type (BDelete _) = str_bytes ''delete''"
| "msg_type (BProtocolAck _) = str_bytes ''protocol_ack''"
| "msg_type (BRead _) = str_bytes ''read''"
| "msg_type (BCapability _ _) = str_bytes ''capability''"
| "msg_type (BBindingGossip _ _ _) = str_bytes ''binding_gossip''"
| "msg_type (BDisappear _) = str_bytes ''disappear''"
| "msg_type (BGroupName _ _) = str_bytes ''group_name''"
| "msg_type (BCallInvite _ _ _ _ _) = str_bytes ''call_invite''"
| "msg_type (BCallRinging _) = str_bytes ''call_ringing''"
| "msg_type (BCallAnswer _ _ _ _) = str_bytes ''call_answer''"
| "msg_type (BCallIce _ _) = str_bytes ''call_ice''"
| "msg_type (BCallReject _) = str_bytes ''call_reject''"
| "msg_type (BCallCancel _) = str_bytes ''call_cancel''"
| "msg_type (BCallEnd _) = str_bytes ''call_end''"
| "msg_type (BUnknown t) = t"

subsection \<open>ICE candidates\<close>

text \<open>
  The length of the white space character a string starts with, 0 if it starts with another:
  the code points with Unicode's \<open>White_Space\<close> property, in UTF-8.
\<close>

fun ws_len :: "bytes \<Rightarrow> nat" where
  "ws_len [] = 0"
| "ws_len (b # bs) =
     (if in_range 0x09 0x0D b \<or> b = 0x20 then 1
      else if b = 0xC2 then (case bs of c # _ \<Rightarrow> if c = 0x85 \<or> c = 0xA0 then 2 else 0 | _ \<Rightarrow> 0)
      else if b = 0xE1 then (case bs of c # d # _ \<Rightarrow> if c = 0x9A \<and> d = 0x80 then 3 else 0 | _ \<Rightarrow> 0)
      else if b = 0xE2 then
        (case bs of c # d # _ \<Rightarrow>
           if c = 0x80 \<and> (in_range 0x80 0x8A d \<or> d = 0xA8 \<or> d = 0xA9 \<or> d = 0xAF) \<or> c = 0x81 \<and> d = 0x9F then 3 else 0
         | _ \<Rightarrow> 0)
      else if b = 0xE3 then (case bs of c # d # _ \<Rightarrow> if c = 0x80 \<and> d = 0x80 then 3 else 0 | _ \<Rightarrow> 0)
      else 0)"

text \<open>\<open>s.split_whitespace()\<close>: the non-empty pieces between white space.\<close>

function split_ws :: "bytes \<Rightarrow> bytes \<Rightarrow> bytes list" where
  "split_ws acc [] = (if acc = [] then [] else [acc])"
| "split_ws acc (b # bs) =
     (if ws_len (b # bs) = 0 then split_ws (acc @ [b]) bs
      else (if acc = [] then [] else [acc]) @ split_ws [] (drop (ws_len (b # bs)) (b # bs)))"
  by pat_completeness auto
termination split_ws
  by (relation "measure (\<lambda>(acc, bs). length bs)") auto

definition split_whitespace :: "bytes \<Rightarrow> bytes list" where
  "split_whitespace s = split_ws [] s"

definition to_ascii_lowercase :: "bytes \<Rightarrow> bytes" where
  "to_ascii_lowercase s = map (\<lambda>b. if in_range 0x41 0x5A b then b + 0x20 else b) s"

fun ice_typ_loop :: "bytes \<Rightarrow> bytes list \<Rightarrow> bytes \<Rightarrow> bool" where
  "ice_typ_loop prev [] typ = False"
| "ice_typ_loop prev (tok # toks) typ = (prev = str_bytes ''typ'' \<and> tok = typ \<or> ice_typ_loop tok toks typ)"

definition ice_typ :: "bytes \<Rightarrow> bytes \<Rightarrow> bool" where
  "ice_typ candidate typ = ice_typ_loop [] (split_whitespace candidate) typ"

fun reject_direct_ice :: "bytes list \<Rightarrow> unit cresult" where
  "reject_direct_ice [] = Ok ()"
| "reject_direct_ice (c # ice) =
     (let lower = to_ascii_lowercase c in
      if ice_typ lower (str_bytes ''host'') \<or> ice_typ lower (str_bytes ''srflx'') then Err DirectIceForbidden
      else reject_direct_ice ice)"

subsection \<open>Encoding\<close>

definition validate :: "AppMessage \<Rightarrow> unit cresult" where
  "validate msg =
     (case am_body msg of
        BText txt \<Rightarrow> if length txt > TEXT_MAX_BYTES then Err TextTooLong else Ok ()
      | BGroupName _ name \<Rightarrow> if length name > GROUP_NAME_MAX_BYTES then Err TextTooLong else Ok ()
      | BReaction _ emoji \<Rightarrow> if length emoji > EMOJI_MAX_BYTES then Err EmojiTooLong else Ok ()
      | BCallInvite _ _ _ ice _ \<Rightarrow> reject_direct_ice ice
      | BCallAnswer _ _ _ ice \<Rightarrow> reject_direct_ice ice
      | BCallIce _ ice \<Rightarrow> reject_direct_ice ice
      | _ \<Rightarrow> Ok ())"

definition encode_meta :: "FileMeta \<Rightarrow> Value" where
  "encode_meta meta = Map [(0, Text (fm_name meta)), (1, Text (fm_mime meta)), (2, Uint (fm_size meta))]"

definition decode_meta :: "Value \<Rightarrow> FileMeta cresult" where
  "decode_meta v =
     rbind (lift (expect_map v)) (\<lambda>m.
     rbind (lift (get_text m 0)) (\<lambda>name.
     rbind (lift (get_text m 1)) (\<lambda>mime.
     rbind (lift (get_uint m 2)) (\<lambda>size.
       Ok \<lparr>fm_name = name, fm_mime = mime, fm_size = size\<rparr>))))"

definition ice_value :: "bytes list \<Rightarrow> Value" where
  "ice_value ice = Array (map Text ice)"

definition decode_ice :: "Value \<Rightarrow> bytes list cresult" where
  "decode_ice v = rbind (lift (expect_array v)) (rmap (\<lambda>item. lift (expect_text item)))"

fun extra_fields :: "AppBody \<Rightarrow> (u64 \<times> Value) list" where
  "extra_fields (BText txt) = [(5, Text txt)]"
| "extra_fields (BAttachment enc_file meta fetch_token) =
     [(5, Bytes enc_file), (6, encode_meta meta)] @
     (case fetch_token of Some tok \<Rightarrow> [(7, Bytes tok)] | None \<Rightarrow> [])"
| "extra_fields (BReaction target emoji) = [(5, Uint target), (6, Text emoji)]"
| "extra_fields (BDelete target) = [(5, Uint target)]"
| "extra_fields (BProtocolAck up_to) = [(5, Uint up_to)]"
| "extra_fields (BRead up_to) = [(5, Uint up_to)]"
| "extra_fields (BCapability cap intro) =
     (5, Bytes cap) #
     (case intro of
        Some i \<Rightarrow>
          [(6, Bytes (ci_identity_id i)),
           (7, Bytes (ci_identity_public i)),
           (8, Bytes (ci_revocation_public i)),
           (9, Bytes (ci_dest_hpke i)),
           (10, Uint (ci_binding_seq i)),
           (11, Bytes (ci_session_key i)),
           (12, Bytes (ci_recipient i)),
           (13, Bytes (ci_signature i))]
      | None \<Rightarrow> [])"
| "extra_fields (BBindingGossip ident seq server) = [(5, Bytes ident), (6, Uint seq), (7, Bytes server)]"
| "extra_fields (BDisappear seconds) = [(5, Uint seconds)]"
| "extra_fields (BGroupName gid name) = [(5, Bytes gid), (6, Text name)]"
| "extra_fields (BCallInvite cid sdp fp ice expires_at) =
     [(5, Bytes cid), (6, Text sdp), (7, Text fp), (8, ice_value ice), (9, Uint expires_at)]"
| "extra_fields (BCallRinging cid) = [(5, Bytes cid)]"
| "extra_fields (BCallAnswer cid sdp fp ice) = [(5, Bytes cid), (6, Text sdp), (7, Text fp), (8, ice_value ice)]"
| "extra_fields (BCallIce cid ice) = [(5, Bytes cid), (6, ice_value ice)]"
| "extra_fields (BCallReject cid) = [(5, Bytes cid)]"
| "extra_fields (BCallCancel cid) = [(5, Bytes cid)]"
| "extra_fields (BCallEnd cid) = [(5, Bytes cid)]"
| "extra_fields (BUnknown _) = []"

text \<open>The pairs of a message's map, and \<open>encode\<close>.\<close>

definition am_pairs :: "AppMessage \<Rightarrow> (u64 \<times> Value) list" where
  "am_pairs msg =
     [(0, version_value),
      (1, Text (msg_type (am_body msg))),
      (2, Uint (ah_conv_seq (am_header msg))),
      (3, Uint (ah_sent_at (am_header msg)))] @
     (case ah_reply_to (am_header msg) of Some reply_to \<Rightarrow> [(4, Uint reply_to)] | None \<Rightarrow> []) @
     extra_fields (am_body msg)"

definition is_unknown :: "AppBody \<Rightarrow> bool" where
  "is_unknown b = (case b of BUnknown _ \<Rightarrow> True | _ \<Rightarrow> False)"

definition am_encode :: "AppMessage \<Rightarrow> bytes cresult" where
  "am_encode msg =
     (if is_unknown (am_body msg) then Err (Wire (Cbor ''cannot encode unknown msg_type''))
      else rbind (validate msg) (\<lambda>_. Ok (encode (Map (am_pairs msg)))))"

definition encode_text :: "u64 \<Rightarrow> u64 \<Rightarrow> bytes \<Rightarrow> bytes cresult" where
  "encode_text conv_seq sent_at txt = am_encode (am_text conv_seq sent_at txt)"

subsection \<open>Decoding\<close>

definition call_id :: "(u64 \<times> Value) list \<Rightarrow> u64 \<Rightarrow> bytes cresult" where
  "call_id m k = lift (get_fixed CALL_ID_LEN m k)"

definition get_ice :: "(u64 \<times> Value) list \<Rightarrow> u64 \<Rightarrow> bytes list cresult" where
  "get_ice m k = rbind (lift (map_get m k)) decode_ice"

text \<open>An entry of the signed part of an introduction: a missing one is \<open>BadIntro\<close>.\<close>

definition intro_entry :: "(u64 \<times> Value) list \<Rightarrow> u64 \<Rightarrow> bytes cresult" where
  "intro_entry m k = rbind (map_err (\<lambda>_. BadIntro) (map_get m k)) (\<lambda>v. lift (expect_bytes v))"

definition parse_intro :: "(u64 \<times> Value) list \<Rightarrow> Value \<Rightarrow> CapabilityIntro cresult" where
  "parse_intro m v =
     rbind (lift (rbind (expect_bytes v) (copy_fixed KEY_LEN))) (\<lambda>ident.
     rbind (lift (get_fixed KEY_LEN m 7)) (\<lambda>ipk.
     rbind (lift (get_fixed KEY_LEN m 8)) (\<lambda>rpk.
     rbind (lift (get_fixed KEY_LEN m 9)) (\<lambda>hpke.
     rbind (lift (get_uint m 10)) (\<lambda>seq.
     rbind (intro_entry m 11) (\<lambda>session.
     rbind (rbind (intro_entry m 12) (\<lambda>b. lift (copy_fixed KEY_LEN b))) (\<lambda>recipient.
     rbind (rbind (intro_entry m 13) (\<lambda>b. lift (copy_fixed SIG_LEN b))) (\<lambda>sig.
       Ok \<lparr>ci_identity_id = ident, ci_identity_public = ipk, ci_revocation_public = rpk, ci_dest_hpke = hpke,
            ci_binding_seq = seq, ci_session_key = session, ci_recipient = recipient, ci_signature = sig\<rparr>))))))))"

definition parse_body :: "bytes \<Rightarrow> (u64 \<times> Value) list \<Rightarrow> AppBody cresult" where
  "parse_body t m =
     (if t = str_bytes ''text'' then rbind (lift (get_text m 5)) (\<lambda>x. Ok (BText x))
      else if t = str_bytes ''attachment'' then
        rbind (lift (get_bytes m 5)) (\<lambda>enc_file.
        rbind (rbind (lift (map_get m 6)) decode_meta) (\<lambda>meta.
        rbind (lift (get_fixed_opt KEY_LEN m 7)) (\<lambda>tok. Ok (BAttachment enc_file meta tok))))
      else if t = str_bytes ''reaction'' then
        rbind (lift (get_uint m 5)) (\<lambda>target. rbind (lift (get_text m 6)) (\<lambda>emoji. Ok (BReaction target emoji)))
      else if t = str_bytes ''delete'' then rbind (lift (get_uint m 5)) (\<lambda>x. Ok (BDelete x))
      else if t = str_bytes ''protocol_ack'' then rbind (lift (get_uint m 5)) (\<lambda>x. Ok (BProtocolAck x))
      else if t = str_bytes ''read'' then rbind (lift (get_uint m 5)) (\<lambda>x. Ok (BRead x))
      else if t = str_bytes ''capability'' then
        rbind (lift (get_fixed CONTACT_CAP_LEN m 5)) (\<lambda>cap.
        rbind (case map_get_opt m 6 of Some v \<Rightarrow> rbind (parse_intro m v) (\<lambda>i. Ok (Some i)) | None \<Rightarrow> Ok None) (\<lambda>intro.
          Ok (BCapability cap intro)))
      else if t = str_bytes ''binding_gossip'' then
        rbind (lift (get_fixed KEY_LEN m 5)) (\<lambda>ident.
        rbind (lift (get_uint m 6)) (\<lambda>seq.
        rbind (lift (get_fixed KEY_LEN m 7)) (\<lambda>server. Ok (BBindingGossip ident seq server))))
      else if t = str_bytes ''disappear'' then rbind (lift (get_uint m 5)) (\<lambda>x. Ok (BDisappear x))
      else if t = str_bytes ''group_name'' then
        rbind (lift (get_fixed KEY_LEN m 5)) (\<lambda>gid. rbind (lift (get_text m 6)) (\<lambda>name. Ok (BGroupName gid name)))
      else if t = str_bytes ''call_invite'' then
        rbind (call_id m 5) (\<lambda>cid.
        rbind (lift (get_text m 6)) (\<lambda>sdp.
        rbind (lift (get_text m 7)) (\<lambda>fp.
        rbind (get_ice m 8) (\<lambda>ice.
        rbind (lift (get_uint m 9)) (\<lambda>expires_at. Ok (BCallInvite cid sdp fp ice expires_at))))))
      else if t = str_bytes ''call_ringing'' then rbind (call_id m 5) (\<lambda>cid. Ok (BCallRinging cid))
      else if t = str_bytes ''call_answer'' then
        rbind (call_id m 5) (\<lambda>cid.
        rbind (lift (get_text m 6)) (\<lambda>sdp.
        rbind (lift (get_text m 7)) (\<lambda>fp.
        rbind (get_ice m 8) (\<lambda>ice. Ok (BCallAnswer cid sdp fp ice)))))
      else if t = str_bytes ''call_ice'' then
        rbind (call_id m 5) (\<lambda>cid. rbind (get_ice m 6) (\<lambda>ice. Ok (BCallIce cid ice)))
      else if t = str_bytes ''call_reject'' then rbind (call_id m 5) (\<lambda>cid. Ok (BCallReject cid))
      else if t = str_bytes ''call_cancel'' then rbind (call_id m 5) (\<lambda>cid. Ok (BCallCancel cid))
      else if t = str_bytes ''call_end'' then rbind (call_id m 5) (\<lambda>cid. Ok (BCallEnd cid))
      else Ok (BUnknown t))"

definition am_decode :: "bytes \<Rightarrow> AppMessage cresult" where
  "am_decode bs =
     rbind (lift (decode_map ''app message must be a map'' bs)) (\<lambda>m.
     rbind (lift (check_version m)) (\<lambda>_.
     rbind (lift (get_text m 1)) (\<lambda>t.
     rbind (lift (get_uint m 2)) (\<lambda>conv_seq.
     rbind (lift (get_uint m 3)) (\<lambda>sent_at.
     rbind (case map_get_opt m 4 of Some v \<Rightarrow> rbind (lift (expect_uint v)) (\<lambda>x. Ok (Some x)) | None \<Rightarrow> Ok None) (\<lambda>reply_to.
     rbind (parse_body t m) (\<lambda>body.
     let msg = \<lparr>am_header = \<lparr>ah_conv_seq = conv_seq, ah_sent_at = sent_at, ah_reply_to = reply_to\<rparr>, am_body = body\<rparr> in
     if \<not> is_unknown body then rbind (validate msg) (\<lambda>_. Ok msg) else Ok msg)))))))"

definition decode_text :: "bytes \<Rightarrow> (u64 \<times> bytes) cresult" where
  "decode_text bs = rbind (am_decode bs) (\<lambda>msg.
     case am_body msg of
       BText txt \<Rightarrow> Ok (ah_conv_seq (am_header msg), txt)
     | _ \<Rightarrow> Err (Wire (Cbor ''expected text'')))"

section \<open>Lemmas\<close>

subsection \<open>Well-formed messages\<close>

text \<open>The messages of the Rust type that pass \<open>validate\<close>: strings are UTF-8, arrays have their length.\<close>

definition str_ok :: "bytes \<Rightarrow> bool" where
  "str_ok s \<longleftrightarrow> utf8_valid s \<and> length s < 2 ^ 64"

definition ice_ok :: "bytes list \<Rightarrow> bool" where
  "ice_ok ice \<longleftrightarrow> length ice < 2 ^ 64 \<and> list_all str_ok ice \<and> reject_direct_ice ice = Ok ()"

definition intro_wf :: "CapabilityIntro \<Rightarrow> bool" where
  "intro_wf i \<longleftrightarrow> length (ci_identity_id i) = 32 \<and> length (ci_identity_public i) = 32 \<and>
     length (ci_revocation_public i) = 32 \<and> length (ci_dest_hpke i) = 32 \<and> length (ci_session_key i) < 2 ^ 64 \<and>
     length (ci_recipient i) = 32 \<and> length (ci_signature i) = 64"

fun body_wf :: "AppBody \<Rightarrow> bool" where
  "body_wf (BText txt) = (utf8_valid txt \<and> length txt \<le> TEXT_MAX_BYTES)"
| "body_wf (BAttachment enc_file meta tok) = (length enc_file < 2 ^ 64 \<and> str_ok (fm_name meta) \<and> str_ok (fm_mime meta) \<and>
     (\<forall>t. tok = Some t \<longrightarrow> length t = 32))"
| "body_wf (BReaction _ emoji) = (utf8_valid emoji \<and> length emoji \<le> EMOJI_MAX_BYTES)"
| "body_wf (BCapability cap intro) = (length cap = 32 \<and> (\<forall>i. intro = Some i \<longrightarrow> intro_wf i))"
| "body_wf (BBindingGossip ident _ server) = (length ident = 32 \<and> length server = 32)"
| "body_wf (BGroupName gid name) = (length gid = 32 \<and> utf8_valid name \<and> length name \<le> GROUP_NAME_MAX_BYTES)"
| "body_wf (BCallInvite cid sdp fp ice _) = (length cid = 16 \<and> str_ok sdp \<and> str_ok fp \<and> ice_ok ice)"
| "body_wf (BCallRinging cid) = (length cid = 16)"
| "body_wf (BCallAnswer cid sdp fp ice) = (length cid = 16 \<and> str_ok sdp \<and> str_ok fp \<and> ice_ok ice)"
| "body_wf (BCallIce cid ice) = (length cid = 16 \<and> ice_ok ice)"
| "body_wf (BCallReject cid) = (length cid = 16)"
| "body_wf (BCallCancel cid) = (length cid = 16)"
| "body_wf (BCallEnd cid) = (length cid = 16)"
| "body_wf (BUnknown _) = False"
| "body_wf _ = True"

lemmas limit_defs = TEXT_MAX_BYTES_def EMOJI_MAX_BYTES_def GROUP_NAME_MAX_BYTES_def CALL_ID_LEN_def CONTACT_CAP_LEN_def

lemma msg_types_utf8 [simp]:
  "utf8_valid (str_bytes ''text'')" "utf8_valid (str_bytes ''attachment'')" "utf8_valid (str_bytes ''reaction'')"
  "utf8_valid (str_bytes ''delete'')" "utf8_valid (str_bytes ''protocol_ack'')" "utf8_valid (str_bytes ''read'')"
  "utf8_valid (str_bytes ''capability'')" "utf8_valid (str_bytes ''binding_gossip'')" "utf8_valid (str_bytes ''disappear'')"
  "utf8_valid (str_bytes ''group_name'')" "utf8_valid (str_bytes ''call_invite'')" "utf8_valid (str_bytes ''call_ringing'')"
  "utf8_valid (str_bytes ''call_answer'')" "utf8_valid (str_bytes ''call_ice'')" "utf8_valid (str_bytes ''call_reject'')"
  "utf8_valid (str_bytes ''call_cancel'')" "utf8_valid (str_bytes ''call_end'')"
  by code_simp+

lemma body_wf_validate: "body_wf (am_body msg) \<Longrightarrow> validate msg = Ok () \<and> \<not> is_unknown (am_body msg)"
  by (cases "am_body msg") (simp_all add: validate_def is_unknown_def ice_ok_def not_less)

lemma meta_roundtrip [simp]: "decode_meta (encode_meta meta) = Ok meta"
  by (simp add: decode_meta_def encode_meta_def)

lemma ice_roundtrip [simp]: "decode_ice (ice_value ice) = Ok ice"
  by (simp add: decode_ice_def ice_value_def rmap_map_Ok)

lemma fields_wf:
  assumes "body_wf b" "(k, v) \<in> set (extra_fields b)"
  shows "wf_value v \<and> sorted_value v"
  using assms
  by (cases b rule: extra_fields.cases)
    (auto simp: limit_defs str_ok_def ice_ok_def intro_wf_def encode_meta_def ice_value_def list_all_iff split: option.splits)

lemma pairs_sorted: "sorted_wrt (<) (map fst (am_pairs msg))"
  by (cases "am_body msg"; cases "ah_reply_to (am_header msg)") (auto simp: am_pairs_def split: option.split)

lemma pairs_wf:
  assumes "body_wf (am_body msg)"
  shows "wf_value (Map (am_pairs msg)) \<and> sorted_value (Map (am_pairs msg))"
proof -
  have "length (extra_fields b) < 15" for b by (cases b) (auto split: option.split)
  then have "length (am_pairs msg) < 2 ^ 64"
    using less_trans [of "length (extra_fields (am_body msg))" 15] by (simp add: am_pairs_def split: option.split)
  moreover have "utf8_valid (msg_type (am_body msg)) \<and> length (msg_type (am_body msg)) < 2 ^ 64"
    using assms by (cases "am_body msg") simp_all
  then have "wf_value v \<and> sorted_value v" if "(k, v) \<in> set (am_pairs msg)" for k v
    using that fields_wf [OF assms] by (auto simp: am_pairs_def split: option.splits)
  moreover have "distinct (map fst (am_pairs msg))"
    using pairs_sorted [of msg] by (simp add: strict_sorted_iff)
  ultimately show ?thesis using pairs_sorted [of msg] by fastforce
qed

lemma parse_own_fields:
  assumes "body_wf (am_body msg)"
  shows "parse_body (msg_type (am_body msg)) (am_pairs msg) = Ok (am_body msg)"
  using assms
  by (cases "am_body msg"; cases "ah_reply_to (am_header msg)")
    (auto simp: am_pairs_def parse_body_def limit_defs call_id_def get_ice_def map_get_def parse_intro_def intro_entry_def intro_wf_def
      ice_ok_def split: option.split)

lemma am_decode_encode:
  assumes "body_wf (am_body msg)"
  shows "am_decode (encode (Map (am_pairs msg))) = Ok msg"
proof -
  have "decode_map c (encode (Map (am_pairs msg))) = Ok (am_pairs msg)" for c
    using pairs_wf [OF assms] by (intro decode_map_encode) simp_all
  moreover have "map_get_opt (extra_fields b) 4 = None" for b by (cases b) (simp_all split: option.split)
  then have "map_get_opt (am_pairs msg) 4 = map_option Uint (ah_reply_to (am_header msg))"
    by (simp add: am_pairs_def split: option.split)
  moreover have "check_version (am_pairs msg) = Ok ()" "get_text (am_pairs msg) 1 = Ok (msg_type (am_body msg))"
    "get_uint (am_pairs msg) 2 = Ok (ah_conv_seq (am_header msg))" "get_uint (am_pairs msg) 3 = Ok (ah_sent_at (am_header msg))"
    by (simp_all add: am_pairs_def)
  moreover obtain cs sa r b where "msg = \<lparr>am_header = \<lparr>ah_conv_seq = cs, ah_sent_at = sa, ah_reply_to = r\<rparr>, am_body = b\<rparr>"
    by (cases msg, cases "am_header msg") auto
  ultimately show ?thesis
    using parse_own_fields [OF assms] body_wf_validate [OF assms] by (cases r) (simp_all add: am_decode_def)
qed

text \<open>What the decoder returns is well formed.\<close>

lemma expect_array_eq_Ok: "expect_array v = Ok items \<longleftrightarrow> v = Array items"
  by (cases v) auto

lemma decoded_text: "wf_value (Map m) \<Longrightarrow> get_text m k = Ok s \<Longrightarrow> str_ok s"
  using wf_entry(2) by (simp add: str_ok_def get_eq_Ok del: wf_value.simps)

lemma decoded_bytes: "wf_value (Map m) \<Longrightarrow> get_bytes m k = Ok s \<Longrightarrow> length s < 2 ^ 64"
  using wf_entry(3) by (simp add: get_eq_Ok del: wf_value.simps)

lemma decoded_meta:
  assumes "wf_value (Map m)" "map_get m k = Ok v" "decode_meta v = Ok meta"
  shows "str_ok (fm_name meta) \<and> str_ok (fm_mime meta)"
proof -
  obtain m' where "v = Map m'" "get_text m' 0 = Ok (fm_name meta)" "get_text m' 1 = Ok (fm_mime meta)"
    using assms(3) by (auto simp: decode_meta_def rbind_eq_Ok)
  moreover have "wf_value v" using assms(1,2) wf_entry(1) by (simp add: map_get_def del: wf_value.simps)
  ultimately show ?thesis using decoded_text by blast
qed

lemma decoded_ice:
  assumes "wf_value (Map m)" "get_ice m k = Ok ice" "reject_direct_ice ice = Ok ()"
  shows "ice_ok ice"
proof -
  obtain v items where v: "map_get m k = Ok v" "expect_array v = Ok items" and items: "rmap (\<lambda>item. lift (expect_text item)) items = Ok ice"
    using assms(2) unfolding get_ice_def decode_ice_def rbind_eq_Ok map_err_eq_Ok by blast
  have "wf_value (Array items)"
    using wf_entry(1) [OF assms(1), of k] v by (simp add: map_get_def expect_array_eq_Ok del: wf_value.simps)
  then have "length items < 2 ^ 64" "\<forall>s. Text s \<in> set items \<longrightarrow> str_ok s" by (force simp: str_ok_def)+
  moreover have "length ice = length items" using items by (simp add: rmap_eq_Ok list_all2_lengthD)
  moreover have "\<forall>s \<in> set ice. Text s \<in> set items" using items by (rule rmap_Ok_all) auto
  ultimately show ?thesis using assms(3) by (simp add: ice_ok_def list_all_iff)
qed

lemma decoded_intro:
  assumes "wf_value (Map m)" "parse_intro m v = Ok i"
  shows "intro_wf i"
  using assms(2) wf_entry(3) [OF assms(1)]
  by (auto simp: parse_intro_def intro_wf_def intro_entry_def map_get_def result_simps)

lemma parse_body_wf:
  assumes m: "wf_value (Map m)" and b: "parse_body t m = Ok b" and v: "validate \<lparr>am_header = ah, am_body = b\<rparr> = Ok ()" and "\<not> is_unknown b"
  shows "body_wf b"
proof -
  note intros = decoded_text [OF m] decoded_bytes [OF m] decoded_meta [OF m] decoded_ice [OF m] decoded_intro [OF m]
  show ?thesis using b v \<open>\<not> is_unknown b\<close>
    by (auto simp: parse_body_def validate_def limit_defs call_id_def is_unknown_def rbind_eq_Ok not_less get_eq_Ok(2) get_fixed_opt_eq_Ok
        dest!: intros split: if_split_asm option.split_asm simp: str_ok_def)
qed

lemma am_decode_wf:
  assumes "am_decode bs = Ok msg" "\<not> is_unknown (am_body msg)"
  shows "body_wf (am_body msg)"
proof -
  obtain m t where "decode_map ''app message must be a map'' bs = Ok m" and p: "parse_body t m = Ok (am_body msg)" and v: "validate msg = Ok ()"
    using assms by (auto simp: am_decode_def rbind_eq_Ok Let_def split: if_splits)
  then have "wf_value (Map m)" by (simp only: decode_map_eq_Ok decode_wf)
  moreover have "validate \<lparr>am_header = am_header msg, am_body = am_body msg\<rparr> = Ok ()" using v by (cases msg) simp
  ultimately show ?thesis using parse_body_wf p assms(2) by blast
qed

subsection \<open>ICE candidates\<close>

lemma ice_typ_loop_iff:
  "ice_typ_loop prev toks typ \<longleftrightarrow>
     (\<exists>i. Suc i < length (prev # toks) \<and> (prev # toks) ! i = str_bytes ''typ'' \<and> (prev # toks) ! Suc i = typ)"
proof (induction toks arbitrary: prev)
  case (Cons tok toks)
  have "(\<exists>i. Suc i < length (prev # tok # toks) \<and> (prev # tok # toks) ! i = str_bytes ''typ'' \<and> (prev # tok # toks) ! Suc i = typ) \<longleftrightarrow>
      prev = str_bytes ''typ'' \<and> tok = typ \<or>
      (\<exists>i. Suc i < length (tok # toks) \<and> (tok # toks) ! i = str_bytes ''typ'' \<and> (tok # toks) ! Suc i = typ)"
    by (auto simp: less_Suc_eq_0_disj)
  then show ?case using Cons.IH [of tok] by simp
qed simp

text \<open>The candidate's type is \<open>typ\<close>: the word after some word \<open>typ\<close>, in any letter case.\<close>

definition has_typ :: "bytes \<Rightarrow> bytes \<Rightarrow> bool" where
  "has_typ c typ \<longleftrightarrow> (let ws = split_whitespace (to_ascii_lowercase c) in
     \<exists>i. Suc i < length ws \<and> ws ! i = str_bytes ''typ'' \<and> ws ! Suc i = typ)"

lemma ice_typ_iff: "ice_typ (to_ascii_lowercase c) typ \<longleftrightarrow> has_typ c typ"
proof -
  have "str_bytes ''typ'' \<noteq> []" by (simp add: str_bytes_def)
  then show ?thesis
    by (auto simp: ice_typ_def has_typ_def Let_def ice_typ_loop_iff nth_Cons split: nat.split_asm)
qed

lemma reject_direct_ice_eq:
  "reject_direct_ice ice =
     (if list_ex (\<lambda>c. has_typ c (str_bytes ''host'') \<or> has_typ c (str_bytes ''srflx'')) ice then Err DirectIceForbidden else Ok ())"
  by (induction ice) (simp_all add: ice_typ_iff Let_def)

subsection \<open>The signed part of an introduction\<close>

definition ci_body :: "CapabilityIntro \<times> key \<Rightarrow> CapabilityIntro \<times> key" where
  "ci_body x = ((fst x)\<lparr>ci_identity_id := [], ci_signature := []\<rparr>, snd x)"

interpretation intro_sig: signed_object CAPABILITY_INTRO "\<lambda>(i, cap). ci_signed_payload i cap" ci_body "\<lambda>(i, cap). intro_wf i \<and> length cap = 32"
  by unfold_locales (auto simp: contexts_def ci_signed_payload_def encode_inj intro_wf_def ci_body_def intro!: CapabilityIntro.equality)

section \<open>Properties\<close>

text \<open>
  C29. An application message survives encoding and decoding exactly when it is well formed: its
  strings are UTF-8, its keys and identifiers have their lengths, text, group names and emoji
  are within their limits and its candidates pass the relay check. Whatever bytes arrive, the
  decoder returns nothing else, except a message of an unknown type, which has no encoding.
\<close>

theorem app_message_roundtrip:
  "(body_wf (am_body msg) \<longleftrightarrow> (\<exists>bs. am_encode msg = Ok bs \<and> am_decode bs = Ok msg)) \<and>
   (am_decode bs = Ok msg' \<longrightarrow> body_wf (am_body msg') \<or> is_unknown (am_body msg') \<and> (\<exists>e. am_encode msg' = Err e))"
proof -
  have "\<exists>bs. am_encode msg = Ok bs \<and> am_decode bs = Ok msg" if "body_wf (am_body msg)"
    using body_wf_validate [OF that] am_decode_encode [OF that] by (simp add: am_encode_def)
  moreover have "body_wf (am_body msg)" if "am_encode msg = Ok bs" "am_decode bs = Ok msg" for bs
    using that am_decode_wf by (auto simp: am_encode_def split: if_splits)
  ultimately show ?thesis using am_decode_wf [of bs msg'] by (auto simp: am_encode_def)
qed

text \<open>
  The candidate check: a list is refused exactly when one of its candidates names the type
  \<open>host\<close> or \<open>srflx\<close>, in any letter case and with any white space between the words. Every other
  type passes, so a peer-reflexive candidate, which also discloses an address, is accepted.
\<close>

theorem relay_only_check:
  "reject_direct_ice ice =
     (if list_ex (\<lambda>c. has_typ c (str_bytes ''host'') \<or> has_typ c (str_bytes ''srflx'')) ice then Err DirectIceForbidden else Ok ()) \<and>
   reject_direct_ice [str_bytes ''candidate:1 1 udp 1 192.0.2.1 9 typ prflx''] = Ok ()"
proof -
  have "reject_direct_ice [str_bytes ''candidate:1 1 udp 1 192.0.2.1 9 typ prflx''] = Ok ()" by code_simp
  then show ?thesis using reject_direct_ice_eq by blast
qed

text \<open>
  An introduction that verifies was addressed to the verifier, names the identity that hashes
  to its key, and carries that key's signature over the session key, the delivery capability,
  the revocation key, the server key and the binding number: no introduction with other values
  has the same signed bytes.
\<close>

theorem capability_intro_sound:
  assumes "ci_verify C i cap me = Ok ()"
  shows "ci_recipient i = me \<and> ci_identity_id i = identity_id C (ci_identity_public i) \<and>
    verify C (ci_identity_public i) CAPABILITY_INTRO (ci_signed_payload i cap) (ci_signature i) = Ok () \<and>
    (\<forall>i' cap'. intro_wf i \<and> length cap = 32 \<and> intro_wf i' \<and> length cap' = 32 \<and>
       message CAPABILITY_INTRO (ci_signed_payload i cap) = message CAPABILITY_INTRO (ci_signed_payload i' cap') \<longrightarrow>
       cap' = cap \<and> i' = i\<lparr>ci_identity_id := ci_identity_id i', ci_signature := ci_signature i'\<rparr>)"
proof -
  have "cap' = cap \<and> i' = i\<lparr>ci_identity_id := ci_identity_id i', ci_signature := ci_signature i'\<rparr>"
    if "intro_wf i" "length cap = 32" "intro_wf i'" "length cap' = 32"
      "message CAPABILITY_INTRO (ci_signed_payload i cap) = message CAPABILITY_INTRO (ci_signed_payload i' cap')" for i' cap'
    using intro_sig.signed_bytes_inj [of "(i, cap)" "(i', cap')"] that
    by (cases i; cases i') (auto simp: ci_body_def)
  then show ?thesis using assms by (auto simp: ci_verify_def split: if_splits)
qed

section \<open>Witnesses\<close>

theorem app_message_roundtrip_witness:
  "\<exists>bs. encode_text 1 1700000000 (str_bytes ''hello'') = Ok bs \<and> am_decode bs = Ok (am_text 1 1700000000 (str_bytes ''hello'')) \<and>
     decode_text bs = Ok (1, str_bytes ''hello'')"
proof -
  have "utf8_valid (str_bytes ''hello'')" by code_simp
  then have "body_wf (am_body (am_text 1 1700000000 (str_bytes ''hello'')))" by (simp add: am_text_def TEXT_MAX_BYTES_def)
  then obtain bs where "am_encode (am_text 1 1700000000 (str_bytes ''hello'')) = Ok bs" "am_decode bs = Ok (am_text 1 1700000000 (str_bytes ''hello''))"
    using app_message_roundtrip [of "am_text 1 1700000000 (str_bytes ''hello'')"] by blast
  then show ?thesis by (auto simp: encode_text_def decode_text_def am_text_def)
qed

theorem capability_intro_sound_witness:
  "\<exists>i. ci_verify plain_crypto i [7] [9] = Ok () \<and> ci_recipient i = [9] \<and> ci_verify plain_crypto i [7] [8] = Err BadIntro"
proof -
  let ?pk = "lib_ed_public plain_crypto [1]"
  let ?i = "\<lparr>ci_identity_id = identity_id plain_crypto ?pk, ci_identity_public = ?pk, ci_revocation_public = [], ci_dest_hpke = [],
    ci_binding_seq = 1, ci_session_key = [5], ci_recipient = [9], ci_signature = []\<rparr>"
  obtain s where s: "sign plain_crypto [1] CAPABILITY_INTRO (ci_signed_payload ?i [7]) = Ok s" by (simp add: sign_total)
  have "ci_signed_payload (?i\<lparr>ci_signature := s\<rparr>) [7] = ci_signed_payload ?i [7]" by (simp add: ci_signed_payload_def)
  moreover have "lib_ed_point plain_crypto ?pk" by (simp add: plain_crypto_def resize_def)
  ultimately have v: "ci_verify plain_crypto (?i\<lparr>ci_signature := s\<rparr>) [7] [9] = Ok ()"
    using verify_sign_ok [OF _ s] by (simp add: ci_verify_def)
  moreover have "ci_verify plain_crypto (?i\<lparr>ci_signature := s\<rparr>) [7] [8] = Err BadIntro" by (simp add: ci_verify_def)
  ultimately show ?thesis using capability_intro_sound [OF v] by blast
qed

end
