(* ===== verification/Client_State.thy ===== *)
theory Client_State
  imports Core_Mailbox Core_Discovery App_Message Join "HOL-Library.List_Lexorder"
begin

text \<open>
  The durable state of the client's home session (\<open>nemo-core/src/home.rs\<close>): contacts, group
  credentials and pending joins with their CBOR snapshots, and the origins of homes
  (\<open>home.rs\<close>, \<open>tor.rs\<close>). The build is a release build for a desktop, so that
  \<open>cfg!(debug_assertions)\<close> and \<open>cfg!(target_os = "android")\<close> are false.
\<close>

section \<open>Model\<close>

subsection \<open>Strings\<close>

definition starts_with :: "bytes \<Rightarrow> bytes \<Rightarrow> bool" where
  "starts_with s pat \<longleftrightarrow> take (length pat) s = pat"

definition strip_prefix :: "bytes \<Rightarrow> bytes \<Rightarrow> bytes option" where
  "strip_prefix pat s = (if starts_with s pat then Some (drop (length pat) s) else None)"

text \<open>\<open>s.trim_end_matches('/')\<close>.\<close>

definition trim_slashes :: "bytes \<Rightarrow> bytes" where
  "trim_slashes s = rev (dropWhile (\<lambda>b. b = 0x2F) (rev s))"

fun split_once :: "bytes \<Rightarrow> bytes \<Rightarrow> (bytes \<times> bytes) option" where
  "split_once pat [] = (if pat = [] then Some ([], []) else None)"
| "split_once pat (b # s) =
     (if starts_with (b # s) pat then Some ([], drop (length pat) (b # s))
      else map_option (\<lambda>(x, y). (b # x, y)) (split_once pat s))"

definition eq_ignore_ascii_case :: "bytes \<Rightarrow> bytes \<Rightarrow> bool" where
  "eq_ignore_ascii_case a b \<longleftrightarrow> to_ascii_lowercase a = to_ascii_lowercase b"

subsection \<open>Origins\<close>

definition origin_host :: "bytes \<Rightarrow> bytes" where
  "origin_host base =
     (let rest = trim_slashes (case split_once (str_bytes ''://'') base of Some (_, r) \<Rightarrow> r | None \<Rightarrow> base) in
      takeWhile (\<lambda>b. b \<noteq> 0x2F \<and> b \<noteq> 0x3A) rest)"

definition is_loopback_origin :: "bytes \<Rightarrow> bool" where
  "is_loopback_origin base \<longleftrightarrow>
     origin_host base \<in> {str_bytes ''localhost'', str_bytes ''127.0.0.1'', str_bytes ''::1'', str_bytes ''[::1]''}"

definition allow_cleartext_http :: "bytes \<Rightarrow> bool" where
  "allow_cleartext_http base \<longleftrightarrow> is_loopback_origin base"

definition peer_http_origin :: "bytes \<Rightarrow> key \<Rightarrow> key \<Rightarrow> bytes \<Rightarrow> bytes" where
  "peer_http_origin peer_host peer_server own_server own_base =
     (if peer_server = own_server then trim_slashes own_base
      else
        (let host = trim_slashes peer_host;
             loopback = is_loopback_origin (str_bytes ''http://'' @ host) \<or> is_loopback_origin (str_bytes ''https://'' @ host) in
         if starts_with own_base (str_bytes ''http://'') \<and> loopback then str_bytes ''http://'' @ host
         else str_bytes ''https://'' @ host))"

definition wakeup_url :: "bytes \<Rightarrow> bytes" where
  "wakeup_url base =
     (case strip_prefix (str_bytes ''https://'') base of
        Some rest \<Rightarrow> str_bytes ''wss://'' @ rest @ str_bytes ''/v1/wakeup''
      | None \<Rightarrow>
          (case strip_prefix (str_bytes ''http://'') base of
             Some rest \<Rightarrow> str_bytes ''ws://'' @ rest @ str_bytes ''/v1/wakeup''
           | None \<Rightarrow> base @ str_bytes ''/v1/wakeup''))"

text \<open>The refusal of cleartext in \<open>HttpHome::new\<close>; the result is the base it keeps.\<close>

definition http_home_base :: "bytes \<Rightarrow> bytes cresult" where
  "http_home_base base =
     (let base = trim_slashes base in
      if starts_with base (str_bytes ''http://'') \<and> \<not> allow_cleartext_http base
      then Err (Transport ''cleartext HTTP is only allowed on loopback'')
      else Ok base)"

subsection \<open>Credentials and contacts\<close>

record HostCred =
  hc_credential_id :: key
  hc_credential_secret :: key

record HostGroup =
  hg_group_id :: key
  hg_cred :: HostCred
  hg_host_base :: bytes

record HostAccept =
  ha_pending_id :: key
  ha_cred :: HostCred
  ha_invitee_binding :: "key option"
  ha_salt :: "key option"

text \<open>\<open>copy_fixed(expect_bytes(map_get(..).map_err(VaultCorrupt)?).map_err(VaultCorrupt)?)?\<close>.\<close>

definition vault_fixed :: "(u64 \<times> Value) list \<Rightarrow> u64 \<Rightarrow> key cresult" where
  "vault_fixed m k = rbind (corrupt (get_bytes m k)) (\<lambda>b. lift (copy_fixed KEY_LEN b))"

definition vault_fixed_opt :: "(u64 \<times> Value) list \<Rightarrow> u64 \<Rightarrow> key option cresult" where
  "vault_fixed_opt m k =
     (case map_get_opt m k of
        Some v \<Rightarrow> rbind (corrupt (expect_bytes v)) (\<lambda>b. rbind (lift (copy_fixed KEY_LEN b)) (\<lambda>x. Ok (Some x)))
      | None \<Rightarrow> Ok None)"

definition vault_map :: "bytes \<Rightarrow> (u64 \<times> Value) list cresult" where
  "vault_map bs = corrupt (decode_map [] bs)"

definition ha_encode :: "HostAccept \<Rightarrow> bytes" where
  "ha_encode a = encode (Map
     ([(0, Bytes (ha_pending_id a)),
       (1, Bytes (hc_credential_id (ha_cred a))),
       (2, Bytes (hc_credential_secret (ha_cred a)))] @
      (case ha_invitee_binding a of Some b \<Rightarrow> [(3, Bytes b)] | None \<Rightarrow> []) @
      (case ha_salt a of Some s \<Rightarrow> [(4, Bytes s)] | None \<Rightarrow> [])))"

definition ha_decode :: "bytes \<Rightarrow> HostAccept cresult" where
  "ha_decode bs =
     rbind (vault_map bs) (\<lambda>m.
     rbind (vault_fixed m 0) (\<lambda>pid.
     rbind (vault_fixed m 1) (\<lambda>cid.
     rbind (vault_fixed m 2) (\<lambda>secret.
     rbind (vault_fixed_opt m 3) (\<lambda>binding.
     rbind (vault_fixed_opt m 4) (\<lambda>salt.
       Ok \<lparr>ha_pending_id = pid, ha_cred = \<lparr>hc_credential_id = cid, hc_credential_secret = secret\<rparr>,
            ha_invitee_binding = binding, ha_salt = salt\<rparr>))))))"

record StoredContact =
  sc_pin :: ContactPin
  sc_delivery_capability :: key
  sc_dest_hpke :: key
  sc_last_discovery_unix :: u64
  sc_revoked :: bool
  sc_home_origin :: bytes

record HomeState =
  hst_bundle :: ServerBundle
  hst_cursor :: u64
  hst_contacts :: "(key, StoredContact) hashmap"
  hst_groups :: "HostGroup list"
  hst_home_base :: bytes
  hst_privacy :: PrivacyMode

fun privacy_to_u64 :: "PrivacyMode \<Rightarrow> u64" where
  "privacy_to_u64 Normal = 0"
| "privacy_to_u64 Private = 1"
| "privacy_to_u64 High = 2"
| "privacy_to_u64 Maximum = 3"

definition privacy_from_u64 :: "u64 \<Rightarrow> PrivacyMode cresult" where
  "privacy_from_u64 v =
     (if v = 0 then Ok Normal else if v = 1 then Ok Private else if v = 2 then Ok High
      else if v = 3 then Ok Maximum else Err VaultCorrupt)"

subsection \<open>The snapshot\<close>

definition contact_value :: "key \<Rightarrow> StoredContact \<Rightarrow> Value" where
  "contact_value ident c = Map
     [(0, Bytes ident),
      (1, Bytes (pin_identity_public (sc_pin c))),
      (2, Bytes (pin_revocation_public (sc_pin c))),
      (3, Uint (pin_seq (sc_pin c))),
      (4, Bytes (sc_delivery_capability c)),
      (5, Bytes (sc_dest_hpke c)),
      (6, Uint (sc_last_discovery_unix c)),
      (7, Uint (if sc_revoked c then 1 else 0)),
      (8, Text (sc_home_origin c))]"

definition group_value :: "HostGroup \<Rightarrow> Value" where
  "group_value g = Array [Bytes (hg_group_id g), Bytes (hc_credential_id (hg_cred g)),
     Bytes (hc_credential_secret (hg_cred g)), Text (hg_host_base g)]"

text \<open>The keys of a map collected and sorted, with \<open>&map[&key]\<close> for each of them.\<close>

definition hm_sorted :: "('k :: linorder, 'v) hashmap \<Rightarrow> ('k \<times> 'v) list" where
  "hm_sorted m = map (\<lambda>i. (i, the (hm_get m i))) (sort (map fst m))"

definition hst_encode :: "HomeState \<Rightarrow> bytes" where
  "hst_encode s = encode (Map
     [(0, Uint 1),
      (1, Bytes (sb_encode (hst_bundle s))),
      (2, Uint (hst_cursor s)),
      (3, Array (map (\<lambda>(i, c). contact_value i c) (hm_sorted (hst_contacts s)))),
      (4, Array (map group_value (hst_groups s))),
      (5, Text (hst_home_base s)),
      (6, Uint (privacy_to_u64 (hst_privacy s)))])"

definition text_or_empty :: "(u64 \<times> Value) list \<Rightarrow> u64 \<Rightarrow> bytes cresult" where
  "text_or_empty m k = (case map_get_opt m k of Some v \<Rightarrow> corrupt (expect_text v) | None \<Rightarrow> Ok [])"

definition contact_from :: "Value \<Rightarrow> (key \<times> StoredContact) cresult" where
  "contact_from item =
     rbind (corrupt (expect_map item)) (\<lambda>cm.
     rbind (vault_fixed cm 0) (\<lambda>i.
     rbind (vault_fixed cm 1) (\<lambda>pk.
     rbind (vault_fixed cm 2) (\<lambda>rpk.
     rbind (corrupt (get_uint cm 3)) (\<lambda>seq.
     rbind (vault_fixed cm 4) (\<lambda>cap.
     rbind (vault_fixed cm 5) (\<lambda>hpke.
     rbind (corrupt (get_uint cm 6)) (\<lambda>last_unix.
     rbind (corrupt (get_uint cm 7)) (\<lambda>revoked.
     rbind (text_or_empty cm 8) (\<lambda>origin.
       Ok (i, \<lparr>sc_pin = \<lparr>pin_identity_id = i, pin_identity_public = pk, pin_revocation_public = rpk, pin_seq = seq\<rparr>,
               sc_delivery_capability = cap, sc_dest_hpke = hpke, sc_last_discovery_unix = last_unix,
               sc_revoked = (revoked \<noteq> 0), sc_home_origin = origin\<rparr>)))))))))))"

definition group_from :: "Value \<Rightarrow> HostGroup cresult" where
  "group_from item =
     rbind (corrupt (expect_array item)) (\<lambda>row.
     if length row \<noteq> 3 \<and> length row \<noteq> 4 then Err VaultCorrupt
     else
       rbind (lift (rbind (expect_bytes (row ! 0)) (copy_fixed KEY_LEN))) (\<lambda>gid.
       rbind (lift (rbind (expect_bytes (row ! 1)) (copy_fixed KEY_LEN))) (\<lambda>cid.
       rbind (lift (rbind (expect_bytes (row ! 2)) (copy_fixed KEY_LEN))) (\<lambda>secret.
       rbind (if length row = 4 then corrupt (expect_text (row ! 3)) else Ok []) (\<lambda>base.
         Ok \<lparr>hg_group_id = gid, hg_cred = \<lparr>hc_credential_id = cid, hc_credential_secret = secret\<rparr>, hg_host_base = base\<rparr>)))))"

definition hst_decode :: "bytes \<Rightarrow> HomeState cresult" where
  "hst_decode bs =
     rbind (vault_map bs) (\<lambda>m.
     rbind (corrupt (get_uint m 0)) (\<lambda>version.
     if version \<noteq> 1 then Err VaultCorrupt
     else
       rbind (corrupt (get_bytes m 1)) (\<lambda>b.
       rbind (lift (sb_decode b)) (\<lambda>sb.
       rbind (corrupt (get_uint m 2)) (\<lambda>cursor.
       rbind (corrupt (rbind (map_get m 3) expect_array)) (\<lambda>citems.
       rbind (rmap contact_from citems) (\<lambda>contacts.
       rbind (corrupt (rbind (map_get m 4) expect_array)) (\<lambda>gitems.
       rbind (rmap group_from gitems) (\<lambda>groups.
       rbind (text_or_empty m 5) (\<lambda>base.
       rbind (case map_get_opt m 6 of Some v \<Rightarrow> rbind (corrupt (expect_uint v)) privacy_from_u64 | None \<Rightarrow> Ok Normal) (\<lambda>privacy.
         Ok \<lparr>hst_bundle = sb, hst_cursor = cursor, hst_contacts = fold (\<lambda>(i, c) h. hm_insert i c h) contacts [],
              hst_groups = groups, hst_home_base = base, hst_privacy = privacy\<rparr>)))))))))))"

section \<open>Lemmas\<close>

definition key_ok :: "key \<Rightarrow> bool" where
  "key_ok k \<longleftrightarrow> length k = 32"

definition ha_wf :: "HostAccept \<Rightarrow> bool" where
  "ha_wf a \<longleftrightarrow> key_ok (ha_pending_id a) \<and> key_ok (hc_credential_id (ha_cred a)) \<and> key_ok (hc_credential_secret (ha_cred a)) \<and>
     (\<forall>b. ha_invitee_binding a = Some b \<longrightarrow> key_ok b) \<and> (\<forall>b. ha_salt a = Some b \<longrightarrow> key_ok b)"

definition contact_wf :: "key \<Rightarrow> StoredContact \<Rightarrow> bool" where
  "contact_wf i c \<longleftrightarrow> key_ok i \<and> pin_identity_id (sc_pin c) = i \<and> key_ok (pin_identity_public (sc_pin c)) \<and>
     key_ok (pin_revocation_public (sc_pin c)) \<and> key_ok (sc_delivery_capability c) \<and> key_ok (sc_dest_hpke c) \<and> str_ok (sc_home_origin c)"

definition group_wf :: "HostGroup \<Rightarrow> bool" where
  "group_wf g \<longleftrightarrow> key_ok (hg_group_id g) \<and> key_ok (hc_credential_id (hg_cred g)) \<and>
     key_ok (hc_credential_secret (hg_cred g)) \<and> str_ok (hg_host_base g)"

definition hst_wf :: "HomeState \<Rightarrow> bool" where
  "hst_wf s \<longleftrightarrow> sb_wf (hst_bundle s) \<and> length (sb_encode (hst_bundle s)) < 2 ^ 64 \<and> hm_wf (hst_contacts s) \<and>
     length (hst_contacts s) < 2 ^ 64 \<and> (\<forall>(i, c) \<in> set (hst_contacts s). contact_wf i c) \<and>
     length (hst_groups s) < 2 ^ 64 \<and> (\<forall>g \<in> set (hst_groups s). group_wf g) \<and> str_ok (hst_home_base s)"

lemma ha_roundtrip:
  assumes "ha_wf a"
  shows "ha_decode (ha_encode a) = Ok a"
  using assms
  by (cases "ha_invitee_binding a"; cases "ha_salt a")
    (simp_all add: ha_decode_def ha_encode_def vault_map_def vault_fixed_def vault_fixed_opt_def ha_wf_def key_ok_def)

lemma contact_roundtrip:
  assumes "contact_wf i c"
  shows "contact_from (contact_value i c) = Ok (i, c) \<and> wf_value (contact_value i c) \<and> sorted_value (contact_value i c)"
proof -
  have "contact_from (contact_value i c) = Ok (i, c)"
    using assms by (simp add: contact_from_def contact_value_def contact_wf_def vault_fixed_def text_or_empty_def key_ok_def str_ok_def)
  then show ?thesis using assms by (simp add: contact_value_def contact_wf_def key_ok_def str_ok_def)
qed

lemma group_roundtrip:
  "group_wf g \<Longrightarrow> group_from (group_value g) = Ok g \<and> wf_value (group_value g) \<and> sorted_value (group_value g)"
  by (simp add: group_from_def group_value_def group_wf_def key_ok_def str_ok_def)

lemma fold_hm_insert_fresh:
  "distinct (map fst m @ map fst xs) \<Longrightarrow> fold (\<lambda>(i, c) h. hm_insert i c h) xs m = m @ xs"
proof (induction xs arbitrary: m)
  case (Cons x xs)
  obtain i c where x: "x = (i, c)" by (cases x)
  have "i \<notin> set (map fst m)" using Cons.prems by (auto simp: x)
  then have "AList.update i c m = m @ [(i, c)]" by (induction m) auto
  then show ?case using Cons.IH [of "m @ [(i, c)]"] Cons.prems by (simp add: x hm_insert_def)
qed simp

lemma map_fst_hm_sorted [simp]: "map fst (hm_sorted m) = sort (map fst m)"
  by (simp add: hm_sorted_def comp_def)

lemma hm_sorted_get:
  assumes "hm_wf m"
  shows "hm_get (hm_sorted m) i = hm_get m i"
proof -
  have "hm_wf (hm_sorted m)" using assms by (simp add: hm_wf_def)
  moreover have "set (hm_sorted m) = set m"
  proof -
    have "(i, the (map_of m i)) \<in> set m" if "i \<in> set (map fst m)" for i
      using that by (metis map_of_SomeD map_of_eq_None_iff image_set option.exhaust_sel)
    moreover have "(i, c) \<in> set (hm_sorted m)" if "(i, c) \<in> set m" for i c
      using that assms by (force simp: hm_sorted_def hm_wf_def hm_get_def)
    ultimately show ?thesis by (auto simp: hm_sorted_def hm_get_def)
  qed
  ultimately show ?thesis using assms by (metis hm_get_def hm_wf_def map_of_inject_set)
qed

lemma hm_sorted_in:
  assumes "hm_wf m" "(i, c) \<in> set (hm_sorted m)"
  shows "(i, c) \<in> set m"
proof -
  have "hm_wf (hm_sorted m)" using assms(1) by (simp add: hm_wf_def)
  then have "hm_get (hm_sorted m) i = Some c" using assms(2) by (simp add: hm_get_def hm_wf_def)
  then show ?thesis using hm_sorted_get [OF assms(1)] by (auto simp: hm_get_def dest: map_of_SomeD)
qed

lemma privacy_roundtrip [simp]: "privacy_from_u64 (privacy_to_u64 p) = Ok p"
  by (cases p) (simp_all add: privacy_from_u64_def)

lemma origin_host_no_colon: "0x3A \<notin> set (origin_host base)"
  by (auto simp: origin_host_def Let_def dest: set_takeWhileD)

section \<open>Properties\<close>

text \<open>
  The client's snapshot of its home session is read back as it was written: the server it
  pinned, the cursor, every contact with its pin and capability, every group credential, the
  origin and the privacy mode. The contacts come back in the order of their identifiers.
\<close>

theorem home_state_roundtrip:
  assumes "hst_wf s"
  shows "hst_decode (hst_encode s) = Ok (s\<lparr>hst_contacts := hm_sorted (hst_contacts s)\<rparr>) \<and>
    (\<forall>i. hm_get (hm_sorted (hst_contacts s)) i = hm_get (hst_contacts s) i)"
proof -
  let ?cs = "hm_sorted (hst_contacts s)"
  have wf: "hm_wf (hst_contacts s)" using assms by (simp add: hst_wf_def)
  have c: "contact_wf i c" if "(i, c) \<in> set ?cs" for i c
    using assms hm_sorted_in [OF wf that] by (auto simp: hst_wf_def)
  have contacts: "rmap contact_from (map (\<lambda>(i, c). contact_value i c) ?cs) = Ok ?cs"
    by (rule rmap_map_Ok) (use c contact_roundtrip in auto)
  have groups: "rmap group_from (map group_value (hst_groups s)) = Ok (hst_groups s)"
    by (rule rmap_map_Ok) (use assms group_roundtrip in \<open>auto simp: hst_wf_def\<close>)
  have "fold (\<lambda>(i, c) h. hm_insert i c h) ?cs [] = ?cs"
    using fold_hm_insert_fresh [of "[]" ?cs] wf by (simp add: hm_wf_def)
  moreover have "length ?cs = length (hst_contacts s)" by (simp add: hm_sorted_def)
  moreover have "\<forall>v \<in> set (map (\<lambda>(i, c). contact_value i c) ?cs) \<union> set (map group_value (hst_groups s)). wf_value v \<and> sorted_value v"
    using c contact_roundtrip assms group_roundtrip by (auto simp: hst_wf_def)
  ultimately have "hst_decode (hst_encode s) = Ok (s\<lparr>hst_contacts := ?cs\<rparr>)"
    using assms contacts groups bundle_codec.roundtrip [of "hst_bundle s"]
    by (simp add: hst_decode_def hst_encode_def hst_wf_def vault_map_def text_or_empty_def map_get_def str_ok_def)
  then show ?thesis using hm_sorted_get [OF wf] by blast
qed

text \<open>
  An IPv6 loopback address is not recognised: the host part is cut at the first colon, so only
  the names \<open>localhost\<close> and \<open>127.0.0.1\<close> count as loopback, and a colon in the user part of an
  origin makes a foreign host count as loopback.
\<close>

theorem loopback_names:
  "(is_loopback_origin base \<longleftrightarrow> origin_host base \<in> {str_bytes ''localhost'', str_bytes ''127.0.0.1''}) \<and>
   \<not> is_loopback_origin (str_bytes ''http://[::1]:8787'') \<and>
   http_home_base (str_bytes ''http://localhost:x@evil.example'') = Ok (str_bytes ''http://localhost:x@evil.example'')"
proof -
  have "origin_host base \<noteq> str_bytes ''::1''" "origin_host base \<noteq> str_bytes ''[::1]''"
    using origin_host_no_colon [of base] by (auto simp: str_bytes_def of_char_def)
  then show ?thesis unfolding is_loopback_origin_def by (intro conjI) (blast, code_simp, code_simp)
qed

end
