(* ===== verification/Signal_Store.thy ===== *)
theory Signal_Store
  imports Client_State "HOL-Library.Product_Lexorder"
begin

text \<open>
  The stores that libsignal works on, \<open>nemo-core/src/store.rs\<close>: the identity keys of peers, the
  prekeys of three kinds, the sessions, and their snapshot.

  libsignal is the argument \<open>L\<close>: its parsers, its key generators (from the entropy they draw)
  and the ratchet operations, whose random choices and clock readings are part of \<open>L\<close>. A key, a
  key pair or a record of libsignal is its serialization.
\<close>

section \<open>Model\<close>

subsection \<open>Stores\<close>

text \<open>\<open>ProtocolAddress\<close>: a name and a device number.\<close>

type_synonym addr = "bytes \<times> byte"
type_synonym u32 = "32 word"

definition DEVICE_ID :: byte where "DEVICE_ID = 1"

record Identities =
  idk_pair :: bytes
  idk_registration :: u32
  idk_known :: "(addr, bytes) hashmap"

record PreKeys =
  pks_keys :: "(u32, bytes) hashmap"

record SignedPreKeys =
  sks_keys :: "(u32, bytes) hashmap"

record KyberPreKeys =
  kks_keys :: "(u32, bytes) hashmap"
  kks_used :: "(u32 \<times> u32, bytes list) hashmap"

record Sessions =
  ses_sessions :: "(addr, bytes) hashmap"

record SignalStore =
  ss_session :: Sessions
  ss_pre_key :: PreKeys
  ss_signed :: SignedPreKeys
  ss_kyber :: KyberPreKeys
  ss_identity :: Identities

subsection \<open>libsignal\<close>

record PreKeyBundle =
  pb_registration_id :: u32
  pb_signed_id :: u32
  pb_signed_public :: bytes
  pb_signed_signature :: bytes
  pb_otpk :: "(u32 \<times> bytes) option"
  pb_kyber_id :: u32
  pb_kyber_public :: bytes
  pb_kyber_signature :: bytes
  pb_identity_key :: bytes

record libsignal =
  ls_public_key :: "bytes \<Rightarrow> bool"
  ls_kem_key :: "bytes \<Rightarrow> bool"
  ls_identity_key :: "bytes \<Rightarrow> bool"
  ls_pair :: "bytes \<Rightarrow> bool"
  ls_device_id :: "byte \<Rightarrow> bool"
  ls_pre_key_record :: "bytes \<Rightarrow> bool"
  ls_signed_record :: "bytes \<Rightarrow> bool"
  ls_kyber_record :: "bytes \<Rightarrow> bool"
  ls_session_record :: "bytes \<Rightarrow> bool"
  ls_prekey_message :: "bytes \<Rightarrow> bytes option"
  ls_signal_message :: "bytes \<Rightarrow> bool"
  ls_pair_public :: "bytes \<Rightarrow> bytes"
  ls_new_pre_key :: "bytes \<Rightarrow> u32 \<Rightarrow> bytes \<times> bytes"
  ls_new_signed :: "bytes \<Rightarrow> u32 \<Rightarrow> u64 \<Rightarrow> bytes \<Rightarrow> bytes cresult"
  ls_new_kyber :: "bytes \<Rightarrow> u32 \<Rightarrow> bytes \<Rightarrow> bytes cresult"
  ls_signed_view :: "bytes \<Rightarrow> (u32 \<times> bytes \<times> bytes) cresult"
  ls_kyber_view :: "bytes \<Rightarrow> (u32 \<times> bytes \<times> bytes) cresult"
  ls_bundle :: "PreKeyBundle \<Rightarrow> unit cresult"
  ls_process_bundle :: "addr \<Rightarrow> addr \<Rightarrow> PreKeyBundle \<Rightarrow> Sessions \<times> Identities \<Rightarrow> unit cresult \<times> Sessions \<times> Identities"
  ls_encrypt :: "addr \<Rightarrow> addr \<Rightarrow> bytes \<Rightarrow> Sessions \<times> Identities \<Rightarrow> bytes cresult \<times> Sessions \<times> Identities"
  ls_decrypt :: "addr \<Rightarrow> addr \<Rightarrow> bytes \<Rightarrow> SignedPreKeys \<Rightarrow> Sessions \<times> Identities \<times> PreKeys \<times> KyberPreKeys \<Rightarrow>
    bytes cresult \<times> Sessions \<times> Identities \<times> PreKeys \<times> KyberPreKeys"

subsection \<open>The operations libsignal calls\<close>

datatype IdentityChange = NewOrUnchanged | ReplacedExisting

definition save_identity :: "addr \<Rightarrow> bytes \<Rightarrow> Identities \<Rightarrow> IdentityChange \<times> Identities" where
  "save_identity a k s =
     (case hm_get (idk_known s) a of
        None \<Rightarrow> (NewOrUnchanged, s\<lparr>idk_known := hm_insert a k (idk_known s)\<rparr>)
      | Some k' \<Rightarrow>
          if k' = k then (NewOrUnchanged, s)
          else (ReplacedExisting, s\<lparr>idk_known := hm_insert a k (idk_known s)\<rparr>))"

definition is_trusted_identity :: "addr \<Rightarrow> bytes \<Rightarrow> Identities \<Rightarrow> bool" where
  "is_trusted_identity a k s = (case hm_get (idk_known s) a of Some k' \<Rightarrow> k' = k | None \<Rightarrow> True)"

definition get_identity :: "addr \<Rightarrow> Identities \<Rightarrow> bytes option" where
  "get_identity a s = hm_get (idk_known s) a"

definition get_pre_key :: "u32 \<Rightarrow> PreKeys \<Rightarrow> bytes cresult" where
  "get_pre_key i s = ok_or (hm_get (pks_keys s) i) (Signal ''InvalidPreKeyId'')"

definition save_pre_key :: "u32 \<Rightarrow> bytes \<Rightarrow> PreKeys \<Rightarrow> PreKeys" where
  "save_pre_key i r s = s\<lparr>pks_keys := hm_insert i r (pks_keys s)\<rparr>"

definition remove_pre_key :: "u32 \<Rightarrow> PreKeys \<Rightarrow> PreKeys" where
  "remove_pre_key i s = s\<lparr>pks_keys := hm_remove i (pks_keys s)\<rparr>"

definition get_signed_pre_key :: "u32 \<Rightarrow> SignedPreKeys \<Rightarrow> bytes cresult" where
  "get_signed_pre_key i s = ok_or (hm_get (sks_keys s) i) (Signal ''InvalidSignedPreKeyId'')"

definition save_signed_pre_key :: "u32 \<Rightarrow> bytes \<Rightarrow> SignedPreKeys \<Rightarrow> SignedPreKeys" where
  "save_signed_pre_key i r s = s\<lparr>sks_keys := hm_insert i r (sks_keys s)\<rparr>"

definition get_kyber_pre_key :: "u32 \<Rightarrow> KyberPreKeys \<Rightarrow> bytes cresult" where
  "get_kyber_pre_key i s = ok_or (hm_get (kks_keys s) i) (Signal ''InvalidKyberPreKeyId'')"

definition save_kyber_pre_key :: "u32 \<Rightarrow> bytes \<Rightarrow> KyberPreKeys \<Rightarrow> KyberPreKeys" where
  "save_kyber_pre_key i r s = s\<lparr>kks_keys := hm_insert i r (kks_keys s)\<rparr>"

definition mark_kyber_pre_key_used :: "u32 \<Rightarrow> u32 \<Rightarrow> bytes \<Rightarrow> KyberPreKeys \<Rightarrow> unit cresult \<times> KyberPreKeys" where
  "mark_kyber_pre_key_used kid sid base s =
     (let seen = (case hm_get (kks_used s) (kid, sid) of Some l \<Rightarrow> l | None \<Rightarrow> []);
          s = s\<lparr>kks_used := hm_insert (kid, sid) seen (kks_used s)\<rparr> in
      if base \<in> set seen then (Err (Signal ''reused base key''), s)
      else (Ok (), s\<lparr>kks_used := hm_insert (kid, sid) (seen @ [base]) (kks_used s)\<rparr>))"

definition load_session :: "addr \<Rightarrow> Sessions \<Rightarrow> bytes option" where
  "load_session a s = hm_get (ses_sessions s) a"

definition store_session :: "addr \<Rightarrow> bytes \<Rightarrow> Sessions \<Rightarrow> Sessions" where
  "store_session a r s = s\<lparr>ses_sessions := hm_insert a r (ses_sessions s)\<rparr>"

subsection \<open>The joint store\<close>

definition ss_new :: "bytes \<Rightarrow> u32 \<Rightarrow> SignalStore" where
  "ss_new pair rid = \<lparr>ss_session = \<lparr>ses_sessions = []\<rparr>, ss_pre_key = \<lparr>pks_keys = []\<rparr>, ss_signed = \<lparr>sks_keys = []\<rparr>,
     ss_kyber = \<lparr>kks_keys = [], kks_used = []\<rparr>, ss_identity = \<lparr>idk_pair = pair, idk_registration = rid, idk_known = []\<rparr>\<rparr>"

definition all_pre_key_ids :: "SignalStore \<Rightarrow> u32 list" where
  "all_pre_key_ids s = map fst (pks_keys (ss_pre_key s))"

definition peer_address_names :: "SignalStore \<Rightarrow> bytes list" where
  "peer_address_names s =
     remdups_adj (sort (map (fst \<circ> fst) (ses_sessions (ss_session s)) @ map (fst \<circ> fst) (idk_known (ss_identity s))))"

text \<open>\<open>if let Some(x) = m.remove(from) { m.entry(to).or_insert(x) }\<close>.\<close>

definition hm_move :: "'k \<Rightarrow> 'k \<Rightarrow> ('k, 'v) hashmap \<Rightarrow> ('k, 'v) hashmap" where
  "hm_move src dst m =
     (case hm_get m src of
        None \<Rightarrow> m
      | Some v \<Rightarrow> (let m = hm_remove src m in if hm_get m dst = None then hm_insert dst v m else m))"

definition ss_rematerialize_peer :: "addr \<Rightarrow> addr \<Rightarrow> SignalStore \<Rightarrow> SignalStore" where
  "ss_rematerialize_peer src dst s =
     (if src = dst then s
      else s\<lparr>ss_session := (ss_session s)\<lparr>ses_sessions := hm_move src dst (ses_sessions (ss_session s))\<rparr>,
             ss_identity := (ss_identity s)\<lparr>idk_known := hm_move src dst (idk_known (ss_identity s))\<rparr>\<rparr>)"

subsection \<open>Snapshot\<close>

definition addr_entry :: "addr \<Rightarrow> bytes \<Rightarrow> Value" where
  "addr_entry a b = Array [Text (fst a), Uint (ucast (snd a)), Bytes b]"

definition id_entry :: "u32 \<Rightarrow> bytes \<Rightarrow> Value" where
  "id_entry i b = Array [Uint (ucast i), Bytes b]"

definition used_entry :: "u32 \<times> u32 \<Rightarrow> bytes \<Rightarrow> Value" where
  "used_entry k b = Array [Uint (ucast (fst k)), Uint (ucast (snd k)), Bytes b]"

definition id_entries :: "(u32, bytes) hashmap \<Rightarrow> Value" where
  "id_entries m = Array (map (\<lambda>(i, r). id_entry i r) (hm_sorted m))"

definition addr_entries :: "(addr, bytes) hashmap \<Rightarrow> Value" where
  "addr_entries m = Array (map (\<lambda>(a, k). addr_entry a k) (hm_sorted m))"

text \<open>The pairs of the two loops over \<open>used\<close>.\<close>

definition used_rows :: "(u32 \<times> u32, bytes list) hashmap \<Rightarrow> ((u32 \<times> u32) \<times> bytes) list" where
  "used_rows m = concat (map (\<lambda>(k, l). map (Pair k) l) (hm_sorted m))"

definition ss_to_cbor :: "SignalStore \<Rightarrow> Value" where
  "ss_to_cbor s = Map
     [(0, Bytes (idk_pair (ss_identity s))),
      (1, Uint (ucast (idk_registration (ss_identity s)))),
      (2, addr_entries (idk_known (ss_identity s))),
      (3, id_entries (pks_keys (ss_pre_key s))),
      (4, id_entries (sks_keys (ss_signed s))),
      (5, id_entries (kks_keys (ss_kyber s))),
      (6, Array (map (\<lambda>(k, b). used_entry k b) (used_rows (kks_used (ss_kyber s))))),
      (7, addr_entries (ses_sessions (ss_session s)))]"

definition ss_encode :: "SignalStore \<Rightarrow> bytes" where
  "ss_encode s = encode (ss_to_cbor s)"

definition array_at :: "(u64 \<times> Value) list \<Rightarrow> u64 \<Rightarrow> Value list cresult" where
  "array_at m k = corrupt (rbind (map_get m k) expect_array)"

definition parse_row_of :: "nat \<Rightarrow> Value \<Rightarrow> Value list cresult" where
  "parse_row_of n item = (case item of Array row \<Rightarrow> if length row \<noteq> n then Err VaultCorrupt else Ok row | _ \<Rightarrow> Err VaultCorrupt)"

definition ss_address :: "libsignal \<Rightarrow> bytes \<Rightarrow> u64 \<Rightarrow> addr cresult" where
  "ss_address L name device =
     (if device > 127 then Err VaultCorrupt
      else if device = ucast DEVICE_ID then Ok (name, DEVICE_ID)
      else if ls_device_id L (ucast device) then Ok (name, ucast device)
      else Err VaultCorrupt)"

definition parse_addr_bytes :: "libsignal \<Rightarrow> Value \<Rightarrow> (addr \<times> bytes) cresult" where
  "parse_addr_bytes L item =
     rbind (parse_row_of 3 item) (\<lambda>row.
     rbind (corrupt (expect_text (row ! 0))) (\<lambda>name.
     rbind (corrupt (expect_uint (row ! 1))) (\<lambda>dev.
     rbind (corrupt (expect_bytes (row ! 2))) (\<lambda>b.
     rbind (ss_address L name dev) (\<lambda>a. Ok (a, b))))))"

definition parse_id_bytes :: "Value \<Rightarrow> (u32 \<times> bytes) cresult" where
  "parse_id_bytes item =
     rbind (parse_row_of 2 item) (\<lambda>row.
     rbind (corrupt (expect_uint (row ! 0))) (\<lambda>i.
     rbind (corrupt (expect_bytes (row ! 1))) (\<lambda>b. Ok (ucast i, b))))"

definition parse_used :: "Value \<Rightarrow> ((u32 \<times> u32) \<times> bytes) cresult" where
  "parse_used item =
     rbind (parse_row_of 3 item) (\<lambda>row.
     rbind (corrupt (expect_uint (row ! 0))) (\<lambda>kid.
     rbind (corrupt (expect_uint (row ! 1))) (\<lambda>sid.
     rbind (corrupt (expect_bytes (row ! 2))) (\<lambda>b. Ok ((ucast kid, ucast sid), b)))))"

text \<open>\<open>deserialize(bytes).map_err(|_| VaultCorrupt)\<close> on the second component of a parsed row.\<close>

definition readable :: "(bytes \<Rightarrow> bool) \<Rightarrow> ('a \<times> bytes) cresult \<Rightarrow> ('a \<times> bytes) cresult" where
  "readable ok r = rbind r (\<lambda>(a, b). if ok b then Ok (a, b) else Err VaultCorrupt)"

text \<open>The loops that insert row after row, and \<open>entry(..).or_default().push(pk)\<close>.\<close>

definition hm_collect :: "('k \<times> 'v) list \<Rightarrow> ('k, 'v) hashmap" where
  "hm_collect rows = fold (\<lambda>(k, v) m. hm_insert k v m) rows []"

definition push_used :: "(u32 \<times> u32) \<times> bytes \<Rightarrow> (u32 \<times> u32, bytes list) hashmap \<Rightarrow> (u32 \<times> u32, bytes list) hashmap" where
  "push_used r m = hm_insert (fst r) ((case hm_get m (fst r) of Some l \<Rightarrow> l | None \<Rightarrow> []) @ [snd r]) m"

definition ss_from_map :: "libsignal \<Rightarrow> (u64 \<times> Value) list \<Rightarrow> SignalStore cresult" where
  "ss_from_map L m =
     rbind (corrupt (get_bytes m 0)) (\<lambda>pair.
     if \<not> ls_pair L pair then Err VaultCorrupt
     else
       rbind (corrupt (get_uint m 1)) (\<lambda>rid.
       rbind (array_at m 2) (\<lambda>items.
       rbind (rmap (\<lambda>i. readable (ls_identity_key L) (parse_addr_bytes L i)) items) (\<lambda>known.
       rbind (array_at m 3) (\<lambda>items.
       rbind (rmap (\<lambda>i. readable (ls_pre_key_record L) (parse_id_bytes i)) items) (\<lambda>prekeys.
       rbind (array_at m 4) (\<lambda>items.
       rbind (rmap (\<lambda>i. readable (ls_signed_record L) (parse_id_bytes i)) items) (\<lambda>signed.
       rbind (array_at m 5) (\<lambda>items.
       rbind (rmap (\<lambda>i. readable (ls_kyber_record L) (parse_id_bytes i)) items) (\<lambda>kyber.
       rbind (array_at m 6) (\<lambda>items.
       rbind (rmap (\<lambda>i. readable (ls_public_key L) (parse_used i)) items) (\<lambda>used.
       rbind (array_at m 7) (\<lambda>items.
       rbind (rmap (\<lambda>i. readable (ls_session_record L) (parse_addr_bytes L i)) items) (\<lambda>sessions.
         Ok \<lparr>ss_session = \<lparr>ses_sessions = hm_collect sessions\<rparr>, ss_pre_key = \<lparr>pks_keys = hm_collect prekeys\<rparr>,
              ss_signed = \<lparr>sks_keys = hm_collect signed\<rparr>,
              ss_kyber = \<lparr>kks_keys = hm_collect kyber, kks_used = fold push_used used []\<rparr>,
              ss_identity = \<lparr>idk_pair = pair, idk_registration = ucast rid, idk_known = hm_collect known\<rparr>\<rparr>))))))))))))))"

definition ss_decode :: "libsignal \<Rightarrow> bytes \<Rightarrow> SignalStore cresult" where
  "ss_decode L bs = rbind (vault_map bs) (ss_from_map L)"

section \<open>Lemmas\<close>

lemma hm_collect_sorted: "hm_wf m \<Longrightarrow> hm_collect (hm_sorted m) = hm_sorted m"
  using fold_hm_insert_fresh [of "[]" "hm_sorted m"] by (simp add: hm_collect_def hm_wf_def)

lemma length_hm_sorted [simp]: "length (hm_sorted m) = length m"
  by (simp add: hm_sorted_def)

lemma hm_wf_sorted: "hm_wf m \<Longrightarrow> hm_wf (hm_sorted m)"
  by (simp add: hm_wf_def)

lemma hm_get_move:
  "hm_wf m \<Longrightarrow> src \<noteq> dst \<Longrightarrow>
   hm_get (hm_move src dst m) k =
     (if k = src then None
      else if k = dst then (if hm_get m dst = None then hm_get m src else hm_get m dst)
      else hm_get m k)"
  by (auto simp: hm_move_def Let_def hm.get_rem hm_get_insert_any split: option.splits)

lemma hm_wf_move: "hm_wf m \<Longrightarrow> hm_wf (hm_move src dst m)"
  by (simp add: hm_move_def Let_def hm.wf_ins hm.wf_rem split: option.split)

lemma ucast_32_64 [simp]: "ucast (ucast (i :: u32) :: u64) = i"
  by (rule bit_word_eqI) (auto simp: bit_simps)

lemma ucast_8_64 [simp]: "ucast (ucast (i :: byte) :: u64) = i"
  by (rule bit_word_eqI) (auto simp: bit_simps)

subsection \<open>Well-formed stores\<close>

definition addr_ok :: "libsignal \<Rightarrow> addr \<Rightarrow> bool" where
  "addr_ok L a \<longleftrightarrow> str_ok (fst a) \<and> snd a \<le> 127 \<and> (snd a = DEVICE_ID \<or> ls_device_id L (snd a))"

definition map_ok :: "('k \<Rightarrow> bool) \<Rightarrow> (bytes \<Rightarrow> bool) \<Rightarrow> ('k, bytes) hashmap \<Rightarrow> bool" where
  "map_ok kok vok m \<longleftrightarrow> hm_wf m \<and> length m < 2 ^ 64 \<and> (\<forall>(k, v) \<in> set m. kok k \<and> vok v \<and> length v < 2 ^ 64)"

definition used_ok :: "libsignal \<Rightarrow> (u32 \<times> u32, bytes list) hashmap \<Rightarrow> bool" where
  "used_ok L m \<longleftrightarrow> hm_wf m \<and> length (used_rows m) < 2 ^ 64 \<and>
     (\<forall>(k, l) \<in> set m. l \<noteq> [] \<and> (\<forall>b \<in> set l. ls_public_key L b \<and> length b < 2 ^ 64))"

definition ss_wf :: "libsignal \<Rightarrow> SignalStore \<Rightarrow> bool" where
  "ss_wf L s \<longleftrightarrow>
     ls_pair L (idk_pair (ss_identity s)) \<and> length (idk_pair (ss_identity s)) < 2 ^ 64 \<and>
     map_ok (addr_ok L) (ls_identity_key L) (idk_known (ss_identity s)) \<and>
     map_ok (\<lambda>_. True) (ls_pre_key_record L) (pks_keys (ss_pre_key s)) \<and>
     map_ok (\<lambda>_. True) (ls_signed_record L) (sks_keys (ss_signed s)) \<and>
     map_ok (\<lambda>_. True) (ls_kyber_record L) (kks_keys (ss_kyber s)) \<and>
     used_ok L (kks_used (ss_kyber s)) \<and>
     map_ok (addr_ok L) (ls_session_record L) (ses_sessions (ss_session s))"

text \<open>The same store with every map in the order of its keys.\<close>

definition ss_norm :: "SignalStore \<Rightarrow> SignalStore" where
  "ss_norm s = \<lparr>ss_session = \<lparr>ses_sessions = hm_sorted (ses_sessions (ss_session s))\<rparr>,
     ss_pre_key = \<lparr>pks_keys = hm_sorted (pks_keys (ss_pre_key s))\<rparr>,
     ss_signed = \<lparr>sks_keys = hm_sorted (sks_keys (ss_signed s))\<rparr>,
     ss_kyber = \<lparr>kks_keys = hm_sorted (kks_keys (ss_kyber s)), kks_used = hm_sorted (kks_used (ss_kyber s))\<rparr>,
     ss_identity = \<lparr>idk_pair = idk_pair (ss_identity s), idk_registration = idk_registration (ss_identity s),
       idk_known = hm_sorted (idk_known (ss_identity s))\<rparr>\<rparr>"

lemma map_ok_sorted: "map_ok kok vok m \<Longrightarrow> (k, v) \<in> set (hm_sorted m) \<Longrightarrow> kok k \<and> vok v \<and> length v < 2 ^ 64"
  unfolding map_ok_def by (blast dest: hm_sorted_in)

lemma addr_row:
  "addr_ok L a \<Longrightarrow> length b < 2 ^ 64 \<Longrightarrow>
   parse_addr_bytes L (addr_entry a b) = Ok (a, b) \<and> wf_value (addr_entry a b) \<and> sorted_value (addr_entry a b)"
proof -
  assume a: "addr_ok L a" "length b < 2 ^ 64"
  have "\<not> (ucast (snd a) :: u64) > 127"
    using a(1) by (simp add: addr_ok_def word_less_nat_alt word_le_nat_alt unsigned_ucast_eq take_bit_nat_eq_self)
  moreover have "ucast (snd a) = (ucast DEVICE_ID :: u64) \<longleftrightarrow> snd a = DEVICE_ID"
    by (metis ucast_8_64)
  ultimately have "ss_address L (fst a) (ucast (snd a)) = Ok a"
    using a(1) by (cases a) (auto simp: ss_address_def addr_ok_def)
  then show ?thesis
    using a by (simp add: parse_addr_bytes_def addr_entry_def parse_row_of_def addr_ok_def str_ok_def)
qed

lemma id_row:
  "length b < 2 ^ 64 \<Longrightarrow>
   parse_id_bytes (id_entry i b) = Ok (i, b) \<and> wf_value (id_entry i b) \<and> sorted_value (id_entry i b)"
  by (simp add: parse_id_bytes_def id_entry_def parse_row_of_def)

lemma used_row:
  "length b < 2 ^ 64 \<Longrightarrow>
   parse_used (used_entry k b) = Ok (k, b) \<and> wf_value (used_entry k b) \<and> sorted_value (used_entry k b)"
  by (cases k) (simp add: parse_used_def used_entry_def parse_row_of_def)

lemma addr_rows:
  assumes "map_ok (addr_ok L) vok m"
  shows "rmap (\<lambda>i. readable vok (parse_addr_bytes L i)) (map (\<lambda>(a, k). addr_entry a k) (hm_sorted m)) = Ok (hm_sorted m)"
    and "wf_value (addr_entries m) \<and> sorted_value (addr_entries m)"
proof -
  note row = map_ok_sorted [OF assms]
  show "rmap (\<lambda>i. readable vok (parse_addr_bytes L i)) (map (\<lambda>(a, k). addr_entry a k) (hm_sorted m)) = Ok (hm_sorted m)"
    by (rule rmap_map_Ok) (clarify, drule row, simp add: addr_row readable_def)
  show "wf_value (addr_entries m) \<and> sorted_value (addr_entries m)"
    using assms by (auto simp: addr_entries_def map_ok_def addr_row dest!: row)
qed

lemma id_rows:
  assumes "map_ok (\<lambda>_. True) vok m"
  shows "rmap (\<lambda>i. readable vok (parse_id_bytes i)) (map (\<lambda>(i, r). id_entry i r) (hm_sorted m)) = Ok (hm_sorted m)"
    and "wf_value (id_entries m) \<and> sorted_value (id_entries m)"
proof -
  note row = map_ok_sorted [OF assms]
  show "rmap (\<lambda>i. readable vok (parse_id_bytes i)) (map (\<lambda>(i, r). id_entry i r) (hm_sorted m)) = Ok (hm_sorted m)"
    by (rule rmap_map_Ok) (clarify, drule row, simp add: id_row readable_def)
  show "wf_value (id_entries m) \<and> sorted_value (id_entries m)"
    using assms by (auto simp: id_entries_def map_ok_def id_row dest!: row)
qed

lemma used_rows_in:
  assumes "used_ok L m" "(k, b) \<in> set (used_rows m)"
  shows "ls_public_key L b \<and> length b < 2 ^ 64"
  using assms hm_sorted_in [of m] unfolding used_ok_def used_rows_def by fastforce

lemma used_rows_parse:
  assumes "used_ok L m"
  shows "rmap (\<lambda>i. readable (ls_public_key L) (parse_used i)) (map (\<lambda>(k, b). used_entry k b) (used_rows m)) = Ok (used_rows m)"
    and "\<forall>v \<in> set (map (\<lambda>(k, b). used_entry k b) (used_rows m)). wf_value v \<and> sorted_value v"
proof -
  note row = used_rows_in [OF assms]
  show "rmap (\<lambda>i. readable (ls_public_key L) (parse_used i)) (map (\<lambda>(k, b). used_entry k b) (used_rows m)) = Ok (used_rows m)"
    by (rule rmap_map_Ok) (clarify, drule row, simp add: used_row readable_def)
  show "\<forall>v \<in> set (map (\<lambda>(k, b). used_entry k b) (used_rows m)). wf_value v \<and> sorted_value v"
    by (auto simp: used_row dest!: row)
qed

lemma hm_insert_last: "k \<notin> fst ` set m \<Longrightarrow> hm_insert k v (m @ [(k, w)]) = m @ [(k, v)]"
  unfolding hm_insert_def by (induction m) auto

lemma push_used_group:
  assumes "k \<notin> fst ` set m"
  shows "fold push_used (map (Pair k) l) (m @ [(k, w)]) = m @ [(k, w @ l)]"
proof (induction l arbitrary: w)
  case (Cons b l)
  have "map_of (m @ [(k, w)]) k = Some w" using assms map_of_eq_None_iff [of m k] by (simp add: map_add_def)
  then have "push_used (k, b) (m @ [(k, w)]) = m @ [(k, w @ [b])]"
    by (simp add: push_used_def hm_get_def hm_insert_last [OF assms])
  then show ?case using Cons.IH [of "w @ [b]"] by simp
qed simp

lemma fold_push_used:
  assumes "distinct (map fst m @ map fst xs)" "\<forall>(k, l) \<in> set xs. l \<noteq> []"
  shows "fold push_used (concat (map (\<lambda>(k, l). map (Pair k) l) xs)) m = m @ xs"
  using assms
proof (induction xs arbitrary: m)
  case (Cons x xs)
  obtain k b l where x: "x = (k, b # l)" using Cons.prems(2) by (cases x) (auto simp: neq_Nil_conv)
  have fresh: "k \<notin> fst ` set m" using Cons.prems(1) by (auto simp: x)
  then have "map_of m k = None" by (simp add: map_of_eq_None_iff)
  then have "push_used (k, b) m = m @ [(k, [b])]" by (simp add: push_used_def hm_get_def hm_insert_fresh [OF fresh])
  then have "fold push_used (map (Pair k) (b # l)) m = m @ [(k, b # l)]" using push_used_group [OF fresh, of l "[b]"] by simp
  then show ?case using Cons.IH [of "m @ [(k, b # l)]"] Cons.prems by (simp add: x)
qed simp

lemma push_used_rows: "used_ok L m \<Longrightarrow> fold push_used (used_rows m) [] = hm_sorted m"
  unfolding used_rows_def using fold_push_used [of "[]" "hm_sorted m"] hm_sorted_in [of m]
  by (force simp: used_ok_def hm_wf_def)

subsection \<open>The snapshot is read back\<close>

text \<open>
  A snapshot of the libsignal stores is read back as the same store: every session, every
  pinned identity key, every prekey and every base key that was used, the maps in the order of
  their keys.
\<close>

lemma ss_roundtrip:
  assumes "ss_wf L s"
  shows "ss_decode L (ss_encode s) = Ok (ss_norm s)"
proof -
  let ?known = "idk_known (ss_identity s)" and ?pre = "pks_keys (ss_pre_key s)" and ?sig = "sks_keys (ss_signed s)"
    and ?kyb = "kks_keys (ss_kyber s)" and ?used = "kks_used (ss_kyber s)" and ?ses = "ses_sessions (ss_session s)"
  have ok: "map_ok (addr_ok L) (ls_identity_key L) ?known" "map_ok (\<lambda>_. True) (ls_pre_key_record L) ?pre"
    "map_ok (\<lambda>_. True) (ls_signed_record L) ?sig" "map_ok (\<lambda>_. True) (ls_kyber_record L) ?kyb"
    "used_ok L ?used" "map_ok (addr_ok L) (ls_session_record L) ?ses"
    using assms by (simp_all add: ss_wf_def)
  have wf: "wf_value (ss_to_cbor s)" "sorted_value (ss_to_cbor s)"
    using assms addr_rows(2) [OF ok(1)] id_rows(2) [OF ok(2)] id_rows(2) [OF ok(3)] id_rows(2) [OF ok(4)]
      used_rows_parse(2) [OF ok(5)] addr_rows(2) [OF ok(6)] ok(5)
    by (simp_all add: ss_to_cbor_def ss_wf_def used_ok_def)
  have "hm_wf ?known" "hm_wf ?pre" "hm_wf ?sig" "hm_wf ?kyb" "hm_wf ?ses"
    using ok by (simp_all add: map_ok_def)
  note collect = this [THEN hm_collect_sorted]
  have "ss_from_map L (case ss_to_cbor s of Map m \<Rightarrow> m) = Ok (ss_norm s)"
    using assms addr_rows(1) [OF ok(1)] id_rows(1) [OF ok(2)] id_rows(1) [OF ok(3)] id_rows(1) [OF ok(4)]
      used_rows_parse(1) [OF ok(5)] addr_rows(1) [OF ok(6)] push_used_rows [OF ok(5)] collect
    by (simp add: ss_from_map_def ss_to_cbor_def array_at_def map_get_def addr_entries_def id_entries_def ss_norm_def ss_wf_def)
  then show ?thesis using wf by (simp add: ss_decode_def ss_encode_def vault_map_def ss_to_cbor_def)
qed

end
