(* ===== verification/Client_Identity.thy ===== *)
theory Client_Identity
  imports Signal_Store
begin

text \<open>
  An installation's identity, \<open>nemo-core/src/identity.rs\<close>, and the public prekey bundle,
  \<open>bundle.rs\<close>: cards, owner authentication, self-introductions, starting a session, and
  finding the session an incoming message belongs to.

  libsignal is the argument \<open>L\<close>, as in \<open>Signal_Store\<close>; the storage of OpenMLS is a map from bytes
  to bytes.
\<close>

section \<open>Model\<close>

subsection \<open>Prekey bundles\<close>

definition pb_encode :: "PreKeyBundle \<Rightarrow> bytes cresult" where
  "pb_encode b =
     rbind (ok_or (pb_otpk b) EmptyPrekeyStock) (\<lambda>(otpk_id, otpk).
     Ok (encode (Map
       [(0, version_value),
        (1, Uint (ucast (pb_registration_id b))),
        (2, Uint (ucast (pb_signed_id b))),
        (3, Bytes (pb_signed_public b)),
        (4, Bytes (pb_signed_signature b)),
        (5, Uint (ucast otpk_id)),
        (6, Bytes otpk),
        (7, Uint (ucast (pb_kyber_id b))),
        (8, Bytes (pb_kyber_public b)),
        (9, Bytes (pb_kyber_signature b)),
        (10, Bytes (pb_identity_key b))])))"

text \<open>A key read with \<open>deserialize\<close>; what libsignal's own error is, \<open>Signal\<close> stands for.\<close>

definition read_with :: "(bytes \<Rightarrow> bool) \<Rightarrow> CoreError \<Rightarrow> (u64 \<times> Value) list \<Rightarrow> u64 \<Rightarrow> bytes cresult" where
  "read_with ok e m k = rbind (lift (get_bytes m k)) (\<lambda>b. if ok b then Ok b else Err e)"

definition pb_decode :: "libsignal \<Rightarrow> bytes \<Rightarrow> PreKeyBundle cresult" where
  "pb_decode L bs =
     rbind (lift (decode_map ''prekey bundle must be a map'' bs)) (\<lambda>m.
     rbind (lift (check_version m)) (\<lambda>_.
     rbind (lift (get_uint m 1)) (\<lambda>rid.
     rbind (lift (get_uint m 2)) (\<lambda>sid.
     rbind (read_with (ls_public_key L) BadKey m 3) (\<lambda>spk.
     rbind (lift (get_bytes m 4)) (\<lambda>ssig.
     rbind (lift (get_uint m 5)) (\<lambda>oid.
     rbind (read_with (ls_public_key L) BadKey m 6) (\<lambda>otpk.
     rbind (lift (get_uint m 7)) (\<lambda>kid.
     rbind (read_with (ls_kem_key L) (Signal '''') m 8) (\<lambda>kpk.
     rbind (lift (get_bytes m 9)) (\<lambda>ksig.
     rbind (read_with (ls_identity_key L) (Signal '''') m 10) (\<lambda>ik.
       Ok \<lparr>pb_registration_id = ucast rid, pb_signed_id = ucast sid, pb_signed_public = spk, pb_signed_signature = ssig,
            pb_otpk = Some (ucast oid, otpk), pb_kyber_id = ucast kid, pb_kyber_public = kpk, pb_kyber_signature = ksig,
            pb_identity_key = ik\<rparr>))))))))))))"

subsection \<open>The installation\<close>

text \<open>\<open>in_identity\<close> is the Ed25519 signing key, \<open>in_mls\<close> what \<open>mls_provider\<close> stores.\<close>

record Installation =
  in_identity :: bytes
  in_revocation_public :: key
  in_address :: addr
  in_store :: SignalStore
  in_next_pre_key_id :: u32
  in_next_kyber_id :: u32
  in_signed_pre_key_id :: u32
  in_signed_pre_key_at :: u64
  in_binding_seq :: u64
  in_mls :: "(bytes, bytes) hashmap"

definition address_for :: "key \<Rightarrow> addr" where
  "address_for k = (to_hex k, DEVICE_ID)"

definition in_public_key :: "crypto \<Rightarrow> Installation \<Rightarrow> key" where
  "in_public_key C i = lib_ed_public C (in_identity i)"

definition in_identity_id :: "crypto \<Rightarrow> Installation \<Rightarrow> key" where
  "in_identity_id C i = identity_id C (in_public_key C i)"

definition mailbox_owner_auth :: "crypto \<Rightarrow> key \<Rightarrow> Installation \<Rightarrow> u64 \<Rightarrow> u64 \<Rightarrow> u64 \<Rightarrow> AuthScope \<Rightarrow> MailboxOwnerAuth cresult" where
  "mailbox_owner_auth C nonce i cursor limit now scope =
     lift (mo_sign C nonce (in_identity i) (in_identity_id C i) cursor limit now scope)"

definition card_with_share :: "crypto \<Rightarrow> Installation \<Rightarrow> key \<Rightarrow> bytes \<Rightarrow> u64 \<Rightarrow> key \<Rightarrow> ContactCard cresult" where
  "card_with_share C i hpke host expires_at share =
     rbind (lift (hb_sign C (in_identity i)
       \<lparr>hb_server_id = server_id C hpke, hb_hpke_public = hpke, hb_host = host, hb_seq = in_binding_seq i,
        hb_expires_at = expires_at, hb_signature = replicate 64 0\<rparr>)) (\<lambda>binding.
     Ok \<lparr>cc_identity_public = in_public_key C i, cc_revocation_public = in_revocation_public i,
          cc_share_token = share, cc_binding = binding\<rparr>)"

text \<open>The number is advanced before the card is signed, also when signing fails.\<close>

definition mint_card :: "crypto \<Rightarrow> key \<Rightarrow> key \<Rightarrow> bytes \<Rightarrow> u64 \<Rightarrow> Installation \<Rightarrow> ContactCard cresult \<times> Installation" where
  "mint_card C share hpke host expires_at i =
     (let i = i\<lparr>in_binding_seq := in_binding_seq i + 1\<rparr> in (card_with_share C i hpke host expires_at share, i))"

definition session_identity_key :: "libsignal \<Rightarrow> Installation \<Rightarrow> bytes" where
  "session_identity_key L i = ls_pair_public L (idk_pair (ss_identity (in_store i)))"

definition sign_capability_intro :: "crypto \<Rightarrow> libsignal \<Rightarrow> Installation \<Rightarrow> key \<Rightarrow> key \<Rightarrow> key \<Rightarrow> CapabilityIntro cresult" where
  "sign_capability_intro C L i recipient cap dest_hpke =
     (let intro = \<lparr>ci_identity_id = in_identity_id C i, ci_identity_public = in_public_key C i,
           ci_revocation_public = in_revocation_public i, ci_dest_hpke = dest_hpke, ci_binding_seq = in_binding_seq i,
           ci_session_key = session_identity_key L i, ci_recipient = recipient, ci_signature = replicate 64 0\<rparr> in
     rbind (lift (sign C (in_identity i) CAPABILITY_INTRO (ci_signed_payload intro cap))) (\<lambda>s.
     Ok (intro\<lparr>ci_signature := s\<rparr>)))"

definition peer_session_identity_key :: "Installation \<Rightarrow> key \<Rightarrow> bytes option" where
  "peer_session_identity_key i peer = get_identity (address_for peer) (ss_identity (in_store i))"

definition verify_capability_intro :: "crypto \<Rightarrow> Installation \<Rightarrow> key \<Rightarrow> key \<Rightarrow> CapabilityIntro \<Rightarrow> unit cresult" where
  "verify_capability_intro C i session_peer cap intro =
     rbind (ci_verify C intro cap (in_identity_id C i)) (\<lambda>_.
     if peer_session_identity_key i session_peer = Some (ci_session_key intro) then Ok () else Err BadIntro)"

definition rematerialize_peer :: "key \<Rightarrow> key \<Rightarrow> Installation \<Rightarrow> Installation" where
  "rematerialize_peer src dst i =
     (if src = dst then i else i\<lparr>in_store := ss_rematerialize_peer (address_for src) (address_for dst) (in_store i)\<rparr>)"

text \<open>A call of libsignal on the session and identity stores.\<close>

definition with_sessions :: "(Sessions \<times> Identities \<Rightarrow> 'a cresult \<times> Sessions \<times> Identities) \<Rightarrow> Installation \<Rightarrow> 'a cresult \<times> Installation" where
  "with_sessions f i =
     (let (r, ses, ids) = f (ss_session (in_store i), ss_identity (in_store i)) in
      (r, i\<lparr>in_store := (in_store i)\<lparr>ss_session := ses, ss_identity := ids\<rparr>\<rparr>))"

definition start_session :: "crypto \<Rightarrow> libsignal \<Rightarrow> ContactCard \<Rightarrow> SignedPrekey \<Rightarrow> u64 \<Rightarrow> Installation \<Rightarrow> unit cresult \<times> Installation" where
  "start_session C L cc prekey now i =
     sread (lift (cc_verify C cc now)) i (\<lambda>_.
     if \<not> lib_ed_point C (cc_identity_public cc) then (Err (Wire Signature), i)
     else sread (lift (sp_verify C prekey (cc_identity_public cc))) i (\<lambda>_.
     if sp_identity_public prekey \<noteq> cc_identity_public cc then (Err IdentityMismatch, i)
     else sread (pb_decode L (sp_libsignal_prekey prekey)) i (\<lambda>b.
     if pb_otpk b = None then (Err EmptyPrekeyStock, i)
     else
       (let remote = address_for (cc_identity_id C cc) in
        case get_identity remote (ss_identity (in_store i)) of
          Some known \<Rightarrow>
            if known \<noteq> pb_identity_key b then (Err IdentityMismatch, i)
            else with_sessions (ls_process_bundle L remote (in_address i) b) i
        | None \<Rightarrow> with_sessions (ls_process_bundle L remote (in_address i) b) i))))"

definition start_session_from_discovery :: "crypto \<Rightarrow> libsignal \<Rightarrow> ContactCard \<Rightarrow> Discovery \<Rightarrow> SignedPrekey \<Rightarrow> u64 \<Rightarrow> Installation \<Rightarrow> unit cresult \<times> Installation" where
  "start_session_from_discovery C L cc disc prekey now i =
     sread (resolve_contact C cc disc now) i (\<lambda>_. start_session C L cc prekey now i)"

definition in_encrypt :: "libsignal \<Rightarrow> key \<Rightarrow> bytes \<Rightarrow> Installation \<Rightarrow> bytes cresult \<times> Installation" where
  "in_encrypt L peer plaintext i = with_sessions (ls_encrypt L (address_for peer) (in_address i) plaintext) i"

text \<open>\<open>encrypt_to_mailbox\<close> with \<open>DoubleRatchet\<close>, \<open>encrypt_attachment_to_mailbox\<close> with \<open>AttachmentDr\<close>.\<close>

definition encrypt_to_mailbox :: "crypto \<Rightarrow> libsignal \<Rightarrow> key \<times> bytes \<Rightarrow> MessageType \<Rightarrow> key \<Rightarrow> key \<Rightarrow> key \<Rightarrow> TtlBucket \<Rightarrow> bytes \<Rightarrow>
    Installation \<Rightarrow> OuterEnvelope cresult \<times> Installation" where
  "encrypt_to_mailbox C L rnd ty peer dest cap ttl plaintext i =
     sbind (in_encrypt L peer plaintext i) (\<lambda>body i. (wrap C rnd dest cap ttl ty body, i))"

subsection \<open>Incoming messages\<close>

definition parse_ciphertext :: "libsignal \<Rightarrow> bytes \<Rightarrow> unit cresult" where
  "parse_ciphertext L bs =
     (if ls_prekey_message L bs \<noteq> None then Ok () else if ls_signal_message L bs then Ok () else Err BadCiphertext)"

definition in_decrypt :: "libsignal \<Rightarrow> key \<Rightarrow> bytes \<Rightarrow> Installation \<Rightarrow> bytes cresult \<times> Installation" where
  "in_decrypt L peer ct i =
     sread (parse_ciphertext L ct) i (\<lambda>_.
       let st = in_store i;
           (r, ses, ids, pks, kks) = ls_decrypt L (address_for peer) (in_address i) ct (ss_signed st)
             (ss_session st, ss_identity st, ss_pre_key st, ss_kyber st) in
       (r, i\<lparr>in_store := st\<lparr>ss_session := ses, ss_identity := ids, ss_pre_key := pks, ss_kyber := kks\<rparr>\<rparr>))"

text \<open>The loop over \<open>last..=body.len()\<close>: the candidate ends, shortest first.\<close>

fun first_end :: "libsignal \<Rightarrow> bytes \<Rightarrow> nat list \<Rightarrow> bytes cresult" where
  "first_end L body [] = Err BadCiphertext"
| "first_end L body (n # ns) = (if is_ok (parse_ciphertext L (take n body)) then Ok (take n body) else first_end L body ns)"

definition parse_padded_dr :: "libsignal \<Rightarrow> bytes \<Rightarrow> bytes cresult" where
  "parse_padded_dr L body =
     (if is_ok (parse_ciphertext L body) then Ok body
      else
        (let last_len = length (dropWhile (\<lambda>b. b = 0) (rev body)) in
         first_end L body [last_len ..< length body + 1]))"

definition provisional_peer_id :: "crypto \<Rightarrow> bytes \<Rightarrow> key" where
  "provisional_peer_id C ls = sha256 C ls"

text \<open>\<open>sort\<close> and \<open>dedup\<close> of the known peers.\<close>

definition known_peers :: "Installation \<Rightarrow> key list \<Rightarrow> key list" where
  "known_peers i extra = remdups_adj (sort (extra @
     List.map_filter (\<lambda>name. case parse_identity_id name of Ok k \<Rightarrow> Some k | Err _ \<Rightarrow> None) (peer_address_names (in_store i))))"

fun try_peers :: "libsignal \<Rightarrow> bytes \<Rightarrow> CoreError \<Rightarrow> key list \<Rightarrow> Installation \<Rightarrow> (key \<times> bytes) cresult \<times> Installation" where
  "try_peers L ct last_err [] i = (Err last_err, i)"
| "try_peers L ct last_err (peer # peers) i =
     (case in_decrypt L peer ct i of
        (Ok pt, i) \<Rightarrow> (Ok (peer, pt), i)
      | (Err e, i) \<Rightarrow> try_peers L ct e peers i)"

definition decrypt_from_mailbox :: "libsignal \<Rightarrow> key \<Rightarrow> InnerEnvelope \<Rightarrow> Installation \<Rightarrow> bytes cresult \<times> Installation" where
  "decrypt_from_mailbox L peer inner i =
     sread (expect_ratchet inner) i (\<lambda>body.
     sread (parse_padded_dr L body) i (\<lambda>ct. in_decrypt L peer ct i))"

text \<open>\<open>identity_matches\<close> is the comparison in \<open>find\<close>.\<close>

definition decrypt_incoming :: "crypto \<Rightarrow> libsignal \<Rightarrow> InnerEnvelope \<Rightarrow> key list \<Rightarrow> Installation \<Rightarrow> (key \<times> bytes) cresult \<times> Installation" where
  "decrypt_incoming C L inner extra i =
     sread (expect_ratchet inner) i (\<lambda>body.
     sread (parse_padded_dr L body) i (\<lambda>ct.
     let peers = known_peers i extra in
     case ls_prekey_message L ct of
       Some ls \<Rightarrow>
         (let peer = (case find (\<lambda>p. peer_session_identity_key i p = Some ls) peers of
                        Some p \<Rightarrow> p
                      | None \<Rightarrow> provisional_peer_id C ls) in
          sbind (in_decrypt L peer ct i) (\<lambda>pt i. (Ok (peer, pt), i)))
     | None \<Rightarrow> try_peers L ct UnknownContact peers i))"

subsection \<open>Stock and rotation\<close>

definition PREKEY_STOCK_TARGET :: nat where "PREKEY_STOCK_TARGET = 100"
definition PREKEY_RESTOCK_BELOW :: nat where "PREKEY_RESTOCK_BELOW = 25"
definition SIGNED_PREKEY_ROTATE_SECS :: u64 where "SIGNED_PREKEY_ROTATE_SECS = 48 * 3600"

text \<open>\<open>n.saturating_add(1)\<close> on a \<open>u32\<close>.\<close>

definition saturating_succ :: "u32 \<Rightarrow> u32" where
  "saturating_succ n = (if n = - 1 then - 1 else n + 1)"

definition at_store :: "(SignalStore \<Rightarrow> SignalStore) \<Rightarrow> Installation \<Rightarrow> Installation" where
  "at_store f i = i\<lparr>in_store := f (in_store i)\<rparr>"

text \<open>\<open>e\<close> is the entropy drawn, \<open>now_ms\<close> the clock in milliseconds.\<close>

definition rotate_signed_prekey :: "libsignal \<Rightarrow> bytes \<Rightarrow> u64 \<Rightarrow> Installation \<Rightarrow> unit cresult \<times> Installation" where
  "rotate_signed_prekey L e now_ms i =
     sread (ls_new_signed L e (in_signed_pre_key_id i) now_ms (idk_pair (ss_identity (in_store i)))) i (\<lambda>r.
     let i = at_store (\<lambda>st. st\<lparr>ss_signed := save_signed_pre_key (in_signed_pre_key_id i) r (ss_signed st)\<rparr>) i in
     (Ok (), i\<lparr>in_signed_pre_key_at := now_ms div 1000\<rparr>))"

definition maybe_rotate_signed_prekey :: "libsignal \<Rightarrow> bytes \<Rightarrow> u64 \<Rightarrow> u64 \<Rightarrow> Installation \<Rightarrow> bool cresult \<times> Installation" where
  "maybe_rotate_signed_prekey L e now_ms now_unix i =
     (if saturating_sub now_unix (in_signed_pre_key_at i) < SIGNED_PREKEY_ROTATE_SECS then (Ok False, i)
      else
        (let i = i\<lparr>in_signed_pre_key_id := saturating_succ (in_signed_pre_key_id i)\<rparr> in
         sbind (rotate_signed_prekey L e now_ms i) (\<lambda>_ i. (Ok True, i))))"

record RevocationExport =
  re_mnemonic :: bytes
  re_public_key :: key

text \<open>
  The random draws of \<open>Installation::create\<close>: the two signing keys, libsignal's key pair, the
  registration number and the first signed prekey's entropy. \<open>words\<close> is \<open>Mnemonic::from_entropy\<close>.
\<close>

record CreateDraw =
  cr_identity :: bytes
  cr_revocation :: bytes
  cr_pair :: bytes
  cr_registration :: u32
  cr_signed :: bytes
  cr_now_ms :: u64

definition in_create :: "crypto \<Rightarrow> libsignal \<Rightarrow> (bytes \<Rightarrow> bytes option) \<Rightarrow> CreateDraw \<Rightarrow> (Installation \<times> RevocationExport) cresult" where
  "in_create C L words d =
     rbind (ok_or (words (cr_revocation d)) Mnemonic) (\<lambda>mnemonic.
     let export = \<lparr>re_mnemonic = mnemonic, re_public_key = lib_ed_public C (cr_revocation d)\<rparr>;
         rid = max (cr_registration d) 1;
         i = \<lparr>in_identity = cr_identity d, in_revocation_public = re_public_key export,
              in_address = address_for (identity_id C (lib_ed_public C (cr_identity d))), in_store = ss_new (cr_pair d) rid,
              in_next_pre_key_id = 1, in_next_kyber_id = 1, in_signed_pre_key_id = 1, in_signed_pre_key_at = 0,
              in_binding_seq = 0, in_mls = []\<rparr>;
         (r, i) = rotate_signed_prekey L (cr_signed d) (cr_now_ms d) i in
     rbind r (\<lambda>_. Ok (i, export)))"

definition sign_invitee_proof :: "crypto \<Rightarrow> Installation \<Rightarrow> key \<Rightarrow> key \<Rightarrow> InviteeProof cresult" where
  "sign_invitee_proof C i gid pid = lift (ip_sign C (in_identity i) gid pid)"

definition unused_one_time_prekeys :: "Installation \<Rightarrow> nat" where
  "unused_one_time_prekeys i = length (all_pre_key_ids (in_store i))"

definition needs_restock :: "Installation \<Rightarrow> bool" where
  "needs_restock i \<longleftrightarrow> unused_one_time_prekeys i < PREKEY_RESTOCK_BELOW"

text \<open>\<open>e\<close> is the entropy of the one-time key and of the Kyber key.\<close>

definition mint_prekey :: "crypto \<Rightarrow> libsignal \<Rightarrow> bytes \<times> bytes \<Rightarrow> Installation \<Rightarrow> SignedPrekey cresult \<times> Installation" where
  "mint_prekey C L e i =
     (let otpk_id = in_next_pre_key_id i;
          i = i\<lparr>in_next_pre_key_id := saturating_succ otpk_id\<rparr>;
          (otpk_rec, otpk) = ls_new_pre_key L (fst e) otpk_id;
          i = at_store (\<lambda>st. st\<lparr>ss_pre_key := save_pre_key otpk_id otpk_rec (ss_pre_key st)\<rparr>) i;
          kyber_id = in_next_kyber_id i;
          i = i\<lparr>in_next_kyber_id := saturating_succ kyber_id\<rparr>;
          ids = ss_identity (in_store i) in
      sread (ls_new_kyber L (snd e) kyber_id (idk_pair ids)) i (\<lambda>kyber.
      let i = at_store (\<lambda>st. st\<lparr>ss_kyber := save_kyber_pre_key kyber_id kyber (ss_kyber st)\<rparr>) i in
      sread (get_signed_pre_key (in_signed_pre_key_id i) (ss_signed (in_store i))) i (\<lambda>signed.
      sread (ls_signed_view L signed) i (\<lambda>(sid, spk, ssig).
      sread (ls_kyber_view L kyber) i (\<lambda>(kid, kpk, ksig).
      let b = \<lparr>pb_registration_id = idk_registration ids, pb_signed_id = sid, pb_signed_public = spk, pb_signed_signature = ssig,
            pb_otpk = Some (otpk_id, otpk), pb_kyber_id = kid, pb_kyber_public = kpk, pb_kyber_signature = ksig,
            pb_identity_key = ls_pair_public L (idk_pair ids)\<rparr> in
      sread (ls_bundle L b) i (\<lambda>_.
      sread (pb_encode b) i (\<lambda>opaque.
        (lift (sp_sign C (in_identity i) (ucast otpk_id) opaque), i))))))))"

text \<open>The \<open>while\<close> loop; \<open>e n\<close> is the entropy of its \<open>n\<close>-th round. \<open>None\<close> is a loop that never ends.\<close>

partial_function (option) restock_loop :: "crypto \<Rightarrow> libsignal \<Rightarrow> (nat \<Rightarrow> bytes \<times> bytes) \<Rightarrow> nat \<Rightarrow> SignedPrekey list \<Rightarrow> Installation \<Rightarrow>
    (SignedPrekey list cresult \<times> Installation) option" where
  "restock_loop C L e n out i =
     (if unused_one_time_prekeys i < PREKEY_STOCK_TARGET then
        (case mint_prekey C L (e n) i of
           (Err x, i) \<Rightarrow> Some (Err x, i)
         | (Ok p, i) \<Rightarrow> restock_loop C L e (Suc n) (out @ [p]) i)
      else Some (Ok out, i))"

definition restock :: "crypto \<Rightarrow> libsignal \<Rightarrow> (nat \<Rightarrow> bytes \<times> bytes) \<Rightarrow> Installation \<Rightarrow> (SignedPrekey list cresult \<times> Installation) option" where
  "restock C L e i = restock_loop C L e 0 [] i"

subsection \<open>Snapshot\<close>

definition encode_snapshot :: "Installation \<Rightarrow> bytes" where
  "encode_snapshot i = encode (Map
     [(0, Uint 1),
      (1, Bytes (in_identity i)),
      (2, Bytes (in_revocation_public i)),
      (3, Bytes (ss_encode (in_store i))),
      (4, Uint (ucast (in_next_pre_key_id i))),
      (5, Uint (ucast (in_next_kyber_id i))),
      (6, Uint (ucast (in_signed_pre_key_id i))),
      (7, Uint (in_binding_seq i)),
      (8, Uint (in_signed_pre_key_at i))])"

definition snapshot_key :: "(u64 \<times> Value) list \<Rightarrow> u64 \<Rightarrow> key cresult" where
  "snapshot_key m k = rbind (corrupt (get_bytes m k)) (\<lambda>b. if length b \<noteq> KEY_LEN then Err VaultCorrupt else Ok b)"

definition decode_snapshot :: "crypto \<Rightarrow> libsignal \<Rightarrow> bytes \<Rightarrow> Installation cresult" where
  "decode_snapshot C L bs =
     rbind (vault_map bs) (\<lambda>m.
     rbind (corrupt (get_uint m 0)) (\<lambda>version.
     if version \<noteq> 1 then Err VaultCorrupt
     else
       rbind (snapshot_key m 1) (\<lambda>seed.
       rbind (snapshot_key m 2) (\<lambda>rpk.
       rbind (corrupt (get_bytes m 3)) (\<lambda>sb.
       rbind (ss_decode L sb) (\<lambda>st.
       rbind (corrupt (get_uint m 4)) (\<lambda>npk.
       rbind (corrupt (get_uint m 5)) (\<lambda>nky.
       rbind (corrupt (get_uint m 6)) (\<lambda>sid.
       rbind (corrupt (get_uint m 7)) (\<lambda>seq.
       rbind (case map_get_opt m 8 of Some v \<Rightarrow> corrupt (expect_uint v) | None \<Rightarrow> Ok 0) (\<lambda>at_unix.
         Ok \<lparr>in_identity = seed, in_revocation_public = rpk,
              in_address = address_for (identity_id C (lib_ed_public C seed)), in_store = st,
              in_next_pre_key_id = ucast npk, in_next_kyber_id = ucast nky, in_signed_pre_key_id = ucast sid,
              in_signed_pre_key_at = at_unix, in_binding_seq = seq, in_mls = []\<rparr>)))))))))))"

text \<open>\<open>revocation_from_mnemonic\<close>, from the entropy that the \<open>bip39\<close> package reads from the words.\<close>

definition revocation_from_entropy :: "crypto \<Rightarrow> bytes option \<Rightarrow> key \<Rightarrow> u64 \<Rightarrow> RevocationStatement cresult" where
  "revocation_from_entropy C entropy ident ts =
     rbind (ok_or entropy Mnemonic) (\<lambda>seed.
     if length seed \<noteq> KEY_LEN then Err Mnemonic else lift (rs_sign C seed ident ts))"

end
