(* ===== verification/Client_Home.thy ===== *)
theory Client_Home
  imports Client_Identity
begin

text \<open>
  The client's home session, \<open>nemo-core/src/home.rs\<close>: every call a client makes to its home
  server and to the homes of others, and what it makes of the answers.

  The network is the argument \<open>tr\<close> in the session: \<open>tr_call\<close> takes a request and the state
  \<open>'w\<close> of the world outside and returns an answer and the state after it; \<open>tr_redirect\<close> gives
  the transport to another origin. An operation takes the session and the world and returns both.
  A \<open>Draw\<close> holds what one exchange draws: random nonces and the clock. The text of a formatted
  transport error leaves out its arguments. Locks are never poisoned.
\<close>

section \<open>Exchanges\<close>

record HttpRequest =
  rq_method :: bytes
  rq_path :: bytes
  rq_headers :: "(bytes \<times> bytes) list"
  rq_body :: bytes

record HttpResponse =
  rp_status :: "16 word"
  rp_body :: bytes
  rp_headers :: "(bytes \<times> bytes) list"

type_synonym 'w call = "HttpRequest \<Rightarrow> 'w \<Rightarrow> HttpResponse cresult \<times> 'w"

record 'w transport =
  tr_call :: "'w call"
  tr_redirect :: "bytes \<Rightarrow> 'w call option"
  tr_set_anonymous :: "bool \<Rightarrow> 'w \<Rightarrow> 'w"

record Draw =
  cd_auth_nonce :: key
  cd_resp_nonce :: key
  cd_now_unix :: u64
  cd_now_ms :: u64

definition rp_header :: "HttpResponse \<Rightarrow> bytes \<Rightarrow> bytes option" where
  "rp_header res name = map_option snd (find (\<lambda>(k, _). eq_ignore_ascii_case k name) (rp_headers res))"

definition RESPONSE_NONCE_HEADER :: bytes where "RESPONSE_NONCE_HEADER = str_bytes ''nemo-nonce''"
definition RESPONSE_SIG_HEADER :: bytes where "RESPONSE_SIG_HEADER = str_bytes ''nemo-server-sig''"

definition verify_signed_response :: "crypto \<Rightarrow> ServerBundle \<Rightarrow> key \<Rightarrow> HttpResponse \<Rightarrow> unit cresult" where
  "verify_signed_response C sb nonce res =
     rbind (ok_or (rp_header res RESPONSE_SIG_HEADER) UnsignedResponse) (\<lambda>sig_hex.
     rbind (map_err (\<lambda>_. UnsignedResponse) (from_hex sig_hex)) (\<lambda>sig.
     rbind (map_err (\<lambda>_. UnsignedResponse) (copy_fixed 64 sig)) (\<lambda>sig.
     if \<not> lib_ed_point C (sb_sign_public sb) then Err UnsignedResponse
     else map_err (\<lambda>_. UnsignedResponse) (verify_response C (sb_sign_public sb) nonce (rp_status res) (rp_body res) sig))))"

definition signed_call :: "crypto \<Rightarrow> Draw \<Rightarrow> 'w call \<Rightarrow> ServerBundle \<Rightarrow> 'w call" where
  "signed_call C d call sb req w =
     sbind (call (req\<lparr>rq_headers := rq_headers req @ [(RESPONSE_NONCE_HEADER, to_hex (cd_resp_nonce d))]\<rparr>) w)
       (\<lambda>res w. sread (verify_signed_response C sb (cd_resp_nonce d) res) w (\<lambda>_. (Ok res, w)))"

definition check_status :: "HttpResponse \<Rightarrow> unit cresult" where
  "check_status res =
     (if rp_status res = 200 \<or> rp_status res = 204 then Ok ()
      else if rp_status res = 401 \<or> rp_status res = 403 then Err Denied
      else if rp_status res = 409 then Err AlreadyRegistered
      else Err (HomeHttp (rp_status res)))"

definition check_empty :: "HttpResponse \<Rightarrow> unit cresult" where
  "check_empty res = check_status res"

definition check_body :: "HttpResponse \<Rightarrow> bytes cresult" where
  "check_body res = rbind (check_status res) (\<lambda>_. Ok (rp_body res))"

definition body_map :: "HttpResponse \<Rightarrow> (u64 \<times> Value) list cresult" where
  "body_map res = rbind (check_body res) (\<lambda>b. lift (decode_map ''expected map'' b))"

definition map_key :: "(u64 \<times> Value) list \<Rightarrow> u64 \<Rightarrow> key cresult" where
  "map_key m k = lift (get_fixed KEY_LEN m k)"

definition GET :: bytes where "GET = str_bytes ''GET''"
definition POST :: bytes where "POST = str_bytes ''POST''"

definition fetch_bundle :: "crypto \<Rightarrow> Draw \<Rightarrow> 'w call \<Rightarrow> 'w \<Rightarrow> ServerBundle cresult \<times> 'w" where
  "fetch_bundle C d call w =
     sbind (call \<lparr>rq_method = GET, rq_path = str_bytes ''/v1/bundle'',
               rq_headers = [(RESPONSE_NONCE_HEADER, to_hex (cd_resp_nonce d))], rq_body = []\<rparr> w)
       (\<lambda>res w. (rbind (check_body res) (\<lambda>b.
                 rbind (lift (sb_decode b)) (\<lambda>sb.
                 rbind (lift (sb_verify C sb)) (\<lambda>_.
                 rbind (verify_signed_response C sb (cd_resp_nonce d) res) (\<lambda>_. Ok sb)))), w))"

section \<open>The session\<close>

definition FETCH_LIMIT :: u64 where "FETCH_LIMIT = 64"
definition CARD_TTL_SECS :: u64 where "CARD_TTL_SECS = 30 * 24 * 3600"

record 'w HomeSession =
  cs_transport :: "'w transport"
  cs_install :: "Installation"
  cs_bundle :: ServerBundle
  cs_cursor :: u64
  cs_contacts :: "(key, StoredContact) hashmap"
  cs_groups :: "HostGroup list"
  cs_home_base :: bytes
  cs_privacy :: PrivacyMode
  cs_pending_outers :: "OuterEnvelope list"
  cs_cover_next_ms :: u64
  cs_last_real_ms :: u64

type_synonym 'w sess = "'w HomeSession \<times> 'w"

text \<open>A call that changes the world only, and one that changes the installation only.\<close>

definition at_world :: "('w \<Rightarrow> 'a cresult \<times> 'w) \<Rightarrow> 'w sess \<Rightarrow> 'a cresult \<times> 'w sess" where
  "at_world f s = (let (r, w) = f (snd s) in (r, (fst s, w)))"

definition at_install :: "(Installation \<Rightarrow> 'a cresult \<times> Installation) \<Rightarrow> 'w sess \<Rightarrow> 'a cresult \<times> 'w sess" where
  "at_install f s = (let (r, i) = f (cs_install (fst s)) in (r, ((fst s)\<lparr>cs_install := i\<rparr>, snd s)))"

definition resume :: "'w transport \<Rightarrow> Installation \<Rightarrow> HomeState \<Rightarrow> 'w HomeSession" where
  "resume tr i st = \<lparr>cs_transport = tr, cs_install = i, cs_bundle = hst_bundle st, cs_cursor = hst_cursor st,
     cs_contacts = hst_contacts st, cs_groups = hst_groups st, cs_home_base = hst_home_base st, cs_privacy = hst_privacy st,
     cs_pending_outers = [], cs_cover_next_ms = 0, cs_last_real_ms = 0\<rparr>"

definition snapshot :: "'w HomeSession \<Rightarrow> HomeState" where
  "snapshot cs = \<lparr>hst_bundle = cs_bundle cs, hst_cursor = cs_cursor cs, hst_contacts = cs_contacts cs,
     hst_groups = cs_groups cs, hst_home_base = cs_home_base cs, hst_privacy = cs_privacy cs\<rparr>"

definition set_home_base :: "bytes \<Rightarrow> 'w HomeSession \<Rightarrow> 'w HomeSession" where
  "set_home_base base cs = cs\<lparr>cs_home_base := trim_slashes base\<rparr>"

text \<open>\<open>r\<close> is the random number of the cover interval.\<close>

definition set_privacy :: "u64 \<Rightarrow> u64 \<Rightarrow> PrivacyMode \<Rightarrow> 'w sess \<Rightarrow> unit cresult \<times> 'w sess" where
  "set_privacy r now_ms mode s =
     (let cs = (fst s)\<lparr>cs_privacy := mode\<rparr>;
          cs = (case cover_interval_ms mode r of Some wait \<Rightarrow> cs\<lparr>cs_cover_next_ms := saturating_add now_ms wait\<rparr> | None \<Rightarrow> cs);
          anonymous = (mode \<in> {High, Maximum} \<and> \<not> is_loopback_origin (cs_home_base cs)) in
      (Ok (), (cs, tr_set_anonymous (cs_transport cs) anonymous (snd s))))"

definition force_cover_now :: "'w HomeSession \<Rightarrow> 'w HomeSession" where
  "force_cover_now cs = cs\<lparr>cs_cover_next_ms := 0, cs_last_real_ms := 0\<rparr>"

definition own_id :: "crypto \<Rightarrow> 'w HomeSession \<Rightarrow> key" where
  "own_id C cs = in_identity_id C (cs_install cs)"

definition own_hpke :: "'w HomeSession \<Rightarrow> key" where
  "own_hpke cs = sb_hpke_public (cs_bundle cs)"

definition origin_for_binding :: "'w HomeSession \<Rightarrow> HomeServerBinding \<Rightarrow> bytes" where
  "origin_for_binding cs b = peer_http_origin (hb_host b) (hb_server_id b) (sb_server_id (cs_bundle cs)) (cs_home_base cs)"

subsection \<open>Calls\<close>

text \<open>\<open>signed_call(&self.transport, &self.bundle, req)\<close>.\<close>

definition home_call :: "crypto \<Rightarrow> Draw \<Rightarrow> HttpRequest \<Rightarrow> 'w sess \<Rightarrow> HttpResponse cresult \<times> 'w sess" where
  "home_call C d req s = at_world (signed_call C d (tr_call (cs_transport (fst s))) (cs_bundle (fst s)) req) s"

definition call_on :: "crypto \<Rightarrow> Draw \<Rightarrow> bytes \<Rightarrow> HttpRequest \<Rightarrow> 'w sess \<Rightarrow> HttpResponse cresult \<times> 'w sess" where
  "call_on C d origin req s =
     (let origin = trim_slashes origin in
      if origin = [] \<or> origin = cs_home_base (fst s) then home_call C d req s
      else
        (case tr_redirect (cs_transport (fst s)) origin of
           Some alt \<Rightarrow> at_world (alt req) s
         | None \<Rightarrow> (Err (Transport ''no transport for origin''), s)))"

definition owner_header :: "crypto \<Rightarrow> Draw \<Rightarrow> 'w HomeSession \<Rightarrow> bytes \<Rightarrow> bytes \<Rightarrow> bytes \<Rightarrow> bytes cresult" where
  "owner_header C d cs method path body =
     (let scope = scope_header C (sb_server_id (cs_bundle cs)) method path body in
      rbind (mailbox_owner_auth C (cd_auth_nonce d) (cs_install cs) 0 1 (cd_now_unix d) scope) (\<lambda>auth.
      Ok (to_hex (mo_encode auth))))"

definition mailbox_body_auth :: "crypto \<Rightarrow> Draw \<Rightarrow> 'w HomeSession \<Rightarrow> bytes \<Rightarrow> u64 \<Rightarrow> u64 \<Rightarrow> MailboxOwnerAuth cresult" where
  "mailbox_body_auth C d cs path cursor limit =
     mailbox_owner_auth C (cd_auth_nonce d) (cs_install cs) cursor limit (cd_now_unix d)
       (scope_body (sb_server_id (cs_bundle cs)) POST path)"

text \<open>A POST to the home with the owner's header.\<close>

definition owner_post :: "crypto \<Rightarrow> Draw \<Rightarrow> bytes \<Rightarrow> bytes \<Rightarrow> 'w sess \<Rightarrow> HttpResponse cresult \<times> 'w sess" where
  "owner_post C d path body s =
     sread (owner_header C d (fst s) POST path body) s (\<lambda>auth.
     home_call C d \<lparr>rq_method = POST, rq_path = path, rq_headers = [(str_bytes ''nemo-owner'', auth)], rq_body = body\<rparr> s)"

subsection \<open>Registration\<close>

text \<open>\<open>share\<close> is the card's random token; \<open>d 0\<close> serves the bundle, \<open>d 1\<close> the registration.\<close>

definition client_register :: "crypto \<Rightarrow> (nat \<Rightarrow> Draw) \<Rightarrow> key \<Rightarrow> 'w transport \<Rightarrow> Installation \<Rightarrow> u64 \<Rightarrow> 'w \<Rightarrow>
    ('w HomeSession \<times> ContactCard) cresult \<times> 'w" where
  "client_register C d share tr i now w =
     sbind (fetch_bundle C (d 0) (tr_call tr) w) (\<lambda>sb w.
     let (rc, i) = mint_card C share (sb_hpke_public sb) (sb_host sb) (saturating_add now CARD_TTL_SECS) i in
     sread rc w (\<lambda>cc.
     sread (lift (cc_encode cc)) w (\<lambda>body.
     sbind (signed_call C (d 1) (tr_call tr) sb
              \<lparr>rq_method = POST, rq_path = str_bytes ''/v1/register'', rq_headers = [], rq_body = body\<rparr> w) (\<lambda>res w.
     sread (check_empty res) w (\<lambda>_.
       (Ok (\<lparr>cs_transport = tr, cs_install = i, cs_bundle = sb, cs_cursor = 0, cs_contacts = [], cs_groups = [],
             cs_home_base = [], cs_privacy = Normal, cs_pending_outers = [], cs_cover_next_ms = 0, cs_last_real_ms = 0\<rparr>, cc), w))))))"

definition submit_revocation :: "crypto \<Rightarrow> Draw \<Rightarrow> RevocationStatement \<Rightarrow> 'w sess \<Rightarrow> unit cresult \<times> 'w sess" where
  "submit_revocation C d stmt s =
     sbind (home_call C d \<lparr>rq_method = POST, rq_path = str_bytes ''/v1/revocation'', rq_headers = [], rq_body = rs_encode stmt\<rparr> s)
       (\<lambda>res s. (check_empty res, s))"

subsection \<open>Discovery and contacts\<close>

definition discovery_at :: "crypto \<Rightarrow> Draw \<Rightarrow> bytes \<Rightarrow> key \<Rightarrow> 'w sess \<Rightarrow> Discovery cresult \<times> 'w sess" where
  "discovery_at C d origin ident s =
     sbind (call_on C d origin \<lparr>rq_method = GET, rq_path = str_bytes ''/v1/discovery/'' @ to_hex ident, rq_headers = [], rq_body = []\<rparr> s)
       (\<lambda>res s. (rbind (check_body res) (\<lambda>body.
                 rbind (lift (dr_decode body)) (\<lambda>dr.
                 Ok \<lparr>ds_identity_public = dr_identity_public dr, ds_revocation_public = dr_revocation_public dr,
                      ds_binding = dr_binding dr, ds_revocation = dr_revocation dr\<rparr>)), s))"

definition client_discovery :: "crypto \<Rightarrow> Draw \<Rightarrow> key \<Rightarrow> 'w sess \<Rightarrow> Discovery cresult \<times> 'w sess" where
  "client_discovery C d ident s = discovery_at C d (cs_home_base (fst s)) ident s"

definition fetch_prekey_at :: "crypto \<Rightarrow> Draw \<Rightarrow> bytes \<Rightarrow> key \<Rightarrow> 'w sess \<Rightarrow> SignedPrekey cresult \<times> 'w sess" where
  "fetch_prekey_at C d origin share s =
     sbind (call_on C d origin \<lparr>rq_method = GET, rq_path = str_bytes ''/v1/prekeys'',
              rq_headers = [(str_bytes ''nemo-token'', to_hex share)], rq_body = []\<rparr> s)
       (\<lambda>res s. (rbind (check_body res) (\<lambda>b. lift (sp_decode b)), s))"

definition add_contact :: "crypto \<Rightarrow> libsignal \<Rightarrow> (nat \<Rightarrow> Draw) \<Rightarrow> ContactCard \<Rightarrow> key \<Rightarrow> u64 \<Rightarrow> 'w sess \<Rightarrow> unit cresult \<times> 'w sess" where
  "add_contact C L d cc cap now s =
     sbind (discovery_at C (d 0) (origin_for_binding (fst s) (cc_binding cc)) (cc_identity_id C cc) s) (\<lambda>disc s.
     sread (resolve_contact C cc disc now) s (\<lambda>binding.
     let live_origin = origin_for_binding (fst s) binding in
     sbind (fetch_prekey_at C (d 1) live_origin (cc_share_token cc) s) (\<lambda>prekey s.
     sbind (at_install (start_session C L cc prekey now) s) (\<lambda>_ s.
       let pin = (pin_from_card C cc)\<lparr>pin_seq := hb_seq binding\<rparr>;
           contact = \<lparr>sc_pin = pin, sc_delivery_capability = cap, sc_dest_hpke = hb_hpke_public binding,
             sc_last_discovery_unix = now, sc_revoked = False, sc_home_origin = live_origin\<rparr> in
       (Ok (), ((fst s)\<lparr>cs_contacts := hm_insert (cc_identity_id C cc) contact (cs_contacts (fst s))\<rparr>, snd s))))))"

text \<open>The session and the contact of \<open>peer\<close> move to the identity \<open>real\<close>.\<close>

definition move_peer :: "key \<Rightarrow> key \<Rightarrow> 'w HomeSession \<Rightarrow> 'w HomeSession" where
  "move_peer peer real cs =
     (if peer \<noteq> real then
        cs\<lparr>cs_install := rematerialize_peer peer real (cs_install cs), cs_contacts := hm_move peer real (cs_contacts cs)\<rparr>
      else cs)"

text \<open>The origin, revocation key and binding number that a contact has after an introduction.\<close>

definition intro_pin :: "CapabilityIntro \<Rightarrow> StoredContact option \<Rightarrow> (bytes \<times> key \<times> u64) cresult" where
  "intro_pin intro known =
     (case known of
        Some c \<Rightarrow>
          if pin_identity_public (sc_pin c) \<noteq> ci_identity_public intro then Err IdentityMismatch
          else Ok (sc_home_origin c, pin_revocation_public (sc_pin c), max (pin_seq (sc_pin c)) (ci_binding_seq intro))
      | None \<Rightarrow> Ok ([], ci_revocation_public intro, ci_binding_seq intro))"

definition introduced :: "CapabilityIntro \<Rightarrow> key \<Rightarrow> u64 \<Rightarrow> bytes \<times> key \<times> u64 \<Rightarrow> StoredContact" where
  "introduced intro cap now p =
     \<lparr>sc_pin = \<lparr>pin_identity_id = ci_identity_id intro, pin_identity_public = ci_identity_public intro,
        pin_revocation_public = fst (snd p), pin_seq = snd (snd p)\<rparr>,
      sc_delivery_capability = cap, sc_dest_hpke = ci_dest_hpke intro, sc_last_discovery_unix = now,
      sc_revoked = False, sc_home_origin = fst p\<rparr>"

definition apply_contact_capability :: "crypto \<Rightarrow> key \<Rightarrow> key \<Rightarrow> CapabilityIntro option \<Rightarrow> u64 \<Rightarrow>
    'w HomeSession \<Rightarrow> key cresult \<times> 'w HomeSession" where
  "apply_contact_capability C peer cap intro now cs =
     (case intro of
        None \<Rightarrow>
          (case hm_get (cs_contacts cs) peer of
             None \<Rightarrow> (Err UnknownContact, cs)
           | Some c \<Rightarrow> (Ok peer, cs\<lparr>cs_contacts := hm_insert peer (c\<lparr>sc_delivery_capability := cap\<rparr>) (cs_contacts cs)\<rparr>))
      | Some intro \<Rightarrow>
          sread (verify_capability_intro C (cs_install cs) peer cap intro) cs (\<lambda>_.
          let real = ci_identity_id intro in
          if peer \<noteq> real \<and> (case peer_session_identity_key (cs_install cs) real of
                             Some existing \<Rightarrow> existing \<noteq> ci_session_key intro | None \<Rightarrow> False)
          then (Err IdentityMismatch, cs)
          else
            (let cs = move_peer peer real cs in
             sread (intro_pin intro (hm_get (cs_contacts cs) real)) cs (\<lambda>p.
             (Ok real, cs\<lparr>cs_contacts := hm_insert real (introduced intro cap now p) (cs_contacts cs)\<rparr>)))))"

text \<open>Writing through \<open>self.contacts.get_mut(peer)\<close>.\<close>

definition put_contact :: "key \<Rightarrow> StoredContact \<Rightarrow> 'w sess \<Rightarrow> 'w sess" where
  "put_contact peer c s = ((fst s)\<lparr>cs_contacts := hm_insert peer c (cs_contacts (fst s))\<rparr>, snd s)"

definition refresh_contact :: "crypto \<Rightarrow> Draw \<Rightarrow> key \<Rightarrow> u64 \<Rightarrow> 'w sess \<Rightarrow> unit cresult \<times> 'w sess" where
  "refresh_contact C d peer now s =
     (let origin = (case hm_get (cs_contacts (fst s)) peer of Some c \<Rightarrow> sc_home_origin c | None \<Rightarrow> []) in
      sbind (discovery_at C d origin peer s) (\<lambda>disc s.
      sread (ds_verify C disc now) s (\<lambda>_.
      sread (ok_or (hm_get (cs_contacts (fst s)) peer) UnknownContact) s (\<lambda>c.
      if ds_revocation disc \<noteq> None then (Err Revoked, put_contact peer (c\<lparr>sc_revoked := True\<rparr>) s)
      else
        (let (rb, pin) = pin_refresh C disc now (sc_pin c);
             c = c\<lparr>sc_pin := pin\<rparr> in
         case rb of
           Err e \<Rightarrow> (Err e, put_contact peer c s)
         | Ok b \<Rightarrow>
             (Ok (), put_contact peer (c\<lparr>sc_dest_hpke := hb_hpke_public b,
                sc_home_origin := peer_http_origin (hb_host b) (hb_server_id b) (sb_server_id (cs_bundle (fst s))) (cs_home_base (fst s)),
                sc_last_discovery_unix := now\<rparr>) s))))))"

definition check_discovery_not_revoked :: "crypto \<Rightarrow> Draw \<Rightarrow> key \<Rightarrow> u64 \<Rightarrow> 'w sess \<Rightarrow> unit cresult \<times> 'w sess" where
  "check_discovery_not_revoked C d ident now s =
     (let origin = (case hm_get (cs_contacts (fst s)) ident of
                      Some c \<Rightarrow> if sc_home_origin c = [] then None else Some (sc_home_origin c)
                    | None \<Rightarrow> None) in
      case discovery_at C d (case origin of Some p \<Rightarrow> p | None \<Rightarrow> []) ident s of
        (Ok disc, s) \<Rightarrow> (rbind (ds_verify C disc now) (\<lambda>_. check_not_revoked disc), s)
      | (Err e, s) \<Rightarrow> if e = Denied \<and> origin = None then (Ok (), s) else (Err e, s))"

definition discovery_stale :: "u64 \<Rightarrow> StoredContact \<Rightarrow> bool" where
  "discovery_stale now c \<longleftrightarrow> saturating_sub now (sc_last_discovery_unix c) \<ge> DISCOVERY_REFRESH_SECS"

text \<open>The loop over the contacts' identifiers; \<open>d n\<close> serves the \<open>n\<close>-th of them.\<close>

fun refresh_loop :: "crypto \<Rightarrow> (nat \<Rightarrow> Draw) \<Rightarrow> nat \<Rightarrow> u64 \<Rightarrow> key list \<Rightarrow> key list \<Rightarrow> 'w sess \<Rightarrow> key list \<times> 'w sess" where
  "refresh_loop C d n now [] newly s = (newly, s)"
| "refresh_loop C d n now (i # ids) newly s =
     (if i = own_id C (fst s) then refresh_loop C d (Suc n) now ids newly s
      else
        (case hm_get (cs_contacts (fst s)) i of
           None \<Rightarrow> refresh_loop C d (Suc n) now ids newly s
         | Some c \<Rightarrow>
             if sc_revoked c \<or> \<not> discovery_stale now c then refresh_loop C d (Suc n) now ids newly s
             else
               (case refresh_contact C (d n) i now s of
                  (Err e, s) \<Rightarrow> refresh_loop C d (Suc n) now ids (if e = Revoked then newly @ [i] else newly) s
                | (Ok _, s) \<Rightarrow> refresh_loop C d (Suc n) now ids newly s)))"

definition refresh_idle_discovery :: "crypto \<Rightarrow> (nat \<Rightarrow> Draw) \<Rightarrow> u64 \<Rightarrow> 'w sess \<Rightarrow> key list \<times> 'w sess" where
  "refresh_idle_discovery C d now s = refresh_loop C d 0 now (map fst (cs_contacts (fst s))) [] s"

definition revoked_contact_ids :: "'w HomeSession \<Rightarrow> key list" where
  "revoked_contact_ids cs = map fst (filter (\<lambda>(_, c). sc_revoked c) (cs_contacts cs))"

fun refresh_mls_identities :: "crypto \<Rightarrow> (nat \<Rightarrow> Draw) \<Rightarrow> nat \<Rightarrow> u64 \<Rightarrow> key list \<Rightarrow> 'w sess \<Rightarrow> unit cresult \<times> 'w sess" where
  "refresh_mls_identities C d n now [] s = (Ok (), s)"
| "refresh_mls_identities C d n now (i # ids) s =
     (if i = own_id C (fst s) then refresh_mls_identities C d (Suc n) now ids s
      else
        (case hm_get (cs_contacts (fst s)) i of
           Some c \<Rightarrow>
             if sc_revoked c then (Err Revoked, s)
             else if discovery_stale now c then
               sbind (refresh_contact C (d n) i now s) (\<lambda>_ s. refresh_mls_identities C d (Suc n) now ids s)
             else refresh_mls_identities C d (Suc n) now ids s
         | None \<Rightarrow>
             sbind (check_discovery_not_revoked C (d n) i now s) (\<lambda>_ s. refresh_mls_identities C d (Suc n) now ids s)))"

end
