(* ===== verification/Client_Calls.thy ===== *)
theory Client_Calls
  imports Client_Home
begin

text \<open>
  The rest of the client's home session, \<open>nemo-core/src/home.rs\<close>: sending and covering
  envelopes, fetching and acknowledging the mailbox, tokens and prekeys, and the calls to a
  group's host.
\<close>

section \<open>Envelopes\<close>

datatype ClientEnqueue = SentLocal u64 | SentQueued

definition parse_enqueued :: "HttpResponse \<Rightarrow> ClientEnqueue cresult" where
  "parse_enqueued res =
     rbind (body_map res) (\<lambda>m.
     rbind (lift (get_text m 0)) (\<lambda>t.
     if t = str_bytes ''ok'' then rbind (lift (get_uint m 1)) (\<lambda>seq. Ok (SentLocal seq))
     else if t = str_bytes ''queued'' then Ok SentQueued
     else Err (HomeHttp (rp_status res))))"

definition post_one_envelope :: "crypto \<Rightarrow> Draw \<Rightarrow> OuterEnvelope \<Rightarrow> bool \<Rightarrow> 'w sess \<Rightarrow> ClientEnqueue cresult \<times> 'w sess" where
  "post_one_envelope C d outer cover s =
     sbind (owner_post C d (str_bytes ''/v1/envelopes'') (oe_encode outer) s) (\<lambda>res s.
     let s = (if cover then s else ((fst s)\<lparr>cs_last_real_ms := cd_now_ms d\<rparr>, snd s)) in
     (parse_enqueued res, s))"

text \<open>The batch is taken out of the outbox first; a failure returns with the rest of it gone.\<close>

fun post_batch :: "crypto \<Rightarrow> (nat \<Rightarrow> Draw) \<Rightarrow> nat \<Rightarrow> OuterEnvelope list \<Rightarrow> ClientEnqueue \<Rightarrow> 'w sess \<Rightarrow> ClientEnqueue cresult \<times> 'w sess" where
  "post_batch C d n [] last_result s = (Ok last_result, s)"
| "post_batch C d n (outer # outers) last_result s =
     sbind (post_one_envelope C (d n) outer False s) (\<lambda>r s. post_batch C d (Suc n) outers r s)"

definition flush_private_outbox :: "crypto \<Rightarrow> (nat \<Rightarrow> Draw) \<Rightarrow> 'w sess \<Rightarrow> ClientEnqueue cresult \<times> 'w sess" where
  "flush_private_outbox C d s =
     (let batch = cs_pending_outers (fst s);
          s = ((fst s)\<lparr>cs_pending_outers := []\<rparr>, snd s) in
      if batch = [] then (Ok SentQueued, s) else post_batch C d 0 batch SentQueued s)"

text \<open>
  \<open>post_envelope\<close> with \<open>batch\<close>, \<open>post_envelope_now\<close> without. Between the push and the flush the
  task sleeps, and others of the same session run: \<open>post_push\<close> and \<open>flush_private_outbox\<close> are
  the two halves, and \<open>post_envelope\<close> is what happens when nobody else runs.
\<close>

definition batches :: "bool \<Rightarrow> 'w HomeSession \<Rightarrow> bool" where
  "batches batch cs \<longleftrightarrow> batch \<and> cs_privacy cs \<in> {Private, High}"

definition post_push :: "OuterEnvelope \<Rightarrow> 'w sess \<Rightarrow> 'w sess" where
  "post_push outer s = ((fst s)\<lparr>cs_pending_outers := cs_pending_outers (fst s) @ [outer]\<rparr>, snd s)"

definition post_envelope :: "crypto \<Rightarrow> (nat \<Rightarrow> Draw) \<Rightarrow> bool \<Rightarrow> OuterEnvelope \<Rightarrow> 'w sess \<Rightarrow> ClientEnqueue cresult \<times> 'w sess" where
  "post_envelope C d batch outer s =
     (if batches batch (fst s) then flush_private_outbox C d (post_push outer s)
      else post_one_envelope C (d 0) outer False s)"

text \<open>
  \<open>send_to\<close> is batched with \<open>DoubleRatchet\<close>, \<open>send_to_now\<close> is not batched,
  \<open>send_attachment\<close> is batched with \<open>AttachmentDr\<close>. \<open>d 0\<close> serves the refresh.
\<close>

definition send_to :: "crypto \<Rightarrow> libsignal \<Rightarrow> (nat \<Rightarrow> Draw) \<Rightarrow> key \<times> bytes \<Rightarrow> bool \<Rightarrow> MessageType \<Rightarrow> key \<Rightarrow> TtlBucket \<Rightarrow> bytes \<Rightarrow> u64 \<Rightarrow>
    'w sess \<Rightarrow> ClientEnqueue cresult \<times> 'w sess" where
  "send_to C L d rnd batch ty peer ttl plaintext now s =
     (case hm_get (cs_contacts (fst s)) peer of
        None \<Rightarrow> (Err UnknownContact, s)
      | Some c \<Rightarrow>
          if sc_revoked c then (Err Revoked, s)
          else
            sbind (if discovery_stale now c then refresh_contact C (d 0) peer now s else (Ok (), s)) (\<lambda>_ s.
            sread (ok_or (hm_get (cs_contacts (fst s)) peer) UnknownContact) s (\<lambda>c.
            if sc_revoked c then (Err Revoked, s)
            else
              sbind (at_install (encrypt_to_mailbox C L rnd ty peer (sc_dest_hpke c) (sc_delivery_capability c) ttl plaintext) s) (\<lambda>outer s.
              post_envelope C (\<lambda>n. d (Suc n)) batch outer s))))"

definition pump_cover :: "crypto \<Rightarrow> Draw \<Rightarrow> u64 \<Rightarrow> key \<times> bytes \<Rightarrow> 'w sess \<Rightarrow> nat cresult \<times> 'w sess" where
  "pump_cover C d r rnd s =
     (case cover_interval_ms (cs_privacy (fst s)) r of
        None \<Rightarrow> (Ok 0, s)
      | Some wait \<Rightarrow>
          (let now = cd_now_ms d in
           if now < cs_cover_next_ms (fst s) then (Ok 0, s)
           else
             (let s = ((fst s)\<lparr>cs_cover_next_ms := saturating_add now wait\<rparr>, snd s) in
              if cs_privacy (fst s) = Maximum \<and> saturating_sub now (cs_last_real_ms (fst s)) < MAXIMUM_SLOT_MS then (Ok 0, s)
              else
                (case find (\<lambda>(_, c). \<not> sc_revoked c) (cs_contacts (fst s)) of
                   None \<Rightarrow> (Ok 0, s)
                 | Some (_, c) \<Rightarrow>
                     sread (dummy_outer C rnd (sc_dest_hpke c) (sc_delivery_capability c)) s (\<lambda>dummy.
                     sbind (post_one_envelope C d dummy True s) (\<lambda>_ s. (Ok 1, s)))))))"

section \<open>The mailbox\<close>

record MailboxRow =
  mr_seq :: u64
  mr_inner :: InnerEnvelope

definition parse_row :: "Value \<Rightarrow> MailboxRow cresult" where
  "parse_row item =
     rbind (case item of Map m \<Rightarrow> Ok m | _ \<Rightarrow> Err (Wire (Cbor ''fetch row''))) (\<lambda>m.
     rbind (lift (get_uint m 0)) (\<lambda>seq.
     rbind (lift (rbind (get_bytes m 1) decode_padded)) (\<lambda>inner.
     Ok \<lparr>mr_seq = seq, mr_inner = inner\<rparr>)))"

definition parse_fetch :: "HttpResponse \<Rightarrow> MailboxRow list cresult" where
  "parse_fetch res =
     rbind (check_body res) (\<lambda>b.
     rbind (lift (decode b)) (\<lambda>v.
     case v of Array items \<Rightarrow> rmap parse_row items | _ \<Rightarrow> Err (Wire (Cbor ''fetch must be an array''))))"

definition fetch_mailbox :: "crypto \<Rightarrow> Draw \<Rightarrow> 'w sess \<Rightarrow> MailboxRow list cresult \<times> 'w sess" where
  "fetch_mailbox C d s =
     sread (mailbox_body_auth C d (fst s) (str_bytes ''/v1/mailbox/fetch'') (cs_cursor (fst s)) FETCH_LIMIT) s (\<lambda>auth.
     sbind (home_call C d \<lparr>rq_method = POST, rq_path = str_bytes ''/v1/mailbox/fetch'', rq_headers = [], rq_body = mo_encode auth\<rparr> s) (\<lambda>res s.
     sread (parse_fetch res) s (\<lambda>rows.
       (Ok rows, if rows = [] then s else ((fst s)\<lparr>cs_cursor := mr_seq (last rows)\<rparr>, snd s)))))"

definition client_ack :: "crypto \<Rightarrow> Draw \<Rightarrow> 'w sess \<Rightarrow> unit cresult \<times> 'w sess" where
  "client_ack C d s =
     sread (mailbox_body_auth C d (fst s) (str_bytes ''/v1/mailbox/ack'') (cs_cursor (fst s)) 1) s (\<lambda>auth.
     sbind (home_call C d \<lparr>rq_method = POST, rq_path = str_bytes ''/v1/mailbox/ack'', rq_headers = [], rq_body = mo_encode auth\<rparr> s) (\<lambda>res s.
       (check_empty res, s)))"

text \<open>The rows that open, in order; a row that does not open is skipped.\<close>

fun open_rows :: "crypto \<Rightarrow> libsignal \<Rightarrow> key list \<Rightarrow> MailboxRow list \<Rightarrow> Installation \<Rightarrow> (key \<times> bytes) list \<times> Installation" where
  "open_rows C L peers [] i = ([], i)"
| "open_rows C L peers (row # rows) i =
     (let (r, i) = decrypt_incoming C L (mr_inner row) peers i;
          (opened, i) = open_rows C L peers rows i in
      (case r of Ok x \<Rightarrow> x # opened | Err _ \<Rightarrow> opened, i))"

definition ingest_mailbox :: "crypto \<Rightarrow> libsignal \<Rightarrow> (nat \<Rightarrow> Draw) \<Rightarrow> 'w sess \<Rightarrow> (key \<times> bytes) list cresult \<times> 'w sess" where
  "ingest_mailbox C L d s =
     sbind (fetch_mailbox C (d 0) s) (\<lambda>rows s.
     if rows = [] then (Ok [], s)
     else
       sbind (at_install (\<lambda>i. let (opened, i) = open_rows C L (map fst (cs_contacts (fst s))) rows i in (Ok opened, i)) s) (\<lambda>opened s.
       sbind (client_ack C (d 1) s) (\<lambda>_ s. (Ok opened, s))))"

section \<open>Tokens and prekeys\<close>

definition mint_token :: "crypto \<Rightarrow> Draw \<Rightarrow> bytes \<Rightarrow> 'w sess \<Rightarrow> key cresult \<times> 'w sess" where
  "mint_token C d path s =
     sbind (owner_post C d path [] s) (\<lambda>res s. (rbind (body_map res) (\<lambda>m. map_key m 0), s))"

definition mint_contact :: "crypto \<Rightarrow> Draw \<Rightarrow> 'w sess \<Rightarrow> key cresult \<times> 'w sess" where
  "mint_contact C d s = mint_token C d (str_bytes ''/v1/tokens/contact'') s"

definition mint_share :: "crypto \<Rightarrow> Draw \<Rightarrow> 'w sess \<Rightarrow> key cresult \<times> 'w sess" where
  "mint_share C d s = mint_token C d (str_bytes ''/v1/tokens/share'') s"

definition mint_share_card :: "crypto \<Rightarrow> Draw \<Rightarrow> u64 \<Rightarrow> 'w sess \<Rightarrow> ContactCard cresult \<times> 'w sess" where
  "mint_share_card C d now s =
     sbind (mint_share C d s) (\<lambda>share s.
       (card_with_share C (cs_install (fst s)) (own_hpke (fst s)) (sb_host (cs_bundle (fst s))) (saturating_add now CARD_TTL_SECS) share, s))"

text \<open>\<open>e\<close> is the entropy of the prekey.\<close>

definition client_publish_prekey :: "crypto \<Rightarrow> libsignal \<Rightarrow> Draw \<Rightarrow> bytes \<times> bytes \<Rightarrow> 'w sess \<Rightarrow> unit cresult \<times> 'w sess" where
  "client_publish_prekey C L d e s =
     sbind (at_install (mint_prekey C L e) s) (\<lambda>prekey s.
     sbind (owner_post C d (str_bytes ''/v1/prekeys'') (sp_encode prekey) s) (\<lambda>res s. (check_empty res, s)))"

text \<open>
  The loops that publish until the stock is \<open>target\<close>; round \<open>n\<close> uses \<open>d n\<close> and \<open>e n\<close>, and
  \<open>None\<close> is a loop that never ends. \<open>rot\<close> and \<open>d 0\<close> serve the signed prekey.
\<close>

partial_function (option) publish_loop :: "crypto \<Rightarrow> libsignal \<Rightarrow> (nat \<Rightarrow> Draw) \<Rightarrow> (nat \<Rightarrow> bytes \<times> bytes) \<Rightarrow> nat \<Rightarrow> nat \<Rightarrow> 'w sess \<Rightarrow>
    (nat cresult \<times> 'w sess) option" where
  "publish_loop C L d e target n s =
     (if unused_one_time_prekeys (cs_install (fst s)) < target then
        (case client_publish_prekey C L (d n) (e n) s of
           (Err x, s) \<Rightarrow> Some (Err x, s)
         | (Ok _, s) \<Rightarrow> publish_loop C L d e target (Suc n) s)
      else Some (Ok n, s))"

definition restock_publish_upto :: "crypto \<Rightarrow> libsignal \<Rightarrow> (nat \<Rightarrow> Draw) \<Rightarrow> (nat \<Rightarrow> bytes \<times> bytes) \<Rightarrow> bytes \<Rightarrow> nat \<Rightarrow> 'w sess \<Rightarrow>
    (nat cresult \<times> 'w sess) option" where
  "restock_publish_upto C L d e rot target s =
     (case at_install (maybe_rotate_signed_prekey L rot (cd_now_ms (d 0)) (cd_now_unix (d 0))) s of
        (Err x, s) \<Rightarrow> Some (Err x, s)
      | (Ok _, s) \<Rightarrow> publish_loop C L d e target 0 s)"

definition restock_publish :: "crypto \<Rightarrow> libsignal \<Rightarrow> (nat \<Rightarrow> Draw) \<Rightarrow> (nat \<Rightarrow> bytes \<times> bytes) \<Rightarrow> bytes \<Rightarrow> 'w sess \<Rightarrow>
    (nat cresult \<times> 'w sess) option" where
  "restock_publish C L d e rot s = restock_publish_upto C L d e rot PREKEY_RESTOCK_BELOW s"

record TurnConfig =
  tc_url :: bytes
  tc_username :: bytes
  tc_credential :: bytes

definition issue_turn :: "crypto \<Rightarrow> Draw \<Rightarrow> 'w sess \<Rightarrow> TurnConfig cresult \<times> 'w sess" where
  "issue_turn C d s =
     sbind (owner_post C d (str_bytes ''/v1/turn'') [] s) (\<lambda>res s.
       (rbind (body_map res) (\<lambda>m.
        rbind (lift (get_text m 0)) (\<lambda>url.
        rbind (lift (get_text m 1)) (\<lambda>user.
        rbind (lift (get_text m 2)) (\<lambda>cred.
          Ok \<lparr>tc_url = url, tc_username = user, tc_credential = cred\<rparr>)))), s))"

section \<open>Groups\<close>

definition remember_group :: "HostGroup \<Rightarrow> 'w HomeSession \<Rightarrow> 'w HomeSession" where
  "remember_group g cs = cs\<lparr>cs_groups := cs_groups cs @ [g]\<rparr>"

definition group_origin :: "'w HomeSession \<Rightarrow> key \<Rightarrow> bytes" where
  "group_origin cs gid = (case find (\<lambda>g. hg_group_id g = gid) (cs_groups cs) of Some g \<Rightarrow> hg_host_base g | None \<Rightarrow> [])"

definition call_group :: "crypto \<Rightarrow> Draw \<Rightarrow> key \<Rightarrow> HttpRequest \<Rightarrow> 'w sess \<Rightarrow> HttpResponse cresult \<times> 'w sess" where
  "call_group C d gid req s =
     (case tr_redirect (cs_transport (fst s)) (group_origin (fst s) gid) of
        Some alt \<Rightarrow> at_world (alt req) s
      | None \<Rightarrow> home_call C d req s)"

definition group_path :: "key \<Rightarrow> string \<Rightarrow> bytes" where
  "group_path gid rest = str_bytes ''/v1/groups/'' @ to_hex gid @ str_bytes rest"

definition cred_pairs :: "HostCred \<Rightarrow> (u64 \<times> Value) list" where
  "cred_pairs c = [(0, Bytes (hc_credential_id c)), (1, Bytes (hc_credential_secret c))]"

definition group_post :: "crypto \<Rightarrow> Draw \<Rightarrow> key \<Rightarrow> string \<Rightarrow> (u64 \<times> Value) list \<Rightarrow> 'w sess \<Rightarrow> HttpResponse cresult \<times> 'w sess" where
  "group_post C d gid rest pairs s =
     call_group C d gid \<lparr>rq_method = POST, rq_path = group_path gid rest, rq_headers = [], rq_body = encode (Map pairs)\<rparr> s"

definition client_create_group :: "crypto \<Rightarrow> Draw \<Rightarrow> key \<Rightarrow> key \<Rightarrow> 'w sess \<Rightarrow> HostGroup cresult \<times> 'w sess" where
  "client_create_group C d spk cap s =
     sbind (owner_post C d (str_bytes ''/v1/groups'')
              (encode (Map [(0, Bytes spk), (1, Bytes cap), (2, Bytes (own_hpke (fst s)))])) s) (\<lambda>res s.
       (rbind (body_map res) (\<lambda>m.
        rbind (map_key m 0) (\<lambda>gid.
        rbind (map_key m 1) (\<lambda>cid.
        rbind (map_key m 2) (\<lambda>secret.
          Ok \<lparr>hg_group_id = gid, hg_cred = \<lparr>hc_credential_id = cid, hc_credential_secret = secret\<rparr>,
               hg_host_base = cs_home_base (fst s)\<rparr>)))), s))"

definition client_group_append :: "crypto \<Rightarrow> Draw \<Rightarrow> key \<Rightarrow> HostCred \<Rightarrow> MessageType \<Rightarrow> bytes \<Rightarrow> 'w sess \<Rightarrow> u64 cresult \<times> 'w sess" where
  "client_group_append C d gid cred ty body s =
     sbind (group_post C d gid ''/append'' (cred_pairs cred @ [(2, Uint (ucast (type_u8 ty))), (3, Bytes body)]) s) (\<lambda>res s.
       (rbind (body_map res) (\<lambda>m. lift (get_uint m 0)), s))"

definition client_store_invite :: "crypto \<Rightarrow> Draw \<Rightarrow> key \<Rightarrow> HostCred \<Rightarrow> GroupInvite \<Rightarrow> 'w sess \<Rightarrow> unit cresult \<times> 'w sess" where
  "client_store_invite C d gid cred invite s =
     sbind (group_post C d gid ''/invites'' (cred_pairs cred @ [(2, Bytes (gi_encode invite))]) s) (\<lambda>res s. (check_empty res, s))"

definition accept_invite :: "crypto \<Rightarrow> Draw \<Rightarrow> key \<Rightarrow> key \<Rightarrow> 'w sess \<Rightarrow> HostAccept cresult \<times> 'w sess" where
  "accept_invite C d gid nonce s =
     sbind (home_call C d \<lparr>rq_method = POST, rq_path = group_path gid ''/accept'', rq_headers = [],
              rq_body = encode (Map [(0, Bytes nonce)])\<rparr> s) (\<lambda>res s.
       (rbind (body_map res) (\<lambda>m.
        rbind (lift (get_fixed_opt KEY_LEN m 3)) (\<lambda>binding.
        rbind (lift (get_fixed_opt KEY_LEN m 4)) (\<lambda>salt.
        rbind (map_key m 0) (\<lambda>pid.
        rbind (map_key m 1) (\<lambda>cid.
        rbind (map_key m 2) (\<lambda>secret.
          Ok \<lparr>ha_pending_id = pid, ha_cred = \<lparr>hc_credential_id = cid, hc_credential_secret = secret\<rparr>,
               ha_invitee_binding = binding, ha_salt = salt\<rparr>)))))), s))"

record ClientLookup =
  cl_credential_id :: key
  cl_invitee_binding :: "key option"
  cl_salt :: "key option"

definition client_lookup_pending :: "crypto \<Rightarrow> Draw \<Rightarrow> key \<Rightarrow> HostCred \<Rightarrow> key \<Rightarrow> 'w sess \<Rightarrow> ClientLookup cresult \<times> 'w sess" where
  "client_lookup_pending C d gid cred pid s =
     sbind (group_post C d gid ''/pending-lookup'' (cred_pairs cred @ [(2, Bytes pid)]) s) (\<lambda>res s.
       (rbind (body_map res) (\<lambda>m.
        rbind (map_key m 0) (\<lambda>cid.
        rbind (lift (get_fixed_opt KEY_LEN m 1)) (\<lambda>binding.
        rbind (lift (get_fixed_opt KEY_LEN m 2)) (\<lambda>salt.
          Ok \<lparr>cl_credential_id = cid, cl_invitee_binding = binding, cl_salt = salt\<rparr>)))), s))"

definition client_admit :: "crypto \<Rightarrow> Draw \<Rightarrow> key \<Rightarrow> HostCred \<Rightarrow> GroupAdmit \<Rightarrow> key \<Rightarrow> key \<Rightarrow> key \<Rightarrow> 'w sess \<Rightarrow> key cresult \<times> 'w sess" where
  "client_admit C d gid admitter adm jpk jcap jhpke s =
     sbind (group_post C d gid ''/admit''
              (cred_pairs admitter @ [(2, Bytes (ga_encode adm)), (3, Bytes jpk), (4, Bytes jcap), (5, Bytes jhpke)]) s) (\<lambda>res s.
       (rbind (body_map res) (\<lambda>m. map_key m 0), s))"

text \<open>\<open>post_fanout\<close> and \<open>post_binding\<close> go out unsigned on the given transport.\<close>

definition post_fanout :: "'w call \<Rightarrow> key \<Rightarrow> HostCred \<Rightarrow> key \<Rightarrow> key \<Rightarrow> 'w \<Rightarrow> unit cresult \<times> 'w" where
  "post_fanout call gid cred cap hpke w =
     sbind (call \<lparr>rq_method = POST, rq_path = group_path gid ''/fanout'', rq_headers = [],
              rq_body = encode (Map (cred_pairs cred @ [(2, Bytes cap), (3, Bytes hpke)]))\<rparr> w) (\<lambda>res w. (check_empty res, w))"

definition post_binding :: "'w call \<Rightarrow> ContactCard \<Rightarrow> 'w \<Rightarrow> unit cresult \<times> 'w" where
  "post_binding call cc w =
     sread (lift (cc_encode cc)) w (\<lambda>body.
     sbind (call \<lparr>rq_method = POST, rq_path = str_bytes ''/v1/binding'', rq_headers = [], rq_body = body\<rparr> w) (\<lambda>res w. (check_empty res, w)))"

definition client_refresh_fanout :: "key \<Rightarrow> HostCred \<Rightarrow> key \<Rightarrow> key \<Rightarrow> 'w sess \<Rightarrow> unit cresult \<times> 'w sess" where
  "client_refresh_fanout gid cred cap hpke s =
     (case tr_redirect (cs_transport (fst s)) (group_origin (fst s) gid) of
        Some alt \<Rightarrow> at_world (post_fanout alt gid cred cap hpke) s
      | None \<Rightarrow> at_world (post_fanout (tr_call (cs_transport (fst s))) gid cred cap hpke) s)"

definition file_request :: "bytes \<Rightarrow> key \<Rightarrow> HostCred \<Rightarrow> key \<Rightarrow> bytes \<Rightarrow> HttpRequest" where
  "file_request method gid cred tok body =
     \<lparr>rq_method = method, rq_path = group_path gid ''/files/'' @ to_hex tok,
      rq_headers = [(str_bytes ''nemo-cred-id'', to_hex (hc_credential_id cred)),
                    (str_bytes ''nemo-cred-secret'', to_hex (hc_credential_secret cred))], rq_body = body\<rparr>"

definition client_upload_file :: "crypto \<Rightarrow> Draw \<Rightarrow> key \<Rightarrow> HostCred \<Rightarrow> key \<Rightarrow> bytes \<Rightarrow> 'w sess \<Rightarrow> unit cresult \<times> 'w sess" where
  "client_upload_file C d gid cred tok body s =
     sbind (call_group C d gid (file_request POST gid cred tok body) s) (\<lambda>res s. (check_empty res, s))"

definition client_fetch_file :: "crypto \<Rightarrow> Draw \<Rightarrow> key \<Rightarrow> HostCred \<Rightarrow> key \<Rightarrow> 'w sess \<Rightarrow> bytes cresult \<times> 'w sess" where
  "client_fetch_file C d gid cred tok s =
     sbind (call_group C d gid (file_request GET gid cred tok []) s) (\<lambda>res s. (check_body res, s))"

section \<open>Moving home\<close>

fun repoint_groups :: "crypto \<Rightarrow> (nat \<Rightarrow> Draw) \<Rightarrow> nat \<Rightarrow> 'w call \<Rightarrow> HostGroup list \<Rightarrow> 'w sess \<Rightarrow> 'w sess" where
  "repoint_groups C d n old [] s = s"
| "repoint_groups C d n old (g # gs) s =
     (case mint_contact C (d n) s of
        (Ok cap, s) \<Rightarrow>
          (let (_, s) = at_world (post_fanout old (hg_group_id g) (hg_cred g) cap (own_hpke (fst s))) s in
           repoint_groups C d (Suc n) old gs s)
      | (Err _, s) \<Rightarrow> repoint_groups C d (Suc n) old gs s)"

text \<open>The part of \<open>rehome\<close> before the restock: it returns the card and the old transport.\<close>

definition rehome_switch :: "crypto \<Rightarrow> Draw \<Rightarrow> key \<Rightarrow> 'w transport \<Rightarrow> bytes \<Rightarrow> u64 \<Rightarrow> 'w sess \<Rightarrow> (ContactCard \<times> 'w call) cresult \<times> 'w sess" where
  "rehome_switch C d share tr base now s =
     sbind (at_world (fetch_bundle C d (tr_call tr)) s) (\<lambda>sb s.
     if sb_server_id sb = sb_server_id (cs_bundle (fst s)) then (Err AlreadyRegistered, s)
     else
       sbind (at_install (mint_card C share (sb_hpke_public sb) (sb_host sb) (saturating_add now CARD_TTL_SECS)) s) (\<lambda>cc s.
       sread (lift (cc_encode cc)) s (\<lambda>body.
       sbind (at_world (tr_call tr \<lparr>rq_method = POST, rq_path = str_bytes ''/v1/register'', rq_headers = [], rq_body = body\<rparr>) s) (\<lambda>res s.
       sread (check_empty res) s (\<lambda>_.
       let cs = fst s;
           groups = map (\<lambda>g. if hg_host_base g = [] then g\<lparr>hg_host_base := cs_home_base cs\<rparr> else g) (cs_groups cs) in
       (Ok (cc, tr_call (cs_transport cs)),
        (set_home_base base (cs\<lparr>cs_groups := groups, cs_transport := tr, cs_bundle := sb, cs_cursor := 0\<rparr>), snd s)))))))"

text \<open>\<open>d 0\<close> serves the new bundle, the others the groups; \<open>dr\<close>, \<open>e\<close> and \<open>rot\<close> the restock.\<close>

definition rehome :: "crypto \<Rightarrow> libsignal \<Rightarrow> (nat \<Rightarrow> Draw) \<Rightarrow> (nat \<Rightarrow> Draw) \<Rightarrow> (nat \<Rightarrow> bytes \<times> bytes) \<Rightarrow> bytes \<Rightarrow> key \<Rightarrow> 'w transport \<Rightarrow> bytes \<Rightarrow> u64 \<Rightarrow>
    'w sess \<Rightarrow> (ContactCard cresult \<times> 'w sess) option" where
  "rehome C L d dr e rot share tr base now s =
     (case rehome_switch C (d 0) share tr base now s of
        (Err x, s) \<Rightarrow> Some (Err x, s)
      | (Ok (cc, old), s) \<Rightarrow>
          map_option (\<lambda>m. sbind m (\<lambda>_ s.
              let s = repoint_groups C (\<lambda>n. d (Suc n)) 0 old (cs_groups (fst s)) s;
                  (_, s) = at_world (post_binding old cc) s in
              (Ok cc, s)))
            (restock_publish C L dr e rot s))"

end
