(* ===== verification/Identity_Props.thy ===== *)
theory Identity_Props
  imports Client_Identity
begin

text \<open>
  Properties of an installation: its snapshot, its stock of prekeys, first contact between two
  installations, and the self-introduction.
\<close>

section \<open>Lemmas\<close>

subsection \<open>Prekey bundles\<close>

text \<open>What libsignal's parsers accept of what its generators make.\<close>

definition libsignal_readable :: "libsignal \<Rightarrow> bool" where
  "libsignal_readable L \<longleftrightarrow>
     (\<forall>e i. ls_public_key L (snd (ls_new_pre_key L e i)) \<and> length (snd (ls_new_pre_key L e i)) < 2 ^ 64) \<and>
     (\<forall>r i k s. ls_signed_view L r = Ok (i, k, s) \<longrightarrow> ls_public_key L k \<and> length k < 2 ^ 64 \<and> length s < 2 ^ 64) \<and>
     (\<forall>r i k s. ls_kyber_view L r = Ok (i, k, s) \<longrightarrow> ls_kem_key L k \<and> length k < 2 ^ 64 \<and> length s < 2 ^ 64) \<and>
     (\<forall>p. ls_identity_key L (ls_pair_public L p) \<and> length (ls_pair_public L p) < 2 ^ 64)"

definition pb_wf :: "libsignal \<Rightarrow> PreKeyBundle \<Rightarrow> bool" where
  "pb_wf L b \<longleftrightarrow> ls_public_key L (pb_signed_public b) \<and> length (pb_signed_public b) < 2 ^ 64 \<and>
     length (pb_signed_signature b) < 2 ^ 64 \<and> ls_kem_key L (pb_kyber_public b) \<and> length (pb_kyber_public b) < 2 ^ 64 \<and>
     length (pb_kyber_signature b) < 2 ^ 64 \<and> ls_identity_key L (pb_identity_key b) \<and> length (pb_identity_key b) < 2 ^ 64 \<and>
     (case pb_otpk b of Some (_, k) \<Rightarrow> ls_public_key L k \<and> length k < 2 ^ 64 | None \<Rightarrow> False)"

lemma pb_roundtrip:
  assumes "pb_wf L b"
  shows "\<exists>bs. pb_encode b = Ok bs \<and> pb_decode L bs = Ok b"
proof -
  obtain oid otpk where o: "pb_otpk b = Some (oid, otpk)"
    using assms by (auto simp: pb_wf_def split: option.splits)
  then show ?thesis using assms
    by (simp add: pb_encode_def pb_decode_def pb_wf_def read_with_def)
qed

subsection \<open>Minting\<close>

text \<open>What a round of \<open>mint_prekey\<close> does to the one-time keys, also when it fails.\<close>

lemma mint_prekey_keeps:
  assumes "mint_prekey C L e i = (r, i')"
  shows "pks_keys (ss_pre_key (in_store i')) =
      hm_insert (in_next_pre_key_id i) (fst (ls_new_pre_key L (fst e) (in_next_pre_key_id i))) (pks_keys (ss_pre_key (in_store i)))"
    and "in_next_pre_key_id i' = saturating_succ (in_next_pre_key_id i)" "in_identity i' = in_identity i"
  using assms
  by (auto simp: mint_prekey_def Let_def sread_def at_store_def save_pre_key_def split: prod.splits sum.splits)

lemma mint_prekey_Ok:
  assumes "mint_prekey C L e i = (Ok p, i')" "libsignal_readable L"
  obtains b bs where "pb_encode b = Ok bs" "pb_decode L bs = Ok b" "sp_sign C (in_identity i) (ucast (in_next_pre_key_id i)) bs = Ok p"
    "pb_identity_key b = session_identity_key L i"
    "pb_otpk b = Some (in_next_pre_key_id i, snd (ls_new_pre_key L (fst e) (in_next_pre_key_id i)))"
proof -
  obtain kyber signed sid spk ssig kid kpk ksig bs where v: "ls_signed_view L signed = Ok (sid, spk, ssig)"
      "ls_kyber_view L kyber = Ok (kid, kpk, ksig)"
    and enc: "pb_encode \<lparr>pb_registration_id = idk_registration (ss_identity (in_store i)), pb_signed_id = sid, pb_signed_public = spk,
        pb_signed_signature = ssig, pb_otpk = Some (in_next_pre_key_id i, snd (ls_new_pre_key L (fst e) (in_next_pre_key_id i))),
        pb_kyber_id = kid, pb_kyber_public = kpk, pb_kyber_signature = ksig,
        pb_identity_key = ls_pair_public L (idk_pair (ss_identity (in_store i)))\<rparr> = Ok bs" (is "pb_encode ?b = _")
    and sp: "sp_sign C (in_identity i) (ucast (in_next_pre_key_id i)) bs = Ok p"
    using assms(1) by (auto simp: mint_prekey_def Let_def sread_eq_Ok at_store_def save_pre_key_def save_kyber_pre_key_def split: prod.splits)
  have "pb_wf L ?b" using assms(2) v unfolding libsignal_readable_def pb_wf_def by fastforce
  then show thesis using that [of ?b bs] enc sp pb_roundtrip [of L ?b] by (auto simp: session_identity_key_def)
qed

text \<open>The one-time keys carry numbers below the next one.\<close>

definition stock_wf :: "Installation \<Rightarrow> bool" where
  "stock_wf i \<longleftrightarrow> hm_wf (pks_keys (ss_pre_key (in_store i))) \<and> (\<forall>k \<in> set (all_pre_key_ids (in_store i)). k < in_next_pre_key_id i)"

lemma unat_saturating_succ: "unat n + 1 < 2 ^ 32 \<Longrightarrow> unat (saturating_succ n) = unat n + 1 \<and> n < saturating_succ n"
proof -
  assume a: "unat n + 1 < 2 ^ 32"
  then have "n \<noteq> - 1" by (auto simp: unsigned_minus_1_eq_mask mask_eq_exp_minus_1)
  moreover have "unat (n + 1) = unat n + 1" using a by (simp add: unat_word_ariths)
  ultimately show ?thesis by (simp add: saturating_succ_def word_less_nat_alt)
qed

lemma mint_stock:
  assumes "mint_prekey C L e i = (r, i')" "stock_wf i" "unat (in_next_pre_key_id i) + 1 < 2 ^ 32"
  shows "stock_wf i'" "unused_one_time_prekeys i' = unused_one_time_prekeys i + 1"
    "unat (in_next_pre_key_id i') = unat (in_next_pre_key_id i) + 1"
proof -
  note m = mint_prekey_keeps [OF assms(1)]
  have n: "unat (in_next_pre_key_id i') = unat (in_next_pre_key_id i) + 1" "in_next_pre_key_id i < in_next_pre_key_id i'"
    using unat_saturating_succ [OF assms(3)] m(2) by auto
  have "in_next_pre_key_id i \<notin> fst ` set (pks_keys (ss_pre_key (in_store i)))"
    using assms(2) by (auto simp: stock_wf_def all_pre_key_ids_def)
  then have k: "pks_keys (ss_pre_key (in_store i')) =
      pks_keys (ss_pre_key (in_store i)) @ [(in_next_pre_key_id i, fst (ls_new_pre_key L (fst e) (in_next_pre_key_id i)))]"
    using m(1) by (simp add: hm_insert_fresh)
  show "unused_one_time_prekeys i' = unused_one_time_prekeys i + 1"
    by (simp add: unused_one_time_prekeys_def all_pre_key_ids_def k)
  have "hm_wf (pks_keys (ss_pre_key (in_store i')))" using assms(2) m(1) by (simp add: stock_wf_def hm.wf_ins)
  then show "stock_wf i'" using assms(2) n(2) by (auto simp: stock_wf_def all_pre_key_ids_def k intro: order.strict_trans)
  show "unat (in_next_pre_key_id i') = unat (in_next_pre_key_id i) + 1" by (rule n)
qed

lemma mint_verifies:
  assumes "ed25519_correct C" "mint_prekey C L e i = (Ok p, i')"
  shows "sp_verify C p (in_public_key C i) = Ok () \<and> sp_prekey_id p = ucast (in_next_pre_key_id i)"
proof -
  obtain bs where "sp_sign C (in_identity i) (ucast (in_next_pre_key_id i)) bs = Ok p"
    using assms(2) by (auto simp: mint_prekey_def Let_def sread_eq_Ok at_store_def split: prod.splits)
  then show ?thesis using verify_sign_ok [OF assms(1)]
    by (auto simp: sp_sign_def sp_verify_def sp_unsigned_cbor_def sp_fields_def in_public_key_def rbind_eq_Ok Let_def)
qed

text \<open>What the loop is to return: \<open>new\<close> prekeys that bring the stock of \<open>i\<close> to the target in \<open>i'\<close>.\<close>

definition restocked :: "crypto \<Rightarrow> Installation \<Rightarrow> SignedPrekey list \<Rightarrow> Installation \<Rightarrow> bool" where
  "restocked C i new i' \<longleftrightarrow>
     unused_one_time_prekeys i' = max PREKEY_STOCK_TARGET (unused_one_time_prekeys i) \<and>
     length new = PREKEY_STOCK_TARGET - unused_one_time_prekeys i \<and>
     (\<forall>p \<in> set new. sp_verify C p (in_public_key C i) = Ok ()) \<and>
     map sp_prekey_id new = map (\<lambda>j. ucast (in_next_pre_key_id i) + of_nat j) [0 ..< length new]"

lemma restocked_step:
  assumes "ed25519_correct C" "mint_prekey C L e i = (Ok p, i1)" "stock_wf i" "unat (in_next_pre_key_id i) + 1 < 2 ^ 32"
    and "unused_one_time_prekeys i < PREKEY_STOCK_TARGET" "restocked C i1 new i'"
  shows "restocked C i (p # new) i'"
proof -
  note st = mint_stock [OF assms(2,3,4)]
  have i1: "in_public_key C i1 = in_public_key C i"
    using mint_prekey_keeps(3) [OF assms(2)] by (simp add: in_public_key_def)
  have succ: "(ucast (in_next_pre_key_id i1) :: u64) = ucast (in_next_pre_key_id i) + 1"
    using st(3) assms(4) by (simp add: word_unat_eq_iff unsigned_ucast_eq unat_word_ariths take_bit_nat_eq_self)
  have "map (\<lambda>j. ucast (in_next_pre_key_id i) + of_nat j) [0 ..< Suc m] =
      (ucast (in_next_pre_key_id i) :: u64) # map (\<lambda>j. ucast (in_next_pre_key_id i1) + of_nat j) [0 ..< m]" for m
    unfolding succ by (simp add: upt_conv_Cons map_Suc_upt [symmetric] algebra_simps del: upt_Suc)
  note shift = this [of "length new"]
  show ?thesis using mint_verifies [OF assms(1,2)] assms(5,6) st(2) i1 shift unfolding restocked_def by auto
qed

lemma restock_loop_ends:
  assumes "stock_wf i" "unat (in_next_pre_key_id i) + (PREKEY_STOCK_TARGET - unused_one_time_prekeys i) < 2 ^ 32" "ed25519_correct C"
  shows "\<exists>r i'. restock_loop C L e n out i = Some (r, i') \<and> stock_wf i' \<and>
    (\<forall>ps. r = Ok ps \<longrightarrow> (\<exists>new. ps = out @ new \<and> restocked C i new i'))"
  using assms
proof (induction "PREKEY_STOCK_TARGET - unused_one_time_prekeys i" arbitrary: n out i)
  case 0
  then show ?case by (simp add: restock_loop.simps restocked_def)
next
  case (Suc k)
  obtain r1 i1 where m: "mint_prekey C L (e n) i = (r1, i1)" by fastforce
  have nx: "unat (in_next_pre_key_id i) + 1 < 2 ^ 32" using Suc.hyps(2) Suc.prems(2) by linarith
  have lt: "unused_one_time_prekeys i < PREKEY_STOCK_TARGET" using Suc.hyps(2) by simp
  note st = mint_stock [OF m Suc.prems(1) nx]
  show ?case
  proof (cases r1)
    case (Inl x)
    then show ?thesis using lt st m by (simp add: restock_loop.simps [of C L e n])
  next
    case (Inr p)
    have "k = PREKEY_STOCK_TARGET - unused_one_time_prekeys i1" using Suc.hyps(2) st(2) by simp
    moreover have "unat (in_next_pre_key_id i1) + (PREKEY_STOCK_TARGET - unused_one_time_prekeys i1) < 2 ^ 32"
      using st(2,3) Suc.hyps(2) Suc.prems(2) by linarith
    ultimately obtain r i' where IH: "restock_loop C L e (Suc n) (out @ [p]) i1 = Some (r, i')" "stock_wf i'"
      "\<forall>ps. r = Ok ps \<longrightarrow> (\<exists>new. ps = (out @ [p]) @ new \<and> restocked C i1 new i')"
      using Suc.hyps(1) [OF _ st(1), of "Suc n" "out @ [p]"] Suc.prems(3) by blast
    have "restock_loop C L e n out i = Some (r, i')"
      using lt m Inr IH(1) by (simp add: restock_loop.simps [of C L e n])
    moreover have "\<exists>new. ps = out @ new \<and> restocked C i new i'" if "r = Ok ps" for ps
      using IH(3) that restocked_step [OF Suc.prems(3) m [unfolded Inr] Suc.prems(1) nx lt] by fastforce
    ultimately show ?thesis using IH(2) by blast
  qed
qed

subsection \<open>Snapshots\<close>

definition in_wf :: "crypto \<Rightarrow> libsignal \<Rightarrow> Installation \<Rightarrow> bool" where
  "in_wf C L i \<longleftrightarrow> key_ok (in_identity i) \<and> key_ok (in_revocation_public i) \<and> in_address i = address_for (in_identity_id C i) \<and>
     ss_wf L (in_store i) \<and> length (ss_encode (in_store i)) < 2 ^ 64"

subsection \<open>Used base keys\<close>

definition was_used :: "u32 \<Rightarrow> u32 \<Rightarrow> bytes \<Rightarrow> KyberPreKeys \<Rightarrow> bool" where
  "was_used kid sid b s \<longleftrightarrow> (\<exists>l. hm_get (kks_used s) (kid, sid) = Some l \<and> b \<in> set l)"

lemma mark_used:
  "mark_kyber_pre_key_used kid sid b s = (r, s') \<Longrightarrow>
   (r = Ok () \<longleftrightarrow> \<not> was_used kid sid b s) \<and> was_used kid sid b s' \<and> (was_used k' s'' b' s \<longrightarrow> was_used k' s'' b' s')"
  by (auto simp: mark_kyber_pre_key_used_def was_used_def Let_def hm_get_insert_any split: if_splits option.splits)

lemma used_after_marks:
  "was_used kid sid b s \<Longrightarrow> was_used kid sid b (fold (\<lambda>(k, i, x) s. snd (mark_kyber_pre_key_used k i x s)) ms s)"
proof (induction ms arbitrary: s)
  case (Cons m ms)
  obtain k i x where m: "m = (k, i, x)" by (cases m) auto
  have "was_used kid sid b (snd (mark_kyber_pre_key_used k i x s))"
    using mark_used [of k i x s _ _ kid sid b] Cons.prems by (cases "mark_kyber_pre_key_used k i x s") auto
  then show ?case using Cons.IH by (simp add: m)
qed simp

subsection \<open>Signed introductions\<close>

lemma signed_intro:
  assumes "ed25519_correct C" "lib_ed_point C (in_public_key C alice)"
    and "sign_capability_intro C L alice recipient cap hpke = Ok intro"
  shows "ci_verify C intro cap recipient = Ok ()" "ci_session_key intro = session_identity_key L alice"
    "ci_identity_public intro = in_public_key C alice" "ci_identity_id intro = in_identity_id C alice"
proof -
  show i: "ci_session_key intro = session_identity_key L alice"
      "ci_identity_public intro = in_public_key C alice" "ci_identity_id intro = in_identity_id C alice"
    using assms(3) by (auto simp: sign_capability_intro_def rbind_eq_Ok Let_def)
  have "verify C (in_public_key C alice) CAPABILITY_INTRO (ci_signed_payload intro cap) (ci_signature intro) = Ok ()"
    "ci_recipient intro = recipient"
    using assms(3) verify_sign_ok [OF assms(1)]
    by (auto simp: sign_capability_intro_def rbind_eq_Ok Let_def ci_signed_payload_def in_public_key_def)
  then show "ci_verify C intro cap recipient = Ok ()" using i assms(2) by (simp add: ci_verify_def in_identity_id_def)
qed

section \<open>Properties\<close>

text \<open>
  C24. Restocking ends: when the stored one-time keys have numbers below the next one and the
  numbers left suffice, the loop returns. If it returns prekeys, the stock is at the target,
  the prekeys carry consecutive numbers and each verifies under the identity key.
\<close>

theorem restock_terminates:
  assumes "stock_wf i" "unat (in_next_pre_key_id i) + PREKEY_STOCK_TARGET < 2 ^ 32" "ed25519_correct C"
  shows "\<exists>r i'. restock C L e i = Some (r, i') \<and> stock_wf i' \<and> (\<forall>ps. r = Ok ps \<longrightarrow> restocked C i ps i')"
  using restock_loop_ends [OF assms(1) _ assms(3), of L e 0 "[]"] assms(2) by (simp add: restock_def)

text \<open>
  The snapshot of an installation is read back as the same installation, its stores in the
  order of their keys; only the OpenMLS storage, which is saved apart, is empty.
\<close>

theorem installation_roundtrip:
  assumes "in_wf C L i"
  shows "decode_snapshot C L (encode_snapshot i) = Ok (i\<lparr>in_store := ss_norm (in_store i), in_mls := []\<rparr>)"
proof -
  have "ss_decode L (ss_encode (in_store i)) = Ok (ss_norm (in_store i))"
    using assms by (simp add: in_wf_def ss_roundtrip)
  then show ?thesis using assms
    by (simp add: decode_snapshot_def encode_snapshot_def vault_map_def snapshot_key_def in_wf_def key_ok_def KEY_LEN_def
        in_identity_id_def in_public_key_def)
qed

text \<open>
  C23. A base key of a prekey message is accepted at most once per pair of prekeys: after it was
  marked, any further messages later, and also after the stores were saved and loaded again, it
  is refused.
\<close>

theorem base_key_single_use:
  assumes "mark_kyber_pre_key_used kid sid b (ss_kyber st) = (Ok (), k)"
    and "k' = fold (\<lambda>(k, i, x) s. snd (mark_kyber_pre_key_used k i x s)) ms k"
    and "ss_wf L (st\<lparr>ss_kyber := k'\<rparr>)"
  shows "\<exists>st'. ss_decode L (ss_encode (st\<lparr>ss_kyber := k'\<rparr>)) = Ok st' \<and>
    fst (mark_kyber_pre_key_used kid sid b k') \<noteq> Ok () \<and> fst (mark_kyber_pre_key_used kid sid b (ss_kyber st')) \<noteq> Ok ()"
proof -
  have u: "was_used kid sid b k'"
    unfolding assms(2) by (rule used_after_marks) (use mark_used [OF assms(1)] in blast)
  moreover have "hm_wf (kks_used k')" using assms(3) by (simp add: ss_wf_def used_ok_def)
  ultimately have "was_used kid sid b (ss_kyber (ss_norm (st\<lparr>ss_kyber := k'\<rparr>)))"
    by (simp add: was_used_def ss_norm_def hm_sorted_get)
  moreover have "fst (mark_kyber_pre_key_used kid sid b s) \<noteq> Ok ()" if "was_used kid sid b s" for s
    using mark_used [of kid sid b s] that by (cases "mark_kyber_pre_key_used kid sid b s") auto
  ultimately show ?thesis using u ss_roundtrip [OF assms(3)] by blast
qed


text \<open>
  A self-introduction that one installation signs for another is accepted there exactly when it
  arrives on a session that is pinned to the signer's session key.
\<close>

theorem intro_accepted_iff:
  assumes "ed25519_correct C" "lib_ed_point C (in_public_key C alice)"
    and "sign_capability_intro C L alice (in_identity_id C bob) cap hpke = Ok intro"
  shows "verify_capability_intro C bob peer cap intro =
    (if peer_session_identity_key bob peer = Some (session_identity_key L alice) then Ok () else Err BadIntro)"
  using signed_intro(1,2) [OF assms] by (auto simp: verify_capability_intro_def)

section \<open>Witnesses\<close>

text \<open>A libsignal without secrets: a message is its plaintext, a session the peer's key.\<close>

definition plain_signal :: libsignal where
  "plain_signal = \<lparr>ls_public_key = \<lambda>_. True, ls_kem_key = \<lambda>_. True, ls_identity_key = \<lambda>_. True, ls_pair = \<lambda>_. True,
     ls_device_id = \<lambda>d. 1 \<le> d \<and> d \<le> 127, ls_pre_key_record = \<lambda>_. True, ls_signed_record = \<lambda>_. True,
     ls_kyber_record = \<lambda>_. True, ls_session_record = \<lambda>_. True, ls_prekey_message = \<lambda>_. None, ls_signal_message = \<lambda>_. True,
     ls_pair_public = take 33, ls_new_pre_key = \<lambda>e i. (e, take 33 e), ls_new_signed = \<lambda>e i t p. Ok e,
     ls_new_kyber = \<lambda>e i p. Ok e, ls_signed_view = \<lambda>r. Ok (1, take 33 r, []), ls_kyber_view = \<lambda>r. Ok (1, take 33 r, []),
     ls_bundle = \<lambda>_. Ok (),
     ls_process_bundle = \<lambda>a _ b (ses, ids). (Ok (), store_session a (pb_identity_key b) ses, snd (save_identity a (pb_identity_key b) ids)),
     ls_encrypt = \<lambda>_ _ p (ses, ids). (Ok p, ses, ids), ls_decrypt = \<lambda>_ _ c _ st. (Ok c, st)\<rparr>"

lemma plain_signal_readable [simp]: "libsignal_readable plain_signal"
  by (auto simp: libsignal_readable_def plain_signal_def intro: le_less_trans [of _ 33])

text \<open>An installation with one signed prekey; \<open>n\<close> is its seed.\<close>

definition sample_install :: "byte \<Rightarrow> Installation" where
  "sample_install n = \<lparr>in_identity = replicate 32 n, in_revocation_public = replicate 32 2,
     in_address = address_for (identity_id plain_crypto (lib_ed_public plain_crypto (replicate 32 n))),
     in_store = (ss_new [n] 1)\<lparr>ss_signed := \<lparr>sks_keys = [(1, [n])]\<rparr>\<rparr>, in_next_pre_key_id = 1, in_next_kyber_id = 1,
     in_signed_pre_key_id = 1, in_signed_pre_key_at = 5, in_binding_seq = 0, in_mls = []\<rparr>"

lemma sample_store_wf: "ss_wf plain_signal (in_store (sample_install n))"
  by (simp add: ss_wf_def sample_install_def ss_new_def map_ok_def used_ok_def used_rows_def hm_sorted_def hm_wf_def plain_signal_def)

lemma sample_public: "in_public_key plain_crypto (sample_install n) = replicate 32 n"
  by (simp add: in_public_key_def sample_install_def plain_crypto_def resize_def)

lemma sample_point: "lib_ed_point plain_crypto (in_public_key plain_crypto (sample_install n))"
  unfolding sample_public by (simp add: plain_crypto_def)

theorem restock_terminates_witness:
  "\<exists>r i'. restock plain_crypto plain_signal (\<lambda>_. ([1], [2])) (sample_install 1) = Some (r, i') \<and> stock_wf i'"
proof -
  have "stock_wf (sample_install 1)" "unat (in_next_pre_key_id (sample_install 1)) + PREKEY_STOCK_TARGET < 2 ^ 32"
    by (simp_all add: stock_wf_def sample_install_def ss_new_def hm_wf_def all_pre_key_ids_def PREKEY_STOCK_TARGET_def)
  from restock_terminates [OF this, of plain_crypto plain_signal "\<lambda>_. ([1], [2])"] show ?thesis by auto
qed

theorem installation_roundtrip_witness:
  "decode_snapshot plain_crypto plain_signal (encode_snapshot (sample_install 1)) =
     Ok ((sample_install 1)\<lparr>in_store := ss_norm (in_store (sample_install 1)), in_mls := []\<rparr>)"
proof -
  have "length (ss_encode ((ss_new [1] 1)\<lparr>ss_signed := \<lparr>sks_keys = [(1, [1])]\<rparr>\<rparr>)) \<le> 100" by code_simp
  then have "length (ss_encode (in_store (sample_install 1))) < 2 ^ 64" by (simp add: sample_install_def)
  then have "in_wf plain_crypto plain_signal (sample_install 1)"
    using sample_store_wf [of 1]
    by (simp add: in_wf_def) (simp add: sample_install_def key_ok_def in_identity_id_def in_public_key_def)
  then show ?thesis by (rule installation_roundtrip)
qed

theorem base_key_single_use_witness:
  "fst (mark_kyber_pre_key_used 1 1 [7] \<lparr>kks_keys = [], kks_used = []\<rparr>) = Ok () \<and>
   (\<exists>st' :: SignalStore. fst (mark_kyber_pre_key_used 1 1 [7] (ss_kyber st')) \<noteq> Ok ())"
proof -
  let ?st = "in_store (sample_install 1)" and ?k = "\<lparr>kks_keys = [], kks_used = [((1, 1), [[7]])]\<rparr> :: KyberPreKeys"
  have m: "mark_kyber_pre_key_used 1 1 [7] (ss_kyber ?st) = (Ok (), ?k)"
    by (simp add: mark_kyber_pre_key_used_def sample_install_def ss_new_def hm_get_def hm_insert_def)
  have "ss_wf plain_signal (?st\<lparr>ss_kyber := ?k\<rparr>)"
    using sample_store_wf [of 1] by (simp add: ss_wf_def map_ok_def used_ok_def used_rows_def hm_sorted_def hm_wf_def hm_get_def plain_signal_def)
  then obtain st' :: SignalStore where "fst (mark_kyber_pre_key_used 1 1 [7] (ss_kyber st')) \<noteq> Ok ()"
    using base_key_single_use [OF m, of ?k "[]" plain_signal] by auto
  moreover have "ss_kyber ?st = \<lparr>kks_keys = [], kks_used = []\<rparr>" by (simp add: sample_install_def ss_new_def)
  ultimately show ?thesis using m by auto
qed


theorem intro_accepted_iff_witness:
  "\<exists>intro. sign_capability_intro plain_crypto plain_signal (sample_install 1) (in_identity_id plain_crypto (sample_install 2)) [7] [8] = Ok intro \<and>
     verify_capability_intro plain_crypto (sample_install 2) [9] [7] intro = Err BadIntro"
proof -
  obtain intro where i: "sign_capability_intro plain_crypto plain_signal (sample_install 1) (in_identity_id plain_crypto (sample_install 2)) [7] [8] = Ok intro"
    by (simp add: sign_capability_intro_def sign_total Let_def)
  moreover have "peer_session_identity_key (sample_install 2) [9] = None"
    by (simp add: peer_session_identity_key_def get_identity_def sample_install_def ss_new_def hm_get_def)
  ultimately show ?thesis using intro_accepted_iff [OF _ sample_point i] by auto
qed

end
