(* ===== verification/Client_Props.thy ===== *)
theory Client_Props
  imports Client_Calls Identity_Props
begin

text \<open>
  Properties of the client's home session: what an answer has to carry to be believed, what no
  sequence of operations does to the pinned contacts, what a self-introduction changes, and
  what is lost when a batch or a move fails.
\<close>

section \<open>Lemmas\<close>

subsection \<open>Answers\<close>

text \<open>An answer signed for this exchange by the pinned server.\<close>

definition signed_answer :: "crypto \<Rightarrow> ServerBundle \<Rightarrow> key \<Rightarrow> HttpResponse \<Rightarrow> bool" where
  "signed_answer C sb nonce res \<longleftrightarrow>
     (\<exists>hex sig. rp_header res RESPONSE_SIG_HEADER = Some hex \<and> from_hex hex = Ok sig \<and> length sig = 64 \<and>
        verify_response C (sb_sign_public sb) nonce (rp_status res) (rp_body res) sig = Ok ())"

lemma verify_signed_response_iff:
  "verify_signed_response C sb nonce res = Ok () \<longleftrightarrow> signed_answer C sb nonce res \<and> lib_ed_point C (sb_sign_public sb)"
  by (auto simp: verify_signed_response_def signed_answer_def rbind_eq_Ok copy_fixed_def split: if_splits)

lemma home_call_Ok:
  assumes "home_call C d req s = (Ok res, s')"
  shows "signed_answer C (cs_bundle (fst s)) (cd_resp_nonce d) res" "fst s' = fst s"
  using assms
  by (auto simp: home_call_def at_world_def signed_call_def sbind_eq_Ok sread_eq_Ok verify_signed_response_iff split: prod.splits)

lemma fst_at_world [simp]: "fst (snd (at_world f s)) = fst s"
  by (simp add: at_world_def split: prod.split)

lemma fst_home_call [simp]: "fst (snd (home_call C d req s)) = fst s"
  by (simp add: home_call_def)

lemma check_status_Ok: "check_status res = Ok () \<longleftrightarrow> rp_status res \<in> {200, 204}"
  by (simp add: check_status_def)

subsection \<open>Contacts\<close>

text \<open>
  What no operation takes back of a contact: whose it is, the key its revocation is checked
  with, how new its binding is, and that it was revoked.
\<close>

definition contact_le :: "StoredContact \<Rightarrow> StoredContact \<Rightarrow> bool" where
  "contact_le c c' \<longleftrightarrow> pin_identity_public (sc_pin c') = pin_identity_public (sc_pin c) \<and>
     pin_revocation_public (sc_pin c') = pin_revocation_public (sc_pin c) \<and> pin_seq (sc_pin c) \<le> pin_seq (sc_pin c') \<and>
     (sc_revoked c \<longrightarrow> sc_revoked c')"

definition contacts_le :: "(key, StoredContact) hashmap \<Rightarrow> (key, StoredContact) hashmap \<Rightarrow> bool" where
  "contacts_le m m' \<longleftrightarrow> (\<forall>i c. hm_get m i = Some c \<longrightarrow> (\<exists>c'. hm_get m' i = Some c' \<and> contact_le c c'))"

lemma contact_le_refl [simp]: "contact_le c c"
  by (simp add: contact_le_def)

lemma contacts_le_refl [simp]: "contacts_le m m"
  by (auto simp: contacts_le_def)

lemma contact_le_trans: "contact_le a b \<Longrightarrow> contact_le b c \<Longrightarrow> contact_le a c"
  by (auto simp: contact_le_def)

lemma contacts_le_trans: "contacts_le a b \<Longrightarrow> contacts_le b c \<Longrightarrow> contacts_le a c"
  unfolding contacts_le_def by (blast intro: contact_le_trans)

lemma contacts_le_insert:
  "hm_get m i = Some c \<Longrightarrow> contact_le c c' \<Longrightarrow> contacts_le m (hm_insert i c' m)"
  by (auto simp: contacts_le_def hm_get_insert_any)

text \<open>The session a call leaves behind keeps the contacts in this sense.\<close>

definition keeps :: "'w HomeSession \<Rightarrow> 'w sess \<Rightarrow> bool" where
  "keeps cs s' \<longleftrightarrow> contacts_le (cs_contacts cs) (cs_contacts (fst s'))"

named_theorems keeps_intro \<open>operations that keep the contacts\<close>

lemma keeps_refl [keeps_intro]: "cs_contacts (fst s') = cs_contacts cs \<Longrightarrow> keeps cs s'"
  by (simp add: keeps_def)

lemma keeps_trans: "keeps cs s \<Longrightarrow> keeps (fst s) s' \<Longrightarrow> keeps cs s'"
  unfolding keeps_def by (rule contacts_le_trans)

lemma keeps_sbind:
  assumes "keeps cs (snd m)" "\<And>x. fst m = Ok x \<Longrightarrow> keeps (fst (snd m)) (snd (f x (snd m)))"
  shows "keeps cs (snd (sbind m f))"
proof -
  obtain r s where "m = (r, s)" by (rule prod.exhaust)
  then show ?thesis using assms keeps_trans [of cs s] by (cases r) auto
qed

lemma keeps_sread:
  assumes "keeps cs s" "\<And>x. m = Ok x \<Longrightarrow> keeps cs (snd (f x))"
  shows "keeps cs (snd (sread m s f))"
  using assms by (cases m) auto

text \<open>Calls after which the session itself, or all of it but the installation, is the same.\<close>

lemma fst_call_on [simp]: "fst (snd (call_on C d origin req s)) = fst s"
  by (simp add: call_on_def Let_def split: option.split)

lemma fst_call_group [simp]: "fst (snd (call_group C d gid req s)) = fst s"
  by (simp add: call_group_def split: option.split)

lemma fst_sbind_sess: "fst (snd m) = cs \<Longrightarrow> (\<And>x. fst (snd (f x (snd m))) = cs) \<Longrightarrow> fst (snd (sbind m f)) = cs"
  by (cases m; cases "fst m") (auto simp: sbind_def)

lemma fst_owner_post [simp]: "fst (snd (owner_post C d path body s)) = fst s"
  by (simp add: owner_post_def sread_def split: sum.split)

lemma fst_discovery_at [simp]: "fst (snd (discovery_at C d origin i s)) = fst s"
  by (simp add: discovery_at_def fst_sbind_sess)

lemma discovery_at_same: "discovery_at C d origin i s = (r, cs, w) \<Longrightarrow> cs = fst s"
  by (metis fst_discovery_at fst_conv snd_conv)

lemma contacts_at_install [simp]: "cs_contacts (fst (snd (at_install f s))) = cs_contacts (fst s)"
  by (simp add: at_install_def split: prod.split)

subsection \<open>Refreshing\<close>

lemma pin_refresh_le:
  assumes "pin_refresh C disc now pin = (r, pin')"
  shows "pin_identity_public pin' = pin_identity_public pin \<and> pin_revocation_public pin' = pin_revocation_public pin \<and>
    pin_seq pin \<le> pin_seq pin'"
  using assms unfolding pin_refresh_def
  by (auto simp: sread_def Let_def split: sum.splits if_splits)

lemma refresh_contact_keeps: "keeps (fst s) (snd (refresh_contact C d peer now s))"
proof -
  define m where "m = discovery_at C d (case hm_get (cs_contacts (fst s)) peer of Some c \<Rightarrow> sc_home_origin c | None \<Rightarrow> []) peer s"
  have fs: "fst (snd m) = fst s" by (simp add: m_def)
  have put: "keeps (fst (snd m)) (put_contact peer c' (snd m))"
    if "hm_get (cs_contacts (fst (snd m))) peer = Some c" "contact_le c c'" for c c'
    using that by (simp add: keeps_def put_contact_def contacts_le_insert)
  show ?thesis
    unfolding refresh_contact_def Let_def m_def [symmetric]
  proof (rule keeps_sbind, simp add: keeps_def fs, intro keeps_sread, simp_all add: keeps_refl split: if_split prod.split sum.split, safe)
  qed (auto intro!: put simp: contact_le_def dest!: pin_refresh_le)
qed

lemma refresh_loop_keeps: "keeps (fst s) (snd (refresh_loop C d n now ids newly s))"
proof (induction ids arbitrary: n newly s)
  case (Cons i ids)
  obtain r s1 where r: "refresh_contact C (d n) i now s = (r, s1)" by (rule prod.exhaust)
  have s1: "keeps (fst s) s1" using refresh_contact_keeps [of s C "d n" i now] r by simp
  note IH = Cons.IH [of s] keeps_trans [OF s1 Cons.IH [of s1]]
  show ?case using IH by (cases r) (simp_all add: r split: option.split)
qed (simp add: keeps_def)

lemma fst_check_discovery [simp]: "fst (snd (check_discovery_not_revoked C d i now s)) = fst s"
  by (auto simp: check_discovery_not_revoked_def Let_def split: prod.splits sum.splits dest: discovery_at_same)

lemma refresh_mls_keeps: "keeps (fst s) (snd (refresh_mls_identities C d n now ids s))"
proof (induction ids arbitrary: n s)
  case (Cons i ids)
  have "keeps (fst s) (snd (sbind (refresh_contact C (d n) i now s) (\<lambda>_ s. refresh_mls_identities C d (Suc n) now ids s)))"
    by (rule keeps_sbind) (rule refresh_contact_keeps, rule Cons.IH)
  moreover have "keeps (fst s) (snd (sbind (check_discovery_not_revoked C (d n) i now s) (\<lambda>_ s. refresh_mls_identities C d (Suc n) now ids s)))"
    by (rule keeps_sbind) (rule keeps_refl, simp, rule Cons.IH)
  ultimately show ?case using Cons.IH by (simp add: keeps_refl split: option.split)
qed (simp add: keeps_def)

subsection \<open>Posting\<close>

lemma contacts_post_one [simp]: "cs_contacts (fst (snd (post_one_envelope C d outer cover s))) = cs_contacts (fst s)"
proof -
  obtain r s1 where r: "owner_post C d (str_bytes ''/v1/envelopes'') (oe_encode outer) s = (r, s1)" by (rule prod.exhaust)
  then have "fst s1 = fst s" using fst_owner_post [of C d "str_bytes ''/v1/envelopes''" "oe_encode outer" s] by simp
  then show ?thesis by (cases r) (simp_all add: post_one_envelope_def r Let_def)
qed

lemma pending_post_one [simp]: "cs_pending_outers (fst (snd (post_one_envelope C d outer cover s))) = cs_pending_outers (fst s)"
proof -
  obtain r s1 where r: "owner_post C d (str_bytes ''/v1/envelopes'') (oe_encode outer) s = (r, s1)" by (rule prod.exhaust)
  then have "fst s1 = fst s" using fst_owner_post [of C d "str_bytes ''/v1/envelopes''" "oe_encode outer" s] by simp
  then show ?thesis by (cases r) (simp_all add: post_one_envelope_def r Let_def)
qed

lemma post_batch_same:
  "cs_contacts (fst (snd (post_batch C d n outers l s))) = cs_contacts (fst s) \<and>
   cs_pending_outers (fst (snd (post_batch C d n outers l s))) = cs_pending_outers (fst s)"
proof (induction outers arbitrary: n l s)
  case (Cons o' outers)
  obtain r s1 where r: "post_one_envelope C (d n) o' False s = (r, s1)" by (rule prod.exhaust)
  have "cs_contacts (fst s1) = cs_contacts (fst s)" "cs_pending_outers (fst s1) = cs_pending_outers (fst s)"
    using contacts_post_one [of C "d n" o' False s] pending_post_one [of C "d n" o' False s] r by simp_all
  then show ?case using Cons.IH by (cases r) (simp_all add: r)
qed simp

lemma flush_same:
  "cs_contacts (fst (snd (flush_private_outbox C d s))) = cs_contacts (fst s)"
  "cs_pending_outers (fst (snd (flush_private_outbox C d s))) = []"
  by (simp_all add: flush_private_outbox_def Let_def post_batch_same)

lemma contacts_post_envelope [simp]: "cs_contacts (fst (snd (post_envelope C d batch outer s))) = cs_contacts (fst s)"
  by (simp add: post_envelope_def flush_same post_push_def)

lemma send_to_keeps: "keeps (fst s) (snd (send_to C L d rnd batch ty peer ttl plaintext now s))"
proof (cases "hm_get (cs_contacts (fst s)) peer")
  case (Some c)
  let ?m = "if discovery_stale now c then refresh_contact C (d 0) peer now s else (Ok (), s)"
  have "keeps (fst s) (snd ?m)" by (simp add: refresh_contact_keeps keeps_refl)
  moreover have "keeps (fst s1) (snd (sread (ok_or (hm_get (cs_contacts (fst s1)) peer) UnknownContact) s1 (\<lambda>c.
      if sc_revoked c then (Err Revoked, s1)
      else sbind (at_install (encrypt_to_mailbox C L rnd ty peer (sc_dest_hpke c) (sc_delivery_capability c) ttl plaintext) s1)
        (\<lambda>outer s. post_envelope C (\<lambda>n. d (Suc n)) batch outer s))))" for s1 :: "'a sess"
    by (intro keeps_sread) (auto simp: keeps_refl intro!: keeps_sbind)
  ultimately show ?thesis using Some by (simp add: send_to_def keeps_refl keeps_sbind)
qed (simp add: send_to_def keeps_refl)

lemma pump_cover_keeps: "keeps (fst s) (snd (pump_cover C d r rnd s))"
  unfolding pump_cover_def Let_def
  by (auto simp: keeps_refl split: option.split intro!: keeps_sread keeps_sbind)

subsection \<open>The mailbox and the rest\<close>

lemma fetch_mailbox_cases:
  "(\<exists>e. fst (fetch_mailbox C d s) = Err e \<and> fst (snd (fetch_mailbox C d s)) = fst s) \<or>
   (\<exists>rows res. fst (fetch_mailbox C d s) = Ok rows \<and> signed_answer C (cs_bundle (fst s)) (cd_resp_nonce d) res \<and>
      parse_fetch res = Ok rows \<and>
      fst (snd (fetch_mailbox C d s)) = (if rows = [] then fst s else (fst s)\<lparr>cs_cursor := mr_seq (last rows)\<rparr>))"
proof (cases "mailbox_body_auth C d (fst s) (str_bytes ''/v1/mailbox/fetch'') (cs_cursor (fst s)) FETCH_LIMIT")
  case (Inr auth)
  let ?req = "\<lparr>rq_method = POST, rq_path = str_bytes ''/v1/mailbox/fetch'', rq_headers = [], rq_body = mo_encode auth\<rparr>"
  obtain r s1 where r: "home_call C d ?req s = (r, s1)" by (rule prod.exhaust)
  have "fst s1 = fst s" using fst_home_call [of C d ?req s] r by simp
  then show ?thesis
    using home_call_Ok(1) [of C d ?req s _ s1] r
    by (cases r; cases "parse_fetch (projr r)") (auto simp: fetch_mailbox_def Inr)
qed (simp add: fetch_mailbox_def)

lemma contacts_fetch [simp]: "cs_contacts (fst (snd (fetch_mailbox C d s))) = cs_contacts (fst s)"
  using fetch_mailbox_cases [of C d s] by auto

lemma fst_client_ack [simp]: "fst (snd (client_ack C d s)) = fst s"
  by (simp add: client_ack_def sread_def fst_sbind_sess split: sum.split)

lemma ingest_keeps: "keeps (fst s) (snd (ingest_mailbox C L d s))"
  unfolding ingest_mailbox_def
  by (rule keeps_sbind) (auto simp: keeps_refl intro!: keeps_sbind)

lemma publish_keeps: "keeps (fst s) (snd (client_publish_prekey C L d e s))"
  unfolding client_publish_prekey_def
  by (rule keeps_sbind) (auto simp: keeps_refl intro!: keeps_sbind)

section \<open>Sessions\<close>

text \<open>
  The operations of a session that talk to others or take what others sent, but for adding a
  contact from a card, a self-introduction, and moving home, which are steps of their own below.
\<close>

inductive session_step :: "crypto \<Rightarrow> libsignal \<Rightarrow> 'w sess \<Rightarrow> 'w sess \<Rightarrow> bool" for C L where
  refresh: "session_step C L s (snd (refresh_contact C d peer now s))"
| idle: "session_step C L s (snd (refresh_idle_discovery C ds now s))"
| mls: "session_step C L s (snd (refresh_mls_identities C ds n now ids s))"
| send: "session_step C L s (snd (send_to C L ds rnd batch ty peer ttl plaintext now s))"
| flush: "session_step C L s (snd (flush_private_outbox C ds s))"
| cover: "session_step C L s (snd (pump_cover C d r rnd s))"
| ingest: "session_step C L s (snd (ingest_mailbox C L ds s))"
| capability: "session_step C L s (snd (apply_contact_capability C peer cap None now (fst s)), snd s)"
| publish: "session_step C L s (snd (client_publish_prekey C L d e s))"
| token: "session_step C L s (snd (mint_token C d path s))"
| turn: "session_step C L s (snd (issue_turn C d s))"
| group_call: "session_step C L s (snd (group_post C d gid rest pairs s))"
| create: "session_step C L s (snd (client_create_group C d spk cap s))"
| accept: "session_step C L s (snd (accept_invite C d gid nonce s))"
| fanout: "session_step C L s (snd (client_refresh_fanout gid cred cap hpke s))"
| upload: "session_step C L s (snd (client_upload_file C d gid cred tok body s))"
| download: "session_step C L s (snd (client_fetch_file C d gid cred tok s))"
| revoke: "session_step C L s (snd (submit_revocation C d stmt s))"
| remember: "session_step C L s (remember_group g (fst s), snd s)"
| privacy: "session_step C L s (snd (set_privacy r now mode s))"
| outside: "session_step C L s (fst s, w)"

lemma session_step_keeps: "session_step C L s s' \<Longrightarrow> keeps (fst s) s'"
proof (induction rule: session_step.induct)
  case (capability s peer cap now)
  show ?case
    by (cases "hm_get (cs_contacts (fst s)) peer")
      (auto simp: apply_contact_capability_def keeps_def contact_le_def intro!: contacts_le_insert)
qed (simp_all add: refresh_contact_keeps refresh_idle_discovery_def refresh_loop_keeps refresh_mls_keeps send_to_keeps
    pump_cover_keeps ingest_keeps publish_keeps flush_same keeps_refl mint_token_def issue_turn_def group_post_def
    client_create_group_def accept_invite_def client_refresh_fanout_def client_upload_file_def client_fetch_file_def
    submit_revocation_def remember_group_def set_privacy_def Let_def fst_sbind_sess split: option.split)

subsection \<open>Self-introductions\<close>

lemma address_for_inj [simp]: "address_for a = address_for b \<longleftrightarrow> a = b"
  by (metis Pair_inject address_for_def from_hex_to_hex sum.inject(2))

lemma rematerialized_key:
  assumes "hm_wf (idk_known (ss_identity (in_store i)))" "src \<noteq> dst"
    and "peer_session_identity_key i src = Some k" "peer_session_identity_key i dst \<in> {None, Some k}"
  shows "peer_session_identity_key (rematerialize_peer src dst i) dst = Some k"
  using assms
  by (auto simp: peer_session_identity_key_def get_identity_def rematerialize_peer_def ss_rematerialize_peer_def hm_get_move)

lemma apply_intro_Ok:
  fixes cs :: "'w HomeSession"
  defines "cs1 i p \<equiv> move_peer p (ci_identity_id i) cs"
  assumes "apply_contact_capability C peer cap (Some intro) now cs = (Ok real, cs')"
  obtains p where "verify_capability_intro C (cs_install cs) peer cap intro = Ok ()"
    "peer = ci_identity_id intro \<or> peer_session_identity_key (cs_install cs) (ci_identity_id intro) \<in> {None, Some (ci_session_key intro)}"
    "real = ci_identity_id intro" "intro_pin intro (hm_get (cs_contacts (cs1 intro peer)) real) = Ok p"
    "cs' = (cs1 intro peer)\<lparr>cs_contacts := hm_insert real (introduced intro cap now p) (cs_contacts (cs1 intro peer))\<rparr>"
proof -
  let ?taken = "peer \<noteq> ci_identity_id intro \<and> (case peer_session_identity_key (cs_install cs) (ci_identity_id intro) of
      Some existing \<Rightarrow> existing \<noteq> ci_session_key intro | None \<Rightarrow> False)"
  have v: "verify_capability_intro C (cs_install cs) peer cap intro = Ok ()"
    using assms(2) by (cases "verify_capability_intro C (cs_install cs) peer cap intro") (simp_all add: apply_contact_capability_def)
  have eq: "apply_contact_capability C peer cap (Some intro) now cs =
      (if ?taken then (Err IdentityMismatch, cs)
       else sread (intro_pin intro (hm_get (cs_contacts (cs1 intro peer)) (ci_identity_id intro))) (cs1 intro peer) (\<lambda>p.
         (Ok (ci_identity_id intro), (cs1 intro peer)\<lparr>cs_contacts :=
            hm_insert (ci_identity_id intro) (introduced intro cap now p) (cs_contacts (cs1 intro peer))\<rparr>)))"
    unfolding apply_contact_capability_def option.case v sread_simps Let_def cs1_def by (rule refl)
  have t: "\<not> ?taken" using assms(2) unfolding eq by (cases ?taken) simp_all
  obtain p where "intro_pin intro (hm_get (cs_contacts (cs1 intro peer)) (ci_identity_id intro)) = Ok p" "real = ci_identity_id intro"
    "cs' = (cs1 intro peer)\<lparr>cs_contacts := hm_insert (ci_identity_id intro) (introduced intro cap now p) (cs_contacts (cs1 intro peer))\<rparr>"
    using assms(2) unfolding eq if_not_P [OF t] sread_eq_Ok by blast
  moreover have "peer = ci_identity_id intro \<or> peer_session_identity_key (cs_install cs) (ci_identity_id intro) \<in> {None, Some (ci_session_key intro)}"
    using t by (auto split: option.splits)
  ultimately show thesis using that v by blast
qed

section \<open>Properties\<close>


text \<open>
  The mailbox is read from answers that the pinned home server signed for this very request:
  the rows returned are those of such an answer, and the cursor moves to the last of them. An
  error leaves the session as it was.
\<close>

theorem fetch_mailbox_authentic:
  "case fetch_mailbox C d s of
     (Err e, s') \<Rightarrow> fst s' = fst s
   | (Ok rows, s') \<Rightarrow>
       fst s' = (if rows = [] then fst s else (fst s)\<lparr>cs_cursor := mr_seq (last rows)\<rparr>) \<and>
       (\<exists>res. signed_answer C (cs_bundle (fst s)) (cd_resp_nonce d) res \<and> parse_fetch res = Ok rows)"
  using fetch_mailbox_cases [of C d s] by (cases "fetch_mailbox C d s"; cases "fst (fetch_mailbox C d s)") auto

text \<open>
  C21. A self-introduction that is accepted arrived on the session it names; afterwards that session
  belongs to the introduced identity, whose contact has the offered capability and server key
  and, if it was known before, the same identity key, the same revocation key and the newer
  binding number. The provisional contact is gone and all others are as they were.
\<close>

theorem intro_upgrades_contact:
  assumes "apply_contact_capability C peer cap (Some intro) now cs = (Ok real, cs')"
    and "hm_wf (cs_contacts cs)" "hm_wf (idk_known (ss_identity (in_store (cs_install cs))))"
  shows "real = ci_identity_id intro \<and> ci_verify C intro cap (own_id C cs) = Ok () \<and>
    peer_session_identity_key (cs_install cs) peer = Some (ci_session_key intro) \<and>
    peer_session_identity_key (cs_install cs') real = Some (ci_session_key intro) \<and>
    (\<exists>c. hm_get (cs_contacts cs') real = Some c \<and> sc_delivery_capability c = cap \<and> sc_dest_hpke c = ci_dest_hpke intro \<and>
       pin_identity_public (sc_pin c) = ci_identity_public intro \<and> \<not> sc_revoked c \<and>
       (\<forall>c0. hm_get (cs_contacts cs) real = Some c0 \<longrightarrow>
          pin_identity_public (sc_pin c0) = ci_identity_public intro \<and>
          pin_revocation_public (sc_pin c) = pin_revocation_public (sc_pin c0) \<and>
          pin_seq (sc_pin c) = max (pin_seq (sc_pin c0)) (ci_binding_seq intro))) \<and>
    (\<forall>j. j \<noteq> real \<longrightarrow> hm_get (cs_contacts cs') j = (if j = peer then None else hm_get (cs_contacts cs) j))"
proof -
  let ?k = "peer_session_identity_key (cs_install cs)" and ?id = "ci_identity_id intro"
  let ?cs = "move_peer peer ?id cs"
  obtain p where vi: "verify_capability_intro C (cs_install cs) peer cap intro = Ok ()"
    and free: "peer = ?id \<or> ?k ?id \<in> {None, Some (ci_session_key intro)}" and pin: "intro_pin intro (hm_get (cs_contacts ?cs) ?id) = Ok p"
    and out: "real = ?id" "cs' = ?cs\<lparr>cs_contacts := hm_insert ?id (introduced intro cap now p) (cs_contacts ?cs)\<rparr>"
    using apply_intro_Ok [OF assms(1)] by metis
  have v: "ci_verify C intro cap (own_id C cs) = Ok ()" "?k peer = Some (ci_session_key intro)"
    using vi by (auto simp: verify_capability_intro_def rbind_eq_Ok own_id_def split: if_splits)
  have "peer_session_identity_key (cs_install cs') ?id = Some (ci_session_key intro)"
    using rematerialized_key [OF assms(3) _ v(2)] free v(2) by (cases "peer = ?id") (auto simp: out move_peer_def)
  moreover have "hm_get (cs_contacts ?cs) j = (if j = peer \<and> j \<noteq> ?id then None
      else if j = ?id then (if hm_get (cs_contacts cs) ?id = None then hm_get (cs_contacts cs) peer else hm_get (cs_contacts cs) ?id)
      else hm_get (cs_contacts cs) j)" for j
    using hm_get_move [OF assms(2), of peer ?id j] by (auto simp: move_peer_def)
  ultimately show ?thesis using v pin
    by (auto simp: out hm_get_insert_any intro_pin_def introduced_def split: option.splits if_splits)
qed

text \<open>
  C38. A self-introduction clears a revocation: whoever still holds the session of a contact that was
  marked revoked sends an introduction on it and is written to again.
\<close>

theorem intro_clears_revocation:
  assumes "apply_contact_capability C peer cap (Some intro) now cs = (Ok real, cs')"
    and "hm_get (cs_contacts cs) real = Some c" "sc_revoked c"
  shows "\<exists>c'. hm_get (cs_contacts cs') real = Some c' \<and> \<not> sc_revoked c' \<and> sc_last_discovery_unix c' = now"
  using apply_intro_Ok [OF assms(1)] by (metis (no_types, lifting) HomeSession.select_convs(5) HomeSession.surjective
      HomeSession.update_convs(5) StoredContact.select_convs(4,5) hm_get_insert_any introduced_def)

text \<open>
  A batch of the private outbox that fails is lost: the outbox is emptied before the first
  post, and the envelopes after the failed one are neither posted nor kept.
\<close>

theorem flush_failure_drops_batch:
  assumes "cs_pending_outers (fst s) = first # rest"
    and "post_one_envelope C (d 0) first False ((fst s)\<lparr>cs_pending_outers := []\<rparr>, snd s) = (Err e, s')"
  shows "flush_private_outbox C d s = (Err e, s') \<and> cs_pending_outers (fst s') = []"
proof -
  have "flush_private_outbox C d s = (Err e, s')" using assms by (simp add: flush_private_outbox_def Let_def)
  then show ?thesis using flush_same(2) [of C d s] by simp
qed

text \<open>
  A client that moves home with enough unused prekeys of its own publishes none at the new
  home: the only calls after the switch are the fan-out updates and the binding notice to the
  old one.
\<close>

theorem rehome_without_prekeys:
  assumes "rehome_switch C (d 0) share tr base now s = (Ok (cc, old), s1)"
    and "\<not> needs_restock (cs_install (fst s1))"
    and "saturating_sub (cd_now_unix (dr 0)) (in_signed_pre_key_at (cs_install (fst s1))) < SIGNED_PREKEY_ROTATE_SECS"
  shows "rehome C L d dr e rot share tr base now s =
    Some (Ok cc, snd (at_world (post_binding old cc) (repoint_groups C (\<lambda>n. d (Suc n)) 0 old (cs_groups (fst s1)) s1)))"
proof -
  have "restock_publish C L dr e rot s1 = Some (Ok 0, s1)"
    using assms(2,3)
    by (simp add: restock_publish_def restock_publish_upto_def at_install_def maybe_rotate_signed_prekey_def needs_restock_def
        publish_loop.simps not_less)
  then show ?thesis using assms(1) by (simp add: rehome_def Let_def split: prod.split)
qed

section \<open>Witnesses\<close>

text \<open>A session whose home never answers, with one contact.\<close>

definition mute :: "unit transport" where
  "mute = \<lparr>tr_call = \<lambda>_ w. (Err (Transport ''down''), w), tr_redirect = \<lambda>_. None, tr_set_anonymous = \<lambda>_ w. w\<rparr>"

definition sample_bundle :: ServerBundle where
  "sample_bundle = \<lparr>sb_server_id = replicate 32 3, sb_hpke_public = replicate 32 3, sb_sign_public = replicate 32 4,
     sb_host = str_bytes ''home'', sb_s2s_port = 0, sb_signature = replicate 64 0\<rparr>"

definition sample_contact :: "bool \<Rightarrow> StoredContact" where
  "sample_contact revoked = \<lparr>sc_pin = \<lparr>pin_identity_id = replicate 32 1, pin_identity_public = replicate 32 1,
     pin_revocation_public = replicate 32 2, pin_seq = 3\<rparr>, sc_delivery_capability = replicate 32 6, sc_dest_hpke = replicate 32 3,
     sc_last_discovery_unix = 10, sc_revoked = revoked, sc_home_origin = []\<rparr>"

definition sample_session :: "bool \<Rightarrow> unit HomeSession" where
  "sample_session revoked = \<lparr>cs_transport = mute, cs_install = at_store (\<lambda>st. st\<lparr>ss_identity := (ss_identity st)\<lparr>
       idk_known := [(address_for (replicate 32 1), [1])]\<rparr>\<rparr>) (sample_install 2),
     cs_bundle = sample_bundle, cs_cursor = 0, cs_contacts = [(replicate 32 1, sample_contact revoked)], cs_groups = [],
     cs_home_base = [], cs_privacy = Private, cs_pending_outers = [], cs_cover_next_ms = 0, cs_last_real_ms = 0\<rparr>"

lemma sample_session_contact: "hm_get (cs_contacts (sample_session r)) (replicate 32 1) = Some (sample_contact r)"
  by (simp add: sample_session_def hm_get_def)

definition sample_draw :: Draw where
  "sample_draw = \<lparr>cd_auth_nonce = replicate 32 8, cd_resp_nonce = replicate 32 9, cd_now_unix = 20, cd_now_ms = 20000\<rparr>"

definition sample_group :: HostGroup where
  "sample_group = \<lparr>hg_group_id = [], hg_cred = \<lparr>hc_credential_id = [], hc_credential_secret = []\<rparr>, hg_host_base = []\<rparr>"

lemma sample_id: "in_identity_id plain_crypto (sample_install n) = replicate 32 n"
  unfolding in_identity_id_def sample_public by (simp add: identity_id_def sha256_def plain_crypto_def resize_def)

lemma sample_key: "session_identity_key plain_signal (sample_install n) = [n]"
  by (simp add: session_identity_key_def sample_install_def ss_new_def plain_signal_def)

lemma sample_session_known:
  "peer_session_identity_key (cs_install (sample_session r)) (replicate 32 1) = Some [1]"
  "own_id plain_crypto (sample_session r) = replicate 32 2"
  using sample_id [of 2]
  by (simp_all add: peer_session_identity_key_def get_identity_def sample_session_def at_store_def hm_get_def own_id_def in_identity_id_def
      in_public_key_def)

text \<open>The introduction of the sample contact, and that the session accepts it.\<close>

lemma sample_intro_applies:
  obtains intro cs' where
    "apply_contact_capability plain_crypto (replicate 32 1) [7] (Some intro) 50 (sample_session r) = (Ok (replicate 32 1), cs')"
proof -
  obtain intro where i: "sign_capability_intro plain_crypto plain_signal (sample_install 1) (replicate 32 2) [7] [8] = Ok intro"
    by (simp add: sign_capability_intro_def sign_total Let_def)
  note si = signed_intro [OF plain_crypto_laws(2) sample_point i, unfolded sample_id sample_key sample_public]
  have "verify_capability_intro plain_crypto (cs_install (sample_session r)) (replicate 32 1) [7] intro = Ok ()"
    using si sample_session_known [of r] by (simp add: verify_capability_intro_def own_id_def)
  then have "\<exists>cs'. apply_contact_capability plain_crypto (replicate 32 1) [7] (Some intro) 50 (sample_session r) = (Ok (replicate 32 1), cs')"
    using si(3,4) sample_session_contact [of r]
    by (simp add: apply_contact_capability_def move_peer_def intro_pin_def sample_contact_def Let_def)
  then show thesis using that by blast
qed


theorem intro_upgrades_contact_witness:
  "\<exists>intro cs'. apply_contact_capability plain_crypto (replicate 32 1) [7] (Some intro) 50 (sample_session False) = (Ok (replicate 32 1), cs') \<and>
     peer_session_identity_key (cs_install cs') (replicate 32 1) = Some (ci_session_key intro)"
proof -
  obtain intro cs' where a: "apply_contact_capability plain_crypto (replicate 32 1) [7] (Some intro) 50 (sample_session False) = (Ok (replicate 32 1), cs')"
    by (rule sample_intro_applies)
  have "hm_wf (cs_contacts (sample_session False))" "hm_wf (idk_known (ss_identity (in_store (cs_install (sample_session False)))))"
    by (simp_all add: sample_session_def at_store_def hm_wf_def)
  from intro_upgrades_contact [OF a this] a show ?thesis by blast
qed

theorem intro_clears_revocation_witness:
  "\<exists>intro cs' c'. sc_revoked (sample_contact True) \<and> hm_get (cs_contacts (sample_session True)) (replicate 32 1) = Some (sample_contact True) \<and>
     apply_contact_capability plain_crypto (replicate 32 1) [7] (Some intro) 50 (sample_session True) = (Ok (replicate 32 1), cs') \<and>
     hm_get (cs_contacts cs') (replicate 32 1) = Some c' \<and> \<not> sc_revoked c'"
proof -
  obtain intro cs' where a: "apply_contact_capability plain_crypto (replicate 32 1) [7] (Some intro) 50 (sample_session True) = (Ok (replicate 32 1), cs')"
    by (rule sample_intro_applies)
  have "sc_revoked (sample_contact True)" by (simp add: sample_contact_def)
  with intro_clears_revocation [OF a sample_session_contact this] a show ?thesis using sample_session_contact by blast
qed

theorem flush_failure_drops_batch_witness:
  "\<exists>e s'. flush_private_outbox plain_crypto (\<lambda>_. sample_draw)
     ((sample_session False)\<lparr>cs_pending_outers := [sample_outer, sample_outer]\<rparr>, ()) = (Err e, s') \<and> cs_pending_outers (fst s') = []"
proof -
  let ?s = "((sample_session False)\<lparr>cs_pending_outers := [sample_outer, sample_outer]\<rparr>, ())"
  obtain auth where auth: "owner_header plain_crypto sample_draw ((sample_session False)\<lparr>cs_pending_outers := []\<rparr>) POST
      (str_bytes ''/v1/envelopes'') (oe_encode sample_outer) = Ok auth"
    by (simp add: owner_header_def mailbox_owner_auth_def mo_sign_def sign_total Let_def)
  have "post_one_envelope plain_crypto sample_draw sample_outer False ((fst ?s)\<lparr>cs_pending_outers := []\<rparr>, snd ?s) =
      (Err (Transport ''down''), ((sample_session False)\<lparr>cs_pending_outers := []\<rparr>, ()))"
    using auth by (simp add: post_one_envelope_def owner_post_def home_call_def at_world_def signed_call_def) (simp add: sample_session_def mute_def)
  then show ?thesis using flush_failure_drops_batch [of ?s sample_outer "[sample_outer]" plain_crypto "\<lambda>_. sample_draw"] by auto
qed

text \<open>A home that answers every GET with its signed bundle and every POST with success.\<close>

definition answering :: "ServerBundle \<Rightarrow> bytes \<Rightarrow> unit transport" where
  "answering sb sig = mute\<lparr>tr_call := \<lambda>req w.
     (Ok (if rq_method req = GET then \<lparr>rp_status = 200, rp_body = sb_encode sb, rp_headers = [(RESPONSE_SIG_HEADER, to_hex sig)]\<rparr>
          else \<lparr>rp_status = 204, rp_body = [], rp_headers = []\<rparr>), w)\<rparr>"

definition new_bundle :: ServerBundle where
  "new_bundle = \<lparr>sb_server_id = server_id plain_crypto (replicate 32 5), sb_hpke_public = replicate 32 5,
     sb_sign_public = lib_ed_public plain_crypto [4], sb_host = str_bytes ''new'', sb_s2s_port = 0, sb_signature = replicate 64 0\<rparr>"

lemma new_home:
  obtains sb sig where "fetch_bundle plain_crypto sample_draw (tr_call (answering sb sig)) () = (Ok sb, ())"
    "sb_server_id sb = replicate 32 5" "sb_hpke_public sb = replicate 32 5" "sb_host sb = str_bytes ''new''"
proof -
  obtain s where s: "sign plain_crypto [4] SERVER_BUNDLE (sb_unsigned_cbor new_bundle) = Ok s" by (simp add: sign_total)
  let ?sb = "new_bundle\<lparr>sb_signature := s\<rparr>"
  have u: "sb_unsigned_cbor ?sb = sb_unsigned_cbor new_bundle" by (simp add: sb_unsigned_cbor_def sb_fields_def)
  have pk: "lib_ed_point plain_crypto (sb_sign_public ?sb)" by (simp add: new_bundle_def plain_crypto_def)
  have v: "sb_verify plain_crypto ?sb = Ok ()"
    using verify_sign_ok [OF plain_crypto_laws(2) s] pk u by (simp add: sb_verify_def) (simp add: new_bundle_def)
  have host: "utf8_valid (str_bytes ''new'')" by code_simp
  have "length s = 64" using length_sign [OF plain_crypto_laws(2) s] .
  then have wf: "sb_wf ?sb" using host by (simp add: sb_wf_def new_bundle_def server_id_def sha256_def plain_crypto_def)
  obtain sig where sig: "sign_response plain_crypto [4] (cd_resp_nonce sample_draw) 200 (sb_encode ?sb) = Ok sig"
    by (simp add: sign_response_def sign_total)
  have "verify_response plain_crypto (sb_sign_public ?sb) (cd_resp_nonce sample_draw) 200 (sb_encode ?sb) sig = Ok ()" "length sig = 64"
    using sig verify_sign_ok [OF plain_crypto_laws(2)] length_sign [OF plain_crypto_laws(2)]
    by (auto simp: sign_response_def verify_response_def new_bundle_def)
  then have "fetch_bundle plain_crypto sample_draw (tr_call (answering ?sb sig)) () = (Ok ?sb, ())"
    using v pk bundle_codec.roundtrip [OF wf]
    by (simp add: fetch_bundle_def answering_def check_body_def check_status_def verify_signed_response_def rp_header_def eq_ignore_ascii_case_def
        copy_fixed_def)
  moreover have "server_id plain_crypto (replicate 32 5) = replicate 32 5" by (simp add: server_id_def sha256_def plain_crypto_def resize_def)
  ultimately show thesis using that [of ?sb sig] by (simp add: new_bundle_def)
qed

definition stocked_session :: "unit HomeSession" where
  "stocked_session = (sample_session False)\<lparr>cs_install := at_store (\<lambda>st. st\<lparr>ss_pre_key :=
     \<lparr>pks_keys = map (\<lambda>n. (of_nat n, [])) [0 ..< 30]\<rparr>\<rparr>) (sample_install 2)\<rparr>"

theorem rehome_without_prekeys_witness:
  "\<exists>sb sig cc s1. rehome plain_crypto plain_signal (\<lambda>_. sample_draw) (\<lambda>_. sample_draw) (\<lambda>_. ([], [])) [] (replicate 32 6)
     (answering sb sig) [] 20 (stocked_session, ()) =
       Some (Ok cc, snd (at_world (post_binding (tr_call mute) cc) (repoint_groups plain_crypto (\<lambda>_. sample_draw) 0 (tr_call mute) [] s1)))"
proof -
  obtain sb sig where sb: "fetch_bundle plain_crypto sample_draw (tr_call (answering sb sig)) () = (Ok sb, ())"
    "sb_server_id sb = replicate 32 5" "sb_hpke_public sb = replicate 32 5" "sb_host sb = str_bytes ''new''"
    by (rule new_home)
  let ?i = "cs_install stocked_session" and ?s = "(stocked_session, ())"
  have inst: "in_identity ?i = replicate 32 2" "in_binding_seq ?i = 0" "in_revocation_public ?i = replicate 32 2"
    "in_signed_pre_key_at ?i = 5" "unused_one_time_prekeys ?i = 30"
    by (simp_all add: stocked_session_def at_store_def sample_install_def unused_one_time_prekeys_def all_pre_key_ids_def)
  let ?b = "\<lparr>hb_server_id = server_id plain_crypto (replicate 32 5), hb_hpke_public = replicate 32 5, hb_host = str_bytes ''new'',
      hb_seq = 1, hb_expires_at = saturating_add 20 CARD_TTL_SECS, hb_signature = replicate 64 0\<rparr>"
  have host: "validate_host (str_bytes ''new'') = Ok ()" "utf8_valid (str_bytes ''new'')" by code_simp+
  obtain x where x: "sign plain_crypto (replicate 32 2) HOME_SERVER_BINDING (hb_unsigned_cbor ?b) = Ok x" by (simp add: sign_total)
  let ?cc = "\<lparr>cc_identity_public = in_public_key plain_crypto (?i\<lparr>in_binding_seq := 1\<rparr>), cc_revocation_public = replicate 32 2,
      cc_share_token = replicate 32 6, cc_binding = ?b\<lparr>hb_signature := x\<rparr>\<rparr>"
  have card: "mint_card plain_crypto (replicate 32 6) (replicate 32 5) (str_bytes ''new'') (saturating_add 20 CARD_TTL_SECS) ?i =
      (Ok ?cc, ?i\<lparr>in_binding_seq := 1\<rparr>)"
    using inst host x by (simp add: mint_card_def card_with_share_def hb_sign_def Let_def)
  have "length x = 64" using length_sign [OF plain_crypto_laws(2) x] .
  then have "cc_wf ?cc" using host(2) inst(1)
    by (simp add: cc_wf_def hb_wf_def HOST_MAX_BYTES_def in_public_key_def server_id_def sha256_def plain_crypto_def)
  then have enc: "cc_encode ?cc = Ok (cc_bytes ?cc)" using cc_bytes_le [of ?cc] by (simp add: cc_encode_def Let_def not_less)
  let ?s1 = "(set_home_base [] (stocked_session\<lparr>cs_install := ?i\<lparr>in_binding_seq := 1\<rparr>, cs_groups := [],
      cs_transport := answering sb sig, cs_bundle := sb, cs_cursor := 0\<rparr>), ())"
  have base: "cs_groups stocked_session = []" "sb_server_id (cs_bundle stocked_session) = replicate 32 3" "cs_transport stocked_session = mute"
    by (simp_all add: stocked_session_def sample_session_def sample_bundle_def)
  have switch: "rehome_switch plain_crypto sample_draw (replicate 32 6) (answering sb sig) [] 20 ?s = (Ok (?cc, tr_call mute), ?s1)"
    using sb card enc base
    by (simp add: rehome_switch_def at_world_def at_install_def answering_def GET_def POST_def check_empty_def check_status_def Let_def)
  have "\<not> needs_restock (cs_install (fst ?s1))" "saturating_sub (cd_now_unix sample_draw) (in_signed_pre_key_at (cs_install (fst ?s1))) < SIGNED_PREKEY_ROTATE_SECS"
    using inst by (simp_all add: set_home_base_def needs_restock_def PREKEY_RESTOCK_BELOW_def sample_draw_def saturating_sub_def
        SIGNED_PREKEY_ROTATE_SECS_def unused_one_time_prekeys_def)
  from rehome_without_prekeys [where d = "\<lambda>_. sample_draw", OF switch this] show ?thesis
    by (simp add: set_home_base_def) blast
qed

theorem home_state_roundtrip_witness:
  "hst_decode (hst_encode (snapshot (sample_session False))) = Ok (snapshot (sample_session False))"
proof -
  let ?s = "snapshot (sample_session False)"
  have strs: "str_ok []" "str_ok (str_bytes ''home'')" by (simp add: str_ok_def, simp add: str_ok_def, code_simp)
  have "length (sb_encode sample_bundle) \<le> 300" by code_simp
  moreover have "sb_wf sample_bundle" using strs(2) by (simp add: sb_wf_def sample_bundle_def str_ok_def)
  ultimately have "hst_wf ?s"
    using strs(1) by (simp add: hst_wf_def snapshot_def sample_session_def hm_wf_def contact_wf_def sample_contact_def key_ok_def)
  moreover have "hm_sorted (hst_contacts ?s) = hst_contacts ?s"
    by (simp add: snapshot_def sample_session_def hm_sorted_def hm_get_def)
  ultimately show ?thesis using home_state_roundtrip [of ?s] by simp
qed

end
