(* ===== verification/Client_Server.thy ===== *)
theory Client_Server
  imports Client_Props Http_Props
begin

text \<open>
  The client and the home server together: the client's transport is the router of
  \<open>nemo-server/src/http.rs\<close> over the server's state, so that a call of the client runs the
  server's handlers and the client judges the signed answer.
\<close>

section \<open>Model\<close>

text \<open>A path cut at its slashes, without the empty piece before the first.\<close>

fun pieces :: "bytes \<Rightarrow> bytes list" where
  "pieces [] = [[]]"
| "pieces (b # bs) = (if b = 0x2F then [] # pieces bs else (case pieces bs of p # ps \<Rightarrow> (b # p) # ps | [] \<Rightarrow> [[b]]))"

definition request_headers :: "HttpRequest \<Rightarrow> headers" where
  "request_headers req name = map_option snd (find (\<lambda>(k, _). eq_ignore_ascii_case k name) (rq_headers req))"

definition group_route :: "bool \<Rightarrow> bytes \<Rightarrow> bytes \<Rightarrow> bytes \<Rightarrow> Request option" where
  "group_route post gid op b =
     (if \<not> post then None
      else if op = str_bytes ''append'' then Some (PostAppend gid b)
      else if op = str_bytes ''invites'' then Some (PostInvite gid b)
      else if op = str_bytes ''accept'' then Some (PostAccept gid b)
      else if op = str_bytes ''admit'' then Some (PostAdmit gid b)
      else if op = str_bytes ''fanout'' then Some (PostFanout gid b)
      else if op = str_bytes ''pending-lookup'' then Some (PostLookup gid b)
      else None)"

definition home_route :: "bool \<Rightarrow> bytes list \<Rightarrow> headers \<Rightarrow> bytes \<Rightarrow> Request option" where
  "home_route post p h b =
     (if p = [str_bytes ''bundle''] then (if post then None else Some GetBundle)
      else if p = [str_bytes ''register''] then (if post then Some (PostRegister b) else None)
      else if p = [str_bytes ''binding''] then (if post then Some (PostBinding b) else None)
      else if p = [str_bytes ''prekeys''] then Some (if post then PostPrekey h b else GetPrekey h)
      else if p = [str_bytes ''envelopes''] then (if post then Some (PostEnvelope h b) else None)
      else if p = [str_bytes ''mailbox'', str_bytes ''fetch''] then (if post then Some (PostFetch b) else None)
      else if p = [str_bytes ''mailbox'', str_bytes ''ack''] then (if post then Some (PostAck b) else None)
      else if p = [str_bytes ''tokens'', str_bytes ''share''] then (if post then Some (PostShare h) else None)
      else if p = [str_bytes ''tokens'', str_bytes ''contact''] then (if post then Some (PostContact h) else None)
      else if p = [str_bytes ''revocation''] then (if post then Some (PostRevocation b) else None)
      else if p = [str_bytes ''wakeup''] then (if post then None else Some (GetWakeup h))
      else if p = [str_bytes ''turn''] then (if post then Some (PostTurn h) else None)
      else if p = [str_bytes ''groups''] then (if post then Some (PostGroup h b) else None)
      else
        (case p of
           [x, i] \<Rightarrow> if x = str_bytes ''discovery'' \<and> \<not> post then Some (GetDiscovery i) else None
         | [x, gid, op] \<Rightarrow> if x = str_bytes ''groups'' then group_route post gid op b else None
         | [x, gid, f, tok] \<Rightarrow>
             if x = str_bytes ''groups'' \<and> f = str_bytes ''files'' then Some (if post then PostFile gid tok h b else GetFile gid tok h)
             else None
         | _ \<Rightarrow> None))"

definition route :: "HttpRequest \<Rightarrow> Request option" where
  "route req =
     (if rq_method req \<noteq> GET \<and> rq_method req \<noteq> POST then None
      else
        (case pieces (rq_path req) of
           e # v # p \<Rightarrow>
             if e = [] \<and> v = str_bytes ''v1'' then home_route (rq_method req = POST) p (request_headers req) (rq_body req) else None
         | _ \<Rightarrow> None))"

definition to_http :: "Response \<Rightarrow> HttpResponse" where
  "to_http r = \<lparr>rp_status = as_u16 (resp_status r), rp_body = resp_body r,
     rp_headers = (case resp_sig r of Some s \<Rightarrow> [(RESPONSE_SIG_HEADER, s)] | None \<Rightarrow> [])\<rparr>"

text \<open>
  The server as the world of a client: its state and the number of requests it has served. \<open>dr n\<close>
  is what the \<open>n\<close>-th request draws, \<open>other\<close> the HTTP library's answer to a path that is not routed.
\<close>

type_synonym world = "nat \<times> AppState"

definition server_call :: "crypto \<Rightarrow> (nat \<Rightarrow> Draws) \<Rightarrow> (HttpRequest \<Rightarrow> HttpResponse) \<Rightarrow> world call" where
  "server_call C dr other req w =
     (case route req of
        None \<Rightarrow> (Ok (other req), (Suc (fst w), snd w))
      | Some r \<Rightarrow> (let (resp, st) = serve C (dr (fst w)) (request_headers req) r (snd w) in (Ok (to_http resp), (Suc (fst w), st))))"

definition server_transport :: "crypto \<Rightarrow> (nat \<Rightarrow> Draws) \<Rightarrow> (HttpRequest \<Rightarrow> HttpResponse) \<Rightarrow> world transport" where
  "server_transport C dr other = \<lparr>tr_call = server_call C dr other, tr_redirect = \<lambda>_. None, tr_set_anonymous = \<lambda>_ w. w\<rparr>"

section \<open>Lemmas\<close>

subsection \<open>Exchanges\<close>

lemma nonce_header:
  assumes "find (\<lambda>(k, _). eq_ignore_ascii_case k (str_bytes ''nemo-nonce'')) hs = None" "length n = 32"
  shows "header_token (request_headers \<lparr>rq_method = m, rq_path = p, rq_headers = hs @ [(RESPONSE_NONCE_HEADER, to_hex n)], rq_body = b\<rparr>)
    (str_bytes ''nemo-nonce'') = Some n"
proof -
  have "find (\<lambda>(k, _). eq_ignore_ascii_case k (str_bytes ''nemo-nonce'')) (hs @ [(RESPONSE_NONCE_HEADER, to_hex n)]) =
      Some (RESPONSE_NONCE_HEADER, to_hex n)"
    using assms(1) by (induction hs) (auto simp: eq_ignore_ascii_case_def RESPONSE_NONCE_HEADER_def split: if_splits)
  then show ?thesis using assms(2) by (simp add: header_token_def request_headers_def parse_key_hex_def copy_fixed_def KEY_LEN_def)
qed

text \<open>A call to the server is believed when its answer fits the limit, and refused when it does not.\<close>

lemma signed_call_server:
  assumes "ed25519_correct C" "length (cd_resp_nonce d) = 32"
    and "find (\<lambda>(k, _). eq_ignore_ascii_case k (str_bytes ''nemo-nonce'')) hs = None"
    and "route \<lparr>rq_method = m, rq_path = p, rq_headers = hs @ [(RESPONSE_NONCE_HEADER, to_hex (cd_resp_nonce d))], rq_body = b\<rparr> = Some r"
    and "handle C (dr n) r st = (res, st')"
    and "sb_sign_public sb = sign_public C (st_home st')" "lib_ed_point C (sb_sign_public sb)"
  shows "\<exists>x. signed_call C d (server_call C dr other) sb \<lparr>rq_method = m, rq_path = p, rq_headers = hs, rq_body = b\<rparr> (n, st) =
    (if length (resp_body res) \<le> BODY_LIMIT then Ok (to_http (res\<lparr>resp_sig := Some x\<rparr>)) else Err UnsignedResponse, (Suc n, st'))"
proof -
  let ?req = "\<lparr>rq_method = m, rq_path = p, rq_headers = hs @ [(RESPONSE_NONCE_HEADER, to_hex (cd_resp_nonce d))], rq_body = b\<rparr>"
  note tok = nonce_header [OF assms(3,2), of m p b]
  obtain s where s: "sign_response C (hs_sign (st_home st')) (cd_resp_nonce d) (as_u16 (resp_status res)) (resp_body res) = Ok s"
    by (simp add: sign_response_def sign_total)
  show ?thesis
  proof (cases "length (resp_body res) \<le> BODY_LIMIT")
    case True
    then have "serve C (dr n) (request_headers ?req) r st = (res\<lparr>resp_sig := Some (to_hex s)\<rparr>, st')"
      using tok s assms(5) by (simp add: serve_def sign_after_def)
    then have "server_call C dr other ?req (n, st) = (Ok (to_http (res\<lparr>resp_sig := Some (to_hex s)\<rparr>)), (Suc n, st'))"
      using assms(4) by (simp add: server_call_def)
    moreover have "verify_signed_response C sb (cd_resp_nonce d) (to_http (res\<lparr>resp_sig := Some (to_hex s)\<rparr>)) = Ok ()"
      using s assms(6,7) length_sign [OF assms(1)] verify_sign_ok [OF assms(1)]
      by (auto simp: verify_signed_response_def to_http_def rp_header_def eq_ignore_ascii_case_def sign_response_def verify_response_def
          sign_public_def)
    ultimately show ?thesis using True by (auto simp: signed_call_def)
  next
    case False
    then have "serve C (dr n) (request_headers ?req) r st = (status INTERNAL_SERVER_ERROR, st')"
      using tok assms(5) by (simp add: serve_def sign_after_def)
    then have "server_call C dr other ?req (n, st) = (Ok (to_http (status INTERNAL_SERVER_ERROR)), (Suc n, st'))"
      using assms(4) by (simp add: server_call_def)
    moreover have "verify_signed_response C sb k (to_http (status INTERNAL_SERVER_ERROR)) = Err UnsignedResponse" for k
      by (simp add: verify_signed_response_def to_http_def rp_header_def status_def)
    ultimately show ?thesis using False by (auto simp: signed_call_def)
  qed
qed

subsection \<open>Fetching\<close>

text \<open>The client is the owner of a mailbox at the server it pinned, and its request is fresh.\<close>

definition owns :: "crypto \<Rightarrow> Draw \<Rightarrow> (nat \<Rightarrow> u64) \<Rightarrow> 'w HomeSession \<Rightarrow> HomeServer \<Rightarrow> Mailbox \<Rightarrow> bool" where
  "owns C d T cs h m \<longleftrightarrow>
     hm_wf (hs_mailboxes h) \<and> hm_get (hs_mailboxes h) (own_id C cs) = Some m \<and> \<not> mb_disabled m \<and>
     mb_owner_pk m = in_public_key C (cs_install cs) \<and> lib_ed_point C (mb_owner_pk m) \<and>
     sb_server_id (cs_bundle cs) = hs_server_id C h \<and> sb_sign_public (cs_bundle cs) = sign_public C h \<and>
     lib_ed_point C (sign_public C h) \<and> length (cd_auth_nonce d) = 32 \<and> length (cd_resp_nonce d) = 32 \<and>
     hm_get (hs_owner_nonces h) (cd_auth_nonce d) = None \<and> hm_wf (hs_owner_nonces h) \<and>
     cd_now_unix d \<le> T 1 \<and> T 1 - cd_now_unix d \<le> MAX_AGE_SECS \<and> unat (T 1) + unat MAX_AGE_SECS < 2 ^ 64"

text \<open>The rows above the client's cursor that the server has after it dropped the expired ones.\<close>

definition due_rows :: "u64 \<Rightarrow> u64 \<Rightarrow> Limits \<Rightarrow> Mailbox \<Rightarrow> StoredEnvelope list" where
  "due_rows cursor now lim m =
     take 64 (filter (\<lambda>r. cursor < se_seq r \<and> now < se_expires_at r) (map snd (mb_rows (fst (gc_rows now lim m)))))"

lemma fetch_route:
  "route \<lparr>rq_method = POST, rq_path = str_bytes ''/v1/mailbox/fetch'', rq_headers = hs, rq_body = b\<rparr> = Some (PostFetch b)"
proof -
  have "pieces (str_bytes ''/v1/mailbox/fetch'') = [[], str_bytes ''v1'', str_bytes ''mailbox'', str_bytes ''fetch'']" by code_simp
  then show ?thesis by (simp add: route_def home_route_def)
qed

lemma length_hs_server_id: "sha256_digest C \<Longrightarrow> length (hs_server_id C h) = 32"
  by (simp add: hs_server_id_def kp_server_id_def length_server_id)

lemma made_auth:
  assumes "ed25519_correct C" "sha256_digest C" "owns C d T cs h m"
  obtains auth where "mailbox_body_auth C d cs (str_bytes ''/v1/mailbox/fetch'') (cs_cursor cs) FETCH_LIMIT = Ok auth"
    "mo_decode (mo_encode auth) = Ok auth" "owner_id auth = Some (own_id C cs)" "mo_mailbox_hint auth = own_id C cs"
    "mo_cursor auth = cs_cursor cs" "mo_limit auth = 64" "mo_nonce auth = cd_auth_nonce d"
    "mo_verify C auth (mb_owner_pk m) (T 1) (scope_body (hs_server_id C h) (str_bytes ''POST'') (str_bytes ''/v1/mailbox/fetch'')) = Ok ()"
proof -
  let ?scope = "scope_body (sb_server_id (cs_bundle cs)) POST (str_bytes ''/v1/mailbox/fetch'')"
  let ?a = "\<lparr>mo_mailbox_hint = own_id C cs, mo_cursor = cs_cursor cs, mo_limit = FETCH_LIMIT, mo_ts = cd_now_unix d,
    mo_scope = ?scope, mo_nonce = cd_auth_nonce d, mo_signature = replicate 64 0\<rparr>"
  obtain s where s: "sign C (in_identity (cs_install cs)) MAILBOX_OWNER (mo_unsigned_cbor ?a) = Ok s" by (simp add: sign_total)
  let ?b = "?a\<lparr>mo_signature := s\<rparr>"
  have id: "length (own_id C cs) = 32" using assms(2) by (simp add: own_id_def in_identity_id_def identity_id_def sha256_def sha256_digest_def)
  have ok: "mailbox_body_auth C d cs (str_bytes ''/v1/mailbox/fetch'') (cs_cursor cs) FETCH_LIMIT = Ok ?b"
    using s by (simp add: mailbox_body_auth_def mailbox_owner_auth_def mo_sign_def own_id_def Let_def)
  have "utf8_valid (str_bytes ''/v1/mailbox/fetch'')" "utf8_valid POST" "length POST < 2 ^ 64" by (code_simp, code_simp, simp add: POST_def)
  then have wf: "mo_wf ?b"
    using id assms(3) length_hs_server_id [OF assms(2), of h] length_sign [OF assms(1) s]
    by (simp add: mo_wf_def scope_body_def owns_def KEY_LEN_def)
  have "mo_unsigned_cbor ?b = mo_unsigned_cbor ?a" by (simp add: mo_unsigned_cbor_def)
  then have "verify C (mb_owner_pk m) MAILBOX_OWNER (mo_unsigned_cbor ?b) s = Ok ()"
    using verify_sign_ok [OF assms(1) s] assms(3) by (simp add: owns_def in_public_key_def)
  moreover have "saturating_sub (T 1) (cd_now_unix d) \<le> MAX_AGE_SECS" "\<not> T 1 + MAX_AGE_SECS < cd_now_unix d"
  proof -
    show "saturating_sub (T 1) (cd_now_unix d) \<le> MAX_AGE_SECS" using assms(3) by (simp add: owns_def saturating_sub_def)
    have "unat (T 1) \<le> unat (T 1 + MAX_AGE_SECS)" using assms(3) by (simp add: owns_def unat_word_ariths)
    then show "\<not> T 1 + MAX_AGE_SECS < cd_now_unix d" using assms(3) by (simp add: owns_def word_less_nat_alt word_le_nat_alt)
  qed
  ultimately have "mo_verify C ?b (mb_owner_pk m) (T 1) (scope_body (hs_server_id C h) (str_bytes ''POST'') (str_bytes ''/v1/mailbox/fetch'')) = Ok ()"
    using assms(3) by (simp add: mo_verify_def owns_def POST_def not_less)
  moreover have "owner_id ?b = Some (own_id C cs)" using id by (simp add: owner_id_def copy_fixed_def ID_LEN_def)
  ultimately show thesis using that [OF ok mo_roundtrip [OF wf]] by (simp add: FETCH_LIMIT_def)
qed

lemma server_fetches:
  assumes "owns C d T cs h m" "mo_mailbox_hint auth = own_id C cs" "mo_limit auth = 64" "mo_nonce auth = cd_auth_nonce d"
    "mo_verify C auth (mb_owner_pk m) (T 1) (scope_body (hs_server_id C h) (str_bytes ''POST'') (str_bytes ''/v1/mailbox/fetch'')) = Ok ()"
  shows "\<exists>h'. fetch C (own_id C cs) auth (T 1) (h\<lparr>hs_now := T 0\<rparr>) = (Ok (due_rows (mo_cursor auth) (T 0) (hs_limits h) m), h') \<and>
    hs_sign h' = hs_sign h"
proof -
  let ?h = "h\<lparr>hs_now := T 0\<rparr>"
  let ?scope = "scope_body (hs_server_id C h) (str_bytes ''POST'') (str_bytes ''/v1/mailbox/fetch'')"
  have "hm_get (hs_owner_nonces (gc_owner_nonces (T 1) ?h)) (cd_auth_nonce d) = None"
    using assms(1) by (auto simp: gc_owner_nonces_def owns_def hm_get_retain)
  then obtain h1 where c: "check_owner C (own_id C cs) auth (T 1) ?scope ?h = (Ok (), h1)" "hs_mailboxes h1 = hs_mailboxes h"
      "hs_now h1 = T 0" "hs_limits h1 = hs_limits h" "hs_sign h1 = hs_sign h"
    using assms by (auto simp: check_owner_def Let_def owns_def gc_owner_nonces_def)
  moreover have "hs_server_id C ?h = hs_server_id C h" by (simp add: hs_server_id_def)
  moreover have "hm_get (hs_mailboxes (gc_mailbox (own_id C cs) h1)) (own_id C cs) = Some (fst (gc_rows (T 0) (hs_limits h) m))"
    using assms(1) c by (simp add: hm_get_gc_mailbox owns_def)
  moreover have "hs_sign (gc_mailbox i h1) = hs_sign h1" "hs_now (gc_mailbox i h1) = hs_now h1" for i
    by (simp_all add: gc_mailbox_def put_mailbox_def mark_identity_def Let_def split: option.split prod.split)
  ultimately show ?thesis
    using assms(3) by (simp add: fetch_def Let_def FETCH_LIMIT_MAX_def due_rows_def)
qed

text \<open>The client's fetch, answered by the server.\<close>

lemma fetch_exchange:
  fixes w :: AppState
  assumes "ed25519_correct C" "sha256_digest C" "owns C d (dw_clock (dr n)) cs (st_home w) m"
    and "tr_call (cs_transport cs) = server_call C dr other"
  defines "rows \<equiv> due_rows (cs_cursor cs) (dw_clock (dr n) 0) (hs_limits (st_home w)) m"
  shows "\<exists>w' x. fetch_mailbox C d (cs, (n, w)) =
    (if length (encode (Array (fetch_items rows))) \<le> BODY_LIMIT
     then sread (parse_fetch (to_http ((cbor_ok (Array (fetch_items rows)))\<lparr>resp_sig := Some x\<rparr>))) (cs, w') (\<lambda>rows.
       (Ok rows, if rows = [] then (cs, w') else (cs\<lparr>cs_cursor := mr_seq (last rows)\<rparr>, w')))
     else (Err UnsignedResponse, (cs, w')))"
proof -
  let ?T = "dw_clock (dr n)"
  obtain auth where auth: "mailbox_body_auth C d cs (str_bytes ''/v1/mailbox/fetch'') (cs_cursor cs) FETCH_LIMIT = Ok auth"
    "mo_decode (mo_encode auth) = Ok auth" "owner_id auth = Some (own_id C cs)" "mo_mailbox_hint auth = own_id C cs"
    "mo_cursor auth = cs_cursor cs" "mo_limit auth = 64" "mo_nonce auth = cd_auth_nonce d"
    "mo_verify C auth (mb_owner_pk m) (?T 1) (scope_body (hs_server_id C (st_home w)) (str_bytes ''POST'') (str_bytes ''/v1/mailbox/fetch'')) = Ok ()"
    using made_auth [OF assms(1-3)] by blast
  obtain h' where h': "fetch C (own_id C cs) auth (?T 1) ((st_home w)\<lparr>hs_now := ?T 0\<rparr>) = (Ok rows, h')" "hs_sign h' = hs_sign (st_home w)"
    using server_fetches [OF assms(3) auth(4,6,7,8)] auth(5) rows_def by auto
  have hd: "handle C (dr n) (PostFetch (mo_encode auth)) w = (cbor_ok (Array (fetch_items rows)), w\<lparr>st_home := h'\<rparr>)"
    using auth(2,3) h'(1) by (simp add: h_mailbox_fetch_def require_def at_home_def home_now_def)
  have key: "sb_sign_public (cs_bundle cs) = sign_public C (st_home (w\<lparr>st_home := h'\<rparr>))" "lib_ed_point C (sb_sign_public (cs_bundle cs))"
      "length (cd_resp_nonce d) = 32"
    using assms(3) h'(2) by (simp_all add: owns_def sign_public_def)
  let ?body = "encode (Array (fetch_items rows))"
  obtain x where "signed_call C d (server_call C dr other) (cs_bundle cs)
      \<lparr>rq_method = POST, rq_path = str_bytes ''/v1/mailbox/fetch'', rq_headers = [], rq_body = mo_encode auth\<rparr> (n, w) =
    (if length ?body \<le> BODY_LIMIT then Ok (to_http ((cbor_ok (Array (fetch_items rows)))\<lparr>resp_sig := Some x\<rparr>))
     else Err UnsignedResponse, (Suc n, w\<lparr>st_home := h'\<rparr>))"
    using signed_call_server [where hs = "[]" and dr = dr and n = n and d = d and sb = "cs_bundle cs" and other = other,
        OF assms(1) key(3) _ fetch_route hd key(1,2)] by (auto simp: cbor_ok_def octets_def)
  then show ?thesis using auth(1) assms(4)
    by (intro exI [of _ "(Suc n, w\<lparr>st_home := h'\<rparr>)"] exI [of _ x]) (simp add: fetch_mailbox_def home_call_def at_world_def sread_def split: sum.split)
qed

subsection \<open>Rows on the wire\<close>

text \<open>An envelope that comes back from its encoding, and one that takes more than half a response.\<close>

definition wire_stable :: "InnerEnvelope \<Rightarrow> bool" where
  "wire_stable e \<longleftrightarrow> (\<exists>bs. encode_padded e = Ok bs \<and> decode_padded bs = Ok e \<and> length bs < 2 ^ 64)"

definition oversized :: "InnerEnvelope \<Rightarrow> bool" where
  "oversized e \<longleftrightarrow> (\<exists>bs. encode_padded e = Ok bs \<and> BODY_LIMIT < 2 * length bs)"

lemma oversized_attachment:
  assumes "inner_ok e" "is_attachment (pm_type (ie_message e))" "pm_inner_len (ie_message e) = A4"
  shows "oversized e"
proof -
  obtain bs where bs: "encode_padded e = Ok bs" using encode_padded_ok [OF assms(1)] by blast
  moreover have "length bs = A4_OUTER"
    using inner_len_of_encoded(1) [OF assms(1) bs] assms(2,3) by (simp add: outer_len_def size_defs)
  ultimately show ?thesis by (simp add: oversized_def size_defs BODY_LIMIT_def)
qed

lemma row_value:
  assumes "encode_padded (se_inner r) = Ok bs"
  shows "length bs \<le> length (write_value (Map [(0, Uint (se_seq r)), (1, Bytes bs)]))"
  by simp

lemma fetch_items_length:
  "(\<Sum>r \<leftarrow> filter (\<lambda>r. oversized (se_inner r)) rows. BODY_LIMIT div 2 + 1) \<le> length (encode (Array (fetch_items rows)))"
proof -
  have "(\<Sum>r \<leftarrow> filter (\<lambda>r. oversized (se_inner r)) rows. BODY_LIMIT div 2 + 1) \<le>
      length (concat (map write_value (fetch_items rows)))"
  proof (induction rows)
    case (Cons r rows)
    show ?case
    proof (cases "encode_padded (se_inner r)")
      case (Inr bs)
      have "BODY_LIMIT div 2 + 1 \<le> length bs" if "oversized (se_inner r)" using that Inr by (auto simp: oversized_def BODY_LIMIT_def)
      then show ?thesis using Cons row_value [OF Inr] by (auto simp: fetch_items_def List.map_filter_simps Inr simp del: write_value.simps)
    qed (use Cons in \<open>simp add: fetch_items_def List.map_filter_simps oversized_def\<close>)
  qed (simp add: fetch_items_def List.map_filter_simps)
  then show ?thesis by (simp add: encode_def)
qed

lemma fetch_items_stable:
  assumes "\<forall>r \<in> set rows. wire_stable (se_inner r)"
  shows "rmap parse_row (fetch_items rows) = Ok (map (\<lambda>r. \<lparr>mr_seq = se_seq r, mr_inner = se_inner r\<rparr>) rows)"
    and "\<forall>v \<in> set (fetch_items rows). wf_value v \<and> sorted_value v" "length (fetch_items rows) = length rows"
  using assms
  by (induction rows) (auto simp: fetch_items_def List.map_filter_simps wire_stable_def parse_row_def)

text \<open>An envelope whose body fills its bucket is stable.\<close>

lemma wire_stable_filled:
  assumes "inner_ok e" "2 + length (pm_body (ie_message e)) = pm_inner_len (ie_message e)"
    "seen_len (ie_message e) = pm_inner_len (ie_message e)"
  shows "wire_stable e"
proof -
  obtain bs where bs: "encode_padded e = Ok bs" using encode_padded_ok [OF assms(1)] by blast
  have "length bs \<le> A4_OUTER"
    using inner_len_of_encoded(1) [OF assms(1) bs] by (simp add: outer_len_def Let_def size_defs)
  moreover have "length (pm_body (ie_message e)) = pm_inner_len (ie_message e) - 2" using assms(2) by simp
  then have "decode_padded bs = Ok e"
    using decode_encode_padded [OF assms(1) bs] assms(3) by (simp add: assms(2) [symmetric])
  ultimately show ?thesis using bs by (auto simp: wire_stable_def size_defs intro: le_less_trans)
qed

lemma gc_rows_unchanged:
  assumes "\<forall>(k, r) \<in> set (mb_rows m). \<not> row_expired now (mailbox_max_age_secs lim) r" "mb_bytes m \<le> mailbox_max_bytes lim"
  shows "gc_rows now lim m = (m, [])"
proof -
  have "filter (\<lambda>(s, r). row_expired now (mailbox_max_age_secs lim) r) (mb_rows m) = []" using assms(1) by (auto simp: filter_empty_conv)
  moreover have "\<not> mailbox_max_bytes lim < mb_bytes m" using assms(2) by (simp add: not_less)
  ultimately show ?thesis by (simp add: gc_rows_def gc_loop.simps)
qed

section \<open>Properties\<close>


text \<open>
  C37. Two large attachments block a mailbox: when two due rows each take more than half of the
  response limit, the server cannot sign its answer, the client refuses what it gets, and its
  cursor stays, so that it fails again for as long as those rows are due.
\<close>

theorem large_rows_block_mailbox:
  fixes w :: AppState
  assumes "ed25519_correct C" "sha256_digest C" "owns C d (dw_clock (dr n)) cs (st_home w) m"
    and "tr_call (cs_transport cs) = server_call C dr other"
    and "2 \<le> length (filter (\<lambda>r. oversized (se_inner r)) (due_rows (cs_cursor cs) (dw_clock (dr n) 0) (hs_limits (st_home w)) m))"
  shows "\<exists>w'. fetch_mailbox C d (cs, (n, w)) = (Err UnsignedResponse, (cs, w'))"
proof -
  let ?rows = "due_rows (cs_cursor cs) (dw_clock (dr n) 0) (hs_limits (st_home w)) m"
  have "2 * (BODY_LIMIT div 2 + 1) \<le> (\<Sum>r \<leftarrow> filter (\<lambda>r. oversized (se_inner r)) ?rows. BODY_LIMIT div 2 + 1)"
    using mult_le_mono1 [OF assms(5), of "BODY_LIMIT div 2 + 1"] by (simp add: sum_list_triv)
  then have "BODY_LIMIT < length (encode (Array (fetch_items ?rows)))"
    using fetch_items_length [of ?rows] by (simp add: BODY_LIMIT_def)
  then show ?thesis using fetch_exchange [OF assms(1-4)] by (auto simp: not_le)
qed

section \<open>Witnesses\<close>

text \<open>A server with the mailbox of a client and the given envelopes in it, and that client.\<close>

definition clock30 :: "nat \<Rightarrow> Draws" where
  "clock30 n = sample_draws\<lparr>dw_clock := \<lambda>_. 30\<rparr>"

definition box_with :: "InnerEnvelope list \<Rightarrow> Mailbox" where
  "box_with es = \<lparr>mb_owner_pk = replicate 32 1, mb_next_seq = 3,
     mb_rows = map (\<lambda>(k, e). (k, \<lparr>se_seq = k, se_received_at = 20, se_expires_at = 5000, se_inner = e\<rparr>)) (zip [1, 2] es),
     mb_idempotency = [], mb_bytes = 0, mb_disabled = False\<rparr>"

definition home_with :: "InnerEnvelope list \<Rightarrow> AppState" where
  "home_with es = \<lparr>st_home = sample_home\<lparr>hs_mailboxes := [(replicate 32 1, box_with es)]\<rparr>, st_groups = sample_host\<rparr>"

definition served_session :: "world HomeSession" where
  "served_session = \<lparr>cs_transport = server_transport plain_crypto clock30 (\<lambda>_. to_http (status BAD_REQUEST)),
     cs_install = sample_install 1,
     cs_bundle = sample_bundle\<lparr>sb_server_id := hs_server_id plain_crypto sample_home, sb_sign_public := sign_public plain_crypto sample_home\<rparr>,
     cs_cursor = 0, cs_contacts = [], cs_groups = [], cs_home_base = [], cs_privacy = Normal, cs_pending_outers = [],
     cs_cover_next_ms = 0, cs_last_real_ms = 0\<rparr>"

lemma served_owns: "owns plain_crypto sample_draw (dw_clock (clock30 n)) served_session (st_home (home_with es)) (box_with es)"
proof -
  have "own_id plain_crypto served_session = replicate 32 1" by (simp add: own_id_def served_session_def sample_id)
  moreover have "in_public_key plain_crypto (cs_install served_session) = replicate 32 1" by (simp add: served_session_def sample_public)
  moreover have "hs_owner_nonces sample_home = []" by (simp add: sample_home_def)
  moreover have "hs_server_id plain_crypto (st_home (home_with es)) = hs_server_id plain_crypto sample_home"
    "sign_public plain_crypto (st_home (home_with es)) = sign_public plain_crypto sample_home"
    by (simp_all add: home_with_def hs_server_id_def sign_public_def)
  ultimately show ?thesis
    by (simp add: owns_def home_with_def hm_wf_def hm_get_def box_with_def clock30_def sample_draw_def MAX_AGE_SECS_def)
      (simp add: served_session_def plain_crypto_def sign_public_def word_le_nat_alt)
qed

lemma served_rows:
  "due_rows 0 30 default_limits (box_with es) = map (\<lambda>(k, e). \<lparr>se_seq = k, se_received_at = 20, se_expires_at = 5000, se_inner = e\<rparr>) (zip [1, 2] es)"
proof -
  have "gc_rows 30 default_limits (box_with es) = (box_with es, [])"
    by (rule gc_rows_unchanged) (auto simp: box_with_def row_expired_def default_limits_def MAILBOX_MAX_AGE_SECS_def saturating_sub_def)
  moreover have "set (zip [1, 2 :: u64] es) \<subseteq> {1, 2} \<times> UNIV" by (auto dest: set_zip_leftD)
  then have "filter (\<lambda>r. 0 < se_seq r \<and> 30 < se_expires_at r)
      (map (\<lambda>(k, e). \<lparr>se_seq = k, se_received_at = 20, se_expires_at = 5000, se_inner = e\<rparr>) (zip [1, 2] es)) =
      map (\<lambda>(k, e). \<lparr>se_seq = k, se_received_at = 20, se_expires_at = 5000, se_inner = e\<rparr>) (zip [1, 2] es)"
    by (intro filter_True) auto
  ultimately show ?thesis by (simp add: due_rows_def box_with_def comp_def case_prod_unfold)
qed

definition full_inner :: InnerEnvelope where
  "full_inner = \<lparr>ie_capability = replicate 32 7, ie_ttl = TtlBucket 2, ie_idempotency = replicate 32 9,
     ie_message = \<lparr>pm_type = MlsApp, pm_body = replicate 1022 5, pm_inner_len = 1024\<rparr>\<rparr>"

definition large_inner :: InnerEnvelope where
  "large_inner = \<lparr>ie_capability = replicate 32 7, ie_ttl = TtlBucket 2, ie_idempotency = replicate 32 9,
     ie_message = \<lparr>pm_type = AttachmentDr, pm_body = [], pm_inner_len = A4\<rparr>\<rparr>"

lemma full_inner_facts: "inner_ok full_inner" "wire_stable full_inner"
proof -
  show ok: "inner_ok full_inner" by (simp add: full_inner_def inner_ok_def padded_ok_def buckets_def is_attachment_def size_defs)
  have "length (pm_encode (ie_message full_inner)) = T1" by (simp add: pm_encode_def full_inner_def size_defs)
  then have "zero_from T1 (pm_encode (ie_message full_inner))" by (simp add: zero_from_def)
  then show "wire_stable full_inner"
    by (intro wire_stable_filled [OF ok]) (simp_all add: full_inner_def seen_len_def is_attachment_def size_defs)
qed

lemma large_inner_oversized: "oversized large_inner"
  by (rule oversized_attachment)
    (simp_all add: large_inner_def inner_ok_def padded_ok_def buckets_def is_attachment_def size_defs)


theorem large_rows_block_mailbox_witness:
  "\<exists>w'. fetch_mailbox plain_crypto sample_draw (served_session, (0, home_with [large_inner, large_inner])) =
     (Err UnsignedResponse, (served_session, w'))"
proof -
  have "2 \<le> length (filter (\<lambda>r. oversized (se_inner r)) (due_rows (cs_cursor served_session) (dw_clock (clock30 0) 0)
      (hs_limits (st_home (home_with [large_inner, large_inner]))) (box_with [large_inner, large_inner])))"
    by (simp add: served_session_def clock30_def home_with_def sample_lookups(5) served_rows large_inner_oversized)
  from large_rows_block_mailbox [where dr = clock30 and n = 0, OF _ _ served_owns _ this] show ?thesis by (simp add: served_session_def server_transport_def)
qed

end
