(* ===== verification/Mls_Group.thy ===== *)
theory Mls_Group
  imports Client_Identity
begin

text \<open>
  The client's groups, \<open>nemo-core/src/group.rs\<close>: the profile under which a client takes part in an
  MLS group. OpenMLS is the argument \<open>M\<close>: parsers, the processing and the staging of messages.
  What the code reads of its objects (the leaves of the tree, the proposals of a commit, the
  members) are the fields of the records below; the rest of an object is opaque bytes.
  Entropy and clock readings are arguments; a \<open>SystemTime\<close> is a number of nanoseconds since
  the epoch.
\<close>

section \<open>Model\<close>

subsection \<open>What the code reads of OpenMLS\<close>

type_synonym u16 = "16 word"
type_synonym storage = "(bytes, bytes) hashmap"
type_synonym extensions = "(u16 \<times> bytes) list"

datatype MlsCredential = BasicCredential bytes | OtherCredential

record Leaf =
  lf_extensions :: extensions
  lf_signature_key :: bytes
  lf_credential :: MlsCredential

record Member =
  mm_index :: nat
  mm_credential :: MlsCredential
  mm_signature_key :: bytes

datatype Sender = Member nat | OtherSender

datatype Proposal = AddP Leaf | UpdateP Leaf | RemoveP nat | ExternalInitP | ReInitP | OtherP

record QueuedProposal =
  qp_sender :: Sender
  qp_proposal :: Proposal

record StagedCommit =
  sc_queued :: "QueuedProposal list"
  sc_path_leaf :: "Leaf option"
  sc_raw :: bytes

datatype Content =
    OwnPendingCommit
  | OwnPrivateMessage
  | StagedCommitMessage StagedCommit
  | ExternalJoinProposalMessage
  | ProposalMessage Proposal
  | ApplicationMessage bytes

record ProcessedMessage =
  pr_sender :: Sender
  pr_content :: Content

text \<open>\<open>mg_tree\<close> are the leaves of the ratchet tree with their indices; \<open>mg_active\<close> says that the own leaf
  has not been removed.\<close>

record MlsGroup =
  mg_group_id :: bytes
  mg_epoch :: u64
  mg_ciphersuite :: u16
  mg_tree :: "(nat \<times> Leaf) list"
  mg_own :: nat
  mg_active :: bool
  mg_pending :: "StagedCommit option"
  mg_secrets :: bytes

definition mg_members :: "MlsGroup \<Rightarrow> Member list" where
  "mg_members m = map (\<lambda>(i, l). \<lparr>mm_index = i, mm_credential = lf_credential l, mm_signature_key = lf_signature_key l\<rparr>) (mg_tree m)"

definition mg_own_leaf :: "MlsGroup \<Rightarrow> Leaf option" where
  "mg_own_leaf m = map_of (mg_tree m) (mg_own m)"

record SignatureKeyPair =
  sp_private :: bytes
  sp_public :: bytes

record KeyPackage =
  kp_ciphersuite :: u16
  kp_leaf :: Leaf
  kp_raw :: bytes

text \<open>The body of a message: a Welcome with the references of the new members, a protocol message
  with its epoch, or something else.\<close>

datatype MlsBody = WelcomeBody "bytes list" bytes | ProtocolBody u64 bytes | OtherBody

datatype ProcessError = WrongEpoch | ProcessFailed string

type_synonym mls = "MlsGroup \<times> storage"

record openmls =
  om_exact :: "bytes \<Rightarrow> MlsBody option"
  om_prefix :: "bytes \<Rightarrow> string + MlsBody"
  om_protocol :: "MlsBody \<Rightarrow> string + u64 \<times> bytes"
  om_process :: "u64 \<times> bytes \<Rightarrow> mls \<Rightarrow> (ProcessError + ProcessedMessage) \<times> mls"
  om_merge_pending :: "mls \<Rightarrow> (string + unit) \<times> mls"
  om_merge_staged :: "StagedCommit \<Rightarrow> mls \<Rightarrow> (string + unit) \<times> mls"
  om_clear_pending :: "mls \<Rightarrow> (string + unit) \<times> mls"
  om_create_message :: "bytes \<Rightarrow> SignatureKeyPair \<Rightarrow> bytes \<Rightarrow> mls \<Rightarrow> (string + bytes) \<times> mls"
  om_self_update :: "bytes \<Rightarrow> SignatureKeyPair \<Rightarrow> extensions \<Rightarrow> mls \<Rightarrow> (string + bytes) \<times> mls"
  om_self_update_signer :: "bytes \<Rightarrow> SignatureKeyPair \<Rightarrow> SignatureKeyPair \<Rightarrow> MlsCredential \<Rightarrow> extensions \<Rightarrow> mls \<Rightarrow> (string + bytes) \<times> mls"
  om_add_member :: "bytes \<Rightarrow> SignatureKeyPair \<Rightarrow> KeyPackage \<Rightarrow> mls \<Rightarrow> (string + bytes \<times> bytes) \<times> mls"
  om_remove_member :: "bytes \<Rightarrow> SignatureKeyPair \<Rightarrow> nat \<Rightarrow> mls \<Rightarrow> (string + bytes) \<times> mls"
  om_serialize :: "bytes \<Rightarrow> string + bytes"
  om_load :: "bytes \<Rightarrow> storage \<Rightarrow> string + MlsGroup option"
  om_new_group :: "bytes \<Rightarrow> SignatureKeyPair \<Rightarrow> extensions \<Rightarrow> MlsCredential \<Rightarrow> storage \<Rightarrow> (string + MlsGroup) \<times> storage"
  om_key_package :: "bytes \<Rightarrow> extensions \<Rightarrow> SignatureKeyPair \<Rightarrow> MlsCredential \<Rightarrow> storage \<Rightarrow> (string + bytes) \<times> storage"
  om_read_key_package :: "bytes \<Rightarrow> string + KeyPackage"
  om_key_package_ref :: "KeyPackage \<Rightarrow> string + bytes"
  om_join :: "extensions \<Rightarrow> bytes \<Rightarrow> storage \<Rightarrow> (string + MlsGroup) \<times> storage"
  om_extensions :: "extensions \<Rightarrow> string + unit"
  om_leaf_config :: "extensions \<Rightarrow> string + unit"
  om_store_signer :: "SignatureKeyPair \<Rightarrow> storage \<Rightarrow> (string + unit) \<times> storage"
  om_signer_encode :: "SignatureKeyPair \<Rightarrow> string + bytes"
  om_signer_decode :: "bytes \<Rightarrow> string + SignatureKeyPair"

subsection \<open>Constants and records\<close>

definition CIPHERSUITE :: u16 where "CIPHERSUITE = 3"
definition CREDENTIAL_ID_EXT :: u16 where "CREDENTIAL_ID_EXT = 0xF001"
definition GROUP_SIGNING_EXT :: u16 where "GROUP_SIGNING_EXT = 0xF002"

definition duration_secs :: "int \<Rightarrow> int" where
  "duration_secs s = s * 1000000000"

definition UPDATE_BEFORE_SEND :: int where "UPDATE_BEFORE_SEND = duration_secs (72 * 3600)"
definition UPDATE_INTERVAL :: int where "UPDATE_INTERVAL = duration_secs (7 * 24 * 3600)"
definition UPDATE_ON_ONLINE :: int where "UPDATE_ON_ONLINE = duration_secs (24 * 3600)"

record ClientJoin =
  pj_credential_id :: key
  pj_mls_signer :: SignatureKeyPair
  pj_group_signing :: bytes
  pj_key_package :: bytes

datatype PendingKind = Update | Add | Remove | SigningKeyRotate

record PendingOwn =
  po_kind :: PendingKind
  po_new_signer :: "bytes option"

datatype HandshakeOutcome = Applied | OwnCommitMerged | OwnCommitSuperseded

record Group =
  cg_mls :: MlsGroup
  cg_mls_signer :: SignatureKeyPair
  cg_group_signing :: bytes
  cg_credential_id :: key
  cg_credential_ids :: "(nat, key) hashmap"
  cg_last_own_update :: int
  cg_pending :: "PendingOwn option"
  cg_announced_keys :: "(bytes, key) hashmap"

type_synonym gst = "Group \<times> storage"

text \<open>A call of OpenMLS on the group: its error becomes \<open>CoreError::Mls\<close>.\<close>

abbreviation mls_err :: "string + 'a \<Rightarrow> 'a cresult" where
  "mls_err \<equiv> map_err Mls"

definition on_mls :: "(mls \<Rightarrow> (string + 'a) \<times> mls) \<Rightarrow> gst \<Rightarrow> 'a cresult \<times> gst" where
  "on_mls f s = (case f (cg_mls (fst s), snd s) of (r, m, st) \<Rightarrow> (mls_err r, (fst s)\<lparr>cg_mls := m\<rparr>, st))"

subsection \<open>Leaves\<close>

definition extension_bytes :: "extensions \<Rightarrow> u16 \<Rightarrow> bytes option" where
  "extension_bytes exts ty = map_of exts ty"

definition identity_pk_from_credential :: "MlsCredential \<Rightarrow> key cresult" where
  "identity_pk_from_credential c =
     (case c of
        BasicCredential b \<Rightarrow> map_err (\<lambda>_. Mls ''identity must be 32 bytes'') (copy_fixed KEY_LEN b)
      | OtherCredential \<Rightarrow> Err (Mls ''basic credential''))"

definition check_new_leaf :: "Leaf \<Rightarrow> key cresult" where
  "check_new_leaf leaf =
     rbind (ok_or (extension_bytes (lf_extensions leaf) CREDENTIAL_ID_EXT) LeafExtensionViolation) (\<lambda>cid.
     rbind (map_err (\<lambda>_. LeafExtensionViolation) (copy_fixed KEY_LEN cid)) (\<lambda>cid.
     rbind (ok_or (extension_bytes (lf_extensions leaf) GROUP_SIGNING_EXT) LeafExtensionViolation) (\<lambda>gsk.
     if gsk \<noteq> lf_signature_key leaf then Err LeafExtensionViolation
     else rbind (identity_pk_from_credential (lf_credential leaf)) (\<lambda>_. Ok cid))))"

definition leaf_extensions :: "openmls \<Rightarrow> key \<Rightarrow> key \<Rightarrow> extensions cresult" where
  "leaf_extensions M cid pk =
     (let exts = [(CREDENTIAL_ID_EXT, cid), (GROUP_SIGNING_EXT, pk)] in
      rbind (mls_err (om_extensions M exts)) (\<lambda>_. Ok exts))"

definition group_create_config :: "openmls \<Rightarrow> extensions \<Rightarrow> extensions cresult" where
  "group_create_config M leaf = rbind (mls_err (om_leaf_config M leaf)) (\<lambda>_. Ok leaf)"

definition signer_of :: "crypto \<Rightarrow> bytes \<Rightarrow> SignatureKeyPair" where
  "signer_of C sk = \<lparr>sp_private = sk, sp_public = lib_ed_public C sk\<rparr>"

definition new_group_keys :: "crypto \<Rightarrow> openmls \<Rightarrow> bytes \<Rightarrow> storage \<Rightarrow> (SignatureKeyPair \<times> bytes) cresult \<times> storage" where
  "new_group_keys C M sk st =
     (case om_store_signer M (signer_of C sk) st of
        (r, st) \<Rightarrow> (rbind (mls_err r) (\<lambda>_. Ok (signer_of C sk, sk)), st))"

definition validate_key_package :: "openmls \<Rightarrow> bytes \<Rightarrow> KeyPackage cresult" where
  "validate_key_package M bs = mls_err (om_read_key_package M bs)"

definition key_package_identity_pk :: "openmls \<Rightarrow> bytes \<Rightarrow> key cresult" where
  "key_package_identity_pk M bs =
     rbind (validate_key_package M bs) (\<lambda>kp. identity_pk_from_credential (lf_credential (kp_leaf kp)))"

definition key_package_credential_id :: "openmls \<Rightarrow> bytes \<Rightarrow> key cresult" where
  "key_package_credential_id M bs = rbind (validate_key_package M bs) (\<lambda>kp. check_new_leaf (kp_leaf kp))"

definition key_package_signing_pk :: "openmls \<Rightarrow> bytes \<Rightarrow> key cresult" where
  "key_package_signing_pk M bs =
     rbind (validate_key_package M bs) (\<lambda>kp.
       map_err (\<lambda>_. LeafExtensionViolation) (copy_fixed KEY_LEN (lf_signature_key (kp_leaf kp))))"

subsection \<open>Messages and proposals\<close>

definition decode_mls :: "openmls \<Rightarrow> bytes \<Rightarrow> MlsBody cresult" where
  "decode_mls M bs = (case om_exact M bs of Some b \<Rightarrow> Ok b | None \<Rightarrow> mls_err (om_prefix M bs))"

definition serialize_msg :: "openmls \<Rightarrow> bytes \<Rightarrow> bytes cresult" where
  "serialize_msg M msg = mls_err (om_serialize M msg)"

definition sc_adds :: "StagedCommit \<Rightarrow> Leaf list" where
  "sc_adds c = List.map_filter (\<lambda>q. case qp_proposal q of AddP l \<Rightarrow> Some l | _ \<Rightarrow> None) (sc_queued c)"

definition sc_updates :: "StagedCommit \<Rightarrow> (Sender \<times> Leaf) list" where
  "sc_updates c = List.map_filter (\<lambda>q. case qp_proposal q of UpdateP l \<Rightarrow> Some (qp_sender q, l) | _ \<Rightarrow> None) (sc_queued c)"

definition sc_removes :: "StagedCommit \<Rightarrow> nat list" where
  "sc_removes c = List.map_filter (\<lambda>q. case qp_proposal q of RemoveP i \<Rightarrow> Some i | _ \<Rightarrow> None) (sc_queued c)"

definition is_reinit :: "Proposal \<Rightarrow> bool" where
  "is_reinit p \<longleftrightarrow> p = ReInitP"

definition is_external_commit :: "StagedCommit \<Rightarrow> bool" where
  "is_external_commit c \<longleftrightarrow> list_ex (\<lambda>q. qp_proposal q = ExternalInitP \<or> qp_proposal q = ReInitP) (sc_queued c)"

definition staged_remove_count :: "StagedCommit \<Rightarrow> nat" where
  "staged_remove_count c = length (sc_removes c)"

definition pending_kind_code :: "PendingKind option \<Rightarrow> u64" where
  "pending_kind_code k = (case k of None \<Rightarrow> 0 | Some Update \<Rightarrow> 1 | Some Add \<Rightarrow> 2 | Some Remove \<Rightarrow> 3 | Some SigningKeyRotate \<Rightarrow> 4)"

definition pending_kind_from_code :: "u64 \<Rightarrow> PendingKind option" where
  "pending_kind_from_code c =
     (if c = 1 then Some Update else if c = 2 then Some Add else if c = 3 then Some Remove
      else if c = 4 then Some SigningKeyRotate else None)"

subsection \<open>What a group knows\<close>

definition group_signing_public :: "crypto \<Rightarrow> Group \<Rightarrow> key" where
  "group_signing_public C g = lib_ed_public C (cg_group_signing g)"

definition member_credential_ids :: "Group \<Rightarrow> key list" where
  "member_credential_ids g = remdups_adj (sort (map snd (cg_credential_ids g)))"

definition member_identity_ids :: "crypto \<Rightarrow> Group \<Rightarrow> key list" where
  "member_identity_ids C g = remdups_adj (sort (List.map_filter
     (\<lambda>m. case identity_pk_from_credential (mm_credential m) of Ok pk \<Rightarrow> Some (identity_id C pk) | Err _ \<Rightarrow> None)
     (mg_members (cg_mls g))))"

text \<open>\<open>find_map\<close> over the members: a member of that identity without a known id is passed over.\<close>

definition credential_id_for_identity :: "crypto \<Rightarrow> key \<Rightarrow> Group \<Rightarrow> key option" where
  "credential_id_for_identity C i g =
     (case List.map_filter
         (\<lambda>m. case identity_pk_from_credential (mm_credential m) of
                Ok pk \<Rightarrow> if identity_id C pk = i then hm_get (cg_credential_ids g) (mm_index m) else None
              | Err _ \<Rightarrow> None)
         (mg_members (cg_mls g)) of [] \<Rightarrow> None | c # _ \<Rightarrow> Some c)"

definition member_at :: "nat \<Rightarrow> Group \<Rightarrow> Member option" where
  "member_at i g = find (\<lambda>m. mm_index m = i) (mg_members (cg_mls g))"

definition leaf_index_for :: "key \<Rightarrow> Group \<Rightarrow> nat option" where
  "leaf_index_for cid g = map_option fst (find (\<lambda>p. snd p = cid) (cg_credential_ids g))"

definition credential_id_at :: "nat \<Rightarrow> Group \<Rightarrow> key option" where
  "credential_id_at i g = hm_get (cg_credential_ids g) i"

definition group_signing_at :: "crypto \<Rightarrow> nat \<Rightarrow> Group \<Rightarrow> key option" where
  "group_signing_at C i g =
     (case member_at i g of
        None \<Rightarrow> None
      | Some m \<Rightarrow>
          if length (mm_signature_key m) = KEY_LEN \<and> lib_ed_point C (mm_signature_key m)
          then Some (mm_signature_key m) else None)"

definition needs_scheduled_update :: "int \<Rightarrow> Group \<Rightarrow> bool" where
  "needs_scheduled_update now g \<longleftrightarrow> now < cg_last_own_update g \<or> now - cg_last_own_update g \<ge> UPDATE_INTERVAL"

definition needs_online_update :: "int \<Rightarrow> Group \<Rightarrow> bool" where
  "needs_online_update now g \<longleftrightarrow> now < cg_last_own_update g \<or> now - cg_last_own_update g \<ge> UPDATE_ON_ONLINE"

definition ensure_fresh_update :: "int \<Rightarrow> Group \<Rightarrow> unit cresult" where
  "ensure_fresh_update now g =
     (let age = (if now < cg_last_own_update g then 0 else now - cg_last_own_update g) in
      if age > UPDATE_BEFORE_SEND then Err StaleMlsUpdate else Ok ())"

definition ensure_no_pending :: "Group \<Rightarrow> unit cresult" where
  "ensure_no_pending g = (if cg_pending g \<noteq> None then Err PendingCommit else Ok ())"

definition own_identity_pk :: "Group \<Rightarrow> key cresult" where
  "own_identity_pk g =
     rbind (ok_or (mg_own_leaf (cg_mls g)) (Mls ''own leaf missing'')) (\<lambda>l. identity_pk_from_credential (lf_credential l))"

definition own_leaf_extensions :: "crypto \<Rightarrow> openmls \<Rightarrow> Group \<Rightarrow> extensions cresult" where
  "own_leaf_extensions C M g = leaf_extensions M (cg_credential_id g) (group_signing_public C g)"

text \<open>The two loops of \<open>sync_credential_ids\<close>: credential ids by signature key, then by leaf.\<close>

definition ids_by_key :: "Leaf list \<Rightarrow> (bytes, key) hashmap" where
  "ids_by_key leaves = hm_collect (List.map_filter
     (\<lambda>l. case extension_bytes (lf_extensions l) CREDENTIAL_ID_EXT of
            Some b \<Rightarrow> (case copy_fixed KEY_LEN b of Ok cid \<Rightarrow> Some (lf_signature_key l, cid) | Err _ \<Rightarrow> None)
          | None \<Rightarrow> None) leaves)"

definition ids_by_leaf :: "MlsGroup \<Rightarrow> (nat, key) hashmap" where
  "ids_by_leaf m = hm_collect (List.map_filter
     (\<lambda>mm. map_option (\<lambda>c. (mm_index mm, c)) (hm_get (ids_by_key (map snd (mg_tree m))) (mm_signature_key mm)))
     (mg_members m))"

definition sync_credential_ids :: "Group \<Rightarrow> Group" where
  "sync_credential_ids g =
     (let live = map mm_signature_key (mg_members (cg_mls g)) in
      g\<lparr>cg_credential_ids := ids_by_leaf (cg_mls g),
        cg_announced_keys := hm_retain (\<lambda>old _. old \<in> set live) (cg_announced_keys g)\<rparr>)"

subsection \<open>Checks on a commit\<close>

definition check_leaf_update :: "nat \<Rightarrow> Leaf \<Rightarrow> Group \<Rightarrow> unit cresult" where
  "check_leaf_update i leaf g =
     rbind (check_new_leaf leaf) (\<lambda>cid.
     if (case hm_get (cg_credential_ids g) i of Some prev \<Rightarrow> prev \<noteq> cid | None \<Rightarrow> False) then Err LeafExtensionViolation
     else
       (case member_at i g of
          None \<Rightarrow> Err LeafExtensionViolation
        | Some m \<Rightarrow>
            if mm_signature_key m \<noteq> lf_signature_key leaf then
              rbind (map_err (\<lambda>_. LeafExtensionViolation) (copy_fixed KEY_LEN (lf_signature_key leaf))) (\<lambda>new.
              if hm_get (cg_announced_keys g) (mm_signature_key m) \<noteq> Some new then Err UnannouncedSignerChange else Ok ())
            else Ok ()))"

fun check_updates :: "(Sender \<times> Leaf) list \<Rightarrow> Group \<Rightarrow> unit cresult" where
  "check_updates [] g = Ok ()"
| "check_updates ((Member i, l) # us) g = rbind (check_leaf_update i l g) (\<lambda>_. check_updates us g)"
| "check_updates ((OtherSender, l) # us) g = Err ExternalMlsJoin"

fun check_adds :: "Leaf list \<Rightarrow> Group \<Rightarrow> unit cresult" where
  "check_adds [] g = Ok ()"
| "check_adds (l # ls) g =
     rbind (check_new_leaf l) (\<lambda>cid.
     if list_ex (\<lambda>c. c = cid) (map snd (cg_credential_ids g)) then Err LeafExtensionViolation else check_adds ls g)"

definition check_path :: "Leaf option \<Rightarrow> Sender \<Rightarrow> Group \<Rightarrow> unit cresult" where
  "check_path path sender g =
     (case path of
        None \<Rightarrow> Ok ()
      | Some l \<Rightarrow> (case sender of Member i \<Rightarrow> check_leaf_update i l g | OtherSender \<Rightarrow> Err ExternalMlsJoin))"

definition validate_commit :: "StagedCommit \<Rightarrow> Sender \<Rightarrow> Group \<Rightarrow> unit cresult" where
  "validate_commit c sender g =
     rbind (check_updates (sc_updates c) g) (\<lambda>_.
     rbind (check_path (sc_path_leaf c) sender g) (\<lambda>_.
     check_adds (sc_adds c) g))"

fun staged_remove_loop :: "key \<Rightarrow> nat list \<Rightarrow> nat \<Rightarrow> Group \<Rightarrow> bool" where
  "staged_remove_loop cid [] n g = (n = 1)"
| "staged_remove_loop cid (i # is) n g = (if credential_id_at i g = Some cid then staged_remove_loop cid is (Suc n) g else False)"

definition staged_remove_matches :: "StagedCommit \<Rightarrow> key \<Rightarrow> Group \<Rightarrow> bool" where
  "staged_remove_matches c cid g = staged_remove_loop cid (sc_removes c) 0 g"

subsection \<open>Applying handshakes\<close>

definition cg_process :: "openmls \<Rightarrow> bytes \<Rightarrow> gst \<Rightarrow> ProcessedMessage cresult \<times> gst" where
  "cg_process M bs s =
     sread (rbind (decode_mls M bs) (\<lambda>b. mls_err (om_protocol M b))) s (\<lambda>p.
     case om_process M p (cg_mls (fst s), snd s) of
       (r, m, st) \<Rightarrow>
         (map_err (\<lambda>e. case e of WrongEpoch \<Rightarrow> MlsWrongEpoch | ProcessFailed t \<Rightarrow> Mls t) r, (fst s)\<lparr>cg_mls := m\<rparr>, st))"

definition take_signer :: "crypto \<Rightarrow> Group \<Rightarrow> Group" where
  "take_signer C g =
     (case cg_pending g of
        None \<Rightarrow> g
      | Some p \<Rightarrow>
          (case po_new_signer p of
             None \<Rightarrow> g\<lparr>cg_pending := None\<rparr>
           | Some sk \<Rightarrow> g\<lparr>cg_pending := None, cg_mls_signer := signer_of C sk, cg_group_signing := sk\<rparr>))"

definition finish_own_commit :: "crypto \<Rightarrow> openmls \<Rightarrow> int \<Rightarrow> gst \<Rightarrow> HandshakeOutcome cresult \<times> gst" where
  "finish_own_commit C M now s =
     sbind (on_mls (om_merge_pending M) s) (\<lambda>_ s.
       (Ok OwnCommitMerged, (sync_credential_ids ((take_signer C (fst s))\<lparr>cg_last_own_update := now\<rparr>), snd s)))"

definition merge_foreign :: "openmls \<Rightarrow> StagedCommit \<Rightarrow> gst \<Rightarrow> HandshakeOutcome cresult \<times> gst" where
  "merge_foreign M c s =
     (let had = cg_pending (fst s) \<noteq> None in
      sbind (on_mls (om_merge_staged M c) s) (\<lambda>_ s.
        (Ok (if had then OwnCommitSuperseded else Applied), (sync_credential_ids ((fst s)\<lparr>cg_pending := None\<rparr>), snd s))))"

definition apply_handshake :: "crypto \<Rightarrow> openmls \<Rightarrow> int \<Rightarrow> bytes \<Rightarrow> gst \<Rightarrow> HandshakeOutcome cresult \<times> gst" where
  "apply_handshake C M now msg s =
     sbind (cg_process M msg s) (\<lambda>p s.
     case pr_content p of
       OwnPendingCommit \<Rightarrow> finish_own_commit C M now s
     | OwnPrivateMessage \<Rightarrow>
         if cg_pending (fst s) \<noteq> None then finish_own_commit C M now s
         else (Err (Mls ''own private message in handshake path''), s)
     | StagedCommitMessage c \<Rightarrow>
         if is_external_commit c then (Err ExternalMlsJoin, s)
         else if staged_remove_count c > 0 then (Err UnframedRemove, s)
         else sread (validate_commit c (pr_sender p) (fst s)) s (\<lambda>_. merge_foreign M c s)
     | ExternalJoinProposalMessage \<Rightarrow> (Err ExternalMlsJoin, s)
     | ProposalMessage q \<Rightarrow>
         (Err (if is_reinit q then MlsReinit else Mls ''standalone proposal is not used in v1''), s)
     | ApplicationMessage _ \<Rightarrow> (Err (Mls ''handshake path got an application message''), s))"

definition apply_remove_bundle :: "crypto \<Rightarrow> openmls \<Rightarrow> int \<Rightarrow> key \<Rightarrow> RemoveBundle \<Rightarrow> gst \<Rightarrow> HandshakeOutcome cresult \<times> gst" where
  "apply_remove_bundle C M now gid b s =
     sbind (cg_process M (rb_mls_commit b) s) (\<lambda>p s.
     if pr_content p \<in> {OwnPendingCommit, OwnPrivateMessage} \<and> cg_pending (fst s) \<noteq> None then finish_own_commit C M now s
     else
       sread (case pr_sender p of
                Member i \<Rightarrow> ok_or (group_signing_at C i (fst s)) BadRemoveBundle
              | OtherSender \<Rightarrow> Err ExternalMlsJoin) s (\<lambda>pk.
       sread (lift (rb_verify_sidecar C b pk gid)) s (\<lambda>_.
       case pr_content p of
         StagedCommitMessage c \<Rightarrow>
           if is_external_commit c then (Err ExternalMlsJoin, s)
           else if staged_remove_count c \<noteq> 1 then (Err BadRemoveBundle, s)
           else if \<not> staged_remove_matches c (rb_credential_id b) (fst s) then (Err BadRemoveBundle, s)
           else sread (validate_commit c (pr_sender p) (fst s)) s (\<lambda>_. merge_foreign M c s)
       | _ \<Rightarrow> (Err (Mls ''RemoveBundle body is not a Commit''), s))))"

fun replace_signer :: "crypto \<Rightarrow> SigningKeyReplace \<Rightarrow> Member list \<Rightarrow> bytes option" where
  "replace_signer C r [] = None"
| "replace_signer C r (m # ms) =
     (if length (mm_signature_key m) = KEY_LEN \<and> lib_ed_point C (mm_signature_key m) \<and>
         skr_verify C r (mm_signature_key m) = Ok ()
      then Some (mm_signature_key m) else replace_signer C r ms)"

definition apply_signing_key_replace :: "crypto \<Rightarrow> bytes \<Rightarrow> gst \<Rightarrow> unit cresult \<times> gst" where
  "apply_signing_key_replace C body s =
     sread (lift (skr_decode body)) s (\<lambda>r.
     case replace_signer C r (mg_members (cg_mls (fst s))) of
       Some old \<Rightarrow> (Ok (), (fst s)\<lparr>cg_announced_keys := hm_insert old (skr_new_public r) (cg_announced_keys (fst s))\<rparr>, snd s)
     | None \<Rightarrow> (Err UnannouncedSignerChange, s))"

subsection \<open>Own commits\<close>

definition discard_pending :: "openmls \<Rightarrow> gst \<Rightarrow> unit cresult \<times> gst" where
  "discard_pending M s = sbind (on_mls (om_clear_pending M) s) (\<lambda>_ s. (Ok (), (fst s)\<lparr>cg_pending := None\<rparr>, snd s))"

definition stage :: "PendingKind \<Rightarrow> bytes option \<Rightarrow> gst \<Rightarrow> gst" where
  "stage k signer s = ((fst s)\<lparr>cg_pending := Some \<lparr>po_kind = k, po_new_signer = signer\<rparr>\<rparr>, snd s)"

definition self_update :: "crypto \<Rightarrow> openmls \<Rightarrow> bytes \<Rightarrow> int \<Rightarrow> gst \<Rightarrow> bytes cresult \<times> gst" where
  "self_update C M e now s =
     sread (ensure_no_pending (fst s)) s (\<lambda>_.
     sread (own_leaf_extensions C M (fst s)) s (\<lambda>exts.
     sbind (on_mls (om_self_update M e (cg_mls_signer (fst s)) exts) s) (\<lambda>commit s.
       let s = stage Update None s; s = ((fst s)\<lparr>cg_last_own_update := now\<rparr>, snd s) in
       (serialize_msg M commit, s))))"

definition maybe_self_update :: "crypto \<Rightarrow> openmls \<Rightarrow> bytes \<Rightarrow> int \<Rightarrow> int \<Rightarrow> gst \<Rightarrow> bytes option cresult \<times> gst" where
  "maybe_self_update C M e now clock s =
     (if cg_pending (fst s) \<noteq> None then (Ok None, s)
      else if needs_scheduled_update now (fst s) \<or> needs_online_update now (fst s) then
        sbind (self_update C M e clock s) (\<lambda>b s. (Ok (Some b), s))
      else (Ok None, s))"

definition rotate_signing_key :: "crypto \<Rightarrow> openmls \<Rightarrow> bytes \<Rightarrow> bytes \<Rightarrow> gst \<Rightarrow> (SigningKeyReplace \<times> bytes) cresult \<times> gst" where
  "rotate_signing_key C M e sk s =
     sread (ensure_no_pending (fst s)) s (\<lambda>_.
     sbind (case new_group_keys C M sk (snd s) of (r, st) \<Rightarrow> (r, (fst s, st))) (\<lambda>(new_mls, new_signing) s.
     sread (lift (skr_sign C (cg_group_signing (fst s)) (lib_ed_public C new_signing))) s (\<lambda>replace.
     sread (leaf_extensions M (cg_credential_id (fst s)) (lib_ed_public C new_signing)) s (\<lambda>exts.
     sread (own_identity_pk (fst s)) s (\<lambda>pk.
     sbind (on_mls (om_self_update_signer M e (cg_mls_signer (fst s)) new_mls (BasicCredential pk) exts) s) (\<lambda>commit s.
       let s = stage SigningKeyRotate (Some new_signing) s in
       sread (serialize_msg M commit) s (\<lambda>bs. (Ok (replace, bs), s))))))))"

definition cg_admit :: "openmls \<Rightarrow> bytes \<Rightarrow> bytes \<Rightarrow> key \<Rightarrow> gst \<Rightarrow> (bytes \<times> bytes) cresult \<times> gst" where
  "cg_admit M e kp_bytes expected s =
     sread (ensure_no_pending (fst s)) s (\<lambda>_.
     sread (validate_key_package M kp_bytes) s (\<lambda>kp.
     if kp_ciphersuite kp \<noteq> CIPHERSUITE then (Err WrongCiphersuite, s)
     else
       sread (check_new_leaf (kp_leaf kp)) s (\<lambda>cid.
       if cid \<noteq> expected then (Err CredentialIdMismatch, s)
       else if list_ex (\<lambda>c. c = cid) (map snd (cg_credential_ids (fst s))) then (Err CredentialIdMismatch, s)
       else
         sbind (on_mls (om_add_member M e (cg_mls_signer (fst s)) kp) s) (\<lambda>(commit, welcome) s.
           let s = stage Add None s in
           sread (serialize_msg M commit) s (\<lambda>c.
           sread (serialize_msg M welcome) s (\<lambda>w. (Ok (c, w), s)))))))"

definition cg_remove :: "crypto \<Rightarrow> openmls \<Rightarrow> bytes \<Rightarrow> key \<Rightarrow> key \<Rightarrow> gst \<Rightarrow> RemoveBundle cresult \<times> gst" where
  "cg_remove C M e gid cid s =
     sread (ensure_no_pending (fst s)) s (\<lambda>_.
     sread (ok_or (leaf_index_for cid (fst s)) BadRemoveBundle) s (\<lambda>i.
     sbind (on_mls (om_remove_member M e (cg_mls_signer (fst s)) i) s) (\<lambda>commit s.
       let s = stage Remove None s in
       sread (serialize_msg M commit) s (\<lambda>c.
       (lift (rb_sign C (cg_group_signing (fst s)) gid cid c), s)))))"

subsection \<open>Application messages and mailboxes\<close>

definition cg_encrypt :: "openmls \<Rightarrow> bytes \<Rightarrow> int \<Rightarrow> bytes \<Rightarrow> gst \<Rightarrow> bytes cresult \<times> gst" where
  "cg_encrypt M e now plaintext s =
     sread (ensure_fresh_update now (fst s)) s (\<lambda>_.
     sbind (on_mls (om_create_message M e (cg_mls_signer (fst s)) plaintext) s) (\<lambda>out s. (serialize_msg M out, s)))"

definition decrypt_with_sender :: "crypto \<Rightarrow> openmls \<Rightarrow> bytes \<Rightarrow> gst \<Rightarrow> (bytes \<times> key) cresult \<times> gst" where
  "decrypt_with_sender C M ciphertext s =
     sbind (cg_process M ciphertext s) (\<lambda>p s.
     sread (case pr_sender p of
              Member i \<Rightarrow>
                rbind (ok_or (member_at i (fst s)) (Mls ''unknown message sender'')) (\<lambda>m.
                rbind (identity_pk_from_credential (mm_credential m)) (\<lambda>pk. Ok (identity_id C pk)))
            | OtherSender \<Rightarrow> Err ExternalMlsJoin) s (\<lambda>sender.
     case pr_content p of
       ApplicationMessage b \<Rightarrow> (Ok (b, sender), s)
     | _ \<Rightarrow> (Err (Mls ''expected application message''), s)))"

definition encrypt_group_mailbox :: "crypto \<Rightarrow> openmls \<Rightarrow> key \<times> bytes \<Rightarrow> bytes \<Rightarrow> int \<Rightarrow> key \<Rightarrow> key \<Rightarrow> TtlBucket \<Rightarrow> bytes \<Rightarrow> gst \<Rightarrow> OuterEnvelope cresult \<times> gst" where
  "encrypt_group_mailbox C M r e now dest cap ttl plaintext s =
     sbind (cg_encrypt M e now plaintext s) (\<lambda>body s. (wrap C r dest cap ttl MlsApp body, s))"

definition decrypt_group_mailbox :: "crypto \<Rightarrow> openmls \<Rightarrow> InnerEnvelope \<Rightarrow> gst \<Rightarrow> (bytes \<times> key) cresult \<times> gst" where
  "decrypt_group_mailbox C M inner s = sread (expect_type inner MlsApp) s (\<lambda>body. decrypt_with_sender C M body s)"

definition wrap_handshake :: "crypto \<Rightarrow> key \<times> bytes \<Rightarrow> key \<Rightarrow> key \<Rightarrow> TtlBucket \<Rightarrow> bytes \<Rightarrow> OuterEnvelope cresult" where
  "wrap_handshake C r dest cap ttl hs = wrap C r dest cap ttl MlsHandshake hs"

definition apply_handshake_from_mailbox :: "crypto \<Rightarrow> openmls \<Rightarrow> int \<Rightarrow> InnerEnvelope \<Rightarrow> gst \<Rightarrow> HandshakeOutcome cresult \<times> gst" where
  "apply_handshake_from_mailbox C M now inner s =
     sread (expect_type inner MlsHandshake) s (\<lambda>body. apply_handshake C M now body s)"

definition handshake_message_epoch :: "openmls \<Rightarrow> InnerEnvelope \<Rightarrow> u64 cresult" where
  "handshake_message_epoch M inner =
     rbind (expect_type inner MlsHandshake) (\<lambda>body.
     rbind (decode_mls M body) (\<lambda>b.
     rbind (mls_err (om_protocol M b)) (\<lambda>p. Ok (fst p))))"

definition wrap_remove :: "crypto \<Rightarrow> key \<times> bytes \<Rightarrow> key \<Rightarrow> key \<Rightarrow> TtlBucket \<Rightarrow> RemoveBundle \<Rightarrow> OuterEnvelope cresult" where
  "wrap_remove C r dest cap ttl b = rbind (lift (rb_encode b)) (wrap C r dest cap ttl RemoveBundleType)"

definition apply_remove_from_mailbox :: "crypto \<Rightarrow> openmls \<Rightarrow> int \<Rightarrow> key \<Rightarrow> InnerEnvelope \<Rightarrow> gst \<Rightarrow> HandshakeOutcome cresult \<times> gst" where
  "apply_remove_from_mailbox C M now gid inner s =
     sread (expect_type inner RemoveBundleType) s (\<lambda>body.
     sread (lift (rb_decode body)) s (\<lambda>b. apply_remove_bundle C M now gid b s))"

definition sign_invite :: "crypto \<Rightarrow> key \<Rightarrow> key \<Rightarrow> key \<Rightarrow> u64 \<Rightarrow> key option \<Rightarrow> Group \<Rightarrow> GroupInvite cresult" where
  "sign_invite C nonce salt gid ttl to g =
     lift (gi_sign C (cg_group_signing g) gid nonce ttl (map_option (\<lambda>pk. (invitee_binding C pk salt, salt)) to))"

definition sign_admit :: "crypto \<Rightarrow> key \<Rightarrow> key \<Rightarrow> Group \<Rightarrow> GroupAdmit cresult" where
  "sign_admit C gid pid g = lift (ga_sign C (cg_group_signing g) gid pid)"

subsection \<open>The sidecar of a group\<close>

definition update_millis :: "int \<Rightarrow> u64" where
  "update_millis t = (if t < 0 then 0 else of_int (t div 1000000))"

definition key_entry :: "bytes \<times> bytes \<Rightarrow> Value" where
  "key_entry p = Array [Bytes (fst p), Bytes (snd p)]"

definition encode_sidecar :: "Group \<Rightarrow> bytes" where
  "encode_sidecar g = encode (Map
     ([(0, Uint 1),
       (1, Bytes (mg_group_id (cg_mls g))),
       (2, Bytes (cg_group_signing g)),
       (3, Bytes (cg_credential_id g)),
       (4, Array []),
       (5, Uint (update_millis (cg_last_own_update g))),
       (6, Uint (pending_kind_code (map_option po_kind (cg_pending g))))] @
      (case cg_pending g of
         Some p \<Rightarrow> (case po_new_signer p of Some sk \<Rightarrow> [(7, Bytes sk)] | None \<Rightarrow> [])
       | None \<Rightarrow> []) @
      [(8, Array (map key_entry (hm_sorted (cg_announced_keys g))))]))"

definition parse_pair :: "Value \<Rightarrow> (bytes \<times> bytes) cresult" where
  "parse_pair item =
     rbind (parse_row_of 2 item) (\<lambda>row.
     rbind (corrupt (expect_bytes (row ! 0))) (\<lambda>a.
     rbind (corrupt (expect_bytes (row ! 1))) (\<lambda>b. Ok (a, b))))"

definition parse_announced :: "Value \<Rightarrow> (bytes \<times> key) cresult" where
  "parse_announced item = rbind (parse_pair item) (\<lambda>(old, b). rbind (corrupt (copy_fixed KEY_LEN b)) (\<lambda>new. Ok (old, new)))"

definition vault_version :: "(u64 \<times> Value) list \<Rightarrow> unit cresult" where
  "vault_version m = rbind (corrupt (get_uint m 0)) (\<lambda>v. if v \<noteq> 1 then Err VaultCorrupt else Ok ())"

definition load_sidecar :: "crypto \<Rightarrow> openmls \<Rightarrow> bytes \<Rightarrow> storage \<Rightarrow> Group cresult \<times> storage" where
  "load_sidecar C M bs st =
     sread (vault_map bs) st (\<lambda>m.
     sread (vault_version m) st (\<lambda>_.
     sread (corrupt (get_bytes m 1)) st (\<lambda>gid.
     sread (corrupt (get_fixed KEY_LEN m 2)) st (\<lambda>seed.
     sread (corrupt (get_fixed KEY_LEN m 3)) st (\<lambda>cid.
     sread (corrupt (get_uint m 5)) st (\<lambda>updated.
     sread (case map_get_opt m 6 of Some v \<Rightarrow> corrupt (expect_uint v) | None \<Rightarrow> Ok 0) st (\<lambda>code.
     sread (corrupt (get_fixed_opt KEY_LEN m 7)) st (\<lambda>signer.
     sread (case map_get_opt m 8 of
              Some v \<Rightarrow> rbind (corrupt (expect_array v)) (rmap parse_announced)
            | None \<Rightarrow> Ok []) st (\<lambda>announced.
     sread (rbind (mls_err (om_load M gid st)) (\<lambda>g. ok_or g VaultCorrupt)) st (\<lambda>mls.
     if mg_ciphersuite mls \<noteq> CIPHERSUITE then (Err WrongCiphersuite, st)
     else
       let pending = (case pending_kind_from_code code of
                        Some k \<Rightarrow> if mg_pending mls \<noteq> None then Some \<lparr>po_kind = k, po_new_signer = signer\<rparr> else None
                      | None \<Rightarrow> None);
           g = \<lparr>cg_mls = mls, cg_mls_signer = signer_of C seed, cg_group_signing = seed, cg_credential_id = cid,
                cg_credential_ids = [], cg_last_own_update = uint updated * 1000000, cg_pending = pending,
                cg_announced_keys = hm_collect announced\<rparr> in
       case (if pending = None \<and> mg_pending mls \<noteq> None then on_mls (om_clear_pending M) (g, st) else (Ok (), (g, st))) of
         (r, g, st) \<Rightarrow> (rbind r (\<lambda>_. Ok (sync_credential_ids g)), st)))))))))))"

subsection \<open>Installations: storage, new groups, joining\<close>

definition encode_mls_storage :: "Installation \<Rightarrow> bytes" where
  "encode_mls_storage i = encode (Array (map key_entry (hm_sorted (in_mls i))))"

text \<open>The rows read before a bad one stay in the map.\<close>

fun insert_pairs :: "Value list \<Rightarrow> storage \<Rightarrow> unit cresult \<times> storage" where
  "insert_pairs [] st = (Ok (), st)"
| "insert_pairs (v # vs) st = sread (parse_pair v) st (\<lambda>(k, b). insert_pairs vs (hm_insert k b st))"

definition apply_mls_storage :: "bytes \<Rightarrow> Installation \<Rightarrow> unit cresult \<times> Installation" where
  "apply_mls_storage bs i =
     (if bs = [] then (Ok (), i)
      else
        sread (rbind (corrupt (decode bs)) (\<lambda>v. case v of Array items \<Rightarrow> Ok items | _ \<Rightarrow> Err VaultCorrupt)) i (\<lambda>items.
        case insert_pairs items [] of (r, st) \<Rightarrow> (r, i\<lparr>in_mls := st\<rparr>)))"

definition on_storage :: "(storage \<Rightarrow> 'a cresult \<times> storage) \<Rightarrow> Installation \<Rightarrow> 'a cresult \<times> Installation" where
  "on_storage f i = (case f (in_mls i) of (r, st) \<Rightarrow> (r, i\<lparr>in_mls := st\<rparr>))"

definition new_group :: "crypto \<Rightarrow> MlsGroup \<Rightarrow> SignatureKeyPair \<Rightarrow> bytes \<Rightarrow> key \<Rightarrow> int \<Rightarrow> Group" where
  "new_group C mls signer sk cid now = sync_credential_ids
     \<lparr>cg_mls = mls, cg_mls_signer = signer, cg_group_signing = sk, cg_credential_id = cid, cg_credential_ids = [],
      cg_last_own_update = now, cg_pending = None, cg_announced_keys = []\<rparr>"

definition in_create_group :: "crypto \<Rightarrow> openmls \<Rightarrow> bytes \<Rightarrow> key \<Rightarrow> bytes \<Rightarrow> int \<Rightarrow> Installation \<Rightarrow> Group cresult \<times> Installation" where
  "in_create_group C M e cid sk now i =
     sbind (on_storage (new_group_keys C M sk) i) (\<lambda>(signer, sk) i.
     sread (leaf_extensions M cid (lib_ed_public C sk)) i (\<lambda>leaf.
     sread (group_create_config M leaf) i (\<lambda>config.
     sbind (on_storage (\<lambda>st. case om_new_group M e signer config (BasicCredential (in_public_key C i)) st of (r, st) \<Rightarrow> (mls_err r, st)) i) (\<lambda>mls i.
     if mg_ciphersuite mls \<noteq> CIPHERSUITE then (Err WrongCiphersuite, i)
     else (Ok (new_group C mls signer sk cid now), i)))))"

definition prepare_join :: "crypto \<Rightarrow> openmls \<Rightarrow> bytes \<Rightarrow> bytes \<Rightarrow> key \<Rightarrow> Installation \<Rightarrow> ClientJoin cresult \<times> Installation" where
  "prepare_join C M e sk cid i =
     sbind (on_storage (new_group_keys C M sk) i) (\<lambda>(signer, sk) i.
     sread (leaf_extensions M cid (lib_ed_public C sk)) i (\<lambda>leaf.
     sbind (on_storage (\<lambda>st. case om_key_package M e leaf signer (BasicCredential (in_public_key C i)) st of (r, st) \<Rightarrow> (mls_err r, st)) i) (\<lambda>kp i.
     sread (serialize_msg M kp) i (\<lambda>bs.
       (Ok \<lparr>pj_credential_id = cid, pj_mls_signer = signer, pj_group_signing = sk, pj_key_package = bs\<rparr>, i)))))"

definition pj_encode :: "openmls \<Rightarrow> ClientJoin \<Rightarrow> bytes cresult" where
  "pj_encode M j =
     rbind (mls_err (om_signer_encode M (pj_mls_signer j))) (\<lambda>signer.
     Ok (encode (Map
       [(0, Uint 1), (1, Bytes (pj_credential_id j)), (2, Bytes (pj_group_signing j)), (3, Bytes (pj_key_package j)),
        (4, Bytes signer)])))"

definition pj_decode :: "openmls \<Rightarrow> bytes \<Rightarrow> storage \<Rightarrow> ClientJoin cresult \<times> storage" where
  "pj_decode M bs st =
     sread (vault_map bs) st (\<lambda>m.
     sread (vault_version m) st (\<lambda>_.
     sread (corrupt (get_fixed KEY_LEN m 1)) st (\<lambda>cid.
     sread (corrupt (get_fixed KEY_LEN m 2)) st (\<lambda>seed.
     sread (corrupt (get_bytes m 3)) st (\<lambda>kp.
     sread (corrupt (get_bytes m 4)) st (\<lambda>sb.
     sread (mls_err (om_signer_decode M sb)) st (\<lambda>signer.
     case om_store_signer M signer st of
       (r, st) \<Rightarrow> (rbind (mls_err r) (\<lambda>_.
         Ok \<lparr>pj_credential_id = cid, pj_mls_signer = signer, pj_group_signing = seed, pj_key_package = kp\<rparr>), st))))))))"

definition is_welcome :: "openmls \<Rightarrow> bytes \<Rightarrow> bool" where
  "is_welcome M bs = (case decode_mls M bs of Ok (WelcomeBody _ _) \<Rightarrow> True | _ \<Rightarrow> False)"

definition welcome_matches :: "openmls \<Rightarrow> bytes \<Rightarrow> ClientJoin \<Rightarrow> bool" where
  "welcome_matches M bs j =
     (case rbind (om_read_key_package M (pj_key_package j)) (om_key_package_ref M) of
        Err _ \<Rightarrow> False
      | Ok r \<Rightarrow> (case decode_mls M bs of Ok (WelcomeBody refs _) \<Rightarrow> list_ex (\<lambda>s. s = r) refs | _ \<Rightarrow> False))"

fun check_leaves :: "Leaf list \<Rightarrow> unit cresult" where
  "check_leaves [] = Ok ()"
| "check_leaves (l # ls) = rbind (check_new_leaf l) (\<lambda>_. check_leaves ls)"

definition pj_join :: "crypto \<Rightarrow> openmls \<Rightarrow> int \<Rightarrow> bytes \<Rightarrow> ClientJoin \<Rightarrow> storage \<Rightarrow> Group cresult \<times> storage" where
  "pj_join C M now bs j st =
     sread (rbind (decode_mls M bs) (\<lambda>b. case b of WelcomeBody _ raw \<Rightarrow> Ok raw | _ \<Rightarrow> Err (Mls ''expected Welcome''))) st (\<lambda>raw.
     sread (rbind (leaf_extensions M (pj_credential_id j) (lib_ed_public C (pj_group_signing j))) (group_create_config M)) st (\<lambda>config.
     sbind (case om_join M config raw st of (r, st) \<Rightarrow> (mls_err r, st)) (\<lambda>mls st.
     if mg_ciphersuite mls \<noteq> CIPHERSUITE then (Err WrongCiphersuite, st)
     else
       let g = new_group C mls (pj_mls_signer j) (pj_group_signing j) (pj_credential_id j) now in
       if \<not> (case mg_own_leaf mls of Some own \<Rightarrow> check_new_leaf own = Ok (cg_credential_id g) | None \<Rightarrow> False)
       then (Err CredentialIdMismatch, st)
       else sread (check_leaves (map snd (mg_tree mls))) st (\<lambda>_. (Ok g, st)))))"

end
