(* ===== verification/Mls_Props.thy ===== *)
theory Mls_Props
  imports Mls_Group
begin

text \<open>
  Properties of the client's groups: the profile of the tree is an invariant, a handshake keeps
  every member, a remove bundle removes exactly whom it names, and a group and its storage
  survive being saved.
\<close>

section \<open>What is relied on of OpenMLS\<close>

text \<open>The leaves after a commit \<open>c\<close> of \<open>who c\<close> (RFC 9420, 12.4.2): nobody is lost but the removed,
  and a leaf that is new or different comes from an update, the commit's path or an add. The
  signature keys of a tree are unique (7.3).\<close>

definition merged :: "Sender \<Rightarrow> StagedCommit \<Rightarrow> (nat \<times> Leaf) list \<Rightarrow> (nat \<times> Leaf) list \<Rightarrow> bool" where
  "merged who c t t' \<longleftrightarrow>
     distinct (map fst t') \<and> distinct (map (lf_signature_key \<circ> snd) t') \<and>
     (\<forall>i l. (i, l) \<in> set t \<longrightarrow> i \<notin> set (sc_removes c) \<longrightarrow> i \<in> fst ` set t') \<and>
     (\<forall>i l. who = Member i \<longrightarrow> sc_path_leaf c = Some l \<longrightarrow> i \<in> fst ` set t \<longrightarrow> i \<notin> set (sc_removes c) \<longrightarrow> (i, l) \<in> set t') \<and>
     (\<forall>i l. (i, l) \<in> set t' \<longrightarrow>
        i \<notin> set (sc_removes c) \<and> i \<in> fst ` set t \<and>
          ((i, l) \<in> set t \<or> (Member i, l) \<in> set (sc_updates c) \<or> who = Member i \<and> sc_path_leaf c = Some l) \<or>
        (i \<notin> fst ` set t \<or> i \<in> set (sc_removes c)) \<and> l \<in> set (sc_adds c))"

definition same_group :: "MlsGroup \<Rightarrow> MlsGroup \<Rightarrow> bool" where
  "same_group m m' \<longleftrightarrow> mg_group_id m' = mg_group_id m \<and> mg_ciphersuite m' = mg_ciphersuite m \<and> mg_own m' = mg_own m"

definition framed :: "MlsGroup \<Rightarrow> MlsGroup \<Rightarrow> bool" where
  "framed m m' \<longleftrightarrow> same_group m m' \<and> mg_active m' = mg_active m \<and> mg_tree m' = mg_tree m \<and> mg_pending m' = mg_pending m"

text \<open>\<open>c\<close> is staged as the own pending commit of a member; nothing else changes.\<close>

definition staged :: "(StagedCommit \<Rightarrow> Sender) \<Rightarrow> MlsGroup \<Rightarrow> MlsGroup \<Rightarrow> StagedCommit \<Rightarrow> bool" where
  "staged who m m' c \<longleftrightarrow> same_group m m' \<and> mg_active m \<and> mg_active m' \<and> mg_tree m' = mg_tree m \<and>
     mg_pending m' = Some c \<and> who c = Member (mg_own m)"

text \<open>\<open>c\<close> is merged: no commit is pending, and a group that is still active was not left by it.\<close>

definition merges :: "(StagedCommit \<Rightarrow> Sender) \<Rightarrow> StagedCommit \<Rightarrow> MlsGroup \<Rightarrow> MlsGroup \<Rightarrow> bool" where
  "merges who c m m' \<longleftrightarrow> same_group m m' \<and> mg_pending m' = None \<and> merged (who c) c (mg_tree m) (mg_tree m') \<and>
     (mg_active m' \<longrightarrow> mg_active m \<and> mg_own m \<notin> set (sc_removes c))"

definition own_path :: "MlsGroup \<Rightarrow> StagedCommit \<Rightarrow> bool" where
  "own_path m c \<longleftrightarrow> (\<forall>l. sc_path_leaf c = Some l \<longrightarrow>
     (\<exists>l0. mg_own_leaf m = Some l0 \<and> lf_extensions l = lf_extensions l0 \<and> lf_signature_key l = lf_signature_key l0 \<and>
        lf_credential l = lf_credential l0))"

text \<open>A processed commit is another member's: an own one comes back as own, and this client sends no
  proposals of its own.\<close>

definition foreign :: "(StagedCommit \<Rightarrow> Sender) \<Rightarrow> MlsGroup \<Rightarrow> StagedCommit \<Rightarrow> bool" where
  "foreign who m c \<longleftrightarrow> who c \<noteq> Member (mg_own m) \<and> Member (mg_own m) \<notin> fst ` set (sc_updates c)"

definition openmls_reads :: "openmls \<Rightarrow> (StagedCommit \<Rightarrow> Sender) \<Rightarrow> bool" where
  "openmls_reads M who \<longleftrightarrow>
     (\<forall>p m st r m' st'. om_process M p (m, st) = (r, m', st') \<longrightarrow> framed m m' \<and>
        (\<forall>pm c. r = Ok pm \<longrightarrow> pr_content pm = StagedCommitMessage c \<longrightarrow> who c = pr_sender pm \<and> foreign who m c)) \<and>
     (\<forall>e sp b m st r m' st'. om_create_message M e sp b (m, st) = (r, m', st') \<longrightarrow> framed m m')"

definition openmls_merges :: "openmls \<Rightarrow> (StagedCommit \<Rightarrow> Sender) \<Rightarrow> bool" where
  "openmls_merges M who \<longleftrightarrow>
     (\<forall>c m st m' st'. om_merge_staged M c (m, st) = (Ok (), m', st') \<longrightarrow> merges who c m m') \<and>
     (\<forall>m st m' st'. om_merge_pending M (m, st) = (Ok (), m', st') \<longrightarrow>
        (case mg_pending m of Some c \<Rightarrow> merges who c m m' | None \<Rightarrow> framed m m')) \<and>
     (\<forall>m st m' st'. om_clear_pending M (m, st) = (Ok (), m', st') \<longrightarrow>
        same_group m m' \<and> mg_active m' = mg_active m \<and> mg_tree m' = mg_tree m \<and> mg_pending m' = None)"

definition openmls_stages :: "openmls \<Rightarrow> (StagedCommit \<Rightarrow> Sender) \<Rightarrow> bool" where
  "openmls_stages M who \<longleftrightarrow>
     (\<forall>e sp exts m st b m' st'. om_self_update M e sp exts (m, st) = (Ok b, m', st') \<longrightarrow>
        (\<exists>c l l0. staged who m m' c \<and> sc_queued c = [] \<and> sc_path_leaf c = Some l \<and> mg_own_leaf m = Some l0 \<and>
           lf_extensions l = exts \<and> lf_signature_key l = lf_signature_key l0 \<and> lf_credential l = lf_credential l0)) \<and>
     (\<forall>e sp new cred exts m st b m' st'. om_self_update_signer M e sp new cred exts (m, st) = (Ok b, m', st') \<longrightarrow>
        (\<exists>c l. staged who m m' c \<and> sc_queued c = [] \<and> sc_path_leaf c = Some l \<and>
           lf_extensions l = exts \<and> lf_signature_key l = sp_public new \<and> lf_credential l = cred)) \<and>
     (\<forall>e sp kp m st b m' st'. om_add_member M e sp kp (m, st) = (Ok b, m', st') \<longrightarrow>
        (\<exists>c. staged who m m' c \<and> own_path m c \<and> sc_queued c = [\<lparr>qp_sender = Member (mg_own m), qp_proposal = AddP (kp_leaf kp)\<rparr>])) \<and>
     (\<forall>e sp i m st b m' st'. om_remove_member M e sp i (m, st) = (Ok b, m', st') \<longrightarrow>
        (\<exists>c. staged who m m' c \<and> own_path m c \<and> sc_queued c = [\<lparr>qp_sender = Member (mg_own m), qp_proposal = RemoveP i\<rparr>]))"

text \<open>A new group has one leaf, made as asked; a joined one has unique leaves and keys.\<close>

definition openmls_starts :: "openmls \<Rightarrow> bool" where
  "openmls_starts M \<longleftrightarrow>
     (\<forall>e sp exts cred st m st'. om_new_group M e sp exts cred st = (Ok m, st') \<longrightarrow>
        mg_pending m = None \<and> mg_active m \<and>
        mg_tree m = [(mg_own m, \<lparr>lf_extensions = exts, lf_signature_key = sp_public sp, lf_credential = cred\<rparr>)]) \<and>
     (\<forall>exts raw st m st'. om_join M exts raw st = (Ok m, st') \<longrightarrow>
        mg_pending m = None \<and> distinct (map fst (mg_tree m)) \<and> distinct (map (lf_signature_key \<circ> snd) (mg_tree m)))"

definition openmls_laws :: "openmls \<Rightarrow> (StagedCommit \<Rightarrow> Sender) \<Rightarrow> bool" where
  "openmls_laws M who \<longleftrightarrow> openmls_reads M who \<and> openmls_merges M who \<and> openmls_stages M who"

section \<open>Lemmas\<close>

subsection \<open>Leaves and their ids\<close>

definition leaf_cid :: "Leaf \<Rightarrow> key" where
  "leaf_cid l = (case check_new_leaf l of Ok c \<Rightarrow> c | Err _ \<Rightarrow> [])"

definition leaf_ok :: "Leaf \<Rightarrow> bool" where
  "leaf_ok l \<longleftrightarrow> check_new_leaf l = Ok (leaf_cid l)"

lemma check_new_leaf_Ok:
  "check_new_leaf l = Ok cid \<longleftrightarrow>
     length cid = KEY_LEN \<and> extension_bytes (lf_extensions l) CREDENTIAL_ID_EXT = Some cid \<and>
     extension_bytes (lf_extensions l) GROUP_SIGNING_EXT = Some (lf_signature_key l) \<and>
     is_ok (identity_pk_from_credential (lf_credential l))"
  by (auto simp: check_new_leaf_def result_simps copy_fixed_eq_Ok is_ok_iff split: if_splits)

lemma leaf_cidI: "check_new_leaf l = Ok cid \<Longrightarrow> leaf_ok l \<and> leaf_cid l = cid"
  by (simp add: leaf_ok_def leaf_cid_def)

lemma map_filter_all: "(\<And>x. x \<in> set xs \<Longrightarrow> f x = Some (g x)) \<Longrightarrow> List.map_filter f xs = map g xs"
  by (induction xs) (auto simp: List.map_filter_simps)

lemma hm_collect_distinct: "distinct (map fst xs) \<Longrightarrow> hm_collect xs = xs"
  using fold_hm_insert_fresh [of "[]" xs] by (simp add: hm_collect_def)

lemma ids_by_leaf_tree:
  assumes "\<forall>(i, l) \<in> set (mg_tree m). leaf_ok l" "distinct (map fst (mg_tree m))"
    and "distinct (map (lf_signature_key \<circ> snd) (mg_tree m))"
  shows "ids_by_leaf m = map (\<lambda>(i, l). (i, leaf_cid l)) (mg_tree m)"
proof -
  let ?ls = "map snd (mg_tree m)"
  have ok: "leaf_ok l" if "l \<in> set ?ls" for l using that assms(1) by auto
  have k: "ids_by_key ?ls = map (\<lambda>l. (lf_signature_key l, leaf_cid l)) ?ls"
    unfolding ids_by_key_def
    by (subst map_filter_all [where g = "\<lambda>l. (lf_signature_key l, leaf_cid l)"])
      (use ok assms(3) in \<open>auto simp: leaf_ok_def check_new_leaf_Ok hm_collect_distinct comp_def copy_fixed_def\<close>)
  have "hm_get (ids_by_key ?ls) (lf_signature_key l) = Some (leaf_cid l)" if "(i, l) \<in> set (mg_tree m)" for i l
    using that assms(3) unfolding k hm_get_def by (intro map_of_is_SomeI) (force simp: comp_def)+
  then show ?thesis
    unfolding ids_by_leaf_def mg_members_def
    by (subst map_filter_all [where g = "\<lambda>mm. (mm_index mm, leaf_cid (the (map_of (mg_tree m) (mm_index mm))))"])
      (use assms(2) in \<open>auto simp: comp_def case_prod_unfold hm_collect_distinct\<close>)
qed

subsection \<open>The invariant\<close>

definition tree_ok :: "MlsGroup \<Rightarrow> bool" where
  "tree_ok m \<longleftrightarrow> distinct (map fst (mg_tree m)) \<and> distinct (map (lf_signature_key \<circ> snd) (mg_tree m)) \<and>
     (\<forall>(i, l) \<in> set (mg_tree m). leaf_ok l)"

text \<open>The signing key the own leaf will have once the pending commit is merged.\<close>

definition next_signing :: "Group \<Rightarrow> bytes" where
  "next_signing g = (case cg_pending g of
     Some p \<Rightarrow> (case po_new_signer p of Some sk \<Rightarrow> sk | None \<Rightarrow> cg_group_signing g) | None \<Rightarrow> cg_group_signing g)"

definition own_leaf_ok :: "crypto \<Rightarrow> key \<Rightarrow> bytes \<Rightarrow> Leaf \<Rightarrow> bool" where
  "own_leaf_ok C cid sk l \<longleftrightarrow> check_new_leaf l = Ok cid \<and> lf_signature_key l = lib_ed_public C sk"

definition pending_ok :: "crypto \<Rightarrow> Group \<Rightarrow> StagedCommit \<Rightarrow> bool" where
  "pending_ok C g c \<longleftrightarrow> sc_updates c = [] \<and>
     (\<forall>l. sc_path_leaf c = Some l \<longrightarrow> own_leaf_ok C (cg_credential_id g) (next_signing g) l) \<and>
     (sc_path_leaf c = None \<longrightarrow> next_signing g = cg_group_signing g) \<and>
     (\<forall>l \<in> set (sc_adds c). leaf_ok l \<and> leaf_cid l \<notin> snd ` set (cg_credential_ids g))"

definition mls_ok :: "crypto \<Rightarrow> (StagedCommit \<Rightarrow> Sender) \<Rightarrow> Group \<Rightarrow> bool" where
  "mls_ok C who g \<longleftrightarrow>
     tree_ok (cg_mls g) \<and> cg_credential_ids g = ids_by_leaf (cg_mls g) \<and> cg_mls_signer g = signer_of C (cg_group_signing g) \<and>
     (mg_active (cg_mls g) \<longrightarrow>
        (\<exists>l. mg_own_leaf (cg_mls g) = Some l \<and> own_leaf_ok C (cg_credential_id g) (cg_group_signing g) l)) \<and>
     (case mg_pending (cg_mls g) of
        None \<Rightarrow> cg_pending g = None
      | Some c \<Rightarrow> cg_pending g \<noteq> None \<and> mg_active (cg_mls g) \<and> pending_ok C g c \<and> who c = Member (mg_own (cg_mls g)))"

lemma ids_of_tree:
  assumes "tree_ok m"
  shows "ids_by_leaf m = map (\<lambda>(i, l). (i, leaf_cid l)) (mg_tree m)"
    and "hm_get (ids_by_leaf m) i = map_option leaf_cid (map_of (mg_tree m) i)"
    and "snd ` set (ids_by_leaf m) = leaf_cid ` snd ` set (mg_tree m)"
proof -
  show eq: "ids_by_leaf m = map (\<lambda>(i, l). (i, leaf_cid l)) (mg_tree m)"
    using assms by (intro ids_by_leaf_tree) (auto simp: tree_ok_def)
  show "hm_get (ids_by_leaf m) i = map_option leaf_cid (map_of (mg_tree m) i)"
    unfolding eq hm_get_def by (induction "mg_tree m") (auto simp: map_of_map)
  show "snd ` set (ids_by_leaf m) = leaf_cid ` snd ` set (mg_tree m)" unfolding eq by force
qed

lemma member_at_tree:
  "member_at i g = map_option (\<lambda>l. \<lparr>mm_index = i, mm_credential = lf_credential l, mm_signature_key = lf_signature_key l\<rparr>)
     (map_of (mg_tree (cg_mls g)) i)"
proof -
  have "find (\<lambda>m. mm_index m = i) (map (\<lambda>(i, l). \<lparr>mm_index = i, mm_credential = lf_credential l, mm_signature_key = lf_signature_key l\<rparr>) t)
      = map_option (\<lambda>l. \<lparr>mm_index = i, mm_credential = lf_credential l, mm_signature_key = lf_signature_key l\<rparr>) (map_of t i)" for t
    by (induction t) auto
  then show ?thesis by (simp add: member_at_def mg_members_def)
qed

lemma check_leaf_update_Ok:
  assumes "check_leaf_update i l g = Ok ()"
  shows "leaf_ok l \<and> (hm_get (cg_credential_ids g) i \<in> {None, Some (leaf_cid l)}) \<and>
    (\<exists>l0. map_of (mg_tree (cg_mls g)) i = Some l0 \<and>
       (lf_signature_key l = lf_signature_key l0 \<or>
        hm_get (cg_announced_keys g) (lf_signature_key l0) = Some (lf_signature_key l)))"
  using assms leaf_cidI
  by (auto simp: check_leaf_update_def result_simps member_at_tree copy_fixed_eq_Ok split: if_splits option.splits)

lemma check_updates_Ok: "check_updates us g = Ok () \<Longrightarrow> (Member i, l) \<in> set us \<Longrightarrow> check_leaf_update i l g = Ok ()"
  by (induction us g rule: check_updates.induct) (auto simp: result_simps)

lemma check_adds_Ok: "check_adds ls g = Ok () \<Longrightarrow> l \<in> set ls \<Longrightarrow> leaf_ok l \<and> leaf_cid l \<notin> snd ` set (cg_credential_ids g)"
  by (induction ls) (auto simp: result_simps list_ex_iff dest!: leaf_cidI split: if_splits)

text \<open>What a commit may do to a tree under the profile: \<open>who\<close> is its committer, \<open>K\<close> what a change of a
  leaf's key needs.\<close>

definition update_ok :: "(Leaf \<Rightarrow> Leaf \<Rightarrow> bool) \<Rightarrow> Group \<Rightarrow> nat \<Rightarrow> Leaf \<Rightarrow> bool" where
  "update_ok K g i l \<longleftrightarrow> leaf_ok l \<and> hm_get (cg_credential_ids g) i \<in> {None, Some (leaf_cid l)} \<and>
     (\<exists>l0. map_of (mg_tree (cg_mls g)) i = Some l0 \<and> (lf_signature_key l = lf_signature_key l0 \<or> K l0 l))"

definition commit_ok :: "(Leaf \<Rightarrow> Leaf \<Rightarrow> bool) \<Rightarrow> Sender \<Rightarrow> StagedCommit \<Rightarrow> Group \<Rightarrow> bool" where
  "commit_ok K who c g \<longleftrightarrow>
     (\<forall>i l. (Member i, l) \<in> set (sc_updates c) \<or> who = Member i \<and> sc_path_leaf c = Some l \<longrightarrow> update_ok K g i l) \<and>
     (\<forall>l \<in> set (sc_adds c). leaf_ok l \<and> leaf_cid l \<notin> snd ` set (cg_credential_ids g))"

definition announced :: "Group \<Rightarrow> Leaf \<Rightarrow> Leaf \<Rightarrow> bool" where
  "announced g l0 l \<longleftrightarrow> hm_get (cg_announced_keys g) (lf_signature_key l0) = Some (lf_signature_key l)"

lemma validate_commit_ok:
  assumes "validate_commit c who g = Ok ()"
  shows "commit_ok (announced g) who c g"
proof -
  have "check_leaf_update i l g = Ok ()"
    if "(Member i, l) \<in> set (sc_updates c) \<or> who = Member i \<and> sc_path_leaf c = Some l" for i l
    using assms that by (auto simp: validate_commit_def check_path_def result_simps dest: check_updates_Ok)
  then have "update_ok (announced g) g i l"
    if "(Member i, l) \<in> set (sc_updates c) \<or> who = Member i \<and> sc_path_leaf c = Some l" for i l
    using that check_leaf_update_Ok unfolding update_ok_def announced_def by blast
  moreover have "leaf_ok l \<and> leaf_cid l \<notin> snd ` set (cg_credential_ids g)" if "l \<in> set (sc_adds c)" for l
    using assms that by (auto simp: validate_commit_def result_simps dest: check_adds_Ok)
  ultimately show ?thesis unfolding commit_ok_def by blast
qed

definition synced :: "Group \<Rightarrow> bool" where
  "synced g \<longleftrightarrow> tree_ok (cg_mls g) \<and> cg_credential_ids g = ids_by_leaf (cg_mls g)"

text \<open>A leaf after an accepted commit: the member it was, with its id and with a key that is the old
  one or announced under it, or a new member with a fresh id.\<close>

lemma merged_leaf:
  assumes "synced g" "commit_ok K who c g" "merged who c (mg_tree (cg_mls g)) t'" "(i, l) \<in> set t'"
  shows "leaf_ok l \<and>
    (case map_of (mg_tree (cg_mls g)) i of
       Some l0 \<Rightarrow>
         if i \<in> set (sc_removes c) then leaf_cid l \<notin> leaf_cid ` snd ` set (mg_tree (cg_mls g))
         else leaf_cid l = leaf_cid l0 \<and> (lf_signature_key l = lf_signature_key l0 \<or> K l0 l)
     | None \<Rightarrow> leaf_cid l \<notin> leaf_cid ` snd ` set (mg_tree (cg_mls g)))"
proof -
  let ?t = "mg_tree (cg_mls g)"
  have t: "tree_ok (cg_mls g)" and ids: "cg_credential_ids g = ids_by_leaf (cg_mls g)" using assms(1) by (auto simp: synced_def)
  have d: "distinct (map fst ?t)" using t by (simp add: tree_ok_def)
  have kept: "i \<notin> set (sc_removes c) \<and> i \<in> fst ` set ?t \<and>
      ((i, l) \<in> set ?t \<or> (Member i, l) \<in> set (sc_updates c) \<or> who = Member i \<and> sc_path_leaf c = Some l) \<or>
    (i \<notin> fst ` set ?t \<or> i \<in> set (sc_removes c)) \<and> l \<in> set (sc_adds c)"
    using assms(3,4) by (simp only: merged_def)
  moreover have "update_ok K g i l"
    if "(Member i, l) \<in> set (sc_updates c) \<or> who = Member i \<and> sc_path_leaf c = Some l"
    using assms(2) that unfolding commit_ok_def by blast
  ultimately consider (same) "i \<notin> set (sc_removes c)" "(i, l) \<in> set ?t"
    | (upd) "i \<notin> set (sc_removes c)" "update_ok K g i l"
    | (new) "i \<notin> fst ` set ?t \<or> i \<in> set (sc_removes c)" "l \<in> set (sc_adds c)"
    by argo
  then show ?thesis
  proof cases
    case same
    then have "map_of ?t i = Some l" using d by simp
    then show ?thesis using same t by (auto simp: tree_ok_def)
  next
    case upd
    obtain l0 where l0: "map_of ?t i = Some l0" and k: "lf_signature_key l = lf_signature_key l0 \<or> K l0 l"
      and o: "leaf_ok l" "hm_get (cg_credential_ids g) i \<in> {None, Some (leaf_cid l)}"
      using upd(2) unfolding update_ok_def by blast
    have "hm_get (cg_credential_ids g) i = Some (leaf_cid l0)" using l0 ids_of_tree(2) [OF t] by (simp add: ids)
    then show ?thesis using l0 k o upd(1) by simp
  next
    case new
    then have "leaf_ok l" "leaf_cid l \<notin> leaf_cid ` snd ` set ?t"
      using assms(2) ids_of_tree(3) [OF t] by (auto simp: commit_ok_def ids)
    moreover have "map_of ?t i = None \<or> i \<in> set (sc_removes c)" using new(1) by (simp add: map_of_eq_None_iff)
    ultimately show ?thesis by (auto split: option.split)
  qed
qed

lemma merged_tree_ok:
  assumes "synced g" "commit_ok K who c g" "merged who c (mg_tree (cg_mls g)) (mg_tree m')"
  shows "tree_ok m'"
proof -
  have "leaf_ok l" if "(i, l) \<in> set (mg_tree m')" for i l using merged_leaf [OF assms that] by blast
  moreover note assms(3) [unfolded merged_def, THEN conjunct1] assms(3) [unfolded merged_def, THEN conjunct2, THEN conjunct1]
  ultimately show ?thesis by (auto simp: tree_ok_def)
qed

lemma sync_same [simp]:
  "cg_mls (sync_credential_ids g) = cg_mls g" "cg_mls_signer (sync_credential_ids g) = cg_mls_signer g"
  "cg_group_signing (sync_credential_ids g) = cg_group_signing g" "cg_credential_id (sync_credential_ids g) = cg_credential_id g"
  "cg_pending (sync_credential_ids g) = cg_pending g" "cg_last_own_update (sync_credential_ids g) = cg_last_own_update g"
  "cg_credential_ids (sync_credential_ids g) = ids_by_leaf (cg_mls g)"
  by (simp_all add: sync_credential_ids_def Let_def)

lemma on_mls_Ok:
  "on_mls f s = (Ok x, s') \<longleftrightarrow> (\<exists>m st. f (cg_mls (fst s), snd s) = (Ok x, m, st) \<and> s' = ((fst s)\<lparr>cg_mls := m\<rparr>, st))"
  by (cases "f (cg_mls (fst s), snd s)") (auto simp: on_mls_def result_simps)

lemma cg_process_frame:
  assumes "openmls_laws M who" "cg_process M bs s = (r, s')"
  shows "\<exists>m st. s' = ((fst s)\<lparr>cg_mls := m\<rparr>, st) \<and> framed (cg_mls (fst s)) m \<and>
    (\<forall>p c. r = Ok p \<longrightarrow> pr_content p = StagedCommitMessage c \<longrightarrow> who c = pr_sender p \<and> foreign who (cg_mls (fst s)) c)"
proof -
  have f0: "framed m m" for m by (simp add: framed_def same_group_def)
  have triv: "\<exists>m st. s = ((fst s)\<lparr>cg_mls := m\<rparr>, st) \<and> framed (cg_mls (fst s)) m"
    using f0 [of "cg_mls (fst s)"] by (intro exI [of _ "cg_mls (fst s)"] exI [of _ "snd s"]) (simp add: prod_eq_iff)
  obtain b where b: "rbind (decode_mls M bs) (\<lambda>b. mls_err (om_protocol M b)) = b" by blast
  show ?thesis
  proof (cases b)
    case (Inl e)
    then show ?thesis using assms(2) b triv by (simp add: cg_process_def) (metis sum.distinct(1))
  next
    case (Inr p)
    obtain r0 m st where o: "om_process M p (cg_mls (fst s), snd s) = (r0, m, st)" by (metis prod_cases3)
    then have "s' = ((fst s)\<lparr>cg_mls := m\<rparr>, st)" "\<forall>pm. r = Ok pm \<longrightarrow> r0 = Ok pm"
      using assms(2) b Inr by (auto simp: cg_process_def result_simps)
    moreover have "framed (cg_mls (fst s)) m \<and> (\<forall>pm c. r0 = Ok pm \<longrightarrow> pr_content pm = StagedCommitMessage c \<longrightarrow>
        who c = pr_sender pm \<and> foreign who (cg_mls (fst s)) c)"
      using assms(1) o unfolding openmls_laws_def openmls_reads_def by blast
    ultimately show ?thesis by blast
  qed
qed

subsection \<open>Operations keep the invariant\<close>

text \<open>An operation that does not fail inside OpenMLS ends in a state with \<open>P\<close>.\<close>

definition settles :: "('s \<Rightarrow> bool) \<Rightarrow> 'a cresult \<times> 's \<Rightarrow> bool" where
  "settles P m \<longleftrightarrow> (\<forall>t. fst m \<noteq> Err (Mls t)) \<longrightarrow> P (snd m)"

lemma settles_Pair: "P s \<Longrightarrow> settles P (r, s)"
  by (simp add: settles_def)

lemma settles_sread: "P s \<Longrightarrow> (\<And>x. m = Ok x \<Longrightarrow> settles P (f x)) \<Longrightarrow> settles P (sread m s f)"
  by (cases m) (auto simp: settles_def)

lemma settles_if: "(b \<Longrightarrow> settles P x) \<Longrightarrow> (\<not> b \<Longrightarrow> settles P y) \<Longrightarrow> settles P (if b then x else y)"
  by simp

lemma settles_on_mls:
  "(\<And>x m st. f (cg_mls (fst s), snd s) = (Ok x, m, st) \<Longrightarrow> settles P (k x ((fst s)\<lparr>cg_mls := m\<rparr>, st))) \<Longrightarrow>
   settles P (sbind (on_mls f s) k)"
proof -
  assume k: "\<And>x m st. f (cg_mls (fst s), snd s) = (Ok x, m, st) \<Longrightarrow> settles P (k x ((fst s)\<lparr>cg_mls := m\<rparr>, st))"
  obtain r m st where f: "f (cg_mls (fst s), snd s) = (r, m, st)" by (metis prod_cases3)
  then show ?thesis by (cases r) (use k in \<open>auto simp: on_mls_def settles_def\<close>)
qed

lemma tree_ok_cong: "mg_tree m' = mg_tree m \<Longrightarrow> tree_ok m' = tree_ok m" "mg_tree m' = mg_tree m \<Longrightarrow> ids_by_leaf m' = ids_by_leaf m"
  by (simp_all add: tree_ok_def ids_by_leaf_def mg_members_def)

lemma mls_ok_synced: "mls_ok C who g \<Longrightarrow> synced g"
  by (simp add: mls_ok_def synced_def)

lemma pending_ok_cong [simp]: "pending_ok C (g\<lparr>cg_mls := m\<rparr>) c = pending_ok C g c"
  by (simp add: pending_ok_def next_signing_def cong: option.case_cong)

lemma mls_ok_frame:
  assumes "mls_ok C who g" "framed (cg_mls g) m"
  shows "mls_ok C who (g\<lparr>cg_mls := m\<rparr>)"
  using assms tree_ok_cong [of m "cg_mls g"]
  by (simp add: mls_ok_def framed_def same_group_def mg_own_leaf_def cong: option.case_cong)

lemma own_leaf_kept:
  assumes "merges who c m m'" "tree_ok m" "foreign who m c" "mg_active m'" "mg_own_leaf m = Some l"
  shows "mg_own_leaf m' = Some l"
proof -
  have o: "mg_own m \<notin> set (sc_removes c)" "mg_own m' = mg_own m" and mg: "merged (who c) c (mg_tree m) (mg_tree m')"
    using assms(1,4) by (auto simp: merges_def same_group_def)
  have l: "(mg_own m, l) \<in> set (mg_tree m)" using assms(5) by (simp add: mg_own_leaf_def map_of_SomeD)
  then obtain l' where l': "(mg_own m, l') \<in> set (mg_tree m')" using mg o(1) unfolding merged_def by fastforce
  have "(Member (mg_own m), l') \<notin> set (sc_updates c)" "who c \<noteq> Member (mg_own m)"
    using assms(3) by (force simp: foreign_def)+
  moreover have "mg_own m \<in> fst ` set (mg_tree m)" using l by force
  ultimately have "(mg_own m, l') \<in> set (mg_tree m)" using mg o(1) l' unfolding merged_def by blast
  then have "l' = l" using l assms(2) by (metis eq_key_imp_eq_value tree_ok_def)
  then show ?thesis using l' mg by (simp add: mg_own_leaf_def o(2) merged_def)
qed

lemma merge_foreign_keeps:
  assumes "openmls_laws M who" "mls_ok C who (fst s)" "commit_ok K (who c) c (fst s)" "foreign who (cg_mls (fst s)) c"
  shows "settles (mls_ok C who \<circ> fst) (merge_foreign M c s)"
  unfolding merge_foreign_def Let_def
proof (rule settles_on_mls, rule settles_Pair)
  fix x m st
  assume "om_merge_staged M c (cg_mls (fst s), snd s) = (Ok x, m, st)"
  then have mg: "merges who c (cg_mls (fst s)) m"
    using assms(1) unfolding openmls_laws_def openmls_merges_def by (metis (full_types) old.unit.exhaust)
  have "tree_ok m" using merged_tree_ok [OF mls_ok_synced [OF assms(2)] assms(3)] mg by (simp add: merges_def)
  moreover have "\<exists>l. mg_own_leaf m = Some l \<and> own_leaf_ok C (cg_credential_id (fst s)) (cg_group_signing (fst s)) l" if "mg_active m"
    using own_leaf_kept [OF mg _ assms(4) that] assms(2) mg that by (auto simp: mls_ok_def merges_def)
  ultimately show "(mls_ok C who \<circ> fst) (sync_credential_ids (fst ((fst s)\<lparr>cg_mls := m\<rparr>, st)\<lparr>cg_pending := None\<rparr>), snd ((fst s)\<lparr>cg_mls := m\<rparr>, st))"
    using mg assms(2) by (simp add: mls_ok_def merges_def)
qed

lemma pending_commit_ok:
  assumes "mls_ok C who g" "mg_pending (cg_mls g) = Some c"
  shows "commit_ok (\<lambda>_ _. True) (who c) c g"
proof -
  obtain l0 where l0: "mg_own_leaf (cg_mls g) = Some l0" "own_leaf_ok C (cg_credential_id g) (cg_group_signing g) l0"
    and p: "pending_ok C g c" "who c = Member (mg_own (cg_mls g))"
    using assms by (auto simp: mls_ok_def)
  have "hm_get (cg_credential_ids g) (mg_own (cg_mls g)) = Some (leaf_cid l0)"
    using l0(1) ids_of_tree(2) [of "cg_mls g"] assms(1) by (simp add: mls_ok_def mg_own_leaf_def)
  moreover have "leaf_cid l0 = cg_credential_id g" using l0(2) leaf_cidI by (simp add: own_leaf_ok_def)
  ultimately have "update_ok (\<lambda>_ _. True) g (mg_own (cg_mls g)) l" if "sc_path_leaf c = Some l" for l
    using p(1) l0(1) that leaf_cidI by (fastforce simp: pending_ok_def update_ok_def own_leaf_ok_def mg_own_leaf_def)
  then show ?thesis using p by (auto simp: commit_ok_def pending_ok_def)
qed

lemma mergedD:
  assumes "merged who c t t'"
  shows "distinct (map fst t')" "(i, l) \<in> set t \<Longrightarrow> i \<notin> set (sc_removes c) \<Longrightarrow> i \<in> fst ` set t'"
    and "who = Member i \<Longrightarrow> sc_path_leaf c = Some l \<Longrightarrow> i \<in> fst ` set t \<Longrightarrow> i \<notin> set (sc_removes c) \<Longrightarrow> (i, l) \<in> set t'"
    and "(i, l) \<in> set t' \<Longrightarrow> i \<in> fst ` set t \<Longrightarrow> i \<notin> set (sc_removes c) \<Longrightarrow>
      (i, l) \<in> set t \<or> (Member i, l) \<in> set (sc_updates c) \<or> who = Member i \<and> sc_path_leaf c = Some l"
proof -
  note m = assms [unfolded merged_def]
  note m1 = m [THEN conjunct2, THEN conjunct2] note m2 = m1 [THEN conjunct2] note m3 = m2 [THEN conjunct2]
  show "distinct (map fst t')" by (rule m [THEN conjunct1])
  show "(i, l) \<in> set t \<Longrightarrow> i \<notin> set (sc_removes c) \<Longrightarrow> i \<in> fst ` set t'" by (rule m1 [THEN conjunct1, rule_format])
  show "who = Member i \<Longrightarrow> sc_path_leaf c = Some l \<Longrightarrow> i \<in> fst ` set t \<Longrightarrow> i \<notin> set (sc_removes c) \<Longrightarrow> (i, l) \<in> set t'"
    by (rule m2 [THEN conjunct1, rule_format])
  assume "(i, l) \<in> set t'" "i \<in> fst ` set t" "i \<notin> set (sc_removes c)"
  then show "(i, l) \<in> set t \<or> (Member i, l) \<in> set (sc_updates c) \<or> who = Member i \<and> sc_path_leaf c = Some l"
    using m3 [rule_format, of i l] by argo
qed

lemma own_leaf_merged:
  assumes "mls_ok C who g" "mg_pending (cg_mls g) = Some c" "merges who c (cg_mls g) m" "mg_active m"
  shows "\<exists>l. mg_own_leaf m = Some l \<and> own_leaf_ok C (cg_credential_id g) (next_signing g) l"
proof -
  let ?o = "mg_own (cg_mls g)"
  obtain l0 where l0: "mg_own_leaf (cg_mls g) = Some l0" "own_leaf_ok C (cg_credential_id g) (cg_group_signing g) l0"
    and p: "pending_ok C g c" "who c = Member ?o" and t: "tree_ok (cg_mls g)"
    using assms(1,2) by (auto simp: mls_ok_def)
  have o: "?o \<notin> set (sc_removes c)" "mg_own m = ?o" and mg: "merged (who c) c (mg_tree (cg_mls g)) (mg_tree m)"
    using assms(3,4) by (auto simp: merges_def same_group_def)
  have in0: "(?o, l0) \<in> set (mg_tree (cg_mls g))" using l0(1) by (simp add: mg_own_leaf_def map_of_SomeD)
  then have inm: "?o \<in> fst ` set (mg_tree m)" and in0': "?o \<in> fst ` set (mg_tree (cg_mls g))"
    using mergedD(2) [OF mg _ o(1)] by (blast, force)
  note d = mergedD(1) [OF mg]
  show ?thesis
  proof (cases "sc_path_leaf c")
    case None
    obtain l where l: "(?o, l) \<in> set (mg_tree m)" using inm by force
    then have "(?o, l) \<in> set (mg_tree (cg_mls g))"
      using mergedD(4) [OF mg l in0' o(1)] None p(1) by (simp add: pending_ok_def)
    then have "l = l0" using t in0 by (metis eq_key_imp_eq_value tree_ok_def)
    then show ?thesis using l d l0(2) p(1) None by (simp add: mg_own_leaf_def o(2) pending_ok_def)
  next
    case (Some l)
    note mergedD(3) [OF mg p(2) Some in0' o(1)]
    then show ?thesis using d p(1) Some by (simp add: mg_own_leaf_def o(2) pending_ok_def)
  qed
qed

lemma take_signer_fields [simp]:
  "cg_mls (take_signer C g) = cg_mls g" "cg_credential_id (take_signer C g) = cg_credential_id g"
  "cg_pending (take_signer C g) = None" "cg_group_signing (take_signer C g) = next_signing g"
  "cg_announced_keys (take_signer C g) = cg_announced_keys g"
  by (simp_all add: take_signer_def next_signing_def split: option.split)

lemma take_signer_signer:
  "cg_mls_signer g = signer_of C (cg_group_signing g) \<Longrightarrow> cg_mls_signer (take_signer C g) = signer_of C (next_signing g)"
  by (simp add: take_signer_def next_signing_def split: option.split)

lemma next_signing_mls [simp]: "next_signing (g\<lparr>cg_mls := m\<rparr>) = next_signing g"
  by (simp add: next_signing_def cong: option.case_cong)

lemma finish_own_keeps:
  assumes "openmls_laws M who" "mls_ok C who (fst s)"
  shows "settles (mls_ok C who \<circ> fst) (finish_own_commit C M now s)"
  unfolding finish_own_commit_def
proof (rule settles_on_mls, rule settles_Pair)
  fix x m st
  let ?g = "fst s"
  assume "om_merge_pending M (cg_mls ?g, snd s) = (Ok x, m, st)"
  then have mg: "case mg_pending (cg_mls ?g) of Some c \<Rightarrow> merges who c (cg_mls ?g) m | None \<Rightarrow> framed (cg_mls ?g) m"
    using assms(1) unfolding openmls_laws_def openmls_merges_def by (metis (full_types) old.unit.exhaust)
  have signer: "cg_mls_signer (take_signer C (?g\<lparr>cg_mls := m\<rparr>)) = signer_of C (next_signing ?g)"
    using assms(2) take_signer_signer [of "?g\<lparr>cg_mls := m\<rparr>" C] by (simp add: mls_ok_def)
  have "tree_ok m \<and> mg_pending m = None \<and>
    (mg_active m \<longrightarrow> (\<exists>l. mg_own_leaf m = Some l \<and> own_leaf_ok C (cg_credential_id ?g) (next_signing ?g) l))"
  proof (cases "mg_pending (cg_mls ?g)")
    case None
    then have f: "framed (cg_mls ?g) m" "cg_pending ?g = None" using mg assms(2) by (auto simp: mls_ok_def)
    then show ?thesis using mls_ok_frame [OF assms(2) f(1)] None by (auto simp: mls_ok_def framed_def next_signing_def)
  next
    case (Some c)
    then have "merges who c (cg_mls ?g) m" using mg by simp
    moreover from this have "tree_ok m"
      using merged_tree_ok [OF mls_ok_synced [OF assms(2)] pending_commit_ok [OF assms(2) Some]] by (simp add: merges_def)
    ultimately show ?thesis using own_leaf_merged [OF assms(2) Some] by (auto simp: merges_def)
  qed
  then show "(mls_ok C who \<circ> fst) (sync_credential_ids (take_signer C (fst (?g\<lparr>cg_mls := m\<rparr>, st))\<lparr>cg_last_own_update := now\<rparr>), snd (?g\<lparr>cg_mls := m\<rparr>, st))"
    using signer by (simp add: mls_ok_def)
qed

lemma mls_ok_update_time: "mls_ok C who (g\<lparr>cg_last_own_update := now\<rparr>) = mls_ok C who g"
  by (simp add: mls_ok_def pending_ok_def next_signing_def cong: option.case_cong)

lemma mls_ok_announced: "mls_ok C who (g\<lparr>cg_announced_keys := a\<rparr>) = mls_ok C who g"
  by (simp add: mls_ok_def pending_ok_def next_signing_def cong: option.case_cong)

lemma stage_keeps:
  assumes "mls_ok C who g" "staged who (cg_mls g) m c"
    and "pending_ok C (g\<lparr>cg_pending := Some \<lparr>po_kind = k, po_new_signer = sk\<rparr>\<rparr>) c"
  shows "mls_ok C who (fst (stage k sk (g\<lparr>cg_mls := m\<rparr>, st)))"
proof -
  have "pending_ok C (g\<lparr>cg_mls := m, cg_pending := Some \<lparr>po_kind = k, po_new_signer = sk\<rparr>\<rparr>) c"
    using assms(3) by (simp add: pending_ok_def next_signing_def cong: option.case_cong)
  then show ?thesis
    using assms(1,2) tree_ok_cong [of m "cg_mls g"] by (auto simp: stage_def mls_ok_def staged_def same_group_def mg_own_leaf_def)
qed

abbreviation okst :: "crypto \<Rightarrow> (StagedCommit \<Rightarrow> Sender) \<Rightarrow> gst \<Rightarrow> bool" where
  "okst C who \<equiv> mls_ok C who \<circ> fst"

lemmas settles_rules = settles_sread settles_if settles_on_mls settles_Pair

lemma no_pending: "mls_ok C who g \<Longrightarrow> ensure_no_pending g = Ok x \<Longrightarrow> cg_pending g = None"
  by (simp add: ensure_no_pending_def split: if_splits)

lemma leaf_extensions_Ok: "leaf_extensions M cid pk = Ok exts \<Longrightarrow> exts = [(CREDENTIAL_ID_EXT, cid), (GROUP_SIGNING_EXT, pk)]"
  by (auto simp: leaf_extensions_def result_simps Let_def)

lemma made_leaf_ok:
  assumes "lf_extensions l = [(CREDENTIAL_ID_EXT, cid), (GROUP_SIGNING_EXT, lib_ed_public C sk)]"
    and "lf_signature_key l = lib_ed_public C sk" "length cid = KEY_LEN" "is_ok (identity_pk_from_credential (lf_credential l))"
  shows "own_leaf_ok C cid sk l"
  using assms by (simp add: own_leaf_ok_def check_new_leaf_Ok extension_bytes_def CREDENTIAL_ID_EXT_def GROUP_SIGNING_EXT_def)

lemma own_leafE:
  assumes "mls_ok C who g" "mg_active (cg_mls g)"
  obtains l where "mg_own_leaf (cg_mls g) = Some l" "own_leaf_ok C (cg_credential_id g) (cg_group_signing g) l"
    "length (cg_credential_id g) = KEY_LEN" "is_ok (identity_pk_from_credential (lf_credential l))"
  using assms by (auto simp: mls_ok_def own_leaf_ok_def check_new_leaf_Ok)

lemma self_update_keeps:
  assumes "openmls_laws M who" "mls_ok C who (fst s)"
  shows "settles (okst C who) (self_update C M e now s)"
  unfolding self_update_def
proof (intro settles_sread settles_on_mls)
  fix x exts b m st
  assume np: "ensure_no_pending (fst s) = Ok x" and ex: "own_leaf_extensions C M (fst s) = Ok exts"
    and u: "om_self_update M e (cg_mls_signer (fst s)) exts (cg_mls (fst s), snd s) = (Ok b, m, st)"
  obtain c l l0 where c: "staged who (cg_mls (fst s)) m c" "sc_queued c = []" "sc_path_leaf c = Some l"
    "mg_own_leaf (cg_mls (fst s)) = Some l0" "lf_extensions l = exts" "lf_signature_key l = lf_signature_key l0" "lf_credential l = lf_credential l0"
    using assms(1) u unfolding openmls_laws_def openmls_stages_def by metis
  then have act: "mg_active (cg_mls (fst s))" by (simp add: staged_def)
  have "own_leaf_ok C (cg_credential_id (fst s)) (cg_group_signing (fst s)) l"
    by (rule own_leafE [OF assms(2) act], rule made_leaf_ok)
      (use c ex in \<open>auto simp: own_leaf_extensions_def group_signing_public_def own_leaf_ok_def dest!: leaf_extensions_Ok\<close>)
  then have "pending_ok C ((fst s)\<lparr>cg_pending := Some \<lparr>po_kind = Update, po_new_signer = None\<rparr>\<rparr>) c"
    using c(2,3) by (simp add: pending_ok_def next_signing_def sc_updates_def sc_adds_def List.map_filter_simps)
  from stage_keeps [OF assms(2) c(1) this, of st]
  show "settles (okst C who) (let s = stage Update None ((fst s)\<lparr>cg_mls := m\<rparr>, st); s = ((fst s)\<lparr>cg_last_own_update := now\<rparr>, snd s)
      in (serialize_msg M b, s))"
    by (simp add: Let_def settles_Pair mls_ok_update_time)
qed (use assms(2) in simp_all)

lemma own_path_ok:
  assumes "mls_ok C who g" "staged who (cg_mls g) m c" "own_path (cg_mls g) c" "sc_path_leaf c = Some l"
  shows "own_leaf_ok C (cg_credential_id g) (cg_group_signing g) l"
proof -
  obtain l0 where l0: "mg_own_leaf (cg_mls g) = Some l0" "lf_extensions l = lf_extensions l0"
    "lf_signature_key l = lf_signature_key l0" "lf_credential l = lf_credential l0"
    using assms(3,4) unfolding own_path_def by blast
  have "mg_active (cg_mls g)" using assms(2) by (simp add: staged_def)
  then have "own_leaf_ok C (cg_credential_id g) (cg_group_signing g) l0" using assms(1) l0(1) by (simp add: mls_ok_def)
  then show ?thesis using l0 by (simp add: own_leaf_ok_def check_new_leaf_Ok)
qed

lemma queued_simps:
  "sc_queued c = [\<lparr>qp_sender = a, qp_proposal = AddP l\<rparr>] \<Longrightarrow> sc_updates c = [] \<and> sc_adds c = [l] \<and> sc_removes c = []"
  "sc_queued c = [\<lparr>qp_sender = a, qp_proposal = RemoveP i\<rparr>] \<Longrightarrow> sc_updates c = [] \<and> sc_adds c = [] \<and> sc_removes c = [i]"
  "sc_queued c = [] \<Longrightarrow> sc_updates c = [] \<and> sc_adds c = [] \<and> sc_removes c = []"
  by (simp_all add: sc_updates_def sc_adds_def sc_removes_def List.map_filter_simps)

lemma cg_admit_keeps:
  assumes "openmls_laws M who" "mls_ok C who (fst s)"
  shows "settles (okst C who) (cg_admit M e bs cid s)"
proof -
  have "settles (okst C who) ((\<lambda>(commit, welcome) s. let s = stage Add None s in
           sread (serialize_msg M commit) s (\<lambda>c. sread (serialize_msg M welcome) s (\<lambda>w. (Ok (c, w), s)))) p ((fst s)\<lparr>cg_mls := m\<rparr>, st))"
    if kp: "check_new_leaf (kp_leaf kp) = Ok cid" "\<not> list_ex (\<lambda>c. c = cid) (map snd (cg_credential_ids (fst s)))"
      and a: "om_add_member M e (cg_mls_signer (fst s)) kp (cg_mls (fst s), snd s) = (Ok p, m, st)" for kp p m st
  proof -
    obtain c where c: "staged who (cg_mls (fst s)) m c" "own_path (cg_mls (fst s)) c"
      "sc_queued c = [\<lparr>qp_sender = Member (mg_own (cg_mls (fst s))), qp_proposal = AddP (kp_leaf kp)\<rparr>]"
      using assms(1) a unfolding openmls_laws_def openmls_stages_def by metis
    have "pending_ok C ((fst s)\<lparr>cg_pending := Some \<lparr>po_kind = Add, po_new_signer = None\<rparr>\<rparr>) c"
      using own_path_ok [OF assms(2) c(1,2)] queued_simps(1) [OF c(3)] kp leaf_cidI [OF kp(1)]
      by (auto simp: pending_ok_def next_signing_def list_ex_iff)
    from stage_keeps [OF assms(2) c(1) this, of st] show ?thesis
      by (auto simp: Let_def split: prod.split intro!: settles_sread settles_Pair)
  qed
  then show ?thesis
    unfolding cg_admit_def using assms(2) by (intro settles_rules) simp_all
qed

lemma id_pk_Ok: "identity_pk_from_credential c = Ok pk \<longleftrightarrow> c = BasicCredential pk \<and> length pk = KEY_LEN"
  by (cases c) (auto simp: identity_pk_from_credential_def copy_fixed_eq_Ok)

lemma cg_remove_keeps:
  assumes "openmls_laws M who" "mls_ok C who (fst s)"
  shows "settles (okst C who) (cg_remove C M e gid cid s)"
proof -
  have "settles (okst C who) ((\<lambda>commit s. let s = stage Remove None s in
       sread (serialize_msg M commit) s (\<lambda>c. (lift (rb_sign C (cg_group_signing (fst s)) gid cid c), s))) b ((fst s)\<lparr>cg_mls := m\<rparr>, st))"
    if rm: "om_remove_member M e (cg_mls_signer (fst s)) i (cg_mls (fst s), snd s) = (Ok b, m, st)" for i b m st
  proof -
    obtain c where c: "staged who (cg_mls (fst s)) m c" "own_path (cg_mls (fst s)) c"
      "sc_queued c = [\<lparr>qp_sender = Member (mg_own (cg_mls (fst s))), qp_proposal = RemoveP i\<rparr>]"
      using assms(1) rm unfolding openmls_laws_def openmls_stages_def by metis
    have "pending_ok C ((fst s)\<lparr>cg_pending := Some \<lparr>po_kind = Remove, po_new_signer = None\<rparr>\<rparr>) c"
      using own_path_ok [OF assms(2) c(1,2)] queued_simps(2) [OF c(3)] by (simp add: pending_ok_def next_signing_def)
    from stage_keeps [OF assms(2) c(1) this, of st] show ?thesis by (auto simp: Let_def intro!: settles_rules)
  qed
  then show ?thesis unfolding cg_remove_def using assms(2) by (intro settles_rules) simp_all
qed

lemma new_group_keys_Ok: "new_group_keys C M sk st = (Ok (sp, sk'), st') \<Longrightarrow> sp = signer_of C sk \<and> sk' = sk"
  by (auto simp: new_group_keys_def result_simps split: prod.splits)

lemma settles_sbind:
  assumes "P (snd m)" "\<And>x. fst m = Ok x \<Longrightarrow> settles P (f x (snd m))"
  shows "settles P (sbind m f)"
  using assms by (cases m; cases "fst m") (auto simp: settles_def)

lemma rotate_keeps:
  assumes "openmls_laws M who" "mls_ok C who (fst s)"
  shows "settles (okst C who) (rotate_signing_key C M e sk s)"
proof -
  have staged: "settles (okst C who) ((\<lambda>commit s. let s = stage SigningKeyRotate (Some sk) s in
       sread (serialize_msg M commit) s (\<lambda>bs. (Ok (replace, bs), s))) b ((fst s)\<lparr>cg_mls := m\<rparr>, st'))"
    if ex: "leaf_extensions M (cg_credential_id (fst s)) (lib_ed_public C sk) = Ok exts" and pk: "own_identity_pk (fst s) = Ok pk"
      and u: "om_self_update_signer M e sp (signer_of C sk) (BasicCredential pk) exts (cg_mls (fst s), st) = (Ok b, m, st')"
    for exts pk b m st st' sp replace
  proof -
    obtain c l where c: "staged who (cg_mls (fst s)) m c" "sc_queued c = []" "sc_path_leaf c = Some l"
      "lf_extensions l = exts" "lf_signature_key l = sp_public (signer_of C sk)" "lf_credential l = BasicCredential pk"
      using assms(1) u unfolding openmls_laws_def openmls_stages_def by metis
    have act: "mg_active (cg_mls (fst s))" using c(1) by (simp add: staged_def)
    have "length pk = KEY_LEN" using pk by (auto simp: own_identity_pk_def result_simps id_pk_Ok)
    then have "own_leaf_ok C (cg_credential_id (fst s)) sk l"
      using own_leafE [OF assms(2) act] c(4-6) leaf_extensions_Ok [OF ex]
      by (intro made_leaf_ok) (auto simp: signer_of_def identity_pk_from_credential_def copy_fixed_def)
    then have "pending_ok C ((fst s)\<lparr>cg_pending := Some \<lparr>po_kind = SigningKeyRotate, po_new_signer = Some sk\<rparr>\<rparr>) c"
      using c(3) queued_simps(3) [OF c(2)] by (simp add: pending_ok_def next_signing_def)
    from stage_keeps [OF assms(2) c(1) this, of st'] show ?thesis by (auto simp: Let_def intro!: settles_rules)
  qed
  obtain r st where k: "new_group_keys C M sk (snd s) = (r, st)" by (rule prod.exhaust)
  show ?thesis
  proof (cases r)
    case (Inl e')
    then show ?thesis using assms(2) k by (auto simp: rotate_signing_key_def intro!: settles_rules)
  next
    case (Inr p)
    then have r: "r = Ok (signer_of C sk, sk)" using new_group_keys_Ok k by (cases p) blast
    show ?thesis
      unfolding rotate_signing_key_def k r prod.case sbind_simps using assms(2)
      by (intro settles_sread settles_on_mls) (simp_all only: fst_conv snd_conv comp_apply, rule staged, assumption+)
  qed
qed

lemma processE:
  assumes "openmls_laws M who" "mls_ok C who (fst s)" "cg_process M bs s = (r, s1)"
  shows "mls_ok C who (fst s1)" "mg_tree (cg_mls (fst s1)) = mg_tree (cg_mls (fst s))"
    and "cg_credential_ids (fst s1) = cg_credential_ids (fst s)" "cg_announced_keys (fst s1) = cg_announced_keys (fst s)"
    and "cg_pending (fst s1) = cg_pending (fst s)"
    and "r = Ok p \<Longrightarrow> pr_content p = StagedCommitMessage c \<Longrightarrow> who c = pr_sender p \<and> foreign who (cg_mls (fst s1)) c"
proof -
  obtain m st where s1: "s1 = ((fst s)\<lparr>cg_mls := m\<rparr>, st)" and f: "framed (cg_mls (fst s)) m"
    and c: "\<forall>p c. r = Ok p \<longrightarrow> pr_content p = StagedCommitMessage c \<longrightarrow> who c = pr_sender p \<and> foreign who (cg_mls (fst s)) c"
    using cg_process_frame [OF assms(1,3)] by blast
  then show "mls_ok C who (fst s1)" "mg_tree (cg_mls (fst s1)) = mg_tree (cg_mls (fst s))"
    "cg_credential_ids (fst s1) = cg_credential_ids (fst s)" "cg_announced_keys (fst s1) = cg_announced_keys (fst s)"
    "cg_pending (fst s1) = cg_pending (fst s)"
    using mls_ok_frame [OF assms(2) f] by (simp_all add: framed_def)
  show "r = Ok p \<Longrightarrow> pr_content p = StagedCommitMessage c \<Longrightarrow> who c = pr_sender p \<and> foreign who (cg_mls (fst s1)) c"
    using c f by (auto simp: s1 foreign_def framed_def same_group_def)
qed

lemma settles_process:
  assumes "openmls_laws M who" "mls_ok C who (fst s)"
    and "\<And>p s1. cg_process M bs s = (Ok p, s1) \<Longrightarrow> mls_ok C who (fst s1) \<Longrightarrow> settles (okst C who) (k p s1)"
  shows "settles (okst C who) (sbind (cg_process M bs s) k)"
proof -
  obtain r s1 where p: "cg_process M bs s = (r, s1)" by (rule prod.exhaust)
  show ?thesis using processE(1) [OF assms(1,2) p] assms(3) p by (cases r) (auto simp: settles_def)
qed

lemma merge_checked_keeps:
  assumes "openmls_laws M who" "mls_ok C who (fst s)" "validate_commit c (who c) (fst s) = Ok ()" "foreign who (cg_mls (fst s)) c"
  shows "settles (okst C who) (merge_foreign M c s)"
  by (rule merge_foreign_keeps [OF assms(1,2) validate_commit_ok [OF assms(3)] assms(4)])

lemma apply_handshake_keeps:
  assumes "openmls_laws M who" "mls_ok C who (fst s)"
  shows "settles (okst C who) (apply_handshake C M now msg s)"
  unfolding apply_handshake_def
proof (rule settles_process [OF assms])
  fix p s1
  assume p: "cg_process M msg s = (Ok p, s1)" "mls_ok C who (fst s1)"
  note fin = finish_own_keeps [OF assms(1) p(2)]
  show "settles (okst C who) (case pr_content p of
       OwnPendingCommit \<Rightarrow> finish_own_commit C M now s1
     | OwnPrivateMessage \<Rightarrow>
         if cg_pending (fst s1) \<noteq> None then finish_own_commit C M now s1
         else (Err (Mls ''own private message in handshake path''), s1)
     | StagedCommitMessage c \<Rightarrow>
         if is_external_commit c then (Err ExternalMlsJoin, s1)
         else if staged_remove_count c > 0 then (Err UnframedRemove, s1)
         else sread (validate_commit c (pr_sender p) (fst s1)) s1 (\<lambda>_. merge_foreign M c s1)
     | ExternalJoinProposalMessage \<Rightarrow> (Err ExternalMlsJoin, s1)
     | ProposalMessage q \<Rightarrow>
         (Err (if is_reinit q then MlsReinit else Mls ''standalone proposal is not used in v1''), s1)
     | ApplicationMessage _ \<Rightarrow> (Err (Mls ''handshake path got an application message''), s1))"
  proof (cases "pr_content p")
    case (StagedCommitMessage c)
    note c = processE(6) [OF assms p(1) refl StagedCommitMessage]
    show ?thesis unfolding StagedCommitMessage using p(2) merge_checked_keeps [OF assms(1) p(2), of c] c
      by (simp add: settles_Pair settles_sread)
  qed (use p(2) fin in \<open>simp_all add: settles_Pair\<close>)
qed

lemma apply_remove_bundle_keeps:
  assumes "openmls_laws M who" "mls_ok C who (fst s)"
  shows "settles (okst C who) (apply_remove_bundle C M now gid b s)"
  unfolding apply_remove_bundle_def
proof (rule settles_process [OF assms], intro settles_if settles_sread)
  fix p s1 pk x
  assume p: "cg_process M (rb_mls_commit b) s = (Ok p, s1)" "mls_ok C who (fst s1)"
  show "settles (okst C who) (finish_own_commit C M now s1)" by (rule finish_own_keeps [OF assms(1) p(2)])
  show "okst C who s1" using p(2) by simp
  then show "okst C who s1" .
  show "settles (okst C who) (case pr_content p of
         StagedCommitMessage c \<Rightarrow>
           if is_external_commit c then (Err ExternalMlsJoin, s1)
           else if staged_remove_count c \<noteq> 1 then (Err BadRemoveBundle, s1)
           else if \<not> staged_remove_matches c (rb_credential_id b) (fst s1) then (Err BadRemoveBundle, s1)
           else sread (validate_commit c (pr_sender p) (fst s1)) s1 (\<lambda>_. merge_foreign M c s1)
       | _ \<Rightarrow> (Err (Mls ''RemoveBundle body is not a Commit''), s1))"
  proof (cases "pr_content p")
    case (StagedCommitMessage c)
    note c = processE(6) [OF assms p(1) refl StagedCommitMessage]
    show ?thesis unfolding StagedCommitMessage using p(2) merge_checked_keeps [OF assms(1) p(2), of c] c
      by (simp add: settles_Pair settles_sread)
  qed (use p(2) in \<open>simp_all add: settles_Pair\<close>)
qed

lemma discard_keeps:
  assumes "openmls_laws M who" "mls_ok C who (fst s)"
  shows "settles (okst C who) (discard_pending M s)"
  unfolding discard_pending_def
proof (rule settles_on_mls, rule settles_Pair)
  fix x m st
  assume "om_clear_pending M (cg_mls (fst s), snd s) = (Ok x, m, st)"
  then have "same_group (cg_mls (fst s)) m \<and> mg_active m = mg_active (cg_mls (fst s)) \<and> mg_tree m = mg_tree (cg_mls (fst s)) \<and> mg_pending m = None"
    using assms(1) unfolding openmls_laws_def openmls_merges_def by (metis (full_types) old.unit.exhaust)
  then show "okst C who (fst ((fst s)\<lparr>cg_mls := m\<rparr>, st)\<lparr>cg_pending := None\<rparr>, snd ((fst s)\<lparr>cg_mls := m\<rparr>, st))"
    using assms(2) tree_ok_cong [of m "cg_mls (fst s)"] by (simp add: mls_ok_def same_group_def mg_own_leaf_def)
qed

lemma messages_keep:
  assumes "openmls_laws M who" "mls_ok C who (fst s)"
  shows "settles (okst C who) (cg_encrypt M e now plaintext s)" "settles (okst C who) (decrypt_with_sender C M bs s)"
    and "settles (okst C who) (apply_signing_key_replace C bs s)"
proof -
  have "framed m m'" if "om_create_message M e sp b (m, st) = (r, m', st')" for e sp b m st r m' st'
    using assms(1) that unfolding openmls_laws_def openmls_reads_def by blast
  then show "settles (okst C who) (cg_encrypt M e now plaintext s)"
    unfolding cg_encrypt_def using assms(2) mls_ok_frame by (intro settles_rules) (fastforce simp: comp_def)+
  show "settles (okst C who) (decrypt_with_sender C M bs s)"
    unfolding decrypt_with_sender_def by (rule settles_process [OF assms]) (auto intro!: settles_rules split: Content.split)
  show "settles (okst C who) (apply_signing_key_replace C bs s)"
    unfolding apply_signing_key_replace_def using assms(2) by (auto intro!: settles_rules simp: mls_ok_announced split: option.split)
qed

subsection \<open>Runs of a group\<close>

definition settled :: "'a cresult \<Rightarrow> bool" where
  "settled r \<longleftrightarrow> (\<forall>t. r \<noteq> Err (Mls t))"

text \<open>A step is an operation that did not fail inside OpenMLS; it may well have been refused.\<close>

inductive mls_step :: "crypto \<Rightarrow> openmls \<Rightarrow> gst \<Rightarrow> gst \<Rightarrow> bool" for C M where
  handshake: "apply_handshake C M now msg s = (r, s') \<Longrightarrow> settled r \<Longrightarrow> mls_step C M s s'"
| remove_bundle: "apply_remove_bundle C M now gid b s = (r, s') \<Longrightarrow> settled r \<Longrightarrow> mls_step C M s s'"
| replace_key: "apply_signing_key_replace C body s = (r, s') \<Longrightarrow> settled r \<Longrightarrow> mls_step C M s s'"
| update: "self_update C M e now s = (r, s') \<Longrightarrow> settled r \<Longrightarrow> mls_step C M s s'"
| rotate_key: "rotate_signing_key C M e sk s = (r, s') \<Longrightarrow> settled r \<Longrightarrow> mls_step C M s s'"
| admit_member: "cg_admit M e kp cid s = (r, s') \<Longrightarrow> settled r \<Longrightarrow> mls_step C M s s'"
| remove_member: "cg_remove C M e gid cid s = (r, s') \<Longrightarrow> settled r \<Longrightarrow> mls_step C M s s'"
| discard: "discard_pending M s = (r, s') \<Longrightarrow> settled r \<Longrightarrow> mls_step C M s s'"
| send: "cg_encrypt M e now plaintext s = (r, s') \<Longrightarrow> settled r \<Longrightarrow> mls_step C M s s'"
| receive: "decrypt_with_sender C M bs s = (r, s') \<Longrightarrow> settled r \<Longrightarrow> mls_step C M s s'"

lemma settlesD: "settles (okst C who) m \<Longrightarrow> m = (r, s) \<Longrightarrow> settled r \<Longrightarrow> mls_ok C who (fst s)"
  by (auto simp: settles_def settled_def)

lemmas group_ops_keep = apply_handshake_keeps apply_remove_bundle_keeps messages_keep self_update_keeps rotate_keeps
  cg_admit_keeps cg_remove_keeps discard_keeps

lemma mls_step_keeps:
  assumes "openmls_laws M who"
  shows "mls_step C M s s' \<Longrightarrow> mls_ok C who (fst s) \<Longrightarrow> mls_ok C who (fst s')"
  by (induction rule: mls_step.induct) (blast intro: settlesD group_ops_keep [OF assms])+

lemma merge_foreign_Ok:
  assumes "merge_foreign M c s = (Ok out, s')" "openmls_laws M who"
  shows "\<exists>m. merges who c (cg_mls (fst s)) m \<and> cg_mls (fst s') = m \<and> cg_pending (fst s') = None \<and>
    out = (if cg_pending (fst s) = None then Applied else OwnCommitSuperseded)"
proof -
  obtain m st where m: "om_merge_staged M c (cg_mls (fst s), snd s) = (Ok (), m, st)" "s' = (sync_credential_ids ((fst s)\<lparr>cg_mls := m, cg_pending := None\<rparr>), st)"
    "out = (if cg_pending (fst s) = None then Applied else OwnCommitSuperseded)"
    using assms(1) by (auto simp: merge_foreign_def Let_def result_simps on_mls_Ok)
  moreover have "merges who c (cg_mls (fst s)) m" using assms(2) m(1) unfolding openmls_laws_def openmls_merges_def by blast
  ultimately show ?thesis by simp
qed

text \<open>The member at leaf \<open>i\<close> is the same before and after: its credential id stays, and its signing key is
  the old one or the one a \<open>SigningKeyReplace\<close> under the old key announced.\<close>

definition same_member :: "Group \<Rightarrow> Leaf \<Rightarrow> Leaf \<Rightarrow> bool" where
  "same_member g l l' \<longleftrightarrow> leaf_cid l' = leaf_cid l \<and> (lf_signature_key l' = lf_signature_key l \<or> announced g l l')"

lemma merged_members:
  assumes "mls_ok C who g" "commit_ok (announced g) (who c) c g" "merges who c (cg_mls g) m"
  shows "\<forall>(i, l) \<in> set (mg_tree (cg_mls g)). i \<notin> set (sc_removes c) \<longrightarrow> (\<exists>l'. (i, l') \<in> set (mg_tree m) \<and> same_member g l l')"
    and "\<forall>(i, l') \<in> set (mg_tree m). leaf_ok l' \<and>
      (i \<notin> fst ` set (mg_tree (cg_mls g)) \<or> i \<in> set (sc_removes c) \<longrightarrow> leaf_cid l' \<notin> leaf_cid ` snd ` set (mg_tree (cg_mls g)))"
proof -
  have mg: "merged (who c) c (mg_tree (cg_mls g)) (mg_tree m)" and d: "distinct (map fst (mg_tree (cg_mls g)))"
    using assms(1,3) by (auto simp: merges_def mls_ok_def tree_ok_def)
  note leaf = merged_leaf [OF mls_ok_synced [OF assms(1)] assms(2) mg]
  show "\<forall>(i, l) \<in> set (mg_tree (cg_mls g)). i \<notin> set (sc_removes c) \<longrightarrow> (\<exists>l'. (i, l') \<in> set (mg_tree m) \<and> same_member g l l')"
  proof clarify
    fix i l assume i: "(i, l) \<in> set (mg_tree (cg_mls g))" "i \<notin> set (sc_removes c)"
    then obtain l' where l': "(i, l') \<in> set (mg_tree m)" using mergedD(2) [OF mg i] by force
    then show "\<exists>l'. (i, l') \<in> set (mg_tree m) \<and> same_member g l l'"
      using leaf [OF l'] i d by (auto simp: same_member_def)
  qed
  show "\<forall>(i, l') \<in> set (mg_tree m). leaf_ok l' \<and>
      (i \<notin> fst ` set (mg_tree (cg_mls g)) \<or> i \<in> set (sc_removes c) \<longrightarrow> leaf_cid l' \<notin> leaf_cid ` snd ` set (mg_tree (cg_mls g)))"
  proof (clarify, intro conjI impI)
    fix i l' assume l': "(i, l') \<in> set (mg_tree m)"
    show "leaf_ok l'" using leaf [OF l'] by blast
    assume "i \<notin> fst ` set (mg_tree (cg_mls g)) \<or> i \<in> set (sc_removes c)"
    then have "map_of (mg_tree (cg_mls g)) i = None \<or> i \<in> set (sc_removes c)" by (simp add: map_of_eq_None_iff)
    then show "leaf_cid l' \<notin> leaf_cid ` snd ` set (mg_tree (cg_mls g))" using leaf [OF l'] by (auto split: option.splits)
  qed
qed

text \<open>A group is created, or joined with a leaf whose key is the one the key package was made with.\<close>

inductive mls_start :: "crypto \<Rightarrow> openmls \<Rightarrow> Group \<Rightarrow> bool" for C M where
  created: "in_create_group C M e cid sk now i = (Ok g, i') \<Longrightarrow> length cid = KEY_LEN \<Longrightarrow> mls_start C M g"
| joined: "pj_join C M now bs j st = (Ok g, st') \<Longrightarrow> pj_mls_signer j = signer_of C (pj_group_signing j) \<Longrightarrow>
    map_option lf_signature_key (mg_own_leaf (cg_mls g)) = Some (lib_ed_public C (pj_group_signing j)) \<Longrightarrow> mls_start C M g"

lemma new_group_fields [simp]:
  "cg_mls (new_group C m sp sk cid now) = m" "cg_mls_signer (new_group C m sp sk cid now) = sp"
  "cg_group_signing (new_group C m sp sk cid now) = sk" "cg_credential_id (new_group C m sp sk cid now) = cid"
  "cg_pending (new_group C m sp sk cid now) = None" "cg_credential_ids (new_group C m sp sk cid now) = ids_by_leaf m"
  by (simp_all add: new_group_def)

lemma check_leaves_Ok: "check_leaves ls = Ok () \<Longrightarrow> l \<in> set ls \<Longrightarrow> leaf_ok l"
  by (induction ls) (auto simp: result_simps dest: leaf_cidI)

lemma mls_case_Ok: "(case x of (r, st) \<Rightarrow> (mls_err r, st)) = (Ok m, st') \<longleftrightarrow> x = (Ok m, st')"
  by (cases x) (simp add: result_simps)

lemma mls_start_ok:
  assumes "openmls_starts M" "ed25519_correct C"
  shows "mls_start C M g \<Longrightarrow> mls_ok C who g"
proof (induction rule: mls_start.induct)
  case (created e cid sk now i g i')
  then obtain st m st' where m: "om_new_group M e (signer_of C sk) [(CREDENTIAL_ID_EXT, cid), (GROUP_SIGNING_EXT, lib_ed_public C sk)]
      (BasicCredential (in_public_key C i)) st = (Ok m, st')" "g = new_group C m (signer_of C sk) sk cid now"
    by (auto simp: in_create_group_def on_storage_def result_simps group_create_config_def in_public_key_def
        dest!: leaf_extensions_Ok new_group_keys_Ok split: prod.splits if_splits)
  let ?l = "\<lparr>lf_extensions = [(CREDENTIAL_ID_EXT, cid), (GROUP_SIGNING_EXT, lib_ed_public C sk)],
    lf_signature_key = lib_ed_public C sk, lf_credential = BasicCredential (in_public_key C i)\<rparr>"
  have l: "own_leaf_ok C cid sk ?l" using assms(2) created(2)
    by (intro made_leaf_ok) (simp_all add: identity_pk_from_credential_def copy_fixed_def in_public_key_def ed25519_correct_def KEY_LEN_def)
  have t: "mg_tree m = [(mg_own m, ?l)]" "mg_pending m = None" "mg_active m"
    using assms(1) m(1) unfolding openmls_starts_def by (fastforce simp: signer_of_def)+
  have "tree_ok m" using l leaf_cidI [of ?l cid] by (simp add: t tree_ok_def own_leaf_ok_def)
  then show ?case using t l by (simp add: m(2) mls_ok_def mg_own_leaf_def)
next
  case (joined now bs j st g st')
  obtain raw exts st0 m where m: "om_join M exts raw st = (Ok m, st')"
    "g = new_group C m (pj_mls_signer j) (pj_group_signing j) (pj_credential_id j) now"
    "case mg_own_leaf m of Some own \<Rightarrow> check_new_leaf own = Ok (pj_credential_id j) | None \<Rightarrow> False"
    "check_leaves (map snd (mg_tree m)) = Ok ()"
    using joined(1) by (auto simp: pj_join_def result_simps mls_case_Ok Let_def split: if_splits cong: option.case_cong)
  have "tree_ok m" using assms(1) m(1) check_leaves_Ok [OF m(4)] unfolding openmls_starts_def tree_ok_def by fastforce
  moreover have "mg_pending m = None" using assms(1) m(1) unfolding openmls_starts_def by blast
  ultimately show ?case using joined(2,3) m(3) by (auto simp: m(2) mls_ok_def own_leaf_ok_def split: option.splits)
qed

section \<open>Theorems\<close>


text \<open>
  C19. A handshake from another member loses nobody and changes nobody's credential id: every member
  stays at its leaf with its id and with the key it had or one it announced under that key; a
  leaf that is new has an id that was not in use. A commit of one's own that was pending is gone.
\<close>

theorem handshake_keeps_members:
  assumes "openmls_laws M who" "mls_ok C who (fst s)" "apply_handshake C M now msg s = (Ok out, s')" "out \<noteq> OwnCommitMerged"
  shows "(\<forall>(i, l) \<in> set (mg_tree (cg_mls (fst s))). \<exists>l'. (i, l') \<in> set (mg_tree (cg_mls (fst s'))) \<and> same_member (fst s) l l') \<and>
    (\<forall>(i, l') \<in> set (mg_tree (cg_mls (fst s'))). leaf_ok l' \<and>
       (i \<notin> fst ` set (mg_tree (cg_mls (fst s))) \<longrightarrow> leaf_cid l' \<notin> leaf_cid ` snd ` set (mg_tree (cg_mls (fst s))))) \<and>
    cg_pending (fst s') = None \<and> (out = OwnCommitSuperseded \<longleftrightarrow> cg_pending (fst s) \<noteq> None)"
proof -
  obtain p s1 where p: "cg_process M msg s = (Ok p, s1)" using assms(3) by (auto simp: apply_handshake_def result_simps)
  note s1 = processE [OF assms(1,2) p]
  have "finish_own_commit C M now s1 \<noteq> (Ok out, s')" using assms(4) by (auto simp: finish_own_commit_def result_simps)
  then obtain c where c: "pr_content p = StagedCommitMessage c" "staged_remove_count c = 0"
    and v: "validate_commit c (pr_sender p) (fst s1) = Ok ()" and mf: "merge_foreign M c s1 = (Ok out, s')"
    using assms(3) p by (auto simp: apply_handshake_def result_simps split: Content.splits if_splits)
  have rem: "sc_removes c = []" using c(2) by (simp add: staged_remove_count_def)
  have ck: "commit_ok (announced (fst s1)) (who c) c (fst s1)" using validate_commit_ok [OF v] s1(6) [OF refl c(1)] by simp
  obtain m where m: "merges who c (cg_mls (fst s1)) m" "cg_mls (fst s') = m" "cg_pending (fst s') = None"
    "out = (if cg_pending (fst s1) = None then Applied else OwnCommitSuperseded)"
    using merge_foreign_Ok [OF mf assms(1)] by blast
  have "(\<forall>(i, l) \<in> set (mg_tree (cg_mls (fst s1))). \<exists>l'. (i, l') \<in> set (mg_tree m) \<and> same_member (fst s1) l l') \<and>
    (\<forall>(i, l') \<in> set (mg_tree m). leaf_ok l' \<and>
       (i \<notin> fst ` set (mg_tree (cg_mls (fst s1))) \<longrightarrow> leaf_cid l' \<notin> leaf_cid ` snd ` set (mg_tree (cg_mls (fst s1)))))"
    using merged_members [OF s1(1) ck m(1)] by (simp add: rem)
  moreover have "same_member (fst s1) = same_member (fst s)" by (simp add: same_member_def announced_def s1(4) fun_eq_iff)
  ultimately show ?thesis using m s1(2,5) by auto
qed

lemma staged_remove_matches_one:
  assumes "staged_remove_count c = 1" "staged_remove_matches c cid g"
  shows "\<exists>i. sc_removes c = [i] \<and> credential_id_at i g = Some cid"
  using assms by (cases "sc_removes c") (auto simp: staged_remove_count_def staged_remove_matches_def split: if_splits)


text \<open>
  Credential ids are checked against the tree only, not against each other: a commit that adds two
  members with the same id passes, and the group then has two members no bundle can tell apart.
\<close>

theorem double_add_accepted:
  assumes "leaf_ok l1" "leaf_ok l2" "leaf_cid l1 = cid" "leaf_cid l2 = cid" "cid \<notin> snd ` set (cg_credential_ids g)"
  shows "validate_commit \<lparr>sc_queued = [\<lparr>qp_sender = who, qp_proposal = AddP l1\<rparr>, \<lparr>qp_sender = who, qp_proposal = AddP l2\<rparr>],
    sc_path_leaf = None, sc_raw = raw\<rparr> who g = Ok ()"
  using assms by (auto simp: validate_commit_def sc_updates_def sc_adds_def check_path_def List.map_filter_simps leaf_ok_def list_ex_iff)

text \<open>
  The identity in a leaf is not authenticated: whatever 32-byte key a member names as its identity
  in an update of its leaf, the check is the same, so a member can take another's identity, under
  which its messages are then shown.
\<close>

theorem leaf_identity_free:
  assumes "length pk = KEY_LEN" "length pk' = KEY_LEN"
  shows "check_leaf_update i (l\<lparr>lf_credential := BasicCredential pk'\<rparr>) g = check_leaf_update i (l\<lparr>lf_credential := BasicCredential pk\<rparr>) g \<and>
    check_new_leaf (l\<lparr>lf_credential := BasicCredential pk'\<rparr>) = check_new_leaf (l\<lparr>lf_credential := BasicCredential pk\<rparr>)"
proof -
  have "check_new_leaf (l\<lparr>lf_credential := BasicCredential pk'\<rparr>) = check_new_leaf (l\<lparr>lf_credential := BasicCredential pk\<rparr>)"
    using assms by (simp add: check_new_leaf_def identity_pk_from_credential_def copy_fixed_def cong: if_cong)
  then show ?thesis by (simp add: check_leaf_update_def cong: if_cong option.case_cong)
qed

text \<open>
  C39. An update that was refused counts as one: the clock of the 72-hour rule is set when the update is
  staged and not set back when it is discarded, so for three more days the member sends at an
  epoch it never healed.
\<close>

theorem refused_update_counts:
  assumes "openmls_laws M who" "self_update C M e now s = (Ok b, s1)" "discard_pending M s1 = (Ok (), s2)" "t \<le> now + UPDATE_BEFORE_SEND"
  shows "ensure_fresh_update t (fst s2) = Ok () \<and> mg_tree (cg_mls (fst s2)) = mg_tree (cg_mls (fst s)) \<and> mg_pending (cg_mls (fst s2)) = None"
proof -
  obtain exts c m st where u: "om_self_update M e (cg_mls_signer (fst s)) exts (cg_mls (fst s), snd s) = (Ok c, m, st)"
    and s1: "cg_mls (fst s1) = m" "cg_last_own_update (fst s1) = now"
    using assms(2) by (auto simp: self_update_def result_simps on_mls_Ok Let_def stage_def)
  obtain m' st' where cl: "om_clear_pending M (m, snd s1) = (Ok (), m', st')"
    and s2: "cg_mls (fst s2) = m'" "cg_last_own_update (fst s2) = cg_last_own_update (fst s1)"
    using assms(3) s1 by (auto simp: discard_pending_def result_simps on_mls_Ok)
  have "mg_tree m = mg_tree (cg_mls (fst s))"
    using assms(1) u unfolding openmls_laws_def openmls_stages_def staged_def by metis
  moreover have "mg_tree m' = mg_tree m \<and> mg_pending m' = None"
    using assms(1) cl unfolding openmls_laws_def openmls_merges_def by blast
  ultimately show ?thesis
    using assms(4) s1(2) s2 by (simp add: ensure_fresh_update_def Let_def UPDATE_BEFORE_SEND_def duration_secs_def)
qed

end
