(* ===== verification/Mls_Save.thy ===== *)
theory Mls_Save
  imports Mls_Props Identity_Props
begin

text \<open>
  A group, a pending join and the OpenMLS storage survive being saved and loaded; a small
  instance of OpenMLS on which the properties of groups are evaluated.
\<close>

section \<open>Lemmas\<close>

definition pair_ok :: "bytes \<times> bytes \<Rightarrow> bool" where
  "pair_ok p \<longleftrightarrow> length (fst p) < 2 ^ 64 \<and> length (snd p) < 2 ^ 64"

lemma pair_row: "pair_ok p \<Longrightarrow> parse_pair (key_entry p) = Ok p \<and> wf_value (key_entry p) \<and> sorted_value (key_entry p)"
  by (simp add: pair_ok_def parse_pair_def key_entry_def parse_row_of_def)

definition storage_ok :: "storage \<Rightarrow> bool" where
  "storage_ok st \<longleftrightarrow> hm_wf st \<and> length st < 2 ^ 64 \<and> (\<forall>p \<in> set st. pair_ok p)"

lemma storage_sorted: "storage_ok st \<Longrightarrow> p \<in> set (hm_sorted st) \<Longrightarrow> pair_ok p"
  using hm_sorted_in [of st "fst p" "snd p"] by (simp add: storage_ok_def)

lemma insert_pairs_map:
  "\<forall>p \<in> set ps. pair_ok p \<Longrightarrow> insert_pairs (map key_entry ps) st = (Ok (), fold (\<lambda>(k, v) m. hm_insert k v m) ps st)"
  by (induction ps arbitrary: st) (auto simp: pair_row)

lemma storage_roundtrip:
  assumes "storage_ok (in_mls i)"
  shows "apply_mls_storage (encode_mls_storage i) j = (Ok (), j\<lparr>in_mls := hm_sorted (in_mls i)\<rparr>)"
proof -
  let ?ps = "hm_sorted (in_mls i)"
  have ok: "\<forall>p \<in> set ?ps. pair_ok p" using storage_sorted [OF assms] by blast
  have "decode (encode_mls_storage i) = Ok (Array (map key_entry ?ps))"
    unfolding encode_mls_storage_def using ok assms pair_row by (intro decode_encode_sorted) (auto simp: storage_ok_def)
  moreover have "insert_pairs (map key_entry ?ps) [] = (Ok (), ?ps)"
    using insert_pairs_map [OF ok, of "[]"] hm_collect_sorted [of "in_mls i"] assms by (simp add: hm_collect_def storage_ok_def)
  moreover have "encode_mls_storage i \<noteq> []" 
    using length_write_value by (metis encode_mls_storage_def encode_def list.size(3) not_one_le_zero)
  ultimately show ?thesis by (simp add: apply_mls_storage_def)
qed

subsection \<open>Groups and joins\<close>

definition group_saved :: "crypto \<Rightarrow> Group \<Rightarrow> bool" where
  "group_saved C g \<longleftrightarrow>
     length (mg_group_id (cg_mls g)) < 2 ^ 64 \<and> length (cg_group_signing g) = KEY_LEN \<and> length (cg_credential_id g) = KEY_LEN \<and>
     0 \<le> cg_last_own_update g \<and> cg_last_own_update g div 1000000 < 2 ^ 64 \<and>
     cg_mls_signer g = signer_of C (cg_group_signing g) \<and> mg_ciphersuite (cg_mls g) = CIPHERSUITE \<and>
     cg_credential_ids g = ids_by_leaf (cg_mls g) \<and> (cg_pending g = None \<longleftrightarrow> mg_pending (cg_mls g) = None) \<and>
     (\<forall>p sk. cg_pending g = Some p \<longrightarrow> po_new_signer p = Some sk \<longrightarrow> length sk = KEY_LEN) \<and>
     storage_ok (cg_announced_keys g) \<and>
     (\<forall>(old, new) \<in> set (cg_announced_keys g). length new = KEY_LEN \<and> old \<in> mm_signature_key ` set (mg_members (cg_mls g)))"

lemma announced_row:
  "pair_ok p \<Longrightarrow> length (snd p) = KEY_LEN \<Longrightarrow> parse_announced (key_entry p) = Ok p"
  by (cases p) (simp add: parse_announced_def pair_row copy_fixed_def)

lemma kind_roundtrip: "pending_kind_from_code (pending_kind_code (Some k)) = Some k" "pending_kind_from_code (pending_kind_code None) = None"
  by (cases k) (simp_all add: pending_kind_from_code_def pending_kind_code_def)

lemma sync_saved:
  assumes "cg_credential_ids g = ids_by_leaf (cg_mls g)" "\<forall>p \<in> set (cg_announced_keys g). fst p \<in> mm_signature_key ` set (mg_members (cg_mls g))"
  shows "sync_credential_ids (g\<lparr>cg_credential_ids := ids\<rparr>) = g"
proof -
  have "filter (\<lambda>p. fst p \<in> mm_signature_key ` set (mg_members (cg_mls g))) (cg_announced_keys g) = cg_announced_keys g"
    using assms(2) by (simp add: filter_id_conv)
  then show ?thesis using assms(1) by (simp add: sync_credential_ids_def Let_def hm_retain_def)
qed

lemma pj_roundtrip:
  assumes "length (pj_credential_id j) = KEY_LEN" "length (pj_group_signing j) = KEY_LEN" "length (pj_key_package j) < 2 ^ 64"
    and "om_signer_encode M (pj_mls_signer j) = Ok sb" "om_signer_decode M sb = Ok (pj_mls_signer j)" "length sb < 2 ^ 64"
    and "om_store_signer M (pj_mls_signer j) st = (Ok (), st')"
  shows "\<exists>bs. pj_encode M j = Ok bs \<and> pj_decode M bs st = (Ok j, st')"
  using assms by (simp add: pj_encode_def pj_decode_def vault_map_def vault_version_def KEY_LEN_def)

section \<open>Theorems\<close>

text \<open>
  A group is read back as it was saved: with the OpenMLS group of its storage, its keys, its pending
  commit and the announced keys, in the order of the old ones. Only the time of the last update
  loses what is below a millisecond.
\<close>

theorem sidecar_roundtrip:
  assumes "group_saved C g" "om_load M (mg_group_id (cg_mls g)) st = Ok (Some (cg_mls g))"
  shows "load_sidecar C M (encode_sidecar g) st =
    (Ok (g\<lparr>cg_last_own_update := cg_last_own_update g div 1000000 * 1000000, cg_announced_keys := hm_sorted (cg_announced_keys g)\<rparr>), st)"
proof -
  let ?a = "hm_sorted (cg_announced_keys g)" and ?t = "cg_last_own_update g div 1000000"
  note wf = assms(1) [unfolded group_saved_def]
  have row: "pair_ok p \<and> length (snd p) = KEY_LEN \<and> fst p \<in> mm_signature_key ` set (mg_members (cg_mls g))" if "p \<in> set ?a" for p
    using that wf storage_sorted [of "cg_announced_keys g" p] hm_sorted_in [of "cg_announced_keys g" "fst p" "snd p"]
    by (auto simp: storage_ok_def)
  have items: "\<forall>v \<in> set (map key_entry ?a). wf_value v \<and> sorted_value v" using row pair_row by auto
  have parse: "rmap parse_announced (map key_entry ?a) = Ok ?a" by (rule rmap_map_Ok) (use row announced_row in blast)
  have "0 \<le> ?t" "?t < 2 ^ 64" using wf by (simp_all add: pos_imp_zdiv_nonneg_iff)
  then have time: "uint (update_millis (cg_last_own_update g)) * 1000000 = ?t * 1000000"
    using wf by (simp add: update_millis_def uint_word_of_int mod_pos_pos_trivial)
  let ?g = "g\<lparr>cg_last_own_update := ?t * 1000000, cg_announced_keys := ?a\<rparr>"
  have "sync_credential_ids (?g\<lparr>cg_credential_ids := []\<rparr>) = ?g" using wf row by (intro sync_saved) auto
  moreover have "\<lparr>cg_mls = cg_mls g, cg_mls_signer = signer_of C (cg_group_signing g), cg_group_signing = cg_group_signing g,
      cg_credential_id = cg_credential_id g, cg_credential_ids = [], cg_last_own_update = ?t * 1000000, cg_pending = cg_pending g,
      cg_announced_keys = ?a\<rparr> = ?g\<lparr>cg_credential_ids := []\<rparr>"
    using wf by (intro Group.equality) simp_all
  ultimately have sync: "sync_credential_ids \<lparr>cg_mls = cg_mls g, cg_mls_signer = signer_of C (cg_group_signing g),
      cg_group_signing = cg_group_signing g, cg_credential_id = cg_credential_id g, cg_credential_ids = [],
      cg_last_own_update = ?t * 1000000, cg_pending = cg_pending g, cg_announced_keys = ?a\<rparr> = ?g"
    by simp
  have coll: "hm_collect ?a = ?a" using wf by (intro hm_collect_sorted) (simp add: storage_ok_def)
  have len: "length ?a < 2 ^ 64" using wf by (simp add: storage_ok_def)
  show ?thesis
  proof (cases "cg_pending g")
    case None
    then show ?thesis using wf items parse time sync coll len assms(2)
      by (simp add: load_sidecar_def encode_sidecar_def vault_map_def vault_version_def kind_roundtrip KEY_LEN_def)
  next
    case (Some p)
    have sk: "length k = 32" if "po_new_signer p = Some k" for k using wf Some that by (simp add: KEY_LEN_def)
    have mp: "mg_pending (cg_mls g) \<noteq> None" using wf Some by simp
    have "p = \<lparr>po_kind = po_kind p, po_new_signer = po_new_signer p\<rparr>" by simp
    then obtain k n where p: "cg_pending g = Some \<lparr>po_kind = k, po_new_signer = n\<rparr>" "po_kind p = k" "po_new_signer p = n" using Some by simp
    note wf' = wf [THEN conjunct1] wf [THEN conjunct2, THEN conjunct1] wf [THEN conjunct2, THEN conjunct2, THEN conjunct1]
    have cs: "mg_ciphersuite (cg_mls g) = CIPHERSUITE" using wf by simp
    show ?thesis
    proof (cases n)
      case None
      then show ?thesis using wf' cs mp items parse time sync len assms(2) unfolding p(1)
        by (simp add: load_sidecar_def encode_sidecar_def vault_map_def vault_version_def kind_roundtrip KEY_LEN_def p(1) coll)
    next
      case (Some x)
      then show ?thesis using wf' cs mp items parse time sync len assms(2) sk p(3) unfolding p(1)
        by (simp add: load_sidecar_def encode_sidecar_def vault_map_def vault_version_def kind_roundtrip KEY_LEN_def p(1) coll)
    qed
  qed
qed

section \<open>A small instance of OpenMLS\<close>

text \<open>The committer of a commit is the length of its opaque part; a merge replaces the committer's leaf,
  drops the removed ones and appends the added ones, and fails if that is not a proper tree.\<close>

definition plain_who :: "StagedCommit \<Rightarrow> Sender" where
  "plain_who c = Member (length (sc_raw c))"

definition plain_tree :: "StagedCommit \<Rightarrow> (nat \<times> Leaf) list \<Rightarrow> (nat \<times> Leaf) list" where
  "plain_tree c t =
     map (\<lambda>(i, l). (i, case sc_path_leaf c of Some l' \<Rightarrow> if plain_who c = Member i then l' else l | None \<Rightarrow> l))
       (filter (\<lambda>p. fst p \<notin> set (sc_removes c)) t) @
     enumerate (Suc (foldr max (map fst t) 0)) (sc_adds c)"

definition plain_merge :: "StagedCommit \<Rightarrow> mls \<Rightarrow> (string + unit) \<times> mls" where
  "plain_merge c s =
     (if merged (plain_who c) c (mg_tree (fst s)) (plain_tree c (mg_tree (fst s))) then
        (Ok (), (fst s)\<lparr>mg_tree := plain_tree c (mg_tree (fst s)), mg_pending := None,
           mg_active := mg_active (fst s) \<and> mg_own (fst s) \<notin> set (sc_removes c)\<rparr>, snd s)
      else (Err [], s))"

definition plain_leaf :: "byte \<Rightarrow> Leaf" where
  "plain_leaf n = \<lparr>lf_extensions = [(CREDENTIAL_ID_EXT, replicate 32 n), (GROUP_SIGNING_EXT, lib_ed_public plain_crypto [n])],
     lf_signature_key = lib_ed_public plain_crypto [n], lf_credential = BasicCredential (replicate 32 n)\<rparr>"

definition plain_commit :: "Proposal \<Rightarrow> StagedCommit" where
  "plain_commit p = \<lparr>sc_queued = [\<lparr>qp_sender = Member 1, qp_proposal = p\<rparr>], sc_path_leaf = None, sc_raw = [0]\<rparr>"

text \<open>Message 1 is a commit of member 1 that adds a fourth member, message 2 one that removes member 2,
  message 9 the echo of an own commit.\<close>

definition plain_process :: "u64 \<times> bytes \<Rightarrow> mls \<Rightarrow> (ProcessError + ProcessedMessage) \<times> mls" where
  "plain_process p s =
     (if snd p = [9] \<and> mg_pending (fst s) \<noteq> None then
        (Ok \<lparr>pr_sender = Member (mg_own (fst s)), pr_content = OwnPendingCommit\<rparr>, s)
      else if mg_own (fst s) = 1 then (Err WrongEpoch, s)
      else if snd p = [1] then
        (Ok \<lparr>pr_sender = Member 1, pr_content = StagedCommitMessage (plain_commit (AddP (plain_leaf 4)))\<rparr>, s)
      else if snd p = [2] then
        (Ok \<lparr>pr_sender = Member 1, pr_content = StagedCommitMessage (plain_commit (RemoveP 2))\<rparr>, s)
      else (Err WrongEpoch, s))"

definition plain_stage :: "QueuedProposal list \<Rightarrow> (Leaf \<Rightarrow> Leaf) \<Rightarrow> 'a \<Rightarrow> mls \<Rightarrow> (string + 'a) \<times> mls" where
  "plain_stage qs f out s =
     (case mg_own_leaf (fst s) of
        Some l \<Rightarrow>
          if mg_active (fst s) then
            (Ok out, (fst s)\<lparr>mg_pending := Some \<lparr>sc_queued = qs, sc_path_leaf = Some (f l), sc_raw = replicate (mg_own (fst s)) 0\<rparr>\<rparr>, snd s)
          else (Err [], s)
      | None \<Rightarrow> (Err [], s))"

definition plain_group :: "(nat \<times> Leaf) list \<Rightarrow> MlsGroup" where
  "plain_group t = \<lparr>mg_group_id = [5], mg_epoch = 0, mg_ciphersuite = CIPHERSUITE, mg_tree = t, mg_own = 0, mg_active = True,
     mg_pending = None, mg_secrets = []\<rparr>"

definition plain_three :: "(nat \<times> Leaf) list" where
  "plain_three = [(0, plain_leaf 1), (1, plain_leaf 2), (2, plain_leaf 3)]"

definition plain_mls :: openmls where
  "plain_mls = \<lparr>
     om_exact = (\<lambda>b. Some (ProtocolBody 0 b)), om_prefix = (\<lambda>_. Err []),
     om_protocol = (\<lambda>b. case b of ProtocolBody e x \<Rightarrow> Ok (e, x) | _ \<Rightarrow> Err []),
     om_process = plain_process,
     om_merge_pending = (\<lambda>s. case mg_pending (fst s) of Some c \<Rightarrow> plain_merge c s | None \<Rightarrow> (Ok (), s)),
     om_merge_staged = plain_merge,
     om_clear_pending = (\<lambda>s. (Ok (), (fst s)\<lparr>mg_pending := None\<rparr>, snd s)),
     om_create_message = (\<lambda>e sp b s. (Ok b, s)),
     om_self_update = (\<lambda>e sp exts. plain_stage [] (\<lambda>l. l\<lparr>lf_extensions := exts\<rparr>) [9]),
     om_self_update_signer = (\<lambda>e sp new cred exts.
       plain_stage [] (\<lambda>l. \<lparr>lf_extensions = exts, lf_signature_key = sp_public new, lf_credential = cred\<rparr>) [9]),
     om_add_member = (\<lambda>e sp kp s. plain_stage [\<lparr>qp_sender = Member (mg_own (fst s)), qp_proposal = AddP (kp_leaf kp)\<rparr>] (\<lambda>l. l) ([9], [3]) s),
     om_remove_member = (\<lambda>e sp i s. plain_stage [\<lparr>qp_sender = Member (mg_own (fst s)), qp_proposal = RemoveP i\<rparr>] (\<lambda>l. l) [9] s),
     om_serialize = Inr, om_load = (\<lambda>_ _. Ok (Some (plain_group plain_three))),
     om_new_group = (\<lambda>e sp exts cred st.
       (Ok (plain_group [(0, \<lparr>lf_extensions = exts, lf_signature_key = sp_public sp, lf_credential = cred\<rparr>)]), st)),
     om_key_package = (\<lambda>e exts sp cred st. (Ok [], st)), om_read_key_package = (\<lambda>_. Err []), om_key_package_ref = (\<lambda>_. Err []),
     om_join = (\<lambda>_ _ st. (Err [], st)), om_extensions = (\<lambda>_. Ok ()), om_leaf_config = (\<lambda>_. Ok ()),
     om_store_signer = (\<lambda>_ st. (Ok (), st)), om_signer_encode = (\<lambda>sp. Ok (sp_private sp)),
     om_signer_decode = (\<lambda>b. Ok (signer_of plain_crypto b))\<rparr>"

lemma plain_merge_Ok: "plain_merge c (m, st) = (Ok (), m', st') \<Longrightarrow> merges plain_who c m m'"
  by (auto simp: plain_merge_def merges_def same_group_def split: if_splits)

lemma plain_stage_Ok:
  "plain_stage qs f out (m, st) = (Ok b, m', st') \<Longrightarrow>
   \<exists>c l0. staged plain_who m m' c \<and> sc_queued c = qs \<and> mg_own_leaf m = Some l0 \<and> sc_path_leaf c = Some (f l0)"
  by (auto simp: plain_stage_def staged_def same_group_def plain_who_def split: option.splits if_splits)

lemma plain_mls_laws: "openmls_laws plain_mls plain_who" "openmls_starts plain_mls"
proof -
  have "openmls_reads plain_mls plain_who"
    by (auto simp: openmls_reads_def plain_mls_def plain_process_def framed_def same_group_def plain_who_def plain_commit_def foreign_def
        sc_updates_def List.map_filter_simps split: if_splits)
  moreover have "openmls_merges plain_mls plain_who"
    by (auto simp: openmls_merges_def plain_mls_def same_group_def framed_def dest: plain_merge_Ok split: option.splits)
  moreover have "openmls_stages plain_mls plain_who"
    unfolding openmls_stages_def plain_mls_def own_path_def by (fastforce dest!: plain_stage_Ok)
  ultimately show "openmls_laws plain_mls plain_who" by (simp add: openmls_laws_def)
  show "openmls_starts plain_mls" by (simp add: openmls_starts_def plain_mls_def plain_group_def)
qed

section \<open>Witnesses\<close>

definition three_members :: gst where
  "three_members = (new_group plain_crypto (plain_group plain_three) (signer_of plain_crypto [1]) [1] (replicate 32 1) 0, [])"

lemma plain_leaf_ok: "check_new_leaf (plain_leaf n) = Ok (replicate 32 n)" "leaf_ok (plain_leaf n)" "leaf_cid (plain_leaf n) = replicate 32 n"
proof -
  show c: "check_new_leaf (plain_leaf n) = Ok (replicate 32 n)"
    by (simp add: check_new_leaf_Ok plain_leaf_def extension_bytes_def CREDENTIAL_ID_EXT_def GROUP_SIGNING_EXT_def KEY_LEN_def
        identity_pk_from_credential_def copy_fixed_def)
  show "leaf_ok (plain_leaf n)" "leaf_cid (plain_leaf n) = replicate 32 n" using leaf_cidI [OF c] by auto
qed

lemma plain_leaf_key: "lf_signature_key (plain_leaf n) = n # replicate 31 0"
  by (simp add: plain_leaf_def plain_crypto_def resize_def)

lemma three_members_ok: "mls_ok plain_crypto plain_who (fst three_members)"
proof -
  have "tree_ok (plain_group plain_three)"
    by (simp add: tree_ok_def plain_group_def plain_three_def plain_leaf_ok plain_leaf_key)
  moreover have "lf_signature_key (plain_leaf 1) = lib_ed_public plain_crypto [1]" by (simp add: plain_leaf_def)
  ultimately show ?thesis
    by (simp add: mls_ok_def three_members_def own_leaf_ok_def mg_own_leaf_def plain_leaf_ok)
      (simp add: plain_group_def plain_three_def plain_leaf_ok)
qed

lemma plain_commit_parts [simp]:
  "sc_path_leaf (plain_commit p) = None" "plain_who (plain_commit p) = Member 1"
  "sc_removes (plain_commit (AddP l)) = []" "sc_adds (plain_commit (AddP l)) = [l]" "sc_updates (plain_commit (AddP l)) = []"
  "sc_removes (plain_commit (RemoveP i)) = [i]" "sc_adds (plain_commit (RemoveP i)) = []" "sc_updates (plain_commit (RemoveP i)) = []"
  by (simp_all add: plain_commit_def plain_who_def sc_removes_def sc_adds_def sc_updates_def List.map_filter_simps)

lemma three_merge:
  "plain_merge (plain_commit (AddP (plain_leaf 4))) (plain_group plain_three, st) =
     (Ok (), plain_group (plain_three @ [(3, plain_leaf 4)]), st)"
  "plain_merge (plain_commit (RemoveP 2)) (plain_group plain_three, st) = (Ok (), plain_group (take 2 plain_three), st)"
proof -
  have t: "plain_tree (plain_commit (AddP (plain_leaf 4))) plain_three = plain_three @ [(3, plain_leaf 4)]"
    "plain_tree (plain_commit (RemoveP 2)) plain_three = take 2 plain_three"
    by (simp_all add: plain_tree_def plain_three_def numeral_3_eq_3)
  have "merged (Member 1) (plain_commit (AddP (plain_leaf 4))) plain_three (plain_three @ [(3, plain_leaf 4)])"
    "merged (Member 1) (plain_commit (RemoveP 2)) plain_three (take 2 plain_three)"
    by (auto simp: merged_def plain_three_def plain_leaf_key)
  then show "plain_merge (plain_commit (AddP (plain_leaf 4))) (plain_group plain_three, st) =
     (Ok (), plain_group (plain_three @ [(3, plain_leaf 4)]), st)"
    "plain_merge (plain_commit (RemoveP 2)) (plain_group plain_three, st) = (Ok (), plain_group (take 2 plain_three), st)"
    by (simp_all add: plain_merge_def plain_group_def t)
qed

lemma three_process:
  "cg_process plain_mls [n] three_members = (Ok \<lparr>pr_sender = Member 1, pr_content = StagedCommitMessage (plain_commit p)\<rparr>, three_members)"
  if "n = 1 \<and> p = AddP (plain_leaf 4) \<or> n = 2 \<and> p = RemoveP 2"
  using that by (auto simp: cg_process_def decode_mls_def plain_mls_def plain_process_def three_members_def plain_group_def)

lemma three_ids: "cg_credential_ids (fst three_members) = [(0, replicate 32 1), (1, replicate 32 2), (2, replicate 32 3)]"
proof -
  have "tree_ok (plain_group plain_three)" using three_members_ok by (simp add: mls_ok_def three_members_def)
  from ids_of_tree(1) [OF this] show ?thesis
    by (simp add: three_members_def) (simp add: plain_group_def plain_three_def plain_leaf_ok)
qed

lemma plain_not_external: "\<not> is_external_commit (plain_commit (AddP l))" "\<not> is_external_commit (plain_commit (RemoveP i))"
  by (simp_all add: is_external_commit_def plain_commit_def)

lemma three_foreign:
  "merge_foreign plain_mls (plain_commit (AddP (plain_leaf 4))) three_members =
     (Ok Applied, sync_credential_ids ((fst three_members)\<lparr>cg_mls := plain_group (plain_three @ [(3, plain_leaf 4)]), cg_pending := None\<rparr>), [])"
  "merge_foreign plain_mls (plain_commit (RemoveP 2)) three_members =
     (Ok Applied, sync_credential_ids ((fst three_members)\<lparr>cg_mls := plain_group (take 2 plain_three), cg_pending := None\<rparr>), [])"
  by (simp_all add: merge_foreign_def on_mls_def plain_mls_def three_members_def three_merge)

lemma three_tree: "mg_tree (cg_mls (fst three_members)) = plain_three"
  by (simp add: three_members_def plain_group_def)

theorem handshake_keeps_members_witness:
  "\<exists>s'. apply_handshake plain_crypto plain_mls 0 [1] three_members = (Ok Applied, s') \<and>
     mg_tree (cg_mls (fst s')) = plain_three @ [(3, plain_leaf 4)] \<and>
     (\<forall>(i, l) \<in> set plain_three. \<exists>l'. (i, l') \<in> set (mg_tree (cg_mls (fst s'))) \<and> same_member (fst three_members) l l')"
proof -
  have "validate_commit (plain_commit (AddP (plain_leaf 4))) (Member 1) (fst three_members) = Ok ()"
    by (simp add: validate_commit_def check_path_def plain_leaf_ok three_ids)
  then have a: "apply_handshake plain_crypto plain_mls 0 [1] three_members = merge_foreign plain_mls (plain_commit (AddP (plain_leaf 4))) three_members"
    by (simp add: apply_handshake_def three_process [of 1 "AddP (plain_leaf 4)"] plain_not_external staged_remove_count_def)
  show ?thesis
    using handshake_keeps_members [OF plain_mls_laws(1) three_members_ok a [unfolded three_foreign]]
    unfolding a three_foreign three_tree by (simp add: plain_group_def)
qed


theorem double_add_accepted_witness:
  "\<exists>l. leaf_ok l \<and> lf_signature_key l \<noteq> lf_signature_key (plain_leaf 4) \<and>
     validate_commit \<lparr>sc_queued = [\<lparr>qp_sender = Member 1, qp_proposal = AddP (plain_leaf 4)\<rparr>, \<lparr>qp_sender = Member 1, qp_proposal = AddP l\<rparr>],
       sc_path_leaf = None, sc_raw = []\<rparr> (Member 1) (fst three_members) = Ok ()"
proof -
  let ?l = "(plain_leaf 4)\<lparr>lf_extensions := [(CREDENTIAL_ID_EXT, replicate 32 4), (GROUP_SIGNING_EXT, [6])], lf_signature_key := [6]\<rparr>"
  have "check_new_leaf ?l = Ok (replicate 32 4)"
    by (simp add: check_new_leaf_Ok plain_leaf_def extension_bytes_def CREDENTIAL_ID_EXT_def GROUP_SIGNING_EXT_def KEY_LEN_def
        identity_pk_from_credential_def copy_fixed_def)
  note l = leaf_cidI [OF this]
  have "replicate 32 4 \<notin> snd ` set (cg_credential_ids (fst three_members))" by (simp add: three_ids)
  from double_add_accepted [OF plain_leaf_ok(2) _ plain_leaf_ok(3) _ this, of ?l "Member 1" "[]"] l
  show ?thesis by (intro exI [of _ ?l]) (simp add: plain_leaf_key)
qed

theorem leaf_identity_free_witness:
  "check_leaf_update 1 (plain_leaf 2) (fst three_members) = Ok () \<and>
   check_leaf_update 1 ((plain_leaf 2)\<lparr>lf_credential := BasicCredential (replicate 32 1)\<rparr>) (fst three_members) = Ok ()"
proof -
  have "check_leaf_update 1 (plain_leaf 2) (fst three_members) = Ok ()"
    by (simp add: check_leaf_update_def plain_leaf_ok three_ids hm_get_def member_at_tree three_tree plain_three_def)
  moreover have "(plain_leaf 2)\<lparr>lf_credential := BasicCredential (replicate 32 2)\<rparr> = plain_leaf 2" by (simp add: plain_leaf_def)
  ultimately show ?thesis
    using leaf_identity_free [of "replicate 32 2" "replicate 32 1" 1 "plain_leaf 2" "fst three_members"] by (simp add: KEY_LEN_def)
qed

lemma three_update:
  "\<exists>s1. self_update plain_crypto plain_mls [] 100 three_members = (Ok [9], s1) \<and> cg_pending (fst s1) \<noteq> None \<and>
     discard_pending plain_mls s1 = (Ok (), ((fst s1)\<lparr>cg_mls := (cg_mls (fst s1))\<lparr>mg_pending := None\<rparr>, cg_pending := None\<rparr>, snd s1))"
  by (simp add: self_update_def ensure_no_pending_def three_members_def own_leaf_extensions_def leaf_extensions_def Let_def
      on_mls_def plain_mls_def plain_stage_def serialize_msg_def discard_pending_def stage_def)
    (simp add: plain_group_def plain_three_def mg_own_leaf_def)

theorem refused_update_counts_witness:
  "\<exists>s1 s2. self_update plain_crypto plain_mls [] 100 three_members = (Ok [9], s1) \<and> discard_pending plain_mls s1 = (Ok (), s2) \<and>
     ensure_fresh_update (100 + UPDATE_BEFORE_SEND) (fst s2) = Ok () \<and> mg_tree (cg_mls (fst s2)) = plain_three"
proof -
  obtain s1 s2 where s: "self_update plain_crypto plain_mls [] 100 three_members = (Ok [9], s1)" "discard_pending plain_mls s1 = (Ok (), s2)"
    using three_update by blast
  from refused_update_counts [OF plain_mls_laws(1) s, of "100 + UPDATE_BEFORE_SEND"] s show ?thesis
    by (intro exI [of _ s1] exI [of _ s2]) (simp add: three_tree)
qed

theorem sidecar_roundtrip_witness:
  "load_sidecar plain_crypto plain_mls (encode_sidecar ((fst three_members)\<lparr>cg_group_signing := replicate 32 1,
       cg_mls_signer := signer_of plain_crypto (replicate 32 1), cg_last_own_update := 1234567\<rparr>)) [] =
     (Ok ((fst three_members)\<lparr>cg_group_signing := replicate 32 1, cg_mls_signer := signer_of plain_crypto (replicate 32 1),
        cg_last_own_update := 1000000\<rparr>), [])"
proof -
  let ?g = "(fst three_members)\<lparr>cg_group_signing := replicate 32 1, cg_mls_signer := signer_of plain_crypto (replicate 32 1),
        cg_last_own_update := 1234567\<rparr>"
  have e: "cg_announced_keys (fst three_members) = []" by (simp add: three_members_def new_group_def sync_credential_ids_def hm_retain_def)
  have gs: "group_saved plain_crypto ?g"
    by (simp add: group_saved_def e storage_ok_def hm_wf_def) (simp add: three_members_def plain_group_def KEY_LEN_def)
  have ld: "om_load plain_mls (mg_group_id (cg_mls ?g)) [] = Ok (Some (cg_mls ?g))" by (simp add: plain_mls_def three_members_def)
  have "?g\<lparr>cg_last_own_update := cg_last_own_update ?g div 1000000 * 1000000, cg_announced_keys := hm_sorted (cg_announced_keys ?g)\<rparr> =
      (fst three_members)\<lparr>cg_group_signing := replicate 32 1, cg_mls_signer := signer_of plain_crypto (replicate 32 1),
        cg_last_own_update := 1000000\<rparr>"
    by (intro Group.equality) (simp_all add: e hm_sorted_def)
  then show ?thesis using sidecar_roundtrip [OF gs ld] by simp
qed


end
