(* ===== verification/Vault.thy ===== *)
theory Vault
  imports Mls_Save
begin

text \<open>
  The client's vault, \<open>nemo-core/src/vault.rs\<close> and \<open>device_bind.rs\<close>: a directory with the
  parameters of the key derivation and an SQLCipher database, whose key is mixed from the
  passphrase and a secret of the device. The packages behind it, Argon2, SQLCipher and the
  keyring, and what the operating system answers are the argument \<open>E\<close>; its state are the files
  and the keyring. A path is the list of its components; directories are not recorded, so a name
  is a file or nothing. An open connection is its path and its key.
\<close>

section \<open>Model\<close>

subsection \<open>Files, keyring and packages\<close>

type_synonym path = "bytes list"
type_synonym keyring = "(bytes, bytes) hashmap"

record disk =
  dk_files :: "(path, bytes) hashmap"
  dk_keyring :: keyring

text \<open>A failed write names the error and what it left of the file, if anything. The functions of
  SQLCipher take the key given to the connection and the file, \<open>None\<close> when there is none.\<close>

record vault_env =
  ve_mkdir :: "path \<Rightarrow> string option"
  ve_read :: "path \<Rightarrow> string option"
  ve_write :: "path \<Rightarrow> bytes \<Rightarrow> (string \<times> bytes option) option"
  ve_android :: bool
  ve_bind_dir :: "path option"
  ve_data_local :: "path option"
  ve_temp :: path
  ve_keyring_get :: "bytes \<Rightarrow> bytes \<Rightarrow> keyring \<Rightarrow> string + bytes"
  ve_keyring_set :: "bytes \<Rightarrow> bytes \<Rightarrow> bytes \<Rightarrow> keyring \<Rightarrow> (string + unit) \<times> keyring"
  ve_argon2id :: "u32 \<Rightarrow> u32 \<Rightarrow> u32 \<Rightarrow> bytes \<Rightarrow> bytes \<Rightarrow> bytes option"
  ve_open :: "bytes option \<Rightarrow> (string + unit) \<times> bytes option"
  ve_key :: "bytes \<Rightarrow> bytes option \<Rightarrow> string + unit"
  ve_count :: "bytes \<Rightarrow> bytes option \<Rightarrow> string + int"
  ve_batch :: "bytes \<Rightarrow> bytes option \<Rightarrow> (string + unit) \<times> bytes option"
  ve_upsert :: "bytes \<Rightarrow> bytes \<Rightarrow> bytes \<Rightarrow> bytes option \<Rightarrow> (string + nat) \<times> bytes option"
  ve_select :: "bytes \<Rightarrow> bytes \<Rightarrow> bytes option \<Rightarrow> string + bytes option"

definition path_exists :: "path \<Rightarrow> disk \<Rightarrow> bool" where
  "path_exists p d \<longleftrightarrow> hm_get (dk_files d) p \<noteq> None"

definition put_file :: "path \<Rightarrow> bytes option \<Rightarrow> disk \<Rightarrow> disk" where
  "put_file p f d = d\<lparr>dk_files := (case f of Some bs \<Rightarrow> hm_insert p bs (dk_files d) | None \<Rightarrow> hm_remove p (dk_files d))\<rparr>"

definition fs_mkdir :: "vault_env \<Rightarrow> path \<Rightarrow> string + unit" where
  "fs_mkdir E p = (case ve_mkdir E p of Some e \<Rightarrow> Err e | None \<Rightarrow> Ok ())"

definition fs_read :: "vault_env \<Rightarrow> path \<Rightarrow> disk \<Rightarrow> string + bytes" where
  "fs_read E p d = (case ve_read E p of
     Some e \<Rightarrow> Err e
   | None \<Rightarrow> ok_or (hm_get (dk_files d) p) ''No such file or directory (os error 2)'')"

definition fs_write :: "vault_env \<Rightarrow> path \<Rightarrow> bytes \<Rightarrow> disk \<Rightarrow> (string + unit) \<times> disk" where
  "fs_write E p bs d = (case ve_write E p bs of
     None \<Rightarrow> (Ok (), put_file p (Some bs) d)
   | Some (e, Some left) \<Rightarrow> (Err e, put_file p (Some left) d)
   | Some (e, None) \<Rightarrow> (Err e, d))"

text \<open>A call that works on the file at \<open>p\<close>.\<close>

definition on_file :: "(bytes option \<Rightarrow> (string + 'a) \<times> bytes option) \<Rightarrow> path \<Rightarrow> disk \<Rightarrow> (string + 'a) \<times> disk" where
  "on_file f p d = (case f (hm_get (dk_files d) p) of (r, b) \<Rightarrow> (r, put_file p b d))"

definition map_fst :: "('e \<Rightarrow> 'f) \<Rightarrow> ('e + 'a) \<times> 's \<Rightarrow> ('f + 'a) \<times> 's" where
  "map_fst g m = (map_err g (fst m), snd m)"

subsection \<open>The device secret\<close>

definition SERVICE :: bytes where "SERVICE = str_bytes ''org.nemo.vault''"
definition FILE_PREFIX :: bytes where "FILE_PREFIX = str_bytes ''device-''"

definition parse_secret :: "bytes \<Rightarrow> key cresult" where
  "parse_secret bs = (if length bs \<noteq> KEY_LEN then Err VaultCorrupt else Ok bs)"

definition account :: "bytes \<Rightarrow> bytes" where
  "account salt = FILE_PREFIX @ to_hex salt"

definition bind_dir :: "vault_env \<Rightarrow> path cresult" where
  "bind_dir E =
     (case ve_bind_dir E of
        Some p \<Rightarrow> rbind (map_err VaultIo (fs_mkdir E p)) (\<lambda>_. Ok p)
      | None \<Rightarrow>
          let fallback = ve_temp E @ [str_bytes ''nemo-binds''];
              create_fallback = rbind (map_err VaultIo (fs_mkdir E fallback)) (\<lambda>_. Ok fallback)
          in case ve_data_local E of
               Some base \<Rightarrow>
                 let dir = base @ [str_bytes ''nemo'', str_bytes ''binds'']
                 in if is_ok (fs_mkdir E dir) then Ok dir else create_fallback
             | None \<Rightarrow> create_fallback)"

definition bind_file :: "vault_env \<Rightarrow> bytes \<Rightarrow> path cresult" where
  "bind_file E salt = rbind (bind_dir E) (\<lambda>dir. Ok (dir @ [account salt]))"

definition read_file :: "vault_env \<Rightarrow> path \<Rightarrow> disk \<Rightarrow> key cresult" where
  "read_file E p d = rbind (map_err VaultIo (fs_read E p d)) parse_secret"

text \<open>The permissions of the file are not part of the disk; a failure to set them is ignored.\<close>

definition write_file :: "vault_env \<Rightarrow> path \<Rightarrow> key \<Rightarrow> disk \<Rightarrow> unit cresult \<times> disk" where
  "write_file E p secret d =
     sread (if p = [] then Ok () else map_err VaultIo (fs_mkdir E (butlast p))) d (\<lambda>_.
     map_fst VaultIo (fs_write E p secret d))"

definition keyring_load :: "vault_env \<Rightarrow> bytes \<Rightarrow> disk \<Rightarrow> key cresult" where
  "keyring_load E salt d = rbind (map_err VaultIo (ve_keyring_get E SERVICE (account salt) (dk_keyring d))) parse_secret"

definition keyring_store :: "vault_env \<Rightarrow> bytes \<Rightarrow> key \<Rightarrow> disk \<Rightarrow> unit cresult \<times> disk" where
  "keyring_store E salt secret d =
     (case ve_keyring_set E SERVICE (account salt) secret (dk_keyring d) of
        (r, k) \<Rightarrow> (map_err VaultIo r, d\<lparr>dk_keyring := k\<rparr>))"

text \<open>\<open>secret\<close> is the one drawn when there is none.\<close>

definition os_secret :: "vault_env \<Rightarrow> key \<Rightarrow> bytes \<Rightarrow> bool \<Rightarrow> disk \<Rightarrow> key cresult \<times> disk" where
  "os_secret E secret salt create d =
     (if ve_android E then (Err (VaultIo ''Android vault requires a Keystore device secret''), d)
      else
        sread (bind_file E salt) d (\<lambda>path.
        if path_exists path d then (read_file E path d, d)
        else
          case keyring_load E salt d of
            Ok s \<Rightarrow> (Ok s, d)
          | Err _ \<Rightarrow>
              if \<not> create then (Err VaultLocked, d)
              else sbind (write_file E path secret (snd (keyring_store E salt secret d))) (\<lambda>_ d. (Ok secret, d))))"

definition resolve :: "vault_env \<Rightarrow> key \<Rightarrow> bytes option \<Rightarrow> bytes \<Rightarrow> bool \<Rightarrow> disk \<Rightarrow> key cresult \<times> disk" where
  "resolve E secret injected salt create d =
     (case injected of Some bs \<Rightarrow> (parse_secret bs, d) | None \<Rightarrow> os_secret E secret salt create d)"

subsection \<open>The key derivation\<close>

definition KDF_VERSION :: u64 where "KDF_VERSION = 2"
definition KDF_VERSION_PASSPHRASE_ONLY :: u64 where "KDF_VERSION_PASSPHRASE_ONLY = 1"
definition M_COST_KIB :: u32 where "M_COST_KIB = 64 * 1024"
definition T_COST :: u32 where "T_COST = 3"
definition P_COST :: u32 where "P_COST = 1"
definition SALT_LEN :: nat where "SALT_LEN = 16"
definition MIN_PASSPHRASE_CHARS :: nat where "MIN_PASSPHRASE_CHARS = 8"

definition KDF_FILE :: bytes where "KDF_FILE = str_bytes ''kdf.cbor''"
definition STORE_FILE :: bytes where "STORE_FILE = str_bytes ''store.db''"

record Kdf =
  kdf_version :: u64
  kdf_salt :: bytes
  kdf_m_cost :: u32
  kdf_t_cost :: u32
  kdf_p_cost :: u32

text \<open>\<open>zip\<close> stops at the shorter of the two.\<close>

definition mix_device_key :: "key \<Rightarrow> key \<Rightarrow> key" where
  "mix_device_key pass_key device = map (\<lambda>(p, d). p XOR d) (zip pass_key device)"

text \<open>\<open>chars().count()\<close> of a valid string: every byte but the continuation bytes starts a character.\<close>

definition chars_count :: "bytes \<Rightarrow> nat" where
  "chars_count s = length (filter (\<lambda>b. \<not> utf8_cont b) s)"

definition check_passphrase :: "bytes \<Rightarrow> unit cresult" where
  "check_passphrase passphrase = (if chars_count passphrase < MIN_PASSPHRASE_CHARS then Err WeakPassphrase else Ok ())"

definition kdf_bytes :: "Kdf \<Rightarrow> bytes" where
  "kdf_bytes k = encode (Map
     [(0, Uint (kdf_version k)), (1, Bytes (kdf_salt k)), (2, Uint (ucast (kdf_m_cost k))), (3, Uint (ucast (kdf_t_cost k))),
      (4, Uint (ucast (kdf_p_cost k)))])"

definition write_kdf :: "vault_env \<Rightarrow> path \<Rightarrow> Kdf \<Rightarrow> disk \<Rightarrow> unit cresult \<times> disk" where
  "write_kdf E p k d = map_fst VaultIo (fs_write E p (kdf_bytes k) d)"

definition parse_kdf :: "bytes \<Rightarrow> Kdf cresult" where
  "parse_kdf bs =
     rbind (vault_map bs) (\<lambda>m.
     rbind (corrupt (get_uint m 0)) (\<lambda>version.
     if version \<noteq> KDF_VERSION \<and> version \<noteq> KDF_VERSION_PASSPHRASE_ONLY then Err VaultCorrupt
     else
       rbind (corrupt (get_bytes m 1)) (\<lambda>salt.
       if length salt < 8 then Err VaultCorrupt
       else
         rbind (corrupt (get_uint m 2)) (\<lambda>m_cost.
         rbind (corrupt (get_uint m 3)) (\<lambda>t_cost.
         rbind (corrupt (get_uint m 4)) (\<lambda>p_cost.
           Ok \<lparr>kdf_version = version, kdf_salt = salt, kdf_m_cost = ucast m_cost, kdf_t_cost = ucast t_cost,
                kdf_p_cost = ucast p_cost\<rparr>))))))"

definition read_kdf :: "vault_env \<Rightarrow> path \<Rightarrow> disk \<Rightarrow> Kdf cresult" where
  "read_kdf E p d = rbind (map_err VaultIo (fs_read E p d)) parse_kdf"

definition derive :: "vault_env \<Rightarrow> bytes \<Rightarrow> bytes \<Rightarrow> u32 \<Rightarrow> u32 \<Rightarrow> u32 \<Rightarrow> key cresult" where
  "derive E passphrase salt m t p = ok_or (ve_argon2id E m t p passphrase salt) VaultCorrupt"

subsection \<open>The database\<close>

definition contains :: "string \<Rightarrow> string \<Rightarrow> bool" where
  "contains s pat \<longleftrightarrow> list_ex (\<lambda>i. take (length pat) (drop i s) = pat) [0..<Suc (length s)]"

definition map_sql :: "string \<Rightarrow> CoreError" where
  "map_sql s =
     (if contains s ''not a database'' \<or> contains s ''file is encrypted'' \<or> contains s ''file is not a database'' then VaultLocked
      else VaultIo s)"

record Vault =
  vt_dir :: path
  vt_path :: path
  vt_key :: bytes

definition key_pragma :: "key \<Rightarrow> bytes" where
  "key_pragma k = [0x78, 0x27] @ to_hex k @ [0x27]"

definition open_cipher :: "vault_env \<Rightarrow> path \<Rightarrow> key \<Rightarrow> disk \<Rightarrow> bytes cresult \<times> disk" where
  "open_cipher E path key d =
     sbind (map_fst map_sql (on_file (ve_open E) path d)) (\<lambda>_ d.
     let pragma = key_pragma key; f = hm_get (dk_files d) path
     in sread (map_err map_sql (ve_key E pragma f)) d (\<lambda>_.
        sread (map_err map_sql (ve_count E pragma f)) d (\<lambda>_. (Ok pragma, d))))"

definition put :: "vault_env \<Rightarrow> Vault \<Rightarrow> bytes \<Rightarrow> bytes \<Rightarrow> disk \<Rightarrow> unit cresult \<times> disk" where
  "put E v k b d =
     sbind (map_fst map_sql (on_file (ve_upsert E (vt_key v) k b) (vt_path v) d)) (\<lambda>n d.
     if n = 0 then (Err (VaultIo ''snapshot not written''), d) else (Ok (), d))"

definition get_opt :: "vault_env \<Rightarrow> Vault \<Rightarrow> bytes \<Rightarrow> disk \<Rightarrow> bytes option cresult" where
  "get_opt E v k d = map_err map_sql (ve_select E (vt_key v) k (hm_get (dk_files d) (vt_path v)))"

definition SNAPSHOT_KEY :: bytes where "SNAPSHOT_KEY = str_bytes ''installation''"
definition MLS_KEY :: bytes where "MLS_KEY = str_bytes ''mls_storage''"
definition GROUPS_KEY :: bytes where "GROUPS_KEY = str_bytes ''groups''"
definition HOME_KEY :: bytes where "HOME_KEY = str_bytes ''home''"
definition DISPLAY_KEY :: bytes where "DISPLAY_KEY = str_bytes ''display''"
definition INBOX_KEY :: bytes where "INBOX_KEY = str_bytes ''inbox''"
definition PENDING_KEY :: bytes where "PENDING_KEY = str_bytes ''pending_joins''"
definition INVITES_KEY :: bytes where "INVITES_KEY = str_bytes ''minted_invites''"

definition load :: "crypto \<Rightarrow> libsignal \<Rightarrow> vault_env \<Rightarrow> Vault \<Rightarrow> disk \<Rightarrow> Installation cresult" where
  "load C L E v d =
     rbind (get_opt E v SNAPSHOT_KEY d) (\<lambda>row.
     rbind (ok_or row (map_sql ''Query returned no rows'')) (decode_snapshot C L))"

subsection \<open>The vault\<close>

definition save :: "vault_env \<Rightarrow> Vault \<Rightarrow> Installation \<Rightarrow> disk \<Rightarrow> unit cresult \<times> disk" where
  "save E v i d = sbind (put E v SNAPSHOT_KEY (encode_snapshot i) d) (\<lambda>_. put E v MLS_KEY (encode_mls_storage i))"

definition load_installation :: "crypto \<Rightarrow> libsignal \<Rightarrow> vault_env \<Rightarrow> Vault \<Rightarrow> disk \<Rightarrow> Installation cresult" where
  "load_installation C L E v d =
     rbind (load C L E v d) (\<lambda>i.
     rbind (get_opt E v MLS_KEY d) (\<lambda>mls.
     case mls of
       Some bs \<Rightarrow> (case apply_mls_storage bs i of (r, i) \<Rightarrow> rbind r (\<lambda>_. Ok i))
     | None \<Rightarrow> Ok i))"

definition new_kdf :: "bytes \<Rightarrow> Kdf" where
  "new_kdf salt = \<lparr>kdf_version = KDF_VERSION, kdf_salt = salt, kdf_m_cost = M_COST_KIB, kdf_t_cost = T_COST, kdf_p_cost = P_COST\<rparr>"

text \<open>\<open>salt\<close> and \<open>secret\<close> are the random values drawn.\<close>

definition create_bound :: "vault_env \<Rightarrow> path \<Rightarrow> bytes \<Rightarrow> Installation \<Rightarrow> bytes option \<Rightarrow> bytes \<Rightarrow> key \<Rightarrow> disk \<Rightarrow> Vault cresult \<times> disk" where
  "create_bound E dir passphrase i device_secret salt secret d =
     sread (check_passphrase passphrase) d (\<lambda>_.
     sread (map_err VaultIo (fs_mkdir E dir)) d (\<lambda>_.
     let kdf_path = dir @ [KDF_FILE]; db_path = dir @ [STORE_FILE]
     in if path_exists kdf_path d \<or> path_exists db_path d then (Err VaultExists, d)
        else
          sbind (write_kdf E kdf_path (new_kdf salt) d) (\<lambda>_ d.
          sread (derive E passphrase salt M_COST_KIB T_COST P_COST) d (\<lambda>key.
          sbind (resolve E secret device_secret salt True d) (\<lambda>device d.
          sbind (open_cipher E db_path (mix_device_key key device) d) (\<lambda>pragma d.
          sbind (map_fst map_sql (on_file (ve_batch E pragma) db_path d)) (\<lambda>_ d.
          let v = \<lparr>vt_dir = dir, vt_path = db_path, vt_key = pragma\<rparr>
          in sbind (save E v i d) (\<lambda>_ d. (Ok v, d)))))))))"

definition create_plain :: "vault_env \<Rightarrow> path \<Rightarrow> bytes \<Rightarrow> Installation \<Rightarrow> bytes \<Rightarrow> key \<Rightarrow> disk \<Rightarrow> Vault cresult \<times> disk" where
  "create_plain E dir passphrase i = create_bound E dir passphrase i None"

text \<open>An unused \<open>secret\<close> is passed to \<open>resolve\<close>, which draws one only when it creates.\<close>

definition open_bound :: "crypto \<Rightarrow> libsignal \<Rightarrow> vault_env \<Rightarrow> path \<Rightarrow> bytes \<Rightarrow> bytes option \<Rightarrow> disk \<Rightarrow> (Vault \<times> Installation) cresult \<times> disk" where
  "open_bound C L E dir passphrase device_secret d =
     sread (check_passphrase passphrase) d (\<lambda>_.
     let kdf_path = dir @ [KDF_FILE]; db_path = dir @ [STORE_FILE]
     in if \<not> path_exists kdf_path d \<or> \<not> path_exists db_path d then (Err VaultMissing, d)
        else
          sread (read_kdf E kdf_path d) d (\<lambda>kdf.
          sread (derive E passphrase (kdf_salt kdf) (kdf_m_cost kdf) (kdf_t_cost kdf) (kdf_p_cost kdf)) d (\<lambda>key.
          sbind (if kdf_version kdf \<ge> KDF_VERSION then
                   sbind (resolve E [] device_secret (kdf_salt kdf) False d) (\<lambda>device d. (Ok (mix_device_key key device), d))
                 else (Ok key, d)) (\<lambda>key d.
          sbind (open_cipher E db_path key d) (\<lambda>pragma d.
          let v = \<lparr>vt_dir = dir, vt_path = db_path, vt_key = pragma\<rparr>
          in sread (load_installation C L E v d) d (\<lambda>i. (Ok (v, i), d)))))))"

definition open_plain :: "crypto \<Rightarrow> libsignal \<Rightarrow> vault_env \<Rightarrow> path \<Rightarrow> bytes \<Rightarrow> disk \<Rightarrow> (Vault \<times> Installation) cresult \<times> disk" where
  "open_plain C L E dir passphrase = open_bound C L E dir passphrase None"


subsection \<open>Groups and the home session\<close>

text \<open>A loop that pushes one result per item, threads a state and returns at the first error.\<close>

fun smap :: "('a \<Rightarrow> 's \<Rightarrow> ('e + 'b) \<times> 's) \<Rightarrow> 'a list \<Rightarrow> 's \<Rightarrow> ('e + 'b list) \<times> 's" where
  "smap f [] s = (Ok [], s)"
| "smap f (x # xs) s = sbind (f x s) (\<lambda>y s. sbind (smap f xs s) (\<lambda>ys s. (Ok (y # ys), s)))"

definition vault_array :: "bytes \<Rightarrow> Value list cresult" where
  "vault_array bs = rbind (corrupt (decode bs)) (\<lambda>v. case v of Array items \<Rightarrow> Ok items | _ \<Rightarrow> Err VaultCorrupt)"

definition save_groups :: "vault_env \<Rightarrow> Vault \<Rightarrow> Installation \<Rightarrow> Group list \<Rightarrow> disk \<Rightarrow> unit cresult \<times> disk" where
  "save_groups E v i groups d =
     sbind (save E v i d) (\<lambda>_. put E v GROUPS_KEY (encode (Array (map (\<lambda>g. Bytes (encode_sidecar g)) groups))))"

definition load_group_item :: "crypto \<Rightarrow> openmls \<Rightarrow> Value \<Rightarrow> storage \<Rightarrow> Group cresult \<times> storage" where
  "load_group_item C M item st = sread (corrupt (expect_bytes item)) st (\<lambda>sidecar. load_sidecar C M sidecar st)"

definition load_groups :: "crypto \<Rightarrow> openmls \<Rightarrow> vault_env \<Rightarrow> Vault \<Rightarrow> disk \<Rightarrow> Installation \<Rightarrow> Group list cresult \<times> Installation" where
  "load_groups C M E v d i =
     sread (get_opt E v GROUPS_KEY d) i (\<lambda>row.
     case row of
       None \<Rightarrow> (Ok [], i)
     | Some bs \<Rightarrow> sread (vault_array bs) i (\<lambda>items. on_storage (smap (load_group_item C M) items) i))"

definition save_home :: "vault_env \<Rightarrow> Vault \<Rightarrow> Installation \<Rightarrow> HomeState \<Rightarrow> disk \<Rightarrow> unit cresult \<times> disk" where
  "save_home E v i state d = sbind (save E v i d) (\<lambda>_. put E v HOME_KEY (hst_encode state))"

definition load_home :: "vault_env \<Rightarrow> Vault \<Rightarrow> disk \<Rightarrow> HomeState option cresult" where
  "load_home E v d =
     rbind (get_opt E v HOME_KEY d) (\<lambda>row.
     case row of None \<Rightarrow> Ok None | Some bs \<Rightarrow> rbind (hst_decode bs) (\<lambda>s. Ok (Some s)))"

subsection \<open>Names and timers\<close>

type_synonym names = "(bytes, bytes) hashmap"
type_synonym marks = "(bytes, u64) hashmap"

definition text_row :: "bytes \<times> bytes \<Rightarrow> Value" where
  "text_row p = Array [Text (fst p), Text (snd p)]"

definition mark_row :: "bytes \<times> u64 \<Rightarrow> Value" where
  "mark_row p = Array [Text (fst p), Uint (snd p)]"

definition parse_text_row :: "Value \<Rightarrow> (bytes \<times> bytes) cresult" where
  "parse_text_row item =
     rbind (parse_row_of 2 item) (\<lambda>row.
     rbind (corrupt (expect_text (row ! 0))) (\<lambda>k.
     rbind (corrupt (expect_text (row ! 1))) (\<lambda>t. Ok (k, t))))"

definition parse_mark_row :: "Value \<Rightarrow> (bytes \<times> u64) cresult" where
  "parse_mark_row item =
     rbind (parse_row_of 2 item) (\<lambda>row.
     rbind (corrupt (expect_text (row ! 0))) (\<lambda>k.
     rbind (corrupt (expect_uint (row ! 1))) (\<lambda>n. Ok (k, n))))"

definition vault_items :: "(u64 \<times> Value) list \<Rightarrow> u64 \<Rightarrow> Value list cresult" where
  "vault_items m k = corrupt (rbind (map_get m k) expect_array)"

definition vault_items_opt :: "(u64 \<times> Value) list \<Rightarrow> u64 \<Rightarrow> Value list cresult" where
  "vault_items_opt m k = (case map_get_opt m k of Some v \<Rightarrow> corrupt (expect_array v) | None \<Rightarrow> Ok [])"

definition collect_rows :: "(Value \<Rightarrow> ('k \<times> 'v) cresult) \<Rightarrow> Value list \<Rightarrow> ('k, 'v) hashmap cresult" where
  "collect_rows f items = rbind (rmap f items) (\<lambda>rows. Ok (hm_collect rows))"

definition save_display :: "vault_env \<Rightarrow> Vault \<Rightarrow> names \<Rightarrow> marks \<Rightarrow> names \<Rightarrow> disk \<Rightarrow> unit cresult \<times> disk" where
  "save_display E v nicknames disappear group_names =
     put E v DISPLAY_KEY (encode (Map
       [(0, Uint 1),
        (1, Array (map text_row (hm_sorted nicknames))),
        (2, Array (map mark_row (hm_sorted disappear))),
        (3, Array (map text_row (hm_sorted group_names)))]))"

definition parse_display :: "bytes \<Rightarrow> (names \<times> marks \<times> names) cresult" where
  "parse_display bs =
     rbind (vault_map bs) (\<lambda>m.
     rbind (vault_version m) (\<lambda>_.
     rbind (rbind (vault_items m 1) (collect_rows parse_text_row)) (\<lambda>nicknames.
     rbind (rbind (vault_items m 2) (collect_rows parse_mark_row)) (\<lambda>disappear.
     rbind (rbind (vault_items_opt m 3) (collect_rows parse_text_row)) (\<lambda>group_names.
       Ok (nicknames, disappear, group_names))))))"

definition load_display :: "vault_env \<Rightarrow> Vault \<Rightarrow> disk \<Rightarrow> (names \<times> marks \<times> names) cresult" where
  "load_display E v d =
     rbind (get_opt E v DISPLAY_KEY d) (\<lambda>row. case row of None \<Rightarrow> Ok ([], [], []) | Some bs \<Rightarrow> parse_display bs)"

subsection \<open>The inbox\<close>

record InboxRow =
  ir_conv_id :: bytes
  ir_conv_seq :: u64
  ir_text :: bytes
  ir_sent_at :: u64
  ir_file_name :: bytes
  ir_file_mime :: bytes
  ir_file_bytes :: bytes
  ir_fetch_token :: bytes
  ir_kind :: bytes
  ir_emoji :: bytes
  ir_target :: u64
  ir_hidden :: bool
  ir_displayed_at :: u64
  ir_outgoing :: bool
  ir_sender_id :: bytes
  ir_sender_name :: bytes
  ir_reply_to :: u64

definition encode_inbox_row :: "InboxRow \<Rightarrow> Value" where
  "encode_inbox_row r = Map
     [(0, Text (ir_conv_id r)),
      (1, Uint (ir_conv_seq r)),
      (2, Text (ir_text r)),
      (3, Uint (ir_sent_at r)),
      (4, Text (ir_file_name r)),
      (5, Text (ir_file_mime r)),
      (6, Bytes (ir_file_bytes r)),
      (7, Text (ir_fetch_token r)),
      (8, Text (ir_kind r)),
      (9, Text (ir_emoji r)),
      (10, Uint (ir_target r)),
      (11, Uint (if ir_hidden r then 1 else 0)),
      (12, Uint (ir_displayed_at r)),
      (13, Uint (if ir_outgoing r then 1 else 0)),
      (14, Text (ir_sender_id r)),
      (15, Text (ir_sender_name r)),
      (16, Uint (ir_reply_to r))]"

definition uint_or_zero :: "(u64 \<times> Value) list \<Rightarrow> u64 \<Rightarrow> u64 cresult" where
  "uint_or_zero m k = (case map_get m k of Ok v \<Rightarrow> corrupt (expect_uint v) | Err _ \<Rightarrow> Ok 0)"

definition decode_inbox_row :: "Value \<Rightarrow> InboxRow cresult" where
  "decode_inbox_row item =
     (case item of
        Map m \<Rightarrow>
          rbind (corrupt (get_text m 0)) (\<lambda>conv_id.
          rbind (corrupt (get_uint m 1)) (\<lambda>conv_seq.
          rbind (corrupt (get_text m 2)) (\<lambda>body.
          rbind (corrupt (get_uint m 3)) (\<lambda>sent_at.
          rbind (corrupt (get_text m 4)) (\<lambda>file_name.
          rbind (corrupt (get_text m 5)) (\<lambda>file_mime.
          rbind (corrupt (get_bytes m 6)) (\<lambda>file_bytes.
          rbind (corrupt (get_text m 7)) (\<lambda>fetch_token.
          rbind (corrupt (get_text m 8)) (\<lambda>kind.
          rbind (corrupt (get_text m 9)) (\<lambda>emoji.
          rbind (corrupt (get_uint m 10)) (\<lambda>target.
          rbind (corrupt (get_uint m 11)) (\<lambda>hidden.
          rbind (corrupt (get_uint m 12)) (\<lambda>displayed_at.
          rbind (uint_or_zero m 13) (\<lambda>outgoing.
          rbind (text_or_empty m 14) (\<lambda>sender_id.
          rbind (text_or_empty m 15) (\<lambda>sender_name.
          rbind (uint_or_zero m 16) (\<lambda>reply_to.
            Ok \<lparr>ir_conv_id = conv_id, ir_conv_seq = conv_seq, ir_text = body, ir_sent_at = sent_at, ir_file_name = file_name,
                 ir_file_mime = file_mime, ir_file_bytes = file_bytes, ir_fetch_token = fetch_token, ir_kind = kind,
                 ir_emoji = emoji, ir_target = target, ir_hidden = (hidden \<noteq> 0), ir_displayed_at = displayed_at,
                 ir_outgoing = (outgoing \<noteq> 0), ir_sender_id = sender_id, ir_sender_name = sender_name,
                 ir_reply_to = reply_to\<rparr>)))))))))))))))))
      | _ \<Rightarrow> Err VaultCorrupt)"

definition group_mark_rows :: "(bytes, marks) hashmap \<Rightarrow> (bytes \<times> bytes \<times> u64) list" where
  "group_mark_rows group_read = concat (map (\<lambda>(g, marks). map (\<lambda>(viewer, n). (g, viewer, n)) (hm_sorted marks)) (hm_sorted group_read))"

definition group_mark_row :: "bytes \<times> bytes \<times> u64 \<Rightarrow> Value" where
  "group_mark_row t = Array [Text (fst t), Text (fst (snd t)), Uint (snd (snd t))]"

definition parse_group_mark :: "Value \<Rightarrow> (bytes \<times> bytes \<times> u64) cresult" where
  "parse_group_mark item =
     rbind (parse_row_of 3 item) (\<lambda>row.
     rbind (corrupt (expect_text (row ! 0))) (\<lambda>g.
     rbind (corrupt (expect_text (row ! 1))) (\<lambda>viewer.
     rbind (corrupt (expect_uint (row ! 2))) (\<lambda>n. Ok (g, viewer, n)))))"

definition insert_group_mark :: "bytes \<times> bytes \<times> u64 \<Rightarrow> (bytes, marks) hashmap \<Rightarrow> (bytes, marks) hashmap" where
  "insert_group_mark t m =
     hm_insert (fst t) (hm_insert (fst (snd t)) (snd (snd t)) (case hm_get m (fst t) of Some x \<Rightarrow> x | None \<Rightarrow> [])) m"

definition inbox_bytes :: "InboxRow list \<Rightarrow> marks \<Rightarrow> marks \<Rightarrow> marks \<Rightarrow> (bytes, marks) hashmap \<Rightarrow> bytes" where
  "inbox_bytes rows next_seq acked read group_read = encode (Map
     [(0, Uint 1),
      (1, Array (map encode_inbox_row rows)),
      (2, Array (map mark_row (hm_sorted next_seq))),
      (3, Array (map mark_row (hm_sorted acked))),
      (4, Array (map mark_row (hm_sorted read))),
      (5, Array (map group_mark_row (group_mark_rows group_read)))])"

definition save_inbox ::
  "vault_env \<Rightarrow> Vault \<Rightarrow> InboxRow list \<Rightarrow> marks \<Rightarrow> marks \<Rightarrow> marks \<Rightarrow> (bytes, marks) hashmap \<Rightarrow> disk \<Rightarrow> unit cresult \<times> disk" where
  "save_inbox E v rows next_seq acked read group_read =
     put E v INBOX_KEY (inbox_bytes rows next_seq acked read group_read)"

definition parse_inbox :: "bytes \<Rightarrow> (InboxRow list \<times> marks \<times> marks \<times> marks \<times> (bytes, marks) hashmap) cresult" where
  "parse_inbox bs =
     rbind (vault_map bs) (\<lambda>m.
     rbind (vault_version m) (\<lambda>_.
     rbind (rbind (vault_items m 1) (rmap decode_inbox_row)) (\<lambda>rows.
     rbind (rbind (vault_items m 2) (collect_rows parse_mark_row)) (\<lambda>next_seq.
     rbind (rbind (vault_items_opt m 3) (collect_rows parse_mark_row)) (\<lambda>acked.
     rbind (rbind (vault_items_opt m 4) (collect_rows parse_mark_row)) (\<lambda>read.
     rbind (rbind (vault_items_opt m 5) (rmap parse_group_mark)) (\<lambda>group_rows.
       Ok (rows, next_seq, acked, read, fold insert_group_mark group_rows []))))))))"

definition load_inbox ::
  "vault_env \<Rightarrow> Vault \<Rightarrow> disk \<Rightarrow> (InboxRow list \<times> marks \<times> marks \<times> marks \<times> (bytes, marks) hashmap) cresult" where
  "load_inbox E v d =
     rbind (get_opt E v INBOX_KEY d) (\<lambda>row. case row of None \<Rightarrow> Ok ([], [], [], [], []) | Some bs \<Rightarrow> parse_inbox bs)"

subsection \<open>Pending joins and invites\<close>

definition pending_row :: "openmls \<Rightarrow> key \<times> ClientJoin \<times> HostAccept \<Rightarrow> Value cresult" where
  "pending_row M t = (case t of (gid, pending, host) \<Rightarrow>
     rbind (pj_encode M pending) (\<lambda>p. Ok (Array [Bytes gid, Bytes p, Bytes (ha_encode host)])))"

definition save_pending :: "openmls \<Rightarrow> vault_env \<Rightarrow> Vault \<Rightarrow> (key \<times> ClientJoin \<times> HostAccept) list \<Rightarrow> disk \<Rightarrow> unit cresult \<times> disk" where
  "save_pending M E v entries d =
     sread (rmap (pending_row M) entries) d (\<lambda>items. put E v PENDING_KEY (encode (Array items)) d)"

definition load_pending_item :: "openmls \<Rightarrow> Value \<Rightarrow> storage \<Rightarrow> (key \<times> ClientJoin \<times> HostAccept) cresult \<times> storage" where
  "load_pending_item M item st =
     sread (parse_row_of 3 item) st (\<lambda>row.
     sread (corrupt (rbind (expect_bytes (row ! 0)) (copy_fixed KEY_LEN))) st (\<lambda>gid.
     sread (corrupt (expect_bytes (row ! 1))) st (\<lambda>p.
     sbind (pj_decode M p st) (\<lambda>pending st.
     sread (corrupt (expect_bytes (row ! 2))) st (\<lambda>h.
     sread (ha_decode h) st (\<lambda>host. (Ok (gid, pending, host), st)))))))"

definition load_pending ::
  "openmls \<Rightarrow> vault_env \<Rightarrow> Vault \<Rightarrow> disk \<Rightarrow> Installation \<Rightarrow> (key \<times> ClientJoin \<times> HostAccept) list cresult \<times> Installation" where
  "load_pending M E v d i =
     sread (get_opt E v PENDING_KEY d) i (\<lambda>row.
     case row of
       None \<Rightarrow> (Ok [], i)
     | Some bs \<Rightarrow> sread (vault_array bs) i (\<lambda>items. on_storage (smap (load_pending_item M) items) i))"

definition save_invites :: "vault_env \<Rightarrow> Vault \<Rightarrow> GroupInvite list \<Rightarrow> disk \<Rightarrow> unit cresult \<times> disk" where
  "save_invites E v invites = put E v INVITES_KEY (encode (Array (map (\<lambda>i. Bytes (gi_encode i)) invites)))"

definition load_invites :: "vault_env \<Rightarrow> Vault \<Rightarrow> disk \<Rightarrow> GroupInvite list cresult" where
  "load_invites E v d =
     rbind (get_opt E v INVITES_KEY d) (\<lambda>row.
     case row of
       None \<Rightarrow> Ok []
     | Some bs \<Rightarrow>
         rbind (vault_array bs) (rmap (\<lambda>item. rbind (corrupt (expect_bytes item)) (\<lambda>raw. lift (gi_decode raw)))))"

end
