(* ===== verification/Vault_Props.thy ===== *)
theory Vault_Props
  imports Vault
begin

text \<open>
  What the vault promises: the database is a map from keys to values under one key, every
  operation changes the rows it names, what was saved is read back, the wrong passphrase or the
  wrong device opens nothing, and what a failed creation or a failed save leaves behind.
\<close>

section \<open>Lemmas\<close>

subsection \<open>SQLCipher\<close>

text \<open>\<open>H k rows f\<close>: the file \<open>f\<close> is a database under the key \<open>k\<close> whose table has the rows \<open>rows\<close>. A
  statement that fails leaves the rows as they were.\<close>

type_synonym database = "bytes \<Rightarrow> (bytes \<rightharpoonup> bytes) \<Rightarrow> bytes \<Rightarrow> bool"

definition sqlcipher_laws :: "vault_env \<Rightarrow> database \<Rightarrow> bool" where
  "sqlcipher_laws E H \<longleftrightarrow>
     (\<forall>f. snd (ve_open E (Some f)) = Some f) \<and>
     (\<forall>k f n g. ve_open E None = (Ok (), f) \<longrightarrow> ve_count E k f = Ok n \<longrightarrow> ve_batch E k f = (Ok (), g) \<longrightarrow>
        (\<exists>b. g = Some b \<and> H k Map.empty b)) \<and>
     (\<forall>k rows f x b r g. H k rows f \<longrightarrow> ve_upsert E k x b (Some f) = (r, g) \<longrightarrow>
        (\<exists>f'. g = Some f' \<and> H k (if \<exists>n>0. r = Ok n then rows(x \<mapsto> b) else rows) f')) \<and>
     (\<forall>k rows f k'. H k rows f \<longrightarrow> k' \<noteq> k \<longrightarrow> (\<exists>e. ve_count E k' (Some f) = Err e \<and> contains e ''not a database''))"

text \<open>Reading a database with its key does not fail.\<close>

definition sqlcipher_reads :: "vault_env \<Rightarrow> database \<Rightarrow> bool" where
  "sqlcipher_reads E H \<longleftrightarrow> (\<forall>k rows f x. H k rows f \<longrightarrow>
     fst (ve_open E (Some f)) = Ok () \<and> ve_key E k (Some f) = Ok () \<and> (\<exists>n. ve_count E k (Some f) = Ok n) \<and>
     ve_select E k x (Some f) = Ok (rows x))"

definition vault_rows :: "database \<Rightarrow> Vault \<Rightarrow> (bytes \<rightharpoonup> bytes) \<Rightarrow> disk \<Rightarrow> bool" where
  "vault_rows H v rows d \<longleftrightarrow> (\<exists>f. hm_get (dk_files d) (vt_path v) = Some f \<and> H (vt_key v) rows f)"

lemma file_put [simp]:
  "hm_get (dk_files (put_file p f d)) q = (if q = p then f else hm_get (dk_files d) q)" "dk_keyring (put_file p f d) = dk_keyring d"
  by (cases f; simp add: put_file_def hm_get_insert_any; simp add: hm_remove_def hm_get_def map_of_filter_key)+

lemma map_fst_eq_Ok [result_simps]: "map_fst g m = (Ok x, s) \<longleftrightarrow> m = (Ok x, s)"
  by (cases m) (simp add: map_fst_def)

lemma fs_write_Ok [result_simps]: "fs_write E p bs d = (Ok u, d') \<longleftrightarrow> ve_write E p bs = None \<and> d' = put_file p (Some bs) d"
  by (auto simp: fs_write_def split: option.splits)

text \<open>\<open>d'\<close> differs from \<open>d\<close> in the file of the vault only.\<close>

definition only_at :: "path \<Rightarrow> disk \<Rightarrow> disk \<Rightarrow> bool" where
  "only_at p d d' \<longleftrightarrow> dk_keyring d' = dk_keyring d \<and> (\<forall>q. q \<noteq> p \<longrightarrow> hm_get (dk_files d') q = hm_get (dk_files d) q)"

lemma only_at_trans: "only_at p a b \<Longrightarrow> only_at p b c \<Longrightarrow> only_at p a c"
  by (simp add: only_at_def)

lemma on_file_only: "on_file f p d = (r, d') \<Longrightarrow> only_at p d d'"
  by (auto simp: on_file_def only_at_def split: prod.splits)

lemma put_step:
  assumes "sqlcipher_laws E H" "vault_rows H v rows d" "put E v x b d = (r, d')"
  shows "vault_rows H v (if r = Ok () then rows(x \<mapsto> b) else rows) d' \<and> only_at (vt_path v) d d'"
proof -
  obtain f where f: "hm_get (dk_files d) (vt_path v) = Some f" "H (vt_key v) rows f" using assms(2) by (auto simp: vault_rows_def)
  obtain q g where u: "ve_upsert E (vt_key v) x b (Some f) = (q, g)" by fastforce
  then have "\<exists>f'. g = Some f' \<and> H (vt_key v) (if \<exists>n>0. q = Ok n then rows(x \<mapsto> b) else rows) f'"
    using assms(1) f(2) unfolding sqlcipher_laws_def by blast
  moreover have "d' = put_file (vt_path v) g d \<and> (r = Ok () \<longleftrightarrow> (\<exists>n>0. q = Ok n))"
    using assms(3) f(1) u by (cases q) (auto simp: put_def on_file_def map_fst_def split: if_splits)
  ultimately show ?thesis by (auto simp: vault_rows_def only_at_def)
qed

lemma save_step:
  assumes "sqlcipher_laws E H" "vault_rows H v rows d" "save E v i d = (r, d')"
  shows "\<exists>rows'. vault_rows H v rows' d' \<and> only_at (vt_path v) d d' \<and>
    (r = Ok () \<longrightarrow> rows' = rows(SNAPSHOT_KEY \<mapsto> encode_snapshot i, MLS_KEY \<mapsto> encode_mls_storage i))"
proof -
  obtain q d1 where p: "put E v SNAPSHOT_KEY (encode_snapshot i) d = (q, d1)" by fastforce
  note s1 = put_step [OF assms(1,2) p]
  show ?thesis
  proof (cases q)
    case (Inl e)
    then show ?thesis using s1 assms(3) p by (auto simp: save_def)
  next
    case (Inr u)
    then have m: "put E v MLS_KEY (encode_mls_storage i) d1 = (r, d')" using assms(3) p by (simp add: save_def)
    have v1: "vault_rows H v (rows(SNAPSHOT_KEY \<mapsto> encode_snapshot i)) d1" using s1 Inr by simp
    from put_step [OF assms(1) v1 m] s1 show ?thesis using only_at_trans by auto
  qed
qed

lemma get_rows: "sqlcipher_reads E H \<Longrightarrow> vault_rows H v rows d \<Longrightarrow> get_opt E v x d = Ok (rows x)"
  by (auto simp: sqlcipher_reads_def vault_rows_def get_opt_def)

subsection \<open>Unlocking\<close>

lemma contains_prefix: "contains ''file is not a database'' ''not a database''"
  by code_simp

lemma names_differ: "KDF_FILE \<noteq> STORE_FILE" "account salt \<noteq> STORE_FILE" "account salt \<noteq> KDF_FILE"
  by (simp_all add: KDF_FILE_def STORE_FILE_def account_def FILE_PREFIX_def str_bytes_def)

text \<open>The secret of the device is found again as long as the file it is bound to is not the
  database.\<close>

lemma resolve_only:
  assumes "only_at (dir @ [STORE_FILE]) d d'" "resolve E s dev salt False d = (Ok k, d)"
  shows "resolve E s dev salt False d' = (Ok k, d')"
proof (cases dev)
  case None
  obtain p where p: "bind_file E salt = Ok p" using assms(2) None by (auto simp: resolve_def os_secret_def result_simps split: if_splits)
  then have "p \<noteq> dir @ [STORE_FILE]" using names_differ(2) by (auto simp: bind_file_def rbind_eq_Ok)
  then have "hm_get (dk_files d') p = hm_get (dk_files d) p" "dk_keyring d' = dk_keyring d" using assms(1) by (simp_all add: only_at_def)
  then have "path_exists p d' = path_exists p d" "read_file E p d' = read_file E p d" "keyring_load E salt d' = keyring_load E salt d"
    by (simp_all add: path_exists_def read_file_def fs_read_def keyring_load_def cong: option.case_cong)
  then show ?thesis using assms(2) None p by (auto simp: resolve_def os_secret_def split: if_splits sum.splits)
qed (use assms in \<open>auto simp: resolve_def\<close>)

text \<open>A secret that was resolved or made on creation is found when the vault is opened.\<close>

lemma resolve_again:
  assumes "resolve E s dev salt True d = (Ok k, d')" "\<forall>p. ve_read E p = None" "length s = KEY_LEN"
  shows "resolve E s' dev salt False d' = (Ok k, d')"
proof (cases dev)
  case None
  then obtain p where p: "bind_file E salt = Ok p" and a: "\<not> ve_android E"
    using assms(1) by (auto simp: resolve_def os_secret_def result_simps split: if_splits)
  show ?thesis
  proof (cases "path_exists p d \<or> (\<exists>x. keyring_load E salt d = Ok x)")
    case True
    then show ?thesis using assms(1) None p a by (auto simp: resolve_def os_secret_def split: if_splits sum.splits)
  next
    case False
    then obtain e where e: "keyring_load E salt d = Err e" by (cases "keyring_load E salt d") auto
    have "sbind (write_file E p s (snd (keyring_store E salt s d))) (\<lambda>_ d. (Ok s, d)) = (Ok k, d')"
      using assms(1) None p a False e by (simp add: resolve_def os_secret_def)
    then have "k = s \<and> (\<exists>d1. write_file E p s d1 = (Ok (), d'))" by (auto simp: sbind_eq_Ok)
    then have "hm_get (dk_files d') p = Some s" and "k = s" by (auto simp: write_file_def result_simps)
    then show ?thesis using None p a assms(2,3) \<open>k = s\<close>
      by (simp add: resolve_def os_secret_def path_exists_def read_file_def fs_read_def parse_secret_def)
  qed
qed (use assms in \<open>auto simp: resolve_def\<close>)


text \<open>\<open>k\<close> is the database key that the passphrase and the device secret give on this disk.\<close>

definition unlocks :: "vault_env \<Rightarrow> path \<Rightarrow> bytes \<Rightarrow> bytes \<Rightarrow> bytes option \<Rightarrow> key \<Rightarrow> disk \<Rightarrow> bool" where
  "unlocks E dir salt passphrase dev k d \<longleftrightarrow>
     read_kdf E (dir @ [KDF_FILE]) d = Ok (new_kdf salt) \<and>
     (\<exists>pk device. derive E passphrase salt M_COST_KIB T_COST P_COST = Ok pk \<and>
        resolve E [] dev salt False d = (Ok device, d) \<and> k = mix_device_key pk device)"

lemma kdf_roundtrip:
  assumes "kdf_version k \<in> {KDF_VERSION, KDF_VERSION_PASSPHRASE_ONLY}" "8 \<le> length (kdf_salt k)" "length (kdf_salt k) < 2 ^ 64"
  shows "parse_kdf (kdf_bytes k) = Ok k"
  using assms by (auto simp: parse_kdf_def kdf_bytes_def vault_map_def)

lemma unlocks_only:
  assumes "only_at (dir @ [STORE_FILE]) d d'" "unlocks E dir salt passphrase dev k d"
  shows "unlocks E dir salt passphrase dev k d'"
proof -
  have "read_kdf E (dir @ [KDF_FILE]) d' = read_kdf E (dir @ [KDF_FILE]) d"
    using assms(1) names_differ(1) by (simp add: read_kdf_def fs_read_def only_at_def cong: option.case_cong)
  then show ?thesis using assms(2) resolve_only [OF assms(1)] unfolding unlocks_def by metis
qed

text \<open>Opening the database: with its key it succeeds, with another it is locked.\<close>

lemma open_cipher_Ok:
  assumes "sqlcipher_laws E H" "sqlcipher_reads E H" "vault_rows H \<lparr>vt_dir = dir, vt_path = p, vt_key = key_pragma k\<rparr> rows d"
  shows "\<exists>d'. open_cipher E p k d = (Ok (key_pragma k), d') \<and> (\<forall>q. hm_get (dk_files d') q = hm_get (dk_files d) q) \<and>
    dk_keyring d' = dk_keyring d"
proof -
  obtain f where f: "hm_get (dk_files d) p = Some f" "H (key_pragma k) rows f" using assms(3) by (auto simp: vault_rows_def)
  then have "ve_open E (Some f) = (Ok (), Some f)"
    using assms(1,2) unfolding sqlcipher_laws_def sqlcipher_reads_def by (metis prod.collapse)
  moreover have "ve_key E (key_pragma k) (Some f) = Ok ()" "\<exists>n. ve_count E (key_pragma k) (Some f) = Ok n"
    using assms(2) f(2) unfolding sqlcipher_reads_def by blast+
  ultimately show ?thesis using f(1) by (auto simp: open_cipher_def on_file_def map_fst_def)
qed

lemma open_cipher_locked:
  assumes "sqlcipher_laws E H" "sqlcipher_reads E H" "vault_rows H v rows d" "key_pragma k \<noteq> vt_key v"
    and "\<forall>k' f. ve_key E k' f = Ok ()"
  shows "fst (open_cipher E (vt_path v) k d) = Err VaultLocked"
proof -
  obtain f where f: "hm_get (dk_files d) (vt_path v) = Some f" "H (vt_key v) rows f" using assms(3) by (auto simp: vault_rows_def)
  then have "ve_open E (Some f) = (Ok (), Some f)"
    using assms(1,2) unfolding sqlcipher_laws_def sqlcipher_reads_def by (metis prod.collapse)
  moreover have "\<exists>e. ve_count E (key_pragma k) (Some f) = Err e \<and> contains e ''not a database''"
    using assms(1,4) f(2) unfolding sqlcipher_laws_def by blast
  ultimately show ?thesis using f(1) assms(5) by (auto simp: open_cipher_def on_file_def map_fst_def map_sql_def)
qed

lemma key_pragma_inj: "key_pragma k = key_pragma k' \<longleftrightarrow> k = k'"
proof
  assume "key_pragma k = key_pragma k'"
  then have "hex_encode k = hex_encode k'" by (simp add: key_pragma_def to_hex_def)
  then have "(Ok k :: WireError + bytes) = Ok k'" by (metis from_hex_loop_encode)
  then show "k = k'" by simp
qed simp

lemma mix_device_inj:
  assumes "length a = KEY_LEN" "length s = KEY_LEN" "length s' = KEY_LEN" "mix_device_key a s = mix_device_key a s'"
  shows "s = s'"
proof (rule nth_equalityI)
  show "length s = length s'" using assms by simp
  fix i assume "i < length s"
  then have i: "i < length a" "i < length s" "i < length s'" using assms by simp_all
  have "mix_device_key a s ! i = mix_device_key a s' ! i" using assms(4) by simp
  then have "a ! i XOR s ! i = a ! i XOR s' ! i" using i by (simp add: mix_device_key_def)
  then show "s ! i = s' ! i" by (metis bit.xor_left_self)
qed


subsection \<open>Creation, use and opening\<close>

lemma createE:
  assumes "create_bound E dir passphrase i dev salt secret d = (Ok v, d')"
  obtains key device pragma d1 d2 d3 d4 where "check_passphrase passphrase = Ok ()" "\<not> path_exists (dir @ [STORE_FILE]) d"
    "d1 = put_file (dir @ [KDF_FILE]) (Some (kdf_bytes (new_kdf salt))) d"
    "derive E passphrase salt M_COST_KIB T_COST P_COST = Ok key" "resolve E secret dev salt True d1 = (Ok device, d2)"
    "open_cipher E (dir @ [STORE_FILE]) (mix_device_key key device) d2 = (Ok pragma, d3)"
    "on_file (ve_batch E pragma) (dir @ [STORE_FILE]) d3 = (Ok (), d4)"
    "v = \<lparr>vt_dir = dir, vt_path = dir @ [STORE_FILE], vt_key = pragma\<rparr>" "save E v i d4 = (Ok (), d')"
  using assms by (auto simp: create_bound_def Let_def result_simps write_kdf_def split: if_splits)

lemma resolve_keeps_vault:
  assumes "resolve E secret dev salt c d = (r, d')" "x \<noteq> account salt"
  shows "hm_get (dk_files d') (dir @ [x]) = hm_get (dk_files d) (dir @ [x])"
proof -
  have "hm_get (dk_files (snd (write_file E (q @ [account salt]) s d0))) (dir @ [x]) = hm_get (dk_files d0) (dir @ [x])" for q s d0
    using assms(2) by (cases "fs_mkdir E q") (auto simp: write_file_def fs_write_def map_fst_def split: option.splits)
  moreover have "dk_files (snd (keyring_store E salt secret d)) = dk_files d" by (simp add: keyring_store_def split: prod.splits)
  moreover have "d' = d \<or> (\<exists>q. d' = snd (write_file E (q @ [account salt]) secret (snd (keyring_store E salt secret d))))"
  proof (cases "dev = None \<and> \<not> ve_android E \<and> (\<exists>q. bind_dir E = Ok q)")
    case True
    then obtain q where q: "bind_dir E = Ok q" by blast
    have "d' = d \<or> d' = snd (write_file E (q @ [account salt]) secret (snd (keyring_store E salt secret d)))" using assms(1) True q
      by (cases "write_file E (q @ [account salt]) secret (snd (keyring_store E salt secret d))"; cases "keyring_load E salt d")
        (auto simp: resolve_def os_secret_def bind_file_def sbind_def split: if_splits sum.splits)
    then show ?thesis by blast
  next
    case False
    then show ?thesis using assms(1)
      by (cases "bind_dir E") (auto simp: resolve_def os_secret_def bind_file_def split: option.splits if_splits)
  qed
  ultimately show ?thesis by auto
qed

lemma open_cipherD:
  assumes "open_cipher E p k d = (Ok pragma, d')"
  shows "\<exists>f n. pragma = key_pragma k \<and> ve_open E (hm_get (dk_files d) p) = (Ok (), f) \<and> ve_count E pragma f = Ok n \<and> d' = put_file p f d"
proof -
  obtain r f where o: "ve_open E (hm_get (dk_files d) p) = (r, f)" by fastforce
  then show ?thesis using assms
    by (cases r; cases "ve_key E (key_pragma k) f"; cases "ve_count E (key_pragma k) f")
      (simp_all add: open_cipher_def on_file_def map_fst_def Let_def)
qed

text \<open>A created vault: its database holds the installation, and passphrase and device unlock it.\<close>

lemma create_ok:
  assumes "sqlcipher_laws E H" "\<forall>p. ve_read E p = None" "length salt = SALT_LEN" "length secret = KEY_LEN"
    and "create_bound E dir passphrase i dev salt secret d = (Ok v, d')"
  shows "\<exists>k. v = \<lparr>vt_dir = dir, vt_path = dir @ [STORE_FILE], vt_key = key_pragma k\<rparr> \<and> unlocks E dir salt passphrase dev k d' \<and>
    vault_rows H v [SNAPSHOT_KEY \<mapsto> encode_snapshot i, MLS_KEY \<mapsto> encode_mls_storage i] d'"
  using assms(5)
proof (rule createE)
  fix key device pragma d1 d2 d3 d4
  let ?db = "dir @ [STORE_FILE]" and ?kdf = "new_kdf salt"
  assume new: "\<not> path_exists ?db d" and d1: "d1 = put_file (dir @ [KDF_FILE]) (Some (kdf_bytes ?kdf)) d"
    and key: "derive E passphrase salt M_COST_KIB T_COST P_COST = Ok key" and dev: "resolve E secret dev salt True d1 = (Ok device, d2)"
    and oc: "open_cipher E ?db (mix_device_key key device) d2 = (Ok pragma, d3)"
    and b: "on_file (ve_batch E pragma) ?db d3 = (Ok (), d4)"
    and v: "v = \<lparr>vt_dir = dir, vt_path = ?db, vt_key = pragma\<rparr>" and sv: "save E v i d4 = (Ok (), d')"
  have d2: "hm_get (dk_files d2) ?db = None" "hm_get (dk_files d2) (dir @ [KDF_FILE]) = Some (kdf_bytes ?kdf)"
    using resolve_keeps_vault [OF dev names_differ(2) [symmetric]] resolve_keeps_vault [OF dev names_differ(3) [symmetric]] names_differ(1) new d1
    by (auto simp: path_exists_def)
  obtain f n where o: "ve_open E None = (Ok (), f)" "ve_count E pragma f = Ok n" "d3 = put_file ?db f d2"
    and pragma: "pragma = key_pragma (mix_device_key key device)"
    using open_cipherD [OF oc] unfolding d2(1) by blast
  have d3: "only_at ?db d2 d3" using o(3) by (simp add: only_at_def)
  obtain g where g: "ve_batch E pragma f = (Ok (), g)" "d4 = put_file ?db g d3"
    using b o(3) by (auto simp: on_file_def split: prod.splits)
  have "\<exists>c. g = Some c \<and> H pragma Map.empty c" using assms(1) o g(1) unfolding sqlcipher_laws_def by blast
  then have r4: "vault_rows H v Map.empty d4" using g(2) v by (auto simp: vault_rows_def)
  from save_step [OF assms(1) r4 sv] v
  have rows: "vault_rows H v [SNAPSHOT_KEY \<mapsto> encode_snapshot i, MLS_KEY \<mapsto> encode_mls_storage i] d'" and "only_at ?db d4 d'" by auto
  moreover have "only_at ?db d2 d4" using only_at_trans [OF d3] on_file_only [OF b] by blast
  ultimately have d': "only_at ?db d2 d'" by (rule_tac only_at_trans) auto
  have "read_kdf E (dir @ [KDF_FILE]) d2 = Ok ?kdf"
    using d2(2) assms(2,3) kdf_roundtrip [of ?kdf] by (simp add: read_kdf_def fs_read_def SALT_LEN_def new_kdf_def)
  moreover have "resolve E [] dev salt False d2 = (Ok device, d2)" using resolve_again [OF dev assms(2,4)] .
  ultimately have "unlocks E dir salt passphrase dev (mix_device_key key device) d2" using key by (auto simp: unlocks_def)
  then show ?thesis using unlocks_only [OF d'] rows v pragma by auto
qed


text \<open>Use of an open vault; the second part of a state is the installation last saved. Saving
  the side tables may fail.\<close>

inductive vault_step :: "openmls \<Rightarrow> vault_env \<Rightarrow> Vault \<Rightarrow> disk \<times> Installation \<Rightarrow> disk \<times> Installation \<Rightarrow> bool"
  for M :: openmls and E :: vault_env and v :: Vault where
  saved: "save E v i' d = (Ok (), d') \<Longrightarrow> vault_step M E v (d, i) (d', i')"
| groups: "save_groups E v i' gs d = (Ok (), d') \<Longrightarrow> vault_step M E v (d, i) (d', i')"
| home: "save_home E v i' st d = (Ok (), d') \<Longrightarrow> vault_step M E v (d, i) (d', i')"
| display: "save_display E v nicks timers names d = (r, d') \<Longrightarrow> vault_step M E v (d, i) (d', i)"
| inbox: "save_inbox E v rows next_seq acked read group_read d = (r, d') \<Longrightarrow> vault_step M E v (d, i) (d', i)"
| pending: "save_pending M E v entries d = (r, d') \<Longrightarrow> vault_step M E v (d, i) (d', i)"
| invites: "save_invites E v gis d = (r, d') \<Longrightarrow> vault_step M E v (d, i) (d', i)"

definition holds_install :: "database \<Rightarrow> Vault \<Rightarrow> Installation \<Rightarrow> disk \<Rightarrow> bool" where
  "holds_install H v i d \<longleftrightarrow> (\<exists>rows. vault_rows H v rows d \<and> rows SNAPSHOT_KEY = Some (encode_snapshot i) \<and>
     rows MLS_KEY = Some (encode_mls_storage i))"

lemma keys_differ:
  "x \<in> {GROUPS_KEY, HOME_KEY, DISPLAY_KEY, INBOX_KEY, PENDING_KEY, INVITES_KEY} \<Longrightarrow> x \<noteq> SNAPSHOT_KEY \<and> x \<noteq> MLS_KEY"
  "MLS_KEY \<noteq> SNAPSHOT_KEY"
  by (auto simp: GROUPS_KEY_def HOME_KEY_def DISPLAY_KEY_def INBOX_KEY_def PENDING_KEY_def INVITES_KEY_def SNAPSHOT_KEY_def MLS_KEY_def)

lemma save_holds:
  assumes "sqlcipher_laws E H" "vault_rows H v rows d" "save E v i d = (Ok (), d')"
  shows "holds_install H v i d' \<and> only_at (vt_path v) d d'"
  using save_step [OF assms] keys_differ(2) by (auto simp: holds_install_def fun_upd_apply)

lemma put_holds:
  assumes "sqlcipher_laws E H" "holds_install H v i d" "put E v x b d = (r, d')"
    and "x \<in> {GROUPS_KEY, HOME_KEY, DISPLAY_KEY, INBOX_KEY, PENDING_KEY, INVITES_KEY}"
  shows "holds_install H v i d' \<and> only_at (vt_path v) d d'"
proof -
  obtain rows where r: "vault_rows H v rows d" "rows SNAPSHOT_KEY = Some (encode_snapshot i)" "rows MLS_KEY = Some (encode_mls_storage i)"
    using assms(2) by (auto simp: holds_install_def)
  let ?rows = "if r = Ok () then rows(x \<mapsto> b) else rows"
  have "?rows SNAPSHOT_KEY = Some (encode_snapshot i)" "?rows MLS_KEY = Some (encode_mls_storage i)"
    using r(2,3) keys_differ(1) [OF assms(4)] by auto
  then show ?thesis using put_step [OF assms(1) r(1) assms(3)] unfolding holds_install_def by blast
qed

lemma vault_step_keeps:
  assumes "vault_step M E v s s'" "sqlcipher_laws E H" "holds_install H v (snd s) (fst s)"
  shows "holds_install H v (snd s') (fst s') \<and> only_at (vt_path v) (fst s) (fst s')"
proof -
  have sp: "holds_install H v i' d2 \<and> only_at (vt_path v) d d2"
    if h: "holds_install H v i d" and p: "sbind (save E v i' d) (\<lambda>_. put E v x b) = (Ok (), d2)"
      and x: "x \<in> {GROUPS_KEY, HOME_KEY, DISPLAY_KEY, INBOX_KEY, PENDING_KEY, INVITES_KEY}" for i i' d d2 x b
  proof -
    obtain d1 where s: "save E v i' d = (Ok (), d1)" "put E v x b d1 = (Ok (), d2)" using p by (auto simp: sbind_eq_Ok)
    obtain rows where "vault_rows H v rows d" using h by (auto simp: holds_install_def)
    from save_holds [OF assms(2) this s(1)] put_holds [OF assms(2) _ s(2) x] show ?thesis using only_at_trans by blast
  qed
  from assms(1,3) show ?thesis
  proof (cases rule: vault_step.cases)
    case (saved i' d d' i)
    then show ?thesis using save_holds [OF assms(2)] assms(3) by (auto simp: holds_install_def)
  next
    case (groups i' gs d d' i)
    then show ?thesis using sp assms(3) by (auto simp: save_groups_def)
  next
    case (home i' st d d' i)
    then show ?thesis using sp assms(3) by (auto simp: save_home_def)
  next
    case (display nicks timers names d r d' i)
    then show ?thesis using put_holds [OF assms(2)] assms(3) by (auto simp: save_display_def)
  next
    case (inbox rows next_seq acked read group_read d r d' i)
    then show ?thesis using put_holds [OF assms(2)] assms(3) by (auto simp: save_inbox_def)
  next
    case (pending entries d r d' i)
    then show ?thesis using put_holds [OF assms(2)] assms(3)
      by (cases "rmap (pending_row M) entries") (auto simp: save_pending_def only_at_def)
  next
    case (invites gis d r d' i)
    then show ?thesis using put_holds [OF assms(2)] assms(3) by (auto simp: save_invites_def)
  qed
qed

lemma vault_steps_keep:
  assumes "(vault_step M E v)\<^sup>*\<^sup>* s s'" "sqlcipher_laws E H" "holds_install H v (snd s) (fst s)"
  shows "holds_install H v (snd s') (fst s') \<and> only_at (vt_path v) (fst s) (fst s')"
  using assms(1)
proof (induction rule: rtranclp_induct)
  case base
  then show ?case using assms(3) by (simp add: only_at_def)
next
  case (step s1 s2)
  then show ?case using vault_step_keeps [OF step(2) assms(2)] only_at_trans by blast
qed

text \<open>A disk that is changed in its order only behaves the same.\<close>

definition same_disk :: "disk \<Rightarrow> disk \<Rightarrow> bool" where
  "same_disk d d' \<longleftrightarrow> dk_keyring d' = dk_keyring d \<and> (\<forall>p. hm_get (dk_files d') p = hm_get (dk_files d) p)"

definition as_loaded :: "Installation \<Rightarrow> Installation" where
  "as_loaded i = i\<lparr>in_store := ss_norm (in_store i), in_mls := hm_sorted (in_mls i)\<rparr>"

lemma load_holds:
  assumes "sqlcipher_reads E H" "holds_install H v i d" "in_wf C L i" "storage_ok (in_mls i)"
  shows "load_installation C L E v d = Ok (as_loaded i)"
proof -
  have "get_opt E v SNAPSHOT_KEY d = Ok (Some (encode_snapshot i))" "get_opt E v MLS_KEY d = Ok (Some (encode_mls_storage i))"
    using get_rows [OF assms(1)] assms(2) by (auto simp: holds_install_def)
  then show ?thesis using installation_roundtrip [OF assms(3)] storage_roundtrip [OF assms(4)]
    by (simp add: load_installation_def load_def as_loaded_def)
qed

lemma open_ok:
  assumes "sqlcipher_laws E H" "sqlcipher_reads E H" "v = \<lparr>vt_dir = dir, vt_path = dir @ [STORE_FILE], vt_key = key_pragma k\<rparr>"
    and "unlocks E dir salt passphrase dev k d" "check_passphrase passphrase = Ok ()" "holds_install H v i d" "in_wf C L i" "storage_ok (in_mls i)"
  shows "\<exists>d'. open_bound C L E dir passphrase dev d = (Ok (v, as_loaded i), d') \<and> same_disk d d'"
proof -
  obtain rows where rows: "vault_rows H v rows d" using assms(6) by (auto simp: holds_install_def)
  obtain d' where d': "open_cipher E (dir @ [STORE_FILE]) k d = (Ok (key_pragma k), d')" "same_disk d d'"
    using open_cipher_Ok [OF assms(1,2) rows [unfolded assms(3)]] by (auto simp: same_disk_def)
  obtain pk device where u: "read_kdf E (dir @ [KDF_FILE]) d = Ok (new_kdf salt)" "derive E passphrase salt M_COST_KIB T_COST P_COST = Ok pk"
    "resolve E [] dev salt False d = (Ok device, d)" "k = mix_device_key pk device"
    using assms(4) by (auto simp: unlocks_def)
  have "path_exists (dir @ [KDF_FILE]) d" "path_exists (dir @ [STORE_FILE]) d"
    using u(1) rows assms(3) by (auto simp: read_kdf_def fs_read_def path_exists_def vault_rows_def rbind_eq_Ok split: option.splits)
  moreover have "holds_install H v i d'" using assms(6) d'(2) by (simp add: holds_install_def vault_rows_def same_disk_def)
  then have "load_installation C L E v d' = Ok (as_loaded i)" by (rule load_holds [OF assms(2) _ assms(7,8)])
  ultimately show ?thesis using u d' assms(3,5) by (simp add: open_bound_def new_kdf_def)
qed

section \<open>Theorems\<close>

text \<open>
  C30. A vault opens again: whatever was done with it since its creation, the same passphrase and device
  open it and give the installation last saved, with its sessions and its OpenMLS storage, and
  opening changes no file.
\<close>

theorem vault_reopens:
  assumes "sqlcipher_laws E H" "sqlcipher_reads E H" "\<forall>p. ve_read E p = None" "length salt = SALT_LEN" "length secret = KEY_LEN"
    and "create_bound E dir passphrase i0 dev salt secret d0 = (Ok v, d1)" "(vault_step M E v)\<^sup>*\<^sup>* (d1, i0) (d, i)"
    and "in_wf C L i" "storage_ok (in_mls i)"
  shows "\<exists>d'. open_bound C L E dir passphrase dev d = (Ok (v, as_loaded i), d') \<and> same_disk d d'"
proof -
  obtain k where k: "v = \<lparr>vt_dir = dir, vt_path = dir @ [STORE_FILE], vt_key = key_pragma k\<rparr>" "unlocks E dir salt passphrase dev k d1"
    "vault_rows H v [SNAPSHOT_KEY \<mapsto> encode_snapshot i0, MLS_KEY \<mapsto> encode_mls_storage i0] d1"
    using create_ok [OF assms(1,3,4,5,6)] by blast
  have "check_passphrase passphrase = Ok ()" using assms(6) by (rule createE)
  moreover have "holds_install H v i0 d1" using k(3) keys_differ(2) by (auto simp: holds_install_def)
  then have "holds_install H v i d \<and> only_at (dir @ [STORE_FILE]) d1 d" using vault_steps_keep [OF assms(7,1)] k(1) by simp
  ultimately show ?thesis using open_ok [OF assms(1,2) k(1) _ _ _ assms(8,9)] unlocks_only k(2) by blast
qed


text \<open>
  C31. A vault fails closed: a passphrase and a device secret whose mixed key is not that of the vault
  open nothing and are told that it is locked. So is the right passphrase with any other device
  secret.
\<close>

theorem vault_stays_locked:
  assumes "sqlcipher_laws E H" "sqlcipher_reads E H" "\<forall>p. ve_read E p = None" "\<forall>k f. ve_key E k f = Ok ()"
    and "length salt = SALT_LEN" "create_bound E dir passphrase i0 (Some s) salt secret d0 = (Ok v, d1)"
    and "length secret = KEY_LEN" "(vault_step M E v)\<^sup>*\<^sup>* (d1, i0) (d, i)"
    and "\<forall>m t p pw sl k. ve_argon2id E m t p pw sl = Some k \<longrightarrow> length k = KEY_LEN"
    and "check_passphrase passphrase' = Ok ()" "length s' = KEY_LEN"
    and "ve_argon2id E M_COST_KIB T_COST P_COST passphrase salt = Some k" "ve_argon2id E M_COST_KIB T_COST P_COST passphrase' salt = Some k'"
    and "mix_device_key k' s' \<noteq> mix_device_key k s \<or> (passphrase' = passphrase \<and> s' \<noteq> s)"
  shows "fst (open_bound C L E dir passphrase' (Some s') d) = Err VaultLocked"
proof -
  let ?k = "mix_device_key k s" and ?k' = "mix_device_key k' s'"
  obtain kv where kv: "v = \<lparr>vt_dir = dir, vt_path = dir @ [STORE_FILE], vt_key = key_pragma kv\<rparr>" "unlocks E dir salt passphrase (Some s) kv d1"
    and rows: "vault_rows H v [SNAPSHOT_KEY \<mapsto> encode_snapshot i0, MLS_KEY \<mapsto> encode_mls_storage i0] d1"
    using create_ok [OF assms(1,3,5,7,6)] by blast
  have "holds_install H v i0 d1" using rows keys_differ(2) by (auto simp: holds_install_def)
  then have h: "holds_install H v i d" and o: "only_at (dir @ [STORE_FILE]) d1 d" using vault_steps_keep [OF assms(8,1)] kv(1) by simp_all
  have u: "unlocks E dir salt passphrase (Some s) kv d" using unlocks_only [OF o kv(2)] .
  then have s: "kv = ?k" "length s = KEY_LEN" using assms(12) by (auto simp: unlocks_def derive_def resolve_def parse_secret_def split: if_splits)
  have "?k' \<noteq> ?k"
    using assms(14)
  proof
    assume "passphrase' = passphrase \<and> s' \<noteq> s"
    then show ?thesis using mix_device_inj [of k s' s] assms(9,11,12,13) s(2) by auto
  qed
  then have "key_pragma ?k' \<noteq> vt_key v" using kv(1) s(1) by (simp add: key_pragma_inj)
  moreover obtain rs where rs: "vault_rows H v rs d" using h by (auto simp: holds_install_def)
  ultimately have oc: "fst (open_cipher E (dir @ [STORE_FILE]) ?k' d) = Err VaultLocked"
    using open_cipher_locked [OF assms(1,2) rs _ assms(4)] kv(1) by simp
  have "path_exists (dir @ [KDF_FILE]) d" "path_exists (dir @ [STORE_FILE]) d"
    using u rs kv(1) assms(3) by (auto simp: unlocks_def read_kdf_def fs_read_def path_exists_def vault_rows_def rbind_eq_Ok)
  then show ?thesis using u oc assms(10,11,13)
    by (cases "open_cipher E (dir @ [STORE_FILE]) ?k' d")
      (simp add: open_bound_def unlocks_def new_kdf_def derive_def resolve_def parse_secret_def)
qed

text \<open>
  C40. A creation that fails after its first file leaves the directory unusable: a device secret of the
  wrong length is refused when the parameters of the key are already written, and from then on
  every creation there reports a vault and every opening reports none.
\<close>

theorem failed_create_blocks:
  assumes "check_passphrase passphrase = Ok ()" "ve_mkdir E dir = None" "ve_write E (dir @ [KDF_FILE]) = (\<lambda>_. None)"
    and "hm_get (dk_files d) (dir @ [KDF_FILE]) = None" "hm_get (dk_files d) (dir @ [STORE_FILE]) = None"
    and "length s \<noteq> KEY_LEN" "ve_argon2id E M_COST_KIB T_COST P_COST passphrase salt = Some k"
    and "create_bound E dir passphrase i (Some s) salt secret d = (r, d')" "check_passphrase passphrase' = Ok ()"
  shows "r = Err VaultCorrupt \<and> create_bound E dir passphrase' i' dev' salt' secret' d' = (Err VaultExists, d') \<and>
    open_bound C L E dir passphrase' dev' d' = (Err VaultMissing, d')"
  using assms names_differ(1)
  by (auto simp: create_bound_def open_bound_def fs_mkdir_def path_exists_def write_kdf_def fs_write_def derive_def resolve_def
      parse_secret_def map_fst_def Let_def)

text \<open>
  Saving is two statements: when the second fails, the vault holds the new sessions and keys with
  the OpenMLS storage of before, and opens as that mixture.
\<close>

theorem torn_save:
  assumes "sqlcipher_laws E H" "sqlcipher_reads E H" "holds_install H v i d" "put E v SNAPSHOT_KEY (encode_snapshot i') d = (Ok (), d1)"
    and "put E v MLS_KEY (encode_mls_storage i') d1 = (Err e, d2)" "in_wf C L i'" "storage_ok (in_mls i)"
  shows "save E v i' d = (Err e, d2) \<and> load_installation C L E v d2 = Ok (as_loaded (i'\<lparr>in_mls := in_mls i\<rparr>))"
proof -
  obtain rows where r: "vault_rows H v rows d" "rows MLS_KEY = Some (encode_mls_storage i)"
    using assms(3) by (auto simp: holds_install_def)
  have r1: "vault_rows H v (rows(SNAPSHOT_KEY \<mapsto> encode_snapshot i')) d1" using put_step [OF assms(1) r(1) assms(4)] by simp
  have r2: "vault_rows H v (rows(SNAPSHOT_KEY \<mapsto> encode_snapshot i')) d2" using put_step [OF assms(1) r1 assms(5)] by simp
  have "encode_snapshot i' = encode_snapshot (i'\<lparr>in_mls := in_mls i\<rparr>)" "encode_mls_storage i = encode_mls_storage (i'\<lparr>in_mls := in_mls i\<rparr>)"
    by (simp_all add: encode_snapshot_def encode_mls_storage_def)
  then have "holds_install H v (i'\<lparr>in_mls := in_mls i\<rparr>) d2" using r2 r(2) keys_differ(2) unfolding holds_install_def by (metis fun_upd_apply)
  moreover have "in_wf C L (i'\<lparr>in_mls := in_mls i\<rparr>)" using assms(6) by (simp add: in_wf_def in_identity_id_def in_public_key_def)
  ultimately show ?thesis using load_holds [OF assms(2)] assms(4,5,7) by (simp add: save_def)
qed

end
