(* ===== verification/Vault_Tables.thy ===== *)
theory Vault_Tables
  imports Vault_Props
begin

text \<open>
  The side tables of the vault, groups, home session, names, inbox, pending joins and invites,
  are read back as they were saved; a small instance of the vault's environment on which its
  properties are evaluated.
\<close>

section \<open>Lemmas\<close>

subsection \<open>Rows\<close>

definition names_ok :: "names \<Rightarrow> bool" where
  "names_ok m \<longleftrightarrow> hm_wf m \<and> length m < 2 ^ 64 \<and> (\<forall>(k, t) \<in> set m. str_ok k \<and> str_ok t)"

definition marks_ok :: "marks \<Rightarrow> bool" where
  "marks_ok m \<longleftrightarrow> hm_wf m \<and> length m < 2 ^ 64 \<and> (\<forall>(k, n) \<in> set m. str_ok k)"

definition group_marks_ok :: "(bytes, marks) hashmap \<Rightarrow> bool" where
  "group_marks_ok m \<longleftrightarrow> hm_wf m \<and> length (group_mark_rows m) < 2 ^ 64 \<and> (\<forall>(g, marks) \<in> set m. str_ok g \<and> marks_ok marks)"

definition inbox_row_ok :: "InboxRow \<Rightarrow> bool" where
  "inbox_row_ok r \<longleftrightarrow> str_ok (ir_conv_id r) \<and> str_ok (ir_text r) \<and> str_ok (ir_file_name r) \<and> str_ok (ir_file_mime r) \<and>
     length (ir_file_bytes r) < 2 ^ 64 \<and> str_ok (ir_fetch_token r) \<and> str_ok (ir_kind r) \<and> str_ok (ir_emoji r) \<and>
     str_ok (ir_sender_id r) \<and> str_ok (ir_sender_name r)"

lemma text_row_back:
  "str_ok (fst p) \<Longrightarrow> str_ok (snd p) \<Longrightarrow> parse_text_row (text_row p) = Ok p \<and> wf_value (text_row p) \<and> sorted_value (text_row p)"
  by (simp add: parse_text_row_def text_row_def parse_row_of_def str_ok_def)

lemma mark_row_back: "str_ok (fst p) \<Longrightarrow> parse_mark_row (mark_row p) = Ok p \<and> wf_value (mark_row p) \<and> sorted_value (mark_row p)"
  by (simp add: parse_mark_row_def mark_row_def parse_row_of_def str_ok_def)

lemma group_mark_back:
  "str_ok (fst t) \<Longrightarrow> str_ok (fst (snd t)) \<Longrightarrow>
     parse_group_mark (group_mark_row t) = Ok t \<and> wf_value (group_mark_row t) \<and> sorted_value (group_mark_row t)"
  by (simp add: parse_group_mark_def group_mark_row_def parse_row_of_def str_ok_def)

lemma inbox_row_back:
  assumes "inbox_row_ok r"
  shows "decode_inbox_row (encode_inbox_row r) = Ok r \<and> wf_value (encode_inbox_row r) \<and> sorted_value (encode_inbox_row r)"
proof -
  let ?m = "case encode_inbox_row r of Map m \<Rightarrow> m"
  have get: "map_get_opt ?m 13 = Some (Uint (if ir_outgoing r then 1 else 0))" "map_get_opt ?m 14 = Some (Text (ir_sender_id r))"
    "map_get_opt ?m 15 = Some (Text (ir_sender_name r))" "map_get_opt ?m 16 = Some (Uint (ir_reply_to r))"
    by (simp_all add: encode_inbox_row_def)
  show ?thesis using assms by (cases r) (simp add: inbox_row_ok_def str_ok_def decode_inbox_row_def encode_inbox_row_def uint_or_zero_def text_or_empty_def map_get_def)
qed

lemma sorted_all: "hm_wf m \<Longrightarrow> (\<forall>(k, x) \<in> set m. P k x) \<Longrightarrow> p \<in> set (hm_sorted m) \<Longrightarrow> P (fst p) (snd p)"
  using hm_sorted_in [of m "fst p" "snd p"] by auto

lemma names_back:
  assumes "names_ok m"
  shows "collect_rows parse_text_row (map text_row (hm_sorted m)) = Ok (hm_sorted m)"
    and "\<forall>x \<in> set (map text_row (hm_sorted m)). wf_value x \<and> sorted_value x"
proof -
  have b: "parse_text_row (text_row p) = Ok p \<and> wf_value (text_row p) \<and> sorted_value (text_row p)" if "p \<in> set (hm_sorted m)" for p
    using sorted_all [of m "\<lambda>k t. str_ok k \<and> str_ok t", OF _ _ that] assms text_row_back by (simp add: names_ok_def)
  then show "\<forall>x \<in> set (map text_row (hm_sorted m)). wf_value x \<and> sorted_value x" by auto
  have "rmap parse_text_row (map text_row (hm_sorted m)) = Ok (hm_sorted m)" by (rule rmap_map_Ok) (use b in blast)
  then show "collect_rows parse_text_row (map text_row (hm_sorted m)) = Ok (hm_sorted m)"
    using hm_collect_sorted [of m] assms by (simp add: collect_rows_def names_ok_def)
qed

lemma marks_back:
  assumes "marks_ok m"
  shows "collect_rows parse_mark_row (map mark_row (hm_sorted m)) = Ok (hm_sorted m)"
    and "\<forall>x \<in> set (map mark_row (hm_sorted m)). wf_value x \<and> sorted_value x"
proof -
  have b: "parse_mark_row (mark_row p) = Ok p \<and> wf_value (mark_row p) \<and> sorted_value (mark_row p)" if "p \<in> set (hm_sorted m)" for p
    using sorted_all [of m "\<lambda>k n. str_ok k", OF _ _ that] assms mark_row_back by (simp add: marks_ok_def)
  then show "\<forall>x \<in> set (map mark_row (hm_sorted m)). wf_value x \<and> sorted_value x" by auto
  have "rmap parse_mark_row (map mark_row (hm_sorted m)) = Ok (hm_sorted m)" by (rule rmap_map_Ok) (use b in blast)
  then show "collect_rows parse_mark_row (map mark_row (hm_sorted m)) = Ok (hm_sorted m)"
    using hm_collect_sorted [of m] assms by (simp add: collect_rows_def marks_ok_def)
qed

text \<open>The marks of a group without any are not written, and none are read.\<close>

definition group_marks_loaded :: "(bytes, marks) hashmap \<Rightarrow> (bytes, marks) hashmap" where
  "group_marks_loaded m = filter (\<lambda>(g, marks). marks \<noteq> []) (map (\<lambda>(g, marks). (g, hm_sorted marks)) (hm_sorted m))"

lemma hm_insert_end: "g \<notin> fst ` set m \<Longrightarrow> hm_insert g x (m @ [(g, y)]) = m @ [(g, x)] \<and> hm_get (m @ [(g, y)]) g = Some y"
  by (induction m) (auto simp: hm_insert_def hm_get_def)

lemma insert_marks:
  assumes "g \<notin> fst ` set m" "distinct (map fst (ys @ xs))" "ys @ xs \<noteq> []"
  shows "fold insert_group_mark (map (\<lambda>(viewer, n). (g, viewer, n)) xs) (if ys = [] then m else m @ [(g, ys)]) = m @ [(g, ys @ xs)]"
  using assms(2,3)
proof (induction xs arbitrary: ys)
  case (Cons x xs)
  have "insert_group_mark (g, x) (if ys = [] then m else m @ [(g, ys)]) = m @ [(g, ys @ [x])]"
  proof (cases "ys = []")
    case True
    have "hm_get m g = None" using assms(1) by (simp add: hm_get_def map_of_eq_None_iff)
    then show ?thesis using True assms(1) by (simp add: insert_group_mark_def hm_insert_fresh)
  next
    case False
    have "fst x \<notin> fst ` set ys" using Cons.prems(1) by auto
    then show ?thesis using False assms(1) hm_insert_end [of g m] by (simp add: insert_group_mark_def hm_insert_fresh)
  qed
  then show ?case using Cons.IH [of "ys @ [x]"] Cons.prems by (cases x) simp
qed auto

lemma insert_all_marks:
  assumes "distinct (map fst gs)" "fst ` set gs \<inter> fst ` set m = {}" "\<forall>(g, marks) \<in> set gs. distinct (map fst marks)"
  shows "fold insert_group_mark (concat (map (\<lambda>(g, marks). map (\<lambda>(viewer, n). (g, viewer, n)) marks) gs)) m =
    m @ filter (\<lambda>(g, marks). marks \<noteq> []) gs"
  using assms
proof (induction gs arbitrary: m)
  case (Cons x gs)
  obtain g marks where x: "x = (g, marks)" by (cases x)
  show ?case
  proof (cases "marks = []")
    case True
    then show ?thesis using Cons.IH [of m] Cons.prems x by auto
  next
    case False
    then have "fold insert_group_mark (map (\<lambda>(viewer, n). (g, viewer, n)) marks) m = m @ [(g, marks)]"
      using insert_marks [of g m "[]" marks] Cons.prems x by simp
    then show ?thesis using Cons.IH [of "m @ [(g, marks)]"] Cons.prems x False by auto
  qed
qed simp

lemma group_marks_back:
  assumes "group_marks_ok m"
  shows "rmap parse_group_mark (map group_mark_row (group_mark_rows m)) = Ok (group_mark_rows m)"
    and "\<forall>x \<in> set (map group_mark_row (group_mark_rows m)). wf_value x \<and> sorted_value x"
    and "fold insert_group_mark (group_mark_rows m) [] = group_marks_loaded m"
proof -
  have gs: "str_ok (fst p) \<and> marks_ok (snd p)" if "p \<in> set (hm_sorted m)" for p
    using sorted_all [of m "\<lambda>g marks. str_ok g \<and> marks_ok marks", OF _ _ that] assms by (simp add: group_marks_ok_def)
  have ok: "str_ok (fst t) \<and> str_ok (fst (snd t))" if t: "t \<in> set (group_mark_rows m)" for t
  proof -
    obtain g marks p where p: "(g, marks) \<in> set (hm_sorted m)" "p \<in> set (hm_sorted marks)" "t = (g, p)"
      using t by (auto simp: group_mark_rows_def)
    then have "marks_ok marks" "str_ok g" using gs [OF p(1)] by simp_all
    then show ?thesis using sorted_all [of marks "\<lambda>k n. str_ok k", OF _ _ p(2)] p(3) by (simp add: marks_ok_def)
  qed
  then show "\<forall>x \<in> set (map group_mark_row (group_mark_rows m)). wf_value x \<and> sorted_value x" using group_mark_back by auto
  show "rmap parse_group_mark (map group_mark_row (group_mark_rows m)) = Ok (group_mark_rows m)"
    by (rule rmap_map_Ok) (use ok group_mark_back in blast)
  have d: "distinct (map fst (map (\<lambda>(g, marks). (g, hm_sorted marks)) (hm_sorted m)))"
    using assms by (simp add: group_marks_ok_def hm_wf_def comp_def case_prod_beta)
  have "distinct (map fst (hm_sorted (snd p)))" if "p \<in> set (hm_sorted m)" for p using gs [OF that] by (simp add: marks_ok_def hm_wf_def)
  then have "fold insert_group_mark (concat (map (\<lambda>(g, marks). map (\<lambda>(viewer, n). (g, viewer, n)) marks)
      (map (\<lambda>(g, marks). (g, hm_sorted marks)) (hm_sorted m)))) [] = [] @ group_marks_loaded m"
    unfolding group_marks_loaded_def using d by (intro insert_all_marks) auto
  then show "fold insert_group_mark (group_mark_rows m) [] = group_marks_loaded m"
    by (simp add: group_mark_rows_def comp_def case_prod_unfold)
qed


lemma loaded_marks:
  assumes "group_marks_ok m"
  shows "(\<exists>x. hm_get (group_marks_loaded m) g = Some x \<and> hm_get x viewer = Some n) \<longleftrightarrow> (\<exists>x. hm_get m g = Some x \<and> hm_get x viewer = Some n)"
proof -
  have wf: "hm_wf m" using assms by (simp add: group_marks_ok_def)
  have "distinct (map fst (map (\<lambda>(g, marks). (g, hm_sorted marks)) (hm_sorted m)))" using wf by (simp add: hm_wf_def comp_def case_prod_beta)
  then have "distinct (map fst (group_marks_loaded m))" unfolding group_marks_loaded_def using distinct_map_filter by blast
  then have "hm_get (group_marks_loaded m) g = Some x \<longleftrightarrow> (g, x) \<in> set (group_marks_loaded m)" for x by (simp add: hm_get_def)
  moreover have "(g, x) \<in> set (group_marks_loaded m) \<longleftrightarrow> x \<noteq> [] \<and> (\<exists>y. hm_get m g = Some y \<and> x = hm_sorted y)" for x
  proof -
    have "(g, y) \<in> set (hm_sorted m) \<longleftrightarrow> hm_get m g = Some y" for y
    proof -
      have "distinct (map fst (hm_sorted m))" using wf by (simp add: hm_wf_def)
      then have "(g, y) \<in> set (hm_sorted m) \<longleftrightarrow> hm_get (hm_sorted m) g = Some y" by (simp add: hm_get_def)
      then show ?thesis using hm_sorted_get [OF wf] by simp
    qed
    then show ?thesis by (force simp: group_marks_loaded_def)
  qed
  moreover have "hm_get (hm_sorted y) viewer = hm_get y viewer" if "hm_get m g = Some y" for y
  proof -
    have "(g, y) \<in> set m" using that by (simp add: hm_get_def map_of_SomeD)
    then show ?thesis using assms hm_sorted_get [of y viewer] by (auto simp: group_marks_ok_def marks_ok_def)
  qed
  moreover have "hm_get ([] :: marks) viewer = None" by (simp add: hm_get_def)
  ultimately show ?thesis by (metis option.distinct(1))
qed

subsection \<open>Tables\<close>

lemma put_get:
  assumes "sqlcipher_laws E H" "sqlcipher_reads E H" "vault_rows H v rows d" "put E v x b d = (Ok (), d')"
  shows "get_opt E v x d' = Ok (Some b)"
  using put_step [OF assms(1,3,4)] get_rows [OF assms(2)] by fastforce

lemma array_back: "\<forall>x \<in> set xs. wf_value x \<and> sorted_value x \<Longrightarrow> length xs < 2 ^ 64 \<Longrightarrow> vault_array (encode (Array xs)) = Ok xs"
  by (simp add: vault_array_def)

lemma display_back:
  assumes "names_ok a" "marks_ok b" "names_ok c"
  shows "parse_display (encode (Map [(0, Uint 1), (1, Array (map text_row (hm_sorted a))), (2, Array (map mark_row (hm_sorted b))),
    (3, Array (map text_row (hm_sorted c)))])) = Ok (hm_sorted a, hm_sorted b, hm_sorted c)"
  using names_back [OF assms(1)] marks_back [OF assms(2)] names_back [OF assms(3)] assms
  by (simp add: parse_display_def vault_map_def vault_version_def vault_items_def vault_items_opt_def map_get_def names_ok_def marks_ok_def)

lemma inbox_back:
  assumes "\<forall>r \<in> set rows. inbox_row_ok r" "length rows < 2 ^ 64" "marks_ok a" "marks_ok b" "marks_ok c" "group_marks_ok m"
  shows "parse_inbox (inbox_bytes rows a b c m) = Ok (rows, hm_sorted a, hm_sorted b, hm_sorted c, group_marks_loaded m)"
proof -
  have "rmap decode_inbox_row (map encode_inbox_row rows) = Ok rows" by (rule rmap_map_Ok) (use assms(1) inbox_row_back in blast)
  moreover have "\<forall>x \<in> set (map encode_inbox_row rows). wf_value x \<and> sorted_value x" using assms(1) inbox_row_back by auto
  ultimately show ?thesis
    using marks_back [OF assms(3)] marks_back [OF assms(4)] marks_back [OF assms(5)] group_marks_back [OF assms(6)] assms(2-6)
    by (simp add: parse_inbox_def inbox_bytes_def vault_map_def vault_version_def vault_items_def vault_items_opt_def map_get_def
        marks_ok_def group_marks_ok_def)
qed

lemma invites_back:
  assumes "\<forall>i \<in> set gis. gi_wf i \<and> length (gi_encode i) < 2 ^ 64" "length gis < 2 ^ 64"
  shows "rbind (vault_array (encode (Array (map (\<lambda>i. Bytes (gi_encode i)) gis))))
    (rmap (\<lambda>item. rbind (corrupt (expect_bytes item)) (\<lambda>raw. lift (gi_decode raw)))) = Ok gis"
proof -
  have "rmap (\<lambda>item. rbind (corrupt (expect_bytes item)) (\<lambda>raw. lift (gi_decode raw))) (map (\<lambda>i. Bytes (gi_encode i)) gis) = Ok gis"
    by (rule rmap_map_Ok) (use assms(1) gi_roundtrip in simp)
  moreover have "vault_array (encode (Array (map (\<lambda>i. Bytes (gi_encode i)) gis))) = Ok (map (\<lambda>i. Bytes (gi_encode i)) gis)"
    by (rule array_back) (use assms in auto)
  ultimately show ?thesis by simp
qed

text \<open>A group that OpenMLS finds in the storage is loaded as it was saved, the order of its
  announced keys and the fraction of a millisecond of its clock apart.\<close>

definition group_loaded :: "Group \<Rightarrow> Group" where
  "group_loaded g = g\<lparr>cg_last_own_update := cg_last_own_update g div 1000000 * 1000000, cg_announced_keys := hm_sorted (cg_announced_keys g)\<rparr>"

lemma groups_back:
  assumes "\<forall>g \<in> set gs. group_saved C g \<and> om_load M (mg_group_id (cg_mls g)) st = Ok (Some (cg_mls g)) \<and> length (encode_sidecar g) < 2 ^ 64"
  shows "smap (load_group_item C M) (map (\<lambda>g. Bytes (encode_sidecar g)) gs) st = (Ok (map group_loaded gs), st)"
  using assms
proof (induction gs)
  case (Cons g gs)
  have "load_sidecar C M (encode_sidecar g) st = (Ok (group_loaded g), st)"
    unfolding group_loaded_def by (rule sidecar_roundtrip) (use Cons.prems in auto)
  then show ?case using Cons by (simp add: load_group_item_def)
qed simp


lemma save_put_get:
  assumes "sqlcipher_laws E H" "sqlcipher_reads E H" "vault_rows H v t d" "sbind (save E v i d) (\<lambda>_. put E v x b) = (Ok (), d')"
  shows "get_opt E v x d' = Ok (Some b)"
proof -
  obtain d1 where d1: "save E v i d = (Ok (), d1)" "put E v x b d1 = (Ok (), d')" using assms(4) by (auto simp: sbind_eq_Ok)
  obtain t1 where "vault_rows H v t1 d1" using save_step [OF assms(1,3) d1(1)] by blast
  then show ?thesis by (rule put_get [OF assms(1,2) _ d1(2)])
qed

lemma home_roundtrip:
  assumes "sqlcipher_laws E H" "sqlcipher_reads E H" "vault_rows H v t d" "save_home E v i st d = (Ok (), d')" "hst_wf st"
  shows "load_home E v d' = Ok (Some (st\<lparr>hst_contacts := hm_sorted (hst_contacts st)\<rparr>))"
  using save_put_get [OF assms(1-3)] assms(4) home_state_roundtrip [OF assms(5)] by (simp add: save_home_def load_home_def)

lemma display_roundtrip:
  assumes "sqlcipher_laws E H" "sqlcipher_reads E H" "vault_rows H v t d" "save_display E v a b c d = (Ok (), d')"
    and "names_ok a" "marks_ok b" "names_ok c"
  shows "load_display E v d' = Ok (hm_sorted a, hm_sorted b, hm_sorted c)"
  using put_get [OF assms(1-3)] assms(4) display_back [OF assms(5-7)] by (simp add: save_display_def load_display_def)

lemma invites_roundtrip:
  assumes "sqlcipher_laws E H" "sqlcipher_reads E H" "vault_rows H v t d" "save_invites E v gis d = (Ok (), d')"
    and "\<forall>i \<in> set gis. gi_wf i \<and> length (gi_encode i) < 2 ^ 64" "length gis < 2 ^ 64"
  shows "load_invites E v d' = Ok gis"
  using put_get [OF assms(1-3)] assms(4) invites_back [OF assms(5,6)] by (simp add: save_invites_def load_invites_def)

section \<open>Theorems\<close>

text \<open>
  C32. The inbox survives being saved: the rows in their order, the counters and the read marks of
  every conversation, and the read marks of every member of a group.
\<close>

theorem inbox_roundtrip:
  assumes "sqlcipher_laws E H" "sqlcipher_reads E H" "vault_rows H v t d" "save_inbox E v rows a b c m d = (Ok (), d')"
    and "\<forall>r \<in> set rows. inbox_row_ok r" "length rows < 2 ^ 64" "marks_ok a" "marks_ok b" "marks_ok c" "group_marks_ok m"
  shows "load_inbox E v d' = Ok (rows, hm_sorted a, hm_sorted b, hm_sorted c, group_marks_loaded m) \<and>
    (\<forall>g viewer n. (\<exists>x. hm_get (group_marks_loaded m) g = Some x \<and> hm_get x viewer = Some n) \<longleftrightarrow>
       (\<exists>x. hm_get m g = Some x \<and> hm_get x viewer = Some n))"
proof -
  have "get_opt E v INBOX_KEY d' = Ok (Some (inbox_bytes rows a b c m))"
    using put_get [OF assms(1,2,3)] assms(4) by (simp add: save_inbox_def)
  then have "load_inbox E v d' = Ok (rows, hm_sorted a, hm_sorted b, hm_sorted c, group_marks_loaded m)"
    using inbox_back [OF assms(5-10)] by (simp add: load_inbox_def)
  moreover have "(\<exists>x. hm_get (group_marks_loaded m) g = Some x \<and> hm_get x viewer = Some n) \<longleftrightarrow> (\<exists>x. hm_get m g = Some x \<and> hm_get x viewer = Some n)" for g viewer n
    by (rule loaded_marks) (rule assms(10))
  ultimately show ?thesis by blast
qed

text \<open>
  Groups survive a restart: the groups saved with an installation are loaded into an installation
  that finds their OpenMLS state, in the order saved, each as it was but for the order of its
  announced keys and the fraction of a millisecond of its clock.
\<close>

theorem saved_groups_load:
  assumes "sqlcipher_laws E H" "sqlcipher_reads E H" "vault_rows H v t d" "save_groups E v i gs d = (Ok (), d')" "length gs < 2 ^ 64"
    and "\<forall>g \<in> set gs. group_saved C g \<and> om_load M (mg_group_id (cg_mls g)) (in_mls j) = Ok (Some (cg_mls g)) \<and> length (encode_sidecar g) < 2 ^ 64"
  shows "load_groups C M E v d' j = (Ok (map group_loaded gs), j)"
proof -
  have "get_opt E v GROUPS_KEY d' = Ok (Some (encode (Array (map (\<lambda>g. Bytes (encode_sidecar g)) gs))))"
    using save_put_get [OF assms(1-3)] assms(4) by (simp add: save_groups_def)
  moreover have "vault_array (encode (Array (map (\<lambda>g. Bytes (encode_sidecar g)) gs))) = Ok (map (\<lambda>g. Bytes (encode_sidecar g)) gs)"
    by (rule array_back) (use assms(5,6) in auto)
  ultimately show ?thesis using groups_back [OF assms(6)] by (simp add: load_groups_def on_storage_def)
qed

section \<open>Instances\<close>

text \<open>A database file is its key and its rows; a new file is empty. A row that cannot be written
  is refused.\<close>

definition plain_db :: "bytes \<Rightarrow> (bytes \<times> bytes) list \<Rightarrow> bytes" where
  "plain_db k rows = encode (Array [Bytes k, Array (map key_entry rows)])"

definition plain_rows :: "bytes \<Rightarrow> (bytes \<times> (bytes \<times> bytes) list) option" where
  "plain_rows f = (case decode f of
     Ok (Array [Bytes k, Array items]) \<Rightarrow> (case rmap parse_pair items of Ok rows \<Rightarrow> Some (k, rows) | Err _ \<Rightarrow> None)
   | _ \<Rightarrow> None)"

definition plain_write :: "bytes \<Rightarrow> (bytes \<times> bytes) list \<Rightarrow> 'a \<Rightarrow> bytes option \<Rightarrow> (string + 'a) \<times> bytes option" where
  "plain_write k rows x f =
     (if plain_rows (plain_db k rows) = Some (k, rows) then (Ok x, Some (plain_db k rows)) else (Err ''string or blob too big'', f))"

definition plain_read :: "bytes \<Rightarrow> bytes option \<Rightarrow> string + (bytes \<times> bytes) list" where
  "plain_read k f = (case f of
     Some b \<Rightarrow> (case plain_rows b of
         Some (k', rows) \<Rightarrow> if k' = k then Ok rows else Err ''file is not a database''
       | None \<Rightarrow> Err ''no such table: kv'')
   | None \<Rightarrow> Err ''unable to open database file'')"

definition plain_vault :: vault_env where
  "plain_vault =
     \<lparr>ve_mkdir = \<lambda>_. None, ve_read = \<lambda>_. None, ve_write = \<lambda>_ _. None, ve_android = False, ve_bind_dir = Some [[1]],
      ve_data_local = None, ve_temp = [[2]], ve_keyring_get = \<lambda>_ _ _. Err ''no entry'', ve_keyring_set = \<lambda>_ _ _ k. (Err ''no keyring'', k),
      ve_argon2id = \<lambda>_ _ _ passphrase salt. Some (resize KEY_LEN passphrase),
      ve_open = \<lambda>f. (Ok (), Some (case f of Some b \<Rightarrow> b | None \<Rightarrow> [])),
      ve_key = \<lambda>_ _. Ok (),
      ve_count = \<lambda>k f. if f = Some [] then Ok 0 else rbind (plain_read k f) (\<lambda>_. Ok 1),
      ve_batch = \<lambda>k f. if f = Some [] then plain_write k [] () f else (Err ''table kv already exists'', f),
      ve_upsert = \<lambda>k x b f. sread (plain_read k f) f (\<lambda>rows. plain_write k (hm_insert x b rows) 1 f),
      ve_select = \<lambda>k x f. rbind (plain_read k f) (\<lambda>rows. Ok (hm_get rows x))\<rparr>"

definition plain_holds :: database where
  "plain_holds k rows f \<longleftrightarrow> (\<exists>al. plain_rows f = Some (k, al) \<and> rows = hm_get al)"

lemma plain_rows_nil: "plain_rows [] = None"
  by code_simp

lemma plain_rows_db:
  assumes "length k < 2 ^ 64" "length rows < 2 ^ 64" "\<forall>p \<in> set rows. pair_ok p"
  shows "plain_rows (plain_db k rows) = Some (k, rows)"
proof -
  have "rmap parse_pair (map key_entry rows) = Ok rows" by (rule rmap_map_Ok) (use assms(3) pair_row in blast)
  moreover have "\<forall>x \<in> set (map key_entry rows). wf_value x \<and> sorted_value x" using assms(3) pair_row by auto
  ultimately show ?thesis using assms(1,2) by (simp add: plain_rows_def plain_db_def)
qed

lemma plain_write_rows: "plain_write k rows x f = (r, g) \<Longrightarrow> f = Some b \<Longrightarrow> plain_holds k old b \<Longrightarrow>
    \<exists>b'. g = Some b' \<and> plain_holds k (if r = Ok x then hm_get rows else old) b'"
  by (auto simp: plain_write_def plain_holds_def split: if_splits)

lemma plain_laws: "sqlcipher_laws plain_vault plain_holds" "sqlcipher_reads plain_vault plain_holds"
proof -
  have up: "\<exists>f'. g = Some f' \<and> plain_holds k (if \<exists>n>0. r = Ok n then rows(x \<mapsto> b) else rows) f'"
    if h: "plain_holds k rows f" and u: "ve_upsert plain_vault k x b (Some f) = (r, g)" for k rows f x b r g
  proof -
    obtain al where al: "plain_rows f = Some (k, al)" "rows = hm_get al" using h by (auto simp: plain_holds_def)
    then have w: "plain_write k (hm_insert x b al) 1 (Some f) = (r, g)" using u by (simp add: plain_vault_def plain_read_def)
    then have "(\<exists>n>0. r = Ok n) \<longleftrightarrow> r = Ok 1" by (auto simp: plain_write_def split: if_splits)
    moreover have "hm_get (hm_insert x b al) = rows(x \<mapsto> b)" using al(2) by (auto simp: hm_get_insert_any)
    ultimately show ?thesis using plain_write_rows [OF w refl h] by (auto split: if_splits)
  qed
  have wrong: "\<exists>e. ve_count plain_vault k' (Some f) = Err e \<and> contains e ''not a database''" if "plain_holds k rows f" "k' \<noteq> k" for k rows f k'
    using that plain_rows_nil contains_prefix by (auto simp: plain_holds_def plain_vault_def plain_read_def)
  have new: "\<exists>b. g = Some b \<and> plain_holds k Map.empty b"
    if "ve_open plain_vault None = (Ok (), f)" "ve_batch plain_vault k f = (Ok (), g)" for k f g
    using that by (auto simp: plain_vault_def plain_write_def plain_holds_def hm_get_def fun_eq_iff split: if_splits)
  show "sqlcipher_laws plain_vault plain_holds"
    unfolding sqlcipher_laws_def using up wrong new by (intro conjI) (simp add: plain_vault_def, blast+)
  show "sqlcipher_reads plain_vault plain_holds"
    using plain_rows_nil by (auto simp: sqlcipher_reads_def plain_holds_def plain_vault_def plain_read_def)
qed

text \<open>A vault is created on an empty disk.\<close>

definition sample_passphrase :: bytes where "sample_passphrase = replicate 8 0x61"
definition empty_disk :: disk where "empty_disk = \<lparr>dk_files = [], dk_keyring = []\<rparr>"

lemma sample_in_wf: "in_wf plain_crypto plain_signal (sample_install 1)" "storage_ok (in_mls (sample_install 1))"
proof -
  have "length (ss_encode ((ss_new [1] 1)\<lparr>ss_signed := \<lparr>sks_keys = [(1, [1])]\<rparr>\<rparr>)) \<le> 100" by code_simp
  then have "length (ss_encode (in_store (sample_install 1))) < 2 ^ 64" by (simp add: sample_install_def)
  then show "in_wf plain_crypto plain_signal (sample_install 1)"
    using sample_store_wf by (simp add: in_wf_def) (simp add: sample_install_def in_identity_id_def in_public_key_def key_ok_def)
  show "storage_ok (in_mls (sample_install 1))" by (simp add: sample_install_def storage_ok_def hm_wf_def)
qed

lemma sample_lengths: "length (encode_snapshot (sample_install 1)) < 2 ^ 64" "length (encode_mls_storage (sample_install 1)) < 2 ^ 64"
proof -
  have "length (encode_mls_storage (sample_install 1)) \<le> 100" "length (encode_snapshot (sample_install 1)) \<le> 400"
    by code_simp+
  then show "length (encode_snapshot (sample_install 1)) < 2 ^ 64" "length (encode_mls_storage (sample_install 1)) < 2 ^ 64" by simp_all
qed

lemma hm_insert_size: "length (hm_insert x b m) \<le> length m + 1" "set (hm_insert x b m) \<subseteq> insert (x, b) (set m)"
  by (induction m) (auto simp: hm_insert_def)

lemma plain_put:
  assumes "hm_get (dk_files d) (vt_path v) = Some (plain_db (vt_key v) rows)" "length (vt_key v) < 2 ^ 64" "storage_ok rows"
    and "length rows < 100" "pair_ok (x, b)"
  shows "put plain_vault v x b d = (Ok (), put_file (vt_path v) (Some (plain_db (vt_key v) (hm_insert x b rows))) d)"
    and "storage_ok (hm_insert x b rows) \<and> length (hm_insert x b rows) \<le> length rows + 1"
proof -
  have "length (hm_insert x b rows) \<le> length rows + 1" "\<forall>p \<in> set (hm_insert x b rows). pair_ok p" "hm_wf (hm_insert x b rows)"
    using hm_insert_size [of x b rows] assms(3,5) hm.wf_ins by (auto simp: storage_ok_def)
  then show st: "storage_ok (hm_insert x b rows) \<and> length (hm_insert x b rows) \<le> length rows + 1" using assms(4) by (simp add: storage_ok_def)
  have "plain_rows (plain_db (vt_key v) rows) = Some (vt_key v, rows)" using assms by (intro plain_rows_db) (auto simp: storage_ok_def)
  moreover have "plain_rows (plain_db (vt_key v) (hm_insert x b rows)) = Some (vt_key v, hm_insert x b rows)"
    using st assms by (intro plain_rows_db) (auto simp: storage_ok_def)
  ultimately show "put plain_vault v x b d = (Ok (), put_file (vt_path v) (Some (plain_db (vt_key v) (hm_insert x b rows))) d)"
    using assms(1) by (simp add: put_def on_file_def map_fst_def plain_vault_def plain_read_def plain_write_def)
qed

definition sample_vault :: "key \<Rightarrow> Vault" where
  "sample_vault s = \<lparr>vt_dir = [], vt_path = [STORE_FILE], vt_key = key_pragma (mix_device_key (resize KEY_LEN sample_passphrase) s)\<rparr>"

lemma sample_vault_put:
  assumes "hm_get (dk_files d) [STORE_FILE] = Some (plain_db (vt_key (sample_vault s)) rows)" "storage_ok rows" "length rows < 100" "pair_ok (x, b)"
    and "length s = KEY_LEN"
  shows "\<exists>d'. put plain_vault (sample_vault s) x b d = (Ok (), d') \<and>
    hm_get (dk_files d') [STORE_FILE] = Some (plain_db (vt_key (sample_vault s)) (hm_insert x b rows)) \<and>
    storage_ok (hm_insert x b rows) \<and> length (hm_insert x b rows) \<le> length rows + 1"
proof -
  have "vt_path (sample_vault s) = [STORE_FILE]" "length (vt_key (sample_vault s)) < 2 ^ 64"
    using assms(5) by (simp_all add: sample_vault_def key_pragma_def to_hex_def mix_device_key_def KEY_LEN_def)
  then show ?thesis using plain_put [of d "sample_vault s" rows x b] assms by simp
qed

lemma plain_create:
  assumes "length s = KEY_LEN"
  shows "\<exists>d rows. create_bound plain_vault [] sample_passphrase (sample_install 1) (Some s) (replicate 16 0) (replicate 32 0) empty_disk =
      (Ok (sample_vault s), d) \<and> hm_get (dk_files d) [STORE_FILE] = Some (plain_db (vt_key (sample_vault s)) rows) \<and>
      storage_ok rows \<and> length rows \<le> 2"
proof -
  let ?k = "vt_key (sample_vault s)" and ?d1 = "put_file [KDF_FILE] (Some (kdf_bytes (new_kdf (replicate 16 0)))) empty_disk"
  let ?d3 = "put_file [STORE_FILE] (Some []) ?d1" and ?d4 = "put_file [STORE_FILE] (Some (plain_db ?k [])) (put_file [STORE_FILE] (Some []) ?d1)"
  have k: "length ?k < 2 ^ 64" using assms by (simp add: sample_vault_def key_pragma_def to_hex_def mix_device_key_def KEY_LEN_def)
  have st: "storage_ok []" by (simp add: storage_ok_def hm_wf_def)
  obtain d5 rows where d5: "put plain_vault (sample_vault s) SNAPSHOT_KEY (encode_snapshot (sample_install 1)) ?d4 = (Ok (), d5)"
    "hm_get (dk_files d5) [STORE_FILE] = Some (plain_db ?k rows)" "storage_ok rows" "length rows \<le> 1"
    using sample_vault_put [of ?d4 s "[]" SNAPSHOT_KEY "encode_snapshot (sample_install 1)"] assms st sample_lengths
    by (auto simp: pair_ok_def SNAPSHOT_KEY_def)
  obtain d6 rows' where d6: "put plain_vault (sample_vault s) MLS_KEY (encode_mls_storage (sample_install 1)) d5 = (Ok (), d6)"
    "hm_get (dk_files d6) [STORE_FILE] = Some (plain_db ?k rows')" "storage_ok rows'" "length rows' \<le> 2"
    using sample_vault_put [of d5 s rows MLS_KEY "encode_mls_storage (sample_install 1)"] assms d5 sample_lengths
    by (force simp: pair_ok_def MLS_KEY_def)
  have sv: "save plain_vault (sample_vault s) (sample_install 1) ?d4 = (Ok (), d6)" using d5(1) d6(1) by (simp add: save_def)
  have "check_passphrase sample_passphrase = Ok ()" by code_simp
  moreover have e: "hm_get (dk_files empty_disk) p = None" for p by (simp add: empty_disk_def hm_get_def)
  then have "\<not> path_exists p empty_disk" for p by (simp add: path_exists_def)
  moreover have "hm_get (dk_files ?d1) [STORE_FILE] = None" using names_differ(1) e by simp
  then have "open_cipher plain_vault [STORE_FILE] (mix_device_key (resize KEY_LEN sample_passphrase) s) ?d1 = (Ok ?k, ?d3)"
    by (simp add: open_cipher_def on_file_def map_fst_def plain_vault_def sample_vault_def)
  moreover have "on_file (ve_batch plain_vault ?k) [STORE_FILE] ?d3 = (Ok (), ?d4)"
    using plain_rows_db [of ?k "[]"] k by (simp add: on_file_def plain_vault_def plain_write_def)
  moreover have "write_kdf plain_vault [KDF_FILE] (new_kdf (replicate 16 0)) empty_disk = (Ok (), ?d1)"
    by (simp add: write_kdf_def fs_write_def map_fst_def plain_vault_def)
  moreover have "derive plain_vault sample_passphrase (replicate 16 0) M_COST_KIB T_COST P_COST = Ok (resize KEY_LEN sample_passphrase)"
    "fs_mkdir plain_vault [] = Ok ()" by (simp_all add: derive_def plain_vault_def fs_mkdir_def)
  moreover have "\<lparr>vt_dir = [], vt_path = [STORE_FILE], vt_key = ?k\<rparr> = sample_vault s" by (simp add: sample_vault_def)
  ultimately have "create_bound plain_vault [] sample_passphrase (sample_install 1) (Some s) (replicate 16 0) (replicate 32 0) empty_disk =
      (Ok (sample_vault s), d6)"
    using sv assms by (simp add: create_bound_def resolve_def parse_secret_def map_fst_def)
  then show ?thesis using d6(2-4) by blast
qed


section \<open>Witnesses\<close>

lemma plain_answers: "\<forall>p. ve_read plain_vault p = None" "\<forall>k f. ve_key plain_vault k f = Ok ()"
  "\<forall>m t p pw sl k. ve_argon2id plain_vault m t p pw sl = Some k \<longrightarrow> length k = KEY_LEN"
  by (simp_all add: plain_vault_def)

definition sample_secret :: key where "sample_secret = replicate 32 5"

text \<open>The vault is created, and anything of ordinary size can be put into it.\<close>

lemma plain_saved:
  "\<exists>d. create_bound plain_vault [] sample_passphrase (sample_install 1) (Some sample_secret) (replicate 16 0) (replicate 32 0) empty_disk =
      (Ok (sample_vault sample_secret), d) \<and> holds_install plain_holds (sample_vault sample_secret) (sample_install 1) d \<and>
     (\<forall>x b. pair_ok (x, b) \<longrightarrow> (\<exists>d' rows. put plain_vault (sample_vault sample_secret) x b d = (Ok (), d') \<and>
        hm_get (dk_files d') [STORE_FILE] = Some (plain_db (vt_key (sample_vault sample_secret)) rows) \<and> storage_ok rows \<and> length rows \<le> 3))"
proof -
  have s: "length sample_secret = KEY_LEN" by (simp add: sample_secret_def KEY_LEN_def)
  obtain d rows where d: "create_bound plain_vault [] sample_passphrase (sample_install 1) (Some sample_secret) (replicate 16 0) (replicate 32 0) empty_disk =
      (Ok (sample_vault sample_secret), d)" "hm_get (dk_files d) [STORE_FILE] = Some (plain_db (vt_key (sample_vault sample_secret)) rows)"
    "storage_ok rows" "length rows \<le> 2" using plain_create [OF s] by blast
  have "length (replicate 16 (0 :: byte)) = SALT_LEN" "length (replicate 32 (0 :: byte)) = KEY_LEN" by (simp_all add: SALT_LEN_def KEY_LEN_def)
  from create_ok [OF plain_laws(1) plain_answers(1) this d(1)]
  have "holds_install plain_holds (sample_vault sample_secret) (sample_install 1) d" using keys_differ(2) by (auto simp: holds_install_def)
  moreover have "\<exists>d' rows'. put plain_vault (sample_vault sample_secret) x b d = (Ok (), d') \<and>
      hm_get (dk_files d') [STORE_FILE] = Some (plain_db (vt_key (sample_vault sample_secret)) rows') \<and> storage_ok rows' \<and> length rows' \<le> 3"
    if p: "pair_ok (x, b)" for x b
    using sample_vault_put [OF d(2,3) _ p s] d(4) by fastforce
  ultimately show ?thesis using d(1) by blast
qed

lemma plain_invites:
  "\<exists>d d'. create_bound plain_vault [] sample_passphrase (sample_install 1) (Some sample_secret) (replicate 16 0) (replicate 32 0) empty_disk =
      (Ok (sample_vault sample_secret), d) \<and> save_invites plain_vault (sample_vault sample_secret) [] d = (Ok (), d')"
proof -
  have "length (encode (Array [])) \<le> 9" by (simp add: encode_def length_write_head)
  then have "pair_ok (INVITES_KEY, encode (Array []))" by (simp add: pair_ok_def INVITES_KEY_def)
  then show ?thesis using plain_saved unfolding save_invites_def list.map by blast
qed

theorem vault_reopens_witness:
  "\<exists>d1 d2 d3. create_bound plain_vault [] sample_passphrase (sample_install 1) (Some sample_secret) (replicate 16 0) (replicate 32 0) empty_disk =
       (Ok (sample_vault sample_secret), d1) \<and> save_invites plain_vault (sample_vault sample_secret) [] d1 = (Ok (), d2) \<and>
     open_bound plain_crypto plain_signal plain_vault [] sample_passphrase (Some sample_secret) d2 =
       (Ok (sample_vault sample_secret, as_loaded (sample_install 1)), d3)"
proof -
  obtain d1 d2 where d: "create_bound plain_vault [] sample_passphrase (sample_install 1) (Some sample_secret) (replicate 16 0) (replicate 32 0)
      empty_disk = (Ok (sample_vault sample_secret), d1)" "save_invites plain_vault (sample_vault sample_secret) [] d1 = (Ok (), d2)"
    using plain_invites by blast
  from vault_reopens [OF plain_laws plain_answers(1) _ _ d(1) r_into_rtranclp [where r = "vault_step plain_mls plain_vault (sample_vault sample_secret)", OF vault_step.invites [OF d(2)]] sample_in_wf] d show ?thesis
    by (auto simp: SALT_LEN_def KEY_LEN_def)
qed

theorem vault_stays_locked_witness:
  "\<exists>d1 d2. create_bound plain_vault [] sample_passphrase (sample_install 1) (Some sample_secret) (replicate 16 0) (replicate 32 0) empty_disk =
       (Ok (sample_vault sample_secret), d1) \<and> save_invites plain_vault (sample_vault sample_secret) [] d1 = (Ok (), d2) \<and>
     fst (open_bound plain_crypto plain_signal plain_vault [] sample_passphrase (Some (replicate 32 6)) d2) = Err VaultLocked"
proof -
  obtain d1 d2 where d: "create_bound plain_vault [] sample_passphrase (sample_install 1) (Some sample_secret) (replicate 16 0) (replicate 32 0)
      empty_disk = (Ok (sample_vault sample_secret), d1)" "save_invites plain_vault (sample_vault sample_secret) [] d1 = (Ok (), d2)"
    using plain_invites by blast
  have p: "check_passphrase sample_passphrase = Ok ()" by code_simp
  have a: "ve_argon2id plain_vault M_COST_KIB T_COST P_COST sample_passphrase (replicate 16 0) = Some (resize KEY_LEN sample_passphrase)"
    by (simp add: plain_vault_def)
  have "fst (open_bound plain_crypto plain_signal plain_vault [] sample_passphrase (Some (replicate 32 6)) d2) = Err VaultLocked"
    by (rule vault_stays_locked [OF plain_laws plain_answers(1,2) _ d(1) _ r_into_rtranclp [where r = "vault_step plain_mls plain_vault (sample_vault sample_secret)", OF vault_step.invites [OF d(2)]] plain_answers(3) p _ a a])
      (simp_all add: SALT_LEN_def KEY_LEN_def sample_secret_def)
  then show ?thesis using d by blast
qed

theorem failed_create_blocks_witness:
  "\<exists>d. create_bound plain_vault [] sample_passphrase (sample_install 1) (Some [1, 2, 3]) (replicate 16 0) (replicate 32 0) empty_disk =
       (Err VaultCorrupt, d) \<and>
     create_bound plain_vault [] sample_passphrase (sample_install 1) (Some (replicate 32 5)) (replicate 16 0) (replicate 32 0) d = (Err VaultExists, d) \<and>
     open_bound plain_crypto plain_signal plain_vault [] sample_passphrase (Some (replicate 32 5)) d = (Err VaultMissing, d)"
proof -
  obtain r d where c: "create_bound plain_vault [] sample_passphrase (sample_install 1) (Some [1, 2, 3]) (replicate 16 0) (replicate 32 0) empty_disk = (r, d)"
    by fastforce
  have p: "check_passphrase sample_passphrase = Ok ()" by code_simp
  have e: "hm_get (dk_files empty_disk) q = None" for q by (simp add: empty_disk_def hm_get_def)
  from failed_create_blocks [OF p _ _ _ _ _ _ c p] c e show ?thesis by (simp add: plain_vault_def KEY_LEN_def)
qed


text \<open>A disk on which the OpenMLS storage can no longer be written.\<close>

definition torn_vault :: vault_env where
  "torn_vault = plain_vault\<lparr>ve_upsert := \<lambda>k x b f. if x = MLS_KEY then (Err ''disk I/O error'', f) else ve_upsert plain_vault k x b f\<rparr>"

lemma torn_laws: "sqlcipher_laws torn_vault plain_holds" "sqlcipher_reads torn_vault plain_holds"
proof -
  note laws = plain_laws(1) [unfolded sqlcipher_laws_def]
  have up: "\<exists>f'. g = Some f' \<and> plain_holds k (if \<exists>n>0. r = Ok n then rows(x \<mapsto> b) else rows) f'"
    if h: "plain_holds k rows f" and u: "ve_upsert torn_vault k x b (Some f) = (r, g)" for k rows f x b r g
  proof (cases "x = MLS_KEY")
    case True
    then show ?thesis using h u by (auto simp: torn_vault_def)
  next
    case False
    then have "ve_upsert plain_vault k x b (Some f) = (r, g)" using u by (simp add: torn_vault_def)
    then show ?thesis using laws [THEN conjunct2, THEN conjunct2, THEN conjunct1] h by blast
  qed
  have ops: "ve_open torn_vault = ve_open plain_vault" "ve_count torn_vault = ve_count plain_vault" "ve_batch torn_vault = ve_batch plain_vault"
    by (simp_all add: torn_vault_def)
  show "sqlcipher_laws torn_vault plain_holds"
    unfolding sqlcipher_laws_def ops using up
    by (intro conjI laws [THEN conjunct1] laws [THEN conjunct2, THEN conjunct1] laws [THEN conjunct2, THEN conjunct2, THEN conjunct2]) blast
  show "sqlcipher_reads torn_vault plain_holds" using plain_laws(2) by (simp add: sqlcipher_reads_def torn_vault_def)
qed

theorem torn_save_witness:
  "\<exists>d d2 e. holds_install plain_holds (sample_vault sample_secret) (sample_install 1) d \<and>
     save torn_vault (sample_vault sample_secret) (sample_install 1) d = (Err e, d2) \<and>
     load_installation plain_crypto plain_signal torn_vault (sample_vault sample_secret) d2 = Ok (as_loaded (sample_install 1))"
proof -
  have p: "pair_ok (SNAPSHOT_KEY, encode_snapshot (sample_install 1))" using sample_lengths by (simp add: pair_ok_def SNAPSHOT_KEY_def)
  obtain d d1 rows where d: "holds_install plain_holds (sample_vault sample_secret) (sample_install 1) d"
    "put plain_vault (sample_vault sample_secret) SNAPSHOT_KEY (encode_snapshot (sample_install 1)) d = (Ok (), d1)"
    using plain_saved p by blast
  have s: "put torn_vault (sample_vault sample_secret) SNAPSHOT_KEY (encode_snapshot (sample_install 1)) d = (Ok (), d1)"
    using d(2) keys_differ(2) by (simp add: put_def torn_vault_def)
  obtain d2 where m: "put torn_vault (sample_vault sample_secret) MLS_KEY (encode_mls_storage (sample_install 1)) d1 = (Err (map_sql ''disk I/O error''), d2)"
    by (simp add: put_def torn_vault_def on_file_def map_fst_def)
  from torn_save [OF torn_laws d(1) s m sample_in_wf] d(1) show ?thesis by auto
qed

definition sample_inbox_row :: InboxRow where
  "sample_inbox_row = \<lparr>ir_conv_id = [0x61], ir_conv_seq = 1, ir_text = [0x68, 0x69], ir_sent_at = 7, ir_file_name = [], ir_file_mime = [],
     ir_file_bytes = [], ir_fetch_token = [], ir_kind = [0x74], ir_emoji = [], ir_target = 0, ir_hidden = False, ir_displayed_at = 9,
     ir_outgoing = True, ir_sender_id = [], ir_sender_name = [], ir_reply_to = 0\<rparr>"

theorem inbox_roundtrip_witness:
  "\<exists>d d'. save_inbox plain_vault (sample_vault sample_secret) [sample_inbox_row] [([0x62], 3), ([0x61], 2)] [] [([0x61], 1)]
       [([0x67], [([0x62], 4), ([0x61], 5)]), ([0x68], [])] d = (Ok (), d') \<and>
     load_inbox plain_vault (sample_vault sample_secret) d' =
       Ok ([sample_inbox_row], [([0x61], 2), ([0x62], 3)], [], [([0x61], 1)], [([0x67], [([0x61], 5), ([0x62], 4)])])"
proof -
  let ?a = "[([0x62], 3), ([0x61], 2)] :: marks" and ?c = "[([0x61], 1)] :: marks"
    and ?m = "[([0x67], [([0x62], 4), ([0x61], 5)]), ([0x68], [])] :: (bytes, marks) hashmap"
  have str: "str_ok []" "str_ok [0x61]" "str_ok [0x62]" "str_ok [0x67]" "str_ok [0x68]" "str_ok [0x74]" "str_ok [0x68, 0x69]"
    by (simp_all add: str_ok_def; code_simp)+
  have ok: "inbox_row_ok sample_inbox_row" using str by (simp add: inbox_row_ok_def sample_inbox_row_def)
  have m: "marks_ok ?a" "marks_ok []" "marks_ok ?c" using str by (simp_all add: marks_ok_def hm_wf_def)
  have gr: "group_mark_rows ?m = [([0x67], [0x61], 5), ([0x67], [0x62], 4)]" "group_marks_loaded ?m = [([0x67], [([0x61], 5), ([0x62], 4)])]"
    by code_simp+
  then have g: "group_marks_ok ?m" using str by (simp add: group_marks_ok_def hm_wf_def marks_ok_def)
  have "length (inbox_bytes [sample_inbox_row] ?a [] ?c ?m) \<le> 400" by code_simp
  then have p: "pair_ok (INBOX_KEY, inbox_bytes [sample_inbox_row] ?a [] ?c ?m)" by (simp add: pair_ok_def INBOX_KEY_def)
  obtain d d' t where d: "vault_rows plain_holds (sample_vault sample_secret) t d"
    "save_inbox plain_vault (sample_vault sample_secret) [sample_inbox_row] ?a [] ?c ?m d = (Ok (), d')"
    using plain_saved p unfolding save_inbox_def holds_install_def by blast
  have so: "hm_sorted ?a = [([0x61], 2), ([0x62], 3)]" "hm_sorted ?c = [([0x61], 1)]" "hm_sorted ([] :: marks) = []" by code_simp+
  from inbox_roundtrip [OF plain_laws d _ _ m g] ok gr(2) so d(2) show ?thesis by auto
qed


definition sample_own_group :: Group where
  "sample_own_group = (fst three_members)\<lparr>cg_group_signing := replicate 32 1, cg_mls_signer := signer_of plain_crypto (replicate 32 1),
     cg_last_own_update := 1234567\<rparr>"

lemma sample_own_group_saved: "group_saved plain_crypto sample_own_group" "length (encode_sidecar sample_own_group) < 2 ^ 64"
proof -
  have e: "cg_announced_keys (fst three_members) = []" by (simp add: three_members_def new_group_def sync_credential_ids_def hm_retain_def)
  show "group_saved plain_crypto sample_own_group"
    by (simp add: group_saved_def sample_own_group_def e storage_ok_def hm_wf_def) (simp add: three_members_def plain_group_def KEY_LEN_def)
  have "length (encode_sidecar sample_own_group) \<le> 400" by code_simp
  then show "length (encode_sidecar sample_own_group) < 2 ^ 64" by simp
qed

lemma plain_save_groups:
  assumes "pair_ok (GROUPS_KEY, encode (Array (map (\<lambda>g. Bytes (encode_sidecar g)) gs)))"
  shows "\<exists>d d' t. vault_rows plain_holds (sample_vault sample_secret) t d \<and>
    save_groups plain_vault (sample_vault sample_secret) (sample_install 1) gs d = (Ok (), d')"
proof -
  let ?v = "sample_vault sample_secret"
  have s: "length sample_secret = KEY_LEN" by (simp add: sample_secret_def KEY_LEN_def)
  obtain d rows where d: "holds_install plain_holds ?v (sample_install 1) d" "hm_get (dk_files d) [STORE_FILE] = Some (plain_db (vt_key ?v) rows)"
    "storage_ok rows" "length rows \<le> 2"
    using plain_create [OF s] plain_saved by (metis prod.inject)
  have p: "pair_ok (SNAPSHOT_KEY, encode_snapshot (sample_install 1))" "pair_ok (MLS_KEY, encode_mls_storage (sample_install 1))"
    using sample_lengths by (simp_all add: pair_ok_def SNAPSHOT_KEY_def MLS_KEY_def)
  obtain d1 r1 where d1: "put plain_vault ?v SNAPSHOT_KEY (encode_snapshot (sample_install 1)) d = (Ok (), d1)"
    "hm_get (dk_files d1) [STORE_FILE] = Some (plain_db (vt_key ?v) r1)" "storage_ok r1" "length r1 \<le> 3"
    using sample_vault_put [OF d(2,3) _ p(1) s] d(4) by fastforce
  obtain d2 r2 where d2: "put plain_vault ?v MLS_KEY (encode_mls_storage (sample_install 1)) d1 = (Ok (), d2)"
    "hm_get (dk_files d2) [STORE_FILE] = Some (plain_db (vt_key ?v) r2)" "storage_ok r2" "length r2 \<le> 4"
    using sample_vault_put [OF d1(2,3) _ p(2) s] d1(4) by fastforce
  obtain d3 where "put plain_vault ?v GROUPS_KEY (encode (Array (map (\<lambda>g. Bytes (encode_sidecar g)) gs))) d2 = (Ok (), d3)"
    using sample_vault_put [OF d2(2,3) _ assms s] d2(4) by fastforce
  then have "save_groups plain_vault ?v (sample_install 1) gs d = (Ok (), d3)" using d1(1) d2(1) by (simp add: save_groups_def save_def)
  then show ?thesis using d(1) unfolding holds_install_def by blast
qed

theorem saved_groups_load_witness:
  "\<exists>d d'. save_groups plain_vault (sample_vault sample_secret) (sample_install 1) [sample_own_group] d = (Ok (), d') \<and>
     load_groups plain_crypto plain_mls plain_vault (sample_vault sample_secret) d' (sample_install 1) =
       (Ok [sample_own_group\<lparr>cg_last_own_update := 1000000\<rparr>], sample_install 1)"
proof -
  have "length (encode (Array (map (\<lambda>g. Bytes (encode_sidecar g)) [sample_own_group]))) \<le> 500" by code_simp
  then have p: "pair_ok (GROUPS_KEY, encode (Array (map (\<lambda>g. Bytes (encode_sidecar g)) [sample_own_group])))"
    by (simp add: pair_ok_def GROUPS_KEY_def)
  obtain d d' t where d: "vault_rows plain_holds (sample_vault sample_secret) t d"
    "save_groups plain_vault (sample_vault sample_secret) (sample_install 1) [sample_own_group] d = (Ok (), d')"
    using plain_save_groups [OF p] by blast
  have e: "cg_announced_keys sample_own_group = []"
    by (simp add: sample_own_group_def three_members_def new_group_def sync_credential_ids_def hm_retain_def)
  have l: "group_loaded sample_own_group = sample_own_group\<lparr>cg_last_own_update := 1000000\<rparr>"
    unfolding group_loaded_def e by (simp add: sample_own_group_def hm_sorted_def e [unfolded sample_own_group_def, simplified])
  have "om_load plain_mls (mg_group_id (cg_mls sample_own_group)) (in_mls (sample_install 1)) = Ok (Some (cg_mls sample_own_group))"
    by (simp add: plain_mls_def sample_own_group_def three_members_def)
  then have "\<forall>g \<in> set [sample_own_group]. group_saved plain_crypto g \<and>
      om_load plain_mls (mg_group_id (cg_mls g)) (in_mls (sample_install 1)) = Ok (Some (cg_mls g)) \<and> length (encode_sidecar g) < 2 ^ 64"
    using sample_own_group_saved by simp
  from saved_groups_load [OF plain_laws d _ this] d(2) l show ?thesis by auto
qed

end
