(* ===== verification/Spec2Isabelle.thy ===== *)
theory Spec2Isabelle
  imports Card Records Join Hostframe Hpke_Envelope
    Home_Props Federation_Props S2s_Props Group_Refine Http_Props Client_Server Vault_Tables
begin

text \<open>
  A verification of nemo-messenger, a federated end-to-end encrypted messenger written in Rust.
  The development covers the three crates that every message passes through: \<open>nemo-wire\<close>, the
  formats and signatures shared by clients and servers, \<open>nemo-server\<close>, the blind delivery
  server, and \<open>nemo-core\<close>, the client.

  \<^bold>\<open>The program.\<close> A client pads a message to a size bucket, puts it with a delivery
  capability into an inner envelope and seals that with HPKE to the recipient's home server
  (\<open>envelope.rs\<close>, \<open>hpke.rs\<close>). Its own home server takes the outer envelope from the
  authenticated owner (\<open>http.rs\<close>) and either stores it or queues it for another server
  (\<open>home.rs\<close>); the queue is carried over by the federation protocol (\<open>federation.rs\<close>,
  \<open>s2s.rs\<close>). The recipient's server opens the envelope, checks the capability, appends the
  message to the mailbox log and hands it out on fetch until it is acknowledged, expires or is
  displaced. Group messages go to a stream on a hosting server (\<open>group.rs\<close>), which seals one
  copy per member and enqueues it at the home server of the same process.

  \<^bold>\<open>Theories, in the order of the code.\<close>
  \<^item> \<open>Prelude\<close>: machine integers, results, UTF-8, the two map types of Rust as association lists
    with the interface \<open>rust_map\<close> that both provide.
  \<^item> \<open>Wire_Ids\<close>, \<open>Sign\<close>, \<open>Cbor_Codec\<close>, \<open>Codec\<close>: \<open>ids.rs\<close>, \<open>sign.rs\<close>, \<open>cbor.rs\<close>. The
    cryptographic packages are the record \<open>crypto\<close>; what the code relies on of them are the
    hypotheses \<open>sha256_digest\<close>, \<open>ed25519_correct\<close>, \<open>hpke_correct\<close> and \<open>base64_correct\<close>, which
    \<open>plain_crypto\<close> satisfies. Locales \<open>codec\<close>, \<open>strict_codec\<close> and \<open>signed_object\<close> state what
    every wire object promises; each object interprets them.
  \<^item> \<open>Envelope\<close>, \<open>Hpke_Envelope\<close>, \<open>Card\<close>, \<open>Records\<close>, \<open>Join\<close>, \<open>Hostframe\<close>: the wire objects, one
    definition per Rust function.
  \<^item> \<open>Server_State\<close>, \<open>Home\<close>: the state of \<open>HomeServer\<close> as the record \<open>HomeServer\<close> and its
    operations as functions from state to result and state; an error keeps the changes made
    before it, as \<open>?\<close> does.
  \<^item> \<open>Mailbox_Log\<close>, \<open>Home_Inv\<close>, \<open>Home_Props\<close>: the invariant of a mailbox and of the server, its
    preservation by every operation, and the behaviour of each operation.
  \<^item> \<open>Federation\<close>, \<open>Federation_Props\<close>: peers, counters, the pump between two servers.
  \<^item> \<open>S2s\<close>, \<open>S2s_Props\<close>: frames on a byte stream, the listener and the dialler. What the
    connection does to each exchange is an argument.
  \<^item> \<open>Group_Host\<close>, \<open>Group_Props\<close>: the group host. The locale \<open>guarded\<close> is the contract its
    member operations share; group steps form a step relation with an invariant.
  \<^item> \<open>Group_Refine\<close>: an abstract specification of rooms (members and posts) and the proof that
    the group host implements it.
  \<^item> \<open>Http\<close>, \<open>Http_Props\<close>: every handler of the client API over the joint state \<open>AppState\<close>,
    response signing, the persistence decision, wake-ups, TURN credentials and the key file.
  \<^item> \<open>Core_Error\<close>, \<open>App_Message\<close>, \<open>Core_Mailbox\<close>, \<open>Core_Discovery\<close>: the client's errors, its
    application messages (\<open>app.rs\<close>), the wrapping of ratchet messages, group files and the
    privacy transport (\<open>mailbox.rs\<close>, \<open>attachment.rs\<close>, \<open>privacy.rs\<close>), discovery answers and pins
    (\<open>discovery.rs\<close>).
  \<^item> \<open>Signal_Store\<close>, \<open>Client_Identity\<close>, \<open>Identity_Props\<close>: the Signal stores, the prekey bundle
    and the installation (\<open>store.rs\<close>, \<open>bundle.rs\<close>, \<open>identity.rs\<close>). libsignal is the record
    \<open>libsignal\<close> of its key and session functions; what is relied on of it is
    \<open>libsignal_readable\<close>, which \<open>plain_signal\<close> satisfies.
  \<^item> \<open>Client_State\<close>, \<open>Client_Home\<close>, \<open>Client_Calls\<close>, \<open>Client_Props\<close>: the home session
    (\<open>home.rs\<close>) over an arbitrary transport, a function from a world and a request to an answer
    and a world. Session steps form a step relation; the contacts are monotone along it.
  \<^item> \<open>Client_Server\<close>: the router of \<open>http.rs\<close> as a transport over the server model, so that the
    client's calls run against the server's handlers.
  \<^item> \<open>Mls_Group\<close>, \<open>Mls_Props\<close>, \<open>Mls_Save\<close>: the client's groups (\<open>group.rs\<close> of \<open>nemo-core\<close>).
    OpenMLS is the record \<open>openmls\<close> of the calls the code makes; the code's own state, checks and
    pending commits are modelled around it. What is relied on of it is \<open>openmls_laws\<close> (staging
    changes nothing but the pending commit, merging applies the proposals of a commit to the
    leaves, RFC 9420) and \<open>openmls_starts\<close>, which \<open>plain_mls\<close> satisfies. Group steps form a step
    relation with the leaf profile as its invariant.
  \<^item> \<open>Vault\<close>, \<open>Vault_Props\<close>, \<open>Vault_Tables\<close>: the client's vault (\<open>vault.rs\<close>, \<open>device_bind.rs\<close>) over
    a disk of files and a keyring. The operating system's answers, the keyring, Argon2 and
    SQLCipher are the record \<open>vault_env\<close>; what is relied on of SQLCipher is \<open>sqlcipher_laws\<close> (a
    file is a table of rows under one key, a statement is atomic, another key opens nothing) and
    \<open>sqlcipher_reads\<close>, which \<open>plain_vault\<close> satisfies. Use of an open vault is a step relation.

  \<^bold>\<open>Representation.\<close> A \<open>u64\<close> is a 64-bit word and wraps where the code adds unchecked; counts
  of things in memory are natural numbers. A \<open>HashMap\<close> is an association list with distinct
  keys, its order standing for the unspecified iteration order. Random values, clock readings
  and the randomness of seals are arguments. Loops that recurse on a shrinking measure
  (\<open>read_value\<close>, \<open>gc_loop\<close>, \<open>pump_from\<close>, \<open>dial_loop\<close>) have termination proofs; no fuel is used.
  The restocking loop of the client may run forever when its 32-bit counter wraps onto stored
  keys; it is a partial function to an option, and \<open>restock_terminates\<close> shows when it returns.

  \<^bold>\<open>What is shown.\<close> Wire: every object survives encoding, decoders return well-formed objects
  only, signatures cover every field and contexts never collide, sealed envelopes open to what
  was sealed. Home server: reachable states satisfy the invariant; appends, fetches and
  acknowledgements do what they say; share tokens work once, replays are refused, rates are
  bounded, revocation wipes, the two sweepers agree. Federation: every row is accounted for,
  frames are processed once, pinned servers connect, due rows arrive. Groups: reachable states
  satisfy the invariant, nobody joins unadmitted, a removal takes effect at once, a message is
  stored and copied to every live member. API: all requests keep both invariants, owner routes
  are authenticated for exactly the request, a group message's copies are queued, responses
  verify; the host refines the rooms. Client: messages, snapshots and stores survive encoding,
  restocking ends, a base key is taken once, what one installation issues another accepts,
  contacts are never weakened by discovery, mailbox rows come from signed answers only; in a
  group every leaf keeps the profile, a handshake of another member loses nobody and changes no
  credential id, a remove bundle removes the named leaf only; the vault opens again with what was
  last saved for the same passphrase and device and for no other, and its tables are read back;
  composed with the server, a fetch returns exactly the rows that are due. Bounds of the form \<open>n + 2 < 2 ^ 64\<close> count operations: below them no sequence number
  overflows.

  Several theorems record behaviour that differs from the documentation or from what the code
  means to do, such as \<open>inner_envelope_truncates\<close>, \<open>stale_counter_drops_row\<close>,
  \<open>lost_reply_stops_link\<close>, \<open>revocation_reaches_no_group\<close>, \<open>large_rows_block_mailbox\<close>,
  \<open>intro_clears_revocation\<close>, \<open>rehome_without_prekeys\<close>, \<open>flush_failure_drops_batch\<close>,
  \<open>refresh_takes_forged_revocation\<close>, \<open>double_add_accepted\<close>, \<open>leaf_identity_free\<close>,
  \<open>refused_update_counts\<close>, \<open>failed_create_blocks\<close> and \<open>torn_save\<close>.

  \<^bold>\<open>Not modelled.\<close> \<open>pg.rs\<close> (SQL; the journal it writes is modelled), \<open>tls.rs\<close> and the socket
  code of \<open>s2s.rs\<close>, of the HTTP library and of \<open>tor.rs\<close>; environment variables and file access outside the
  vault, logging; the client's calls (\<open>call.rs\<close>, \<open>audio.rs\<close>); the bindings
  \<open>nemo-ffi\<close> and the Kotlin application.
\<close>

end
